(* ===== verification/Grantor_Prelude.thy ===== *)
theory Grantor_Prelude
  imports Main "HOL-Library.Word" "HOL-Library.List_Lexorder" "HOL-Library.Char_ord"
begin

text \<open>
  The vocabulary every component shares: Go strings as byte lists, the helpers of the packages
  \<^verbatim>\<open>strings\<close>, \<^verbatim>\<open>slices\<close> and \<^verbatim>\<open>unicode/utf8\<close> the sources call, Go instants and
  durations, association lists for Go maps, and the theorem collections of the development.

  \<^item> A Go \<^verbatim>\<open>string\<close> or \<^verbatim>\<open>[]byte\<close> is a \<^typ>\<open>string\<close>; a \<^typ>\<open>char\<close> is one byte.
  \<^item> A Go \<^verbatim>\<open>time.Time\<close> is the number of nanoseconds since the zero time (January 1 of the
    year 1, UTC), so that \<^verbatim>\<open>IsZero\<close> is equality with 0. A \<^verbatim>\<open>time.Duration\<close> is its number
    of nanoseconds; \<^verbatim>\<open>Sub\<close> saturates at the limits of int64 as in Go.
  \<^item> A Go map is an association list in the order in which one \<^verbatim>\<open>range\<close> loop happens to visit
    it. Go leaves that order open, and so do the theorems, which hold for every list.
\<close>

named_theorems prog_simps "equations that execute effectful programs"
named_theorems go_time_simps "definitions of the Go time operations"
named_theorems wf_intros "introduction rules of the well-formedness predicates"

section \<open>Bytes and strings\<close>

type_synonym bytes = string

definition byte :: "char \<Rightarrow> nat" where
  "byte c = of_char c"

lemma byte_less [simp]: "byte c < 256"
  by (simp add: byte_def)

lemma byte_char_of [simp]: "n < 256 \<Longrightarrow> byte (char_of n) = n"
  by (simp add: byte_def of_char_mod_256)

lemma char_of_byte [simp]: "char_of (byte c) = c"
  by (simp add: byte_def)

lemma byte_inject [simp]: "byte c = byte d \<longleftrightarrow> c = d"
  by (simp add: byte_def)

subsection \<open>Package strings\<close>

definition strings_HasPrefix :: "string \<Rightarrow> string \<Rightarrow> bool" where
  "strings_HasPrefix s pre \<longleftrightarrow> take (length pre) s = pre"

definition strings_HasSuffix :: "string \<Rightarrow> string \<Rightarrow> bool" where
  "strings_HasSuffix s suf \<longleftrightarrow>
     length suf \<le> length s \<and> drop (length s - length suf) s = suf"

definition strings_CutPrefix :: "string \<Rightarrow> string \<Rightarrow> string option" where
  "strings_CutPrefix s pre =
     (if strings_HasPrefix s pre then Some (drop (length pre) s) else None)"

definition strings_Cut :: "string \<Rightarrow> char \<Rightarrow> string \<times> string \<times> bool" where
  "strings_Cut s sep =
     (let pre = takeWhile (\<lambda>c. c \<noteq> sep) s
      in (pre, drop (Suc (length pre)) s, sep \<in> set s))"

fun strings_Split :: "string \<Rightarrow> char \<Rightarrow> string list" where
  "strings_Split [] sep = [[]]"
| "strings_Split (c # s) sep =
     (if c = sep then [] # strings_Split s sep
      else (case strings_Split s sep of
              [] \<Rightarrow> [[c]]
            | f # fs \<Rightarrow> (c # f) # fs))"

fun strings_Join :: "string list \<Rightarrow> string \<Rightarrow> string" where
  "strings_Join [] sep = []"
| "strings_Join [f] sep = f"
| "strings_Join (f # g # fs) sep = f @ sep @ strings_Join (g # fs) sep"

definition lower_char :: "char \<Rightarrow> char" where
  "lower_char c = (if 65 \<le> byte c \<and> byte c \<le> 90 then char_of (byte c + 32) else c)"

text \<open>\<^verbatim>\<open>strings.ToLower\<close> and \<^verbatim>\<open>strings.EqualFold\<close>, on ASCII.\<close>

definition strings_ToLower :: "string \<Rightarrow> string" where
  "strings_ToLower s = map lower_char s"

definition strings_EqualFold :: "string \<Rightarrow> string \<Rightarrow> bool" where
  "strings_EqualFold s t \<longleftrightarrow> strings_ToLower s = strings_ToLower t"

lemma HasPrefix_append [simp]: "strings_HasPrefix (p @ s) p"
  by (simp add: strings_HasPrefix_def)

lemma HasPrefix_iff: "strings_HasPrefix s p \<longleftrightarrow> (\<exists>r. s = p @ r)"
  unfolding strings_HasPrefix_def
  by (metis append_eq_conv_conj append_take_drop_id)

lemma CutPrefix_Some: "strings_CutPrefix s p = Some r \<longleftrightarrow> s = p @ r"
  by (auto simp: strings_CutPrefix_def HasPrefix_iff)

lemma Split_not_Nil [simp]: "strings_Split s sep \<noteq> []"
  by (induction s) (auto split: list.split)

lemma Split_no_sep: "f \<in> set (strings_Split s sep) \<Longrightarrow> sep \<notin> set f"
proof (induction s arbitrary: f)
  case Nil
  then show ?case by simp
next
  case (Cons c s)
  then show ?case by (cases "strings_Split s sep") (auto split: if_splits)
qed

lemma Split_all_chars: "f \<in> set (strings_Split s sep) \<Longrightarrow> set f \<subseteq> set s"
proof (induction s arbitrary: f)
  case Nil
  then show ?case by simp
next
  case (Cons c s)
  then show ?case by (cases "strings_Split s sep") (fastforce split: if_splits)+
qed

lemma Split_free: "sep \<notin> set s \<Longrightarrow> strings_Split s sep = [s]"
  by (induction s) auto

lemma Split_append_sep:
  "sep \<notin> set s \<Longrightarrow> strings_Split (s @ sep # t) sep = s # strings_Split t sep"
  by (induction s) auto

lemma Split_append:
  "strings_Split (s @ sep # t) sep = strings_Split s sep @ strings_Split t sep"
proof (induction s)
  case (Cons c s)
  obtain f fs where "strings_Split s sep = f # fs"
    by (cases "strings_Split s sep") auto
  with Cons show ?case by simp
qed simp

lemma Cut_append:
  assumes "sep \<notin> set s"
  shows "strings_Cut (s @ sep # t) sep = (s, t, True)"
proof -
  have "takeWhile (\<lambda>c. c \<noteq> sep) (s @ sep # t) = s"
    using assms by (subst takeWhile_append2) auto
  then show ?thesis by (simp add: strings_Cut_def)
qed

lemma Cut_free:
  assumes "sep \<notin> set s"
  shows "strings_Cut s sep = (s, [], False)"
proof -
  have tw: "takeWhile (\<lambda>c. c \<noteq> sep) s = s"
    using assms by (auto simp: takeWhile_eq_all_conv)
  show ?thesis unfolding strings_Cut_def Let_def tw by (simp add: assms)
qed

lemma Split_Join:
  assumes "fs \<noteq> []" and "\<And>f. f \<in> set fs \<Longrightarrow> sep \<notin> set f"
  shows "strings_Split (strings_Join fs [sep]) sep = fs"
  using assms
proof (induction fs "[sep]" rule: strings_Join.induct)
  case 1
  then show ?case by simp
next
  case (2 f)
  then show ?case by (simp add: Split_free)
next
  case (3 f g fs)
  then show ?case by (simp add: Split_append_sep)
qed

subsection \<open>Package slices, and the selection loop of the sources\<close>

text \<open>
  The loop \<^verbatim>\<open>for v := range requested \<close>\<open>{\<close>\<^verbatim>\<open> if !contains(allowed, v) \<close>\<open>{ fail }\<close>\<^verbatim>\<open> if
  !contains(out, v) \<close>\<open>{\<close>\<^verbatim>\<open> out = append(out, v) \<close>\<open>} }\<close> appears in \<^verbatim>\<open>subsetOf\<close>,
  \<^verbatim>\<open>narrowScopes\<close>, \<^verbatim>\<open>narrowed\<close>, \<^verbatim>\<open>validateApproval\<close> and \<^verbatim>\<open>issueGrant\<close>. \<open>None\<close> is the
  failing branch, whose error each caller chooses.
\<close>

fun select_loop :: "'a list \<Rightarrow> 'a list \<Rightarrow> 'a list \<Rightarrow> 'a list option" where
  "select_loop allowed out [] = Some out"
| "select_loop allowed out (v # vs) =
     (if v \<notin> set allowed then None
      else if v \<in> set out then select_loop allowed out vs
      else select_loop allowed (out @ [v]) vs)"

text \<open>Duplicates dropped, first occurrences kept in order.\<close>

fun nub_loop :: "'a list \<Rightarrow> 'a list \<Rightarrow> 'a list" where
  "nub_loop out [] = out"
| "nub_loop out (v # vs) = nub_loop (if v \<in> set out then out else out @ [v]) vs"

lemma select_loop_Some:
  "select_loop allowed out vs = Some r \<Longrightarrow>
     r = nub_loop out vs \<and> set vs \<subseteq> set allowed"
  by (induction allowed out vs rule: select_loop.induct) (auto split: if_splits)

lemma select_loop_eq:
  "select_loop allowed out vs =
     (if set vs \<subseteq> set allowed then Some (nub_loop out vs) else None)"
  by (induction allowed out vs rule: select_loop.induct) auto

lemma set_nub_loop [simp]: "set (nub_loop out vs) = set out \<union> set vs"
  by (induction out vs rule: nub_loop.induct) auto

lemma distinct_nub_loop: "distinct out \<Longrightarrow> distinct (nub_loop out vs)"
  by (induction out vs rule: nub_loop.induct) auto

lemma nub_loop_distinct:
  "distinct (out @ vs) \<Longrightarrow> nub_loop out vs = out @ vs"
  by (induction out vs rule: nub_loop.induct) auto

lemma nub_loop_Nil_iff [simp]: "nub_loop out vs = [] \<longleftrightarrow> out = [] \<and> vs = []"
  by (metis set_nub_loop Un_empty set_empty)

section \<open>Go maps as association lists\<close>

definition map_has :: "('k \<times> 'v) list \<Rightarrow> 'k \<Rightarrow> bool" where
  "map_has m k \<longleftrightarrow> map_of m k \<noteq> None"

text \<open>A lookup of a missing key yields the zero value.\<close>

definition map_get :: "'v \<Rightarrow> ('k \<times> 'v) list \<Rightarrow> 'k \<Rightarrow> 'v" where
  "map_get z m k = (case map_of m k of None \<Rightarrow> z | Some v \<Rightarrow> v)"

definition map_put :: "'k \<Rightarrow> 'v \<Rightarrow> ('k \<times> 'v) list \<Rightarrow> ('k \<times> 'v) list" where
  "map_put k v m = (k, v) # filter (\<lambda>(k', _). k' \<noteq> k) m"

definition map_puts :: "('k \<times> 'v) list \<Rightarrow> ('k \<times> 'v) list \<Rightarrow> ('k \<times> 'v) list" where
  "map_puts kvs m = fold (\<lambda>(k, v). map_put k v) kvs m"

definition map_del :: "'k \<Rightarrow> ('k \<times> 'v) list \<Rightarrow> ('k \<times> 'v) list" where
  "map_del k m = filter (\<lambda>(k', _). k' \<noteq> k) m"

lemma map_of_filter_key:
  "map_of (filter (\<lambda>(k', _). k' \<noteq> k) m) = (map_of m)(k := None)"
  by (induction m) (auto simp: fun_eq_iff)

lemma map_of_map_put [simp]: "map_of (map_put k v m) = (map_of m)(k \<mapsto> v)"
  by (auto simp: map_put_def map_of_filter_key fun_eq_iff)

lemma map_of_map_del [simp]: "map_of (map_del k m) = (map_of m)(k := None)"
  by (simp add: map_del_def map_of_filter_key)

lemma map_puts_simps [simp]:
  "map_puts [] m = m"
  "map_puts ((k, v) # kvs) m = map_puts kvs (map_put k v m)"
  by (simp_all add: map_puts_def)

lemma map_of_map_puts_other:
  "k \<notin> fst ` set kvs \<Longrightarrow> map_of (map_puts kvs m) k = map_of m k"
  by (induction kvs arbitrary: m) auto

lemma map_of_map_puts:
  "distinct (map fst kvs) \<Longrightarrow>
     map_of (map_puts kvs m) k = (case map_of kvs k of Some v \<Rightarrow> Some v | None \<Rightarrow> map_of m k)"
proof (induction kvs arbitrary: m)
  case (Cons kv kvs)
  obtain a b where kv: "kv = (a, b)" by (cases kv)
  show ?case
  proof (cases "k = a")
    case True
    then show ?thesis using Cons.prems by (simp add: kv map_of_map_puts_other)
  next
    case False
    then show ?thesis using Cons.prems by (simp add: kv Cons.IH cong: option.case_cong)
  qed
qed simp

lemma map_of_filter_names:
  "map_of (filter (\<lambda>(name, _). P name) m) k = (if P k then map_of m k else None)"
  by (induction m) auto

lemma distinct_filter_names:
  "distinct (map fst m) \<Longrightarrow> distinct (map fst (filter P m))"
  by (induction m) auto

section \<open>UTF-8, as encoding/json treats strings\<close>

text \<open>
  \<^verbatim>\<open>utf8.DecodeRuneInString\<close>: the length of the well-formed rune at the start of a string,
  or 0 where there is none.
\<close>

definition in_range :: "nat \<Rightarrow> nat \<Rightarrow> char \<Rightarrow> bool" where
  "in_range lo hi c \<longleftrightarrow> lo \<le> byte c \<and> byte c \<le> hi"

fun rune_length :: "string \<Rightarrow> nat" where
  "rune_length [] = 0"
| "rune_length (a # s) =
     (if byte a < 128 then 1
      else if in_range 194 223 a then
        (case s of b # _ \<Rightarrow> if in_range 128 191 b then 2 else 0 | _ \<Rightarrow> 0)
      else if in_range 224 239 a then
        (case s of
           b # c # _ \<Rightarrow>
             if in_range (if byte a = 224 then 160 else 128) (if byte a = 237 then 159 else 191) b
                \<and> in_range 128 191 c then 3 else 0
         | _ \<Rightarrow> 0)
      else if in_range 240 244 a then
        (case s of
           b # c # d # _ \<Rightarrow>
             if in_range (if byte a = 240 then 144 else 128) (if byte a = 244 then 143 else 191) b
                \<and> in_range 128 191 c \<and> in_range 128 191 d then 4 else 0
         | _ \<Rightarrow> 0)
      else 0)"

definition replacement_rune :: string where
  "replacement_rune = [char_of (239::nat), char_of (191::nat), char_of (189::nat)]"

text \<open>
  A string after \<^verbatim>\<open>json.Marshal\<close> and \<^verbatim>\<open>json.Unmarshal\<close>: each byte that starts no
  well-formed rune comes back as U+FFFD.
\<close>

function json_string :: "string \<Rightarrow> string" where
  "json_string s =
     (if s = [] then []
      else if rune_length s = 0 then replacement_rune @ json_string (tl s)
      else take (rune_length s) s @ json_string (drop (rune_length s) s))"
  by pat_completeness auto
termination
  by (relation "measure length") (simp_all del: rune_length.simps)

declare json_string.simps [simp del]

lemma rune_length_ascii [simp]: "byte a < 128 \<Longrightarrow> rune_length (a # s) = 1"
  by simp

declare rune_length.simps(2) [simp del]

definition is_ascii :: "string \<Rightarrow> bool" where
  "is_ascii s \<longleftrightarrow> (\<forall>c \<in> set s. byte c < 128)"

lemma is_ascii_simps [simp]:
  "is_ascii []"
  "is_ascii (c # s) \<longleftrightarrow> byte c < 128 \<and> is_ascii s"
  "is_ascii (s @ t) \<longleftrightarrow> is_ascii s \<and> is_ascii t"
  by (auto simp: is_ascii_def)

lemma json_string_Nil [simp]: "json_string [] = []"
  by (simp add: json_string.simps)

lemma json_string_ascii_Cons [simp]:
  "byte c < 128 \<Longrightarrow> json_string (c # s) = c # json_string s"
  by (simp add: json_string.simps [of "c # s"])

lemma json_string_ascii: "is_ascii s \<Longrightarrow> json_string s = s"
  by (induction s) auto

lemma byte_replacement: "\<not> is_ascii (replacement_rune @ s)"
  by (simp add: replacement_rune_def)

text \<open>Only an ASCII string becomes an ASCII string.\<close>

lemma json_string_ascii_only: "is_ascii (json_string s) \<Longrightarrow> json_string s = s"
proof (induction s rule: json_string.induct)
  case (1 s)
  show ?case
  proof (cases s)
    case (Cons c t)
    show ?thesis
    proof (cases "rune_length s = 0")
      case True
      then have "json_string s = replacement_rune @ json_string (tl s)"
        by (subst json_string.simps) (use Cons in simp)
      with 1(3) show ?thesis using byte_replacement by simp
    next
      case False
      then have eq: "json_string s = take (rune_length s) s @ json_string (drop (rune_length s) s)"
        by (subst json_string.simps) (use Cons in simp)
      with 1(3) have "is_ascii (take (rune_length s) s)"
        and rest: "is_ascii (json_string (drop (rune_length s) s))" by auto
      moreover from False have "take (rune_length s) s = c # take (rune_length s - 1) t"
        using Cons by (cases "rune_length s") auto
      ultimately have "byte c < 128" by simp
      then show ?thesis using eq 1(2) [OF _ False rest] Cons by simp
    qed
  qed simp
qed

section \<open>Instants and durations\<close>

type_synonym time = int
type_synonym duration = int

definition nanosecond :: duration where "nanosecond = 1"
definition second :: duration where "second = 1000000000"
definition minute :: duration where "minute = 60000000000"
definition hour :: duration where "hour = 3600000000000"

definition time_IsZero :: "time \<Rightarrow> bool" where "time_IsZero t \<longleftrightarrow> t = 0"
definition time_Before :: "time \<Rightarrow> time \<Rightarrow> bool" where "time_Before t u \<longleftrightarrow> t < u"
definition time_After :: "time \<Rightarrow> time \<Rightarrow> bool" where "time_After t u \<longleftrightarrow> u < t"
definition time_Add :: "time \<Rightarrow> duration \<Rightarrow> time" where "time_Add t d = t + d"

definition max_duration :: duration where "max_duration = 2 ^ 63 - 1"
definition min_duration :: duration where "min_duration = - (2 ^ 63)"

definition time_Sub :: "time \<Rightarrow> time \<Rightarrow> duration" where
  "time_Sub t u = max min_duration (min max_duration (t - u))"

definition time_Truncate :: "time \<Rightarrow> duration \<Rightarrow> time" where
  "time_Truncate t d = (if d \<le> 0 then t else t - t mod d)"

text \<open>\<^verbatim>\<open>Unix\<close>: whole seconds since 1970; the zero time is 62135596800 seconds before it.\<close>

definition time_Unix :: "time \<Rightarrow> int" where
  "time_Unix t = t div second - 62135596800"

lemmas go_time_defs [go_time_simps] =
  time_IsZero_def time_Before_def time_After_def time_Add_def

lemma time_Truncate_second: "time_Truncate t second \<le> t \<and> t < time_Truncate t second + second"
  using pos_mod_bound [of "1000000000" t] pos_mod_sign [of "1000000000" t]
  by (simp add: time_Truncate_def second_def)

text \<open>Integer division of Go truncates toward zero.\<close>

definition go_div :: "int \<Rightarrow> int \<Rightarrow> int" where
  "go_div a b = (if b = 0 then 0 else sgn a * sgn b * (\<bar>a\<bar> div \<bar>b\<bar>))"

lemma go_div_nonneg: "0 \<le> a \<Longrightarrow> 0 < b \<Longrightarrow> go_div a b = a div b"
  by (cases "a = 0") (simp_all add: go_div_def)

section \<open>Sums\<close>

lemma sum_case_Inr: "(case x of Inl e \<Rightarrow> Inl e | Inr a \<Rightarrow> f a) = Inr b \<longleftrightarrow> (\<exists>a. x = Inr a \<and> f a = Inr b)"
  by (cases x) auto

lemma sum_case_Inl:
  "(case x of Inl e \<Rightarrow> Inl e | Inr a \<Rightarrow> f a) = Inl d \<longleftrightarrow> x = Inl d \<or> (\<exists>a. x = Inr a \<and> f a = Inl d)"
  by (cases x) auto

end
