(* ===== verification/Go_Encoding.thy ===== *)
theory Go_Encoding
  imports Grantor_Prelude
begin

unbundle bit_operations_syntax

text \<open>
  The encodings of the Go standard library the sources use: unpadded URL-safe base64
  (\<^verbatim>\<open>base64.RawURLEncoding\<close>), SHA-256, query escaping of \<^verbatim>\<open>net/url\<close> and
  \<^verbatim>\<open>strconv.ParseInt\<close> in base 10. They are the functions themselves, not parameters, so
  that token hashes and code challenges compute.
\<close>

section \<open>base64.RawURLEncoding\<close>

definition b64_char :: "nat \<Rightarrow> char" where
  "b64_char n =
     (if n < 26 then char_of (65 + n)
      else if n < 52 then char_of (71 + n)
      else if n < 62 then char_of (n - 4)
      else if n = 62 then CHR ''-'' else CHR ''_'')"

definition b64_value :: "char \<Rightarrow> nat option" where
  "b64_value c =
     (let n = byte c in
      if 65 \<le> n \<and> n \<le> 90 then Some (n - 65)
      else if 97 \<le> n \<and> n \<le> 122 then Some (n - 71)
      else if 48 \<le> n \<and> n \<le> 57 then Some (n + 4)
      else if n = 45 then Some 62
      else if n = 95 then Some 63
      else None)"

fun b64_EncodeToString :: "bytes \<Rightarrow> string" where
  "b64_EncodeToString [] = []"
| "b64_EncodeToString [a] = [b64_char (byte a div 4), b64_char (byte a mod 4 * 16)]"
| "b64_EncodeToString [a, b] =
     [b64_char (byte a div 4), b64_char (byte a mod 4 * 16 + byte b div 16),
      b64_char (byte b mod 16 * 4)]"
| "b64_EncodeToString (a # b # c # s) =
     b64_char (byte a div 4) # b64_char (byte a mod 4 * 16 + byte b div 16)
       # b64_char (byte b mod 16 * 4 + byte c div 64) # b64_char (byte c mod 64)
       # b64_EncodeToString s"

text \<open>The decoder skips line breaks and ignores the unused bits of the last character.\<close>

fun b64_decode_groups :: "string \<Rightarrow> bytes option" where
  "b64_decode_groups [] = Some []"
| "b64_decode_groups [_] = None"
| "b64_decode_groups [w, x] =
     (case (b64_value w, b64_value x) of
        (Some i, Some j) \<Rightarrow> Some [char_of (i * 4 + j div 16)]
      | _ \<Rightarrow> None)"
| "b64_decode_groups [w, x, y] =
     (case (b64_value w, b64_value x, b64_value y) of
        (Some i, Some j, Some k) \<Rightarrow>
          Some [char_of (i * 4 + j div 16), char_of (j mod 16 * 16 + k div 4)]
      | _ \<Rightarrow> None)"
| "b64_decode_groups (w # x # y # z # s) =
     (case (b64_value w, b64_value x, b64_value y, b64_value z) of
        (Some i, Some j, Some k, Some l) \<Rightarrow>
          map_option (\<lambda>bs. char_of (i * 4 + j div 16) # char_of (j mod 16 * 16 + k div 4)
                             # char_of (k mod 4 * 64 + l) # bs)
            (b64_decode_groups s)
      | _ \<Rightarrow> None)"

definition b64_DecodeString :: "string \<Rightarrow> bytes option" where
  "b64_DecodeString s =
     b64_decode_groups (filter (\<lambda>c. c \<noteq> CHR 0x0A \<and> c \<noteq> CHR 0x0D) s)"

lemma b64_value_char [simp]: "n < 64 \<Longrightarrow> b64_value (b64_char n) = Some n"
proof -
  assume n: "n < 64"
  consider "n < 26" | "26 \<le> n \<and> n < 52" | "52 \<le> n \<and> n < 62" | "n = 62" | "n = 63"
    using n by linarith
  then show ?thesis
    by cases (auto simp: b64_char_def b64_value_def Let_def byte_def of_char_mod_256)
qed

lemma b64_bits [simp]:
  "byte a div 4 < 64" "byte a mod 4 * 16 < 64" "byte a mod 4 * 16 + byte b div 16 < 64"
  "byte b mod 16 * 4 < 64" "byte b mod 16 * 4 + byte c div 64 < 64" "byte c mod 64 < 64"
proof -
  show "byte a div 4 < 64" using byte_less [of a] by linarith
  show "byte a mod 4 * 16 < 64" "byte b mod 16 * 4 < 64" "byte c mod 64 < 64" by auto
  show "byte a mod 4 * 16 + byte b div 16 < 64" using byte_less [of b] by linarith
  show "byte b mod 16 * 4 + byte c div 64 < 64" using byte_less [of c] by linarith
qed

lemma byte_div_small [simp]: "byte b div 16 div 16 = 0" "byte b div 64 div 4 = 0"
    "byte b div 16 mod 16 = byte b div 16" "byte b div 64 mod 4 = byte b div 64"
proof -
  have b: "byte b < 256" by simp
  from b show "byte b div 16 div 16 = 0" by linarith
  from b show "byte b div 64 div 4 = 0" by linarith
  from b show "byte b div 16 mod 16 = byte b div 16" by (intro mod_less) linarith
  from b show "byte b div 64 mod 4 = byte b div 64" by (intro mod_less) linarith
qed

lemma b64_decode_groups_encode: "b64_decode_groups (b64_EncodeToString s) = Some s"
proof (induction s rule: b64_EncodeToString.induct)
  case (2 a)
  have "byte a div 4 * 4 + byte a mod 4 * 16 div 16 = byte a" by simp
  then show ?case by simp
next
  case (3 a b)
  have "byte a div 4 * 4 + (byte a mod 4 * 16 + byte b div 16) div 16 = byte a"
    using byte_less [of b] by simp
  moreover have "(byte a mod 4 * 16 + byte b div 16) mod 16 * 16 + byte b mod 16 * 4 div 4 = byte b"
    using byte_less [of b] by simp
  ultimately show ?case by simp
next
  case (4 a b c s)
  have "byte a div 4 * 4 + (byte a mod 4 * 16 + byte b div 16) div 16 = byte a"
    using byte_less [of b] by simp
  moreover have "(byte a mod 4 * 16 + byte b div 16) mod 16 * 16
      + (byte b mod 16 * 4 + byte c div 64) div 4 = byte b"
    using byte_less [of b] byte_less [of c] by simp
  moreover have "(byte b mod 16 * 4 + byte c div 64) mod 4 * 64 + byte c mod 64 = byte c"
    using byte_less [of c] by simp
  ultimately show ?case using 4 by simp
qed simp

definition b64_alphabet :: "char set" where
  "b64_alphabet = {c. b64_value c \<noteq> None}"

lemma b64_char_alphabet [simp]: "n < 64 \<Longrightarrow> b64_char n \<in> b64_alphabet"
  by (simp add: b64_alphabet_def)

lemma b64_encode_alphabet: "set (b64_EncodeToString s) \<subseteq> b64_alphabet"
  by (induction s rule: b64_EncodeToString.induct) auto

lemma b64_alphabet_ascii: "c \<in> b64_alphabet \<Longrightarrow> byte c < 128"
  by (auto simp: b64_alphabet_def b64_value_def Let_def split: if_splits)

lemma b64_alphabet_not:
  "CHR '':'' \<notin> b64_alphabet" "CHR 0x0A \<notin> b64_alphabet" "CHR 0x0D \<notin> b64_alphabet"
  "CHR ''.'' \<notin> b64_alphabet"
  by (auto simp: b64_alphabet_def b64_value_def byte_def)

lemma b64_encode_no_colon: "CHR '':'' \<notin> set (b64_EncodeToString s)"
  using b64_encode_alphabet b64_alphabet_not by blast

lemma b64_encode_ascii: "is_ascii (b64_EncodeToString s)"
  using b64_encode_alphabet b64_alphabet_ascii by (auto simp: is_ascii_def)

lemma b64_roundtrip: "b64_DecodeString (b64_EncodeToString s) = Some s"
proof -
  have "filter (\<lambda>c. c \<noteq> CHR 0x0A \<and> c \<noteq> CHR 0x0D) (b64_EncodeToString s) = b64_EncodeToString s"
    using b64_encode_alphabet [of s] b64_alphabet_not by (auto simp: filter_id_conv)
  then show ?thesis by (simp add: b64_DecodeString_def b64_decode_groups_encode)
qed

lemma b64_encode_inj: "b64_EncodeToString s = b64_EncodeToString t \<Longrightarrow> s = t"
  by (metis b64_roundtrip option.inject)

lemma length_b64_encode: "length (b64_EncodeToString s) = (4 * length s + 2) div 3"
  by (induction s rule: b64_EncodeToString.induct) auto

section \<open>SHA-256\<close>

definition sha_k :: "32 word list" where
  "sha_k = [
     1116352408, 1899447441, 3049323471, 3921009573, 961987163, 1508970993, 2453635748,
     2870763221, 3624381080, 310598401, 607225278, 1426881987, 1925078388, 2162078206,
     2614888103, 3248222580, 3835390401, 4022224774, 264347078, 604807628, 770255983,
     1249150122, 1555081692, 1996064986, 2554220882, 2821834349, 2952996808, 3210313671,
     3336571891, 3584528711, 113926993, 338241895, 666307205, 773529912, 1294757372,
     1396182291, 1695183700, 1986661051, 2177026350, 2456956037, 2730485921, 2820302411,
     3259730800, 3345764771, 3516065817, 3600352804, 4094571909, 275423344, 430227734,
     506948616, 659060556, 883997877, 958139571, 1322822218, 1537002063, 1747873779,
     1955562222, 2024104815, 2227730452, 2361852424, 2428436474, 2756734187, 3204031479,
     3329325298]"

definition rotr32 :: "nat \<Rightarrow> 32 word \<Rightarrow> 32 word" where
  "rotr32 n x = drop_bit n x OR push_bit (32 - n) x"

definition small_sigma0 :: "32 word \<Rightarrow> 32 word" where
  "small_sigma0 x = rotr32 7 x XOR rotr32 18 x XOR drop_bit 3 x"
definition small_sigma1 :: "32 word \<Rightarrow> 32 word" where
  "small_sigma1 x = rotr32 17 x XOR rotr32 19 x XOR drop_bit 10 x"
definition big_sigma0 :: "32 word \<Rightarrow> 32 word" where
  "big_sigma0 x = rotr32 2 x XOR rotr32 13 x XOR rotr32 22 x"
definition big_sigma1 :: "32 word \<Rightarrow> 32 word" where
  "big_sigma1 x = rotr32 6 x XOR rotr32 11 x XOR rotr32 25 x"

text \<open>The message schedule, newest word first.\<close>

fun sha_schedule :: "nat \<Rightarrow> 32 word list \<Rightarrow> 32 word list" where
  "sha_schedule 0 w = rev w"
| "sha_schedule (Suc n) w =
     sha_schedule n ((small_sigma1 (w ! 1) + w ! 6 + small_sigma0 (w ! 14) + w ! 15) # w)"

datatype sha_state =
  Sha "32 word" "32 word" "32 word" "32 word" "32 word" "32 word" "32 word" "32 word"

fun sha_round :: "32 word \<Rightarrow> 32 word \<Rightarrow> sha_state \<Rightarrow> sha_state" where
  "sha_round k w (Sha a b c d e f g h) =
     (let t1 = h + big_sigma1 e + ((e AND f) XOR (NOT e AND g)) + k + w;
          t2 = big_sigma0 a + ((a AND b) XOR (a AND c) XOR (b AND c))
      in Sha (t1 + t2) a b c (d + t1) e f g)"

fun sha_rounds :: "32 word list \<Rightarrow> 32 word list \<Rightarrow> sha_state \<Rightarrow> sha_state" where
  "sha_rounds (k # ks) (w # ws) st = sha_rounds ks ws (sha_round k w st)"
| "sha_rounds _ _ st = st"

fun sha_add :: "sha_state \<Rightarrow> sha_state \<Rightarrow> sha_state" where
  "sha_add (Sha a b c d e f g h) (Sha a' b' c' d' e' f' g' h') =
     Sha (a + a') (b + b') (c + c') (d + d') (e + e') (f + f') (g + g') (h + h')"

definition word_of_bytes :: "char \<Rightarrow> char \<Rightarrow> char \<Rightarrow> char \<Rightarrow> 32 word" where
  "word_of_bytes a b c d = of_nat (((byte a * 256 + byte b) * 256 + byte c) * 256 + byte d)"

fun words_of_bytes :: "bytes \<Rightarrow> 32 word list" where
  "words_of_bytes (a # b # c # d # s) = word_of_bytes a b c d # words_of_bytes s"
| "words_of_bytes _ = []"

definition bytes_of_word :: "32 word \<Rightarrow> bytes" where
  "bytes_of_word w =
     (let n = unat w
      in [char_of (n div 16777216), char_of (n div 65536), char_of (n div 256), char_of n])"

definition bytes_of_state :: "sha_state \<Rightarrow> bytes" where
  "bytes_of_state st =
     (case st of Sha a b c d e f g h \<Rightarrow> concat (map bytes_of_word [a, b, c, d, e, f, g, h]))"

definition sha_block :: "sha_state \<Rightarrow> 32 word list \<Rightarrow> sha_state" where
  "sha_block st w = sha_add st (sha_rounds sha_k (sha_schedule 48 (rev w)) st)"

function sha_blocks :: "sha_state \<Rightarrow> 32 word list \<Rightarrow> sha_state" where
  "sha_blocks st w =
     (if w = [] then st else sha_blocks (sha_block st (take 16 w)) (drop 16 w))"
  by pat_completeness auto
termination
  by (relation "measure (\<lambda>(st, w). length w)") (simp_all add: length_greater_0_conv [symmetric] del: length_greater_0_conv)

declare sha_blocks.simps [simp del]

definition sha_init :: sha_state where
  "sha_init = Sha 0x6a09e667 0xbb67ae85 0x3c6ef372 0xa54ff53a 0x510e527f 0x9b05688c 0x1f83d9ab 0x5be0cd19"

definition sha_length_bytes :: "nat \<Rightarrow> bytes" where
  "sha_length_bytes n =
     map (\<lambda>i. char_of (8 * n div 256 ^ i)) [7, 6, 5, 4, 3, 2, 1, 0]"

definition sha_pad :: "bytes \<Rightarrow> bytes" where
  "sha_pad s =
     s @ char_of (128::nat) # replicate ((119 - length s mod 64) mod 64) (char_of (0::nat))
       @ sha_length_bytes (length s)"

definition sha256_Sum256 :: "bytes \<Rightarrow> bytes" where
  "sha256_Sum256 s = bytes_of_state (sha_blocks sha_init (words_of_bytes (sha_pad s)))"

lemma length_sha_pad: "length (sha_pad s) mod 64 = 0"
proof -
  have "(length s + (119 - length s mod 64) mod 64 + 9) mod 64 = 0"
  proof -
    define r where "r = length s mod 64"
    have r: "r < 64" by (simp add: r_def)
    have "(r + (119 - r) mod 64 + 9) mod 64 = 0"
    proof (cases "r \<le> 55")
      case True
      then have "(119 - r) mod 64 = 55 - r" by (simp add: mod_if)
      with True show ?thesis by simp
    next
      case False
      with r have "(119 - r) mod 64 = 119 - r" by simp
      with False r show ?thesis by simp
    qed
    then show ?thesis unfolding r_def by (metis add.assoc mod_add_left_eq)
  qed
  then show ?thesis by (simp add: sha_pad_def sha_length_bytes_def ac_simps)
qed

lemma length_sha256 [simp]: "length (sha256_Sum256 s) = 32"
  by (simp add: sha256_Sum256_def bytes_of_state_def bytes_of_word_def Let_def split: sha_state.split)

section \<open>Query escaping (net/url)\<close>

definition is_alnum :: "char \<Rightarrow> bool" where
  "is_alnum c \<longleftrightarrow>
     in_range 97 122 c \<or> in_range 65 90 c \<or> in_range 48 57 c"

definition url_unreserved :: "char \<Rightarrow> bool" where
  "url_unreserved c \<longleftrightarrow> is_alnum c \<or> c \<in> {CHR ''-'', CHR ''_'', CHR ''.'', CHR ''~''}"

definition hex_digit :: "nat \<Rightarrow> char" where
  "hex_digit n = (if n < 10 then char_of (48 + n) else char_of (55 + n))"

definition unhex :: "char \<Rightarrow> nat option" where
  "unhex c =
     (if in_range 48 57 c then Some (byte c - 48)
      else if in_range 97 102 c then Some (byte c - 87)
      else if in_range 65 70 c then Some (byte c - 55)
      else None)"

definition percent :: "char \<Rightarrow> string" where
  "percent c = [CHR ''%'', hex_digit (byte c div 16), hex_digit (byte c mod 16)]"

definition url_QueryEscape :: "string \<Rightarrow> string" where
  "url_QueryEscape s =
     concat (map (\<lambda>c. if c = CHR '' '' then [CHR ''+'']
                      else if url_unreserved c then [c] else percent c) s)"

fun url_QueryUnescape :: "string \<Rightarrow> string option" where
  "url_QueryUnescape [] = Some []"
| "url_QueryUnescape (c # s) =
     (if c = CHR ''%'' then
        (case s of
           x # y # r \<Rightarrow>
             (case (unhex x, unhex y) of
                (Some i, Some j) \<Rightarrow> map_option (\<lambda>t. char_of (i * 16 + j) # t) (url_QueryUnescape r)
              | _ \<Rightarrow> None)
         | _ \<Rightarrow> None)
      else if c = CHR ''+'' then map_option (\<lambda>t. CHR '' '' # t) (url_QueryUnescape s)
      else map_option (\<lambda>t. c # t) (url_QueryUnescape s))"

lemma unhex_hex_digit [simp]: "n < 16 \<Longrightarrow> unhex (hex_digit n) = Some n"
  by (auto simp: unhex_def hex_digit_def in_range_def)

lemma QueryUnescape_percent [simp]:
  "url_QueryUnescape (percent c @ s) = map_option (\<lambda>t. c # t) (url_QueryUnescape s)"
proof -
  have lt: "byte c div 16 < 16" "byte c mod 16 < 16" using byte_less [of c] by linarith+
  have "(char_of (byte c div 16 * 16 + byte c mod 16) :: char) = c"
    by (simp only: div_mult_mod_eq char_of_byte)
  with lt show ?thesis by (simp add: percent_def)
qed

lemma unreserved_not_special:
  "url_unreserved c \<Longrightarrow> c \<noteq> CHR ''%'' \<and> c \<noteq> CHR ''+'' \<and> c \<noteq> CHR ''&'' \<and> c \<noteq> CHR ''='' \<and> c \<noteq> CHR ''#'' \<and> c \<noteq> CHR '' ''"
  by (auto simp: url_unreserved_def is_alnum_def in_range_def byte_def)

lemma QueryEscape_Cons:
  "url_QueryEscape (c # s) =
     (if c = CHR '' '' then [CHR ''+''] else if url_unreserved c then [c] else percent c)
       @ url_QueryEscape s"
  by (simp add: url_QueryEscape_def)

lemma QueryEscape_Nil [simp]: "url_QueryEscape [] = []"
  by (simp add: url_QueryEscape_def)

lemma QueryUnescape_QueryEscape: "url_QueryUnescape (url_QueryEscape s) = Some s"
proof (induction s)
  case Nil
  then show ?case by simp
next
  case (Cons c s)
  then show ?case
    by (auto simp: QueryEscape_Cons dest: unreserved_not_special)
qed

section \<open>strconv.ParseInt with base 10 and 64 bits\<close>

fun parse_digits :: "nat \<Rightarrow> string \<Rightarrow> nat option" where
  "parse_digits acc [] = Some acc"
| "parse_digits acc (c # s) =
     (if in_range 48 57 c then parse_digits (acc * 10 + (byte c - 48)) s else None)"

definition strconv_ParseInt :: "string \<Rightarrow> int option" where
  "strconv_ParseInt s =
     (let neg = (take 1 s = ''-'');
          ds = (if take 1 s = ''-'' \<or> take 1 s = ''+'' then drop 1 s else s)
      in if ds = [] then None
         else (case parse_digits 0 ds of
                 None \<Rightarrow> None
               | Some n \<Rightarrow>
                   (let i = (if neg then - int n else int n)
                    in if - (2 ^ 63) \<le> i \<and> i < 2 ^ 63 then Some i else None)))"

lemma ParseInt_range: "strconv_ParseInt s = Some i \<Longrightarrow> - (2 ^ 63) \<le> i \<and> i < 2 ^ 63"
  by (auto simp: strconv_ParseInt_def Let_def split: if_splits option.splits)

end
