(* ===== verification/Go_Url.thy ===== *)
theory Go_Url
  imports Go_Encoding
begin

text \<open>
  The part of \<^verbatim>\<open>net/url\<close> and \<^verbatim>\<open>net\<close> that decides which redirect URIs and issuer URLs are
  accepted: \<^verbatim>\<open>url.Parse\<close> with the accessors \<^verbatim>\<open>Hostname\<close>, \<^verbatim>\<open>EscapedPath\<close> and \<^verbatim>\<open>IsAbs\<close>,
  \<^verbatim>\<open>url.Values.Encode\<close>, and \<^verbatim>\<open>net.ParseIP\<close> with \<^verbatim>\<open>IsLoopback\<close>. Parse errors are
  \<open>None\<close>; of the user information only its presence is kept.
\<close>

section \<open>url.Parse\<close>

record URL =
  uScheme :: string
  uOpaque :: string
  uUser :: bool
  uHost :: string
  uPath :: string
  uRawPath :: string
  uRawQuery :: string
  uFragment :: string

text \<open>\<^verbatim>\<open>getScheme\<close>: \<open>None\<close> is the error \<^verbatim>\<open>missing protocol scheme\<close>.\<close>

fun get_scheme_at :: "string \<Rightarrow> string \<Rightarrow> string \<Rightarrow> (string \<times> string) option" where
  "get_scheme_at raw pre [] = Some ([], raw)"
| "get_scheme_at raw pre (c # s) =
     (if in_range 97 122 c \<or> in_range 65 90 c then get_scheme_at raw (pre @ [c]) s
      else if in_range 48 57 c \<or> c \<in> {CHR ''+'', CHR ''-'', CHR ''.''} then
        (if pre = [] then Some ([], raw) else get_scheme_at raw (pre @ [c]) s)
      else if c = CHR '':'' then (if pre = [] then None else Some (pre, s))
      else Some ([], raw))"

definition get_scheme :: "string \<Rightarrow> (string \<times> string) option" where
  "get_scheme raw = get_scheme_at raw [] raw"

datatype url_mode = EncodePath | EncodeHost | EncodeZone | EncodeUserPassword | EncodeFragment

definition url_shouldEscape :: "url_mode \<Rightarrow> char \<Rightarrow> bool" where
  "url_shouldEscape m c =
     (if is_alnum c then False
      else if m \<in> {EncodeHost, EncodeZone} \<and>
              c \<in> {CHR ''!'', CHR ''$'', CHR ''&'', CHR 0x27, CHR ''('', CHR '')'', CHR ''*'',
                    CHR ''+'', CHR '','', CHR '';'', CHR ''='', CHR '':'', CHR ''['', CHR '']'',
                    CHR ''<'', CHR ''>'', CHR 0x22} then False
      else if c \<in> {CHR ''-'', CHR ''_'', CHR ''.'', CHR ''~''} then False
      else if c \<in> {CHR ''$'', CHR ''&'', CHR ''+'', CHR '','', CHR ''/'', CHR '':'', CHR '';'',
                     CHR ''='', CHR ''?'', CHR ''@''} then
        (case m of
           EncodePath \<Rightarrow> c = CHR ''?''
         | EncodeUserPassword \<Rightarrow> c \<in> {CHR ''@'', CHR ''/'', CHR ''?'', CHR '':''}
         | EncodeFragment \<Rightarrow> False
         | _ \<Rightarrow> True)
      else if m = EncodeFragment \<and> c \<in> {CHR ''!'', CHR ''('', CHR '')'', CHR ''*''} then False
      else True)"

fun url_unescape :: "url_mode \<Rightarrow> string \<Rightarrow> string option" where
  "url_unescape m [] = Some []"
| "url_unescape m (c # s) =
     (if c = CHR ''%'' then
        (case s of
           x # y # r \<Rightarrow>
             (case (unhex x, unhex y) of
                (Some i, Some j) \<Rightarrow>
                  if m = EncodeHost \<and> i < 8 \<and> [x, y] \<noteq> ''25'' then None
                  else if m = EncodeZone \<and> [x, y] \<noteq> ''25'' \<and> i * 16 + j \<noteq> 32
                          \<and> url_shouldEscape EncodeHost (char_of (i * 16 + j)) then None
                  else map_option (\<lambda>t. char_of (i * 16 + j) # t) (url_unescape m r)
              | _ \<Rightarrow> None)
         | _ \<Rightarrow> None)
      else if m \<in> {EncodeHost, EncodeZone} \<and> byte c < 128 \<and> url_shouldEscape m c then None
      else map_option (\<lambda>t. c # t) (url_unescape m s))"

definition url_escape :: "url_mode \<Rightarrow> string \<Rightarrow> string" where
  "url_escape m s = concat (map (\<lambda>c. if url_shouldEscape m c then percent c else [c]) s)"

text \<open>\<^verbatim>\<open>validEncoded\<close> for a path.\<close>

definition url_validEncodedPath :: "string \<Rightarrow> bool" where
  "url_validEncodedPath s =
     (\<forall>c \<in> set s.
        c \<in> {CHR ''!'', CHR ''$'', CHR ''&'', CHR 0x27, CHR ''('', CHR '')'', CHR ''*'', CHR ''+'',
              CHR '','', CHR '';'', CHR ''='', CHR '':'', CHR ''@'', CHR ''['', CHR '']'', CHR ''%''}
        \<or> \<not> url_shouldEscape EncodePath c)"

definition url_validOptionalPort :: "string \<Rightarrow> bool" where
  "url_validOptionalPort port =
     (case port of [] \<Rightarrow> True | c # ds \<Rightarrow> c = CHR '':'' \<and> (\<forall>d \<in> set ds. in_range 48 57 d))"

text \<open>The part after the last occurrence of a byte, with the part before it.\<close>

definition cut_last :: "char \<Rightarrow> string \<Rightarrow> (string \<times> string) option" where
  "cut_last c s =
     (if c \<in> set s then
        (let after = rev (takeWhile (\<lambda>x. x \<noteq> c) (rev s))
         in Some (take (length s - length after - 1) s, after))
      else None)"

definition url_validUserinfo :: "string \<Rightarrow> bool" where
  "url_validUserinfo s =
     (\<forall>c \<in> set s. is_alnum c \<or>
        c \<in> {CHR ''-'', CHR ''.'', CHR ''_'', CHR '':'', CHR ''~'', CHR ''!'', CHR ''$'', CHR ''&'',
              CHR 0x27, CHR ''('', CHR '')'', CHR ''*'', CHR ''+'', CHR '','', CHR '';'', CHR ''='',
              CHR ''%'', CHR ''@''})"

section \<open>net.ParseIP\<close>

definition dec_field :: "string \<Rightarrow> nat option" where
  "dec_field s =
     (if s = [] \<or> 3 < length s \<or> (take 1 s = ''0'' \<and> s \<noteq> ''0'') then None
      else (case parse_digits 0 s of
              Some n \<Rightarrow> if n \<le> 255 then Some n else None
            | None \<Rightarrow> None))"

definition parse_ipv4 :: "string \<Rightarrow> nat list option" where
  "parse_ipv4 s =
     (case map dec_field (strings_Split s CHR ''.'') of
        [Some a, Some b, Some c, Some d] \<Rightarrow> Some [a, b, c, d]
      | _ \<Rightarrow> None)"

fun hex_acc :: "nat \<Rightarrow> string \<Rightarrow> nat option" where
  "hex_acc acc [] = Some acc"
| "hex_acc acc (c # s) = (case unhex c of None \<Rightarrow> None | Some d \<Rightarrow> hex_acc (acc * 16 + d) s)"

definition hex_field :: "string \<Rightarrow> nat option" where
  "hex_field s = (if s = [] \<or> 4 < length s then None else hex_acc 0 s)"

text \<open>The 16-bit groups of a sequence of fields without an ellipsis; the last field of the
  address may be a dotted quad.\<close>

fun ipv6_groups :: "bool \<Rightarrow> string list \<Rightarrow> nat list option" where
  "ipv6_groups lst [] = Some []"
| "ipv6_groups lst [f] =
     (if lst \<and> CHR ''.'' \<in> set f then
        (case parse_ipv4 f of
           Some [a, b, c, d] \<Rightarrow> Some [a * 256 + b, c * 256 + d]
         | _ \<Rightarrow> None)
      else map_option (\<lambda>g. [g]) (hex_field f))"
| "ipv6_groups lst (f # fs) =
     (case (hex_field f, ipv6_groups lst fs) of
        (Some g, Some gs) \<Rightarrow> Some (g # gs)
      | _ \<Rightarrow> None)"

text \<open>The first empty field in the interior is the ellipsis \<^verbatim>\<open>::\<close>; at either end of the address
  it stands next to a second empty field.\<close>

fun split_ellipsis :: "string list \<Rightarrow> (string list \<times> string list) option" where
  "split_ellipsis [] = None"
| "split_ellipsis (f # fs) =
     (if f = [] then Some ([], fs)
      else map_option (\<lambda>(a, b). (f # a, b)) (split_ellipsis fs))"

definition parse_ipv6 :: "string \<Rightarrow> nat list option" where
  "parse_ipv6 s =
     (let fs = strings_Split s CHR '':'' in
      if [] \<notin> set fs then
        (case ipv6_groups True fs of
           Some gs \<Rightarrow> if length gs = 8 then Some gs else None
         | None \<Rightarrow> None)
      else
        (let inner = (if take 2 fs = [[], []] then tl fs else fs);
             inner = (if 2 \<le> length inner \<and> drop (length inner - 2) inner = [[], []]
                      then butlast inner else inner)
         in (case split_ellipsis inner of
               None \<Rightarrow> None
             | Some (a, b) \<Rightarrow>
                 (case (ipv6_groups False a, ipv6_groups True b) of
                    (Some ga, Some gb) \<Rightarrow>
                      if length ga + length gb \<le> 7
                      then Some (ga @ replicate (8 - length ga - length gb) 0 @ gb) else None
                  | _ \<Rightarrow> None))))"

datatype IP = IPv4 "nat list" | IPv6 "nat list"

definition net_ParseIP :: "string \<Rightarrow> IP option" where
  "net_ParseIP s =
     (if CHR '':'' \<in> set s then map_option IPv6 (parse_ipv6 s)
      else map_option IPv4 (parse_ipv4 s))"

text \<open>IPv4 addresses written as IPv6 (\<^verbatim>\<open>::ffff:a.b.c.d\<close>) count as IPv4.\<close>

definition ip_IsLoopback :: "IP \<Rightarrow> bool" where
  "ip_IsLoopback ip =
     (case ip of
        IPv4 (a # _) \<Rightarrow> a = 127
      | IPv6 gs \<Rightarrow>
          if length gs = 8 \<and> take 6 gs = [0, 0, 0, 0, 0, 65535] then gs ! 6 div 256 = 127
          else gs = [0, 0, 0, 0, 0, 0, 0, 1]
      | _ \<Rightarrow> False)"

section \<open>Authority, host and the parser itself\<close>

text \<open>
  \<^verbatim>\<open>parseHost\<close>: an IP literal in brackets or a name, with an optional numeric port. A host
  outside brackets holds at most the one colon of its port, and brackets hold an IPv6 address.
\<close>

definition url_parseHost :: "string \<Rightarrow> string option" where
  "url_parseHost host =
     (if take 1 host = ''['' then
        (case cut_last CHR '']'' host of
           None \<Rightarrow> None
         | Some (lit, port) \<Rightarrow>
             if \<not> url_validOptionalPort port then None
             else if parse_ipv6 (tl lit) = None then None
             else url_unescape EncodeHost host)
      else if CHR ''['' \<in> set host then None
      else (case cut_last CHR '':'' host of
              None \<Rightarrow> url_unescape EncodeHost host
            | Some (name, port) \<Rightarrow>
                if CHR '':'' \<in> set name \<or> \<not> url_validOptionalPort (CHR '':'' # port) then None
                else url_unescape EncodeHost host))"

definition url_parseAuthority :: "string \<Rightarrow> (bool \<times> string) option" where
  "url_parseAuthority auth =
     (case cut_last CHR ''@'' auth of
        None \<Rightarrow> map_option (\<lambda>h. (False, h)) (url_parseHost auth)
      | Some (userinfo, host) \<Rightarrow>
          (case url_parseHost host of
             None \<Rightarrow> None
           | Some h \<Rightarrow>
               if url_validUserinfo userinfo \<and> url_unescape EncodeUserPassword userinfo \<noteq> None
               then Some (True, h) else None))"

definition url_setPath :: "URL \<Rightarrow> string \<Rightarrow> URL option" where
  "url_setPath u p =
     (case url_unescape EncodePath p of
        None \<Rightarrow> None
      | Some path \<Rightarrow>
          Some (u\<lparr>uPath := path, uRawPath := (if url_escape EncodePath path = p then [] else p)\<rparr>))"

definition url_empty :: URL where
  "url_empty = \<lparr>uScheme = [], uOpaque = [], uUser = False, uHost = [], uPath = [], uRawPath = [],
                uRawQuery = [], uFragment = []\<rparr>"

definition is_ctl :: "char \<Rightarrow> bool" where
  "is_ctl c \<longleftrightarrow> byte c < 32 \<or> byte c = 127"

definition url_parse_rest :: "URL \<Rightarrow> string \<Rightarrow> URL option" where
  "url_parse_rest u rest =
     (if \<not> strings_HasPrefix rest ''/'' then
        (if uScheme u \<noteq> [] then Some (u\<lparr>uOpaque := rest\<rparr>)
         else if CHR '':'' \<in> set (takeWhile (\<lambda>c. c \<noteq> CHR ''/'') rest) then None
         else url_setPath u rest)
      else if (uScheme u \<noteq> [] \<or> \<not> strings_HasPrefix rest ''///'') \<and> strings_HasPrefix rest ''//'' then
        (let authority = takeWhile (\<lambda>c. c \<noteq> CHR ''/'') (drop 2 rest);
             path = dropWhile (\<lambda>c. c \<noteq> CHR ''/'') (drop 2 rest)
         in (case url_parseAuthority authority of
               None \<Rightarrow> None
             | Some (user, host) \<Rightarrow> url_setPath (u\<lparr>uUser := user, uHost := host\<rparr>) path))
      else url_setPath u rest)"

definition url_parse_nofrag :: "string \<Rightarrow> URL option" where
  "url_parse_nofrag raw =
     (if \<exists>c \<in> set raw. is_ctl c then None
      else if raw = ''*'' then Some (url_empty\<lparr>uPath := ''*''\<rparr>)
      else (case get_scheme raw of
              None \<Rightarrow> None
            | Some (scheme, rest) \<Rightarrow>
                (let (body, query, _) = strings_Cut rest CHR ''?'';
                     u = url_empty\<lparr>uScheme := strings_ToLower scheme, uRawQuery := query\<rparr>
                 in url_parse_rest u body)))"

definition url_Parse :: "string \<Rightarrow> URL option" where
  "url_Parse raw =
     (let (u, frag, _) = strings_Cut raw CHR ''#'' in
      case url_parse_nofrag u of
        None \<Rightarrow> None
      | Some url \<Rightarrow>
          if frag = [] then Some url
          else map_option (\<lambda>f. url\<lparr>uFragment := f\<rparr>) (url_unescape EncodeFragment frag))"

definition url_IsAbs :: "URL \<Rightarrow> bool" where
  "url_IsAbs u \<longleftrightarrow> uScheme u \<noteq> []"

definition url_Hostname :: "URL \<Rightarrow> string" where
  "url_Hostname u =
     (let host = (case cut_last CHR '':'' (uHost u) of
                    Some (h, port) \<Rightarrow>
                      if url_validOptionalPort (CHR '':'' # port) then h else uHost u
                  | None \<Rightarrow> uHost u)
      in if strings_HasPrefix host ''['' \<and> strings_HasSuffix host '']''
         then butlast (tl host) else host)"

definition url_EscapedPath :: "URL \<Rightarrow> string" where
  "url_EscapedPath u =
     (if uRawPath u \<noteq> [] \<and> url_validEncodedPath (uRawPath u)
         \<and> url_unescape EncodePath (uRawPath u) = Some (uPath u) then uRawPath u
      else if uPath u = ''*'' then ''*''
      else url_escape EncodePath (uPath u))"

section \<open>url.Values\<close>

type_synonym url_values = "(string \<times> string list) list"

definition values_encode_pair :: "string \<Rightarrow> string \<Rightarrow> string" where
  "values_encode_pair k v = url_QueryEscape k @ ''='' @ url_QueryEscape v"

text \<open>\<^verbatim>\<open>Values.Encode\<close> writes the keys in sorted order.\<close>

definition values_Encode :: "url_values \<Rightarrow> string" where
  "values_Encode vs =
     strings_Join
       (concat (map (\<lambda>(k, xs). map (values_encode_pair k) xs) (sort_key fst vs))) ''&''"

text \<open>\<^verbatim>\<open>Values.Get\<close>: the first value, or the empty string.\<close>

definition values_Get :: "url_values \<Rightarrow> string \<Rightarrow> string" where
  "values_Get vs k = (case map_of vs k of Some (x # _) \<Rightarrow> x | _ \<Rightarrow> [])"

text \<open>\<^verbatim>\<open>url.ParseQuery\<close> as a list of pairs in order; pairs that do not decode are dropped, as
  \<^verbatim>\<open>URL.Query\<close> drops them.\<close>

definition parse_query_pair :: "string \<Rightarrow> (string \<times> string) option" where
  "parse_query_pair s =
     (if s = [] \<or> CHR '';'' \<in> set s then None
      else (let (k, v, _) = strings_Cut s CHR ''='' in
            case (url_QueryUnescape k, url_QueryUnescape v) of
              (Some k', Some v') \<Rightarrow> Some (k', v')
            | _ \<Rightarrow> None))"

definition parse_query :: "string \<Rightarrow> (string \<times> string) list" where
  "parse_query q = List.map_filter parse_query_pair (strings_Split q CHR ''&'')"

end
