(* ===== verification/Grantor_Types.thy ===== *)
theory Grantor_Types
  imports Go_Url
begin

text \<open>
  The small data types several components pass around: the public and private keys behind
  \<^verbatim>\<open>crypto.Signer\<close>, the validated keys of an issuer (keys.go), the validated issuer
  (provider.go) and the place an authorization response is delivered to (authorize.go).
\<close>

section \<open>Keys\<close>

datatype curve = P224 | P256 | P384 | P521

text \<open>What \<^verbatim>\<open>Signer.Public()\<close> may return. An RSA key is its modulus; the other keys are opaque
  bytes.\<close>

datatype public_key =
  RSAPublicKey nat
| ECDSAPublicKey curve bytes
| Ed25519PublicKey bytes
| OtherPublicKey bytes

text \<open>A \<^verbatim>\<open>crypto.Signer\<close>: a handle to a private key, which only signing (a parameter) reads,
  with its public key.\<close>

datatype crypto_signer = Signer (signer_handle: nat) (signer_Public: public_key)

type_synonym alg = string

record preparedKey =
  pkID :: string
  pkAlg :: alg
  pkSigner :: crypto_signer

record keySet =
  ksKeys :: "preparedKey list"

section \<open>Issuers and response targets\<close>

record resolvedIssuer =
  rsURL :: string
  rsBasePath :: string
  rsSecure :: bool
  rsKeys :: keySet

record authorizationTarget =
  atRedirectURI :: string
  atMode :: string
  atState :: string

end
