(* ===== verification/Grantor_Errors.thy ===== *)
theory Grantor_Errors
  imports Grantor_Types
begin

text \<open>
  errors.go: protocol errors, Go error values and their conversion.

  Every Go error the sources build is a value of \<open>goerr\<close>: the exported sentinels, plain errors
  made by \<^verbatim>\<open>errors.New\<close> or \<^verbatim>\<open>fmt.Errorf\<close>, errors wrapping others with \<^verbatim>\<open>%w\<close>, a
  \<^verbatim>\<open>*Error\<close> (and the nil pointer of that type) and the \<^verbatim>\<open>*authorizationError\<close> of
  authorize.go. The texts of \<open>perror\<close>, which are sent to clients, are those of the sources; the
  texts of the other errors are only logged, and stand here without the values they quote.
\<close>

section \<open>Error values\<close>

datatype goerr =
  ErrNotFound
| ErrConflict
| ErrAuthorizationRequestNotFound
| ErrAuthorizationRequestModified
| ErrInvalidApproval
| ErrInvalidAuthorizationRequest
| ENew string
| EWrap string "goerr list"
| EProto perror
| ENilProto
| EAuth perror resolvedIssuer "authorizationTarget option"
and perror =
  PError (eCode: string) (eDescription: string) (eURI: string) (eStatusCode: int)
         (eCause: "goerr option")

text \<open>
  \<^verbatim>\<open>errors.Is\<close> for a sentinel. An error of type \<^verbatim>\<open>*Error\<close> unwraps to its cause, an
  \<^verbatim>\<open>*authorizationError\<close> to its \<^verbatim>\<open>*Error\<close>. (Go would panic on a nil \<^verbatim>\<open>*Error\<close>, whose
  Unwrap method reads the cause.)
\<close>

fun errors_Is :: "goerr \<Rightarrow> goerr \<Rightarrow> bool"
  and errors_Is_list :: "goerr list \<Rightarrow> goerr \<Rightarrow> bool"
  and errors_Is_perror :: "perror \<Rightarrow> goerr \<Rightarrow> bool" where
  "errors_Is (EWrap m es) t = errors_Is_list es t"
| "errors_Is (EProto e) t = errors_Is_perror e t"
| "errors_Is (EAuth e iss tgt) t = errors_Is_perror e t"
| "errors_Is e t = (e = t)"
| "errors_Is_list [] t = False"
| "errors_Is_list (e # es) t = (errors_Is e t \<or> errors_Is_list es t)"
| "errors_Is_perror (PError c d u s None) t = False"
| "errors_Is_perror (PError c d u s (Some e)) t = errors_Is e t"

text \<open>\<^verbatim>\<open>errors.As(err, &e)\<close> with \<^verbatim>\<open>var e *Error\<close>: the first \<^verbatim>\<open>*Error\<close> of the chain, which
  is \<open>Some None\<close> when that pointer is nil.\<close>

fun errors_As :: "goerr \<Rightarrow> perror option option"
  and errors_As_list :: "goerr list \<Rightarrow> perror option option" where
  "errors_As (EWrap m es) = errors_As_list es"
| "errors_As (EProto e) = Some (Some e)"
| "errors_As ENilProto = Some None"
| "errors_As (EAuth e iss tgt) = Some (Some e)"
| "errors_As e = None"
| "errors_As_list [] = None"
| "errors_As_list (e # es) =
     (case errors_As e of None \<Rightarrow> errors_As_list es | Some r \<Rightarrow> Some r)"

text \<open>\<^verbatim>\<open>errors.As(err, &ae)\<close> with \<^verbatim>\<open>var ae *authorizationError\<close>.\<close>

fun errors_As_auth :: "goerr \<Rightarrow> (perror \<times> resolvedIssuer \<times> authorizationTarget option) option"
  and errors_As_auth_list ::
    "goerr list \<Rightarrow> (perror \<times> resolvedIssuer \<times> authorizationTarget option) option"
  and errors_As_auth_perror ::
    "perror \<Rightarrow> (perror \<times> resolvedIssuer \<times> authorizationTarget option) option" where
  "errors_As_auth (EAuth e iss tgt) = Some (e, iss, tgt)"
| "errors_As_auth (EWrap m es) = errors_As_auth_list es"
| "errors_As_auth (EProto e) = errors_As_auth_perror e"
| "errors_As_auth e = None"
| "errors_As_auth_list [] = None"
| "errors_As_auth_list (e # es) =
     (case errors_As_auth e of None \<Rightarrow> errors_As_auth_list es | Some r \<Rightarrow> Some r)"
| "errors_As_auth_perror (PError c d u s None) = None"
| "errors_As_auth_perror (PError c d u s (Some e)) = errors_As_auth e"

section \<open>Error codes\<close>

abbreviation (input) "CodeInvalidRequest \<equiv> ''invalid_request''"
abbreviation (input) "CodeInvalidClient \<equiv> ''invalid_client''"
abbreviation (input) "CodeInvalidGrant \<equiv> ''invalid_grant''"
abbreviation (input) "CodeUnauthorizedClient \<equiv> ''unauthorized_client''"
abbreviation (input) "CodeUnsupportedGrantType \<equiv> ''unsupported_grant_type''"
abbreviation (input) "CodeUnsupportedResponseType \<equiv> ''unsupported_response_type''"
abbreviation (input) "CodeInvalidScope \<equiv> ''invalid_scope''"
abbreviation (input) "CodeAccessDenied \<equiv> ''access_denied''"
abbreviation (input) "CodeServerError \<equiv> ''server_error''"
abbreviation (input) "CodeTemporarilyUnavailable \<equiv> ''temporarily_unavailable''"
abbreviation (input) "CodeInvalidToken \<equiv> ''invalid_token''"
abbreviation (input) "CodeInsufficientScope \<equiv> ''insufficient_scope''"
abbreviation (input) "CodeInvalidRequestURI \<equiv> ''invalid_request_uri''"
abbreviation (input) "CodeRequestNotSupported \<equiv> ''request_not_supported''"
abbreviation (input) "CodeRequestURINotSupported \<equiv> ''request_uri_not_supported''"
abbreviation (input) "CodeInvalidTarget \<equiv> ''invalid_target''"

section \<open>Constructors and conversions\<close>

definition perror_Error :: "perror \<Rightarrow> string" where
  "perror_Error e =
     (if eDescription e = [] then eCode e else eCode e @ '': '' @ eDescription e)"

definition perror_HTTPStatus :: "perror \<Rightarrow> int" where
  "perror_HTTPStatus e =
     (if 400 \<le> eStatusCode e \<and> eStatusCode e \<le> 599 then eStatusCode e
      else if eCode e = CodeInvalidClient \<or> eCode e = CodeInvalidToken then 401
      else if eCode e = CodeInsufficientScope then 403
      else if eCode e = CodeServerError then 500
      else if eCode e = CodeTemporarilyUnavailable then 503
      else 400)"

definition newError :: "string \<Rightarrow> string \<Rightarrow> perror" where
  "newError code description = PError code description [] 0 None"

definition errInvalidRequest :: "string \<Rightarrow> perror" where
  "errInvalidRequest description = newError CodeInvalidRequest description"

definition errInvalidGrant :: "string \<Rightarrow> perror" where
  "errInvalidGrant description = newError CodeInvalidGrant description"

definition errInvalidClient :: "string \<Rightarrow> perror" where
  "errInvalidClient description = newError CodeInvalidClient description"

definition errServer :: "goerr \<Rightarrow> perror" where
  "errServer cause = PError CodeServerError [] [] 0 (Some cause)"

definition asProtocolError :: "goerr \<Rightarrow> perror" where
  "asProtocolError err =
     (case errors_As err of
        Some None \<Rightarrow> errServer (ENew ''a nil *grantor.Error was returned as an error'')
      | Some (Some e) \<Rightarrow> e
      | None \<Rightarrow> errServer err)"

definition errorCodeByte :: "char \<Rightarrow> bool" where
  "errorCodeByte c \<longleftrightarrow> \<not> (byte c < 0x20 \<or> byte c > 0x7e \<or> c = CHR 0x22 \<or> c = CHR 0x5c)"

definition validErrorCode :: "string \<Rightarrow> bool" where
  "validErrorCode code \<longleftrightarrow> code \<noteq> [] \<and> list_all errorCodeByte code"

text \<open>
  \<^verbatim>\<open>strings.Map\<close> runs over runes; every rune outside ASCII, and U+FFFD for a byte that is no
  UTF-8, is above 0x7e and dropped, so that dropping bytes gives the same string.
\<close>

definition sanitizeURI :: "string \<Rightarrow> string" where
  "sanitizeURI s =
     filter (\<lambda>c. \<not> (byte c \<le> 0x20 \<or> byte c > 0x7e \<or> c = CHR 0x22 \<or> c = CHR 0x5c)) s"

definition sanitizeDescription :: "string \<Rightarrow> string" where
  "sanitizeDescription s =
     filter (\<lambda>c. \<not> (byte c < 0x20 \<or> byte c > 0x7e \<or> c = CHR 0x22 \<or> c = CHR 0x5c)) s"

lemmas perror_defs = newError_def errInvalidRequest_def errInvalidGrant_def errInvalidClient_def
  errServer_def

lemma perror_sel [simp]:
  "eCode (newError c d) = c" "eDescription (newError c d) = d" "eCause (newError c d) = None"
  "eCode (errInvalidRequest d) = CodeInvalidRequest" "eDescription (errInvalidRequest d) = d"
  "eCode (errInvalidGrant d) = CodeInvalidGrant" "eDescription (errInvalidGrant d) = d"
  "eCode (errInvalidClient d) = CodeInvalidClient" "eDescription (errInvalidClient d) = d"
  "eCode (errServer e) = CodeServerError" "eDescription (errServer e) = []"
  "eCause (errServer e) = Some e"
  by (simp_all add: perror_defs)

lemma errors_Is_sentinel [simp]:
  "errors_Is ErrNotFound ErrNotFound" "errors_Is ErrConflict ErrConflict"
  "\<not> errors_Is (ENew m) ErrNotFound" "\<not> errors_Is (ENew m) ErrConflict"
  by simp_all

section \<open>Properties\<close>

text \<open>What \<^verbatim>\<open>sanitizeDescription\<close> and \<^verbatim>\<open>sanitizeURI\<close> keep is what RFC 6749 allows, and they
  change nothing that is already allowed.\<close>

lemma sanitizeDescription_valid: "list_all errorCodeByte (sanitizeDescription s)"
  by (simp add: sanitizeDescription_def errorCodeByte_def list_all_iff)

lemma sanitizeDescription_id: "list_all errorCodeByte s \<Longrightarrow> sanitizeDescription s = s"
  by (simp add: sanitizeDescription_def errorCodeByte_def list_all_iff filter_id_conv)

lemma sanitizeURI_valid:
  "list_all (\<lambda>c. errorCodeByte c \<and> c \<noteq> CHR '' '') (sanitizeURI s)"
proof -
  have "byte (CHR '' '') = 0x20" by (simp add: byte_def)
  then show ?thesis by (auto simp: sanitizeURI_def errorCodeByte_def list_all_iff)
qed

lemma HTTPStatus_range: "400 \<le> perror_HTTPStatus e \<and> perror_HTTPStatus e \<le> 599"
  by (simp add: perror_HTTPStatus_def)

lemma asProtocolError_hides:
  "errors_As err = None \<Longrightarrow>
     eCode (asProtocolError err) = CodeServerError \<and> eDescription (asProtocolError err) = []"
  by (simp add: asProtocolError_def)

lemma asProtocolError_EProto [simp]: "asProtocolError (EProto e) = e"
  by (simp add: asProtocolError_def)

end
