(* ===== verification/Go_Json.thy ===== *)
theory Go_Json
  imports Grantor_Prelude
begin

text \<open>
  The values of type \<^verbatim>\<open>any\<close> the sources pass to and receive from encoding/json. A
  \<^verbatim>\<open>map[string]any\<close> is an association list. Numbers that decode from JSON are float64: an
  integer keeps its value when it needs at most 53 significant bits and is rounded to the nearest
  float64, ties to even, otherwise; \<open>JFloat\<close> is any other number, by its shortest literal.
  \<open>JUnsupported\<close> is a value json.Marshal refuses, such as a channel or NaN.
\<close>

datatype json =
  JNull
| JBool bool
| JNum int
| JFloat string
| JString string
| JArray "json list"
| JObject "(string \<times> json) list"
| JUnsupported

type_synonym json_map = "(string \<times> json) list"

fun bit_length :: "nat \<Rightarrow> nat" where
  "bit_length n = (if n = 0 then 0 else Suc (bit_length (n div 2)))"

declare bit_length.simps [simp del]

text \<open>Conversion of an integer to float64 and back, round half to even.\<close>

definition float64_nat :: "nat \<Rightarrow> nat" where
  "float64_nat n =
     (let b = bit_length n in
      if b \<le> 53 then n
      else (let u = 2 ^ (b - 53); q = n div u; r = n mod u
            in if u < 2 * r \<or> (u = 2 * r \<and> odd q) then (q + 1) * u else q * u))"

definition float64_int :: "int \<Rightarrow> int" where
  "float64_int i = (if 0 \<le> i then int (float64_nat (nat i)) else - int (float64_nat (nat (- i))))"

lemma bit_length_le: "n < 2 ^ k \<Longrightarrow> bit_length n \<le> k"
proof (induction k arbitrary: n)
  case 0
  then show ?case by (simp add: bit_length.simps)
next
  case (Suc k)
  then have "n div 2 < 2 ^ k" by auto
  with Suc.IH show ?case by (subst bit_length.simps) auto
qed

lemma float64_nat_small: "n < 2 ^ 53 \<Longrightarrow> float64_nat n = n"
  using bit_length_le [of n 53] by (simp add: float64_nat_def Let_def)

lemma float64_int_small: "\<bar>i\<bar> < 2 ^ 53 \<Longrightarrow> float64_int i = i"
proof -
  assume "\<bar>i\<bar> < 2 ^ 53"
  then have "nat i < 2 ^ 53" "nat (- i) < 2 ^ 53" by auto
  then show ?thesis by (auto simp: float64_int_def float64_nat_small simp del: power_numeral)
qed

text \<open>\<^verbatim>\<open>json.Marshal\<close> succeeds.\<close>

fun json_ok :: "json \<Rightarrow> bool" where
  "json_ok JUnsupported = False"
| "json_ok (JArray vs) = list_all json_ok vs"
| "json_ok (JObject m) = list_all (\<lambda>(_, v). json_ok v) m"
| "json_ok _ = True"

text \<open>\<^verbatim>\<open>json.Marshal\<close> followed by \<^verbatim>\<open>json.Unmarshal\<close> into an \<^verbatim>\<open>any\<close>, for a value that
  marshals.\<close>

fun json_roundtrip :: "json \<Rightarrow> json" where
  "json_roundtrip (JNum i) = JNum (float64_int i)"
| "json_roundtrip (JString s) = JString (json_string s)"
| "json_roundtrip (JArray vs) = JArray (map json_roundtrip vs)"
| "json_roundtrip (JObject m) = JObject (map (\<lambda>(k, v). (json_string k, json_roundtrip v)) m)"
| "json_roundtrip v = v"

text \<open>The values JSON stores without change.\<close>

fun json_stable :: "json \<Rightarrow> bool" where
  "json_stable JUnsupported = False"
| "json_stable (JNum i) = (float64_int i = i)"
| "json_stable (JString s) = (json_string s = s)"
| "json_stable (JArray vs) = list_all json_stable vs"
| "json_stable (JObject m) = list_all (\<lambda>(k, v). json_string k = k \<and> json_stable v) m"
| "json_stable _ = True"

lemma json_stable_roundtrip: "json_stable v \<Longrightarrow> json_ok v \<and> json_roundtrip v = v"
proof (induction v rule: json_stable.induct)
  case (4 vs)
  then show ?case by (auto simp: list_all_iff intro: map_idI)
next
  case (5 m)
  then show ?case by (fastforce simp: list_all_iff intro!: map_idI)
qed simp_all

definition json_map_stable :: "json_map \<Rightarrow> bool" where
  "json_map_stable m \<longleftrightarrow> json_stable (JObject m)"

definition json_map_ok :: "json_map \<Rightarrow> bool" where
  "json_map_ok m \<longleftrightarrow> json_ok (JObject m)"

definition json_map_roundtrip :: "json_map \<Rightarrow> json_map" where
  "json_map_roundtrip m = map (\<lambda>(k, v). (json_string k, json_roundtrip v)) m"

lemma json_map_stable_roundtrip: "json_map_stable m \<Longrightarrow> json_map_roundtrip m = m"
  using json_stable_roundtrip [of "JObject m"]
  by (simp add: json_map_stable_def json_map_roundtrip_def)

lemma json_map_stable_ok: "json_map_stable m \<Longrightarrow> json_map_ok m"
  using json_stable_roundtrip [of "JObject m"]
  by (simp add: json_map_stable_def json_map_ok_def)

end
