(* ===== verification/Grantor_Records.thy ===== *)
theory Grantor_Records
  imports Grantor_Errors Go_Json
begin

text \<open>
  records.go: the stored records and the claims request parameter, with the tables of claims.go
  they refer to. A nil slice and an empty one are the same list; \<open>arMaxAge\<close> is the pointer
  \<^verbatim>\<open>MaxAge\<close>. A nil \<^verbatim>\<open>*ClaimRequest\<close> in a claims map is \<open>None\<close>, a nil \<^verbatim>\<open>any\<close> is \<open>JNull\<close>.
\<close>

section \<open>The claims request parameter\<close>

record ClaimRequest =
  crEssential :: bool
  crValue :: json
  crValues :: "json list"

type_synonym claim_map = "(string \<times> ClaimRequest option) list"

record ClaimsRequest =
  cqUserInfo :: claim_map
  cqIDToken :: claim_map

definition protocolClaims :: "string list" where
  "protocolClaims =
     [''iss'', ''sub'', ''aud'', ''exp'', ''iat'', ''nbf'', ''jti'', ''auth_time'', ''nonce'',
      ''acr'', ''amr'', ''azp'', ''at_hash'', ''c_hash'', ''sid'', ''client_id'', ''scope'',
      ''cnf'']"

definition ClaimsRequest_Names :: "ClaimsRequest option \<Rightarrow> string list" where
  "ClaimsRequest_Names c =
     (case c of
        None \<Rightarrow> []
      | Some c \<Rightarrow>
          sort (remdups (filter (\<lambda>name. name \<notin> set protocolClaims)
            (map fst (cqIDToken c) @ map fst (cqUserInfo c)))))"

definition filter_claim_map :: "(string \<Rightarrow> bool) \<Rightarrow> claim_map \<Rightarrow> claim_map" where
  "filter_claim_map keep m = filter (\<lambda>(name, _). keep name) m"

definition ClaimsRequest_filter ::
  "(string \<Rightarrow> bool) \<Rightarrow> ClaimsRequest option \<Rightarrow> ClaimsRequest option" where
  "ClaimsRequest_filter keep c =
     (case c of
        None \<Rightarrow> None
      | Some c \<Rightarrow>
          (let out = \<lparr>cqUserInfo = filter_claim_map keep (cqUserInfo c),
                      cqIDToken = filter_claim_map keep (cqIDToken c)\<rparr>
           in if cqIDToken out = [] \<and> cqUserInfo out = [] then None else Some out))"

definition ClaimsRequest_names_all :: "ClaimsRequest option \<Rightarrow> string set" where
  "ClaimsRequest_names_all c =
     (case c of None \<Rightarrow> {} | Some c \<Rightarrow> fst ` set (cqIDToken c) \<union> fst ` set (cqUserInfo c))"

lemma set_ClaimsRequest_Names:
  "set (ClaimsRequest_Names c) = ClaimsRequest_names_all c - set protocolClaims"
  by (auto simp: ClaimsRequest_Names_def ClaimsRequest_names_all_def split: option.split)

lemma ClaimsRequest_Names_sorted:
  "sorted (ClaimsRequest_Names c) \<and> distinct (ClaimsRequest_Names c)"
  by (simp add: ClaimsRequest_Names_def split: option.split)

lemma ClaimsRequest_filter_names:
  "ClaimsRequest_names_all (ClaimsRequest_filter keep c) = {n \<in> ClaimsRequest_names_all c. keep n}"
  by (auto simp: ClaimsRequest_filter_def ClaimsRequest_names_all_def filter_claim_map_def Let_def
      filter_empty_conv image_iff split: option.split; force)

lemma map_of_filter_claim_map:
  "map_of (filter_claim_map keep m) n = (if keep n then map_of m n else None)"
  by (induction m) (auto simp: filter_claim_map_def)

lemma ClaimsRequest_filter_idem:
  "ClaimsRequest_filter keep (ClaimsRequest_filter keep c) = ClaimsRequest_filter keep c"
  by (auto simp: ClaimsRequest_filter_def filter_claim_map_def Let_def split: option.splits)

section \<open>Authorization requests\<close>

record AuthorizationRequest =
  arID :: string
  arIssuer :: string
  arClientID :: string
  arRedirectURI :: string
  arRedirectURIInRequest :: bool
  arResponseType :: string
  arResponseMode :: string
  arState :: string
  arScopes :: "string list"
  arCodeChallenge :: string
  arCodeChallengeMethod :: string
  arNonce :: string
  arPrompt :: "string list"
  arMaxAge :: "duration option"
  arDisplay :: string
  arUILocales :: "string list"
  arClaimsLocales :: "string list"
  arLoginHint :: string
  arACRValues :: "string list"
  arRequestedSubject :: string
  arClaims :: "ClaimsRequest option"
  arAudience :: "string list"
  arPushed :: bool
  arExtra :: "(string \<times> string) list"
  arBindingHash :: string
  arParsed :: bool
  arPushedBy :: string
  arRedeemed :: bool
  arCreatedAt :: time
  arExpiresAt :: time

definition arHasScope :: "AuthorizationRequest \<Rightarrow> string \<Rightarrow> bool" where
  "arHasScope r scope \<longleftrightarrow> scope \<in> set (arScopes r)"

definition arHasPrompt :: "AuthorizationRequest \<Rightarrow> string \<Rightarrow> bool" where
  "arHasPrompt r v \<longleftrightarrow> v \<in> set (arPrompt r)"

definition arIsOpenID :: "AuthorizationRequest \<Rightarrow> bool" where
  "arIsOpenID r \<longleftrightarrow> arHasScope r ''openid''"

definition needsAuthentication :: "AuthorizationRequest \<Rightarrow> time \<Rightarrow> time \<Rightarrow> bool" where
  "needsAuthentication r authTime now =
     (if time_IsZero authTime then True
      else (let authenticatedDuringRequest =
                  \<not> time_Before authTime (time_Truncate (arCreatedAt r) second)
            in if arHasPrompt r ''login'' \<and> \<not> authenticatedDuringRequest then True
               else (case arMaxAge r of
                       Some maxAge \<Rightarrow>
                         if maxAge = 0 then \<not> authenticatedDuringRequest
                         else maxAge < time_Sub now authTime
                     | None \<Rightarrow> False)))"

text \<open>When no authentication is needed, the end-user authenticated within \<^verbatim>\<open>max_age\<close>, and since the
  request was created (up to the second ID tokens can express) where the request asks for it.\<close>

lemma needsAuthentication_False:
  assumes "\<not> needsAuthentication r authTime now"
  shows "authTime \<noteq> 0"
    and "arHasPrompt r ''login'' \<or> arMaxAge r = Some 0 \<Longrightarrow> arCreatedAt r < authTime + second"
    and "arMaxAge r = Some m \<Longrightarrow> 0 < m \<Longrightarrow> m < max_duration \<Longrightarrow> now \<le> authTime + m"
proof -
  note defs = needsAuthentication_def Let_def time_IsZero_def time_Before_def
  show "authTime \<noteq> 0"
    using assms by (auto simp: defs)
  show "arCreatedAt r < authTime + second" if "arHasPrompt r ''login'' \<or> arMaxAge r = Some 0"
  proof -
    have "time_Truncate (arCreatedAt r) second \<le> authTime"
      using assms that by (auto simp: defs split: if_splits option.splits)
    then show ?thesis using time_Truncate_second [of "arCreatedAt r"] by linarith
  qed
  show "now \<le> authTime + m" if "arMaxAge r = Some m" "0 < m" "m < max_duration"
    using assms that
    by (auto simp: defs time_Sub_def max_duration_def split: if_splits)
qed

section \<open>Tokens\<close>

datatype TokenKind =
  TokenKindAuthorizationCode
| TokenKindAccessToken
| TokenKindRefreshToken
| TokenKindUnset

record Token =
  tHash :: string
  tKind :: TokenKind
  tGrantID :: string
  tIssuer :: string
  tClientID :: string
  tSubject :: string
  tScopes :: "string list"
  tAuthTime :: time
  tACR :: string
  tAMR :: "string list"
  tClaims :: "ClaimsRequest option"
  tAudience :: "string list"
  tAccessTokenClaims :: json_map
  tRedirectURI :: string
  tRedirectURIInRequest :: bool
  tNonce :: string
  tCodeChallenge :: string
  tCodeChallengeMethod :: string
  tCreatedAt :: time
  tExpiresAt :: time
  tConsumedAt :: time

definition token_zero :: Token where
  "token_zero =
     \<lparr>tHash = [], tKind = TokenKindUnset, tGrantID = [], tIssuer = [], tClientID = [],
      tSubject = [], tScopes = [], tAuthTime = 0, tACR = [], tAMR = [], tClaims = None,
      tAudience = [], tAccessTokenClaims = [], tRedirectURI = [], tRedirectURIInRequest = False,
      tNonce = [], tCodeChallenge = [], tCodeChallengeMethod = [], tCreatedAt = 0,
      tExpiresAt = 0, tConsumedAt = 0\<rparr>"

definition tHasScope :: "Token \<Rightarrow> string \<Rightarrow> bool" where
  "tHasScope t scope \<longleftrightarrow> scope \<in> set (tScopes t)"

section \<open>Claim tables and values (claims.go)\<close>

definition standardScopeClaims :: "(string \<times> string list) list" where
  "standardScopeClaims =
     [(''profile'', [''name'', ''family_name'', ''given_name'', ''middle_name'', ''nickname'',
                     ''preferred_username'', ''profile'', ''picture'', ''website'', ''gender'',
                     ''birthdate'', ''zoneinfo'', ''locale'', ''updated_at'']),
      (''email'', [''email'', ''email_verified'']),
      (''address'', [''address'']),
      (''phone'', [''phone_number'', ''phone_number_verified''])]"

definition json_strings :: "json list \<Rightarrow> string list" where
  "json_strings vs = List.map_filter (\<lambda>v. case v of JString s \<Rightarrow> Some s | _ \<Rightarrow> None) vs"

definition requestedEssentialACR :: "ClaimsRequest option \<Rightarrow> string list \<times> bool" where
  "requestedEssentialACR c =
     (case c of
        None \<Rightarrow> ([], False)
      | Some c \<Rightarrow>
          (case map_of (cqIDToken c) ''acr'' of
             Some (Some req) \<Rightarrow>
               if \<not> crEssential req then ([], False)
               else (json_strings (crValue req # crValues req), True)
           | _ \<Rightarrow> ([], False)))"

text \<open>\<open>None\<close> is the error of json.Marshal.\<close>

definition normalizeClaims :: "json_map \<Rightarrow> json_map option" where
  "normalizeClaims claims =
     (if claims = [] then Some []
      else if \<not> json_map_ok claims then None
      else Some (filter (\<lambda>(_, v). v \<noteq> JNull) (json_map_roundtrip claims)))"

lemma json_roundtrip_JNull: "json_roundtrip v = JNull \<longleftrightarrow> v = JNull"
  by (cases v) auto

lemma normalizeClaims_no_null:
  "normalizeClaims claims = Some m \<Longrightarrow> (n, v) \<in> set m \<Longrightarrow> v \<noteq> JNull"
  by (auto simp: normalizeClaims_def split: if_splits)

lemma normalizeClaims_names:
  "normalizeClaims claims = Some m \<Longrightarrow> n \<in> fst ` set m \<Longrightarrow> \<exists>k \<in> fst ` set claims. n = json_string k"
  by (force simp: normalizeClaims_def json_map_roundtrip_def split: if_splits)

end
