(* ===== verification/Grantor_Client.thy ===== *)
theory Grantor_Client
  imports Grantor_Errors Go_Encoding
begin

text \<open>
  client.go: registered clients, their validation, redirect URI matching and the hashes of secrets
  and tokens. \<^verbatim>\<open>AuthMethod\<close>, \<^verbatim>\<open>GrantType\<close>, \<^verbatim>\<open>AccessTokenFormat\<close> and \<^verbatim>\<open>PKCEPolicy\<close> are
  string types in the sources, open to any value, and stay strings here.
\<close>

abbreviation (input) "AuthMethodClientSecretBasic \<equiv> ''client_secret_basic''"
abbreviation (input) "AuthMethodClientSecretPost \<equiv> ''client_secret_post''"
abbreviation (input) "AuthMethodPrivateKeyJWT \<equiv> ''private_key_jwt''"
abbreviation (input) "AuthMethodNone \<equiv> ''none''"
abbreviation (input) "GrantTypeAuthorizationCode \<equiv> ''authorization_code''"
abbreviation (input) "GrantTypeRefreshToken \<equiv> ''refresh_token''"
abbreviation (input) "GrantTypeClientCredentials \<equiv> ''client_credentials''"
abbreviation (input) "AccessTokenFormatOpaque \<equiv> ''opaque''"
abbreviation (input) "AccessTokenFormatJWT \<equiv> ''jwt''"
abbreviation (input) "PKCERequired \<equiv> ''required''"
abbreviation (input) "PKCEUnlessNonce \<equiv> ''unless_nonce''"
abbreviation (input) "PKCEOptional \<equiv> ''optional''"

type_synonym AuthMethod = string
type_synonym GrantType = string
type_synonym AccessTokenFormat = string
type_synonym PKCEPolicy = string

record Client =
  cID :: string
  cAuthMethod :: AuthMethod
  cSecretHash :: bytes
  cJWKS :: bytes
  cRedirectURIs :: "string list"
  cGrantTypes :: "GrantType list"
  cScopes :: "string list"
  cPKCE :: PKCEPolicy
  cRequirePAR :: bool
  cIDTokenSigningAlg :: string
  cAllowIntrospection :: bool
  cAccessTokenFormat :: AccessTokenFormat
  cAccessTokenSigningAlg :: string
  cAudience :: "string list"
  cAccessTokenLifetime :: duration
  cRefreshTokenLifetime :: duration
  cIDTokenLifetime :: duration

section \<open>Secrets and token values\<close>

definition HashClientSecret :: "string \<Rightarrow> bytes" where
  "HashClientSecret secret = sha256_Sum256 secret"

text \<open>The value \<^verbatim>\<open>randomToken\<close> returns for the 32 bytes it reads.\<close>

definition randomToken_of :: "bytes \<Rightarrow> string" where
  "randomToken_of b = b64_EncodeToString b"

definition hashToken :: "string \<Rightarrow> string" where
  "hashToken token = b64_EncodeToString (sha256_Sum256 token)"

lemma length_hashToken [simp]: "length (hashToken v) = 43"
  by (simp add: hashToken_def length_b64_encode)

lemma hashToken_not_Nil [simp]: "hashToken v \<noteq> []"
  by (metis length_hashToken length_0_conv zero_neq_numeral)

lemma hashToken_ascii: "is_ascii (hashToken v)"
  by (simp add: hashToken_def b64_encode_ascii)

lemma randomToken_ascii: "is_ascii (randomToken_of b)"
  by (simp add: randomToken_of_def b64_encode_ascii)

lemma randomToken_no_colon: "CHR '':'' \<notin> set (randomToken_of b)"
  by (simp add: randomToken_of_def b64_encode_no_colon)

lemma length_randomToken [simp]: "length b = 32 \<Longrightarrow> length (randomToken_of b) = 43"
  by (simp add: randomToken_of_def length_b64_encode)

lemma randomToken_not_Nil: "length b = 32 \<Longrightarrow> randomToken_of b \<noteq> []"
  using length_randomToken [of b] by fastforce

lemma randomToken_inj: "randomToken_of b = randomToken_of c \<Longrightarrow> b = c"
  by (simp add: randomToken_of_def b64_encode_inj)

section \<open>Derived settings\<close>

definition client_authMethod :: "Client \<Rightarrow> AuthMethod" where
  "client_authMethod c =
     (if cAuthMethod c \<noteq> [] then cAuthMethod c
      else if 0 < length (cSecretHash c) then AuthMethodClientSecretBasic
      else if 0 < length (cJWKS c) then AuthMethodPrivateKeyJWT
      else AuthMethodNone)"

definition client_isPublic :: "Client \<Rightarrow> bool" where
  "client_isPublic c \<longleftrightarrow> client_authMethod c = AuthMethodNone"

definition client_usesSecret :: "Client \<Rightarrow> bool" where
  "client_usesSecret c \<longleftrightarrow>
     client_authMethod c = AuthMethodClientSecretBasic \<or>
     client_authMethod c = AuthMethodClientSecretPost"

definition client_pkcePolicy :: "Client \<Rightarrow> PKCEPolicy" where
  "client_pkcePolicy c =
     (if cPKCE c = [] \<or> client_isPublic c then PKCERequired else cPKCE c)"

definition client_grantTypes :: "Client \<Rightarrow> GrantType list" where
  "client_grantTypes c =
     (if cGrantTypes c = [] then [GrantTypeAuthorizationCode] else cGrantTypes c)"

definition client_allowsGrant :: "Client \<Rightarrow> GrantType \<Rightarrow> bool" where
  "client_allowsGrant c g \<longleftrightarrow> g \<in> set (client_grantTypes c)"

definition client_accessTokenAlg :: "Client \<Rightarrow> string" where
  "client_accessTokenAlg c =
     (if cAccessTokenSigningAlg c = [] then ''RS256'' else cAccessTokenSigningAlg c)"

definition client_idTokenAlg :: "Client \<Rightarrow> string" where
  "client_idTokenAlg c = (if cIDTokenSigningAlg c = [] then ''RS256'' else cIDTokenSigningAlg c)"

text \<open>\<^verbatim>\<open>ConstantTimeCompare\<close> is equality of byte strings.\<close>

definition client_verifySecret :: "Client \<Rightarrow> string \<Rightarrow> bool" where
  "client_verifySecret c secret \<longleftrightarrow>
     (if length (cSecretHash c) \<noteq> 32 then False else HashClientSecret secret = cSecretHash c)"

section \<open>Redirect URIs\<close>

text \<open>\<open>None\<close> is the nil error, here and in \<open>client_validate\<close>.\<close>

definition validateRedirectURI :: "string \<Rightarrow> goerr option" where
  "validateRedirectURI raw =
     (case url_Parse raw of
        None \<Rightarrow> Some (ENew ''invalid redirect URI'')
      | Some u \<Rightarrow>
          if \<not> url_IsAbs u then Some (ENew ''redirect URI is not absolute'')
          else if uFragment u \<noteq> [] \<or> CHR ''#'' \<in> set raw
          then Some (ENew ''redirect URI has a fragment'')
          else (let scheme = strings_ToLower (uScheme u)
                in if scheme = ''http'' \<or> scheme = ''https'' then None
                   else if scheme \<in> {''javascript'', ''data'', ''vbscript'', ''file'', ''blob''}
                   then Some (ENew ''redirect URI uses a forbidden scheme'')
                   else if CHR ''.'' \<notin> set scheme
                   then Some (ENew ''redirect URI must use a reverse domain name scheme'')
                   else None))"

definition isLoopbackIP :: "string \<Rightarrow> bool" where
  "isLoopbackIP host = (case net_ParseIP host of None \<Rightarrow> False | Some ip \<Rightarrow> ip_IsLoopback ip)"

definition loopbackMatch :: "string \<Rightarrow> string \<Rightarrow> bool" where
  "loopbackMatch registered requested =
     (case url_Parse registered of
        None \<Rightarrow> False
      | Some ru \<Rightarrow>
          if uScheme ru \<noteq> ''http'' \<or> \<not> isLoopbackIP (url_Hostname ru) then False
          else (case url_Parse requested of
                  None \<Rightarrow> False
                | Some qu \<Rightarrow>
                    if uScheme qu \<noteq> ''http'' \<or> url_Hostname qu \<noteq> url_Hostname ru then False
                    else if uUser qu \<or> uUser ru \<or> CHR ''#'' \<in> set requested then False
                    else url_EscapedPath qu = url_EscapedPath ru \<and> uRawQuery qu = uRawQuery ru))"

fun matchRedirectURI_loop :: "string list \<Rightarrow> string \<Rightarrow> bool" where
  "matchRedirectURI_loop [] requested = False"
| "matchRedirectURI_loop (registered # rs) requested =
     (if requested = registered then True
      else if loopbackMatch registered requested then True
      else matchRedirectURI_loop rs requested)"

definition client_matchRedirectURI :: "Client \<Rightarrow> string \<Rightarrow> bool" where
  "client_matchRedirectURI c requested = matchRedirectURI_loop (cRedirectURIs c) requested"

section \<open>Validation\<close>

definition validLifetime :: "duration \<Rightarrow> bool" where
  "validLifetime d \<longleftrightarrow> second \<le> d"

fun first_error :: "('a \<Rightarrow> goerr option) \<Rightarrow> 'a list \<Rightarrow> goerr option" where
  "first_error f [] = None"
| "first_error f (x # xs) = (case f x of Some e \<Rightarrow> Some e | None \<Rightarrow> first_error f xs)"

lemma first_error_None: "first_error f xs = None \<longleftrightarrow> (\<forall>x \<in> set xs. f x = None)"
  by (induction xs) (auto split: option.splits)

lemma first_error_SomeD: "first_error f xs = Some e \<Longrightarrow> \<exists>x \<in> set xs. f x = Some e"
  by (induction xs) (auto split: option.splits)

definition validate_authMethod :: "Client \<Rightarrow> goerr option" where
  "validate_authMethod c =
     (let m = client_authMethod c
      in if m = AuthMethodClientSecretBasic \<or> m = AuthMethodClientSecretPost then
           (if length (cSecretHash c) \<noteq> 32
            then Some (ENew ''client uses a secret but SecretHash is not a SHA-256 hash'') else None)
         else if m = AuthMethodPrivateKeyJWT then
           (if length (cJWKS c) = 0
            then Some (ENew ''client uses private_key_jwt but has no JWKS'') else None)
         else if m = AuthMethodNone then
           (if 0 < length (cSecretHash c) then Some (ENew ''client is public but has a SecretHash'')
            else if client_allowsGrant c GrantTypeClientCredentials
            then Some (ENew ''client is public and cannot use client_credentials'') else None)
         else Some (ENew ''client has unsupported auth method''))"

definition validate_lifetime :: "duration \<Rightarrow> goerr option" where
  "validate_lifetime d =
     (if d \<noteq> 0 \<and> \<not> validLifetime d
      then Some (ENew ''client has a token lifetime that is neither zero nor at least a second'')
      else None)"

definition validate_pkce :: "Client \<Rightarrow> goerr option" where
  "validate_pkce c =
     (if cPKCE c = [] \<or> cPKCE c = PKCERequired then None
      else if cPKCE c = PKCEUnlessNonce \<or> cPKCE c = PKCEOptional then
        (if client_isPublic c then Some (ENew ''client is public and must always use PKCE'') else None)
      else Some (ENew ''client has unsupported PKCE policy''))"

definition client_validate :: "Client \<Rightarrow> goerr option" where
  "client_validate c =
     (if cID c = [] then Some (ENew ''client has no ID'')
      else case validate_authMethod c of Some e \<Rightarrow> Some e | None \<Rightarrow>
      case first_error validate_lifetime
             [cAccessTokenLifetime c, cRefreshTokenLifetime c, cIDTokenLifetime c]
      of Some e \<Rightarrow> Some e | None \<Rightarrow>
      if cAccessTokenFormat c = AccessTokenFormatJWT \<and> length (cAudience c) = 0
      then Some (ENew ''client uses JWT access tokens but has no Audience'')
      else case validate_pkce c of Some e \<Rightarrow> Some e | None \<Rightarrow>
      case first_error (\<lambda>g. if g = [] then Some (ENew ''client has an empty grant type'') else None)
             (client_grantTypes c)
      of Some e \<Rightarrow> Some e | None \<Rightarrow>
      first_error (\<lambda>u. map_option (\<lambda>e. EWrap ''client'' [e]) (validateRedirectURI u))
        (cRedirectURIs c))"

section \<open>Facts about valid clients\<close>

lemma client_validate_None:
  "client_validate c = None \<longleftrightarrow>
     cID c \<noteq> [] \<and> validate_authMethod c = None \<and>
     (\<forall>d \<in> {cAccessTokenLifetime c, cRefreshTokenLifetime c, cIDTokenLifetime c}.
        validate_lifetime d = None) \<and>
     (cAccessTokenFormat c = AccessTokenFormatJWT \<longrightarrow> cAudience c \<noteq> []) \<and>
     validate_pkce c = None \<and> [] \<notin> set (client_grantTypes c) \<and>
     (\<forall>u \<in> set (cRedirectURIs c). validateRedirectURI u = None)"
  by (auto simp: client_validate_def first_error_None split: option.splits if_splits
      dest!: first_error_SomeD)

lemma valid_public:
  assumes "client_validate c = None" and "client_isPublic c"
  shows "cSecretHash c = []" "\<not> client_allowsGrant c GrantTypeClientCredentials"
    "client_pkcePolicy c = PKCERequired" "\<not> client_verifySecret c s"
  using assms
  by (auto simp: client_validate_None validate_authMethod_def client_isPublic_def Let_def
      client_pkcePolicy_def client_verifySecret_def split: if_splits)

lemma valid_authMethod:
  "client_validate c = None \<Longrightarrow>
     client_authMethod c \<in> {AuthMethodClientSecretBasic, AuthMethodClientSecretPost,
                            AuthMethodPrivateKeyJWT, AuthMethodNone}"
  by (auto simp: client_validate_None validate_authMethod_def Let_def split: if_splits)

lemma valid_pkcePolicy:
  "client_validate c = None \<Longrightarrow>
     client_pkcePolicy c \<in> {PKCERequired, PKCEUnlessNonce, PKCEOptional}"
  by (auto simp: client_validate_None validate_pkce_def client_pkcePolicy_def split: if_splits)

lemma validateRedirectURI_no_hash: "validateRedirectURI raw = None \<Longrightarrow> CHR ''#'' \<notin> set raw"
  by (auto simp: validateRedirectURI_def split: option.splits if_splits)

lemma validateRedirectURI_scheme:
  assumes "validateRedirectURI raw = None"
  obtains u where "url_Parse raw = Some u" and "url_IsAbs u"
    and "strings_ToLower (uScheme u) \<notin> {''javascript'', ''data'', ''vbscript'', ''file'', ''blob''}"
proof -
  obtain u where u: "url_Parse raw = Some u"
    using assms by (auto simp: validateRedirectURI_def split: option.splits)
  show ?thesis
    by (rule that [OF u]) (use assms u in \<open>auto simp: validateRedirectURI_def Let_def split: if_splits\<close>)
qed

lemma client_matchRedirectURI_iff:
  "client_matchRedirectURI c requested \<longleftrightarrow>
     requested \<in> set (cRedirectURIs c) \<or>
     (\<exists>r \<in> set (cRedirectURIs c). loopbackMatch r requested)"
proof -
  have "matchRedirectURI_loop rs requested \<longleftrightarrow>
      requested \<in> set rs \<or> (\<exists>r \<in> set rs. loopbackMatch r requested)" for rs
    by (induction rs) auto
  then show ?thesis by (simp add: client_matchRedirectURI_def)
qed

lemma loopbackMatch_shape:
  assumes "loopbackMatch registered requested"
  obtains ru qu where "url_Parse registered = Some ru" "url_Parse requested = Some qu"
    "uScheme ru = ''http''" "uScheme qu = ''http''" "url_Hostname qu = url_Hostname ru"
    "isLoopbackIP (url_Hostname qu)" "\<not> uUser qu" "\<not> uUser ru" "CHR ''#'' \<notin> set requested"
    "url_EscapedPath qu = url_EscapedPath ru" "uRawQuery qu = uRawQuery ru"
  using assms by (auto simp: loopbackMatch_def split: option.splits if_splits)

end
