(* ===== verification/Grantor_Effects.thy ===== *)
theory Grantor_Effects
  imports Grantor_Records Grantor_Client
begin

text \<open>
  storage.go: the interfaces \<^verbatim>\<open>Storage\<close> and \<^verbatim>\<open>ClientStore\<close>, and how the provider's code calls
  them. A method of the provider is a program: a tree of calls to the storage, the client store, the
  clock and the random source, each with the rest of the method as a function of the answer. A
  program does not fix what the storage is; it can be

  \<^item> replayed against a list of calls with their answers (\<open>performs\<close>), which is what happens in
    one thread, whatever the storage and the other threads do;
  \<^item> run against an implementation (\<open>run\<close>);
  \<^item> run beside other programs, one call at a time (\<open>concurrent\<close>), as requests of an HTTP server
    interleave; each storage call is atomic, as its documentation promises.

  The locale \<open>storage_contract\<close> states what storage.go documents of an implementation; memory.Store
  interprets it in Grantor_Memory.
\<close>

section \<open>Programs\<close>

datatype 'a prog =
  Ret 'a
| OpCreateRequest AuthorizationRequest "goerr option \<Rightarrow> 'a prog"
| OpLoadRequest string "goerr + AuthorizationRequest \<Rightarrow> 'a prog"
| OpDeleteRequest string "goerr option \<Rightarrow> 'a prog"
| OpCreateToken Token "goerr option \<Rightarrow> 'a prog"
| OpLoadToken string "goerr + Token \<Rightarrow> 'a prog"
| OpConsumeToken string time "goerr + Token \<Rightarrow> 'a prog"
| OpRevokeToken string "goerr option \<Rightarrow> 'a prog"
| OpRevokeGrant string "goerr option \<Rightarrow> 'a prog"
| OpClaimOnce string time "goerr option \<Rightarrow> 'a prog"
| OpClient string string "goerr + Client option \<Rightarrow> 'a prog"
| OpNow "time \<Rightarrow> 'a prog"
| OpRand "bytes \<Rightarrow> 'a prog"

primrec bind :: "'a prog \<Rightarrow> ('a \<Rightarrow> 'b prog) \<Rightarrow> 'b prog" where
  "bind (Ret a) f = f a"
| "bind (OpCreateRequest q k) f = OpCreateRequest q (\<lambda>r. bind (k r) f)"
| "bind (OpLoadRequest i k) f = OpLoadRequest i (\<lambda>r. bind (k r) f)"
| "bind (OpDeleteRequest i k) f = OpDeleteRequest i (\<lambda>r. bind (k r) f)"
| "bind (OpCreateToken t k) f = OpCreateToken t (\<lambda>r. bind (k r) f)"
| "bind (OpLoadToken h k) f = OpLoadToken h (\<lambda>r. bind (k r) f)"
| "bind (OpConsumeToken h n k) f = OpConsumeToken h n (\<lambda>r. bind (k r) f)"
| "bind (OpRevokeToken h k) f = OpRevokeToken h (\<lambda>r. bind (k r) f)"
| "bind (OpRevokeGrant g k) f = OpRevokeGrant g (\<lambda>r. bind (k r) f)"
| "bind (OpClaimOnce c e k) f = OpClaimOnce c e (\<lambda>r. bind (k r) f)"
| "bind (OpClient i c k) f = OpClient i c (\<lambda>r. bind (k r) f)"
| "bind (OpNow k) f = OpNow (\<lambda>r. bind (k r) f)"
| "bind (OpRand k) f = OpRand (\<lambda>r. bind (k r) f)"

text \<open>\<^verbatim>\<open>if err != nil \<close>\<open>{\<close>\<^verbatim>\<open> return err \<close>\<open>}\<close> between two steps.\<close>

definition bindE :: "('e + 'a) prog \<Rightarrow> ('a \<Rightarrow> ('e + 'b) prog) \<Rightarrow> ('e + 'b) prog" where
  "bindE p f = bind p (\<lambda>r. case r of Inl e \<Rightarrow> Ret (Inl e) | Inr a \<Rightarrow> f a)"

text \<open>The calls, answering with what they return. \<open>None\<close> is the nil error.\<close>

definition storage_CreateAuthorizationRequest :: "AuthorizationRequest \<Rightarrow> goerr option prog" where
  "storage_CreateAuthorizationRequest q = OpCreateRequest q Ret"
definition storage_AuthorizationRequest :: "string \<Rightarrow> (goerr + AuthorizationRequest) prog" where
  "storage_AuthorizationRequest i = OpLoadRequest i Ret"
definition storage_DeleteAuthorizationRequest :: "string \<Rightarrow> goerr option prog" where
  "storage_DeleteAuthorizationRequest i = OpDeleteRequest i Ret"
definition storage_CreateToken :: "Token \<Rightarrow> goerr option prog" where
  "storage_CreateToken t = OpCreateToken t Ret"
definition storage_Token :: "string \<Rightarrow> (goerr + Token) prog" where
  "storage_Token h = OpLoadToken h Ret"
definition storage_ConsumeToken :: "string \<Rightarrow> time \<Rightarrow> (goerr + Token) prog" where
  "storage_ConsumeToken h now = OpConsumeToken h now Ret"
definition storage_RevokeToken :: "string \<Rightarrow> goerr option prog" where
  "storage_RevokeToken h = OpRevokeToken h Ret"
definition storage_RevokeGrant :: "string \<Rightarrow> goerr option prog" where
  "storage_RevokeGrant g = OpRevokeGrant g Ret"
definition storage_ClaimOnce :: "string \<Rightarrow> time \<Rightarrow> goerr option prog" where
  "storage_ClaimOnce key expiresAt = OpClaimOnce key expiresAt Ret"
definition clients_Client :: "string \<Rightarrow> string \<Rightarrow> (goerr + Client option) prog" where
  "clients_Client issuer clientID = OpClient issuer clientID Ret"
definition provider_now :: "time prog" where
  "provider_now = OpNow Ret"

text \<open>\<^verbatim>\<open>randomToken\<close>: 32 bytes of the random source, encoded.\<close>

definition randomToken :: "string prog" where
  "randomToken = OpRand (\<lambda>b. Ret (randomToken_of b))"

text \<open>records.go and client.go: the methods with the clock and the random source.\<close>

definition NeedsAuthentication :: "AuthorizationRequest \<Rightarrow> time \<Rightarrow> bool prog" where
  "NeedsAuthentication r authTime = bind provider_now (\<lambda>now. Ret (needsAuthentication r authTime now))"

definition GenerateClientSecret :: "string prog" where
  "GenerateClientSecret = randomToken"

lemmas op_defs =
  storage_CreateAuthorizationRequest_def storage_AuthorizationRequest_def
  storage_DeleteAuthorizationRequest_def storage_CreateToken_def storage_Token_def
  storage_ConsumeToken_def storage_RevokeToken_def storage_RevokeGrant_def storage_ClaimOnce_def
  clients_Client_def provider_now_def randomToken_def

lemma bind_assoc: "bind (bind p f) g = bind p (\<lambda>a. bind (f a) g)"
  by (induction p) auto

section \<open>Calls with their answers\<close>

datatype event =
  EvCreateRequest AuthorizationRequest "goerr option"
| EvLoadRequest string "goerr + AuthorizationRequest"
| EvDeleteRequest string "goerr option"
| EvCreateToken Token "goerr option"
| EvLoadToken string "goerr + Token"
| EvConsumeToken string time "goerr + Token"
| EvRevokeToken string "goerr option"
| EvRevokeGrant string "goerr option"
| EvClaimOnce string time "goerr option"
| EvClient string string "goerr + Client option"
| EvNow time
| EvRand bytes

text \<open>What is left of a program after it made one call and got the answer of the event; \<open>None\<close>
  when its next call is another one. The random source always fills the 32 bytes.\<close>

primrec advance :: "'a prog \<Rightarrow> event \<Rightarrow> 'a prog option" where
  "advance (Ret a) ev = None"
| "advance (OpCreateRequest q k) ev =
     (case ev of EvCreateRequest q' r \<Rightarrow> if q' = q then Some (k r) else None | _ \<Rightarrow> None)"
| "advance (OpLoadRequest i k) ev =
     (case ev of EvLoadRequest i' r \<Rightarrow> if i' = i then Some (k r) else None | _ \<Rightarrow> None)"
| "advance (OpDeleteRequest i k) ev =
     (case ev of EvDeleteRequest i' r \<Rightarrow> if i' = i then Some (k r) else None | _ \<Rightarrow> None)"
| "advance (OpCreateToken t k) ev =
     (case ev of EvCreateToken t' r \<Rightarrow> if t' = t then Some (k r) else None | _ \<Rightarrow> None)"
| "advance (OpLoadToken h k) ev =
     (case ev of EvLoadToken h' r \<Rightarrow> if h' = h then Some (k r) else None | _ \<Rightarrow> None)"
| "advance (OpConsumeToken h n k) ev =
     (case ev of EvConsumeToken h' n' r \<Rightarrow> if h' = h \<and> n' = n then Some (k r) else None
      | _ \<Rightarrow> None)"
| "advance (OpRevokeToken h k) ev =
     (case ev of EvRevokeToken h' r \<Rightarrow> if h' = h then Some (k r) else None | _ \<Rightarrow> None)"
| "advance (OpRevokeGrant g k) ev =
     (case ev of EvRevokeGrant g' r \<Rightarrow> if g' = g then Some (k r) else None | _ \<Rightarrow> None)"
| "advance (OpClaimOnce c e k) ev =
     (case ev of EvClaimOnce c' e' r \<Rightarrow> if c' = c \<and> e' = e then Some (k r) else None | _ \<Rightarrow> None)"
| "advance (OpClient i c k) ev =
     (case ev of EvClient i' c' r \<Rightarrow> if i' = i \<and> c' = c then Some (k r) else None | _ \<Rightarrow> None)"
| "advance (OpNow k) ev = (case ev of EvNow t \<Rightarrow> Some (k t) | _ \<Rightarrow> None)"
| "advance (OpRand k) ev =
     (case ev of EvRand b \<Rightarrow> if length b = 32 then Some (k b) else None | _ \<Rightarrow> None)"

fun after :: "'a prog \<Rightarrow> event list \<Rightarrow> 'a prog option" where
  "after p [] = Some p"
| "after p (ev # log) = (case advance p ev of None \<Rightarrow> None | Some q \<Rightarrow> after q log)"

text \<open>The program makes exactly the calls of the log, gets its answers, and returns.\<close>

definition performs :: "'a prog \<Rightarrow> event list \<Rightarrow> 'a \<Rightarrow> bool" where
  "performs p log a \<longleftrightarrow> after p log = Some (Ret a)"

lemma after_append:
  "after p (l @ m) = (case after p l of None \<Rightarrow> None | Some q \<Rightarrow> after q m)"
  by (induction p l rule: after.induct) (auto split: option.splits)

lemma performs_Ret [simp]: "performs (Ret a) log b \<longleftrightarrow> log = [] \<and> b = a"
  by (cases log) (auto simp: performs_def)

lemma performs_op [simp]:
  "performs (OpCreateRequest q k1) log b \<longleftrightarrow> (\<exists>r l. log = EvCreateRequest q r # l \<and> performs (k1 r) l b)"
  "performs (OpLoadRequest i k2) log b \<longleftrightarrow> (\<exists>r l. log = EvLoadRequest i r # l \<and> performs (k2 r) l b)"
  "performs (OpDeleteRequest i k3) log b \<longleftrightarrow> (\<exists>r l. log = EvDeleteRequest i r # l \<and> performs (k3 r) l b)"
  "performs (OpCreateToken t k4) log b \<longleftrightarrow> (\<exists>r l. log = EvCreateToken t r # l \<and> performs (k4 r) l b)"
  "performs (OpLoadToken h k5) log b \<longleftrightarrow> (\<exists>r l. log = EvLoadToken h r # l \<and> performs (k5 r) l b)"
  "performs (OpConsumeToken h n k6) log b \<longleftrightarrow> (\<exists>r l. log = EvConsumeToken h n r # l \<and> performs (k6 r) l b)"
  "performs (OpRevokeToken h k7) log b \<longleftrightarrow> (\<exists>r l. log = EvRevokeToken h r # l \<and> performs (k7 r) l b)"
  "performs (OpRevokeGrant g k8) log b \<longleftrightarrow> (\<exists>r l. log = EvRevokeGrant g r # l \<and> performs (k8 r) l b)"
  "performs (OpClaimOnce c e k9) log b \<longleftrightarrow> (\<exists>r l. log = EvClaimOnce c e r # l \<and> performs (k9 r) l b)"
  "performs (OpClient i c k10) log b \<longleftrightarrow> (\<exists>r l. log = EvClient i c r # l \<and> performs (k10 r) l b)"
  "performs (OpNow k11) log b \<longleftrightarrow> (\<exists>r l. log = EvNow r # l \<and> performs (k11 r) l b)"
  "performs (OpRand k12) log b \<longleftrightarrow> (\<exists>r l. log = EvRand r # l \<and> length r = 32 \<and> performs (k12 r) l b)"
  by (cases log; auto simp: performs_def split: event.split_asm if_splits)+

lemma log_split_Cons:
  "(\<exists>l m a. log = l @ m \<and> (\<exists>r l'. l = E r # l' \<and> P r l' a) \<and> Q a m) \<longleftrightarrow>
   (\<exists>r l. log = E r # l \<and> (\<exists>l' m a. l = l' @ m \<and> P r l' a \<and> Q a m))"
proof
  assume "\<exists>l m a. log = l @ m \<and> (\<exists>r l'. l = E r # l' \<and> P r l' a) \<and> Q a m"
  then obtain m a r l' where "log = E r # (l' @ m)" "P r l' a" "Q a m" by auto
  then show "\<exists>r l. log = E r # l \<and> (\<exists>l' m a. l = l' @ m \<and> P r l' a \<and> Q a m)" by blast
next
  assume "\<exists>r l. log = E r # l \<and> (\<exists>l' m a. l = l' @ m \<and> P r l' a \<and> Q a m)"
  then obtain r l' m a where "log = (E r # l') @ m" "P r l' a" "Q a m" by auto
  then show "\<exists>l m a. log = l @ m \<and> (\<exists>r l'. l = E r # l' \<and> P r l' a) \<and> Q a m" by blast
qed

lemma performs_bind:
  "performs (bind p f) log b \<longleftrightarrow>
     (\<exists>l m a. log = l @ m \<and> performs p l a \<and> performs (f a) m b)"
proof (induction p arbitrary: log)
  case (Ret a)
  then show ?case by auto
next
  case (OpRand k)
  have "performs (bind (OpRand k) f) log b \<longleftrightarrow>
      (\<exists>r l. log = EvRand r # l \<and>
         (\<exists>l' m a. l = l' @ m \<and> (length r = 32 \<and> performs (k r) l' a) \<and> performs (f a) m b))"
    by (simp add: OpRand.IH) blast
  then show ?case by (simp only: performs_op log_split_Cons)
qed (simp_all only: bind.simps performs_op log_split_Cons rangeI)

lemma performs_bindE:
  "performs (bindE p f) log b \<longleftrightarrow>
     (\<exists>e. b = Inl e \<and> performs p log (Inl e)) \<or>
     (\<exists>l m a. log = l @ m \<and> performs p l (Inr a) \<and> performs (f a) m b)"
  (is "?l \<longleftrightarrow> ?r")
proof
  assume ?l
  then obtain l m a where *: "log = l @ m" "performs p l a"
      "performs (case a of Inl e \<Rightarrow> Ret (Inl e) | Inr a \<Rightarrow> f a) m b"
    by (auto simp: bindE_def performs_bind)
  then show ?r by (cases a) auto
next
  assume ?r
  then show ?l
  proof (elim disjE exE conjE)
    fix e assume "b = Inl e" "performs p log (Inl e)"
    then have "log = log @ [] \<and> performs p log (Inl e) \<and>
        performs (case Inl e of Inl e \<Rightarrow> Ret (Inl e) | Inr a \<Rightarrow> f a) [] b" by simp
    then show ?l unfolding bindE_def performs_bind by blast
  next
    fix l m a assume "log = l @ m" "performs p l (Inr a)" "performs (f a) m b"
    then have "log = l @ m \<and> performs p l (Inr a) \<and>
        performs (case Inr a of Inl e \<Rightarrow> Ret (Inl e) | Inr a \<Rightarrow> f a) m b" by simp
    then show ?l unfolding bindE_def performs_bind by blast
  qed
qed

lemma performs_bind_steps:
  assumes "performs (bind p f) log b"
  obtains l m a where "log = l @ m" and "performs p l a" and "performs (f a) m b"
  using assms unfolding performs_bind by (elim exE conjE)

lemma performs_bindE_steps:
  assumes "performs (bindE p f) log b"
  obtains e where "b = Inl e" and "performs p log (Inl e)"
  | l m a where "log = l @ m" and "performs p l (Inr a)" and "performs (f a) m b"
  using assms unfolding performs_bindE by (elim disjE exE conjE)

lemma performs_bindE_Inr:
  "performs (bindE p f) log (Inr b) \<longleftrightarrow>
     (\<exists>l m a. log = l @ m \<and> performs p l (Inr a) \<and> performs (f a) m (Inr b))"
  by (simp add: performs_bindE)

lemma performs_bindI:
  "performs p l a \<Longrightarrow> performs (f a) m b \<Longrightarrow> performs (bind p f) (l @ m) b"
  unfolding performs_bind by blast

lemma performs_bindEI:
  "performs p l (Inr a) \<Longrightarrow> performs (f a) m b \<Longrightarrow> performs (bindE p f) (l @ m) b"
  unfolding performs_bindE by blast

lemma performs_RetI: "performs (f a) l b \<Longrightarrow> performs (bindE (Ret (Inr a)) f) l b"
  by (simp add: bindE_def)

lemma performs_unique: "performs p log a \<Longrightarrow> performs p log b \<Longrightarrow> a = b"
  by (simp add: performs_def)

lemma performs_if [simp]:
  "performs (if c then p else q) log b \<longleftrightarrow> (if c then performs p log b else performs q log b)"
  by simp

text \<open>Branches of a program, as alternatives.\<close>

lemma performs_cases:
  "performs (case_sum f g x) log b \<longleftrightarrow>
     (\<exists>e. x = Inl e \<and> performs (f e) log b) \<or> (\<exists>a. x = Inr a \<and> performs (g a) log b)"
  "performs (case_option n h y) log b \<longleftrightarrow>
     (y = None \<and> performs n log b) \<or> (\<exists>a. y = Some a \<and> performs (h a) log b)"
  "performs (if c then p else q) log b \<longleftrightarrow>
     (c \<and> performs p log b) \<or> (\<not> c \<and> performs q log b)"
  "performs (Let v k) log b \<longleftrightarrow> performs (k v) log b"
  by (cases x; simp) (cases y; simp)+

lemma result_cases:
  "Inr b = case_sum f g x \<longleftrightarrow> (\<exists>e. x = Inl e \<and> Inr b = f e) \<or> (\<exists>a. x = Inr a \<and> Inr b = g a)"
  "Inr b = case_option n h y \<longleftrightarrow> (y = None \<and> Inr b = n) \<or> (\<exists>a. y = Some a \<and> Inr b = h a)"
  "Inr b = (if c then p else q) \<longleftrightarrow> (c \<and> Inr b = p) \<or> (\<not> c \<and> Inr b = q)"
  by (cases x; auto) (cases y; auto)+

text \<open>The calls of the clock, the random source and the look-ups change nothing in the storage.\<close>

fun is_read :: "event \<Rightarrow> bool" where
  "is_read (EvLoadRequest _ _) = True"
| "is_read (EvLoadToken _ _) = True"
| "is_read (EvClient _ _ _) = True"
| "is_read (EvNow _) = True"
| "is_read (EvRand _) = True"
| "is_read _ = False"

section \<open>What a program may call\<close>

text \<open>
  \<open>makes A P p\<close>: as long as the answers satisfy \<open>A\<close>, every call the program makes, with its answer,
  satisfies \<open>P\<close>. It is checked on the program, without running it.
\<close>

primrec makes :: "(event \<Rightarrow> bool) \<Rightarrow> (event \<Rightarrow> bool) \<Rightarrow> 'a prog \<Rightarrow> bool" where
  "makes A P (Ret a) = True"
| "makes A P (OpCreateRequest q k) =
     (\<forall>r. P (EvCreateRequest q r) \<and> (A (EvCreateRequest q r) \<longrightarrow> makes A P (k r)))"
| "makes A P (OpLoadRequest i k) =
     (\<forall>r. P (EvLoadRequest i r) \<and> (A (EvLoadRequest i r) \<longrightarrow> makes A P (k r)))"
| "makes A P (OpDeleteRequest i k) =
     (\<forall>r. P (EvDeleteRequest i r) \<and> (A (EvDeleteRequest i r) \<longrightarrow> makes A P (k r)))"
| "makes A P (OpCreateToken t k) =
     (\<forall>r. P (EvCreateToken t r) \<and> (A (EvCreateToken t r) \<longrightarrow> makes A P (k r)))"
| "makes A P (OpLoadToken h k) =
     (\<forall>r. P (EvLoadToken h r) \<and> (A (EvLoadToken h r) \<longrightarrow> makes A P (k r)))"
| "makes A P (OpConsumeToken h n k) =
     (\<forall>r. P (EvConsumeToken h n r) \<and> (A (EvConsumeToken h n r) \<longrightarrow> makes A P (k r)))"
| "makes A P (OpRevokeToken h k) =
     (\<forall>r. P (EvRevokeToken h r) \<and> (A (EvRevokeToken h r) \<longrightarrow> makes A P (k r)))"
| "makes A P (OpRevokeGrant g k) =
     (\<forall>r. P (EvRevokeGrant g r) \<and> (A (EvRevokeGrant g r) \<longrightarrow> makes A P (k r)))"
| "makes A P (OpClaimOnce c e k) =
     (\<forall>r. P (EvClaimOnce c e r) \<and> (A (EvClaimOnce c e r) \<longrightarrow> makes A P (k r)))"
| "makes A P (OpClient i c k) =
     (\<forall>r. P (EvClient i c r) \<and> (A (EvClient i c r) \<longrightarrow> makes A P (k r)))"
| "makes A P (OpNow k) = (\<forall>t. P (EvNow t) \<and> (A (EvNow t) \<longrightarrow> makes A P (k t)))"
| "makes A P (OpRand k) =
     (\<forall>b. length b = 32 \<longrightarrow> P (EvRand b) \<and> (A (EvRand b) \<longrightarrow> makes A P (k b)))"

named_theorems makes_intros \<open>rules that decompose \<open>makes\<close>\<close>

lemma makes_Ret [makes_intros]: "makes A P (Ret a)"
  by simp

lemma makes_bind [makes_intros]:
  "makes A P p \<Longrightarrow> (\<And>a. makes A P (f a)) \<Longrightarrow> makes A P (bind p f)"
  by (induction p) auto

lemma makes_bindE [makes_intros]:
  "makes A P p \<Longrightarrow> (\<And>a. makes A P (f a)) \<Longrightarrow> makes A P (bindE p f)"
  unfolding bindE_def by (intro makes_bind) (auto split: sum.split)

lemma makes_weaken: "makes (\<lambda>_. True) P p \<Longrightarrow> makes A P p"
  by (induction p) auto

text \<open>With what the first part returned, and the answers it got.\<close>

lemma makes_bindE_seen:
  "makes A P p \<Longrightarrow>
     (\<And>log a. performs p log (Inr a) \<Longrightarrow> \<forall>ev \<in> set log. A ev \<Longrightarrow> makes A P (f a)) \<Longrightarrow>
     makes A P (bindE p f)"
proof (induction p)
  case (Ret x)
  then show ?case by (cases x) (auto simp: bindE_def)
next
  case (OpRand k)
  have "makes A P (bindE (k b) f)" if "length b = 32" "A (EvRand b)" for b
  proof (rule OpRand.IH)
    show "makes A P (f a)" if "performs (k b) log (Inr a)" "\<forall>ev \<in> set log. A ev" for log a
      using that \<open>length b = 32\<close> \<open>A (EvRand b)\<close> OpRand.prems(2) [of "EvRand b # log" a] by simp
  qed (use that OpRand.prems in auto)
  then show ?case using OpRand.prems(1) by (simp add: bindE_def)
qed (simp add: bindE_def [symmetric] del: bindE_def; fastforce simp: bindE_def)+

lemma makes_bindE_performs:
  "makes A P p \<Longrightarrow> (\<And>log a. performs p log (Inr a) \<Longrightarrow> makes A P (f a)) \<Longrightarrow> makes A P (bindE p f)"
  by (rule makes_bindE_seen)

lemma makes_bindE_Ret [makes_intros]:
  "(\<And>a. x = Inr a \<Longrightarrow> makes A P (f a)) \<Longrightarrow> makes A P (bindE (Ret x) f)"
  by (cases x) (auto simp: bindE_def)

lemma makes_branches [makes_intros]:
  "(c \<Longrightarrow> makes A P p) \<Longrightarrow> (\<not> c \<Longrightarrow> makes A P q) \<Longrightarrow> makes A P (if c then p else q)"
  "(\<And>e. x = Inl e \<Longrightarrow> makes A P (f e)) \<Longrightarrow> (\<And>a. x = Inr a \<Longrightarrow> makes A P (g a)) \<Longrightarrow>
     makes A P (case_sum f g x)"
  "(y = None \<Longrightarrow> makes A P n) \<Longrightarrow> (\<And>a. y = Some a \<Longrightarrow> makes A P (h a)) \<Longrightarrow>
     makes A P (case_option n h y)"
  "(\<And>a b. z = (a, b) \<Longrightarrow> makes A P (k a b)) \<Longrightarrow> makes A P (case_prod k z)"
  "makes A P (m v) \<Longrightarrow> makes A P (Let v m)"
  by (auto split: sum.split option.split prod.split)

lemma makes_advance:
  "makes A P p \<Longrightarrow> advance p ev = Some q \<Longrightarrow> P ev \<and> (A ev \<longrightarrow> makes A P q)"
  by (cases p; cases ev) (auto split: if_split_asm)

lemma makes_after:
  "makes A P p \<Longrightarrow> after p log = Some q \<Longrightarrow> \<forall>ev \<in> set log. A ev \<Longrightarrow>
     (\<forall>ev \<in> set log. P ev) \<and> makes A P q"
proof (induction log arbitrary: p)
  case (Cons ev log)
  then obtain p' where p': "advance p ev = Some p'" "after p' log = Some q"
    by (auto split: option.splits)
  have "P ev" "makes A P p'" using makes_advance [OF Cons.prems(1) p'(1)] Cons.prems(3) by auto
  with Cons.IH [OF this(2) p'(2)] Cons.prems(3) show ?case by auto
qed simp

lemma makes_performs:
  "makes (\<lambda>_. True) P p \<Longrightarrow> performs p log a \<Longrightarrow> \<forall>ev \<in> set log. P ev"
  using makes_after by (fastforce simp: performs_def)

section \<open>Implementations\<close>

record 's iface =
  ifCreateRequest :: "AuthorizationRequest \<Rightarrow> 's \<Rightarrow> goerr option \<times> 's"
  ifLoadRequest :: "string \<Rightarrow> 's \<Rightarrow> (goerr + AuthorizationRequest) \<times> 's"
  ifDeleteRequest :: "string \<Rightarrow> 's \<Rightarrow> goerr option \<times> 's"
  ifCreateToken :: "Token \<Rightarrow> 's \<Rightarrow> goerr option \<times> 's"
  ifLoadToken :: "string \<Rightarrow> 's \<Rightarrow> (goerr + Token) \<times> 's"
  ifConsumeToken :: "string \<Rightarrow> time \<Rightarrow> 's \<Rightarrow> (goerr + Token) \<times> 's"
  ifRevokeToken :: "string \<Rightarrow> 's \<Rightarrow> goerr option \<times> 's"
  ifRevokeGrant :: "string \<Rightarrow> 's \<Rightarrow> goerr option \<times> 's"
  ifClaimOnce :: "string \<Rightarrow> time \<Rightarrow> 's \<Rightarrow> goerr option \<times> 's"
  ifClient :: "string \<Rightarrow> string \<Rightarrow> 's \<Rightarrow> (goerr + Client option) \<times> 's"
  ifNow :: "'s \<Rightarrow> time \<times> 's"
  ifRand :: "'s \<Rightarrow> bytes \<times> 's"

primrec run :: "'s iface \<Rightarrow> 'a prog \<Rightarrow> 's \<Rightarrow> 'a \<times> event list \<times> 's" where
  "run I (Ret a) s = (a, [], s)"
| "run I (OpCreateRequest q k) s =
     (let (r, s1) = ifCreateRequest I q s; (a, l, s2) = run I (k r) s1
      in (a, EvCreateRequest q r # l, s2))"
| "run I (OpLoadRequest i k) s =
     (let (r, s1) = ifLoadRequest I i s; (a, l, s2) = run I (k r) s1
      in (a, EvLoadRequest i r # l, s2))"
| "run I (OpDeleteRequest i k) s =
     (let (r, s1) = ifDeleteRequest I i s; (a, l, s2) = run I (k r) s1
      in (a, EvDeleteRequest i r # l, s2))"
| "run I (OpCreateToken t k) s =
     (let (r, s1) = ifCreateToken I t s; (a, l, s2) = run I (k r) s1
      in (a, EvCreateToken t r # l, s2))"
| "run I (OpLoadToken h k) s =
     (let (r, s1) = ifLoadToken I h s; (a, l, s2) = run I (k r) s1
      in (a, EvLoadToken h r # l, s2))"
| "run I (OpConsumeToken h n k) s =
     (let (r, s1) = ifConsumeToken I h n s; (a, l, s2) = run I (k r) s1
      in (a, EvConsumeToken h n r # l, s2))"
| "run I (OpRevokeToken h k) s =
     (let (r, s1) = ifRevokeToken I h s; (a, l, s2) = run I (k r) s1
      in (a, EvRevokeToken h r # l, s2))"
| "run I (OpRevokeGrant g k) s =
     (let (r, s1) = ifRevokeGrant I g s; (a, l, s2) = run I (k r) s1
      in (a, EvRevokeGrant g r # l, s2))"
| "run I (OpClaimOnce c e k) s =
     (let (r, s1) = ifClaimOnce I c e s; (a, l, s2) = run I (k r) s1
      in (a, EvClaimOnce c e r # l, s2))"
| "run I (OpClient i c k) s =
     (let (r, s1) = ifClient I i c s; (a, l, s2) = run I (k r) s1
      in (a, EvClient i c r # l, s2))"
| "run I (OpNow k) s =
     (let (r, s1) = ifNow I s; (a, l, s2) = run I (k r) s1 in (a, EvNow r # l, s2))"
| "run I (OpRand k) s =
     (let (r, s1) = ifRand I s; (a, l, s2) = run I (k r) s1 in (a, EvRand r # l, s2))"

text \<open>The state after a call, when the implementation gives the answer of the event.\<close>

definition answered :: "'r \<Rightarrow> 'r \<times> 's \<Rightarrow> 's option" where
  "answered r x = (if fst x = r then Some (snd x) else None)"

lemma answered_Some: "answered r x = Some s \<longleftrightarrow> x = (r, s)"
  by (cases x) (auto simp: answered_def)

fun serve :: "'s iface \<Rightarrow> event \<Rightarrow> 's \<Rightarrow> 's option" where
  "serve I (EvCreateRequest q r) s = answered r (ifCreateRequest I q s)"
| "serve I (EvLoadRequest i r) s = answered r (ifLoadRequest I i s)"
| "serve I (EvDeleteRequest i r) s = answered r (ifDeleteRequest I i s)"
| "serve I (EvCreateToken t r) s = answered r (ifCreateToken I t s)"
| "serve I (EvLoadToken h r) s = answered r (ifLoadToken I h s)"
| "serve I (EvConsumeToken h n r) s = answered r (ifConsumeToken I h n s)"
| "serve I (EvRevokeToken h r) s = answered r (ifRevokeToken I h s)"
| "serve I (EvRevokeGrant g r) s = answered r (ifRevokeGrant I g s)"
| "serve I (EvClaimOnce c e r) s = answered r (ifClaimOnce I c e s)"
| "serve I (EvClient i c r) s = answered r (ifClient I i c s)"
| "serve I (EvNow t) s = answered t (ifNow I s)"
| "serve I (EvRand b) s = answered b (ifRand I s)"

fun serves :: "'s iface \<Rightarrow> event list \<Rightarrow> 's \<Rightarrow> 's option" where
  "serves I [] s = Some s"
| "serves I (ev # log) s = (case serve I ev s of None \<Rightarrow> None | Some s' \<Rightarrow> serves I log s')"

lemma serves_append:
  "serves I (l @ m) s = (case serves I l s of None \<Rightarrow> None | Some s' \<Rightarrow> serves I m s')"
  by (induction I l s rule: serves.induct) (auto split: option.splits)

definition rand32 :: "'s iface \<Rightarrow> bool" where
  "rand32 I \<longleftrightarrow> (\<forall>s. length (fst (ifRand I s)) = 32)"

lemma run_performs_proj:
  assumes "rand32 I"
  shows "performs p (fst (snd (run I p s))) (fst (run I p s)) \<and>
         serves I (fst (snd (run I p s))) s = Some (snd (snd (run I p s)))"
proof (induction p arbitrary: s)
  case (OpRand k)
  then show ?case using assms by (simp add: Let_def split_beta answered_def rand32_def)
qed (simp_all add: Let_def split_beta answered_def)

lemma run_performs:
  "rand32 I \<Longrightarrow> run I p s = (a, log, s') \<Longrightarrow> performs p log a \<and> serves I log s = Some s'"
  using run_performs_proj [of I p s] by simp

lemma performs_run:
  "performs p log a \<Longrightarrow> serves I log s = Some s' \<Longrightarrow> run I p s = (a, log, s')"
proof (induction p arbitrary: s log)
  case (Ret b)
  then show ?case by simp
qed (auto simp: answered_def split_beta split: option.splits if_splits)

lemma run_bind:
  "run I (bind p f) s =
     (case run I p s of (a, l, s1) \<Rightarrow> case run I (f a) s1 of (b, m, s2) \<Rightarrow> (b, l @ m, s2))"
  by (induction p arbitrary: s) (simp_all add: Let_def split_beta)

lemma run_bindE:
  "run I (bindE p f) s =
     (case run I p s of
        (Inl e, l, s1) \<Rightarrow> (Inl e, l, s1)
      | (Inr a, l, s1) \<Rightarrow> case run I (f a) s1 of (b, m, s2) \<Rightarrow> (b, l @ m, s2))"
  by (auto simp: bindE_def run_bind split: prod.splits sum.splits)

lemmas run_simps [prog_simps] = run.simps run_bind run_bindE op_defs

section \<open>Interleaved requests\<close>

text \<open>
  \<open>concurrent I (ps, s) log (qs, s')\<close>: the programs \<open>ps\<close>, started in state \<open>s\<close>, have made the calls
  of the log, one at a time and in any order of the threads, and are now \<open>qs\<close>. Each call is marked
  with its thread.
\<close>

inductive concurrent ::
  "'s iface \<Rightarrow> 'a prog list \<times> 's \<Rightarrow> (nat \<times> event) list \<Rightarrow> 'a prog list \<times> 's \<Rightarrow> bool"
  for I :: "'s iface" where
  concurrent_start: "concurrent I (ps, s) [] (ps, s)"
| concurrent_call:
    "\<lbrakk> concurrent I (ps, s) log (qs, s1); i < length qs; advance (qs ! i) ev = Some q;
       serve I ev s1 = Some s2 \<rbrakk> \<Longrightarrow>
     concurrent I (ps, s) (log @ [(i, ev)]) (qs[i := q], s2)"

definition calls_of :: "nat \<Rightarrow> (nat \<times> event) list \<Rightarrow> event list" where
  "calls_of i log = map snd (filter (\<lambda>(j, _). j = i) log)"

lemma calls_of_simps [simp]:
  "calls_of i [] = []"
  "calls_of i (log @ [(j, ev)]) = calls_of i log @ (if j = i then [ev] else [])"
  by (simp_all add: calls_of_def)

lemma concurrent_serves:
  "concurrent I (ps, s) log (qs, s') \<Longrightarrow> serves I (map snd log) s = Some s'"
  by (induction "(ps, s)" log "(qs, s')" arbitrary: qs s' rule: concurrent.induct)
    (auto simp: serves_append)

lemma concurrent_length:
  "concurrent I (ps, s) log (qs, s') \<Longrightarrow> length qs = length ps"
  by (induction "(ps, s)" log "(qs, s')" arbitrary: qs s' rule: concurrent.induct) auto

lemma concurrent_after:
  "concurrent I (ps, s) log (qs, s') \<Longrightarrow> i < length ps \<Longrightarrow>
     after (ps ! i) (calls_of i log) = Some (qs ! i)"
  by (induction "(ps, s)" log "(qs, s')" arbitrary: qs s' rule: concurrent.induct)
    (auto simp: after_append nth_list_update)

lemma concurrent_invariant:
  assumes "concurrent I (ps, s) log (qs, s')" and "P ps s"
    and "\<And>qs s i ev q s'. P qs s \<Longrightarrow> i < length qs \<Longrightarrow> advance (qs ! i) ev = Some q \<Longrightarrow>
           serve I ev s = Some s' \<Longrightarrow> P (qs[i := q]) s'"
  shows "P qs s'"
  using assms(1,2)
  by (induction "(ps, s)" log "(qs, s')" arbitrary: qs s' rule: concurrent.induct) (auto intro: assms(3))

lemma concurrent_makes:
  "concurrent I (ps, s) log (qs, s') \<Longrightarrow> \<forall>p \<in> set ps. makes A P p \<Longrightarrow>
     \<forall>ev \<in> snd ` set log. A ev \<Longrightarrow> (\<forall>ev \<in> snd ` set log. P ev) \<and> (\<forall>q \<in> set qs. makes A P q)"
proof (induction "(ps, s)" log "(qs, s')" arbitrary: qs s' rule: concurrent.induct)
  case (concurrent_call log qs s1 i ev q s2)
  then have IH: "\<forall>ev \<in> snd ` set log. P ev" "\<forall>q \<in> set qs. makes A P q" by auto
  have "P ev \<and> makes A P q"
    using makes_advance [OF _ concurrent_call.hyps(4), of A P] IH(2) concurrent_call.hyps(3)
      concurrent_call.prems(2) by auto
  then show ?case
    using IH set_update_subset_insert [of qs i q] by auto
qed simp

text \<open>A thread that returned performed its program.\<close>

lemma concurrent_performs:
  "concurrent I (ps, s) log (qs, s') \<Longrightarrow> i < length ps \<Longrightarrow> qs ! i = Ret a \<Longrightarrow>
     performs (ps ! i) (calls_of i log) a"
  using concurrent_after by (fastforce simp: performs_def)

text \<open>A thread may make several calls in a row.\<close>

lemma concurrent_thread:
  "concurrent I (ps, s) log (qs, s1) \<Longrightarrow> i < length qs \<Longrightarrow> after (qs ! i) l = Some q \<Longrightarrow>
     serves I l s1 = Some s2 \<Longrightarrow> concurrent I (ps, s) (log @ map (Pair i) l) (qs[i := q], s2)"
proof (induction l arbitrary: log qs s1)
  case (Cons ev l)
  from Cons.prems(3,4) obtain q' s' where q': "advance (qs ! i) ev = Some q'" "after q' l = Some q"
      and s': "serve I ev s1 = Some s'" "serves I l s' = Some s2"
    by (auto split: option.splits)
  have "concurrent I (ps, s) (log @ [(i, ev)]) (qs[i := q'], s')"
    using Cons.prems(1,2) q'(1) s'(1) by (rule concurrent_call)
  from Cons.IH [OF this] q'(2) s'(2) Cons.prems(2) show ?case by simp
qed auto

end
