(* ===== verification/Go_Http.thy ===== *)
theory Go_Http
  imports Go_Url Go_Json
begin

text \<open>
  What the sources see of net/http. A request is what the server and the parsing methods of
  \<^verbatim>\<open>*http.Request\<close> make of it; a \<^verbatim>\<open>ResponseWriter\<close> is the header, status and body written so far,
  passed from call to call.
\<close>

section \<open>Requests\<close>

text \<open>
  \<^item> \<open>rEscapedPath\<close> is \<^verbatim>\<open>r.URL.EscapedPath()\<close>, \<open>rQuery\<close> is \<^verbatim>\<open>r.URL.Query()\<close>.
  \<^item> \<open>rAuthorization\<close> is the Authorization header, \<open>rBasicAuth\<close> what \<^verbatim>\<open>r.BasicAuth()\<close> reads there.
  \<^item> \<open>rMediaType\<close> is the media type \<^verbatim>\<open>mime.ParseMediaType\<close> returns for the Content-Type header
    and \<open>rMediaTypeErr\<close> whether it also returns an error.
  \<^item> \<open>rPostForm\<close> is \<^verbatim>\<open>r.PostForm\<close> after \<^verbatim>\<open>r.ParseForm()\<close> on the body limited to 64 KiB, or \<open>None\<close>
    when that fails or the body is larger.
\<close>

record Request =
  rMethod :: string
  rHost :: string
  rEscapedPath :: string
  rQuery :: url_values
  rAuthorization :: string
  rBasicAuth :: "(string \<times> string) option"
  rMediaType :: string
  rMediaTypeErr :: bool
  rPostForm :: "url_values option"
  rCookies :: "(string \<times> string) list"

definition request_Cookie :: "Request \<Rightarrow> string \<Rightarrow> string option" where
  "request_Cookie r name = map_of (rCookies r) name"

definition request_AddCookie :: "Request \<Rightarrow> string \<Rightarrow> string \<Rightarrow> Request" where
  "request_AddCookie r name v = r\<lparr>rCookies := rCookies r @ [(name, v)]\<rparr>"

section \<open>Responses\<close>

record Cookie =
  ckName :: string
  ckValue :: string
  ckPath :: string
  ckMaxAge :: int
  ckSecure :: bool
  ckHttpOnly :: bool
  ckSameSiteLax :: bool

datatype body_part =
  BodyJSON json
| BodyText string
| BodyFormPost string "(string \<times> string) list"
| BodyBytes bytes

text \<open>The cookies of the Set-Cookie header are kept apart from the other header fields.\<close>

record ResponseWriter =
  wHeader :: "(string \<times> string) list"
  wSetCookie :: "Cookie list"
  wStatus :: "int option"
  wBody :: "body_part list"

definition fresh_writer :: ResponseWriter where
  "fresh_writer = \<lparr>wHeader = [], wSetCookie = [], wStatus = None, wBody = []\<rparr>"

definition header_Set :: "string \<Rightarrow> string \<Rightarrow> ResponseWriter \<Rightarrow> ResponseWriter" where
  "header_Set k v w = w\<lparr>wHeader := map_put k v (wHeader w)\<rparr>"

definition header_Get :: "ResponseWriter \<Rightarrow> string \<Rightarrow> string" where
  "header_Get w k = map_get [] (wHeader w) k"

text \<open>Only the first status is sent; writing a body first sends 200.\<close>

definition WriteHeader :: "int \<Rightarrow> ResponseWriter \<Rightarrow> ResponseWriter" where
  "WriteHeader status w = (case wStatus w of None \<Rightarrow> w\<lparr>wStatus := Some status\<rparr> | Some _ \<Rightarrow> w)"

definition writer_Write :: "body_part \<Rightarrow> ResponseWriter \<Rightarrow> ResponseWriter" where
  "writer_Write b w = (let w = WriteHeader 200 w in w\<lparr>wBody := wBody w @ [b]\<rparr>)"

definition http_SetCookie :: "Cookie \<Rightarrow> ResponseWriter \<Rightarrow> ResponseWriter" where
  "http_SetCookie c w = w\<lparr>wSetCookie := wSetCookie w @ [c]\<rparr>"

definition http_Error :: "string \<Rightarrow> int \<Rightarrow> ResponseWriter \<Rightarrow> ResponseWriter" where
  "http_Error msg code w =
     writer_Write (BodyText (msg @ [CHR 0x0A]))
       (WriteHeader code
         (header_Set ''X-Content-Type-Options'' ''nosniff''
           (header_Set ''Content-Type'' ''text/plain; charset=utf-8'' w)))"

definition http_NotFound :: "ResponseWriter \<Rightarrow> ResponseWriter" where
  "http_NotFound w = http_Error ''404 page not found'' 404 w"

lemma writer_sel [simp]:
  "wStatus (header_Set k v w) = wStatus w" "wBody (header_Set k v w) = wBody w"
  "wSetCookie (header_Set k v w) = wSetCookie w"
  "wHeader (WriteHeader s w) = wHeader w" "wSetCookie (WriteHeader s w) = wSetCookie w"
  "wBody (WriteHeader s w) = wBody w"
  "wHeader (writer_Write b w) = wHeader w" "wSetCookie (writer_Write b w) = wSetCookie w"
  "wBody (writer_Write b w) = wBody w @ [b]"
  "wHeader (http_SetCookie c w) = wHeader w" "wStatus (http_SetCookie c w) = wStatus w"
  "wBody (http_SetCookie c w) = wBody w" "wSetCookie (http_SetCookie c w) = wSetCookie w @ [c]"
  by (simp_all add: header_Set_def WriteHeader_def writer_Write_def http_SetCookie_def Let_def
      split: option.split)

lemma wStatus_WriteHeader [simp]:
  "wStatus (WriteHeader s w) = (case wStatus w of None \<Rightarrow> Some s | Some t \<Rightarrow> Some t)"
  "wStatus (writer_Write b w) = (case wStatus w of None \<Rightarrow> Some 200 | Some t \<Rightarrow> Some t)"
  by (simp_all add: WriteHeader_def writer_Write_def Let_def split: option.split)

lemma header_Get_Set [simp]:
  "header_Get (header_Set k v w) j = (if j = k then v else header_Get w j)"
  by (simp add: header_Get_def header_Set_def map_get_def)

lemma header_Get_other [simp]:
  "header_Get (WriteHeader s w) j = header_Get w j"
  "header_Get (writer_Write b w) j = header_Get w j"
  "header_Get (http_SetCookie c w) j = header_Get w j"
  by (simp_all add: header_Get_def)

end
