(* ===== verification/Grantor_Config.thy ===== *)
theory Grantor_Config
  imports Grantor_Effects Go_Http
begin

text \<open>
  The configuration of a provider, and the values that pass between it and the application: token
  requests, grants, issuances and access tokens. Functions of the application (\<^verbatim>\<open>IssuerFor\<close>,
  \<^verbatim>\<open>Interact\<close>, \<^verbatim>\<open>Claims\<close>, \<^verbatim>\<open>Grants\<close>, \<^verbatim>\<open>BeforeIssue\<close>, access token encoders, \<^verbatim>\<open>ErrorPage\<close>) are
  arbitrary functions in the configuration; one that changes its argument returns it changed. A nil
  function is \<open>None\<close>. \<^verbatim>\<open>Interact\<close> may call the provider, so that it is any program.

  go-jose signs, parses and verifies tokens; it is the record \<open>jose\<close> of parameters, together with
  the decoding of the claims parameter and of request object hints by encoding/json.
\<close>

section \<open>Third-party code\<close>

record jwt_claims =
  jcIssuer :: string
  jcSubject :: string
  jcAudience :: "string list"
  jcExpiry :: "time option"
  jcNotBefore :: "time option"
  jcIssuedAt :: "time option"
  jcID :: string

record jwt_header =
  jhKeyID :: string
  jhAlgorithm :: string

text \<open>A parsed, unverified token: \<open>jtClaims\<close> is \<^verbatim>\<open>tok.Claims(key, &c)\<close>, which verifies the signature
  with the key, and \<open>None\<close> its error.\<close>

record parsed_jwt =
  jtHeaders :: "jwt_header list"
  jtUnverified :: "jwt_claims option"
  jtClaims :: "public_key \<Rightarrow> jwt_claims option"

record json_web_key =
  jwkKey :: public_key
  jwkKeyID :: string
  jwkAlgorithm :: string
  jwkUse :: string
  jwkIsPublic :: bool

record jwt_expected =
  jeIssuer :: string
  jeSubject :: string
  jeAnyAudience :: "string list"
  jeTime :: time

record jose =
  jzSign :: "preparedKey \<Rightarrow> string \<Rightarrow> json \<Rightarrow> goerr + string"
  jzParseSigned :: "string \<Rightarrow> alg list \<Rightarrow> parsed_jwt option"
  jzParseJWKS :: "bytes \<Rightarrow> json_web_key list option"
  jzMarshalJWKS :: "json_web_key list \<Rightarrow> goerr + bytes"
  jzValidateWithLeeway :: "jwt_claims \<Rightarrow> jwt_expected \<Rightarrow> duration \<Rightarrow> bool"
  jzDecodeClaims :: "string \<Rightarrow> ClaimsRequest option"
  jzDecodeHints :: "bytes \<Rightarrow> (string \<times> string) option"

section \<open>Values exchanged with the application\<close>

record SigningKey =
  skID :: string
  skSigner :: "crypto_signer option"
  skAlgorithm :: string

record Issuer =
  isURL :: string
  isKeys :: "SigningKey list"

record Lifetimes =
  ltAuthorizationRequest :: duration
  ltAuthorizationCode :: duration
  ltAccessToken :: duration
  ltRefreshToken :: duration
  ltIDToken :: duration
  ltPushedAuthorizationRequest :: duration

record Endpoints =
  epAuthorization :: string
  epToken :: string
  epUserInfo :: string
  epIntrospection :: string
  epRevocation :: string
  epJWKS :: string
  epPushedAuthorization :: string

text \<open>\<^verbatim>\<open>Scopes\<close> distinguishes nil, the scope parameter was not sent, from an empty list. The last four
  fields are unexported.\<close>

record TokenRequest =
  trClient :: "Client option"
  trGrantType :: GrantType
  trScopes :: "string list option"
  trForm :: url_values
  trIssuer :: string
  trHTTPRequest :: Request
  tr_iss :: "resolvedIssuer option"
  tr_client :: Client
  tr_grantType :: GrantType
  tr_scopes :: "string list option"

record TokenResponse =
  reAccessToken :: string
  reTokenType :: string
  reExpiresIn :: int
  reRefreshToken :: string
  reScope :: string
  reIDToken :: string

record Grant =
  gSubject :: string
  gScopes :: "string list"
  gAuthTime :: time
  gACR :: string
  gAMR :: "string list"
  gRefreshToken :: bool
  gAudience :: "string list"

record Issuance =
  iuIssuer :: string
  iuGrantType :: GrantType
  iuRequest :: TokenRequest
  iuClient :: Client
  iuGrantID :: string
  iuSubject :: string
  iuAuthTime :: time
  iuScopes :: "string list"
  iuRefreshToken :: bool
  iuAudience :: "string list"
  iuAccessTokenFormat :: AccessTokenFormat
  iuAccessTokenClaims :: json_map
  iuIDTokenClaims :: json_map
  iuAccessTokenLifetime :: duration
  iuRefreshTokenLifetime :: duration
  iuIDTokenLifetime :: duration

record AccessToken =
  xID :: string
  xIssuer :: string
  xClientID :: string
  xSubject :: string
  xAudience :: "string list"
  xScopes :: "string list"
  xGrantType :: GrantType
  xAuthTime :: time
  xACR :: string
  xAMR :: "string list"
  xIssuedAt :: time
  xExpiresAt :: time
  xClaims :: json_map

record Approval =
  apSubject :: string
  apScopes :: "string list"
  apAuthTime :: time
  apACR :: string
  apAMR :: "string list"
  apClaims :: "string list"
  apAudience :: "string list"

type_synonym SignFunc = "string \<Rightarrow> json \<Rightarrow> goerr + string"
type_synonym AccessTokenEncoder = "AccessToken \<Rightarrow> SignFunc \<Rightarrow> goerr + string"
type_synonym GrantFunc = "TokenRequest \<Rightarrow> (goerr + Grant option) \<times> TokenRequest"
type_synonym BeforeIssueFunc = "Issuance \<Rightarrow> goerr option \<times> Issuance"
type_synonym ClaimsFunc = "Token \<Rightarrow> goerr + json_map"
type_synonym InteractionFunc =
  "ResponseWriter \<Rightarrow> Request \<Rightarrow> AuthorizationRequest \<Rightarrow> ResponseWriter prog"
type_synonym ErrorPageFunc = "ResponseWriter \<Rightarrow> Request \<Rightarrow> perror \<Rightarrow> ResponseWriter"

type_synonym PARPolicy = string

abbreviation (input) "PARDisabled \<equiv> ''''"
abbreviation (input) "PARAllowed \<equiv> ''allowed''"
abbreviation (input) "PARRequired \<equiv> ''required''"

text \<open>The two stores are behind \<open>prog\<close>; here it only counts whether they are set.\<close>

record Config =
  cfIssuer :: "Issuer option"
  cfIssuerFor :: "(Request \<Rightarrow> goerr + Issuer option) option"
  cfClientsSet :: bool
  cfStorageSet :: bool
  cfInteract :: "InteractionFunc option"
  cfClaims :: "ClaimsFunc option"
  cfScopeClaims :: "(string \<times> string list) list"
  cfIDTokenScopeClaims :: bool
  cfLifetimes :: Lifetimes
  cfEndpoints :: Endpoints
  cfPAR :: PARPolicy
  cfAccessTokenFormat :: AccessTokenFormat
  cfAccessTokenFormats :: "(AccessTokenFormat \<times> AccessTokenEncoder option) list"
  cfGrants :: "(GrantType \<times> GrantFunc option) list"
  cfBeforeIssue :: "BeforeIssueFunc option"
  cfDisableInteractionBinding :: bool
  cfErrorPage :: "ErrorPageFunc option"

text \<open>A provider, with the third-party library it is linked with.\<close>

record Provider =
  pvCfg :: Config
  pvStatic :: "resolvedIssuer option"
  pvJose :: jose

end
