(* ===== verification/Grantor_Keys.thy ===== *)
theory Grantor_Keys
  imports Grantor_Config
begin

text \<open>
  keys.go: signing keys and the validated key set of an issuer. Signing itself is go-jose's.
\<close>

definition SigningKey_algorithm :: "SigningKey \<Rightarrow> goerr + alg" where
  "SigningKey_algorithm k =
     (let mismatch = Inl (ENew ''signing key: algorithm does not match the key type'') in
      case skSigner k of
        None \<Rightarrow> Inl (ENew ''signing key has no Signer'')
      | Some signer \<Rightarrow>
          (case signer_Public signer of
             RSAPublicKey n \<Rightarrow>
               if bit_length n < 2048
               then Inl (ENew ''signing key: RSA keys must be at least 2048 bits'')
               else if skAlgorithm k = [] \<or> skAlgorithm k = ''RS256'' then Inr ''RS256''
               else if skAlgorithm k = ''PS256'' then Inr ''PS256''
               else mismatch
           | ECDSAPublicKey curve _ \<Rightarrow>
               (let want = (case curve of P256 \<Rightarrow> ''ES256'' | P384 \<Rightarrow> ''ES384'' | P521 \<Rightarrow> ''ES512''
                            | P224 \<Rightarrow> [])
                in if want = [] then Inl (ENew ''signing key: unsupported ECDSA curve'')
                   else if skAlgorithm k = [] \<or> skAlgorithm k = want then Inr want
                   else mismatch)
           | Ed25519PublicKey _ \<Rightarrow>
               if skAlgorithm k = [] \<or> skAlgorithm k = ''EdDSA'' then Inr ''EdDSA'' else mismatch
           | OtherPublicKey _ \<Rightarrow> Inl (ENew ''signing key: unsupported key type'')))"

definition keySet_forAlg :: "keySet \<Rightarrow> alg \<Rightarrow> preparedKey option" where
  "keySet_forAlg ks alg = find (\<lambda>k. pkAlg k = alg) (ksKeys ks)"

text \<open>The loop of \<^verbatim>\<open>newKeySet\<close>: \<open>seen\<close> are the IDs of the keys prepared so far.\<close>

fun newKeySet_loop ::
  "string list \<Rightarrow> preparedKey list \<Rightarrow> SigningKey list \<Rightarrow> goerr + preparedKey list" where
  "newKeySet_loop seen out [] = Inr out"
| "newKeySet_loop seen out (k # ks) =
     (if skID k = [] then Inl (ENew ''signing key has no ID'')
      else if skID k \<in> set seen then Inl (ENew ''duplicate signing key ID'')
      else (case SigningKey_algorithm k of
              Inl e \<Rightarrow> Inl e
            | Inr alg \<Rightarrow>
                newKeySet_loop (skID k # seen)
                  (out @ [\<lparr>pkID = skID k, pkAlg = alg, pkSigner = the (skSigner k)\<rparr>]) ks))"

definition newKeySet :: "SigningKey list \<Rightarrow> goerr + keySet" where
  "newKeySet keys =
     (if length keys = 0 then Inl (ENew ''issuer has no signing keys'')
      else (case newKeySet_loop [] [] keys of
              Inl e \<Rightarrow> Inl e
            | Inr prepared \<Rightarrow>
                (let ks = \<lparr>ksKeys = prepared\<rparr>
                 in if keySet_forAlg ks ''RS256'' = None
                    then Inl (ENew ''issuer needs an RSA signing key with the RS256 algorithm'')
                    else Inr ks)))"

definition keySet_algorithms :: "keySet \<Rightarrow> alg list" where
  "keySet_algorithms ks = nub_loop [] (map pkAlg (ksKeys ks))"

definition keySet_publicJWKS :: "jose \<Rightarrow> keySet \<Rightarrow> goerr + bytes" where
  "keySet_publicJWKS J ks =
     jzMarshalJWKS J
       (map (\<lambda>k. \<lparr>jwkKey = signer_Public (pkSigner k), jwkKeyID = pkID k, jwkAlgorithm = pkAlg k,
                  jwkUse = ''sig'', jwkIsPublic = True\<rparr>) (ksKeys ks))"

definition keySet_verificationKey :: "keySet \<Rightarrow> string \<Rightarrow> (public_key \<times> alg) option" where
  "keySet_verificationKey ks kid =
     (case find (\<lambda>k. pkID k = kid) (ksKeys ks) of
        None \<Rightarrow> None
      | Some k \<Rightarrow> Some (signer_Public (pkSigner k), pkAlg k))"

definition preparedKey_sign :: "jose \<Rightarrow> preparedKey \<Rightarrow> json \<Rightarrow> string \<Rightarrow> goerr + string" where
  "preparedKey_sign J k claims typ =
     (if \<not> json_ok claims then Inl (ENew ''marshal claims'') else jzSign J k typ claims)"

section \<open>Facts\<close>

text \<open>A key has an algorithm that fits its type and, for RSA, at least 2048 bits.\<close>

definition alg_fits :: "alg \<Rightarrow> public_key \<Rightarrow> bool" where
  "alg_fits alg pub =
     (case pub of
        RSAPublicKey n \<Rightarrow> 2 ^ 2047 \<le> n \<and> alg \<in> {''RS256'', ''PS256''}
      | ECDSAPublicKey c _ \<Rightarrow> (c, alg) \<in> {(P256, ''ES256''), (P384, ''ES384''), (P521, ''ES512'')}
      | Ed25519PublicKey _ \<Rightarrow> alg = ''EdDSA''
      | OtherPublicKey _ \<Rightarrow> False)"

lemma bit_length_ge: "Suc k \<le> bit_length n \<Longrightarrow> 2 ^ k \<le> n"
proof (rule ccontr)
  assume "Suc k \<le> bit_length n" "\<not> 2 ^ k \<le> n"
  then show False using bit_length_le [of n k] by simp
qed

lemma SigningKey_algorithm_fits:
  assumes "SigningKey_algorithm k = Inr alg"
  obtains s where "skSigner k = Some s" and "alg_fits alg (signer_Public s)"
proof -
  obtain s where s: "skSigner k = Some s"
    using assms by (cases "skSigner k") (auto simp: SigningKey_algorithm_def Let_def)
  have "2 ^ 2047 \<le> n" if "signer_Public s = RSAPublicKey n" for n
    using assms s that bit_length_ge [of 2047 n]
    by (auto simp: SigningKey_algorithm_def Let_def simp del: power_numeral split: if_splits)
  then have "alg_fits alg (signer_Public s)"
    using assms s
    by (cases "signer_Public s")
      (auto simp: SigningKey_algorithm_def alg_fits_def Let_def simp del: power_numeral
        split: if_splits curve.splits)
  with s show ?thesis by (rule that)
qed

definition key_ok :: "preparedKey \<Rightarrow> bool" where
  "key_ok k \<longleftrightarrow> pkID k \<noteq> [] \<and> alg_fits (pkAlg k) (signer_Public (pkSigner k))"

lemma newKeySet_loop_ok:
  "newKeySet_loop seen out keys = Inr r \<Longrightarrow> set seen = pkID ` set out \<Longrightarrow>
     distinct (map pkID out) \<Longrightarrow> list_all key_ok out \<Longrightarrow>
     distinct (map pkID r) \<and> list_all key_ok r \<and> map pkID r = map pkID out @ map skID keys"
proof (induction seen out keys rule: newKeySet_loop.induct)
  case (2 seen out k ks)
  then obtain alg where alg: "SigningKey_algorithm k = Inr alg" "skID k \<noteq> []" "skID k \<notin> set seen"
    and rest: "newKeySet_loop (skID k # seen)
      (out @ [\<lparr>pkID = skID k, pkAlg = alg, pkSigner = the (skSigner k)\<rparr>]) ks = Inr r"
    by (auto split: if_splits sum.splits)
  obtain s where "skSigner k = Some s" "alg_fits alg (signer_Public s)"
    using SigningKey_algorithm_fits [OF alg(1)] .
  then have "key_ok \<lparr>pkID = skID k, pkAlg = alg, pkSigner = the (skSigner k)\<rparr>"
    using alg by (simp add: key_ok_def)
  moreover have "skID k \<notin> pkID ` set out" using alg(3) "2.prems"(2) by simp
  ultimately have pr: "set (skID k # seen) = pkID ` set (out @ [\<lparr>pkID = skID k, pkAlg = alg, pkSigner = the (skSigner k)\<rparr>])"
      "distinct (map pkID (out @ [\<lparr>pkID = skID k, pkAlg = alg, pkSigner = the (skSigner k)\<rparr>]))" "list_all key_ok (out @ [\<lparr>pkID = skID k, pkAlg = alg, pkSigner = the (skSigner k)\<rparr>])"
    using "2.prems"(2-4) by auto
  note ih = "2.IH" [OF alg(2,3,1) rest pr]
  show ?case using conjunct1 [OF ih] conjunct1 [OF conjunct2 [OF ih]] conjunct2 [OF conjunct2 [OF ih]]
    by (intro conjI) (assumption | simp only: map_append list.map append_assoc append.simps preparedKey.simps)+
qed simp

lemma newKeySet_ok:
  assumes "newKeySet keys = Inr ks"
  shows "distinct (map pkID (ksKeys ks))" and "list_all key_ok (ksKeys ks)"
    and "map pkID (ksKeys ks) = map skID keys"
    and "\<exists>k. keySet_forAlg ks ''RS256'' = Some k"
proof -
  obtain r where r: "newKeySet_loop [] [] keys = Inr r" and ks: "ks = \<lparr>ksKeys = r\<rparr>"
    and rs: "keySet_forAlg ks ''RS256'' \<noteq> None"
    using assms by (auto simp: newKeySet_def Let_def split: if_splits sum.splits)
  show "distinct (map pkID (ksKeys ks))" "list_all key_ok (ksKeys ks)"
    "map pkID (ksKeys ks) = map skID keys"
    using newKeySet_loop_ok [OF r] ks by auto
  show "\<exists>k. keySet_forAlg ks ''RS256'' = Some k" using rs by auto
qed

lemma keySet_forAlg_Some:
  "keySet_forAlg ks alg = Some k \<Longrightarrow> k \<in> set (ksKeys ks) \<and> pkAlg k = alg"
  by (auto simp: keySet_forAlg_def find_Some_iff)

lemma set_keySet_algorithms: "set (keySet_algorithms ks) = pkAlg ` set (ksKeys ks)"
  by (simp add: keySet_algorithms_def)

end
