(* ===== verification/Grantor_Params.thy ===== *)
theory Grantor_Params
  imports Go_Http Grantor_Errors
begin

text \<open>
  params.go: request parameters, the splitting of space-delimited values, and the JSON responses
  shared by the endpoints. \<^verbatim>\<open>r.Form\<close> maps are association lists; the order of the list is the order
  in which the range loops visit the map.
\<close>

section \<open>Request parameters\<close>

record params =
  pValues :: "(string \<times> string) list"
  pRepeated :: "string list"

fun newParams_loop :: "params \<Rightarrow> url_values \<Rightarrow> params" where
  "newParams_loop p [] = p"
| "newParams_loop p ((name, vals) # v) =
     (let p = (if 1 < length vals then p\<lparr>pRepeated := pRepeated p @ [name]\<rparr> else p);
          p = (if 0 < length vals \<and> hd vals \<noteq> []
               then p\<lparr>pValues := map_put name (hd vals) (pValues p)\<rparr> else p)
      in newParams_loop p v)"

definition newParams :: "url_values \<Rightarrow> params" where
  "newParams v = newParams_loop \<lparr>pValues = [], pRepeated = []\<rparr> v"

definition params_get :: "params \<Rightarrow> string \<Rightarrow> string" where
  "params_get p name = map_get [] (pValues p) name"

definition params_has :: "params \<Rightarrow> string \<Rightarrow> bool" where
  "params_has p name \<longleftrightarrow> map_has (pValues p) name"

definition params_isRepeated :: "params \<Rightarrow> string \<Rightarrow> bool" where
  "params_isRepeated p name \<longleftrightarrow> name \<in> set (pRepeated p)"

definition parseForm :: "Request \<Rightarrow> perror + params" where
  "parseForm r =
     (if rMediaTypeErr r \<or> rMediaType r \<noteq> ''application/x-www-form-urlencoded''
      then Inl (errInvalidRequest ''the request body must be application/x-www-form-urlencoded'')
      else (case rPostForm r of
              None \<Rightarrow> Inl (errInvalidRequest ''the request body could not be parsed'')
            | Some form \<Rightarrow> Inr (newParams form)))"

fun splitSpaces_loop :: "string list \<Rightarrow> string list \<Rightarrow> string list" where
  "splitSpaces_loop out [] = out"
| "splitSpaces_loop out (f # fs) =
     splitSpaces_loop (if f \<noteq> [] \<and> f \<notin> set out then out @ [f] else out) fs"

definition splitSpaces :: "string \<Rightarrow> string list" where
  "splitSpaces s = splitSpaces_loop [] (strings_Split s CHR '' '')"

section \<open>Responses\<close>

definition noStore :: "ResponseWriter \<Rightarrow> ResponseWriter" where
  "noStore w = header_Set ''Pragma'' ''no-cache'' (header_Set ''Cache-Control'' ''no-store'' w)"

definition writeJSON :: "int \<Rightarrow> json \<Rightarrow> ResponseWriter \<Rightarrow> ResponseWriter" where
  "writeJSON status v w =
     (if \<not> json_ok v then http_Error ''internal error'' 500 w
      else writer_Write (BodyJSON v)
             (WriteHeader status
               (header_Set ''X-Content-Type-Options'' ''nosniff''
                 (header_Set ''Content-Type'' ''application/json'' w))))"

text \<open>The members of a token error response; logging is left out.\<close>

definition token_error_body :: "perror \<Rightarrow> json_map" where
  "token_error_body e =
     (let body = [(''error'', JString (eCode e))];
          body = (if eDescription e \<noteq> []
                  then body @ [(''error_description'', JString (sanitizeDescription (eDescription e)))]
                  else body)
      in if eURI e \<noteq> [] then body @ [(''error_uri'', JString (sanitizeURI (eURI e)))] else body)"

definition WriteTokenError :: "Request \<Rightarrow> goerr \<Rightarrow> ResponseWriter \<Rightarrow> ResponseWriter" where
  "WriteTokenError r err w =
     (let e = asProtocolError err;
          w = noStore w;
          w = (if eCode e = CodeInvalidClient \<and> strings_HasPrefix (rAuthorization r) ''Basic ''
               then header_Set ''WWW-Authenticate'' (''Basic realm='' @ [CHR 0x22] @ ''token'' @ [CHR 0x22]) w
               else w)
      in writeJSON (perror_HTTPStatus e) (JObject (token_error_body e)) w)"

text \<open>\<open>None\<close> when the method is allowed, otherwise the response.\<close>

definition allowMethods ::
  "Request \<Rightarrow> string list \<Rightarrow> ResponseWriter \<Rightarrow> ResponseWriter option" where
  "allowMethods r methods w =
     (if rMethod r \<in> set methods then None
      else Some (http_Error ''method not allowed'' 405
                   (header_Set ''Allow'' (strings_Join methods '', '') w)))"

section \<open>Lemmas\<close>

lemma splitSpaces_loop_nub:
  "[] \<notin> set out \<Longrightarrow> splitSpaces_loop out fs = nub_loop out (filter (\<lambda>f. f \<noteq> []) fs)"
  by (induction out fs rule: splitSpaces_loop.induct) auto

lemma splitSpaces_nub:
  "splitSpaces s = nub_loop [] (filter (\<lambda>f. f \<noteq> []) (strings_Split s CHR '' ''))"
  by (simp add: splitSpaces_def splitSpaces_loop_nub)

lemma splitSpaces_distinct: "distinct (splitSpaces s)"
  by (simp add: splitSpaces_nub distinct_nub_loop)

lemma splitSpaces_words: "f \<in> set (splitSpaces s) \<Longrightarrow> f \<noteq> [] \<and> CHR '' '' \<notin> set f"
  by (auto simp: splitSpaces_nub dest: Split_no_sep)

lemma splitSpaces_Nil [simp]: "splitSpaces [] = []"
  by (simp add: splitSpaces_def)

lemma splitSpaces_Join:
  assumes "distinct fs" and "\<And>f. f \<in> set fs \<Longrightarrow> f \<noteq> [] \<and> CHR '' '' \<notin> set f"
  shows "splitSpaces (strings_Join fs '' '') = fs"
proof (cases "fs = []")
  case False
  have "strings_Split (strings_Join fs '' '') CHR '' '' = fs"
    using False assms(2) by (intro Split_Join) auto
  moreover have "filter (\<lambda>f. f \<noteq> []) fs = fs"
    using assms(2) by (auto simp: filter_id_conv)
  ultimately show ?thesis
    using assms(1) by (simp add: splitSpaces_nub nub_loop_distinct)
qed simp

lemma params_get_has: "params_get p n \<noteq> [] \<Longrightarrow> params_has p n"
  by (auto simp: params_get_def params_has_def map_get_def map_has_def split: option.splits)

definition params_ok :: "params \<Rightarrow> bool" where
  "params_ok p \<longleftrightarrow> (\<forall>n. map_of (pValues p) n \<noteq> Some [])"

lemma newParams_loop_ok: "params_ok p \<Longrightarrow> params_ok (newParams_loop p v)"
proof (induction v arbitrary: p)
  case (Cons nv v)
  obtain name vals where nv: "nv = (name, vals)" by (cases nv)
  show ?case
    unfolding nv newParams_loop.simps Let_def
    by (rule Cons.IH) (use Cons.prems in \<open>simp add: params_ok_def\<close>)
qed simp

lemma newParams_ok: "params_ok (newParams v)"
  unfolding newParams_def by (rule newParams_loop_ok) (simp add: params_ok_def)

lemma params_has_get: "params_ok p \<Longrightarrow> params_has p n \<longleftrightarrow> params_get p n \<noteq> []"
  by (auto simp: params_get_def params_has_def map_get_def map_has_def params_ok_def
      split: option.splits)

lemma parseForm_ok: "parseForm r = Inr p \<Longrightarrow> params_ok p"
  by (auto simp: parseForm_def newParams_ok split: if_splits option.splits)

lemma newParams_loop_repeated:
  "set (pRepeated (newParams_loop p v)) =
     set (pRepeated p) \<union> {name. \<exists>vals. (name, vals) \<in> set v \<and> 1 < length vals}"
  by (induction p v rule: newParams_loop.induct) (auto simp: Let_def)

lemma newParams_repeated:
  "params_isRepeated (newParams v) name \<longleftrightarrow> (\<exists>vals. (name, vals) \<in> set v \<and> 1 < length vals)"
  by (simp add: params_isRepeated_def newParams_def newParams_loop_repeated)

lemma token_error_body_ok [simp]: "json_ok (JObject (token_error_body e))"
  by (simp add: token_error_body_def Let_def)

end
