(* ===== verification/Grantor_Provider.thy ===== *)
theory Grantor_Provider
  imports Grantor_Keys Grantor_Params
begin

text \<open>
  provider.go and endpoints.go up to the routing of requests, and the methods of claims.go: the
  validation of a configuration, the resolution of issuers, the lookup of clients, and which
  end-user claims a client may receive.
\<close>

section \<open>Endpoints\<close>

definition default_path :: "string \<Rightarrow> string \<Rightarrow> string" where
  "default_path path def = (if path = [] then def else path)"

definition Endpoints_setDefaults :: "Endpoints \<Rightarrow> Endpoints" where
  "Endpoints_setDefaults e =
     \<lparr>epAuthorization = default_path (epAuthorization e) ''/authorize'',
      epToken = default_path (epToken e) ''/token'',
      epUserInfo = default_path (epUserInfo e) ''/userinfo'',
      epIntrospection = default_path (epIntrospection e) ''/introspect'',
      epRevocation = default_path (epRevocation e) ''/revoke'',
      epJWKS = default_path (epJWKS e) ''/jwks'',
      epPushedAuthorization = default_path (epPushedAuthorization e) ''/par''\<rparr>"

definition Endpoints_paths :: "Endpoints \<Rightarrow> bool \<Rightarrow> string list" where
  "Endpoints_paths e par =
     [epAuthorization e, epToken e, epUserInfo e, epIntrospection e, epRevocation e, epJWKS e]
     @ (if par then [epPushedAuthorization e] else [])"

fun validate_paths :: "string list \<Rightarrow> string list \<Rightarrow> goerr option" where
  "validate_paths seen [] = None"
| "validate_paths seen (path # paths) =
     (if \<not> strings_HasPrefix path ''/'' \<or> url_EscapedPath (url_empty\<lparr>uPath := path\<rparr>) \<noteq> path
      then Some (ENew ''endpoint path must start with / and contain only path characters'')
      else if strings_HasPrefix path ''/.well-known/''
      then Some (ENew ''endpoint path must not be below /.well-known/'')
      else if path \<in> set seen then Some (ENew ''endpoint path is used twice'')
      else validate_paths (path # seen) paths)"

definition Endpoints_validate :: "bool \<Rightarrow> Endpoints \<Rightarrow> goerr option" where
  "Endpoints_validate par e = validate_paths [] (Endpoints_paths e par)"

definition path_ok :: "string \<Rightarrow> bool" where
  "path_ok path \<longleftrightarrow> strings_HasPrefix path ''/'' \<and> \<not> strings_HasPrefix path ''/.well-known/''"

lemma validate_paths_Cons:
  assumes "validate_paths seen (path # paths) = None"
  shows "path_ok path" "path \<notin> set seen" "validate_paths (path # seen) paths = None"
  using assms unfolding validate_paths.simps path_ok_def
  by (metis (full_types) option.distinct(1))+

lemma validate_paths_None:
  "validate_paths seen paths = None \<Longrightarrow>
     distinct paths \<and> set paths \<inter> set seen = {} \<and> (\<forall>p \<in> set paths. path_ok p)"
proof (induction paths arbitrary: seen)
  case (Cons path paths)
  note v = validate_paths_Cons [OF Cons.prems]
  from Cons.IH [OF v(3)] v(1,2) show ?case by auto
qed simp

lemma Endpoints_validate_None:
  assumes "Endpoints_validate par e = None"
  shows "distinct (Endpoints_paths e par)" "\<forall>path \<in> set (Endpoints_paths e par). path_ok path"
proof -
  note v = validate_paths_None [OF assms [unfolded Endpoints_validate_def]]
  show "distinct (Endpoints_paths e par)" using v by (elim conjE)
  show "\<forall>path \<in> set (Endpoints_paths e par). path_ok path"
    using v by (elim conjE)
qed

section \<open>Issuers\<close>

definition resolveIssuer :: "Issuer \<Rightarrow> goerr + resolvedIssuer" where
  "resolveIssuer iss =
     (case url_Parse (isURL iss) of
        None \<Rightarrow> Inl (ENew ''invalid issuer URL'')
      | Some u \<Rightarrow>
          if \<not> (uScheme u = ''https'' \<or>
                 (uScheme u = ''http'' \<and>
                  (isLoopbackIP (url_Hostname u) \<or> url_Hostname u = ''localhost'')))
          then Inl (ENew ''issuer URL must use https'')
          else if uHost u = [] \<or> uRawQuery u \<noteq> [] \<or> uFragment u \<noteq> [] \<or> uUser u
                  \<or> strings_HasSuffix (isURL iss) ''/''
          then Inl (ENew ''issuer URL must have a host, no query, fragment or user info'')
          else (case newKeySet (isKeys iss) of
                  Inl e \<Rightarrow> Inl (EWrap ''issuer'' [e])
                | Inr keys \<Rightarrow>
                    Inr \<lparr>rsURL = isURL iss, rsBasePath = url_EscapedPath u,
                         rsSecure = (uScheme u = ''https''), rsKeys = keys\<rparr>))"

definition issuer_endpoint :: "resolvedIssuer \<Rightarrow> string \<Rightarrow> string" where
  "issuer_endpoint iss path = rsURL iss @ path"

definition provider_issuerFor :: "Provider \<Rightarrow> Request \<Rightarrow> goerr + resolvedIssuer" where
  "provider_issuerFor p r =
     (case pvStatic p of
        Some iss \<Rightarrow> Inr iss
      | None \<Rightarrow>
          (case cfIssuerFor (pvCfg p) of
             None \<Rightarrow> Inl (ENew ''nil IssuerFor'')
           | Some f \<Rightarrow>
               (case f r of
                  Inl err \<Rightarrow> Inl err
                | Inr None \<Rightarrow> Inl (ENew ''IssuerFor returned neither an issuer nor an error'')
                | Inr (Some cfg) \<Rightarrow>
                    (case resolveIssuer cfg of
                       Inl err \<Rightarrow> Inl (EWrap ''IssuerFor returned an invalid issuer'' [err])
                     | Inr iss \<Rightarrow> Inr iss))))"

definition issuerError :: "goerr \<Rightarrow> perror" where
  "issuerError err =
     (if errors_Is err ErrNotFound
      then PError CodeInvalidRequest ''unknown issuer'' [] 404 (Some err)
      else errServer (EWrap ''resolve issuer'' [err]))"

text \<open>An issuer a provider resolves is an https URL, or a loopback http URL, with a valid key set.\<close>

definition issuer_ok :: "resolvedIssuer \<Rightarrow> bool" where
  "issuer_ok iss \<longleftrightarrow>
     (\<exists>u. url_Parse (rsURL iss) = Some u \<and> uHost u \<noteq> [] \<and> uRawQuery u = [] \<and> uFragment u = [] \<and>
          \<not> uUser u \<and> rsBasePath iss = url_EscapedPath u \<and> (rsSecure iss \<longleftrightarrow> uScheme u = ''https'') \<and>
          (rsSecure iss \<or> (uScheme u = ''http'' \<and>
            (isLoopbackIP (url_Hostname u) \<or> url_Hostname u = ''localhost''))) \<and>
          \<not> strings_HasSuffix (rsURL iss) ''/'') \<and>
     distinct (map pkID (ksKeys (rsKeys iss))) \<and> list_all key_ok (ksKeys (rsKeys iss)) \<and>
     keySet_forAlg (rsKeys iss) ''RS256'' \<noteq> None"

lemma resolveIssuer_ok: "resolveIssuer i = Inr iss \<Longrightarrow> issuer_ok iss"
  by (auto simp: resolveIssuer_def issuer_ok_def dest: newKeySet_ok
      split: option.splits if_splits sum.splits)

section \<open>Creating a provider\<close>

definition provider_knownFormat :: "Config \<Rightarrow> AccessTokenFormat \<Rightarrow> bool" where
  "provider_knownFormat cfg f \<longleftrightarrow>
     (if f = AccessTokenFormatOpaque \<or> f = AccessTokenFormatJWT then True
      else map_has (cfAccessTokenFormats cfg) f)"

definition setDefault :: "duration \<Rightarrow> duration \<Rightarrow> duration" where
  "setDefault d v = (if d \<le> 0 then v else d)"

definition builtin_grant :: "GrantType \<Rightarrow> bool" where
  "builtin_grant gt \<longleftrightarrow>
     gt = GrantTypeAuthorizationCode \<or> gt = GrantTypeRefreshToken \<or> gt = GrantTypeClientCredentials"

definition check_scope_claims :: "string \<times> string list \<Rightarrow> goerr option" where
  "check_scope_claims sc =
     (if fst sc = ''openid'' \<or> fst sc = ''offline_access''
      then Some (ENew ''Config.ScopeClaims cannot redefine the scope'') else None)"

definition check_grant :: "GrantType \<times> GrantFunc option \<Rightarrow> goerr option" where
  "check_grant g =
     (if fst g = [] then Some (ENew ''Config.Grants has an empty grant type'')
      else if fst g = GrantTypeAuthorizationCode \<or> fst g = GrantTypeRefreshToken
              \<or> fst g = GrantTypeClientCredentials
      then Some (ENew ''Config.Grants cannot redefine the grant type'')
      else if snd g = None then Some (ENew ''Config.Grants has no function'') else None)"

definition check_format :: "AccessTokenFormat \<times> AccessTokenEncoder option \<Rightarrow> goerr option" where
  "check_format f =
     (if fst f = [] then Some (ENew ''Config.AccessTokenFormats has an empty format name'')
      else if fst f = AccessTokenFormatOpaque \<or> fst f = AccessTokenFormatJWT
      then Some (ENew ''Config.AccessTokenFormats cannot redefine the format'')
      else if snd f = None then Some (ENew ''Config.AccessTokenFormats has no encoder'') else None)"

definition defaultLifetimes :: "Lifetimes \<Rightarrow> Lifetimes" where
  "defaultLifetimes l =
     \<lparr>ltAuthorizationRequest = setDefault (ltAuthorizationRequest l) (15 * minute),
      ltAuthorizationCode = setDefault (ltAuthorizationCode l) minute,
      ltAccessToken = setDefault (ltAccessToken l) hour,
      ltRefreshToken = setDefault (ltRefreshToken l) (30 * 24 * hour),
      ltIDToken = setDefault (ltIDToken l) hour,
      ltPushedAuthorizationRequest = setDefault (ltPushedAuthorizationRequest l) minute\<rparr>"

definition defaultErrorPage :: ErrorPageFunc where
  "defaultErrorPage w r err =
     (let w = header_Set ''Content-Type'' ''text/plain; charset=utf-8'' w;
          w = header_Set ''Cache-Control'' ''no-store'' w;
          w = header_Set ''X-Content-Type-Options'' ''nosniff'' w;
          w = WriteHeader (perror_HTTPStatus err) w;
          w = writer_Write (BodyText (eCode err @ [CHR 0x0A])) w
      in if eDescription err \<noteq> []
         then writer_Write (BodyText (sanitizeDescription (eDescription err) @ [CHR 0x0A])) w
         else w)"

text \<open>\<^verbatim>\<open>New\<close> after the checks of nil fields: defaults, then the remaining checks.\<close>

definition New_defaults :: "Config \<Rightarrow> Config" where
  "New_defaults cfg =
     cfg\<lparr>cfAccessTokenFormat := (if cfAccessTokenFormat cfg = [] then AccessTokenFormatOpaque
                                 else cfAccessTokenFormat cfg),
         cfEndpoints := Endpoints_setDefaults (cfEndpoints cfg),
         cfLifetimes := defaultLifetimes (cfLifetimes cfg),
         cfErrorPage := (case cfErrorPage cfg of None \<Rightarrow> Some defaultErrorPage | Some f \<Rightarrow> Some f)\<rparr>"

definition New_checks :: "Config \<Rightarrow> goerr option" where
  "New_checks cfg =
     (case Endpoints_validate (cfPAR cfg \<noteq> PARDisabled) (cfEndpoints cfg) of
        Some e \<Rightarrow> Some (EWrap ''grantor'' [e])
      | None \<Rightarrow>
          if cfPAR cfg \<noteq> PARDisabled \<and> cfPAR cfg \<noteq> PARAllowed \<and> cfPAR cfg \<noteq> PARRequired
          then Some (ENew ''unknown Config.PAR'')
          else if \<not> list_all validLifetime
                    [ltAccessToken (cfLifetimes cfg), ltRefreshToken (cfLifetimes cfg),
                     ltIDToken (cfLifetimes cfg), ltPushedAuthorizationRequest (cfLifetimes cfg)]
          then Some (ENew ''Config.Lifetimes must be at least a second'')
          else if \<not> provider_knownFormat cfg (cfAccessTokenFormat cfg)
          then Some (ENew ''unknown Config.AccessTokenFormat'')
          else None)"

definition provider_New :: "jose \<Rightarrow> Config \<Rightarrow> goerr + Provider" where
  "provider_New J cfg =
     (if (cfIssuer cfg = None) = (cfIssuerFor cfg = None)
      then Inl (ENew ''exactly one of Config.Issuer and Config.IssuerFor must be set'')
      else if \<not> cfClientsSet cfg then Inl (ENew ''Config.Clients is required'')
      else if \<not> cfStorageSet cfg then Inl (ENew ''Config.Storage is required'')
      else case first_error check_scope_claims (cfScopeClaims cfg) of Some e \<Rightarrow> Inl e | None \<Rightarrow>
      case first_error check_grant (cfGrants cfg) of Some e \<Rightarrow> Inl e | None \<Rightarrow>
      case first_error check_format (cfAccessTokenFormats cfg) of Some e \<Rightarrow> Inl e | None \<Rightarrow>
      (let cfg = New_defaults cfg in
       case New_checks cfg of
         Some e \<Rightarrow> Inl e
       | None \<Rightarrow>
           (case cfIssuer cfg of
              None \<Rightarrow> Inr \<lparr>pvCfg = cfg, pvStatic = None, pvJose = J\<rparr>
            | Some i \<Rightarrow>
                (case resolveIssuer i of
                   Inl e \<Rightarrow> Inl (EWrap ''grantor'' [e])
                 | Inr iss \<Rightarrow> Inr \<lparr>pvCfg = cfg, pvStatic = Some iss, pvJose = J\<rparr>))))"

text \<open>What holds of the configuration of every provider \<^verbatim>\<open>New\<close> returns.\<close>

definition config_ok :: "Config \<Rightarrow> bool" where
  "config_ok cfg \<longleftrightarrow>
     distinct (Endpoints_paths (cfEndpoints cfg) (cfPAR cfg \<noteq> PARDisabled)) \<and>
     (\<forall>path \<in> set (Endpoints_paths (cfEndpoints cfg) (cfPAR cfg \<noteq> PARDisabled)). path_ok path) \<and>
     (cfPAR cfg = PARDisabled \<or> cfPAR cfg = PARAllowed \<or> cfPAR cfg = PARRequired) \<and>
     0 < ltAuthorizationRequest (cfLifetimes cfg) \<and> 0 < ltAuthorizationCode (cfLifetimes cfg) \<and>
     second \<le> ltAccessToken (cfLifetimes cfg) \<and> second \<le> ltRefreshToken (cfLifetimes cfg) \<and>
     second \<le> ltIDToken (cfLifetimes cfg) \<and>
     second \<le> ltPushedAuthorizationRequest (cfLifetimes cfg) \<and>
     cfAccessTokenFormat cfg \<noteq> [] \<and> provider_knownFormat cfg (cfAccessTokenFormat cfg) \<and>
     cfErrorPage cfg \<noteq> None \<and>
     (\<forall>(scope, _) \<in> set (cfScopeClaims cfg). scope \<noteq> ''openid'' \<and> scope \<noteq> ''offline_access'') \<and>
     (\<forall>(gt, f) \<in> set (cfGrants cfg).
        gt \<noteq> [] \<and> \<not> builtin_grant gt \<and> f \<noteq> None) \<and>
     (\<forall>(name, enc) \<in> set (cfAccessTokenFormats cfg).
        name \<noteq> [] \<and> name \<noteq> AccessTokenFormatOpaque \<and> name \<noteq> AccessTokenFormatJWT \<and> enc \<noteq> None)"

definition provider_ok :: "Provider \<Rightarrow> bool" where
  "provider_ok p \<longleftrightarrow>
     config_ok (pvCfg p) \<and> (\<forall>iss. pvStatic p = Some iss \<longrightarrow> issuer_ok iss) \<and>
     (pvStatic p = None \<longrightarrow> cfIssuerFor (pvCfg p) \<noteq> None)"

lemma setDefault_pos: "0 < v \<Longrightarrow> 0 < setDefault d v"
  by (simp add: setDefault_def)

lemma New_checks_None:
  "New_checks cfg = None \<longleftrightarrow>
     Endpoints_validate (cfPAR cfg \<noteq> PARDisabled) (cfEndpoints cfg) = None \<and>
     (cfPAR cfg = PARDisabled \<or> cfPAR cfg = PARAllowed \<or> cfPAR cfg = PARRequired) \<and>
     list_all validLifetime
       [ltAccessToken (cfLifetimes cfg), ltRefreshToken (cfLifetimes cfg),
        ltIDToken (cfLifetimes cfg), ltPushedAuthorizationRequest (cfLifetimes cfg)] \<and>
     provider_knownFormat cfg (cfAccessTokenFormat cfg)"
  unfolding New_checks_def by (simp split: option.split)

lemma New_defaults_sel [simp]:
  "cfPAR (New_defaults cfg) = cfPAR cfg" "cfScopeClaims (New_defaults cfg) = cfScopeClaims cfg"
  "cfGrants (New_defaults cfg) = cfGrants cfg"
  "cfAccessTokenFormats (New_defaults cfg) = cfAccessTokenFormats cfg"
  "cfIssuer (New_defaults cfg) = cfIssuer cfg"
  "cfIssuerFor (New_defaults cfg) = cfIssuerFor cfg"
  "cfLifetimes (New_defaults cfg) = defaultLifetimes (cfLifetimes cfg)"
  "cfErrorPage (New_defaults cfg) \<noteq> None"
  "cfAccessTokenFormat (New_defaults cfg) \<noteq> []"
  by (simp_all add: New_defaults_def split: option.split)

lemma checks_None:
  "check_scope_claims sc = None \<longleftrightarrow> fst sc \<noteq> ''openid'' \<and> fst sc \<noteq> ''offline_access''"
  "check_grant g = None \<longleftrightarrow> fst g \<noteq> [] \<and> \<not> builtin_grant (fst g) \<and> snd g \<noteq> None"
  "check_format f = None \<longleftrightarrow> fst f \<noteq> [] \<and> fst f \<noteq> AccessTokenFormatOpaque \<and>
     fst f \<noteq> AccessTokenFormatJWT \<and> snd f \<noteq> None"
  by (simp_all add: check_scope_claims_def check_grant_def check_format_def builtin_grant_def)

lemma New_config_ok:
  assumes "New_checks (New_defaults cfg) = None"
    and "first_error check_scope_claims (cfScopeClaims cfg) = None"
    and "first_error check_grant (cfGrants cfg) = None"
    and "first_error check_format (cfAccessTokenFormats cfg) = None"
  shows "config_ok (New_defaults cfg)"
proof -
  note nc = assms(1) [unfolded New_checks_None]
  have "0 < ltAuthorizationRequest (defaultLifetimes l) \<and> 0 < ltAuthorizationCode (defaultLifetimes l)"
    for l by (simp add: defaultLifetimes_def setDefault_pos minute_def)
  moreover have "Endpoints_validate (cfPAR (New_defaults cfg) \<noteq> PARDisabled)
      (cfEndpoints (New_defaults cfg)) = None" using nc by blast
  note ep = Endpoints_validate_None [OF this]
  ultimately show ?thesis
    unfolding config_ok_def
    using nc ep assms(2-4)
    by (simp add: first_error_None checks_None validLifetime_def case_prod_beta)
qed

lemma provider_New_ok:
  assumes "provider_New J cfg = Inr p"
  shows "provider_ok p"
proof -
  have cfg: "pvCfg p = New_defaults cfg" "New_checks (New_defaults cfg) = None"
      "first_error check_scope_claims (cfScopeClaims cfg) = None"
      "first_error check_grant (cfGrants cfg) = None"
      "first_error check_format (cfAccessTokenFormats cfg) = None"
      "(cfIssuer cfg = None) \<noteq> (cfIssuerFor cfg = None)"
    using assms
    by (simp_all add: provider_New_def Let_def split: if_splits option.split_asm sum.split_asm)
      (auto simp: New_defaults_def)
  have "case cfIssuer cfg of None \<Rightarrow> pvStatic p = None
      | Some i \<Rightarrow> \<exists>iss. resolveIssuer i = Inr iss \<and> pvStatic p = Some iss"
    using assms
    by (simp add: provider_New_def Let_def split: if_splits option.split_asm sum.split_asm)
      (auto simp: New_defaults_def split: option.splits)
  then show ?thesis
    using cfg(6) New_config_ok [OF cfg(2-5)] resolveIssuer_ok
    by (auto simp: provider_ok_def cfg(1) split: option.splits)
qed

section \<open>Clients\<close>

definition check_client :: "Config \<Rightarrow> string \<Rightarrow> Client \<Rightarrow> goerr option" where
  "check_client cfg i c =
     (if cID c \<noteq> i then Some (ENew ''client store returned another client'')
      else case client_validate c of Some e \<Rightarrow> Some e | None \<Rightarrow>
      if cRequirePAR c \<and> cfPAR cfg = PARDisabled
      then Some (ENew ''client requires pushed authorization requests, which Config.PAR does not enable'')
      else if cAccessTokenFormat c \<noteq> [] \<and> \<not> provider_knownFormat cfg (cAccessTokenFormat c)
      then Some (ENew ''client has an unknown access token format'')
      else first_error
             (\<lambda>gt. if builtin_grant gt then None
                   else if map_has (cfGrants cfg) gt then None
                   else Some (ENew ''client has a grant type which is not built in or in Config.Grants''))
             (client_grantTypes c))"

definition provider_client :: "Provider \<Rightarrow> resolvedIssuer \<Rightarrow> string \<Rightarrow> (goerr + Client) prog" where
  "provider_client p iss i =
     bind (clients_Client (rsURL iss) i) (\<lambda>r. Ret
       (case r of
          Inl err \<Rightarrow> if errors_Is err ErrNotFound then Inl ErrNotFound
                     else Inl (EWrap ''look up client'' [err])
        | Inr None \<Rightarrow> Inl (ENew ''client store returned no client and no error'')
        | Inr (Some c) \<Rightarrow>
            (case check_client (pvCfg p) i c of Some e \<Rightarrow> Inl e | None \<Rightarrow> Inr c)))"

definition client_ok :: "Config \<Rightarrow> Client \<Rightarrow> bool" where
  "client_ok cfg c \<longleftrightarrow>
     client_validate c = None \<and>
     (cRequirePAR c \<longrightarrow> cfPAR cfg \<noteq> PARDisabled) \<and>
     (cAccessTokenFormat c = [] \<or> provider_knownFormat cfg (cAccessTokenFormat c)) \<and>
     (\<forall>gt \<in> set (client_grantTypes c). builtin_grant gt \<or> map_has (cfGrants cfg) gt)"

lemma check_client_None: "check_client cfg i c = None \<longleftrightarrow> cID c = i \<and> client_ok cfg c"
  by (auto simp: check_client_def client_ok_def first_error_None split: option.splits if_splits)

definition client_answer :: "Provider \<Rightarrow> string \<Rightarrow> goerr + Client option \<Rightarrow> goerr + Client" where
  "client_answer p i r =
     (case r of
        Inl err \<Rightarrow> if errors_Is err ErrNotFound then Inl ErrNotFound
                   else Inl (EWrap ''look up client'' [err])
      | Inr None \<Rightarrow> Inl (ENew ''client store returned no client and no error'')
      | Inr (Some c) \<Rightarrow>
          (case check_client (pvCfg p) i c of Some e \<Rightarrow> Inl e | None \<Rightarrow> Inr c))"

lemma provider_client_performs:
  "performs (provider_client p iss i) log res \<longleftrightarrow>
     (\<exists>r. log = [EvClient (rsURL iss) i r] \<and> res = client_answer p i r)"
  by (auto simp: provider_client_def client_answer_def op_defs)

lemma client_answer_Inr:
  "client_answer p i r = Inr c \<longleftrightarrow> r = Inr (Some c) \<and> cID c = i \<and> client_ok (pvCfg p) c"
proof (cases r)
  case (Inr co)
  show ?thesis
  proof (cases co)
    case (Some d)
    show ?thesis
      using check_client_None [of "pvCfg p" i d]
      by (cases "check_client (pvCfg p) i d") (auto simp: client_answer_def Inr Some)
  qed (simp add: client_answer_def Inr)
qed (simp add: client_answer_def)

section \<open>End-user claims\<close>

definition provider_scopeClaims :: "Config \<Rightarrow> string \<Rightarrow> string list" where
  "provider_scopeClaims cfg scope =
     (case map_of (cfScopeClaims cfg) scope of
        Some c \<Rightarrow> c
      | None \<Rightarrow> map_get [] standardScopeClaims scope)"

definition provider_supportedClaims :: "Config \<Rightarrow> string list" where
  "provider_supportedClaims cfg =
     sort (remdups
       ([''sub'', ''iss'', ''aud'', ''exp'', ''iat'', ''auth_time'', ''nonce'', ''acr'', ''amr'',
         ''at_hash''] @ concat (map snd standardScopeClaims) @ concat (map snd (cfScopeClaims cfg))))"

definition provider_supportedScopes :: "Config \<Rightarrow> string list" where
  "provider_supportedScopes cfg =
     sort (remdups ([''openid'', ''offline_access''] @ map fst standardScopeClaims
                    @ map fst (cfScopeClaims cfg)))"

text \<open>The names \<^verbatim>\<open>allowedClaims\<close> maps to true.\<close>

definition provider_allowedClaims ::
  "Config \<Rightarrow> Token \<Rightarrow> claim_map \<Rightarrow> bool \<Rightarrow> string list" where
  "provider_allowedClaims cfg grant requested includeScopes =
     (if includeScopes then concat (map (provider_scopeClaims cfg) (tScopes grant)) else [])
     @ map fst requested"

definition client_claim_names :: "Config \<Rightarrow> Client \<Rightarrow> string list" where
  "client_claim_names cfg c =
     [''sub'', ''acr'', ''auth_time''] @ concat (map (provider_scopeClaims cfg) (cScopes c))"

definition provider_claimsForClient ::
  "Config \<Rightarrow> Client \<Rightarrow> ClaimsRequest option \<Rightarrow> ClaimsRequest option" where
  "provider_claimsForClient cfg client c =
     ClaimsRequest_filter (\<lambda>name. name \<in> set (client_claim_names cfg client)) c"

definition provider_endUserClaims ::
  "Config \<Rightarrow> Token \<Rightarrow> string list \<Rightarrow> goerr + json_map" where
  "provider_endUserClaims cfg grant allowed =
     (case cfClaims cfg of
        None \<Rightarrow> Inr []
      | Some f \<Rightarrow>
          if allowed = [] then Inr []
          else (case f grant of
                  Inl err \<Rightarrow> Inl (EWrap ''claims func'' [err])
                | Inr all \<Rightarrow>
                    Inr (filter (\<lambda>(name, v). name \<in> set allowed \<and> name \<notin> set protocolClaims
                                             \<and> v \<noteq> JNull) all)))"

lemma endUserClaims_names:
  "provider_endUserClaims cfg grant allowed = Inr m \<Longrightarrow> n \<in> fst ` set m \<Longrightarrow>
     n \<in> set allowed \<and> n \<notin> set protocolClaims"
  by (auto simp: provider_endUserClaims_def split: option.splits if_splits sum.splits)

section \<open>Requests for unknown issuers\<close>

definition provider_errorPage :: "Provider \<Rightarrow> ErrorPageFunc" where
  "provider_errorPage p =
     (case cfErrorPage (pvCfg p) of None \<Rightarrow> defaultErrorPage | Some f \<Rightarrow> f)"

definition withIssuer ::
  "Provider \<Rightarrow> ResponseWriter \<Rightarrow> Request \<Rightarrow> bool \<Rightarrow>
     (ResponseWriter \<Rightarrow> Request \<Rightarrow> resolvedIssuer \<Rightarrow> ResponseWriter prog) \<Rightarrow> ResponseWriter prog" where
  "withIssuer p w r jsonErrors fn =
     (case provider_issuerFor p r of
        Inr iss \<Rightarrow> fn w r iss
      | Inl err \<Rightarrow>
          (let perr = issuerError err in
           if jsonErrors then
             Ret (writeJSON (perror_HTTPStatus perr)
                   (JObject [(''error'', JString (eCode perr)),
                             (''error_description'', JString (eDescription perr))]) (noStore w))
           else if eCode perr = CodeServerError then Ret (provider_errorPage p w r perr)
           else Ret (http_NotFound w)))"

lemma provider_issuerFor_ok:
  "provider_ok p \<Longrightarrow> provider_issuerFor p r = Inr iss \<Longrightarrow> issuer_ok iss"
  by (auto simp: provider_issuerFor_def provider_ok_def resolveIssuer_ok
      split: option.splits sum.splits)

end
