(* ===== verification/Grantor_ClientAuth.thy ===== *)
theory Grantor_ClientAuth
  imports Grantor_Provider
begin

text \<open>
  clientauth.go: authentication of clients at the token, introspection, revocation and pushed
  authorization request endpoints, with a secret, with a private_key_jwt assertion, or not at all
  for public clients. Parsing and verifying assertions is go-jose's.
\<close>

abbreviation (input) "clientAssertionTypeJWT \<equiv>
  ''urn:ietf:params:oauth:client-assertion-type:jwt-bearer''"

definition assertionLeeway :: duration where "assertionLeeway = 30 * second"
definition maxAssertionLifetime :: duration where "maxAssertionLifetime = hour"

definition assertionAlgorithms :: "alg list" where
  "assertionAlgorithms =
     [''RS256'', ''RS384'', ''RS512'', ''PS256'', ''PS384'', ''PS512'', ''ES256'', ''ES384'',
      ''ES512'', ''EdDSA'']"

section \<open>The key an assertion is remembered under\<close>

definition append_uint64 :: "nat \<Rightarrow> bytes" where
  "append_uint64 n = map (\<lambda>i. char_of (n div 256 ^ i)) [7, 6, 5, 4, 3, 2, 1, 0]"

definition length_prefixed :: "string \<Rightarrow> bytes" where
  "length_prefixed part = append_uint64 (length part) @ part"

definition assertionKey :: "string \<Rightarrow> string \<Rightarrow> string \<Rightarrow> string" where
  "assertionKey issuer clientID jti =
     ''client-assertion:'' @
     b64_EncodeToString (sha256_Sum256 (concat (map length_prefixed [issuer, clientID, jti])))"

section \<open>Client authentication\<close>

definition lookupAuthenticatingClient ::
  "Provider \<Rightarrow> resolvedIssuer \<Rightarrow> string \<Rightarrow> (perror + Client) prog" where
  "lookupAuthenticatingClient p iss i =
     (if i = [] then Ret (Inl (errInvalidClient ''client authentication failed''))
      else bind (provider_client p iss i) (\<lambda>r. Ret
        (case r of
           Inl err \<Rightarrow>
             if errors_Is err ErrNotFound
             then Inl (errInvalidClient ''client authentication failed'')
             else Inl (errServer err)
         | Inr client \<Rightarrow> Inr client)))"

definition authenticateWithSecret ::
  "Provider \<Rightarrow> resolvedIssuer \<Rightarrow> string \<Rightarrow> string \<Rightarrow> (perror + Client) prog" where
  "authenticateWithSecret p iss i secret =
     bindE (lookupAuthenticatingClient p iss i) (\<lambda>client. Ret
       (if \<not> client_usesSecret client \<or> \<not> client_verifySecret client secret
        then Inl (errInvalidClient ''client authentication failed'')
        else Inr client))"

definition assertion_key_usable :: "jwt_header \<Rightarrow> json_web_key \<Rightarrow> bool" where
  "assertion_key_usable header k \<longleftrightarrow>
     jwkIsPublic k \<and> (jwkUse k = [] \<or> jwkUse k = ''sig'') \<and>
     (jhKeyID header = [] \<or> jwkKeyID k = jhKeyID header) \<and>
     (jwkAlgorithm k = [] \<or> jwkAlgorithm k = jhAlgorithm header)"

text \<open>The claims verified with the first usable key that verifies the signature.\<close>

fun verify_with_keys ::
  "parsed_jwt \<Rightarrow> jwt_header \<Rightarrow> json_web_key list \<Rightarrow> jwt_claims option" where
  "verify_with_keys tok header [] = None"
| "verify_with_keys tok header (k # ks) =
     (if \<not> assertion_key_usable header k then verify_with_keys tok header ks
      else (case jtClaims tok (jwkKey k) of
              Some claims \<Rightarrow> Some claims
            | None \<Rightarrow> verify_with_keys tok header ks))"

definition check_assertion_claims ::
  "Provider \<Rightarrow> resolvedIssuer \<Rightarrow> Client \<Rightarrow> jwt_claims \<Rightarrow> time \<Rightarrow> perror + time" where
  "check_assertion_claims p iss client claims now =
     (case jcExpiry claims of
        None \<Rightarrow> Inl (errInvalidClient ''client_assertion must contain exp and jti'')
      | Some exp \<Rightarrow>
          if jcID claims = [] then Inl (errInvalidClient ''client_assertion must contain exp and jti'')
          else if length (jcAudience claims) \<noteq> 1
          then Inl (errInvalidClient ''client_assertion must have exactly one audience'')
          else if \<not> jzValidateWithLeeway (pvJose p) claims
                     \<lparr>jeIssuer = cID client, jeSubject = cID client,
                      jeAnyAudience = [rsURL iss], jeTime = now\<rparr> assertionLeeway
          then Inl (errInvalidClient ''client_assertion is invalid or expired'')
          else if time_After exp (time_Add now maxAssertionLifetime)
          then Inl (errInvalidClient ''client_assertion expires too far in the future'')
          else Inr exp)"

text \<open>The end of \<^verbatim>\<open>verifyClientAssertion\<close>: the claims are checked and the \<^verbatim>\<open>jti\<close> is claimed.\<close>

definition claim_assertion ::
  "Provider \<Rightarrow> resolvedIssuer \<Rightarrow> Client \<Rightarrow> jwt_claims \<Rightarrow> (perror + Client) prog" where
  "claim_assertion p iss client claims =
     bind provider_now (\<lambda>now.
       case check_assertion_claims p iss client claims now of
         Inl e \<Rightarrow> Ret (Inl e)
       | Inr exp \<Rightarrow>
           bind (storage_ClaimOnce (assertionKey (rsURL iss) (cID client) (jcID claims))
                  (time_Add exp assertionLeeway)) (\<lambda>err. Ret
             (case err of
                None \<Rightarrow> Inr client
              | Some err \<Rightarrow>
                  if errors_Is err ErrConflict
                  then Inl (errInvalidClient ''client_assertion was already used'')
                  else Inl (errServer err))))"

text \<open>The middle: the signature is verified with a key of the client that \<^verbatim>\<open>sub\<close> names.\<close>

definition check_assertion ::
  "Provider \<Rightarrow> resolvedIssuer \<Rightarrow> parsed_jwt \<Rightarrow> Client \<Rightarrow> (perror + Client) prog" where
  "check_assertion p iss tok client =
     (if client_authMethod client \<noteq> AuthMethodPrivateKeyJWT
      then Ret (Inl (errInvalidClient ''client authentication failed''))
      else case jzParseJWKS (pvJose p) (cJWKS client) of
        None \<Rightarrow> Ret (Inl (errServer (ENew ''client has an invalid JWKS'')))
      | Some keys \<Rightarrow>
      case verify_with_keys tok (hd (jtHeaders tok)) keys of
        None \<Rightarrow> Ret (Inl (errInvalidClient ''client authentication failed''))
      | Some claims \<Rightarrow> claim_assertion p iss client claims)"

definition verifyClientAssertion ::
  "Provider \<Rightarrow> resolvedIssuer \<Rightarrow> string \<Rightarrow> (perror + Client) prog" where
  "verifyClientAssertion p iss assertion =
     (if assertion = [] then Ret (Inl (errInvalidClient ''client_assertion is required''))
      else case jzParseSigned (pvJose p) assertion assertionAlgorithms of
        None \<Rightarrow> Ret (Inl (errInvalidClient ''client_assertion is malformed''))
      | Some tok \<Rightarrow>
      if length (jtHeaders tok) \<noteq> 1
      then Ret (Inl (errInvalidClient ''client_assertion is malformed''))
      else case jtUnverified tok of
        None \<Rightarrow> Ret (Inl (errInvalidClient ''client_assertion is malformed''))
      | Some unverified \<Rightarrow>
      bindE (lookupAuthenticatingClient p iss (jcSubject unverified)) (check_assertion p iss tok))"

definition hasAssertion :: "params \<Rightarrow> bool" where
  "hasAssertion q \<longleftrightarrow> params_has q ''client_assertion'' \<or> params_has q ''client_assertion_type''"

definition auth_methods_used :: "Request \<Rightarrow> params \<Rightarrow> nat" where
  "auth_methods_used r q =
     length (filter id [rBasicAuth r \<noteq> None, params_has q ''client_secret'', hasAssertion q])"

definition authenticateClient ::
  "Provider \<Rightarrow> Request \<Rightarrow> resolvedIssuer \<Rightarrow> params \<Rightarrow> (perror + Client) prog" where
  "authenticateClient p r iss q =
     (if 1 < auth_methods_used r q
      then Ret (Inl (errInvalidRequest ''only one client authentication method may be used''))
      else case rBasicAuth r of
        Some (basicID, basicSecret) \<Rightarrow>
          (case (url_QueryUnescape basicID, url_QueryUnescape basicSecret) of
             (Some i, Some secret) \<Rightarrow>
               if params_get q ''client_id'' \<noteq> [] \<and> params_get q ''client_id'' \<noteq> i
               then Ret (Inl (errInvalidRequest ''client_id does not match the Authorization header''))
               else authenticateWithSecret p iss i secret
           | _ \<Rightarrow> Ret (Inl (errInvalidClient ''malformed client credentials'')))
      | None \<Rightarrow>
          if params_has q ''client_secret'' then
            authenticateWithSecret p iss (params_get q ''client_id'') (params_get q ''client_secret'')
          else if hasAssertion q then
            (if params_get q ''client_assertion_type'' \<noteq> clientAssertionTypeJWT
             then Ret (Inl (errInvalidClient ''unsupported client_assertion_type''))
             else bindE (verifyClientAssertion p iss (params_get q ''client_assertion'')) (\<lambda>client. Ret
               (if params_get q ''client_id'' \<noteq> [] \<and> params_get q ''client_id'' \<noteq> cID client
                then Inl (errInvalidRequest ''client_id does not match the client assertion'')
                else Inr client)))
          else
            bindE (lookupAuthenticatingClient p iss (params_get q ''client_id'')) (\<lambda>client. Ret
              (if client_authMethod client \<noteq> AuthMethodNone
               then Inl (errInvalidClient ''client authentication failed'')
               else Inr client)))"

section \<open>What authentication establishes\<close>

text \<open>The client was looked up in the store of the issuer and is valid.\<close>

definition looked_up :: "Provider \<Rightarrow> resolvedIssuer \<Rightarrow> event list \<Rightarrow> Client \<Rightarrow> bool" where
  "looked_up p iss log c \<longleftrightarrow>
     EvClient (rsURL iss) (cID c) (Inr (Some c)) \<in> set log \<and> client_ok (pvCfg p) c"

definition secret_proved :: "Client \<Rightarrow> string \<Rightarrow> bool" where
  "secret_proved c secret \<longleftrightarrow>
     client_usesSecret c \<and> cSecretHash c = sha256_Sum256 secret"

text \<open>An assertion proves the client: signed with a key of its JWKS, addressed to this issuer
  alone, not expired too far in the future, and claimed for the first time.\<close>

definition assertion_proved ::
  "Provider \<Rightarrow> resolvedIssuer \<Rightarrow> event list \<Rightarrow> Client \<Rightarrow> string \<Rightarrow> bool" where
  "assertion_proved p iss log c assertion \<longleftrightarrow>
     client_authMethod c = AuthMethodPrivateKeyJWT \<and>
     (\<exists>tok header keys k claims now exp.
        jzParseSigned (pvJose p) assertion assertionAlgorithms = Some tok \<and> jtHeaders tok = [header] \<and>
        jzParseJWKS (pvJose p) (cJWKS c) = Some keys \<and> k \<in> set keys \<and>
        assertion_key_usable header k \<and> jtClaims tok (jwkKey k) = Some claims \<and>
        EvNow now \<in> set log \<and> check_assertion_claims p iss c claims now = Inr exp \<and>
        EvClaimOnce (assertionKey (rsURL iss) (cID c) (jcID claims)) (exp + assertionLeeway) None
          \<in> set log)"

definition authenticated_as ::
  "Provider \<Rightarrow> Request \<Rightarrow> resolvedIssuer \<Rightarrow> params \<Rightarrow> event list \<Rightarrow> Client \<Rightarrow> bool" where
  "authenticated_as p r iss q log c \<longleftrightarrow>
     looked_up p iss log c \<and>
     (params_get q ''client_id'' = [] \<or> params_get q ''client_id'' = cID c) \<and>
     (case rBasicAuth r of
        Some (basicID, basicSecret) \<Rightarrow>
          url_QueryUnescape basicID = Some (cID c) \<and>
          (\<exists>secret. url_QueryUnescape basicSecret = Some secret \<and> secret_proved c secret)
      | None \<Rightarrow>
          if params_has q ''client_secret'' then secret_proved c (params_get q ''client_secret'')
          else if hasAssertion q then assertion_proved p iss log c (params_get q ''client_assertion'')
          else client_isPublic c)"

lemma verify_with_keys_Some:
  "verify_with_keys tok header keys = Some claims \<Longrightarrow>
     \<exists>k \<in> set keys. assertion_key_usable header k \<and> jtClaims tok (jwkKey k) = Some claims"
  by (induction tok header keys rule: verify_with_keys.induct) (auto split: if_splits option.splits)

lemma verifySecret_iff:
  "client_verifySecret c secret \<longleftrightarrow> cSecretHash c = sha256_Sum256 secret"
  by (auto simp: client_verifySecret_def HashClientSecret_def length_sha256)

lemma lookupAuthenticatingClient_Inr:
  assumes "performs (lookupAuthenticatingClient p iss i) log (Inr c)"
  shows "log = [EvClient (rsURL iss) i (Inr (Some c))] \<and> i \<noteq> [] \<and> cID c = i \<and> client_ok (pvCfg p) c"
proof (cases "i = []")
  case False
  with assms obtain r where log: "log = [EvClient (rsURL iss) i r]"
      and "(case client_answer p i r of Inl err \<Rightarrow> if errors_Is err ErrNotFound
             then Inl (errInvalidClient ''client authentication failed'') else Inl (errServer err)
           | Inr client \<Rightarrow> Inr client) = Inr c"
    by (auto simp: lookupAuthenticatingClient_def performs_bind provider_client_performs)
  then have "client_answer p i r = Inr c"
    by (cases "client_answer p i r") (auto split: if_splits)
  with False log show ?thesis by (simp add: client_answer_Inr)
qed (use assms in \<open>simp add: lookupAuthenticatingClient_def\<close>)

lemma authenticateWithSecret_Inr:
  assumes "performs (authenticateWithSecret p iss i secret) log (Inr c)"
  shows "looked_up p iss log c \<and> cID c = i \<and> secret_proved c secret"
proof -
  from assms have "performs (lookupAuthenticatingClient p iss i) log (Inr c)"
      "client_usesSecret c" "client_verifySecret c secret"
    by (auto simp: authenticateWithSecret_def performs_bindE_Inr split: if_split_asm)
  then show ?thesis
    using lookupAuthenticatingClient_Inr
    by (fastforce simp: looked_up_def secret_proved_def verifySecret_iff)
qed

lemma claim_assertion_Inr:
  assumes "performs (claim_assertion p iss c claims) log (Inr d)"
  obtains now exp where "d = c" and "check_assertion_claims p iss c claims now = Inr exp"
    and "log = [EvNow now, EvClaimOnce (assertionKey (rsURL iss) (cID c) (jcID claims))
                             (exp + assertionLeeway) None]"
  using assms
  by (auto simp: claim_assertion_def performs_bind op_defs time_Add_def performs_cases result_cases
      simp del: performs_if)

lemma verifyClientAssertion_Inr:
  assumes "performs (verifyClientAssertion p iss assertion) log (Inr c)"
  shows "looked_up p iss log c \<and> assertion_proved p iss log c assertion"
proof -
  from assms obtain tok and unverified :: jwt_claims where
      parse: "jzParseSigned (pvJose p) assertion assertionAlgorithms = Some tok"
        "length (jtHeaders tok) = 1"
      and "performs (bindE (lookupAuthenticatingClient p iss (jcSubject unverified))
             (check_assertion p iss tok)) log (Inr c)"
    by (auto simp: verifyClientAssertion_def performs_cases simp del: performs_if)
  then obtain l m a where log: "log = l @ m"
      and lk: "performs (lookupAuthenticatingClient p iss (jcSubject unverified)) l (Inr a)"
      and "performs (check_assertion p iss tok a) m (Inr c)"
    by (auto simp: performs_bindE_Inr)
  then obtain keys claims where meth: "client_authMethod a = AuthMethodPrivateKeyJWT"
      and keys: "jzParseJWKS (pvJose p) (cJWKS a) = Some keys"
        "verify_with_keys tok (hd (jtHeaders tok)) keys = Some claims"
      and ca: "performs (claim_assertion p iss a claims) m (Inr c)"
    by (auto simp: check_assertion_def performs_cases simp del: performs_if)
  from claim_assertion_Inr [OF ca] obtain now exp where
      c: "a = c" "check_assertion_claims p iss c claims now = Inr exp"
         "m = [EvNow now, EvClaimOnce (assertionKey (rsURL iss) (cID c) (jcID claims))
                 (exp + assertionLeeway) None]" by metis
  from verify_with_keys_Some [OF keys(2)] obtain k where
    k: "k \<in> set keys" "assertion_key_usable (hd (jtHeaders tok)) k"
       "jtClaims tok (jwkKey k) = Some claims" by blast
  have hd: "jtHeaders tok = [hd (jtHeaders tok)]"
    using parse(2) by (cases "jtHeaders tok") auto
  have "looked_up p iss log c"
    using lookupAuthenticatingClient_Inr [OF lk] log c(1) by (auto simp: looked_up_def)
  moreover have "assertion_proved p iss log c assertion"
  proof -
    have "EvNow now \<in> set log" "EvClaimOnce (assertionKey (rsURL iss) (cID c) (jcID claims))
        (exp + assertionLeeway) None \<in> set log" using log c(3) by auto
    with meth parse(1) hd keys(1) k c(1,2) show ?thesis
      unfolding assertion_proved_def by blast
  qed
  ultimately show ?thesis by blast
qed

lemma authenticateClient_Inr:
  assumes "performs (authenticateClient p r iss q) log (Inr c)"
  shows "authenticated_as p r iss q log c"
proof -
  have one: "\<not> 1 < auth_methods_used r q"
    using assms by (auto simp: authenticateClient_def)
  show ?thesis
  proof (cases "rBasicAuth r")
    case (Some ba)
    obtain basicID basicSecret where ba: "ba = (basicID, basicSecret)" by (cases ba)
    from assms one Some ba obtain i secret where
        u: "url_QueryUnescape basicID = Some i" "url_QueryUnescape basicSecret = Some secret"
        and cid: "params_get q ''client_id'' = [] \<or> params_get q ''client_id'' = i"
        and a: "performs (authenticateWithSecret p iss i secret) log (Inr c)"
      by (auto simp: authenticateClient_def split: option.split_asm if_split_asm)
    show ?thesis
      using authenticateWithSecret_Inr [OF a] u cid Some ba by (auto simp: authenticated_as_def)
  next
    case None
    consider (post) "params_has q ''client_secret''"
      | (assertion) "\<not> params_has q ''client_secret''" "hasAssertion q"
      | (unauth) "\<not> params_has q ''client_secret''" "\<not> hasAssertion q" by blast
    then show ?thesis
    proof cases
      case post
      then have "performs (authenticateWithSecret p iss (params_get q ''client_id'')
          (params_get q ''client_secret'')) log (Inr c)"
        using assms one None by (simp add: authenticateClient_def)
      from authenticateWithSecret_Inr [OF this] post None show ?thesis
        by (auto simp: authenticated_as_def)
    next
      case assertion
      then have "performs (verifyClientAssertion p iss (params_get q ''client_assertion'')) log (Inr c)
          \<and> (params_get q ''client_id'' = [] \<or> params_get q ''client_id'' = cID c)"
        using assms one None
        by (auto simp: authenticateClient_def performs_bindE_Inr split: if_split_asm)
      with verifyClientAssertion_Inr assertion None show ?thesis
        by (auto simp: authenticated_as_def)
    next
      case unauth
      then have "performs (lookupAuthenticatingClient p iss (params_get q ''client_id'')) log (Inr c)
          \<and> client_authMethod c = AuthMethodNone"
        using assms one None
        by (auto simp: authenticateClient_def performs_bindE_Inr split: if_split_asm)
      then have "looked_up p iss log c" "cID c = params_get q ''client_id''" "client_isPublic c"
        using lookupAuthenticatingClient_Inr [of p iss "params_get q ''client_id''" log c]
        by (auto simp: looked_up_def client_isPublic_def)
      with unauth None show ?thesis by (simp add: authenticated_as_def)
    qed
  qed
qed

end
