(* ===== verification/Grantor_Pkce.thy ===== *)
theory Grantor_Pkce
  imports Grantor_Params Grantor_Records Grantor_Client
begin

text \<open>
  pkce.go: proof key for code exchange, at the authorization request (\<open>parsePKCE\<close>,
  \<open>checkPKCEPolicy\<close>) and at the token request (\<open>verifyPKCE\<close>). \<open>None\<close> is the nil \<^verbatim>\<open>*Error\<close>.
\<close>

definition unreserved_char :: "char \<Rightarrow> bool" where
  "unreserved_char c \<longleftrightarrow>
     in_range 97 122 c \<or> in_range 65 90 c \<or> in_range 48 57 c \<or>
     c = CHR ''-'' \<or> c = CHR ''.'' \<or> c = CHR ''_'' \<or> c = CHR ''~''"

definition isUnreserved :: "string \<Rightarrow> bool" where
  "isUnreserved s \<longleftrightarrow> list_all unreserved_char s"

definition checkPKCEPolicy :: "Client \<Rightarrow> AuthorizationRequest \<Rightarrow> perror option" where
  "checkPKCEPolicy client req =
     (if client_pkcePolicy client = PKCEOptional then None
      else if client_pkcePolicy client = PKCEUnlessNonce \<and> arIsOpenID req \<and> arNonce req \<noteq> []
      then None
      else Some (errInvalidRequest ''code_challenge is required''))"

text \<open>The request with the challenge set, or the error.\<close>

definition parsePKCE ::
  "Client \<Rightarrow> params \<Rightarrow> AuthorizationRequest \<Rightarrow> perror + AuthorizationRequest" where
  "parsePKCE client q req =
     (let challenge = params_get q ''code_challenge'';
          method = params_get q ''code_challenge_method''
      in if challenge = [] then
           (if method \<noteq> []
            then Inl (errInvalidRequest ''code_challenge_method was sent without code_challenge'')
            else (case checkPKCEPolicy client req of Some e \<Rightarrow> Inl e | None \<Rightarrow> Inr req))
         else if method \<noteq> ''S256'' then Inl (errInvalidRequest ''code_challenge_method must be S256'')
         else if length challenge \<noteq> 43 \<or> \<not> isUnreserved challenge
         then Inl (errInvalidRequest ''code_challenge is malformed'')
         else Inr (req\<lparr>arCodeChallenge := challenge, arCodeChallengeMethod := method\<rparr>))"

definition verifyPKCE :: "Token \<Rightarrow> string \<Rightarrow> perror option" where
  "verifyPKCE code verifier =
     (if tCodeChallenge code = [] then
        (if verifier \<noteq> []
         then Some (errInvalidGrant ''code_verifier was sent but no code_challenge was used'')
         else None)
      else if length verifier < 43 \<or> 128 < length verifier \<or> \<not> isUnreserved verifier
      then Some (errInvalidGrant ''code_verifier is missing or malformed'')
      else if b64_EncodeToString (sha256_Sum256 verifier) \<noteq> tCodeChallenge code
      then Some (errInvalidGrant ''code_verifier does not match code_challenge'')
      else None)"

section \<open>Facts\<close>

definition challenge_ok :: "string \<Rightarrow> string \<Rightarrow> bool" where
  "challenge_ok challenge method \<longleftrightarrow>
     (if challenge = [] then method = []
      else method = ''S256'' \<and> length challenge = 43 \<and> isUnreserved challenge)"

lemma b64_alphabet_unreserved:
  assumes "c \<in> b64_alphabet"
  shows "unreserved_char c"
proof -
  have eq: "byte c = byte (CHR ''-'') \<Longrightarrow> c = CHR ''-''" "byte c = byte (CHR ''_'') \<Longrightarrow> c = CHR ''_''"
    by (simp_all only: byte_inject)
  have n: "byte (CHR ''-'') = 45" "byte (CHR ''_'') = 95" by (simp_all add: byte_def)
  have "b64_value c \<noteq> None" using assms by (simp add: b64_alphabet_def)
  then consider "in_range 65 90 c" | "in_range 97 122 c" | "in_range 48 57 c" | "byte c = 45" | "byte c = 95"
    unfolding b64_value_def Let_def in_range_def by (simp split: if_split_asm)
  then show ?thesis
  proof cases
    case 4
    with eq(1) n(1) have "c = CHR ''-''" by simp
    then show ?thesis unfolding unreserved_char_def by blast
  next
    case 5
    with eq(2) n(2) have "c = CHR ''_''" by simp
    then show ?thesis unfolding unreserved_char_def by blast
  qed (unfold unreserved_char_def, blast+)
qed

lemma isUnreserved_b64: "isUnreserved (b64_EncodeToString s)"
  using b64_encode_alphabet b64_alphabet_unreserved
  by (auto simp: isUnreserved_def list_all_iff)

lemma isUnreserved_randomToken: "isUnreserved (randomToken_of b)"
  by (simp add: randomToken_of_def isUnreserved_b64)

lemma verifyPKCE_None:
  "verifyPKCE code verifier = None \<longleftrightarrow>
     (if tCodeChallenge code = [] then verifier = []
      else 43 \<le> length verifier \<and> length verifier \<le> 128 \<and> isUnreserved verifier \<and>
           tCodeChallenge code = hashToken verifier)"
  by (auto simp: verifyPKCE_def hashToken_def)

lemma checkPKCEPolicy_None:
  "checkPKCEPolicy client req = None \<longleftrightarrow>
     client_pkcePolicy client = PKCEOptional \<or>
     (client_pkcePolicy client = PKCEUnlessNonce \<and> arIsOpenID req \<and> arNonce req \<noteq> [])"
  by (simp add: checkPKCEPolicy_def)

lemma parsePKCE_Inr:
  assumes "parsePKCE client q req = Inr req'" and "arCodeChallenge req = []"
    and "arCodeChallengeMethod req = []"
  shows "challenge_ok (arCodeChallenge req') (arCodeChallengeMethod req')"
    and "arCodeChallenge req' = [] \<Longrightarrow> checkPKCEPolicy client req = None \<and> req' = req"
    and "req' = req\<lparr>arCodeChallenge := arCodeChallenge req',
                     arCodeChallengeMethod := arCodeChallengeMethod req'\<rparr>"
proof -
  have "req' = req \<and> checkPKCEPolicy client req = None \<or>
        (\<exists>c. req' = req\<lparr>arCodeChallenge := c, arCodeChallengeMethod := ''S256''\<rparr> \<and>
             c \<noteq> [] \<and> length c = 43 \<and> isUnreserved c)"
    using assms(1)
    by (simp add: parsePKCE_def Let_def split: if_split_asm option.split_asm) blast
  then show "challenge_ok (arCodeChallenge req') (arCodeChallengeMethod req')"
    and "arCodeChallenge req' = [] \<Longrightarrow> checkPKCEPolicy client req = None \<and> req' = req"
    and "req' = req\<lparr>arCodeChallenge := arCodeChallenge req',
                     arCodeChallengeMethod := arCodeChallengeMethod req'\<rparr>"
    using assms(2,3) by (auto simp: challenge_ok_def)
qed

end
