(* ===== verification/Go_Sha512.thy ===== *)
theory Go_Sha512
  imports Go_Encoding
begin

text \<open>
  SHA-384 and SHA-512 of the Go standard library, which idtoken.go uses for \<^verbatim>\<open>at_hash\<close>.
\<close>

definition sha512_k :: "64 word list" where
  "sha512_k = [
     4794697086780616226, 8158064640168781261, 13096744586834688815, 16840607885511220156,
     4131703408338449720, 6480981068601479193, 10538285296894168987, 12329834152419229976,
     15566598209576043074, 1334009975649890238, 2608012711638119052, 6128411473006802146,
     8268148722764581231, 9286055187155687089, 11230858885718282805, 13951009754708518548,
     16472876342353939154, 17275323862435702243, 1135362057144423861, 2597628984639134821,
     3308224258029322869, 5365058923640841347, 6679025012923562964, 8573033837759648693,
     10970295158949994411, 12119686244451234320, 12683024718118986047, 13788192230050041572,
     14330467153632333762, 15395433587784984357, 489312712824947311, 1452737877330783856,
     2861767655752347644, 3322285676063803686, 5560940570517711597, 5996557281743188959,
     7280758554555802590, 8532644243296465576, 9350256976987008742, 10552545826968843579,
     11727347734174303076, 12113106623233404929, 14000437183269869457, 14369950271660146224,
     15101387698204529176, 15463397548674623760, 17586052441742319658, 1182934255886127544,
     1847814050463011016, 2177327727835720531, 2830643537854262169, 3796741975233480872,
     4115178125766777443, 5681478168544905931, 6601373596472566643, 7507060721942968483,
     8399075790359081724, 8693463985226723168, 9568029438360202098, 10144078919501101548,
     10430055236837252648, 11840083180663258601, 13761210420658862357, 14299343276471374635,
     14566680578165727644, 15097957966210449927, 16922976911328602910, 17689382322260857208,
     500013540394364858, 748580250866718886, 1242879168328830382, 1977374033974150939,
     2944078676154940804, 3659926193048069267, 4368137639120453308, 4836135668995329356,
     5532061633213252278, 6448918945643986474, 6902733635092675308, 7801388544844847127]"

definition rotr64 :: "nat \<Rightarrow> 64 word \<Rightarrow> 64 word" where
  "rotr64 n x = drop_bit n x OR push_bit (64 - n) x"

definition small_sigma0_512 :: "64 word \<Rightarrow> 64 word" where
  "small_sigma0_512 x = rotr64 1 x XOR rotr64 8 x XOR drop_bit 7 x"
definition small_sigma1_512 :: "64 word \<Rightarrow> 64 word" where
  "small_sigma1_512 x = rotr64 19 x XOR rotr64 61 x XOR drop_bit 6 x"
definition big_sigma0_512 :: "64 word \<Rightarrow> 64 word" where
  "big_sigma0_512 x = rotr64 28 x XOR rotr64 34 x XOR rotr64 39 x"
definition big_sigma1_512 :: "64 word \<Rightarrow> 64 word" where
  "big_sigma1_512 x = rotr64 14 x XOR rotr64 18 x XOR rotr64 41 x"

text \<open>The message schedule, newest word first.\<close>

fun sha512_schedule :: "nat \<Rightarrow> 64 word list \<Rightarrow> 64 word list" where
  "sha512_schedule 0 w = rev w"
| "sha512_schedule (Suc n) w =
     sha512_schedule n
       ((small_sigma1_512 (w ! 1) + w ! 6 + small_sigma0_512 (w ! 14) + w ! 15) # w)"

datatype sha512_state =
  Sha512 "64 word" "64 word" "64 word" "64 word" "64 word" "64 word" "64 word" "64 word"

fun sha512_round :: "64 word \<Rightarrow> 64 word \<Rightarrow> sha512_state \<Rightarrow> sha512_state" where
  "sha512_round k w (Sha512 a b c d e f g h) =
     (let t1 = h + big_sigma1_512 e + ((e AND f) XOR (NOT e AND g)) + k + w;
          t2 = big_sigma0_512 a + ((a AND b) XOR (a AND c) XOR (b AND c))
      in Sha512 (t1 + t2) a b c (d + t1) e f g)"

fun sha512_rounds :: "64 word list \<Rightarrow> 64 word list \<Rightarrow> sha512_state \<Rightarrow> sha512_state" where
  "sha512_rounds (k # ks) (w # ws) st = sha512_rounds ks ws (sha512_round k w st)"
| "sha512_rounds _ _ st = st"

fun sha512_add :: "sha512_state \<Rightarrow> sha512_state \<Rightarrow> sha512_state" where
  "sha512_add (Sha512 a b c d e f g h) (Sha512 a' b' c' d' e' f' g' h') =
     Sha512 (a + a') (b + b') (c + c') (d + d') (e + e') (f + f') (g + g') (h + h')"

definition word64_of_bytes :: "bytes \<Rightarrow> 64 word" where
  "word64_of_bytes bs = of_nat (fold (\<lambda>b n. n * 256 + byte b) bs 0)"

function words64_of_bytes :: "bytes \<Rightarrow> 64 word list" where
  "words64_of_bytes s =
     (if s = [] then [] else word64_of_bytes (take 8 s) # words64_of_bytes (drop 8 s))"
  by pat_completeness auto
termination
  by (relation "measure length") simp_all

declare words64_of_bytes.simps [simp del]

definition bytes_of_word64 :: "64 word \<Rightarrow> bytes" where
  "bytes_of_word64 w = map (\<lambda>i. char_of (unat w div 256 ^ i)) [7, 6, 5, 4, 3, 2, 1, 0]"

definition bytes_of_state512 :: "sha512_state \<Rightarrow> bytes" where
  "bytes_of_state512 st =
     (case st of Sha512 a b c d e f g h \<Rightarrow> concat (map bytes_of_word64 [a, b, c, d, e, f, g, h]))"

function sha512_blocks :: "sha512_state \<Rightarrow> 64 word list \<Rightarrow> sha512_state" where
  "sha512_blocks st w =
     (if w = [] then st
      else sha512_blocks
             (sha512_add st (sha512_rounds sha512_k (sha512_schedule 64 (rev (take 16 w))) st))
             (drop 16 w))"
  by pat_completeness auto
termination
  by (relation "measure (\<lambda>(st, w). length w)")
    (simp_all add: length_greater_0_conv [symmetric] del: length_greater_0_conv)

declare sha512_blocks.simps [simp del]

definition sha512_pad :: "bytes \<Rightarrow> bytes" where
  "sha512_pad s =
     s @ char_of (128::nat) # replicate ((239 - length s mod 128) mod 128) (char_of (0::nat))
       @ replicate 8 (char_of (0::nat)) @ sha_length_bytes (length s)"

definition sha512_init :: sha512_state where
  "sha512_init = Sha512 0x6a09e667f3bcc908 0xbb67ae8584caa73b 0x3c6ef372fe94f82b 0xa54ff53a5f1d36f1
    0x510e527fade682d1 0x9b05688c2b3e6c1f 0x1f83d9abfb41bd6b 0x5be0cd19137e2179"

definition sha384_init :: sha512_state where
  "sha384_init = Sha512 0xcbbb9d5dc1059ed8 0x629a292a367cd507 0x9159015a3070dd17 0x152fecd8f70e5939
    0x67332667ffc00b31 0x8eb44a8768581511 0xdb0c2e0d64f98fa7 0x47b5481dbefa4fa4"

definition sha512_Sum512 :: "bytes \<Rightarrow> bytes" where
  "sha512_Sum512 s = bytes_of_state512 (sha512_blocks sha512_init (words64_of_bytes (sha512_pad s)))"

definition sha512_Sum384 :: "bytes \<Rightarrow> bytes" where
  "sha512_Sum384 s =
     take 48 (bytes_of_state512 (sha512_blocks sha384_init (words64_of_bytes (sha512_pad s))))"

lemma length_sha512: "length (sha512_Sum512 s) = 64" "length (sha512_Sum384 s) = 48"
  by (simp_all add: sha512_Sum512_def sha512_Sum384_def bytes_of_state512_def bytes_of_word64_def
      split: sha512_state.split)

end
