(* ===== verification/Grantor_Issue.thy ===== *)
theory Grantor_Issue
  imports Grantor_Provider Go_Sha512
begin

text \<open>
  accesstoken.go, idtoken.go and the planning half of issue.go: how access token values and ID
  tokens are made, and how \<^verbatim>\<open>Config.BeforeIssue\<close> may adjust an issuance. Copies handed to the
  application are the values themselves; a hook returns the issuance as it left it.
\<close>

section \<open>Access tokens (accesstoken.go)\<close>

definition accessTokenProtectedClaims :: "string list" where
  "accessTokenProtectedClaims =
     [''iss'', ''sub'', ''aud'', ''exp'', ''nbf'', ''iat'', ''jti'', ''client_id'', ''scope'',
      ''auth_time'', ''acr'', ''amr'', ''cnf'', ''active'', ''token_type'']"

definition json_audience :: "string list \<Rightarrow> json" where
  "json_audience aud = (case aud of [a] \<Rightarrow> JString a | _ \<Rightarrow> JArray (map JString aud))"

definition put_if :: "bool \<Rightarrow> string \<Rightarrow> json \<Rightarrow> json_map \<Rightarrow> json_map" where
  "put_if c name v m = (if c then map_put name v m else m)"

lemma map_of_put_if:
  "map_of (put_if c k v m) k' = (if c \<and> k' = k then Some v else map_of m k')"
  by (simp add: put_if_def)

definition jwtAccessTokenClaims :: "AccessToken \<Rightarrow> json_map" where
  "jwtAccessTokenClaims x =
     (let claims = xClaims x;
          claims = map_put ''iss'' (JString (xIssuer x)) claims;
          claims = map_put ''sub'' (JString (xSubject x)) claims;
          claims = put_if (xSubject x = []) ''sub'' (JString (xClientID x)) claims;
          claims = map_put ''aud'' (json_audience (xAudience x)) claims;
          claims = map_put ''exp'' (JNum (time_Unix (xExpiresAt x))) claims;
          claims = map_put ''iat'' (JNum (time_Unix (xIssuedAt x))) claims;
          claims = map_put ''jti'' (JString (xID x)) claims;
          claims = map_put ''client_id'' (JString (xClientID x)) claims;
          claims = put_if (xScopes x \<noteq> []) ''scope'' (JString (strings_Join (xScopes x) '' '')) claims;
          claims = put_if (\<not> time_IsZero (xAuthTime x)) ''auth_time'' (JNum (time_Unix (xAuthTime x))) claims;
          claims = put_if (xACR x \<noteq> []) ''acr'' (JString (xACR x)) claims
      in put_if (xAMR x \<noteq> []) ''amr'' (JArray (map JString (xAMR x))) claims)"

text \<open>The \<^verbatim>\<open>SignFunc\<close> of a client's access tokens.\<close>

definition access_token_sign :: "Provider \<Rightarrow> resolvedIssuer \<Rightarrow> Client \<Rightarrow> SignFunc" where
  "access_token_sign p iss client typ claims =
     (let lower = strings_ToLower typ;
          t = (case strings_CutPrefix lower ''application/'' of Some r \<Rightarrow> r | None \<Rightarrow> lower)
      in if t = [] \<or> t = ''jwt''
         then Inl (ENew ''access tokens must be signed with an explicit typ'')
         else (case keySet_forAlg (rsKeys iss) (client_accessTokenAlg client) of
                 None \<Rightarrow> Inl (ENew ''issuer has no key for the algorithm of the client'')
               | Some key \<Rightarrow> preparedKey_sign (pvJose p) key claims typ))"

definition encodeAccessToken ::
  "Provider \<Rightarrow> resolvedIssuer \<Rightarrow> Client \<Rightarrow> AccessTokenFormat \<Rightarrow> AccessToken \<Rightarrow> (goerr + string) prog" where
  "encodeAccessToken p iss client format x =
     (if format = AccessTokenFormatOpaque then bind randomToken (\<lambda>v. Ret (Inr v))
      else Ret
        (let value =
               (if format = AccessTokenFormatJWT
                then access_token_sign p iss client ''at+jwt'' (JObject (jwtAccessTokenClaims x))
                else (case map_of (cfAccessTokenFormats (pvCfg p)) format of
                        Some (Some enc) \<Rightarrow> enc x (access_token_sign p iss client)
                      | _ \<Rightarrow> Inl (ENew ''unknown access token format'')))
         in case value of
              Inl err \<Rightarrow> Inl (EWrap ''encode access token'' [err])
            | Inr v \<Rightarrow>
                if v = [] then Inl (ENew ''the access token encoder returned an empty token'')
                else Inr v))"

section \<open>ID tokens (idtoken.go)\<close>

definition hashForAlg :: "alg \<Rightarrow> (bytes \<Rightarrow> bytes) option" where
  "hashForAlg alg =
     (if alg = ''RS256'' \<or> alg = ''PS256'' \<or> alg = ''ES256'' then Some sha256_Sum256
      else if alg = ''RS384'' \<or> alg = ''PS384'' \<or> alg = ''ES384'' then Some sha512_Sum384
      else if alg = ''RS512'' \<or> alg = ''PS512'' \<or> alg = ''ES512'' then Some sha512_Sum512
      else None)"

definition leftHalfHash :: "(bytes \<Rightarrow> bytes) \<Rightarrow> string \<Rightarrow> string" where
  "leftHalfHash h v = (let sum = h v in b64_EncodeToString (take (length sum div 2) sum))"

text \<open>The claims of an ID token: those of the end-user and of the hook, then the protocol claims.\<close>

definition idTokenClaims ::
  "resolvedIssuer \<Rightarrow> Client \<Rightarrow> Token \<Rightarrow> string \<Rightarrow> string \<Rightarrow> duration \<Rightarrow> json_map \<Rightarrow> alg \<Rightarrow> time \<Rightarrow>
     json_map \<Rightarrow> json_map" where
  "idTokenClaims iss client grant nonce accessToken lifetime extra alg now user =
     (let claims = map_puts extra user;
          claims = map_put ''iss'' (JString (rsURL iss)) claims;
          claims = map_put ''sub'' (JString (tSubject grant)) claims;
          claims = map_put ''aud'' (JString (cID client)) claims;
          claims = map_put ''iat'' (JNum (time_Unix now)) claims;
          claims = map_put ''exp'' (JNum (time_Unix (time_Add now lifetime))) claims;
          claims = put_if (\<not> time_IsZero (tAuthTime grant)) ''auth_time''
                     (JNum (time_Unix (tAuthTime grant))) claims;
          claims = put_if (nonce \<noteq> []) ''nonce'' (JString nonce) claims;
          claims = put_if (tACR grant \<noteq> []) ''acr'' (JString (tACR grant)) claims;
          claims = put_if (tAMR grant \<noteq> []) ''amr'' (JArray (map JString (tAMR grant))) claims
      in case hashForAlg alg of
           Some h \<Rightarrow> put_if (accessToken \<noteq> []) ''at_hash'' (JString (leftHalfHash h accessToken)) claims
         | None \<Rightarrow> claims)"

definition issueIDToken ::
  "Provider \<Rightarrow> resolvedIssuer \<Rightarrow> Client \<Rightarrow> Token \<Rightarrow> string \<Rightarrow> string \<Rightarrow> duration \<Rightarrow> json_map \<Rightarrow>
     (goerr + string) prog" where
  "issueIDToken p iss client grant nonce accessToken lifetime extra =
     (case keySet_forAlg (rsKeys iss) (client_idTokenAlg client) of
        None \<Rightarrow> Ret (Inl (ENew ''issuer has no key for the algorithm registered for the client''))
      | Some key \<Rightarrow>
          (let requested = (case tClaims grant of Some c \<Rightarrow> cqIDToken c | None \<Rightarrow> []) in
           case provider_endUserClaims (pvCfg p) grant
                  (provider_allowedClaims (pvCfg p) grant requested (cfIDTokenScopeClaims (pvCfg p))) of
             Inl err \<Rightarrow> Ret (Inl err)
           | Inr user \<Rightarrow>
               bind provider_now (\<lambda>now. Ret
                 (preparedKey_sign (pvJose p) key
                   (JObject (idTokenClaims iss client grant nonce accessToken lifetime extra
                               (pkAlg key) now user)) ''JWT''))))"

definition verifyIDTokenHint ::
  "Provider \<Rightarrow> resolvedIssuer \<Rightarrow> string \<Rightarrow> string \<Rightarrow> goerr + string" where
  "verifyIDTokenHint p iss hint clientID =
     (case jzParseSigned (pvJose p) hint (keySet_algorithms (rsKeys iss)) of
        None \<Rightarrow> Inl (ENew ''parse id_token_hint'')
      | Some tok \<Rightarrow>
          if length (jtHeaders tok) \<noteq> 1
          then Inl (ENew ''id_token_hint must have exactly one signature'')
          else (let h = hd (jtHeaders tok) in
                case keySet_verificationKey (rsKeys iss) (jhKeyID h) of
                  None \<Rightarrow> Inl (ENew ''id_token_hint is not signed by a key of this issuer'')
                | Some (pub, alg) \<Rightarrow>
                    if jhAlgorithm h \<noteq> alg
                    then Inl (ENew ''id_token_hint is not signed by a key of this issuer'')
                    else (case jtClaims tok pub of
                            None \<Rightarrow> Inl (ENew ''verify id_token_hint'')
                          | Some c \<Rightarrow>
                              if jcIssuer c \<noteq> rsURL iss \<or> jcSubject c = [] \<or> clientID \<notin> set (jcAudience c)
                              then Inl (ENew ''id_token_hint was not issued to this client by this issuer'')
                              else Inr (jcSubject c))))"

section \<open>Planning an issuance (issue.go)\<close>

record issuePlan =
  ipScopes :: "string list"
  ipAudience :: "string list"
  ipRefresh :: bool
  ipFormat :: AccessTokenFormat
  ipAccessClaims :: json_map
  ipIDClaims :: json_map
  ipAccessLifetime :: duration
  ipRefreshLifetime :: duration
  ipIDLifetime :: duration

fun firstFormat :: "AccessTokenFormat list \<Rightarrow> AccessTokenFormat" where
  "firstFormat [] = AccessTokenFormatOpaque"
| "firstFormat (f # fs) = (if f \<noteq> [] then f else firstFormat fs)"

fun firstDuration :: "duration list \<Rightarrow> duration" where
  "firstDuration [] = 0"
| "firstDuration (d # ds) = (if 0 < d then d else firstDuration ds)"

definition narrowed :: "string list \<Rightarrow> string list \<Rightarrow> string \<Rightarrow> goerr + string list" where
  "narrowed allowed got what =
     (case select_loop allowed [] got of
        None \<Rightarrow> Inl (ENew (''added the '' @ what))
      | Some out \<Rightarrow> Inr out)"

definition new_issuance ::
  "TokenRequest \<Rightarrow> Client \<Rightarrow> Token \<Rightarrow> issuePlan \<Rightarrow> Issuance" where
  "new_issuance req client grant plan =
     \<lparr>iuIssuer = (case tr_iss req of Some iss \<Rightarrow> rsURL iss | None \<Rightarrow> []),
      iuGrantType = trGrantType req,
      iuRequest = req\<lparr>trClient := Some client\<rparr>,
      iuClient = client,
      iuGrantID = tGrantID grant,
      iuSubject = tSubject grant,
      iuAuthTime = tAuthTime grant,
      iuScopes = ipScopes plan,
      iuRefreshToken = ipRefresh plan,
      iuAudience = ipAudience plan,
      iuAccessTokenFormat = ipFormat plan,
      iuAccessTokenClaims = [],
      iuIDTokenClaims = [],
      iuAccessTokenLifetime = ipAccessLifetime plan,
      iuRefreshTokenLifetime = ipRefreshLifetime plan,
      iuIDTokenLifetime = ipIDLifetime plan\<rparr>"

text \<open>The checks on what the hook left in the issuance.\<close>

definition check_issuance :: "Config \<Rightarrow> issuePlan \<Rightarrow> Issuance \<Rightarrow> goerr option" where
  "check_issuance cfg plan iu =
     (if iuRefreshToken iu \<and> \<not> ipRefresh plan then Some (ENew ''BeforeIssue enabled a refresh token'')
      else if \<not> provider_knownFormat cfg (iuAccessTokenFormat iu)
      then Some (ENew ''BeforeIssue chose an unknown access token format'')
      else if \<not> validLifetime (iuAccessTokenLifetime iu) \<or> \<not> validLifetime (iuRefreshTokenLifetime iu)
              \<or> \<not> validLifetime (iuIDTokenLifetime iu)
      then Some (ENew ''BeforeIssue set a token lifetime shorter than a second'')
      else if list_ex (\<lambda>(name, _). name \<in> set accessTokenProtectedClaims) (iuAccessTokenClaims iu)
      then Some (ENew ''BeforeIssue set a protected access token claim'')
      else if list_ex (\<lambda>(name, _). name \<in> set protocolClaims) (iuIDTokenClaims iu)
      then Some (ENew ''BeforeIssue set a protected ID token claim'')
      else None)"

definition runBeforeIssue ::
  "Config \<Rightarrow> BeforeIssueFunc \<Rightarrow> TokenRequest \<Rightarrow> Client \<Rightarrow> Token \<Rightarrow> issuePlan \<Rightarrow> perror + issuePlan" where
  "runBeforeIssue cfg hook req client grant plan =
     (case hook (new_issuance req client grant plan) of
        (Some err, _) \<Rightarrow> Inl (asProtocolError err)
      | (None, iu) \<Rightarrow>
          (case narrowed (ipScopes plan) (iuScopes iu) ''scope'' of
             Inl err \<Rightarrow> Inl (errServer (EWrap ''BeforeIssue'' [err]))
           | Inr scopes \<Rightarrow>
          (case narrowed (ipAudience plan) (iuAudience iu) ''audience'' of
             Inl err \<Rightarrow> Inl (errServer (EWrap ''BeforeIssue'' [err]))
           | Inr audience \<Rightarrow>
          (case check_issuance cfg plan iu of
             Some err \<Rightarrow> Inl (errServer err)
           | None \<Rightarrow>
          (case (normalizeClaims (iuAccessTokenClaims iu), normalizeClaims (iuIDTokenClaims iu)) of
             (None, _) \<Rightarrow> Inl (errServer (ENew ''BeforeIssue set access token claims that are not JSON''))
           | (_, None) \<Rightarrow> Inl (errServer (ENew ''BeforeIssue set ID token claims that are not JSON''))
           | (Some accessClaims, Some idClaims) \<Rightarrow>
               Inr \<lparr>ipScopes = scopes, ipAudience = audience, ipRefresh = iuRefreshToken iu,
                    ipFormat = iuAccessTokenFormat iu, ipAccessClaims = accessClaims,
                    ipIDClaims = idClaims, ipAccessLifetime = iuAccessTokenLifetime iu,
                    ipRefreshLifetime = iuRefreshTokenLifetime iu,
                    ipIDLifetime = iuIDTokenLifetime iu\<rparr>)))))"

definition initial_plan :: "Config \<Rightarrow> Client \<Rightarrow> Token \<Rightarrow> string list \<Rightarrow> bool \<Rightarrow> issuePlan" where
  "initial_plan cfg client grant scopes withRefresh =
     \<lparr>ipScopes = scopes, ipAudience = tAudience grant, ipRefresh = withRefresh,
      ipFormat = firstFormat [cAccessTokenFormat client, cfAccessTokenFormat cfg],
      ipAccessClaims = [], ipIDClaims = [],
      ipAccessLifetime = firstDuration [cAccessTokenLifetime client, ltAccessToken (cfLifetimes cfg)],
      ipRefreshLifetime = firstDuration [cRefreshTokenLifetime client, ltRefreshToken (cfLifetimes cfg)],
      ipIDLifetime = firstDuration [cIDTokenLifetime client, ltIDToken (cfLifetimes cfg)]\<rparr>"

definition planIssuance ::
  "Config \<Rightarrow> TokenRequest \<Rightarrow> Client \<Rightarrow> Token \<Rightarrow> string list \<Rightarrow> bool \<Rightarrow> perror + issuePlan" where
  "planIssuance cfg req client grant scopes withRefresh =
     (let plan = initial_plan cfg client grant scopes withRefresh in
      case (case cfBeforeIssue cfg of
              None \<Rightarrow> Inr plan
            | Some hook \<Rightarrow> runBeforeIssue cfg hook req client grant plan) of
        Inl perr \<Rightarrow> Inl perr
      | Inr plan \<Rightarrow>
          if ipFormat plan = AccessTokenFormatJWT \<and> length (ipAudience plan) = 0
          then Inl (errServer (ENew ''JWT access token for client has no audience''))
          else Inr plan)"

section \<open>Facts about plans\<close>

text \<open>What a plan may be, for the scopes and the refresh token it was made for: the hook only
  narrows.\<close>

definition plan_ok ::
  "Config \<Rightarrow> Token \<Rightarrow> string list \<Rightarrow> bool \<Rightarrow> issuePlan \<Rightarrow> bool" where
  "plan_ok cfg grant scopes withRefresh plan \<longleftrightarrow>
     set (ipScopes plan) \<subseteq> set scopes \<and> set (ipAudience plan) \<subseteq> set (tAudience grant) \<and>
     (ipRefresh plan \<longrightarrow> withRefresh) \<and>
     (ipFormat plan = AccessTokenFormatJWT \<longrightarrow> ipAudience plan \<noteq> []) \<and>
     provider_knownFormat cfg (ipFormat plan) \<and>
     second \<le> ipAccessLifetime plan \<and> second \<le> ipRefreshLifetime plan \<and>
     second \<le> ipIDLifetime plan \<and>
     fst ` set (ipAccessClaims plan) \<inter> set accessTokenProtectedClaims = {} \<and>
     fst ` set (ipIDClaims plan) \<inter> set protocolClaims = {}"

lemma narrowed_Inr: "narrowed allowed got what = Inr out \<longleftrightarrow> out = nub_loop [] got \<and> set got \<subseteq> set allowed"
  by (auto simp: narrowed_def select_loop_eq)

lemma names_ascii:
  "name \<in> set accessTokenProtectedClaims \<Longrightarrow> is_ascii name"
  "name \<in> set protocolClaims \<Longrightarrow> is_ascii name"
  by (auto simp: accessTokenProtectedClaims_def protocolClaims_def is_ascii_def byte_def)

text \<open>A name that is not protected does not become protected when it is stored as JSON.\<close>

lemma normalizeClaims_disjoint:
  assumes "normalizeClaims claims = Some m" and "fst ` set claims \<inter> P = {}"
    and "\<And>name. name \<in> P \<Longrightarrow> is_ascii name"
  shows "fst ` set m \<inter> P = {}"
proof (rule ccontr)
  assume "fst ` set m \<inter> P \<noteq> {}"
  then obtain n where n: "n \<in> fst ` set m" "n \<in> P" by blast
  obtain k where k: "k \<in> fst ` set claims" "n = json_string k"
    using normalizeClaims_names [OF assms(1) n(1)] by blast
  then have "k = n" using json_string_ascii_only [of k] assms(3) [OF n(2)] by simp
  then show False using k(1) n(2) assms(2) by blast
qed

lemma firstFormat_known:
  assumes "config_ok cfg" and "client_ok cfg client"
  shows "provider_knownFormat cfg (firstFormat [cAccessTokenFormat client, cfAccessTokenFormat cfg])"
proof (cases "cAccessTokenFormat client = []")
  case True
  then show ?thesis using assms(1) by (simp add: config_ok_def)
next
  case False
  then show ?thesis using assms(2) by (simp add: client_ok_def)
qed

lemma firstDuration_second:
  assumes "validate_lifetime d = None" and "second \<le> e"
  shows "second \<le> firstDuration [d, e]"
  using assms by (auto simp: validate_lifetime_def validLifetime_def second_def split: if_splits)

lemma initial_plan_sel [simp]:
  "ipScopes (initial_plan cfg c g s w) = s" "ipAudience (initial_plan cfg c g s w) = tAudience g"
  "ipRefresh (initial_plan cfg c g s w) = w" "ipAccessClaims (initial_plan cfg c g s w) = []"
  "ipIDClaims (initial_plan cfg c g s w) = []"
  by (simp_all add: initial_plan_def)

lemma runBeforeIssue_Inr:
  assumes "runBeforeIssue cfg hook req client grant plan = Inr plan'"
  obtains iu where "hook (new_issuance req client grant plan) = (None, iu)"
    and "set (iuScopes iu) \<subseteq> set (ipScopes plan)" and "ipScopes plan' = nub_loop [] (iuScopes iu)"
    and "set (iuAudience iu) \<subseteq> set (ipAudience plan)"
    and "ipAudience plan' = nub_loop [] (iuAudience iu)"
    and "check_issuance cfg plan iu = None" and "ipRefresh plan' = iuRefreshToken iu"
    and "ipFormat plan' = iuAccessTokenFormat iu"
    and "normalizeClaims (iuAccessTokenClaims iu) = Some (ipAccessClaims plan')"
    and "normalizeClaims (iuIDTokenClaims iu) = Some (ipIDClaims plan')"
    and "ipAccessLifetime plan' = iuAccessTokenLifetime iu"
    and "ipRefreshLifetime plan' = iuRefreshTokenLifetime iu"
    and "ipIDLifetime plan' = iuIDTokenLifetime iu"
proof -
  obtain e iu where hook: "hook (new_issuance req client grant plan) = (e, iu)"
    by (cases "hook (new_issuance req client grant plan)")
  note a = assms [unfolded runBeforeIssue_def hook]
  have e: "e = None" using a by (cases e) auto
  have sc: "set (iuScopes iu) \<subseteq> set (ipScopes plan)"
    using a e by (auto simp: narrowed_def select_loop_eq split: if_split_asm)
  have au: "set (iuAudience iu) \<subseteq> set (ipAudience plan)"
    using a e sc by (auto simp: narrowed_def select_loop_eq split: if_split_asm)
  have ck: "check_issuance cfg plan iu = None"
    using a e sc au
    by (cases "check_issuance cfg plan iu") (simp_all add: narrowed_def select_loop_eq)
  obtain ac ic where n: "normalizeClaims (iuAccessTokenClaims iu) = Some ac"
      "normalizeClaims (iuIDTokenClaims iu) = Some ic"
    using a e sc au ck
    by (cases "normalizeClaims (iuAccessTokenClaims iu)"; cases "normalizeClaims (iuIDTokenClaims iu)")
      (simp_all add: narrowed_def select_loop_eq)
  have "plan' = \<lparr>ipScopes = nub_loop [] (iuScopes iu), ipAudience = nub_loop [] (iuAudience iu),
      ipRefresh = iuRefreshToken iu, ipFormat = iuAccessTokenFormat iu, ipAccessClaims = ac,
      ipIDClaims = ic, ipAccessLifetime = iuAccessTokenLifetime iu,
      ipRefreshLifetime = iuRefreshTokenLifetime iu, ipIDLifetime = iuIDTokenLifetime iu\<rparr>"
    using a e sc au ck n by (simp add: narrowed_def select_loop_eq)
  then show ?thesis using that hook e sc au ck n by simp
qed

lemma planIssuance_ok:
  assumes "planIssuance cfg req client grant scopes withRefresh = Inr plan"
    and "config_ok cfg" and "client_ok cfg client"
  shows "plan_ok cfg grant scopes withRefresh plan"
proof -
  define plan0 where "plan0 = initial_plan cfg client grant scopes withRefresh"
  have jwt: "ipFormat plan = AccessTokenFormatJWT \<longrightarrow> ipAudience plan \<noteq> []"
    and step: "(case cfBeforeIssue cfg of None \<Rightarrow> Inr plan0
              | Some hook \<Rightarrow> runBeforeIssue cfg hook req client grant plan0) = Inr plan"
    using assms(1) unfolding plan0_def
    by (auto simp: planIssuance_def Let_def split: sum.split_asm if_split_asm)
  show ?thesis
  proof (cases "cfBeforeIssue cfg")
    case None
    then have plan: "plan = plan0" using step by simp
    have "\<forall>d \<in> {cAccessTokenLifetime client, cRefreshTokenLifetime client, cIDTokenLifetime client}.
        validate_lifetime d = None"
      using assms(3) by (simp add: client_ok_def client_validate_None)
    then have "second \<le> ipAccessLifetime plan0" "second \<le> ipRefreshLifetime plan0"
        "second \<le> ipIDLifetime plan0"
      using assms(2) unfolding plan0_def initial_plan_def config_ok_def
      by (simp_all only: issuePlan.simps) (rule firstDuration_second; simp)+
    moreover have "provider_knownFormat cfg (ipFormat plan0)"
      using firstFormat_known [OF assms(2,3)] by (simp add: plan0_def initial_plan_def)
    ultimately show ?thesis using jwt unfolding plan by (simp add: plan_ok_def plan0_def)
  next
    case (Some hook)
    then have "runBeforeIssue cfg hook req client grant plan0 = Inr plan" using step by simp
    then show ?thesis
    proof (rule runBeforeIssue_Inr)
      fix iu
      assume ck: "check_issuance cfg plan0 iu = None"
        and n: "normalizeClaims (iuAccessTokenClaims iu) = Some (ipAccessClaims plan)"
          "normalizeClaims (iuIDTokenClaims iu) = Some (ipIDClaims plan)"
        and rest: "set (iuScopes iu) \<subseteq> set (ipScopes plan0)" "ipScopes plan = nub_loop [] (iuScopes iu)"
          "set (iuAudience iu) \<subseteq> set (ipAudience plan0)"
          "ipAudience plan = nub_loop [] (iuAudience iu)"
          "ipRefresh plan = iuRefreshToken iu" "ipFormat plan = iuAccessTokenFormat iu"
          "ipAccessLifetime plan = iuAccessTokenLifetime iu"
          "ipRefreshLifetime plan = iuRefreshTokenLifetime iu"
          "ipIDLifetime plan = iuIDTokenLifetime iu"
      have c: "iuRefreshToken iu \<longrightarrow> ipRefresh plan0" "provider_knownFormat cfg (iuAccessTokenFormat iu)"
          "second \<le> iuAccessTokenLifetime iu" "second \<le> iuRefreshTokenLifetime iu"
          "second \<le> iuIDTokenLifetime iu"
          "fst ` set (iuAccessTokenClaims iu) \<inter> set accessTokenProtectedClaims = {}"
          "fst ` set (iuIDTokenClaims iu) \<inter> set protocolClaims = {}"
        using ck by (auto simp: check_issuance_def validLifetime_def list_ex_iff split: if_split_asm)
      note d1 = normalizeClaims_disjoint [OF n(1) c(6) names_ascii(1)]
      note d2 = normalizeClaims_disjoint [OF n(2) c(7) names_ascii(2)]
      show ?thesis
        using c(1-5) d1 d2 rest jwt by (simp add: plan_ok_def plan0_def)
    qed
  qed
qed

end
