(* ===== verification/Grantor_Token.thy ===== *)
theory Grantor_Token
  imports Grantor_ClientAuth Grantor_Pkce Grantor_Issue
begin

text \<open>
  token.go, and \<^verbatim>\<open>issueGrant\<close> of issue.go: parsing token requests, the authorization code, refresh
  token, client credentials and custom grants, and the minting, storing and consuming of tokens.
  The programs return an \<^verbatim>\<open>*Error\<close> or the response; storage calls are made in the order of the
  sources, so that the proofs are about that order.
\<close>

section \<open>Token requests\<close>

definition opt_list :: "'a list option \<Rightarrow> 'a list" where
  "opt_list x = (case x of None \<Rightarrow> [] | Some xs \<Rightarrow> xs)"

definition new_token_request ::
  "Request \<Rightarrow> resolvedIssuer \<Rightarrow> params \<Rightarrow> Client \<Rightarrow> TokenRequest" where
  "new_token_request r iss q client =
     (let grantType = params_get q ''grant_type'';
          scopes = (if params_has q ''scope'' \<and> grantType \<noteq> GrantTypeAuthorizationCode
                    then Some (splitSpaces (params_get q ''scope'')) else None)
      in \<lparr>trClient = Some client, trGrantType = grantType, trScopes = scopes,
          trForm = map (\<lambda>(name, v). (name, [v]))
                     (filter (\<lambda>(name, _). name \<noteq> ''client_secret'' \<and> name \<noteq> ''client_assertion'')
                       (pValues q)),
          trIssuer = rsURL iss, trHTTPRequest = r, tr_iss = Some iss, tr_client = client,
          tr_grantType = grantType, tr_scopes = scopes\<rparr>)"

definition parseToken ::
  "Provider \<Rightarrow> Request \<Rightarrow> resolvedIssuer \<Rightarrow> (perror + TokenRequest) prog" where
  "parseToken p r iss =
     (if rMethod r \<noteq> ''POST''
      then Ret (Inl (PError CodeInvalidRequest ''the token endpoint only accepts POST'' [] 405 None))
      else case parseForm r of
        Inl perr \<Rightarrow> Ret (Inl perr)
      | Inr q \<Rightarrow>
          if pRepeated q \<noteq> [] then Ret (Inl (errInvalidRequest ''parameters must not be repeated''))
          else bindE (authenticateClient p r iss q) (\<lambda>client. Ret
            (if \<not> params_has q ''grant_type''
             then Inl (errInvalidRequest ''grant_type is required'')
             else Inr (new_token_request r iss q client))))"

definition ParseTokenRequest :: "Provider \<Rightarrow> Request \<Rightarrow> (goerr + TokenRequest) prog" where
  "ParseTokenRequest p r =
     (case provider_issuerFor p r of
        Inl err \<Rightarrow> Ret (Inl (EProto (issuerError err)))
      | Inr iss \<Rightarrow>
          bind (parseToken p r iss) (\<lambda>x. Ret
            (case x of Inl perr \<Rightarrow> Inl (EProto perr) | Inr req \<Rightarrow> Inr req)))"

text \<open>\<^verbatim>\<open>slices.Equal\<close> does not tell nil from empty.\<close>

definition checkTokenRequest :: "TokenRequest option \<Rightarrow> perror + Client" where
  "checkTokenRequest reqo =
     (case reqo of
        None \<Rightarrow> Inl (errServer (ENew ''the TokenRequest was not created by ParseTokenRequest''))
      | Some req \<Rightarrow>
          if tr_iss req = None
          then Inl (errServer (ENew ''the TokenRequest was not created by ParseTokenRequest''))
          else if (case trClient req of None \<Rightarrow> True | Some c \<Rightarrow> cID c \<noteq> cID (tr_client req))
          then Inl (errServer (ENew ''TokenRequest.Client was replaced''))
          else if trGrantType req \<noteq> tr_grantType req
          then Inl (errServer (ENew ''TokenRequest.GrantType was changed''))
          else if opt_list (trScopes req) \<noteq> opt_list (tr_scopes req)
          then Inl (errServer (ENew ''TokenRequest.Scopes was changed''))
          else Inr (tr_client req))"

section \<open>Checks of a grant\<close>

definition invalid_grant :: perror where
  "invalid_grant = errInvalidGrant ''the grant is invalid, expired or revoked''"

definition narrowScopes :: "string list \<Rightarrow> string list option \<Rightarrow> perror + string list" where
  "narrowScopes allowed requested =
     (case requested of
        None \<Rightarrow> Inr allowed
      | Some requested \<Rightarrow>
          (case select_loop allowed [] requested of
             None \<Rightarrow> Inl (newError CodeInvalidScope ''the requested scope exceeds the grant'')
           | Some out \<Rightarrow> Inr out))"

definition checkClientGrant :: "Client \<Rightarrow> Token \<Rightarrow> perror option" where
  "checkClientGrant client grant =
     (if \<not> set (tScopes grant) \<subseteq> set (cScopes client)
      then Some (newError CodeInvalidScope ''the client may no longer request the granted scope'')
      else if \<not> set (tAudience grant) \<subseteq> set (cAudience client)
      then Some (errInvalidGrant ''the client may no longer access the granted audience'')
      else None)"

definition singleUseToken ::
  "resolvedIssuer \<Rightarrow> Client \<Rightarrow> string \<Rightarrow> TokenKind \<Rightarrow> (perror + Token) prog" where
  "singleUseToken iss client hash typ =
     bind (storage_Token hash) (\<lambda>r. Ret
       (case r of
          Inl err \<Rightarrow> if errors_Is err ErrNotFound then Inl invalid_grant else Inl (errServer err)
        | Inr t \<Rightarrow>
            if tKind t \<noteq> typ \<or> tIssuer t \<noteq> rsURL iss \<or> tClientID t \<noteq> cID client
            then Inl invalid_grant else Inr t))"

definition revokeReusedGrant :: "Token \<Rightarrow> perror prog" where
  "revokeReusedGrant t =
     bind (storage_RevokeGrant (tGrantID t)) (\<lambda>r. Ret
       (case r of Some err \<Rightarrow> errServer err | None \<Rightarrow> invalid_grant))"

definition checkUnused :: "Token \<Rightarrow> (perror + unit) prog" where
  "checkUnused t =
     (if \<not> time_IsZero (tConsumedAt t) then bind (revokeReusedGrant t) (\<lambda>e. Ret (Inl e))
      else bind provider_now (\<lambda>now. Ret
        (if \<not> time_Before now (tExpiresAt t) then Inl invalid_grant else Inr ())))"

definition consume :: "string \<Rightarrow> perror option prog" where
  "consume hash =
     bind provider_now (\<lambda>now.
     bind (storage_ConsumeToken hash now) (\<lambda>r.
       case r of
         Inl err \<Rightarrow> Ret (Some (if errors_Is err ErrNotFound then invalid_grant else errServer err))
       | Inr t \<Rightarrow>
           if \<not> time_IsZero (tConsumedAt t) then bind (revokeReusedGrant t) (\<lambda>e. Ret (Some e))
           else Ret None))"

section \<open>Minting and storing tokens\<close>

record mintedTokens =
  mtResp :: TokenResponse
  mtRecords :: "Token list"

definition derive :: "Token \<Rightarrow> time \<Rightarrow> string \<Rightarrow> TokenKind \<Rightarrow> string list \<Rightarrow> Token" where
  "derive grant now value typ scopes =
     grant\<lparr>tHash := hashToken value, tKind := typ, tScopes := scopes, tRedirectURI := [],
           tRedirectURIInRequest := False, tNonce := [], tCodeChallenge := [],
           tCodeChallengeMethod := [], tCreatedAt := now, tConsumedAt := 0,
           tAccessTokenClaims := []\<rparr>"

definition access_record :: "Token \<Rightarrow> time \<Rightarrow> string \<Rightarrow> issuePlan \<Rightarrow> Token" where
  "access_record grant now accessToken plan =
     (derive grant now accessToken TokenKindAccessToken (ipScopes plan))
       \<lparr>tAudience := ipAudience plan, tAccessTokenClaims := ipAccessClaims plan,
        tExpiresAt := time_Add now (ipAccessLifetime plan)\<rparr>"

definition refresh_record :: "Token \<Rightarrow> time \<Rightarrow> string \<Rightarrow> issuePlan \<Rightarrow> Token" where
  "refresh_record grant now refreshToken plan =
     (derive grant now refreshToken TokenKindRefreshToken (tScopes grant))
       \<lparr>tExpiresAt := time_Add now (ipRefreshLifetime plan)\<rparr>"

definition new_access_token ::
  "string \<Rightarrow> resolvedIssuer \<Rightarrow> Client \<Rightarrow> Token \<Rightarrow> issuePlan \<Rightarrow> GrantType \<Rightarrow> time \<Rightarrow> AccessToken" where
  "new_access_token i iss client grant plan grantType now =
     \<lparr>xID = i, xIssuer = rsURL iss, xClientID = cID client, xSubject = tSubject grant,
      xAudience = ipAudience plan, xScopes = ipScopes plan, xGrantType = grantType,
      xAuthTime = tAuthTime grant, xACR = tACR grant, xAMR = tAMR grant, xIssuedAt = now,
      xExpiresAt = time_Add now (ipAccessLifetime plan), xClaims = ipAccessClaims plan\<rparr>"

definition new_response :: "issuePlan \<Rightarrow> string \<Rightarrow> string \<Rightarrow> string \<Rightarrow> TokenResponse" where
  "new_response plan accessToken refreshToken idToken =
     \<lparr>reAccessToken = accessToken, reTokenType = ''Bearer'',
      reExpiresIn = go_div (ipAccessLifetime plan) second, reRefreshToken = refreshToken,
      reScope = strings_Join (ipScopes plan) '' '', reIDToken = idToken\<rparr>"

definition mintTokens ::
  "Provider \<Rightarrow> resolvedIssuer \<Rightarrow> Client \<Rightarrow> Token \<Rightarrow> issuePlan \<Rightarrow> bool \<Rightarrow> string \<Rightarrow> GrantType \<Rightarrow>
     (perror + mintedTokens) prog" where
  "mintTokens p iss client grant plan withIDToken nonce grantType =
     bind provider_now (\<lambda>now.
     bind randomToken (\<lambda>i.
     bind (encodeAccessToken p iss client (ipFormat plan)
            (new_access_token i iss client grant plan grantType now)) (\<lambda>r.
       case r of
         Inl err \<Rightarrow> Ret (Inl (errServer err))
       | Inr accessToken \<Rightarrow>
           (let access = access_record grant now accessToken plan in
            bind (if ipRefresh plan then bind randomToken (\<lambda>v. Ret (Some v)) else Ret None)
              (\<lambda>refreshToken.
            (let records =
                   access # (case refreshToken of
                               Some v \<Rightarrow> [refresh_record grant now v plan] | None \<Rightarrow> []);
                 refresh = (case refreshToken of Some v \<Rightarrow> v | None \<Rightarrow> [])
             in if withIDToken \<and> tSubject grant \<noteq> []
                then bind (issueIDToken p iss client access nonce accessToken (ipIDLifetime plan)
                            (ipIDClaims plan)) (\<lambda>r. Ret
                  (case r of
                     Inl err \<Rightarrow> Inl (errServer err)
                   | Inr idToken \<Rightarrow>
                       Inr \<lparr>mtResp = new_response plan accessToken refresh idToken,
                            mtRecords = records\<rparr>))
                else Ret (Inr \<lparr>mtResp = new_response plan accessToken refresh [],
                               mtRecords = records\<rparr>)))))))"

fun storeTokens :: "Token list \<Rightarrow> perror option prog" where
  "storeTokens [] = Ret None"
| "storeTokens (t # ts) =
     bind (storage_CreateToken t) (\<lambda>r.
       case r of Some err \<Rightarrow> Ret (Some (errServer err)) | None \<Rightarrow> storeTokens ts)"

text \<open>Failures are only logged.\<close>

fun discardTokens :: "Token list \<Rightarrow> unit prog" where
  "discardTokens [] = Ret ()"
| "discardTokens (t # ts) = bind (storage_RevokeToken (tHash t)) (\<lambda>_. discardTokens ts)"

definition storeAndConsume :: "mintedTokens \<Rightarrow> string \<Rightarrow> (perror + TokenResponse) prog" where
  "storeAndConsume minted hash =
     bind (storeTokens (mtRecords minted)) (\<lambda>r.
       case r of
         Some perr \<Rightarrow> bind (discardTokens (mtRecords minted)) (\<lambda>_. Ret (Inl perr))
       | None \<Rightarrow>
           bind (consume hash) (\<lambda>r.
             case r of
               Some perr \<Rightarrow> bind (discardTokens (mtRecords minted)) (\<lambda>_. Ret (Inl perr))
             | None \<Rightarrow> Ret (Inr (mtResp minted))))"

definition issueTokens ::
  "Provider \<Rightarrow> TokenRequest \<Rightarrow> Client \<Rightarrow> Token \<Rightarrow> string list \<Rightarrow> bool \<Rightarrow> (perror + TokenResponse) prog"
  where
  "issueTokens p req client grant accessScopes withRefresh =
     bindE (Ret (planIssuance (pvCfg p) req client grant accessScopes withRefresh)) (\<lambda>plan.
     bindE (mintTokens p (the (tr_iss req)) client grant plan (''openid'' \<in> set (ipScopes plan)) []
             (trGrantType req)) (\<lambda>minted.
     bind (storeTokens (mtRecords minted)) (\<lambda>r.
       case r of
         Some perr \<Rightarrow> bind (discardTokens (mtRecords minted)) (\<lambda>_. Ret (Inl perr))
       | None \<Rightarrow> Ret (Inr (mtResp minted)))))"

section \<open>The grants\<close>

text \<open>The checks of an authorization code before its reuse is acted on.\<close>

definition check_code :: "Token \<Rightarrow> string \<Rightarrow> string \<Rightarrow> perror option" where
  "check_code t redirectURI verifier =
     (if (redirectURI \<noteq> [] \<or> (tRedirectURIInRequest t \<and> tCodeChallenge t = []))
         \<and> redirectURI \<noteq> tRedirectURI t
      then Some (errInvalidGrant ''redirect_uri does not match the authorization request'')
      else verifyPKCE t verifier)"

definition check_error :: "perror option \<Rightarrow> perror + unit" where
  "check_error e = (case e of Some e \<Rightarrow> Inl e | None \<Rightarrow> Inr ())"

definition exchangeAuthorizationCode ::
  "Provider \<Rightarrow> TokenRequest \<Rightarrow> Client \<Rightarrow> (perror + TokenResponse) prog" where
  "exchangeAuthorizationCode p req client =
     (let iss = the (tr_iss req); code = values_Get (trForm req) ''code''; hash = hashToken code in
      if \<not> client_allowsGrant client GrantTypeAuthorizationCode
      then Ret (Inl (newError CodeUnauthorizedClient
                      ''the client may not use the authorization code grant''))
      else if code = [] then Ret (Inl (errInvalidRequest ''code is required''))
      else
        bindE (singleUseToken iss client hash TokenKindAuthorizationCode) (\<lambda>t.
        bindE (Ret (check_error (check_code t (values_Get (trForm req) ''redirect_uri'')
                                   (values_Get (trForm req) ''code_verifier'')))) (\<lambda>_.
        bindE (checkUnused t) (\<lambda>_.
        bindE (Ret (check_error (checkClientGrant client t))) (\<lambda>_.
        bindE (Ret (narrowScopes (tScopes t) (tr_scopes req))) (\<lambda>accessScopes.
        bindE (Ret (planIssuance (pvCfg p) req client t accessScopes
                     (client_allowsGrant client GrantTypeRefreshToken \<and>
                      (\<not> tHasScope t ''openid'' \<or> tHasScope t ''offline_access'')))) (\<lambda>plan.
        bindE (mintTokens p iss client t plan (tHasScope t ''openid'') (tNonce t) (trGrantType req))
          (\<lambda>minted.
        storeAndConsume minted hash))))))))"

definition exchangeRefreshToken ::
  "Provider \<Rightarrow> TokenRequest \<Rightarrow> Client \<Rightarrow> (perror + TokenResponse) prog" where
  "exchangeRefreshToken p req client =
     (let iss = the (tr_iss req); refreshToken = values_Get (trForm req) ''refresh_token'';
          hash = hashToken refreshToken in
      if \<not> client_allowsGrant client GrantTypeRefreshToken
      then Ret (Inl (newError CodeUnauthorizedClient ''the client may not use the refresh token grant''))
      else if refreshToken = [] then Ret (Inl (errInvalidRequest ''refresh_token is required''))
      else
        bindE (singleUseToken iss client hash TokenKindRefreshToken) (\<lambda>t.
        bindE (checkUnused t) (\<lambda>_.
        bindE (Ret (narrowScopes (tScopes t) (tr_scopes req))) (\<lambda>accessScopes.
        bindE (Ret (check_error (checkClientGrant client t))) (\<lambda>_.
        bindE (Ret (planIssuance (pvCfg p) req client t accessScopes True)) (\<lambda>plan.
        bindE (mintTokens p iss client t plan (''openid'' \<in> set (ipScopes plan)) [] (trGrantType req))
          (\<lambda>minted.
        storeAndConsume minted hash)))))))"

definition validScopeToken :: "string \<Rightarrow> bool" where
  "validScopeToken s \<longleftrightarrow>
     list_all (\<lambda>c. \<not> (byte c < 0x21 \<or> byte c > 0x7e \<or> c = CHR 0x22 \<or> c = CHR 0x5c)) s \<and> s \<noteq> []"

fun validateScopes_loop :: "Client \<Rightarrow> string list \<Rightarrow> perror option" where
  "validateScopes_loop client [] = None"
| "validateScopes_loop client (s # ss) =
     (if \<not> validScopeToken s
      then Some (newError CodeInvalidScope ''scope contains invalid characters'')
      else if s \<notin> set (cScopes client)
      then Some (newError CodeInvalidScope ''the client may not request one of the scopes'')
      else validateScopes_loop client ss)"

definition validateScopes :: "Client \<Rightarrow> string list option \<Rightarrow> perror + string list" where
  "validateScopes client scopes =
     (case validateScopes_loop client (opt_list scopes) of
        Some e \<Rightarrow> Inl e
      | None \<Rightarrow> Inr (opt_list scopes))"

definition exchangeClientCredentials ::
  "Provider \<Rightarrow> TokenRequest \<Rightarrow> Client \<Rightarrow> (perror + TokenResponse) prog" where
  "exchangeClientCredentials p req client =
     (if client_isPublic client \<or> \<not> client_allowsGrant client GrantTypeClientCredentials
      then Ret (Inl (newError CodeUnauthorizedClient
                      ''the client may not use the client credentials grant''))
      else case validateScopes client (tr_scopes req) of
        Inl perr \<Rightarrow> Ret (Inl perr)
      | Inr scopes \<Rightarrow>
          if ''openid'' \<in> set scopes \<or> ''offline_access'' \<in> set scopes
          then Ret (Inl (newError CodeInvalidScope ''the client credentials grant has no end-user''))
          else bind randomToken (\<lambda>grantID.
            issueTokens p req client
              (token_zero\<lparr>tGrantID := grantID, tIssuer := rsURL (the (tr_iss req)),
                          tClientID := cID client, tScopes := scopes,
                          tAudience := cAudience client\<rparr>) scopes False))"

definition validateSubject :: "string \<Rightarrow> goerr option" where
  "validateSubject subject =
     (if subject = [] \<or> 255 < length subject
      then Some (ENew ''subject must be 1 to 255 characters'')
      else if list_ex (\<lambda>c. byte c < 0x20 \<or> byte c > 0x7e) subject
      then Some (ENew ''subject must be printable ASCII'')
      else None)"

definition subsetOf :: "string list \<Rightarrow> string list \<Rightarrow> string list option" where
  "subsetOf allowed requested = select_loop allowed [] requested"

definition issueGrant ::
  "Provider \<Rightarrow> TokenRequest \<Rightarrow> Client \<Rightarrow> Grant option \<Rightarrow> (perror + TokenResponse) prog" where
  "issueGrant p req client go =
     (case go of
        None \<Rightarrow> Ret (Inl (errServer (ENew ''grant returned neither a grant nor an error'')))
      | Some g \<Rightarrow>
          (case (if gSubject g \<noteq> [] then validateSubject (gSubject g) else None) of
             Some err \<Rightarrow> Ret (Inl (errServer err))
           | None \<Rightarrow>
          (case select_loop (cScopes client) [] (gScopes g) of
             None \<Rightarrow> Ret (Inl (newError CodeInvalidScope ''the client may not request one of the scopes''))
           | Some scopes \<Rightarrow>
               if gSubject g = [] \<and> (''openid'' \<in> set scopes \<or> ''offline_access'' \<in> set scopes)
               then Ret (Inl (errServer (ENew ''the openid and offline_access scopes need a subject'')))
               else if gRefreshToken g \<and> \<not> client_allowsGrant client GrantTypeRefreshToken
               then Ret (Inl (errServer (ENew ''client may not use refresh tokens'')))
               else (case subsetOf (cAudience client) (gAudience g) of
                       None \<Rightarrow> Ret (Inl (newError CodeInvalidTarget
                                 ''the audience is not registered for the client''))
                     | Some audience \<Rightarrow>
                         bind randomToken (\<lambda>grantID.
                           issueTokens p req client
                             (token_zero\<lparr>tAudience := audience, tGrantID := grantID,
                                tIssuer := rsURL (the (tr_iss req)), tClientID := cID client,
                                tSubject := gSubject g, tScopes := scopes, tAuthTime := gAuthTime g,
                                tACR := gACR g, tAMR := gAMR g\<rparr>) scopes (gRefreshToken g))))))"

definition exchange ::
  "Provider \<Rightarrow> TokenRequest option \<Rightarrow> (perror + TokenResponse) prog" where
  "exchange p reqo =
     (case checkTokenRequest reqo of
        Inl perr \<Rightarrow> Ret (Inl perr)
      | Inr client \<Rightarrow>
          (let req = the reqo in
           if trGrantType req = GrantTypeAuthorizationCode then exchangeAuthorizationCode p req client
           else if trGrantType req = GrantTypeRefreshToken then exchangeRefreshToken p req client
           else if trGrantType req = GrantTypeClientCredentials
           then exchangeClientCredentials p req client
           else (case map_of (cfGrants (pvCfg p)) (trGrantType req) of
                   Some (Some fn) \<Rightarrow>
                     if \<not> client_allowsGrant client (trGrantType req)
                     then Ret (Inl (newError CodeUnauthorizedClient
                                     ''the client may not use this grant type''))
                     else (case fn req of
                             (Inl err, _) \<Rightarrow> Ret (Inl (asProtocolError err))
                           | (Inr g, req') \<Rightarrow>
                               (case checkTokenRequest (Some req') of
                                  Inl perr \<Rightarrow> Ret (Inl perr)
                                | Inr _ \<Rightarrow> issueGrant p req' client g))
                 | _ \<Rightarrow> Ret (Inl (newError CodeUnsupportedGrantType
                                ''the grant type is not supported'')))))"

definition provider_Exchange :: "Provider \<Rightarrow> TokenRequest option \<Rightarrow> (goerr + TokenResponse) prog" where
  "provider_Exchange p reqo =
     bind (exchange p reqo) (\<lambda>r. Ret
       (case r of Inl perr \<Rightarrow> Inl (EProto perr) | Inr resp \<Rightarrow> Inr resp))"

section \<open>The endpoint\<close>

definition json_opt :: "string \<Rightarrow> string \<Rightarrow> json_map" where
  "json_opt name v = (if v = [] then [] else [(name, JString v)])"

definition json_TokenResponse :: "TokenResponse \<Rightarrow> json" where
  "json_TokenResponse r =
     JObject ([(''access_token'', JString (reAccessToken r)),
               (''token_type'', JString (reTokenType r)),
               (''expires_in'', JNum (reExpiresIn r))]
              @ json_opt ''refresh_token'' (reRefreshToken r) @ json_opt ''scope'' (reScope r)
              @ json_opt ''id_token'' (reIDToken r))"

definition WriteTokenResponse :: "TokenResponse \<Rightarrow> ResponseWriter \<Rightarrow> ResponseWriter" where
  "WriteTokenResponse resp w = writeJSON 200 (json_TokenResponse resp) (noStore w)"

definition serveToken ::
  "Provider \<Rightarrow> ResponseWriter \<Rightarrow> Request \<Rightarrow> resolvedIssuer \<Rightarrow> ResponseWriter prog" where
  "serveToken p w r iss =
     (case allowMethods r [''POST''] w of
        Some w \<Rightarrow> Ret w
      | None \<Rightarrow>
          bind (parseToken p r iss) (\<lambda>x.
            case x of
              Inl perr \<Rightarrow> Ret (WriteTokenError r (EProto perr) w)
            | Inr req \<Rightarrow>
                bind (exchange p (Some req)) (\<lambda>x. Ret
                  (case x of
                     Inl perr \<Rightarrow> WriteTokenError r (EProto perr) w
                   | Inr resp \<Rightarrow> WriteTokenResponse resp w))))"

end
