(* ===== verification/Grantor_Storage.thy ===== *)
theory Grantor_Storage
  imports Grantor_Effects
begin

text \<open>
  The contract storage.go documents for \<^verbatim>\<open>Storage\<close>, as a locale over an implementation of the
  interface and the maps of live records it holds. Expired records may vanish at any call; a call
  that fails with an error other than the documented ones may or may not have taken effect. The
  lemmas of the locale are what the provider relies on: a single-use token is consumed once, a
  pending request deleted once, a replay key claimed once, a revoked grant stays revoked.
\<close>

section \<open>How the maps of records may change\<close>

text \<open>Only expired records may be dropped, none may change.\<close>

definition evolves ::
  "time \<Rightarrow> ('r \<Rightarrow> time) \<Rightarrow> (string \<Rightarrow> 'r option) \<Rightarrow> (string \<Rightarrow> 'r option) \<Rightarrow> bool" where
  "evolves now exp m m1 \<longleftrightarrow>
     (\<forall>k. m1 k = m k \<or> (m1 k = None \<and> (\<exists>r. m k = Some r \<and> exp r < now)))"

definition inserts where
  "inserts now exp k v r m m1 \<longleftrightarrow>
     (\<exists>m'. evolves now exp m m' \<and>
        (case r of
           None \<Rightarrow> m' k = None \<and> m1 = m'(k \<mapsto> v)
         | Some (e::goerr) \<Rightarrow> m1 = m' \<or> (m' k = None \<and> m1 = m'(k \<mapsto> v))))"

definition removes where
  "removes now exp k r m m1 \<longleftrightarrow>
     (\<exists>m'. evolves now exp m m' \<and>
        (case r of
           None \<Rightarrow> m' k \<noteq> None \<and> m1 = m'(k := None)
         | Some e \<Rightarrow>
             if errors_Is e ErrNotFound then m' k = None \<and> m1 = m'
             else m1 = m' \<or> m1 = m'(k := None)))"

definition loads where
  "loads now exp k r m m1 \<longleftrightarrow>
     evolves now exp m m1 \<and>
     (case r of
        Inr v \<Rightarrow> m1 k = Some v
      | Inl e \<Rightarrow> errors_Is e ErrNotFound \<longrightarrow> m1 k = None)"

definition mark_consumed :: "time \<Rightarrow> Token \<Rightarrow> Token" where
  "mark_consumed now t = (if tConsumedAt t = 0 then t\<lparr>tConsumedAt := now\<rparr> else t)"

definition consumes where
  "consumes now h at r m m1 \<longleftrightarrow>
     (\<exists>m'. evolves now tExpiresAt m m' \<and>
        (case r of
           Inr t \<Rightarrow> m' h = Some t \<and> m1 = m'(h \<mapsto> mark_consumed at t)
         | Inl e \<Rightarrow>
             if errors_Is e ErrNotFound then m' h = None \<and> m1 = m'
             else m1 = m' \<or> (\<exists>t. m' h = Some t \<and> m1 = m'(h \<mapsto> mark_consumed at t))))"

definition grant_gone :: "(string \<Rightarrow> Token option) \<Rightarrow> string \<Rightarrow> bool" where
  "grant_gone m g \<longleftrightarrow> (\<forall>h t. m h = Some t \<longrightarrow> tGrantID t \<noteq> g)"

text \<open>Grant IDs of the provider are ASCII.\<close>

definition revokes_grant where
  "revokes_grant now g r m m1 \<longleftrightarrow>
     (\<exists>m'. evolves now tExpiresAt m m' \<and>
        (\<forall>k. m1 k = m' k \<or>
           (m1 k = None \<and> (is_ascii g \<longrightarrow> (\<exists>t. m' k = Some t \<and> tGrantID t = g)))) \<and>
        (is_ascii g \<and> r = (None::goerr option) \<longrightarrow> grant_gone m1 g))"

lemma revokes_grant_shrinks:
  assumes "revokes_grant now g r m m1"
  obtains m' where "evolves now tExpiresAt m m'" "\<forall>k. m1 k = m' k \<or> m1 k = None"
proof -
  from assms obtain m' where "evolves now tExpiresAt m m'"
      and "\<forall>k. m1 k = m' k \<or>
           (m1 k = None \<and> (is_ascii g \<longrightarrow> (\<exists>t. m' k = Some t \<and> tGrantID t = g)))"
    unfolding revokes_grant_def by (elim exE conjE)
  then show ?thesis by (intro that) auto
qed

definition claims_once where
  "claims_once now k e r m m1 \<longleftrightarrow>
     (\<exists>m'. evolves now id m m' \<and>
        (case r of
           None \<Rightarrow> (\<forall>x. m' k = Some x \<longrightarrow> x \<le> now) \<and> m1 = m'(k \<mapsto> e)
         | Some (_::goerr) \<Rightarrow> m1 = m' \<or> ((\<forall>x. m' k = Some x \<longrightarrow> x \<le> now) \<and> m1 = m'(k \<mapsto> e))))"

lemma evolves_refl [simp]: "evolves now exp m m"
  by (simp add: evolves_def)

lemma evolves_None: "evolves now exp m m1 \<Longrightarrow> m k = None \<Longrightarrow> m1 k = None"
  unfolding evolves_def by (metis option.distinct(1))

lemma evolves_Some: "evolves now exp m m1 \<Longrightarrow> m1 k = Some r \<Longrightarrow> m k = Some r"
  unfolding evolves_def by (metis option.distinct(1))

lemma evolves_live: "evolves now exp m m1 \<Longrightarrow> m k = Some r \<Longrightarrow> now \<le> exp r \<Longrightarrow> m1 k = Some r"
  unfolding evolves_def by (metis not_less option.inject)

text \<open>What each call does to the tokens, whatever its answer.\<close>

fun tok_effect ::
  "(Token \<Rightarrow> Token) \<Rightarrow> event \<Rightarrow> time \<Rightarrow> (string \<Rightarrow> Token option) \<Rightarrow> (string \<Rightarrow> Token option) \<Rightarrow> bool" where
  "tok_effect st (EvCreateToken t r) now m m1 = inserts now tExpiresAt (tHash t) (st t) r m m1"
| "tok_effect st (EvLoadToken h r) now m m1 = loads now tExpiresAt h r m m1"
| "tok_effect st (EvConsumeToken h at r) now m m1 = consumes now h at r m m1"
| "tok_effect st (EvRevokeToken h r) now m m1 =
     (\<exists>m'. evolves now tExpiresAt m m' \<and> (m1 = m'(h := None) \<or> r \<noteq> None \<and> m1 = m'))"
| "tok_effect st (EvRevokeGrant g r) now m m1 = revokes_grant now g r m m1"
| "tok_effect st _ now m m1 = evolves now tExpiresAt m m1"

fun req_effect ::
  "(AuthorizationRequest \<Rightarrow> AuthorizationRequest) \<Rightarrow> event \<Rightarrow> time \<Rightarrow>
     (string \<Rightarrow> AuthorizationRequest option) \<Rightarrow> (string \<Rightarrow> AuthorizationRequest option) \<Rightarrow> bool" where
  "req_effect sr (EvCreateRequest q r) now m m1 = inserts now arExpiresAt (arID q) (sr q) r m m1"
| "req_effect sr (EvLoadRequest i r) now m m1 = loads now arExpiresAt i r m m1"
| "req_effect sr (EvDeleteRequest i r) now m m1 = removes now arExpiresAt i r m m1"
| "req_effect sr _ now m m1 = evolves now arExpiresAt m m1"

subsection \<open>Single use\<close>

text \<open>The token can no longer be used up: it is gone or was consumed.\<close>

definition spent :: "(string \<Rightarrow> Token option) \<Rightarrow> string \<Rightarrow> bool" where
  "spent m h \<longleftrightarrow> (case m h of None \<Rightarrow> True | Some t \<Rightarrow> tConsumedAt t \<noteq> 0)"

fun creates_token :: "string \<Rightarrow> event \<Rightarrow> bool" where
  "creates_token h (EvCreateToken t r) = (tHash t = h)"
| "creates_token h _ = False"

text \<open>The one successful consumption: ConsumeToken returns a token with a zero \<^verbatim>\<open>ConsumedAt\<close>.\<close>

fun consumes_token :: "string \<Rightarrow> event \<Rightarrow> bool" where
  "consumes_token h (EvConsumeToken h' at (Inr t)) = (h' = h \<and> tConsumedAt t = 0)"
| "consumes_token h _ = False"

fun zero_consume :: "event \<Rightarrow> bool" where
  "zero_consume (EvConsumeToken h at r) = (at = 0)"
| "zero_consume _ = False"

lemma spent_evolves: "evolves now exp m m1 \<Longrightarrow> spent m h \<Longrightarrow> spent m1 h"
  unfolding evolves_def spent_def by (metis (no_types) option.simps(4))

lemma mark_consumed_spent: "at \<noteq> 0 \<Longrightarrow> tConsumedAt (mark_consumed at t) \<noteq> 0"
  by (simp add: mark_consumed_def)

lemma mark_consumed_mono: "tConsumedAt t \<noteq> 0 \<Longrightarrow> tConsumedAt (mark_consumed at t) \<noteq> 0"
  by (simp add: mark_consumed_def)

lemma spent_upd [simp]:
  "spent (m(h := x)) h \<longleftrightarrow> (case x of None \<Rightarrow> True | Some t \<Rightarrow> tConsumedAt t \<noteq> 0)"
  "h \<noteq> k \<Longrightarrow> spent (m(k := x)) h \<longleftrightarrow> spent m h"
  by (simp_all add: spent_def)

lemma spent_consumes:
  assumes "consumes now k at r m m1" and "spent m h"
  shows "spent m1 h"
proof -
  from assms(1) obtain m' where m': "evolves now tExpiresAt m m'"
    and alt: "m1 = m' \<or> (\<exists>t. m' k = Some t \<and> m1 = m'(k \<mapsto> mark_consumed at t))"
    by (cases r) (auto simp: consumes_def split: if_splits)
  have "spent m' h" using spent_evolves [OF m' assms(2)] .
  with alt show ?thesis
    by (cases "h = k") (auto simp: spent_def mark_consumed_def split: option.splits)
qed

lemma tok_effect_spent:
  assumes "tok_effect st ev now m m1" and "spent m h" and "\<not> creates_token h ev"
  shows "spent m1 h"
proof (cases ev)
  case (EvCreateToken t r)
  with assms show ?thesis
    by (auto simp: inserts_def spent_evolves split: option.splits)
next
  case (EvConsumeToken k at r)
  with assms show ?thesis by (auto intro: spent_consumes)
next
  case (EvRevokeToken k r)
  with assms obtain m' where "evolves now tExpiresAt m m'" "m1 = m'(k := None) \<or> m1 = m'"
    by auto
  with spent_evolves [OF this(1) assms(2)] show ?thesis by (cases "h = k") auto
next
  case (EvRevokeGrant g r)
  with assms obtain m' where m': "evolves now tExpiresAt m m'" and "\<forall>k. m1 k = m' k \<or> m1 k = None"
    using revokes_grant_shrinks by (metis tok_effect.simps(5))
  with spent_evolves [OF m' assms(2)] show ?thesis
    unfolding spent_def by (metis option.simps(4))
qed (use assms spent_evolves in \<open>auto simp: loads_def\<close>)

lemma tok_effect_consumes:
  assumes "tok_effect st ev now m m1" and "consumes_token h ev" and "\<not> zero_consume ev"
  shows "\<not> spent m h \<and> spent m1 h"
proof -
  obtain at t where ev: "ev = EvConsumeToken h at (Inr t)" "tConsumedAt t = 0" "at \<noteq> 0"
    using assms(2,3) by (cases ev rule: zero_consume.cases) (auto elim: consumes_token.elims)
  then obtain m' where m': "evolves now tExpiresAt m m'" "m' h = Some t"
      "m1 = m'(h \<mapsto> mark_consumed at t)"
    using assms(1) by (auto simp: consumes_def)
  have "m h = Some t" using evolves_Some m'(1,2) .
  then show ?thesis using ev m' mark_consumed_spent by (auto simp: spent_def)
qed

subsection \<open>Requests\<close>

fun creates_request :: "string \<Rightarrow> event \<Rightarrow> bool" where
  "creates_request i (EvCreateRequest q r) = (arID q = i)"
| "creates_request i _ = False"

fun deletes_request :: "string \<Rightarrow> event \<Rightarrow> bool" where
  "deletes_request i (EvDeleteRequest i' None) = (i' = i)"
| "deletes_request i _ = False"

lemma req_effect_gone:
  assumes "req_effect sr ev now m m1" and "m i = None" and "\<not> creates_request i ev"
  shows "m1 i = None \<and> \<not> deletes_request i ev"
proof (cases ev)
  case (EvCreateRequest q r)
  with assms show ?thesis
    by (cases r) (auto simp: inserts_def dest: evolves_None)
next
  case (EvDeleteRequest k r)
  with assms show ?thesis
    by (cases r) (auto simp: removes_def dest: evolves_None split: if_splits)
qed (use assms in \<open>auto simp: loads_def dest: evolves_None\<close>)

lemma req_effect_deletes:
  "req_effect sr ev now m m1 \<Longrightarrow> deletes_request i ev \<Longrightarrow> m i \<noteq> None \<and> m1 i = None"
  by (cases "(i, ev)" rule: deletes_request.cases)
    (auto simp: removes_def dest: evolves_None)

subsection \<open>Grants\<close>

fun creates_grant_token :: "(Token \<Rightarrow> Token) \<Rightarrow> string \<Rightarrow> event \<Rightarrow> bool" where
  "creates_grant_token st g (EvCreateToken t r) = (tGrantID (st t) = g)"
| "creates_grant_token st g _ = False"

fun yields_grant_token :: "string \<Rightarrow> event \<Rightarrow> bool" where
  "yields_grant_token g (EvLoadToken h (Inr t)) = (tGrantID t = g)"
| "yields_grant_token g (EvConsumeToken h at (Inr t)) = (tGrantID t = g)"
| "yields_grant_token g _ = False"

lemma grant_gone_evolves: "evolves now exp m m1 \<Longrightarrow> grant_gone m g \<Longrightarrow> grant_gone m1 g"
  unfolding grant_gone_def using evolves_Some by metis

lemma tGrantID_mark_consumed [simp]: "tGrantID (mark_consumed at t) = tGrantID t"
  by (simp add: mark_consumed_def)

lemma grant_gone_upd:
  "grant_gone m g \<Longrightarrow> (\<And>t. x = Some t \<Longrightarrow> tGrantID t \<noteq> g) \<Longrightarrow> grant_gone (m(k := x)) g"
  by (auto simp: grant_gone_def)

lemma grant_gone_consumes:
  assumes "consumes now k at r m m1" and "grant_gone m g"
  shows "grant_gone m1 g \<and> (\<forall>t. r = Inr t \<longrightarrow> tGrantID t \<noteq> g)"
proof -
  from assms(1) obtain m' where m': "evolves now tExpiresAt m m'"
    and alt: "m1 = m' \<or> (\<exists>t. m' k = Some t \<and> m1 = m'(k \<mapsto> mark_consumed at t))"
    and res: "\<forall>t. r = Inr t \<longrightarrow> m' k = Some t"
    by (cases r) (auto simp: consumes_def split: if_splits)
  have gone: "grant_gone m' g" using grant_gone_evolves [OF m' assms(2)] .
  then show ?thesis using alt res by (fastforce simp: grant_gone_def split: if_splits)
qed

lemma tok_effect_grant_gone:
  assumes "tok_effect st ev now m m1" and "grant_gone m g" and "\<not> creates_grant_token st g ev"
  shows "grant_gone m1 g \<and> \<not> yields_grant_token g ev"
proof (cases ev)
  case (EvCreateToken t r)
  with assms show ?thesis
    by (cases r) (auto simp: inserts_def intro!: grant_gone_upd dest: grant_gone_evolves)
next
  case (EvLoadToken k r)
  with assms show ?thesis
    by (cases r) (auto simp: loads_def grant_gone_def dest: evolves_Some)
next
  case (EvConsumeToken k at r)
  with assms show ?thesis by (cases r) (auto dest: grant_gone_consumes)
next
  case (EvRevokeToken k r)
  with assms show ?thesis by (auto intro!: grant_gone_upd dest: grant_gone_evolves)
next
  case (EvRevokeGrant g' r)
  with assms obtain m' where m': "evolves now tExpiresAt m m'"
      and "\<forall>k. m1 k = m' k \<or> m1 k = None"
    using revokes_grant_shrinks by (metis tok_effect.simps(5))
  with grant_gone_evolves [OF m' assms(2)] EvRevokeGrant show ?thesis
    by (auto simp: grant_gone_def) (metis option.distinct(1))
qed (use assms grant_gone_evolves in \<open>auto\<close>)

lemma tok_effect_revokes:
  "tok_effect st (EvRevokeGrant g None) now m m1 \<Longrightarrow> is_ascii g \<Longrightarrow> grant_gone m1 g"
  by (auto simp: revokes_grant_def)

subsection \<open>Where a token comes from\<close>

lemma tok_effect_origin:
  assumes "tok_effect st ev now m m1" and "m1 h = Some t" and "\<not> creates_token h ev"
  shows "\<exists>t0. m h = Some t0 \<and> tGrantID t0 = tGrantID t"
proof -
  have old: "\<exists>t0. m h = Some t0 \<and> tGrantID t0 = tGrantID t"
    if "evolves now tExpiresAt m m'" "m' h = Some t" for m'
    using evolves_Some [OF that] by blast
  show ?thesis
  proof (cases ev)
    case (EvCreateToken t' r)
    with assms obtain m' where "evolves now tExpiresAt m m'" "m1 h = m' h"
      by (cases r) (auto simp: inserts_def)
    with old assms(2) show ?thesis by auto
  next
    case (EvConsumeToken k at r)
    with assms(1) obtain m' where m': "evolves now tExpiresAt m m'"
        and alt: "m1 = m' \<or> (\<exists>u. m' k = Some u \<and> m1 = m'(k \<mapsto> mark_consumed at u))"
      by (cases r) (auto simp: consumes_def split: if_split_asm)
    then obtain u where "m' h = Some u" "tGrantID u = tGrantID t"
      using assms(2) by (cases "h = k") auto
    with evolves_Some [OF m'] show ?thesis by auto
  next
    case (EvRevokeToken k r)
    with assms obtain m' where "evolves now tExpiresAt m m'" "m' h = Some t"
      by (cases "h = k") auto
    then show ?thesis by (rule old)
  next
    case (EvRevokeGrant g r)
    with assms(1) obtain m' where m': "evolves now tExpiresAt m m'"
        and "\<forall>k. m1 k = m' k \<or> m1 k = None"
      using revokes_grant_shrinks by (metis tok_effect.simps(5))
    then have "m' h = Some t" using assms(2) by (metis option.distinct(1))
    with m' show ?thesis by (rule old)
  qed (use assms old in \<open>auto simp: loads_def\<close>)
qed

text \<open>The call answers with the token that is stored under the hash.\<close>

fun yields_token :: "string \<Rightarrow> Token \<Rightarrow> event \<Rightarrow> bool" where
  "yields_token h t (EvLoadToken h' r) = (h' = h \<and> r = Inr t)"
| "yields_token h t (EvConsumeToken h' at r) = (h' = h \<and> r = Inr t)"
| "yields_token h t _ = False"

lemma tok_effect_yields:
  assumes "tok_effect st ev now m m1" and "yields_token h t ev"
  shows "m h = Some t"
proof (cases ev)
  case (EvLoadToken k r)
  with assms show ?thesis by (auto simp: loads_def dest: evolves_Some)
next
  case (EvConsumeToken k at r)
  with assms show ?thesis by (auto simp: consumes_def dest: evolves_Some)
qed (use assms in auto)

lemma tok_effect_created:
  "tok_effect st (EvCreateToken t None) now m m1 \<Longrightarrow> m1 (tHash t) = Some (st t)"
  by (auto simp: inserts_def)

subsection \<open>Tokens that stay\<close>

fun uses_up :: "string \<Rightarrow> string \<Rightarrow> event \<Rightarrow> bool" where
  "uses_up h g (EvConsumeToken h' at r) = (h' = h)"
| "uses_up h g (EvRevokeToken h' r) = (h' = h)"
| "uses_up h g (EvRevokeGrant g' r) = (g' = g \<or> \<not> is_ascii g')"
| "uses_up h g _ = False"

lemma tok_effect_keeps:
  assumes "tok_effect st ev now m m1" and "m h = Some t" and "now \<le> tExpiresAt t"
    and "\<not> uses_up h (tGrantID t) ev"
  shows "m1 h = Some t"
proof -
  have live: "m' h = Some t" if "evolves now tExpiresAt m m'" for m'
    using evolves_live [OF that assms(2,3)] .
  show ?thesis
  proof (cases ev)
    case (EvCreateToken t' r)
    with assms(1) obtain m' where "evolves now tExpiresAt m m'"
        and "m1 = m' \<or> m' (tHash t') = None \<and> m1 = m'(tHash t' \<mapsto> st t')"
      by (cases r) (auto simp: inserts_def)
    with live [OF this(1)] show ?thesis by auto
  next
    case (EvConsumeToken k at r)
    with assms live show ?thesis
      by (cases r) (auto simp: consumes_def split: if_splits)
  next
    case (EvRevokeToken k r)
    with assms live show ?thesis by auto
  next
    case (EvRevokeGrant g' r)
    with assms(1,4) obtain m' where "evolves now tExpiresAt m m'"
        and "m1 h = m' h \<or> (\<exists>t'. m' h = Some t' \<and> tGrantID t' = g')" and "g' \<noteq> tGrantID t"
      by (auto simp: revokes_grant_def)
    with live [OF this(1)] show ?thesis by auto
  qed (use assms live in \<open>auto simp: loads_def\<close>)
qed

section \<open>The contract\<close>

locale storage_contract =
  fixes I :: "'s iface"
    and reqs :: "'s \<Rightarrow> string \<Rightarrow> AuthorizationRequest option"
    and toks :: "'s \<Rightarrow> string \<Rightarrow> Token option"
    and claimed :: "'s \<Rightarrow> string \<Rightarrow> time option"
    and clock :: "'s \<Rightarrow> time"
    and stored_req :: "AuthorizationRequest \<Rightarrow> AuthorizationRequest"
    and stored_tok :: "Token \<Rightarrow> Token"
  assumes create_request:
      "ifCreateRequest I q s = (r, s1) \<Longrightarrow>
         inserts (clock s) arExpiresAt (arID q) (stored_req q) r (reqs s) (reqs s1) \<and>
         evolves (clock s) tExpiresAt (toks s) (toks s1) \<and>
         evolves (clock s) id (claimed s) (claimed s1) \<and> clock s \<le> clock s1"
    and load_request:
      "ifLoadRequest I i s = (qr, s1) \<Longrightarrow>
         loads (clock s) arExpiresAt i qr (reqs s) (reqs s1) \<and>
         evolves (clock s) tExpiresAt (toks s) (toks s1) \<and>
         evolves (clock s) id (claimed s) (claimed s1) \<and> clock s \<le> clock s1"
    and delete_request:
      "ifDeleteRequest I i s = (r, s1) \<Longrightarrow>
         removes (clock s) arExpiresAt i r (reqs s) (reqs s1) \<and>
         evolves (clock s) tExpiresAt (toks s) (toks s1) \<and>
         evolves (clock s) id (claimed s) (claimed s1) \<and> clock s \<le> clock s1"
    and create_token:
      "ifCreateToken I t s = (r, s1) \<Longrightarrow>
         inserts (clock s) tExpiresAt (tHash t) (stored_tok t) r (toks s) (toks s1) \<and>
         evolves (clock s) arExpiresAt (reqs s) (reqs s1) \<and>
         evolves (clock s) id (claimed s) (claimed s1) \<and> clock s \<le> clock s1"
    and load_token:
      "ifLoadToken I h s = (tr, s1) \<Longrightarrow>
         loads (clock s) tExpiresAt h tr (toks s) (toks s1) \<and>
         evolves (clock s) arExpiresAt (reqs s) (reqs s1) \<and>
         evolves (clock s) id (claimed s) (claimed s1) \<and> clock s \<le> clock s1"
    and consume_token:
      "ifConsumeToken I h at s = (tr, s1) \<Longrightarrow>
         consumes (clock s) h at tr (toks s) (toks s1) \<and>
         evolves (clock s) arExpiresAt (reqs s) (reqs s1) \<and>
         evolves (clock s) id (claimed s) (claimed s1) \<and> clock s \<le> clock s1"
    and revoke_token:
      "ifRevokeToken I h s = (r, s1) \<Longrightarrow>
         (\<exists>m. evolves (clock s) tExpiresAt (toks s) m \<and>
            (toks s1 = m(h := None) \<or> r \<noteq> None \<and> toks s1 = m)) \<and>
         evolves (clock s) arExpiresAt (reqs s) (reqs s1) \<and>
         evolves (clock s) id (claimed s) (claimed s1) \<and> clock s \<le> clock s1"
    and revoke_grant:
      "ifRevokeGrant I g s = (r, s1) \<Longrightarrow>
         revokes_grant (clock s) g r (toks s) (toks s1) \<and>
         evolves (clock s) arExpiresAt (reqs s) (reqs s1) \<and>
         evolves (clock s) id (claimed s) (claimed s1) \<and> clock s \<le> clock s1"
    and claim_once:
      "ifClaimOnce I c e s = (r, s1) \<Longrightarrow>
         claims_once (clock s) c e r (claimed s) (claimed s1) \<and>
         evolves (clock s) arExpiresAt (reqs s) (reqs s1) \<and>
         evolves (clock s) tExpiresAt (toks s) (toks s1) \<and> clock s \<le> clock s1"
    and client_lookup:
      "ifClient I i c s = (cr, s1) \<Longrightarrow>
         evolves (clock s) arExpiresAt (reqs s) (reqs s1) \<and>
         evolves (clock s) tExpiresAt (toks s) (toks s1) \<and>
         evolves (clock s) id (claimed s) (claimed s1) \<and> clock s \<le> clock s1"
    and read_clock:
      "ifNow I s = (n, s1) \<Longrightarrow>
         n = clock s \<and> reqs s1 = reqs s \<and> toks s1 = toks s \<and> claimed s1 = claimed s \<and>
         clock s \<le> clock s1"
    and read_random:
      "ifRand I s = (b, s1) \<Longrightarrow>
         length b = 32 \<and> reqs s1 = reqs s \<and> toks s1 = toks s \<and> claimed s1 = claimed s \<and>
         clock s \<le> clock s1"
    and stored_tok_keys:
      "is_ascii (tHash t) \<Longrightarrow> tHash (stored_tok t) = tHash t"
      "is_ascii (tGrantID t) \<Longrightarrow> tGrantID (stored_tok t) = tGrantID t"
      "tConsumedAt (stored_tok t) = tConsumedAt t"
      "tExpiresAt (stored_tok t) = tExpiresAt t"
begin

lemma rand32: "rand32 I"
  unfolding rand32_def using read_random by (metis prod.collapse)

lemma serve_toks:
  assumes "serve I ev s = Some s1"
  shows "tok_effect stored_tok ev (clock s) (toks s) (toks s1)"
  using assms
  by (cases ev)
    (auto simp: answered_Some dest!: create_request load_request delete_request create_token
      load_token consume_token revoke_token revoke_grant claim_once client_lookup read_clock
      read_random)

lemma serve_reqs:
  assumes "serve I ev s = Some s1"
  shows "req_effect stored_req ev (clock s) (reqs s) (reqs s1)"
  using assms
  by (cases ev)
    (auto simp: answered_Some dest!: create_request load_request delete_request create_token
      load_token consume_token revoke_token revoke_grant claim_once client_lookup read_clock
      read_random)

lemma serve_clock: "serve I ev s = Some s1 \<Longrightarrow> clock s \<le> clock s1"
  by (cases ev)
    (auto simp: answered_Some dest!: create_request load_request delete_request create_token
      load_token consume_token revoke_token revoke_grant claim_once client_lookup read_clock
      read_random)

lemma serves_clock: "serves I log s = Some s1 \<Longrightarrow> clock s \<le> clock s1"
  by (induction log arbitrary: s)
    (auto split: option.splits dest: serve_clock intro: order_trans)

lemma serves_spent:
  "serves I log s = Some s1 \<Longrightarrow> spent (toks s) h \<Longrightarrow> \<forall>ev \<in> set log. \<not> creates_token h ev \<Longrightarrow>
     spent (toks s1) h"
  by (induction log arbitrary: s)
    (auto split: option.splits dest: serve_toks tok_effect_spent)

lemma serves_spent_consumes:
  "serves I log s = Some s1 \<Longrightarrow> spent (toks s) h \<Longrightarrow>
     \<forall>ev \<in> set log. \<not> creates_token h ev \<and> \<not> zero_consume ev \<Longrightarrow>
     filter (consumes_token h) log = []"
  by (induction log arbitrary: s)
    (auto split: option.splits dest: serve_toks tok_effect_spent tok_effect_consumes)

text \<open>In any run in which no token with the hash is created, at most one call consumes it.\<close>

lemma consume_once:
  "serves I log s = Some s1 \<Longrightarrow>
     \<forall>ev \<in> set log. \<not> creates_token h ev \<and> \<not> zero_consume ev \<Longrightarrow>
     length (filter (consumes_token h) log) \<le> 1"
proof (induction log arbitrary: s)
  case (Cons ev log)
  then obtain s' where ev: "serve I ev s = Some s'" and log: "serves I log s' = Some s1"
    by (auto split: option.splits)
  show ?case
  proof (cases "consumes_token h ev")
    case True
    then have "spent (toks s') h"
      using tok_effect_consumes [OF serve_toks [OF ev]] Cons.prems(2) by auto
    then show ?thesis using serves_spent_consumes [OF log] Cons.prems(2) True by auto
  next
    case False
    then show ?thesis using Cons.IH [OF log] Cons.prems(2) by auto
  qed
qed simp

text \<open>A pending request is deleted once, until a request with its ID is created.\<close>

lemma serves_deleted:
  "serves I log s = Some s1 \<Longrightarrow> reqs s i = None \<Longrightarrow> \<forall>ev \<in> set log. \<not> creates_request i ev \<Longrightarrow>
     reqs s1 i = None \<and> filter (deletes_request i) log = []"
proof (induction log arbitrary: s)
  case (Cons ev log)
  then obtain s' where ev: "serve I ev s = Some s'" and log: "serves I log s' = Some s1"
    by (auto split: option.splits)
  have "reqs s' i = None" "\<not> deletes_request i ev"
    using req_effect_gone [OF serve_reqs [OF ev]] Cons.prems by auto
  then show ?case using Cons.IH [OF log] Cons.prems(3) by auto
qed simp

lemma delete_once:
  "serves I log s = Some s1 \<Longrightarrow> \<forall>ev \<in> set log. \<not> creates_request i ev \<Longrightarrow>
     length (filter (deletes_request i) log) \<le> 1"
proof (induction log arbitrary: s)
  case (Cons ev log)
  then obtain s' where ev: "serve I ev s = Some s'" and log: "serves I log s' = Some s1"
    by (auto split: option.splits)
  show ?case
  proof (cases "deletes_request i ev")
    case True
    then have "reqs s' i = None" using req_effect_deletes [OF serve_reqs [OF ev]] by auto
    then show ?thesis using serves_deleted [OF log] Cons.prems(2) True by auto
  next
    case False
    then show ?thesis using Cons.IH [OF log] Cons.prems(2) by auto
  qed
qed simp

text \<open>A revoked grant has no tokens until one is created, and so none is loaded or consumed.\<close>

lemma serves_grant_gone:
  "serves I log s = Some s1 \<Longrightarrow> grant_gone (toks s) g \<Longrightarrow>
     \<forall>ev \<in> set log. \<not> creates_grant_token stored_tok g ev \<Longrightarrow>
     grant_gone (toks s1) g \<and> (\<forall>ev \<in> set log. \<not> yields_grant_token g ev)"
proof (induction log arbitrary: s)
  case (Cons ev log)
  then obtain s' where ev: "serve I ev s = Some s'" and log: "serves I log s' = Some s1"
    by (auto split: option.splits)
  have "grant_gone (toks s') g" "\<not> yields_grant_token g ev"
    using tok_effect_grant_gone [OF serve_toks [OF ev]] Cons.prems by auto
  then show ?case using Cons.IH [OF log] Cons.prems(3) by auto
qed simp

lemma revoke_grant_gone:
  "serve I (EvRevokeGrant g None) s = Some s1 \<Longrightarrow> is_ascii g \<Longrightarrow> grant_gone (toks s1) g"
  using tok_effect_revokes [OF serve_toks] by blast

text \<open>A stored token was there before, until one with its hash is created.\<close>

lemma serves_origin:
  "serves I log s = Some s1 \<Longrightarrow> toks s1 h = Some t \<Longrightarrow> \<forall>ev \<in> set log. \<not> creates_token h ev \<Longrightarrow>
     \<exists>t0. toks s h = Some t0 \<and> tGrantID t0 = tGrantID t"
proof (induction log arbitrary: s)
  case (Cons ev log)
  then obtain s' where ev: "serve I ev s = Some s'" and log: "serves I log s' = Some s1"
    by (auto split: option.splits)
  obtain t1 where t1: "toks s' h = Some t1" "tGrantID t1 = tGrantID t"
    using Cons.IH [OF log Cons.prems(2)] Cons.prems(3) by auto
  have "\<not> creates_token h ev" using Cons.prems(3) by simp
  from tok_effect_origin [OF serve_toks [OF ev] t1(1) this] t1(2) show ?case by simp
qed auto

lemma serves_yields:
  assumes "serves I log s = Some s1" and "ev \<in> set log" and "yields_token h t ev"
    and "\<forall>ev \<in> set log. \<not> creates_token h ev"
  shows "\<exists>t0. toks s h = Some t0 \<and> tGrantID t0 = tGrantID t"
proof -
  obtain l m where log: "log = l @ ev # m" using split_list [OF assms(2)] by blast
  then obtain s2 s3 where s2: "serves I l s = Some s2" and ev: "serve I ev s2 = Some s3"
    using assms(1) by (auto simp: serves_append split: option.splits)
  have t: "toks s2 h = Some t" using tok_effect_yields [OF serve_toks [OF ev] assms(3)] .
  show ?thesis using serves_origin [OF s2 t] assms(4) log by auto
qed

text \<open>Once its grant is revoked, a token is neither loaded nor consumed again.\<close>

lemma revoked_not_yielded:
  assumes "serves I (l @ EvRevokeGrant g None # m) s = Some s1" and "is_ascii g"
    and "\<forall>ev \<in> set (l @ m). \<not> creates_token h ev"
    and "ev \<in> set (l @ m)" and "yields_token h t ev" and "tGrantID t = g"
  shows "\<forall>ev \<in> set m. \<forall>u. \<not> yields_token h u ev"
proof (intro ballI allI notI)
  fix ev' u assume ev': "ev' \<in> set m" "yields_token h u ev'"
  define log where "log = l @ EvRevokeGrant g None # m"
  have no: "\<forall>ev \<in> set log. \<not> creates_token h ev" using assms(3) by (auto simp: log_def)
  obtain t0 where t0: "toks s h = Some t0" "tGrantID t0 = g"
    using serves_yields [OF assms(1) [folded log_def] _ assms(5) no] assms(4,6)
    by (auto simp: log_def)
  obtain t1 where t1: "toks s h = Some t1" "tGrantID t1 = tGrantID u"
    using serves_yields [OF assms(1) [folded log_def] _ ev'(2) no] ev'(1) by (auto simp: log_def)
  obtain s2 s3 where s3: "serve I (EvRevokeGrant g None) s2 = Some s3"
      and m: "serves I m s3 = Some s1"
    using assms(1) by (auto simp: serves_append split: option.splits)
  obtain t3 where "toks s3 h = Some t3" "tGrantID t3 = tGrantID u"
    using serves_yields [OF m ev'] assms(3) by auto
  then show False
    using revoke_grant_gone [OF s3 assms(2)] t0 t1 by (auto simp: grant_gone_def)
qed

text \<open>A token created before its grant is revoked is gone afterwards.\<close>

lemma revoked_created_gone:
  assumes "serves I (k @ EvCreateToken u None # l @ EvRevokeGrant g None # m) s = Some s1"
    and "tGrantID u = g" and "is_ascii g"
    and "\<forall>ev \<in> set (l @ m). \<not> creates_token (tHash u) ev"
  shows "toks s1 (tHash u) = None"
proof (rule ccontr)
  assume "toks s1 (tHash u) \<noteq> None"
  then obtain v where v: "toks s1 (tHash u) = Some v" by blast
  obtain s2 s3 s4 s5 where c: "serve I (EvCreateToken u None) s2 = Some s3"
      and l: "serves I l s3 = Some s4" and r: "serve I (EvRevokeGrant g None) s4 = Some s5"
      and m: "serves I m s5 = Some s1"
    using assms(1) by (auto simp: serves_append split: option.splits)
  obtain v5 where v5: "toks s5 (tHash u) = Some v5" "tGrantID v5 = tGrantID v"
    using serves_origin [OF m v] assms(4) by auto
  obtain v4 where v4: "toks s4 (tHash u) = Some v4" "tGrantID v4 = tGrantID v5"
    using tok_effect_origin [OF serve_toks [OF r] v5(1)] by auto
  obtain v3 where v3: "toks s3 (tHash u) = Some v3" "tGrantID v3 = tGrantID v4"
    using serves_origin [OF l v4(1)] assms(4) by auto
  have "v3 = stored_tok u" using tok_effect_created [OF serve_toks [OF c]] v3(1) by simp
  then have "tGrantID v3 = g" using assms(2,3) stored_tok_keys(2) by simp
  then show False
    using revoke_grant_gone [OF r assms(3)] v5 v4(2) v3(2) by (auto simp: grant_gone_def)
qed

text \<open>A live token stays as it is through calls that neither consume nor revoke it.\<close>

lemma serves_keeps:
  "serves I log s = Some s1 \<Longrightarrow> toks s h = Some t \<Longrightarrow> clock s1 \<le> tExpiresAt t \<Longrightarrow>
     \<forall>ev \<in> set log. \<not> uses_up h (tGrantID t) ev \<Longrightarrow> toks s1 h = Some t"
proof (induction log arbitrary: s)
  case (Cons ev log)
  then obtain s' where ev: "serve I ev s = Some s'" and log: "serves I log s' = Some s1"
    by (auto split: option.splits)
  have "clock s \<le> tExpiresAt t"
    using serve_clock [OF ev] serves_clock [OF log] Cons.prems(3) by simp
  then have "toks s' h = Some t"
    using tok_effect_keeps [OF serve_toks [OF ev]] Cons.prems by auto
  then show ?case using Cons.IH [OF log] Cons.prems by auto
qed simp

end

end
