(* ===== verification/Grantor_Memory.thy ===== *)
theory Grantor_Memory
  imports Grantor_Storage
begin

text \<open>
  memory/memory.go: the in-memory \<^verbatim>\<open>Store\<close>, and the proof that it keeps the storage contract. A Go
  map is a partial function. Every method holds the mutex, so that each is one step. The clock of
  the process, which both the store and the provider read, is part of the world, as is the random
  source: \<open>wTicks\<close> says how far the clock moves after each reading of the provider, and \<open>wRandom\<close>
  what the random source returns next.
\<close>

section \<open>Records through JSON\<close>

text \<open>
  \<^verbatim>\<open>clone\<close> marshals and unmarshals a record: strings become valid UTF-8, decoded JSON values stay,
  and unexported fields are lost. Records of the provider hold decoded JSON only, for which Marshal
  does not fail.
\<close>

definition clone_strings :: "string list \<Rightarrow> string list" where
  "clone_strings = map json_string"

definition clone_claim_request :: "ClaimRequest \<Rightarrow> ClaimRequest" where
  "clone_claim_request r =
     \<lparr>crEssential = crEssential r, crValue = json_roundtrip (crValue r),
      crValues = map json_roundtrip (crValues r)\<rparr>"

definition clone_claim_map :: "claim_map \<Rightarrow> claim_map" where
  "clone_claim_map = map (\<lambda>(n, r). (json_string n, map_option clone_claim_request r))"

definition clone_claims :: "ClaimsRequest \<Rightarrow> ClaimsRequest" where
  "clone_claims c =
     \<lparr>cqUserInfo = clone_claim_map (cqUserInfo c), cqIDToken = clone_claim_map (cqIDToken c)\<rparr>"

definition clone_request :: "AuthorizationRequest \<Rightarrow> AuthorizationRequest" where
  "clone_request r =
     \<lparr>arID = json_string (arID r),
      arIssuer = json_string (arIssuer r),
      arClientID = json_string (arClientID r),
      arRedirectURI = json_string (arRedirectURI r),
      arRedirectURIInRequest = arRedirectURIInRequest r,
      arResponseType = json_string (arResponseType r),
      arResponseMode = json_string (arResponseMode r),
      arState = json_string (arState r),
      arScopes = clone_strings (arScopes r),
      arCodeChallenge = json_string (arCodeChallenge r),
      arCodeChallengeMethod = json_string (arCodeChallengeMethod r),
      arNonce = json_string (arNonce r),
      arPrompt = clone_strings (arPrompt r),
      arMaxAge = arMaxAge r,
      arDisplay = json_string (arDisplay r),
      arUILocales = clone_strings (arUILocales r),
      arClaimsLocales = clone_strings (arClaimsLocales r),
      arLoginHint = json_string (arLoginHint r),
      arACRValues = clone_strings (arACRValues r),
      arRequestedSubject = json_string (arRequestedSubject r),
      arClaims = map_option clone_claims (arClaims r),
      arAudience = clone_strings (arAudience r),
      arPushed = arPushed r,
      arExtra = map (\<lambda>(k, v). (json_string k, json_string v)) (arExtra r),
      arBindingHash = json_string (arBindingHash r),
      arParsed = False,
      arPushedBy = [],
      arRedeemed = False,
      arCreatedAt = arCreatedAt r,
      arExpiresAt = arExpiresAt r\<rparr>"

definition clone_token :: "Token \<Rightarrow> Token" where
  "clone_token t =
     \<lparr>tHash = json_string (tHash t),
      tKind = tKind t,
      tGrantID = json_string (tGrantID t),
      tIssuer = json_string (tIssuer t),
      tClientID = json_string (tClientID t),
      tSubject = json_string (tSubject t),
      tScopes = clone_strings (tScopes t),
      tAuthTime = tAuthTime t,
      tACR = json_string (tACR t),
      tAMR = clone_strings (tAMR t),
      tClaims = map_option clone_claims (tClaims t),
      tAudience = clone_strings (tAudience t),
      tAccessTokenClaims = json_map_roundtrip (tAccessTokenClaims t),
      tRedirectURI = json_string (tRedirectURI t),
      tRedirectURIInRequest = tRedirectURIInRequest t,
      tNonce = json_string (tNonce t),
      tCodeChallenge = json_string (tCodeChallenge t),
      tCodeChallengeMethod = json_string (tCodeChallengeMethod t),
      tCreatedAt = tCreatedAt t,
      tExpiresAt = tExpiresAt t,
      tConsumedAt = tConsumedAt t\<rparr>"

definition clone_client :: "Client \<Rightarrow> Client" where
  "clone_client c =
     c\<lparr>cID := json_string (cID c), cAuthMethod := json_string (cAuthMethod c),
       cRedirectURIs := clone_strings (cRedirectURIs c),
       cGrantTypes := clone_strings (cGrantTypes c), cScopes := clone_strings (cScopes c),
       cPKCE := json_string (cPKCE c), cIDTokenSigningAlg := json_string (cIDTokenSigningAlg c),
       cAccessTokenFormat := json_string (cAccessTokenFormat c),
       cAccessTokenSigningAlg := json_string (cAccessTokenSigningAlg c),
       cAudience := clone_strings (cAudience c)\<rparr>"

section \<open>The store\<close>

record Store =
  msClients :: "(string \<times> string) \<Rightarrow> Client option"
  msRequests :: "string \<Rightarrow> AuthorizationRequest option"
  msTokens :: "string \<Rightarrow> Token option"
  msClaims :: "string \<Rightarrow> time option"
  msLastCollection :: time

definition store_New :: Store where
  "store_New =
     \<lparr>msClients = Map.empty, msRequests = Map.empty, msTokens = Map.empty, msClaims = Map.empty,
      msLastCollection = 0\<rparr>"

definition store_SetClient :: "string \<Rightarrow> Client \<Rightarrow> Store \<Rightarrow> Store" where
  "store_SetClient issuer c s =
     s\<lparr>msClients := (msClients s)((issuer, cID c) \<mapsto> clone_client c)\<rparr>"

definition drop_expired :: "time \<Rightarrow> ('r \<Rightarrow> time) \<Rightarrow> (string \<Rightarrow> 'r option) \<Rightarrow> (string \<Rightarrow> 'r option)" where
  "drop_expired now exp m =
     (\<lambda>k. case m k of None \<Rightarrow> None | Some r \<Rightarrow> if time_After now (exp r) then None else Some r)"

definition store_collectLocked :: "time \<Rightarrow> Store \<Rightarrow> Store" where
  "store_collectLocked now s =
     (if time_Sub now (msLastCollection s) < minute then s
      else s\<lparr>msLastCollection := now,
             msRequests := drop_expired now arExpiresAt (msRequests s),
             msTokens := drop_expired now tExpiresAt (msTokens s),
             msClaims := drop_expired now id (msClaims s)\<rparr>)"

definition store_Client :: "string \<Rightarrow> string \<Rightarrow> Store \<Rightarrow> (goerr + Client option)" where
  "store_Client issuer clientID s =
     (case msClients s (issuer, clientID) of
        None \<Rightarrow> Inl ErrNotFound
      | Some c \<Rightarrow> Inr (Some (clone_client c)))"

definition store_CreateAuthorizationRequest ::
  "time \<Rightarrow> AuthorizationRequest \<Rightarrow> Store \<Rightarrow> goerr option \<times> Store" where
  "store_CreateAuthorizationRequest now req s =
     (let s = store_collectLocked now s in
      case msRequests s (arID req) of
        Some _ \<Rightarrow> (Some ErrConflict, s)
      | None \<Rightarrow> (None, s\<lparr>msRequests := (msRequests s)(arID req \<mapsto> clone_request req)\<rparr>))"

definition store_AuthorizationRequest ::
  "string \<Rightarrow> Store \<Rightarrow> (goerr + AuthorizationRequest) \<times> Store" where
  "store_AuthorizationRequest i s =
     (case msRequests s i of
        None \<Rightarrow> (Inl ErrNotFound, s)
      | Some req \<Rightarrow> (Inr (clone_request req), s))"

definition store_DeleteAuthorizationRequest :: "string \<Rightarrow> Store \<Rightarrow> goerr option \<times> Store" where
  "store_DeleteAuthorizationRequest i s =
     (case msRequests s i of
        None \<Rightarrow> (Some ErrNotFound, s)
      | Some _ \<Rightarrow> (None, s\<lparr>msRequests := (msRequests s)(i := None)\<rparr>))"

definition store_CreateToken :: "time \<Rightarrow> Token \<Rightarrow> Store \<Rightarrow> goerr option \<times> Store" where
  "store_CreateToken now t s =
     (let s = store_collectLocked now s in
      case msTokens s (tHash t) of
        Some _ \<Rightarrow> (Some ErrConflict, s)
      | None \<Rightarrow> (None, s\<lparr>msTokens := (msTokens s)(tHash t \<mapsto> clone_token t)\<rparr>))"

definition store_tokenLocked :: "string \<Rightarrow> Store \<Rightarrow> goerr + Token" where
  "store_tokenLocked h s =
     (case msTokens s h of None \<Rightarrow> Inl ErrNotFound | Some t \<Rightarrow> Inr t)"

definition store_Token :: "string \<Rightarrow> Store \<Rightarrow> (goerr + Token) \<times> Store" where
  "store_Token h s =
     (case store_tokenLocked h s of
        Inl err \<Rightarrow> (Inl err, s)
      | Inr t \<Rightarrow> (Inr (clone_token t), s))"

definition store_ConsumeToken :: "string \<Rightarrow> time \<Rightarrow> Store \<Rightarrow> (goerr + Token) \<times> Store" where
  "store_ConsumeToken h now s =
     (case store_tokenLocked h s of
        Inl err \<Rightarrow> (Inl err, s)
      | Inr t \<Rightarrow>
          (Inr (clone_token t),
           if time_IsZero (tConsumedAt t)
           then s\<lparr>msTokens := (msTokens s)(h \<mapsto> t\<lparr>tConsumedAt := now\<rparr>)\<rparr> else s))"

definition store_RevokeToken :: "string \<Rightarrow> Store \<Rightarrow> goerr option \<times> Store" where
  "store_RevokeToken h s = (None, s\<lparr>msTokens := (msTokens s)(h := None)\<rparr>)"

definition store_RevokeGrant :: "string \<Rightarrow> Store \<Rightarrow> goerr option \<times> Store" where
  "store_RevokeGrant g s =
     (None,
      s\<lparr>msTokens := (\<lambda>h. case msTokens s h of
                            None \<Rightarrow> None
                          | Some t \<Rightarrow> if tGrantID t = g then None else Some t)\<rparr>)"

definition store_ClaimOnce :: "time \<Rightarrow> string \<Rightarrow> time \<Rightarrow> Store \<Rightarrow> goerr option \<times> Store" where
  "store_ClaimOnce now key expiresAt s =
     (let s = store_collectLocked now s in
      if (case msClaims s key of None \<Rightarrow> False | Some exp \<Rightarrow> time_Before now exp)
      then (Some ErrConflict, s)
      else (None, s\<lparr>msClaims := (msClaims s)(key \<mapsto> expiresAt)\<rparr>))"

section \<open>The world the provider runs in\<close>

record world =
  wStore :: Store
  wNow :: time
  wTicks :: "nat list"
  wRandom :: "bytes list"

definition on_store :: "(Store \<Rightarrow> 'r \<times> Store) \<Rightarrow> world \<Rightarrow> 'r \<times> world" where
  "on_store f w = (let (r, s) = f (wStore w) in (r, w\<lparr>wStore := s\<rparr>))"

definition world_now :: "world \<Rightarrow> time \<times> world" where
  "world_now w =
     (wNow w,
      case wTicks w of
        [] \<Rightarrow> w
      | d # ds \<Rightarrow> w\<lparr>wNow := wNow w + int d, wTicks := ds\<rparr>)"

definition world_rand :: "world \<Rightarrow> bytes \<times> world" where
  "world_rand w =
     (case wRandom w of
        [] \<Rightarrow> (replicate 32 (char_of (0::nat)), w)
      | b # bs \<Rightarrow> (take 32 (b @ replicate 32 (char_of (0::nat))), w\<lparr>wRandom := bs\<rparr>))"

definition mem :: "world iface" where
  "mem =
     \<lparr>ifCreateRequest = \<lambda>q w. on_store (store_CreateAuthorizationRequest (wNow w) q) w,
      ifLoadRequest = \<lambda>i. on_store (store_AuthorizationRequest i),
      ifDeleteRequest = \<lambda>i. on_store (store_DeleteAuthorizationRequest i),
      ifCreateToken = \<lambda>t w. on_store (store_CreateToken (wNow w) t) w,
      ifLoadToken = \<lambda>h. on_store (store_Token h),
      ifConsumeToken = \<lambda>h now. on_store (store_ConsumeToken h now),
      ifRevokeToken = \<lambda>h. on_store (store_RevokeToken h),
      ifRevokeGrant = \<lambda>g. on_store (store_RevokeGrant g),
      ifClaimOnce = \<lambda>k e w. on_store (store_ClaimOnce (wNow w) k e) w,
      ifClient = \<lambda>i c. on_store (\<lambda>s. (store_Client i c s, s)),
      ifNow = world_now,
      ifRand = world_rand\<rparr>"

section \<open>The store keeps the contract\<close>

text \<open>What a reader sees of the records in the store.\<close>

definition mem_reqs :: "world \<Rightarrow> string \<Rightarrow> AuthorizationRequest option" where
  "mem_reqs w i = map_option clone_request (msRequests (wStore w) i)"

definition mem_toks :: "world \<Rightarrow> string \<Rightarrow> Token option" where
  "mem_toks w h = map_option clone_token (msTokens (wStore w) h)"

definition mem_claimed :: "world \<Rightarrow> string \<Rightarrow> time option" where
  "mem_claimed w = msClaims (wStore w)"

lemma clone_token_sel [simp]:
  "tConsumedAt (clone_token t) = tConsumedAt t" "tExpiresAt (clone_token t) = tExpiresAt t"
  "tGrantID (clone_token t) = json_string (tGrantID t)"
  "tHash (clone_token t) = json_string (tHash t)" "tKind (clone_token t) = tKind t"
  by (simp_all add: clone_token_def)

lemma clone_request_sel [simp]:
  "arExpiresAt (clone_request r) = arExpiresAt r" "\<not> arParsed (clone_request r)"
  "arPushedBy (clone_request r) = []" "\<not> arRedeemed (clone_request r)"
  "arPushed (clone_request r) = arPushed r"
  by (simp_all add: clone_request_def)

lemma clone_token_consumed [simp]:
  "clone_token (t\<lparr>tConsumedAt := at\<rparr>) = (clone_token t)\<lparr>tConsumedAt := at\<rparr>"
  by (simp add: clone_token_def)

lemma evolves_drop_expired:
  assumes "\<And>r. exp' (f r) = exp r"
  shows "evolves now exp' (\<lambda>k. map_option f (m k)) (\<lambda>k. map_option f (drop_expired now exp m k))"
  using assms
  by (auto simp: evolves_def drop_expired_def time_After_def split: option.splits)

lemma collect_evolves:
  fixes w w1
  assumes "w1 = w\<lparr>wStore := store_collectLocked (wNow w) (wStore w)\<rparr>"
  shows "evolves (wNow w) arExpiresAt (mem_reqs w) (mem_reqs w1)"
    and "evolves (wNow w) tExpiresAt (mem_toks w) (mem_toks w1)"
    and "evolves (wNow w) id (mem_claimed w) (mem_claimed w1)"
    and "wNow w1 = wNow w"
  unfolding assms mem_reqs_def [abs_def] mem_toks_def [abs_def] mem_claimed_def store_collectLocked_def
  using evolves_drop_expired [of id id id "wNow w" "msClaims (wStore w)"]
  by (auto intro: evolves_drop_expired simp: option.map_id)

lemma mem_sel [simp]:
  "ifCreateRequest mem q w = on_store (store_CreateAuthorizationRequest (wNow w) q) w"
  "ifLoadRequest mem i = on_store (store_AuthorizationRequest i)"
  "ifDeleteRequest mem i = on_store (store_DeleteAuthorizationRequest i)"
  "ifCreateToken mem t w = on_store (store_CreateToken (wNow w) t) w"
  "ifLoadToken mem h = on_store (store_Token h)"
  "ifConsumeToken mem h now = on_store (store_ConsumeToken h now)"
  "ifRevokeToken mem h = on_store (store_RevokeToken h)"
  "ifRevokeGrant mem g = on_store (store_RevokeGrant g)"
  "ifClaimOnce mem k e w = on_store (store_ClaimOnce (wNow w) k e) w"
  "ifClient mem i c = on_store (\<lambda>s. (store_Client i c s, s))"
  "ifNow mem = world_now"
  "ifRand mem = world_rand"
  by (simp_all add: mem_def)

lemmas mem_views = mem_reqs_def mem_toks_def mem_claimed_def

lemma mem_view_upd [simp]:
  "wStore w1 = s\<lparr>msRequests := m\<rparr> \<Longrightarrow> mem_reqs w1 = (\<lambda>i. map_option clone_request (m i))"
  "wStore w1 = s\<lparr>msTokens := mt\<rparr> \<Longrightarrow> mem_toks w1 = (\<lambda>i. map_option clone_token (mt i))"
  by (auto simp: mem_views)

lemma mem_create_request:
  assumes "ifCreateRequest mem q w = (r, w1)"
  shows "inserts (wNow w) arExpiresAt (arID q) (clone_request (clone_request q)) r
           (mem_reqs w) (mem_reqs w1) \<and>
         evolves (wNow w) tExpiresAt (mem_toks w) (mem_toks w1) \<and>
         evolves (wNow w) id (mem_claimed w) (mem_claimed w1) \<and> wNow w \<le> wNow w1"
proof -
  define c where "c = w\<lparr>wStore := store_collectLocked (wNow w) (wStore w)\<rparr>"
  note ev = collect_evolves [OF c_def]
  have "(r = None \<longrightarrow> mem_reqs c (arID q) = None \<and>
           mem_reqs w1 = (mem_reqs c)(arID q \<mapsto> clone_request (clone_request q))) \<and>
        (r \<noteq> None \<longrightarrow> mem_reqs w1 = mem_reqs c) \<and>
        mem_toks w1 = mem_toks c \<and> mem_claimed w1 = mem_claimed c \<and> wNow w1 = wNow w"
    using assms
    by (auto simp: on_store_def store_CreateAuthorizationRequest_def Let_def c_def mem_views
        fun_eq_iff split: option.splits)
  then show ?thesis
    using ev unfolding inserts_def by (cases r) auto
qed

lemma mem_create_token:
  assumes "ifCreateToken mem t w = (r, w1)"
  shows "inserts (wNow w) tExpiresAt (tHash t) (clone_token (clone_token t)) r
           (mem_toks w) (mem_toks w1) \<and>
         evolves (wNow w) arExpiresAt (mem_reqs w) (mem_reqs w1) \<and>
         evolves (wNow w) id (mem_claimed w) (mem_claimed w1) \<and> wNow w \<le> wNow w1"
proof -
  define c where "c = w\<lparr>wStore := store_collectLocked (wNow w) (wStore w)\<rparr>"
  note ev = collect_evolves [OF c_def]
  have "(r = None \<longrightarrow> mem_toks c (tHash t) = None \<and>
           mem_toks w1 = (mem_toks c)(tHash t \<mapsto> clone_token (clone_token t))) \<and>
        (r \<noteq> None \<longrightarrow> mem_toks w1 = mem_toks c) \<and>
        mem_reqs w1 = mem_reqs c \<and> mem_claimed w1 = mem_claimed c \<and> wNow w1 = wNow w"
    using assms
    by (auto simp: on_store_def store_CreateToken_def Let_def c_def mem_views
        fun_eq_iff split: option.splits)
  then show ?thesis
    using ev unfolding inserts_def by (cases r) auto
qed

lemma mem_claim_once:
  assumes "ifClaimOnce mem k e w = (r, w1)"
  shows "claims_once (wNow w) k e r (mem_claimed w) (mem_claimed w1) \<and>
         evolves (wNow w) arExpiresAt (mem_reqs w) (mem_reqs w1) \<and>
         evolves (wNow w) tExpiresAt (mem_toks w) (mem_toks w1) \<and> wNow w \<le> wNow w1"
proof -
  define c where "c = w\<lparr>wStore := store_collectLocked (wNow w) (wStore w)\<rparr>"
  note ev = collect_evolves [OF c_def]
  have "(r = None \<longrightarrow> (\<forall>x. mem_claimed c k = Some x \<longrightarrow> x \<le> wNow w) \<and>
           mem_claimed w1 = (mem_claimed c)(k \<mapsto> e)) \<and>
        (r \<noteq> None \<longrightarrow> mem_claimed w1 = mem_claimed c) \<and>
        mem_reqs w1 = mem_reqs c \<and> mem_toks w1 = mem_toks c \<and> wNow w1 = wNow w"
    using assms
    by (auto simp: on_store_def store_ClaimOnce_def Let_def c_def mem_views time_Before_def
        fun_eq_iff split: option.splits if_splits)
  then show ?thesis
    using ev unfolding claims_once_def by (cases r) auto
qed

lemma mem_consume_token:
  assumes "ifConsumeToken mem h at w = (tr, w1)"
  shows "consumes (wNow w) h at tr (mem_toks w) (mem_toks w1) \<and>
         evolves (wNow w) arExpiresAt (mem_reqs w) (mem_reqs w1) \<and>
         evolves (wNow w) id (mem_claimed w) (mem_claimed w1) \<and> wNow w \<le> wNow w1"
proof -
  have "(case tr of
           Inr t \<Rightarrow> mem_toks w h = Some t \<and> mem_toks w1 = (mem_toks w)(h \<mapsto> mark_consumed at t)
         | Inl e \<Rightarrow> mem_toks w h = None \<and> mem_toks w1 = mem_toks w) \<and>
        mem_reqs w1 = mem_reqs w \<and> mem_claimed w1 = mem_claimed w \<and> wNow w1 = wNow w"
    using assms
    by (auto simp: on_store_def store_ConsumeToken_def store_tokenLocked_def Let_def mem_views
        mark_consumed_def time_IsZero_def fun_eq_iff split: option.splits if_splits)
  then show ?thesis
    unfolding consumes_def by (cases tr) (auto intro!: exI [of _ "mem_toks w"])
qed

lemma mem_revoke_grant:
  assumes "ifRevokeGrant mem g w = (r, w1)"
  shows "revokes_grant (wNow w) g r (mem_toks w) (mem_toks w1) \<and>
         evolves (wNow w) arExpiresAt (mem_reqs w) (mem_reqs w1) \<and>
         evolves (wNow w) id (mem_claimed w) (mem_claimed w1) \<and> wNow w \<le> wNow w1"
proof -
  have toks: "mem_toks w1 h = (case msTokens (wStore w) h of None \<Rightarrow> None
      | Some t \<Rightarrow> if tGrantID t = g then None else Some (clone_token t))" for h
    using assms by (auto simp: on_store_def store_RevokeGrant_def mem_toks_def split: option.splits)
  have asc: "json_string x = g \<longleftrightarrow> x = g" if "is_ascii g" for x
    using that json_string_ascii [of g] json_string_ascii_only [of x] by auto
  have "\<forall>k. mem_toks w1 k = mem_toks w k \<or> mem_toks w1 k = None \<and>
      (is_ascii g \<longrightarrow> (\<exists>t. mem_toks w k = Some t \<and> tGrantID t = g))"
    using asc mem_toks_def [of w] by (auto simp: toks split: option.splits)
  moreover have "is_ascii g \<longrightarrow> grant_gone (mem_toks w1) g"
    using asc by (auto simp: grant_gone_def toks split: option.splits if_splits)
  moreover have "mem_reqs w1 = mem_reqs w" "mem_claimed w1 = mem_claimed w" "wNow w1 = wNow w"
    using assms by (auto simp: on_store_def store_RevokeGrant_def mem_views)
  ultimately show ?thesis
    unfolding revokes_grant_def by (auto intro!: exI [of _ "mem_toks w"])
qed

interpretation memory: storage_contract mem mem_reqs mem_toks mem_claimed wNow
  "\<lambda>q. clone_request (clone_request q)" "\<lambda>t. clone_token (clone_token t)"
proof (unfold_locales, goal_cases)
  case (1 q s r s1)
  then show ?case by (rule mem_create_request)
next
  case (2 i s qr s1)
  then show ?case
    by (auto simp: on_store_def store_AuthorizationRequest_def loads_def mem_views
        split: option.splits)
next
  case (3 i s r s1)
  then have "mem_toks s1 = mem_toks s" "mem_claimed s1 = mem_claimed s" "wNow s1 = wNow s"
    "case r of
       None \<Rightarrow> mem_reqs s i \<noteq> None \<and> mem_reqs s1 = (mem_reqs s)(i := None)
     | Some e \<Rightarrow> e = ErrNotFound \<and> mem_reqs s i = None \<and> mem_reqs s1 = mem_reqs s"
    by (auto simp: on_store_def store_DeleteAuthorizationRequest_def mem_views fun_eq_iff
        split: option.splits)
  then show ?case
    by (cases r) (auto simp: removes_def intro!: exI [of _ "mem_reqs s"])
next
  case (4 t s r s1)
  then show ?case by (rule mem_create_token)
next
  case (5 h s tr s1)
  then show ?case
    by (auto simp: on_store_def store_Token_def store_tokenLocked_def loads_def mem_views
        split: option.splits)
next
  case (6 h at s tr s1)
  then show ?case by (rule mem_consume_token)
next
  case (7 h s r s1)
  then have "mem_reqs s1 = mem_reqs s" "mem_claimed s1 = mem_claimed s" "wNow s1 = wNow s"
    "mem_toks s1 = (mem_toks s)(h := None)"
    by (auto simp: on_store_def store_RevokeToken_def mem_views fun_eq_iff)
  then show ?case by (auto intro!: exI [of _ "mem_toks s"])
next
  case (8 g s r s1)
  then show ?case by (rule mem_revoke_grant)
next
  case (9 c e s r s1)
  then show ?case by (rule mem_claim_once)
next
  case (10 i c s cr s1)
  then show ?case by (auto simp: on_store_def mem_views)
next
  case (11 s n s1)
  then show ?case by (auto simp: world_now_def mem_views split: list.splits)
next
  case (12 s b s1)
  then show ?case by (auto simp: world_rand_def mem_views split: list.splits)
qed (simp_all add: json_string_ascii)

end
