(* ===== verification/Grantor_TokenFacts.thy ===== *)
theory Grantor_TokenFacts
  imports Grantor_Token Grantor_Memory
begin

text \<open>
  What the programs of token.go call, for every answer the storage, the client store, the clock and
  the random source may give: which calls change the storage, in which order, and with which
  records. These facts hold for one request in any environment; Grantor_TokenSafety puts them
  together with the storage contract.
\<close>

section \<open>Calls that change the storage\<close>

definition writes :: "event list \<Rightarrow> event list" where
  "writes log = filter (\<lambda>ev. \<not> is_read ev) log"

lemma writes_simps [simp]:
  "writes [] = []"
  "writes (ev # log) = (if is_read ev then writes log else ev # writes log)"
  "writes (l @ m) = writes l @ writes m"
  by (simp_all add: writes_def)

definition consumes_none :: "event list \<Rightarrow> bool" where
  "consumes_none log \<longleftrightarrow> (\<forall>ev \<in> set log. \<forall>h. \<not> consumes_token h ev)"

lemma consumes_none_simps [simp]:
  "consumes_none []"
  "consumes_none (ev # log) \<longleftrightarrow> (\<forall>h. \<not> consumes_token h ev) \<and> consumes_none log"
  "consumes_none (l @ m) \<longleftrightarrow> consumes_none l \<and> consumes_none m"
  by (auto simp: consumes_none_def)

lemma is_read_not_consumes: "is_read ev \<Longrightarrow> \<not> consumes_token h ev"
  by (cases ev) auto

lemma consumes_none_writes: "writes log = [] \<Longrightarrow> consumes_none log"
  using is_read_not_consumes by (auto simp: consumes_none_def writes_def filter_empty_conv)

definition stored :: "Token list \<Rightarrow> event list" where
  "stored ts = map (\<lambda>t. EvCreateToken t None) ts"

lemma consumes_none_stored [simp]: "consumes_none (stored ts)"
  by (auto simp: consumes_none_def stored_def)

lemma writes_stored [simp]: "writes (stored ts) = stored ts"
  by (induction ts) (auto simp: stored_def)

section \<open>The small steps\<close>

lemma performs_provider_now [simp]: "performs provider_now log n \<longleftrightarrow> log = [EvNow n]"
  by (auto simp: provider_now_def)

lemma performs_randomToken:
  "performs randomToken log v \<longleftrightarrow> (\<exists>b. log = [EvRand b] \<and> length b = 32 \<and> v = randomToken_of b)"
  by (auto simp: randomToken_def)

lemma performs_storage [simp]:
  "performs (storage_Token h) log r1 \<longleftrightarrow> log = [EvLoadToken h r1]"
  "performs (storage_CreateToken t) log r2 \<longleftrightarrow> log = [EvCreateToken t r2]"
  "performs (storage_ConsumeToken h n) log r3 \<longleftrightarrow> log = [EvConsumeToken h n r3]"
  "performs (storage_RevokeToken h) log r4 \<longleftrightarrow> log = [EvRevokeToken h r4]"
  "performs (storage_RevokeGrant g) log r5 \<longleftrightarrow> log = [EvRevokeGrant g r5]"
  by (auto simp: op_defs)

lemma performs_RetE:
  "performs (bindE (Ret x) f) log b \<longleftrightarrow>
     (\<exists>e. x = Inl e \<and> log = [] \<and> b = Inl e) \<or> (\<exists>a. x = Inr a \<and> performs (f a) log b)"
  by (cases x) (auto simp: bindE_def)

lemma singleUseToken_performs:
  assumes "performs (singleUseToken iss client h typ) log r"
  obtains a where "log = [EvLoadToken h a]"
    and "\<And>t. r = Inr t \<longleftrightarrow> a = Inr t \<and> tKind t = typ \<and> tIssuer t = rsURL iss \<and> tClientID t = cID client"
proof -
  from assms obtain a where log: "log = [EvLoadToken h a]"
      and r: "r = (case a of
          Inl err \<Rightarrow> if errors_Is err ErrNotFound then Inl invalid_grant else Inl (errServer err)
        | Inr t \<Rightarrow>
            if tKind t \<noteq> typ \<or> tIssuer t \<noteq> rsURL iss \<or> tClientID t \<noteq> cID client
            then Inl invalid_grant else Inr t)"
    by (auto simp: singleUseToken_def performs_bind simp del: sum.case)
  show ?thesis using r by (intro that [OF log]) (cases a; auto)
qed

lemma revokeReusedGrant_performs:
  assumes "performs (revokeReusedGrant t) log e"
  obtains r where "log = [EvRevokeGrant (tGrantID t) r]"
    and "e = (case r of None \<Rightarrow> invalid_grant | Some err \<Rightarrow> errServer err)"
  using assms by (auto simp: revokeReusedGrant_def performs_bind)

lemma checkUnused_unused:
  "performs (checkUnused t) log r \<Longrightarrow> tConsumedAt t = 0 \<Longrightarrow>
     \<exists>now. log = [EvNow now] \<and> (r = Inr () \<longleftrightarrow> now < tExpiresAt t)"
  by (auto simp: checkUnused_def performs_bind time_IsZero_def time_Before_def)

lemma checkUnused_reused:
  assumes "performs (checkUnused t) log r" and "tConsumedAt t \<noteq> 0"
  obtains a where "log = [EvRevokeGrant (tGrantID t) a]"
    and "r = Inl (case a of None \<Rightarrow> invalid_grant | Some err \<Rightarrow> errServer err)"
proof -
  from assms obtain e where "performs (revokeReusedGrant t) log e" "r = Inl e"
    by (auto simp: checkUnused_def performs_bind time_IsZero_def)
  then show ?thesis by (elim revokeReusedGrant_performs) (auto intro: that)
qed

lemma checkUnused_Inr:
  assumes "performs (checkUnused t) log (Inr u)"
  shows "tConsumedAt t = 0 \<and> (\<exists>now. log = [EvNow now] \<and> now < tExpiresAt t)"
proof (cases "tConsumedAt t = 0")
  case True
  with checkUnused_unused [OF assms] show ?thesis by auto
next
  case False
  from assms False show ?thesis by (rule checkUnused_reused) simp
qed

text \<open>A consumed token, found when it is consumed, is reported and its grant revoked.\<close>

lemma consume_performs:
  assumes "performs (consume h) log r"
  obtains now t where "log = [EvNow now, EvConsumeToken h now (Inr t)]" and "tConsumedAt t = 0"
      and "r = None"
  | now err where "log = [EvNow now, EvConsumeToken h now (Inl err)]" and "r \<noteq> None"
  | now t b where "tConsumedAt t \<noteq> 0" and "r \<noteq> None"
      and "log = [EvNow now, EvConsumeToken h now (Inr t), EvRevokeGrant (tGrantID t) b]"
proof -
  from assms obtain now a m where log: "log = EvNow now # EvConsumeToken h now a # m"
    and rest: "performs (case a of
         Inl err \<Rightarrow> Ret (Some (if errors_Is err ErrNotFound then invalid_grant else errServer err))
       | Inr t \<Rightarrow>
           if \<not> time_IsZero (tConsumedAt t) then bind (revokeReusedGrant t) (\<lambda>e. Ret (Some e))
           else Ret None) m r"
    by (auto simp: consume_def performs_bind simp del: performs_if)
  show ?thesis
  proof (cases a)
    case (Inl err)
    with rest log show ?thesis by (intro that(2) [of now err]) auto
  next
    case (Inr t)
    show ?thesis
    proof (cases "tConsumedAt t = 0")
      case True
      with Inr rest log show ?thesis
        by (intro that(1) [of now t]) (auto simp: time_IsZero_def)
    next
      case False
      with Inr rest obtain e where e: "performs (revokeReusedGrant t) m e" "r = Some e"
        by (auto simp: time_IsZero_def performs_bind)
      from e(1) show ?thesis
      proof (rule revokeReusedGrant_performs)
        fix b assume "m = [EvRevokeGrant (tGrantID t) b]"
        with Inr log False e(2) show ?thesis by (intro that(3) [of t now b]) auto
      qed
    qed
  qed
qed

lemma consume_failed: "performs (consume h) log (Some e) \<Longrightarrow> consumes_none log"
  by (erule consume_performs) auto

lemma storeTokens_performs:
  "performs (storeTokens ts) log r \<Longrightarrow>
     (r = None \<longrightarrow> log = stored ts) \<and>
     (\<forall>e. r = Some e \<longrightarrow> (\<exists>pre t post err. ts = pre @ t # post \<and> e = errServer err \<and>
        log = stored pre @ [EvCreateToken t (Some err)]))"
proof (induction ts arbitrary: log)
  case Nil
  then show ?case by (simp add: stored_def)
next
  case (Cons t ts)
  then obtain a m where log: "log = EvCreateToken t a # m"
      and rest: "performs (case a of Some err \<Rightarrow> Ret (Some (errServer err)) | None \<Rightarrow> storeTokens ts) m r"
    by (auto simp: performs_bind)
  show ?case
  proof (cases a)
    case None
    with rest have "performs (storeTokens ts) m r" by simp
    from Cons.IH [OF this] show ?thesis
      unfolding log None
      by (auto simp: stored_def) (metis append_Cons list.simps(9))
  next
    case (Some err)
    with rest log show ?thesis
      by (auto simp: stored_def intro!: exI [of _ "[]"])
  qed
qed

lemma discardTokens_performs:
  "performs (discardTokens ts) log u \<Longrightarrow> ev \<in> set log \<Longrightarrow>
     \<exists>t \<in> set ts. \<exists>r. ev = EvRevokeToken (tHash t) r"
proof (induction ts arbitrary: log)
  case (Cons t ts)
  from Cons.prems(1) obtain r m where m: "log = EvRevokeToken (tHash t) r # m"
      "performs (discardTokens ts) m u"
    by (auto simp: performs_bind)
  show ?case
  proof (cases "ev \<in> set m")
    case True
    with Cons.IH [OF m(2)] show ?thesis by auto
  next
    case False
    with Cons.prems(2) m(1) show ?thesis by auto
  qed
qed simp

lemma discardTokens_consumes_none: "performs (discardTokens ts) log u \<Longrightarrow> consumes_none log"
  by (auto simp: consumes_none_def dest!: discardTokens_performs)

text \<open>Success stores every record and then consumes the token; failure consumes nothing.\<close>

lemma storeAndConsume_performs:
  assumes "performs (storeAndConsume minted h) log r"
  obtains now t where "log = stored (mtRecords minted) @ [EvNow now, EvConsumeToken h now (Inr t)]"
      and "tConsumedAt t = 0" and "r = Inr (mtResp minted)"
  | e where "r = Inl e" and "consumes_none log"
proof -
  from assms [unfolded storeAndConsume_def] show ?thesis
  proof (rule performs_bind_steps)
    fix l m s
    assume log: "log = l @ m" and st: "performs (storeTokens (mtRecords minted)) l s"
      and rest: "performs (case s of
         Some perr \<Rightarrow> bind (discardTokens (mtRecords minted)) (\<lambda>_. Ret (Inl perr))
       | None \<Rightarrow>
           bind (consume h) (\<lambda>r.
             case r of
               Some perr \<Rightarrow> bind (discardTokens (mtRecords minted)) (\<lambda>_. Ret (Inl perr))
             | None \<Rightarrow> Ret (Inr (mtResp minted)))) m r"
  have l: "consumes_none l"
    using storeTokens_performs [OF st] by (cases s) auto
  show ?thesis
  proof (cases s)
    case (Some perr)
    with rest obtain u where "performs (discardTokens (mtRecords minted)) m u" "r = Inl perr"
      by (auto simp: performs_bind)
    with that(2) l log show ?thesis by (auto dest: discardTokens_consumes_none)
  next
    case None
    with rest obtain m1 m2 c where m: "m = m1 @ m2" and c: "performs (consume h) m1 c"
        and d: "performs (case c of
               Some perr \<Rightarrow> bind (discardTokens (mtRecords minted)) (\<lambda>_. Ret (Inl perr))
             | None \<Rightarrow> Ret (Inr (mtResp minted))) m2 r"
      by (simp only: option.case) (elim performs_bind_steps)
    show ?thesis
    proof (cases c)
      case (Some perr)
      with d obtain u where "performs (discardTokens (mtRecords minted)) m2 u" "r = Inl perr"
        by (auto simp: performs_bind)
      with that(2) l log m consume_failed [OF c [unfolded Some]] show ?thesis
        by (auto dest: discardTokens_consumes_none)
    next
      case None
      with d have r: "r = Inr (mtResp minted)" "m2 = []" by auto
      have "l = stored (mtRecords minted)"
        using storeTokens_performs [OF st] \<open>s = None\<close> by simp
      with c None r log m that(1) show ?thesis
        by (elim consume_performs) auto
    qed
  qed
  qed
qed

section \<open>Minting\<close>

lemma reads_ops [makes_intros]:
  "makes A is_read provider_now" "makes A is_read randomToken" "makes A is_read (storage_Token h)"
  "makes A is_read (clients_Client i c)" "makes A is_read (storage_AuthorizationRequest i)"
  by (simp_all add: op_defs)

lemma reads_writes: "makes (\<lambda>_. True) is_read p \<Longrightarrow> performs p log a \<Longrightarrow> writes log = []"
  using makes_performs by (fastforce simp: writes_def filter_empty_conv)

lemma encodeAccessToken_reads: "makes A is_read (encodeAccessToken p iss client format x)"
  unfolding encodeAccessToken_def by (intro makes_intros)

lemma issueIDToken_reads:
  "makes A is_read (issueIDToken p iss client grant nonce accessToken lifetime extra)"
  unfolding issueIDToken_def by (intro makes_intros)

lemma mintTokens_reads: "makes A is_read (mintTokens p iss client grant plan withID nonce gt)"
  unfolding mintTokens_def
  by (intro makes_intros encodeAccessToken_reads issueIDToken_reads)

text \<open>What minting makes of a plan: the records that will be stored, and the response.\<close>

definition minted_from ::
  "Provider \<Rightarrow> resolvedIssuer \<Rightarrow> Client \<Rightarrow> Token \<Rightarrow> issuePlan \<Rightarrow> bool \<Rightarrow> string \<Rightarrow> mintedTokens \<Rightarrow> bool"
  where
  "minted_from p iss client grant plan withID nonce minted \<longleftrightarrow>
     (\<exists>now value refresh idToken.
        mtRecords minted =
          access_record grant now value plan
          # (if ipRefresh plan then [refresh_record grant now refresh plan] else []) \<and>
        mtResp minted =
          new_response plan value (if ipRefresh plan then refresh else []) idToken \<and>
        (if withID \<and> tSubject grant \<noteq> []
         then \<exists>log. performs (issueIDToken p iss client (access_record grant now value plan) nonce
                     value (ipIDLifetime plan) (ipIDClaims plan)) log (Inr idToken)
         else idToken = []))"

lemma mint_end:
  assumes "performs
     (if withID \<and> tSubject grant \<noteq> []
      then bind idp (\<lambda>r. Ret (case r of
             Inl err \<Rightarrow> Inl (errServer err)
           | Inr idToken \<Rightarrow> Inr \<lparr>mtResp = new_response plan value refresh idToken, mtRecords = rs\<rparr>))
      else Ret (Inr \<lparr>mtResp = new_response plan value refresh [], mtRecords = rs\<rparr>)) log (Inr minted)"
  obtains idToken where "minted = \<lparr>mtResp = new_response plan value refresh idToken, mtRecords = rs\<rparr>"
    and "if withID \<and> tSubject grant \<noteq> [] then \<exists>l. performs idp l (Inr idToken) else idToken = []"
proof (cases "withID \<and> tSubject grant \<noteq> []")
  case True
  with assms have "performs (bind idp (\<lambda>r. Ret (case r of
         Inl err \<Rightarrow> Inl (errServer err)
       | Inr idToken \<Rightarrow> Inr \<lparr>mtResp = new_response plan value refresh idToken, mtRecords = rs\<rparr>)))
      log (Inr minted)" by simp
  then obtain l r where r: "performs idp l r" and eq: "Inr minted = (case r of
         Inl err \<Rightarrow> Inl (errServer err)
       | Inr idToken \<Rightarrow> Inr \<lparr>mtResp = new_response plan value refresh idToken, mtRecords = rs\<rparr>)"
    by (elim performs_bind_steps) (auto simp del: sum.case)
  show ?thesis
  proof (cases r)
    case (Inr idToken)
    with eq r True show ?thesis by (intro that [of idToken]) auto
  qed (use eq in simp)
next
  case False
  with assms that show ?thesis by auto
qed

lemma mintTokens_Inr:
  assumes "performs (mintTokens p iss client grant plan withID nonce gt) log (Inr minted)"
  shows "minted_from p iss client grant plan withID nonce minted"
proof -
  from assms [unfolded mintTokens_def] obtain now i accessToken log1 where
    step: "performs (let access = access_record grant now accessToken plan in
            bind (if ipRefresh plan then bind randomToken (\<lambda>v. Ret (Some v)) else Ret None)
              (\<lambda>refreshToken.
            (let records =
                   access # (case refreshToken of
                               Some v \<Rightarrow> [refresh_record grant now v plan] | None \<Rightarrow> []);
                 refresh = (case refreshToken of Some v \<Rightarrow> v | None \<Rightarrow> [])
             in if withID \<and> tSubject grant \<noteq> []
                then bind (issueIDToken p iss client access nonce accessToken (ipIDLifetime plan)
                            (ipIDClaims plan)) (\<lambda>r. Ret
                  (case r of
                     Inl err \<Rightarrow> Inl (errServer err)
                   | Inr idToken \<Rightarrow>
                       Inr \<lparr>mtResp = new_response plan accessToken refresh idToken,
                            mtRecords = records\<rparr>))
                else Ret (Inr \<lparr>mtResp = new_response plan accessToken refresh [],
                               mtRecords = records\<rparr>)))) log1 (Inr minted)"
    by (elim performs_bind_steps) (auto simp: performs_cases(1) simp del: performs_if)
  define access where "access = access_record grant now accessToken plan"
  from step obtain l v log2 where
    v: "performs (if ipRefresh plan then bind randomToken (\<lambda>v. Ret (Some v)) else Ret None) l v"
    and rest: "performs
     (if withID \<and> tSubject grant \<noteq> []
      then bind (issueIDToken p iss client access nonce accessToken (ipIDLifetime plan) (ipIDClaims plan))
            (\<lambda>r. Ret (case r of
             Inl err \<Rightarrow> Inl (errServer err)
           | Inr idToken \<Rightarrow>
               Inr \<lparr>mtResp = new_response plan accessToken (case v of Some v \<Rightarrow> v | None \<Rightarrow> []) idToken,
                    mtRecords = access # (case v of Some v \<Rightarrow> [refresh_record grant now v plan]
                                          | None \<Rightarrow> [])\<rparr>))
      else Ret (Inr \<lparr>mtResp = new_response plan accessToken (case v of Some v \<Rightarrow> v | None \<Rightarrow> []) [],
                    mtRecords = access # (case v of Some v \<Rightarrow> [refresh_record grant now v plan]
                                          | None \<Rightarrow> [])\<rparr>)) log2 (Inr minted)"
    unfolding Let_def access_def by (elim performs_bind_steps)
  from v obtain refresh where "v = (if ipRefresh plan then Some refresh else None)"
    by (auto simp: performs_bind split: if_split_asm)
  with rest show ?thesis
  proof (elim mint_end, goal_cases)
    case (1 idToken)
    then show ?case
      unfolding minted_from_def access_def
      by (intro exI [of _ now] exI [of _ accessToken] exI [of _ refresh] exI [of _ idToken])
        (auto split: if_split)
  qed
qed

section \<open>Exchanges of single-use tokens\<close>

text \<open>
  What a successful exchange of a single-use token established and did: the token was loaded, was
  unused, unexpired and the client's; the plan was made from its scopes; the minted records were
  stored, and then the token was consumed by this exchange. Between the load and the first record
  it only read.
\<close>

definition redeems ::
  "Provider \<Rightarrow> TokenRequest \<Rightarrow> Client \<Rightarrow> TokenKind \<Rightarrow> string \<Rightarrow> Token \<Rightarrow> bool \<Rightarrow> issuePlan \<Rightarrow>
     mintedTokens \<Rightarrow> event list \<Rightarrow> bool" where
  "redeems p req client kind h t withRefresh plan minted log \<longleftrightarrow>
     tKind t = kind \<and> tIssuer t = rsURL (the (tr_iss req)) \<and> tClientID t = cID client \<and>
     tConsumedAt t = 0 \<and> checkClientGrant client t = None \<and>
     (\<exists>scopes. narrowScopes (tScopes t) (tr_scopes req) = Inr scopes \<and>
        planIssuance (pvCfg p) req client t scopes withRefresh = Inr plan) \<and>
     (\<exists>now l later t'.
        log = EvLoadToken h (Inr t) # EvNow now # l @ stored (mtRecords minted)
              @ [EvNow later, EvConsumeToken h later (Inr t')] \<and>
        now < tExpiresAt t \<and> writes l = [] \<and> tConsumedAt t' = 0)"

lemma check_error_Inr [simp]: "check_error e = Inr u \<longleftrightarrow> e = None"
  by (cases e) (auto simp: check_error_def)

lemma check_error_Inl [simp]: "check_error e = Inl x \<longleftrightarrow> e = Some x"
  by (cases e) (auto simp: check_error_def)

text \<open>The steps of a program that returned a value.\<close>

lemma success_check:
  assumes "performs (bindE (Ret (check_error e)) f) log (Inr b)"
  obtains "e = None" and "performs (f ()) log (Inr b)"
  using assms by (cases e) (auto simp: bindE_def check_error_def)

lemma success_Ret:
  assumes "performs (bindE (Ret x) f) log (Inr b)"
  obtains a where "x = Inr a" and "performs (f a) log (Inr b)"
  using assms by (cases x) (auto simp: bindE_def)

lemma success_step:
  assumes "performs (bindE p f) log (Inr b)"
  obtains l m a where "log = l @ m" and "performs p l (Inr a)" and "performs (f a) m (Inr b)"
  using assms unfolding performs_bindE_Inr by (elim exE conjE)

lemmas success_steps = success_check success_Ret success_step

lemma storeAndConsume_Inr:
  assumes "performs (storeAndConsume minted h) log (Inr resp)"
  obtains now t where "log = stored (mtRecords minted) @ [EvNow now, EvConsumeToken h now (Inr t)]"
    and "tConsumedAt t = 0" and "resp = mtResp minted"
  using assms by (elim storeAndConsume_performs) auto

text \<open>The end of both exchanges, from the plan on.\<close>

lemma mint_and_consume_Inr:
  assumes "performs (mintTokens p iss client t plan withID nonce gt) l (Inr minted)"
    and "performs (storeAndConsume minted h) m (Inr resp)"
  obtains later t' where "minted_from p iss client t plan withID nonce minted"
    and "l @ m = l @ stored (mtRecords minted) @ [EvNow later, EvConsumeToken h later (Inr t')]"
    and "writes l = []" and "tConsumedAt t' = 0" and "resp = mtResp minted"
  using assms(2) reads_writes [OF mintTokens_reads assms(1)] mintTokens_Inr [OF assms(1)] that
  by (elim storeAndConsume_Inr) simp

lemma exchangeAuthorizationCode_Inr:
  assumes "performs (exchangeAuthorizationCode p req client) log (Inr resp)"
  obtains t plan minted where
    "client_allowsGrant client GrantTypeAuthorizationCode"
    and "check_code t (values_Get (trForm req) ''redirect_uri'')
           (values_Get (trForm req) ''code_verifier'') = None"
    and "redeems p req client TokenKindAuthorizationCode (hashToken (values_Get (trForm req) ''code''))
           t (client_allowsGrant client GrantTypeRefreshToken \<and>
              (\<not> tHasScope t ''openid'' \<or> tHasScope t ''offline_access'')) plan minted log"
    and "minted_from p (the (tr_iss req)) client t plan (tHasScope t ''openid'') (tNonce t) minted"
    and "resp = mtResp minted"
proof -
  define h where "h = hashToken (values_Get (trForm req) ''code'')"
  have gt: "client_allowsGrant client GrantTypeAuthorizationCode"
    and code: "values_Get (trForm req) ''code'' \<noteq> []"
    using assms by (auto simp: exchangeAuthorizationCode_def Let_def split: if_split_asm)
  have gt': "\<not> \<not> client_allowsGrant client GrantTypeAuthorizationCode" using gt by simp
  from assms obtain t l1 m1 u l2 m2 l3 m3 scopes plan minted where
      log: "log = l1 @ m1" "m1 = l2 @ m2" "m2 = l3 @ m3"
      and s1: "performs (singleUseToken (the (tr_iss req)) client h TokenKindAuthorizationCode) l1 (Inr t)"
      and cc: "check_code t (values_Get (trForm req) ''redirect_uri'')
        (values_Get (trForm req) ''code_verifier'') = None"
      and l2: "performs (checkUnused t) l2 (Inr u)"
      and cg: "checkClientGrant client t = None"
      and ns: "narrowScopes (tScopes t) (tr_scopes req) = Inr scopes"
      and pl: "planIssuance (pvCfg p) req client t scopes
                     (client_allowsGrant client GrantTypeRefreshToken \<and>
                      (\<not> tHasScope t ''openid'' \<or> tHasScope t ''offline_access'')) = Inr plan"
      and mt: "performs (mintTokens p (the (tr_iss req)) client t plan (tHasScope t ''openid'')
                 (tNonce t) (trGrantType req)) l3 (Inr minted)"
      and sc: "performs (storeAndConsume minted h) m3 (Inr resp)"
    unfolding exchangeAuthorizationCode_def Let_def h_def [symmetric] if_not_P [OF code]
      if_not_P [OF gt']
    by (elim success_steps) blast
  from mt sc show ?thesis
  proof (rule mint_and_consume_Inr)
    fix later t'
    assume *: "minted_from p (the (tr_iss req)) client t plan (tHasScope t ''openid'') (tNonce t) minted"
      "l3 @ m3 = l3 @ stored (mtRecords minted) @ [EvNow later, EvConsumeToken h later (Inr t')]"
      "writes l3 = []" "tConsumedAt t' = 0" "resp = mtResp minted"
    have "redeems p req client TokenKindAuthorizationCode h t
        (client_allowsGrant client GrantTypeRefreshToken \<and>
              (\<not> tHasScope t ''openid'' \<or> tHasScope t ''offline_access'')) plan minted log"
      using s1 checkUnused_Inr [OF l2] cg ns pl * log
      by (elim singleUseToken_performs) (auto simp: redeems_def)
    with gt cc * show ?thesis by (intro that [of t plan minted]) (auto simp: h_def)
  qed
qed

lemma exchangeRefreshToken_Inr:
  assumes "performs (exchangeRefreshToken p req client) log (Inr resp)"
  obtains t plan minted where
    "client_allowsGrant client GrantTypeRefreshToken"
    and "redeems p req client TokenKindRefreshToken
           (hashToken (values_Get (trForm req) ''refresh_token'')) t True plan minted log"
    and "minted_from p (the (tr_iss req)) client t plan (''openid'' \<in> set (ipScopes plan)) [] minted"
    and "resp = mtResp minted"
proof -
  define h where "h = hashToken (values_Get (trForm req) ''refresh_token'')"
  have gt: "client_allowsGrant client GrantTypeRefreshToken"
    and code: "values_Get (trForm req) ''refresh_token'' \<noteq> []"
    using assms by (auto simp: exchangeRefreshToken_def Let_def split: if_split_asm)
  have gt': "\<not> \<not> client_allowsGrant client GrantTypeRefreshToken" using gt by simp
  from assms obtain t l1 m1 u l2 m2 l3 m3 scopes plan minted where
      log: "log = l1 @ m1" "m1 = l2 @ m2" "m2 = l3 @ m3"
      and s1: "performs (singleUseToken (the (tr_iss req)) client h TokenKindRefreshToken) l1 (Inr t)"
      and l2: "performs (checkUnused t) l2 (Inr u)"
      and cg: "checkClientGrant client t = None"
      and ns: "narrowScopes (tScopes t) (tr_scopes req) = Inr scopes"
      and pl: "planIssuance (pvCfg p) req client t scopes True = Inr plan"
      and mt: "performs (mintTokens p (the (tr_iss req)) client t plan (''openid'' \<in> set (ipScopes plan))
                 [] (trGrantType req)) l3 (Inr minted)"
      and sc: "performs (storeAndConsume minted h) m3 (Inr resp)"
    unfolding exchangeRefreshToken_def Let_def h_def [symmetric] if_not_P [OF code]
      if_not_P [OF gt']
    by (elim success_steps) blast
  from mt sc show ?thesis
  proof (rule mint_and_consume_Inr)
    fix later t'
    assume *: "minted_from p (the (tr_iss req)) client t plan (''openid'' \<in> set (ipScopes plan)) [] minted"
      "l3 @ m3 = l3 @ stored (mtRecords minted) @ [EvNow later, EvConsumeToken h later (Inr t')]"
      "writes l3 = []" "tConsumedAt t' = 0" "resp = mtResp minted"
    have "redeems p req client TokenKindRefreshToken h t True plan minted log"
      using s1 checkUnused_Inr [OF l2] cg ns pl * log
      by (elim singleUseToken_performs) (auto simp: redeems_def)
    with gt * show ?thesis by (intro that [of t plan minted]) (auto simp: h_def)
  qed
qed

section \<open>Failed exchanges\<close>

text \<open>A program that consumes no token when it fails.\<close>

definition fails_unspent :: "('e + 'a) prog \<Rightarrow> bool" where
  "fails_unspent p \<longleftrightarrow> (\<forall>log e. performs p log (Inl e) \<longrightarrow> consumes_none log)"

abbreviation unspending :: "'a prog \<Rightarrow> bool" where
  "unspending p \<equiv> makes (\<lambda>_. True) (\<lambda>ev. \<forall>h. \<not> consumes_token h ev) p"

lemma unspending_performs: "unspending p \<Longrightarrow> performs p log a \<Longrightarrow> consumes_none log"
  using makes_performs by (fastforce simp: consumes_none_def)

lemma unspending_ops [makes_intros]:
  "unspending provider_now" "unspending randomToken" "unspending (storage_Token h)"
  "unspending (storage_CreateToken t)" "unspending (storage_RevokeToken h)"
  "unspending (storage_RevokeGrant g)"
  by (simp_all add: op_defs)

lemma unspending_reads: "makes (\<lambda>_. True) is_read p \<Longrightarrow> unspending p"
  by (induction p) auto

lemma unspending_parts [makes_intros]:
  "unspending (singleUseToken iss client h kind)" "unspending (checkUnused t)"
  "unspending (mintTokens p iss client t plan withID nonce gt)"
  by (auto simp: singleUseToken_def checkUnused_def revokeReusedGrant_def
      intro!: makes_intros unspending_reads [OF mintTokens_reads])

lemma fails_unspent_intros:
  "fails_unspent (Ret x)"
  "unspending p \<Longrightarrow> (\<And>a. fails_unspent (f a)) \<Longrightarrow> fails_unspent (bindE p f)"
  "(c \<Longrightarrow> fails_unspent q) \<Longrightarrow> (\<not> c \<Longrightarrow> fails_unspent q') \<Longrightarrow> fails_unspent (if c then q else q')"
  "fails_unspent (storeAndConsume minted h)"
proof -
  show "fails_unspent (bindE p f)" if p: "unspending p" and f: "\<And>a. fails_unspent (f a)"
    unfolding fails_unspent_def
  proof (intro allI impI)
    fix log e
    assume "performs (bindE p f) log (Inl e)"
    then show "consumes_none log"
    proof (cases rule: performs_bindE_steps)
      case (1 e')
      then show ?thesis using unspending_performs [OF p] by blast
    next
      case (2 l m a)
      then have "consumes_none l" "consumes_none m"
        using unspending_performs [OF p] f [of a] unfolding fails_unspent_def by blast+
      with 2 show ?thesis by simp
    qed
  qed
  show "fails_unspent (storeAndConsume minted h)"
    unfolding fails_unspent_def by (auto elim: storeAndConsume_performs)
qed (auto simp: fails_unspent_def)

lemma exchanges_fail_unspent:
  "fails_unspent (exchangeAuthorizationCode p req client)"
  "fails_unspent (exchangeRefreshToken p req client)"
  unfolding exchangeAuthorizationCode_def exchangeRefreshToken_def Let_def
  by (intro fails_unspent_intros makes_intros)+

text \<open>The steps of an exchange up to the decision what to do with the token.\<close>

lemma singleUseToken_accepts:
  assumes "performs (bindE (singleUseToken iss client h kind) f) log r"
    and "EvLoadToken h (Inr t) \<in> set log" and "tKind t = kind" and "tIssuer t = rsURL iss"
    and "tClientID t = cID client"
    and "\<And>t' l r'. performs (f t') l r' \<Longrightarrow> EvLoadToken h (Inr t) \<notin> set l"
  obtains m where "log = EvLoadToken h (Inr t) # m" and "performs (f t) m r"
  using assms(1)
proof (cases rule: performs_bindE_steps)
  case (1 e)
  then show ?thesis
    using assms(2-5) by (elim singleUseToken_performs) auto
next
  case (2 l m a)
  from 2(2) obtain b where l: "l = [EvLoadToken h b]" and "Inr a = Inr a \<longleftrightarrow> b = Inr a \<and>
      tKind a = kind \<and> tIssuer a = rsURL iss \<and> tClientID a = cID client"
    by (elim singleUseToken_performs) metis
  moreover have "b = Inr t" using assms(2,6) 2(1,3) l by auto
  ultimately show ?thesis using 2 that by auto
qed

text \<open>Later steps load nothing.\<close>

abbreviation loadless :: "'a prog \<Rightarrow> bool" where
  "loadless p \<equiv> makes (\<lambda>_. True) (\<lambda>ev. \<forall>h r. ev \<noteq> EvLoadToken h r) p"

lemma loadless_parts [makes_intros]:
  "loadless provider_now" "loadless randomToken" "loadless (storage_CreateToken t)"
  "loadless (storage_ConsumeToken h n)" "loadless (storage_RevokeToken h)"
  "loadless (storage_RevokeGrant g)"
  by (simp_all add: op_defs)

lemma loadless_mint [makes_intros]: "loadless (mintTokens p iss client t plan withID nonce gt)"
  unfolding mintTokens_def encodeAccessToken_def issueIDToken_def by (intro makes_intros)

lemma loadless_storeTokens [makes_intros]: "loadless (storeTokens ts)"
  by (induction ts) (auto intro!: makes_intros)

lemma loadless_discardTokens [makes_intros]: "loadless (discardTokens ts)"
  by (induction ts) (auto intro!: makes_intros)

lemma loadless_use [makes_intros]:
  "loadless (checkUnused t)" "loadless (consume h)" "loadless (storeAndConsume minted h)"
  unfolding checkUnused_def consume_def storeAndConsume_def revokeReusedGrant_def
  by (intro makes_intros)+

lemma loadless_performs: "loadless p \<Longrightarrow> performs p log a \<Longrightarrow> EvLoadToken h r \<notin> set log"
  using makes_performs by fastforce

lemma exchangeAuthorizationCode_loaded:
  assumes "performs (exchangeAuthorizationCode p req client) log r"
    and "h = hashToken (values_Get (trForm req) ''code'')"
    and "EvLoadToken h (Inr t) \<in> set log" and "tKind t = TokenKindAuthorizationCode"
    and "tIssuer t = rsURL (the (tr_iss req))" and "tClientID t = cID client"
  shows "case check_code t (values_Get (trForm req) ''redirect_uri'')
                (values_Get (trForm req) ''code_verifier'') of
      Some e \<Rightarrow> log = [EvLoadToken h (Inr t)] \<and> r = Inl e
    | None \<Rightarrow>
        tConsumedAt t \<noteq> 0 \<longrightarrow>
          (\<exists>a. log = [EvLoadToken h (Inr t), EvRevokeGrant (tGrantID t) a] \<and>
               r = Inl (case a of None \<Rightarrow> invalid_grant | Some err \<Rightarrow> errServer err))"
proof -
  define rest where "rest = (\<lambda>t.
        bindE (Ret (check_error (checkClientGrant client t))) (\<lambda>_.
        bindE (Ret (narrowScopes (tScopes t) (tr_scopes req))) (\<lambda>accessScopes.
        bindE (Ret (planIssuance (pvCfg p) req client t accessScopes
                     (client_allowsGrant client GrantTypeRefreshToken \<and>
                      (\<not> tHasScope t ''openid'' \<or> tHasScope t ''offline_access'')))) (\<lambda>plan.
        bindE (mintTokens p (the (tr_iss req)) client t plan (tHasScope t ''openid'') (tNonce t) (trGrantType req))
          (\<lambda>minted. storeAndConsume minted h)))))"
  define cc where "cc t = check_code t (values_Get (trForm req) ''redirect_uri'')
                (values_Get (trForm req) ''code_verifier'')" for t
  have "log \<noteq> []" using assms(3) by auto
  then have "performs (bindE (singleUseToken (the (tr_iss req)) client h TokenKindAuthorizationCode) (\<lambda>t.
      bindE (Ret (check_error (cc t))) (\<lambda>_. bindE (checkUnused t) (\<lambda>_. rest t)))) log r"
    using assms(1) unfolding rest_def cc_def assms(2) exchangeAuthorizationCode_def Let_def
    by (simp split: if_split_asm)
  then show ?thesis
  proof (rule singleUseToken_accepts [OF _ assms(3-6)])
    fix t' l r'
    assume "performs (bindE (Ret (check_error (cc t'))) (\<lambda>_. bindE (checkUnused t') (\<lambda>_. rest t'))) l r'"
    then show "EvLoadToken h (Inr t) \<notin> set l"
      by (rule loadless_performs [rotated]) (unfold rest_def, intro makes_intros)
  next
    fix m
    assume log: "log = EvLoadToken h (Inr t) # m"
      and "performs (bindE (Ret (check_error (cc t))) (\<lambda>_. bindE (checkUnused t) (\<lambda>_. rest t))) m r"
    then show ?thesis
      unfolding cc_def [symmetric]
      by (cases "cc t") (auto simp: bindE_def [of "Ret _"] check_error_def performs_bindE
          elim!: checkUnused_reused dest: checkUnused_Inr)
  qed
qed

section \<open>What a failed exchange leaves of the token\<close>

text \<open>Calls that could take the token with the hash out of use. Revocations of grants count, whatever
  the grant.\<close>

fun touches :: "string \<Rightarrow> event \<Rightarrow> bool" where
  "touches h (EvConsumeToken h' at r) = (h' = h)"
| "touches h (EvRevokeToken h' r) = (h' = h)"
| "touches h (EvRevokeGrant g r) = True"
| "touches h _ = False"

text \<open>Calls that make a new value with the same hash.\<close>

fun collides :: "string \<Rightarrow> event \<Rightarrow> bool" where
  "collides h (EvCreateToken u r) = (tHash u = h)"
| "collides h (EvRand b) = (hashToken (randomToken_of b) = h)"
| "collides h _ = False"

definition untouched :: "string \<Rightarrow> event list \<Rightarrow> bool" where
  "untouched h log \<longleftrightarrow> (\<forall>ev \<in> set log. \<not> touches h ev)"

definition fresh_for :: "string \<Rightarrow> event list \<Rightarrow> bool" where
  "fresh_for h log \<longleftrightarrow> (\<forall>ev \<in> set log. \<not> collides h ev)"

lemma untouched_simps [simp]:
  "untouched h []" "untouched h (ev # log) \<longleftrightarrow> \<not> touches h ev \<and> untouched h log"
  "untouched h (l @ m) \<longleftrightarrow> untouched h l \<and> untouched h m" "untouched h (stored ts)"
  by (auto simp: untouched_def stored_def)

lemma fresh_for_simps [simp]:
  "fresh_for h []" "fresh_for h (ev # log) \<longleftrightarrow> \<not> collides h ev \<and> fresh_for h log"
  "fresh_for h (l @ m) \<longleftrightarrow> fresh_for h l \<and> fresh_for h m"
  "fresh_for h (stored ts) \<longleftrightarrow> (\<forall>t \<in> set ts. tHash t \<noteq> h)"
  by (auto simp: fresh_for_def stored_def)

lemma touches_uses_up: "\<not> touches h ev \<Longrightarrow> \<not> uses_up h g ev"
  by (cases ev) auto

lemma is_read_not_touches: "is_read ev \<Longrightarrow> \<not> touches h ev"
  by (cases ev) auto

lemma untouched_reads: "makes (\<lambda>_. True) is_read p \<Longrightarrow> performs p log a \<Longrightarrow> untouched h log"
  unfolding untouched_def by (auto dest!: makes_performs dest: is_read_not_touches)

text \<open>
  The ways in which an exchange can fail: it never touched the token; or a call answered with the
  token already consumed; or the consumption itself was answered with an error, and nothing else
  touched the token.
\<close>

definition spares :: "string \<Rightarrow> event list \<Rightarrow> perror \<Rightarrow> bool" where
  "spares h log e \<longleftrightarrow> untouched h log \<or>
     (\<exists>l ev m t. log = l @ ev # m \<and> untouched h l \<and> yields_token h t ev \<and> tConsumedAt t \<noteq> 0) \<or>
     (\<exists>l at err m. log = l @ EvConsumeToken h at (Inl err) # m \<and> untouched h l \<and> untouched h m \<and>
        (errors_Is err ErrNotFound \<or> e = errServer err))"

lemma spares_untouched: "untouched h log \<Longrightarrow> spares h log e"
  by (simp add: spares_def)

lemma spares_consumed:
  "untouched h l \<Longrightarrow> yields_token h t ev \<Longrightarrow> tConsumedAt t \<noteq> 0 \<Longrightarrow> spares h (l @ ev # m) e"
  unfolding spares_def by blast

lemma spares_refused:
  "untouched h l \<Longrightarrow> untouched h m \<Longrightarrow> errors_Is err ErrNotFound \<or> e = errServer err \<Longrightarrow>
     spares h (l @ EvConsumeToken h at (Inl err) # m) e"
  unfolding spares_def by blast

lemma spares_append: "untouched h l \<Longrightarrow> spares h m e \<Longrightarrow> spares h (l @ m) e"
  unfolding spares_def
proof (elim disjE exE conjE, goal_cases)
  case (2 l' ev m' t)
  then show ?case by (intro disjI2 disjI1 exI [of _ "l @ l'"] exI [of _ ev] exI [of _ m'] exI [of _ t]) simp
next
  case (3 l' at err m')
  then show ?case
    by (intro disjI2 exI [of _ "l @ l'"] exI [of _ at] exI [of _ err] exI [of _ m']) simp
next
  case (4 l' at err m')
  then show ?case
    by (intro disjI2 exI [of _ "l @ l'"] exI [of _ at] exI [of _ err] exI [of _ m']) simp
qed simp

definition fails_sparing :: "string \<Rightarrow> (perror + 'a) prog \<Rightarrow> bool" where
  "fails_sparing h p \<longleftrightarrow>
     (\<forall>log e. performs p log (Inl e) \<longrightarrow> fresh_for h log \<longrightarrow> spares h log e)"

lemma fails_sparing_Ret [simp]: "fails_sparing h (Ret x)"
  by (auto simp: fails_sparing_def spares_untouched)

lemma fails_sparing_if:
  "(c \<Longrightarrow> fails_sparing h q) \<Longrightarrow> (\<not> c \<Longrightarrow> fails_sparing h q') \<Longrightarrow>
     fails_sparing h (if c then q else q')"
  by simp

text \<open>A step that leaves the token alone, before the rest.\<close>

lemma fails_sparing_step:
  assumes "\<And>l r. performs p l r \<Longrightarrow> untouched h l"
    and "\<And>l a. performs p l (Inr a) \<Longrightarrow> fresh_for h l \<Longrightarrow> fails_sparing h (f a)"
  shows "fails_sparing h (bindE p f)"
  unfolding fails_sparing_def
proof (intro allI impI)
  fix log e
  assume "performs (bindE p f) log (Inl e)" and fresh: "fresh_for h log"
  then show "spares h log e"
  proof (cases rule: performs_bindE_steps)
    case (1 e')
    then show ?thesis using assms(1) by (auto intro: spares_untouched)
  next
    case (2 l m a)
    then show ?thesis
      using assms(1) [OF 2(2)] assms(2) [OF 2(2)] fresh
      by (auto simp: fails_sparing_def intro: spares_append)
  qed
qed

lemma fails_sparing_check:
  "(\<And>a. x = Inr a \<Longrightarrow> fails_sparing h (f a)) \<Longrightarrow> fails_sparing h (bindE (Ret x) f)"
  by (rule fails_sparing_step) auto

text \<open>A loaded token is either still unused, or it was consumed before.\<close>

lemma fails_sparing_load:
  assumes "\<And>t. tConsumedAt t = 0 \<Longrightarrow> fails_sparing h (f t)"
  shows "fails_sparing h (bindE (singleUseToken iss client h kind) f)"
  unfolding fails_sparing_def
proof (intro allI impI)
  fix log e
  assume "performs (bindE (singleUseToken iss client h kind) f) log (Inl e)" and fresh: "fresh_for h log"
  then show "spares h log e"
  proof (cases rule: performs_bindE_steps)
    case (1 e')
    then show ?thesis by (elim singleUseToken_performs) (simp add: spares_untouched)
  next
    case (2 l m t)
    from 2(2) have l: "l = [EvLoadToken h (Inr t)]" by (elim singleUseToken_performs) blast
    show ?thesis
    proof (cases "tConsumedAt t = 0")
      case True
      then have "spares h m e" using assms 2 fresh by (auto simp: fails_sparing_def)
      then show ?thesis using spares_append [of h l m e] 2(1) l by simp
    next
      case False
      then show ?thesis using spares_consumed [of h "[]" t "EvLoadToken h (Inr t)"] 2(1) l by simp
    qed
  qed
qed

lemma fails_sparing_checkUnused:
  assumes "tConsumedAt t = 0" and "\<And>u. fails_sparing h (f u)"
  shows "fails_sparing h (bindE (checkUnused t) f)"
  by (rule fails_sparing_step) (use assms in \<open>auto dest: checkUnused_unused\<close>)

text \<open>The hash of a minted refresh token is that of a random value.\<close>

lemma mintTokens_values:
  assumes "performs (mintTokens p iss client grant plan withID nonce gt) log (Inr minted)"
  obtains access rest where "mtRecords minted = access # rest"
    and "\<forall>u \<in> set rest. \<exists>b. EvRand b \<in> set log \<and> tHash u = hashToken (randomToken_of b)"
proof -
  from assms [unfolded mintTokens_def] obtain now accessToken log0 log1 where
    log: "log = log0 @ log1" and
    step: "performs (let access = access_record grant now accessToken plan in
            bind (if ipRefresh plan then bind randomToken (\<lambda>v. Ret (Some v)) else Ret None)
              (\<lambda>refreshToken.
            (let records =
                   access # (case refreshToken of
                               Some v \<Rightarrow> [refresh_record grant now v plan] | None \<Rightarrow> []);
                 refresh = (case refreshToken of Some v \<Rightarrow> v | None \<Rightarrow> [])
             in if withID \<and> tSubject grant \<noteq> []
                then bind (issueIDToken p iss client access nonce accessToken (ipIDLifetime plan)
                            (ipIDClaims plan)) (\<lambda>r. Ret
                  (case r of
                     Inl err \<Rightarrow> Inl (errServer err)
                   | Inr idToken \<Rightarrow>
                       Inr \<lparr>mtResp = new_response plan accessToken refresh idToken,
                            mtRecords = records\<rparr>))
                else Ret (Inr \<lparr>mtResp = new_response plan accessToken refresh [],
                               mtRecords = records\<rparr>)))) log1 (Inr minted)"
    apply (elim performs_bind_steps)
    subgoal premises prems for l m a la ma aa lb mb ab
    proof (cases ab)
      case (Inr ac)
      show thesis by (rule prems(1) [of "l @ la @ lb" mb]) (use prems(2-) Inr in simp, use prems Inr in simp)
    qed (use prems in simp)
    done
  from step obtain l v log2 where log1: "log1 = l @ log2" and
    v: "performs (if ipRefresh plan then bind randomToken (\<lambda>v. Ret (Some v)) else Ret None) l v"
    and rest: "performs
     (if withID \<and> tSubject grant \<noteq> []
      then bind (issueIDToken p iss client (access_record grant now accessToken plan) nonce accessToken
                  (ipIDLifetime plan) (ipIDClaims plan))
            (\<lambda>r. Ret (case r of
             Inl err \<Rightarrow> Inl (errServer err)
           | Inr idToken \<Rightarrow>
               Inr \<lparr>mtResp = new_response plan accessToken (case v of Some v \<Rightarrow> v | None \<Rightarrow> []) idToken,
                    mtRecords = access_record grant now accessToken plan
                      # (case v of Some v \<Rightarrow> [refresh_record grant now v plan] | None \<Rightarrow> [])\<rparr>))
      else Ret (Inr \<lparr>mtResp = new_response plan accessToken (case v of Some v \<Rightarrow> v | None \<Rightarrow> []) [],
                    mtRecords = access_record grant now accessToken plan
                      # (case v of Some v \<Rightarrow> [refresh_record grant now v plan] | None \<Rightarrow> [])\<rparr>))
      log2 (Inr minted)"
    unfolding Let_def by (elim performs_bind_steps)
  from rest have recs: "mtRecords minted = access_record grant now accessToken plan
      # (case v of Some v \<Rightarrow> [refresh_record grant now v plan] | None \<Rightarrow> [])"
    by (elim mint_end) simp
  from v have "v = None \<or> (\<exists>b. l = [EvRand b] \<and> v = Some (randomToken_of b))"
    by (auto simp: performs_bind performs_randomToken split: if_split_asm)
  with recs log log1 show ?thesis
    by (intro that [OF recs]) (auto simp: refresh_record_def derive_def)
qed

lemma discardTokens_untouched:
  "performs (discardTokens ts) log u \<Longrightarrow> \<forall>t \<in> set ts. tHash t \<noteq> h \<Longrightarrow> untouched h log"
  unfolding untouched_def using discardTokens_performs by fastforce

lemma storeAndConsume_steps:
  assumes "performs (storeAndConsume minted h) log (Inl e)"
  obtains l m perr u where "log = l @ m" and "performs (storeTokens (mtRecords minted)) l (Some perr)"
      and "performs (discardTokens (mtRecords minted)) m u" and "e = perr"
  | m m' perr u where "log = stored (mtRecords minted) @ m @ m'" and "performs (consume h) m (Some perr)"
      and "performs (discardTokens (mtRecords minted)) m' u" and "e = perr"
  using assms [unfolded storeAndConsume_def]
proof (rule performs_bind_steps)
  fix l m s
  assume log: "log = l @ m" and st: "performs (storeTokens (mtRecords minted)) l s"
    and rest: "performs (case s of
         Some perr \<Rightarrow> bind (discardTokens (mtRecords minted)) (\<lambda>_. Ret (Inl perr))
       | None \<Rightarrow>
           bind (consume h) (\<lambda>r.
             case r of
               Some perr \<Rightarrow> bind (discardTokens (mtRecords minted)) (\<lambda>_. Ret (Inl perr))
             | None \<Rightarrow> Ret (Inr (mtResp minted)))) m (Inl e)"
  show thesis
  proof (cases s)
    case (Some perr)
    with rest obtain u where "performs (discardTokens (mtRecords minted)) m u" "e = perr"
      by (auto simp: performs_bind)
    then show thesis using that(1) log st Some by blast
  next
    case None
    with rest obtain m1 m2 c where m: "m = m1 @ m2" and c: "performs (consume h) m1 c"
        and d: "performs (case c of
               Some perr \<Rightarrow> bind (discardTokens (mtRecords minted)) (\<lambda>_. Ret (Inl perr))
             | None \<Rightarrow> Ret (Inr (mtResp minted))) m2 (Inl e)"
      by (simp only: option.case) (elim performs_bind_steps)
    have l: "l = stored (mtRecords minted)" using storeTokens_performs [OF st] None by simp
    show thesis
    proof (cases c)
      case (Some perr)
      with d obtain u where "performs (discardTokens (mtRecords minted)) m2 u" "e = perr"
        by (auto simp: performs_bind)
      then show thesis using that(2) [of m1 m2 perr u] log l m c Some by simp
    qed (use d in simp)
  qed
qed

lemma consume_fails:
  assumes "performs (consume h) log (Some e)"
  obtains now err where "log = [EvNow now, EvConsumeToken h now (Inl err)]"
      and "errors_Is err ErrNotFound \<or> e = errServer err"
  | now t b where "log = [EvNow now, EvConsumeToken h now (Inr t), EvRevokeGrant (tGrantID t) b]"
      and "tConsumedAt t \<noteq> 0"
  using assms
proof (rule consume_performs)
  fix now err assume log: "log = [EvNow now, EvConsumeToken h now (Inl err)]"
  then have "errors_Is err ErrNotFound \<or> e = errServer err"
    using assms by (auto simp: consume_def performs_bind split: if_split_asm)
  with log show thesis by (rule that(1))
next
  fix now t b
  assume "log = [EvNow now, EvConsumeToken h now (Inr t), EvRevokeGrant (tGrantID t) b]"
    and "tConsumedAt t \<noteq> 0"
  then show thesis by (rule that(2))
qed simp

lemma storeTokens_attempts:
  assumes "performs (storeTokens (u # us)) log r"
  obtains a l where "log = EvCreateToken u a # l"
  using assms by (auto simp: performs_bind)

lemma fails_sparing_storeAndConsume:
  assumes "mtRecords minted = access # rest" and "\<forall>u \<in> set rest. tHash u \<noteq> h"
  shows "fails_sparing h (storeAndConsume minted h)"
  unfolding fails_sparing_def
proof (intro allI impI)
  fix log e
  assume ex: "performs (storeAndConsume minted h) log (Inl e)" and fresh: "fresh_for h log"
  from ex show "spares h log e"
  proof (cases rule: storeAndConsume_steps)
    case (1 l m perr u)
    obtain a l' where "l = EvCreateToken access a # l'"
      using storeTokens_attempts 1(2) assms(1) by metis
    then have "\<forall>u \<in> set (mtRecords minted). tHash u \<noteq> h" using fresh 1(1) assms by simp
    then have m: "untouched h m" by (rule discardTokens_untouched [OF 1(3)])
    have "untouched h l" using storeTokens_performs [OF 1(2)] by auto
    with m 1(1) show ?thesis by (simp add: spares_untouched)
  next
    case (2 m m' perr u)
    have "\<forall>u \<in> set (mtRecords minted). tHash u \<noteq> h" using fresh 2(1) by simp
    then have m': "untouched h m'" by (rule discardTokens_untouched [OF 2(3)])
    from 2(2) show ?thesis
    proof (cases rule: consume_fails)
      case (1 now err)
      then show ?thesis
        using spares_refused [of h "stored (mtRecords minted) @ [EvNow now]" m' err e now] m' 2 by simp
    next
      case (2 now t b)
      then show ?thesis
        using spares_consumed [of h "stored (mtRecords minted) @ [EvNow now]" t
            "EvConsumeToken h now (Inr t)" "EvRevokeGrant (tGrantID t) b # m'" e] \<open>log = _\<close> by simp
    qed
  qed
qed

lemma fails_sparing_mint:
  "fails_sparing h (bindE (mintTokens p iss client t plan withID nonce gt)
     (\<lambda>minted. storeAndConsume minted h))"
proof (rule fails_sparing_step)
  fix l minted
  assume mint: "performs (mintTokens p iss client t plan withID nonce gt) l (Inr minted)"
    and fresh: "fresh_for h l"
  from mint obtain access rest where "mtRecords minted = access # rest"
      and "\<forall>u \<in> set rest. \<exists>b. EvRand b \<in> set l \<and> tHash u = hashToken (randomToken_of b)"
    by (rule mintTokens_values)
  then show "fails_sparing h (storeAndConsume minted h)"
    using fresh unfolding fresh_for_def
    by (intro fails_sparing_storeAndConsume) (assumption, metis collides.simps(2))
qed (rule untouched_reads [OF mintTokens_reads])

lemma exchanges_fail_sparing:
  "fails_sparing (hashToken (values_Get (trForm req) ''code'')) (exchangeAuthorizationCode p req client)"
  "fails_sparing (hashToken (values_Get (trForm req) ''refresh_token''))
     (exchangeRefreshToken p req client)"
  unfolding exchangeAuthorizationCode_def exchangeRefreshToken_def Let_def
  by (intro fails_sparing_if fails_sparing_Ret fails_sparing_load fails_sparing_check
      fails_sparing_checkUnused fails_sparing_mint; assumption)+

end
