(* ===== verification/Go_Sha256_Eval.thy ===== *)
theory Go_Sha256_Eval
  imports Go_Encoding
begin

text \<open>
  SHA-256 on natural numbers, equal to the definition on words: its steps are evaluated by the
  simplifier's arithmetic, which the samples use to compare hashes of concrete tokens.
\<close>

unbundle bit_operations_syntax

definition n_mod :: "nat \<Rightarrow> nat" where
  "n_mod s = (if s < 4294967296 then s else s - 4294967296)"

definition n_rotr :: "nat \<Rightarrow> nat \<Rightarrow> nat \<Rightarrow> nat" where
  "n_rotr m l x = x div m + (x mod m) * l"

definition n_big_sigma0 :: "nat \<Rightarrow> nat" where
  "n_big_sigma0 x = n_rotr 4 1073741824 x XOR n_rotr 8192 524288 x XOR n_rotr 4194304 1024 x"
definition n_big_sigma1 :: "nat \<Rightarrow> nat" where
  "n_big_sigma1 x = n_rotr 64 67108864 x XOR n_rotr 2048 2097152 x XOR n_rotr 33554432 128 x"
definition n_small_sigma0 :: "nat \<Rightarrow> nat" where
  "n_small_sigma0 x = n_rotr 128 33554432 x XOR n_rotr 262144 16384 x XOR x div 8"
definition n_small_sigma1 :: "nat \<Rightarrow> nat" where
  "n_small_sigma1 x = n_rotr 131072 32768 x XOR n_rotr 524288 8192 x XOR x div 1024"

definition n_add :: "nat \<Rightarrow> nat \<Rightarrow> nat" where
  "n_add a b = n_mod (a + b)"

lemma unat_lt [simp]: "unat (x :: 32 word) < 4294967296"
  using unsigned_less [of x] by simp

lemma unat_add32: "unat ((x :: 32 word) + y) = n_add (unat x) (unat y)"
proof -
  have "unat (x + y) = (unat x + unat y) mod 4294967296"
    by (simp add: unat_word_ariths)
  also have "\<dots> = n_mod (unat x + unat y)"
  proof (cases "unat x + unat y < 4294967296")
    case False
    moreover have "unat x + unat y < 2 * 4294967296"
      using unat_lt [of x] unat_lt [of y] by linarith
    ultimately show ?thesis by (simp add: n_mod_def mod_if)
  qed (simp add: n_mod_def)
  finally show ?thesis by (simp add: n_add_def)
qed

lemma unat_xor32: "unat ((x :: 32 word) XOR y) = unat x XOR unat y"
  by (simp add: unsigned_xor_eq)

lemma unat_and32: "unat ((x :: 32 word) AND y) = unat x AND unat y"
  by (simp add: unsigned_and_eq)

lemma unat_rotr32:
  assumes "0 < n" and "n < 32"
  shows "unat (rotr32 n x) = n_rotr (2 ^ n) (2 ^ (32 - n)) (unat x)"
proof -
  have d: "unat (drop_bit n x) = unat x div 2 ^ n"
    by (metis unat_drop_bit_eq drop_bit_eq_div)
  have p: "unat (push_bit (32 - n) x) = (unat x mod 2 ^ n) * 2 ^ (32 - n)"
  proof -
    have "unat (push_bit (32 - n) x) = take_bit 32 (push_bit (32 - n) (unat x))"
      by (simp add: unsigned_push_bit_eq)
    also have "\<dots> = push_bit (32 - n) (take_bit n (unat x))"
      using assms by (simp add: take_bit_push_bit)
    finally show ?thesis by (simp add: push_bit_eq_mult take_bit_eq_mod)
  qed
  have lt: "unat x div 2 ^ n < 2 ^ (32 - n)"
  proof -
    have "unat x < 2 ^ (32 - n) * 2 ^ n"
      using assms unat_lt [of x] by (simp add: power_add [symmetric])
    then show ?thesis by (simp add: less_mult_imp_div_less)
  qed
  have "unat (rotr32 n x) = unat (drop_bit n x) OR unat (push_bit (32 - n) x)"
    by (simp add: rotr32_def unsigned_or_eq)
  also have "\<dots> = push_bit (32 - n) (unat x mod 2 ^ n) OR unat x div 2 ^ n"
    by (simp only: d p) (simp add: push_bit_eq_mult or.commute)
  also have "\<dots> = push_bit (32 - n) (unat x mod 2 ^ n) + unat x div 2 ^ n"
  proof -
    have "push_bit (32 - n) (unat x mod 2 ^ n) AND (unat x div 2 ^ n) = 0"
    proof (rule bit_eqI)
      fix k
      have "\<not> bit (unat x div 2 ^ n) k" if "32 - n \<le> k"
      proof -
        have "unat x div 2 ^ n = take_bit (32 - n) (unat x div 2 ^ n)"
          using lt by (simp add: take_bit_nat_eq_self)
        then show ?thesis using that by (metis bit_take_bit_iff not_less)
      qed
      then show "bit (push_bit (32 - n) (unat x mod 2 ^ n) AND (unat x div 2 ^ n)) k = bit 0 k"
        by (auto simp: bit_and_iff bit_push_bit_iff)
    qed
    then show ?thesis by (rule disjunctive_add_eq_or [symmetric])
  qed
  finally show ?thesis by (simp add: n_rotr_def push_bit_eq_mult)
qed

lemma unat_drop32: "unat (drop_bit n (x :: 32 word)) = unat x div 2 ^ n"
  by (metis unat_drop_bit_eq drop_bit_eq_div)

lemma unat_sigmas:
  "unat (big_sigma0 x) = n_big_sigma0 (unat x)" "unat (big_sigma1 x) = n_big_sigma1 (unat x)"
  "unat (small_sigma0 x) = n_small_sigma0 (unat x)" "unat (small_sigma1 x) = n_small_sigma1 (unat x)"
  by (simp_all add: big_sigma0_def big_sigma1_def small_sigma0_def small_sigma1_def n_big_sigma0_def
      n_big_sigma1_def n_small_sigma0_def n_small_sigma1_def unat_xor32 unat_rotr32
      unat_drop32 drop_bit_eq_div [where 'a = nat])

section \<open>Rounds\<close>

definition n_t1 :: "nat \<Rightarrow> nat \<Rightarrow> nat \<Rightarrow> nat \<Rightarrow> nat \<Rightarrow> nat \<Rightarrow> nat" where
  "n_t1 k w e f g h =
     n_add (n_add (n_add (n_add h (n_big_sigma1 e)) (g XOR (e AND (f XOR g)))) k) w"

definition n_t2 :: "nat \<Rightarrow> nat \<Rightarrow> nat \<Rightarrow> nat" where
  "n_t2 a b c = n_add (n_big_sigma0 a) ((a AND b) XOR (c AND (a XOR b)))"

lemma ch_eq: "((e :: 32 word) AND f) XOR (NOT e AND g) = g XOR (e AND (f XOR g))"
  by (rule bit_word_eqI) (auto simp: bit_simps)

lemma maj_eq: "((a :: 32 word) AND b) XOR (a AND c) XOR (b AND c) = (a AND b) XOR (c AND (a XOR b))"
  by (rule bit_word_eqI) (auto simp: bit_simps)

lemma unat_t1:
  "unat (h + big_sigma1 e + ((e AND f) XOR (NOT e AND g)) + k + w) =
     n_t1 (unat k) (unat w) (unat e) (unat f) (unat g) (unat h)"
  unfolding ch_eq by (simp add: n_t1_def unat_add32 unat_sigmas unat_xor32 unat_and32)

lemma unat_t2:
  "unat (big_sigma0 a + ((a AND b) XOR (a AND c) XOR (b AND c))) = n_t2 (unat a) (unat b) (unat c)"
  unfolding maj_eq by (simp add: n_t2_def unat_add32 unat_sigmas unat_xor32 unat_and32)

fun n_state :: "sha_state \<Rightarrow> nat list" where
  "n_state (Sha a b c d e f g h) =
     [unat a, unat b, unat c, unat d, unat e, unat f, unat g, unat h]"

definition n_next :: "nat \<Rightarrow> nat \<Rightarrow> nat list \<Rightarrow> nat list" where
  "n_next t1 t2 st = [n_add t1 t2, st ! 0, st ! 1, st ! 2, n_add (st ! 3) t1, st ! 4, st ! 5, st ! 6]"

definition n_round :: "nat \<Rightarrow> nat \<Rightarrow> nat list \<Rightarrow> nat list" where
  "n_round k w st =
     n_next (n_t1 k w (st ! 4) (st ! 5) (st ! 6) (st ! 7)) (n_t2 (st ! 0) (st ! 1) (st ! 2)) st"

lemma n_state_round: "n_state (sha_round k w st) = n_round (unat k) (unat w) (n_state st)"
proof (cases st)
  case (Sha a b c d e f g h)
  define t1 where "t1 = h + big_sigma1 e + ((e AND f) XOR (NOT e AND g)) + k + w"
  define t2 where "t2 = big_sigma0 a + ((a AND b) XOR (a AND c) XOR (b AND c))"
  have "sha_round k w st = Sha (t1 + t2) a b c (d + t1) e f g"
    by (simp add: Sha t1_def t2_def Let_def)
  moreover have "unat t1 = n_t1 (unat k) (unat w) (unat e) (unat f) (unat g) (unat h)"
      "unat t2 = n_t2 (unat a) (unat b) (unat c)"
    unfolding t1_def t2_def by (rule unat_t1 unat_t2)+
  ultimately show ?thesis by (simp add: Sha n_round_def n_next_def unat_add32)
qed

fun n_rounds :: "nat list \<Rightarrow> nat list \<Rightarrow> nat list \<Rightarrow> nat list" where
  "n_rounds (k # ks) (w # ws) st = n_rounds ks ws (n_round k w st)"
| "n_rounds _ _ st = st"

lemma n_state_rounds: "n_state (sha_rounds ks ws st) = n_rounds (map unat ks) (map unat ws) (n_state st)"
  by (induction ks ws st rule: sha_rounds.induct) (simp_all add: n_state_round)

definition n_word :: "nat list \<Rightarrow> nat" where
  "n_word w = n_add (n_add (n_add (n_small_sigma1 (w ! 1)) (w ! 6)) (n_small_sigma0 (w ! 14))) (w ! 15)"

fun n_schedule :: "nat \<Rightarrow> nat list \<Rightarrow> nat list" where
  "n_schedule 0 w = rev w"
| "n_schedule (Suc n) w = n_schedule n (n_word w # w)"

lemma n_schedule: "16 \<le> length w \<Longrightarrow> map unat (sha_schedule n w) = n_schedule n (map unat w)"
  by (induction n w rule: sha_schedule.induct)
    (simp_all add: rev_map n_word_def unat_add32 unat_sigmas)

fun n_adds :: "nat list \<Rightarrow> nat list \<Rightarrow> nat list" where
  "n_adds (a # as) (b # bs) = n_add a b # n_adds as bs"
| "n_adds _ _ = []"

lemma n_state_add: "n_state (sha_add s t) = n_adds (n_state s) (n_state t)"
  by (cases s; cases t) (simp add: unat_add32)

definition n_sha_k :: "nat list" where "n_sha_k = map unat sha_k"
definition n_sha_init :: "nat list" where "n_sha_init = n_state sha_init"

lemmas n_sha_k_eval = n_sha_k_def [unfolded sha_k_def, simplified]
lemmas n_sha_init_eval = n_sha_init_def [unfolded sha_init_def, simplified]

fun n_bytes :: "nat list \<Rightarrow> bytes" where
  "n_bytes [] = []"
| "n_bytes (n # ns) =
     char_of (n div 16777216) # char_of (n div 65536) # char_of (n div 256) # char_of n # n_bytes ns"

lemma length_words_of_bytes: "length (words_of_bytes s) = length s div 4"
  by (induction s rule: words_of_bytes.induct) auto

text \<open>A message of one block.\<close>

lemma sha256_one_block:
  assumes "length s < 56"
  shows "sha256_Sum256 s =
    n_bytes (n_adds n_sha_init
      (n_rounds n_sha_k (n_schedule 48 (rev (map unat (words_of_bytes (sha_pad s))))) n_sha_init))"
proof -
  have len: "length (sha_pad s) = 64"
  proof -
    have "(119 - length s) mod 64 = 55 - length s" using assms by (simp add: mod_if)
    then show ?thesis using assms by (simp add: sha_pad_def sha_length_bytes_def)
  qed
  define w where "w = words_of_bytes (sha_pad s)"
  have w: "words_of_bytes (sha_pad s) = w" and w16: "length w = 16"
    by (simp_all add: w_def len length_words_of_bytes)
  have bytes: "bytes_of_state st = n_bytes (n_state st)" for st
    by (cases st) (simp add: bytes_of_state_def bytes_of_word_def Let_def)
  have "sha256_Sum256 s = bytes_of_state (sha_block sha_init w)"
    using w w16 by (simp add: sha256_Sum256_def sha_blocks.simps [of _ w] sha_blocks.simps [of _ "[]"])
      (metis length_greater_0_conv zero_less_numeral)
  then show ?thesis
    using w16
    by (simp add: bytes sha_block_def n_state_add n_state_rounds n_schedule rev_map w n_sha_k_def
        n_sha_init_def)
qed

section \<open>Evaluation\<close>

lemma replicate_numeral: "replicate (numeral v) x = x # replicate (pred_numeral v) x"
  by (simp add: numeral_eq_Suc)

lemma n_schedule_numeral:
  "n_schedule (numeral v) w = n_schedule (pred_numeral v) (n_word w # w)"
  by (simp add: numeral_eq_Suc)

lemmas sha256_eval =
  n_round_def n_next_def n_t1_def n_t2_def n_big_sigma0_def n_big_sigma1_def n_small_sigma0_def
  n_small_sigma1_def n_rotr_def n_add_def n_mod_def n_word_def replicate_numeral n_schedule_numeral
  sha_pad_def sha_length_bytes_def word_of_bytes_def byte_def n_sha_k_eval n_sha_init_eval

text \<open>The digest of the test vector of FIPS 180-2 for a message of one block.\<close>

lemma sha256_abc:
  "sha256_Sum256 ''abc'' = map char_of
     [0xba, 0x78, 0x16, 0xbf, 0x8f, 0x01, 0xcf, 0xea, 0x41, 0x41, 0x40, 0xde, 0x5d, 0xae, 0x22, 0x23,
      0xb0, 0x03, 0x61, 0xa3, 0x96, 0x17, 0x7a, 0x9c, 0xb4, 0x10, 0xff, 0x61, 0xf2, 0x00, 0x15,
      0xad :: nat]"
  by (subst sha256_one_block, simp) (simp add: sha256_eval)

end
