(* ===== verification/Grantor_Sample.thy ===== *)
theory Grantor_Sample
  imports Grantor_Token Grantor_Memory Go_Sha256_Eval
begin

text \<open>
  A small deployment, on which the properties are applied: one issuer with an RSA key, a
  confidential client, an authorization code of the client, and requests that redeem it. Nothing of
  it models code of the repository.
\<close>

section \<open>A deployment\<close>

definition sample_key :: preparedKey where
  "sample_key = \<lparr>pkID = ''k1'', pkAlg = ''RS256'', pkSigner = Signer 0 (RSAPublicKey (2 ^ 2047))\<rparr>"

definition sample_iss :: resolvedIssuer where
  "sample_iss =
     \<lparr>rsURL = ''https://op.example'', rsBasePath = '''', rsSecure = True,
      rsKeys = \<lparr>ksKeys = [sample_key]\<rparr>\<rparr>"

definition sample_jose :: jose where
  "sample_jose =
     \<lparr>jzSign = \<lambda>k typ claims. Inr (''signed.'' @ typ), jzParseSigned = \<lambda>s algs. None,
      jzParseJWKS = \<lambda>b. None, jzMarshalJWKS = \<lambda>ks. Inr ''keys'',
      jzValidateWithLeeway = \<lambda>c e d. False, jzDecodeClaims = \<lambda>s. None, jzDecodeHints = \<lambda>b. None\<rparr>"

definition sample_lifetimes :: Lifetimes where
  "sample_lifetimes =
     \<lparr>ltAuthorizationRequest = 15 * minute, ltAuthorizationCode = minute, ltAccessToken = 15 * minute,
      ltRefreshToken = 24 * hour, ltIDToken = 15 * minute, ltPushedAuthorizationRequest = minute\<rparr>"

definition sample_endpoints :: Endpoints where
  "sample_endpoints =
     \<lparr>epAuthorization = ''/authorize'', epToken = ''/token'', epUserInfo = ''/userinfo'',
      epIntrospection = ''/introspect'', epRevocation = ''/revoke'', epJWKS = ''/jwks'',
      epPushedAuthorization = ''/par''\<rparr>"

definition sample_cfg :: Config where
  "sample_cfg =
     \<lparr>cfIssuer = Some \<lparr>isURL = ''https://op.example'', isKeys = []\<rparr>, cfIssuerFor = None,
      cfClientsSet = True, cfStorageSet = True, cfInteract = None, cfClaims = None,
      cfScopeClaims = [], cfIDTokenScopeClaims = False, cfLifetimes = sample_lifetimes,
      cfEndpoints = sample_endpoints, cfPAR = PARAllowed,
      cfAccessTokenFormat = AccessTokenFormatOpaque, cfAccessTokenFormats = [], cfGrants = [],
      cfBeforeIssue = None, cfDisableInteractionBinding = False, cfErrorPage = None\<rparr>"

definition sample_p :: Provider where
  "sample_p = \<lparr>pvCfg = sample_cfg, pvStatic = Some sample_iss, pvJose = sample_jose\<rparr>"

definition sample_client :: Client where
  "sample_client =
     \<lparr>cID = ''app'', cAuthMethod = AuthMethodClientSecretBasic,
      cSecretHash = HashClientSecret ''s3cret'', cJWKS = [],
      cRedirectURIs = [''https://rp.example/cb''],
      cGrantTypes = [GrantTypeAuthorizationCode, GrantTypeRefreshToken, GrantTypeClientCredentials],
      cScopes = [''openid'', ''read''], cPKCE = PKCEOptional, cRequirePAR = False,
      cIDTokenSigningAlg = [], cAllowIntrospection = True, cAccessTokenFormat = [],
      cAccessTokenSigningAlg = [], cAudience = [''https://api.example''],
      cAccessTokenLifetime = 0, cRefreshTokenLifetime = 0, cIDTokenLifetime = 0\<rparr>"

definition sample_code :: Token where
  "sample_code = token_zero
     \<lparr>tHash := hashToken ''c0de'', tKind := TokenKindAuthorizationCode, tGrantID := ''grant'',
      tIssuer := ''https://op.example'', tClientID := ''app'', tSubject := ''alice'',
      tScopes := [''read''], tAuthTime := 1, tAudience := [''https://api.example''],
      tRedirectURI := ''https://rp.example/cb'', tRedirectURIInRequest := True,
      tCreatedAt := 1, tExpiresAt := minute\<rparr>"

definition sample_refresh :: Token where
  "sample_refresh = sample_code
     \<lparr>tHash := hashToken ''r3fresh'', tKind := TokenKindRefreshToken, tRedirectURI := [],
      tRedirectURIInRequest := False\<rparr>"

definition sample_http :: Request where
  "sample_http =
     \<lparr>rMethod = ''POST'', rHost = ''op.example'', rEscapedPath = ''/token'', rQuery = [],
      rAuthorization = ''Basic x'', rBasicAuth = Some (''app'', ''s3cret''),
      rMediaType = ''application/x-www-form-urlencoded'', rMediaTypeErr = False,
      rPostForm = Some [], rCookies = []\<rparr>"

definition sample_req :: "GrantType \<Rightarrow> url_values \<Rightarrow> TokenRequest" where
  "sample_req gt form =
     \<lparr>trClient = Some sample_client, trGrantType = gt, trScopes = None, trForm = form,
      trIssuer = ''https://op.example'', trHTTPRequest = sample_http, tr_iss = Some sample_iss,
      tr_client = sample_client, tr_grantType = gt, tr_scopes = None\<rparr>"

definition code_form :: url_values where
  "code_form = [(''code'', [''c0de'']), (''redirect_uri'', [''https://rp.example/cb''])]"

definition code_req :: TokenRequest where
  "code_req = sample_req GrantTypeAuthorizationCode code_form"

definition refresh_req :: TokenRequest where
  "refresh_req = sample_req GrantTypeRefreshToken [(''refresh_token'', [''r3fresh''])]"

definition cc_req :: TokenRequest where
  "cc_req = (sample_req GrantTypeClientCredentials [])\<lparr>trScopes := Some [''read''], tr_scopes := Some [''read'']\<rparr>"

lemmas sample_defs =
  sample_key_def sample_iss_def sample_jose_def sample_lifetimes_def sample_endpoints_def
  sample_cfg_def sample_p_def sample_client_def sample_code_def sample_refresh_def sample_http_def
  sample_req_def code_form_def code_req_def refresh_req_def cc_req_def

section \<open>Runs\<close>

text \<open>The bytes the random source returns, as the values made of them.\<close>

definition rnd :: "nat \<Rightarrow> bytes" where
  "rnd n = replicate 32 (char_of n)"

definition rnd_token :: "nat \<Rightarrow> string" where
  "rnd_token n = randomToken_of (rnd n)"

lemma length_rnd [simp]: "length (rnd n) = 32"
  by (simp add: rnd_def)

subsection \<open>Hashes\<close>

lemma rnd_token_values:
  "rnd_token 1 = ''AQEBAQEBAQEBAQEBAQEBAQEBAQEBAQEBAQEBAQEBAQE''"
  "rnd_token 2 = ''AgICAgICAgICAgICAgICAgICAgICAgICAgICAgICAgI''"
  "rnd_token 3 = ''AwMDAwMDAwMDAwMDAwMDAwMDAwMDAwMDAwMDAwMDAwM''"
  by (simp_all add: rnd_token_def rnd_def randomToken_of_def replicate_numeral b64_char_def byte_def,
      code_simp+)

lemma sample_hash_code: "hashToken ''c0de'' = ''OAO0dgmipGQFRlmxSgzfupKDD7Ru5wwDozbVVUuaytQ''"
  unfolding hashToken_def
  by (subst sha256_one_block, simp, simp add: sha256_eval b64_char_def) code_simp

lemma sample_hash_id:
  "hashToken (rnd_token 1) = ''VtX6czP210fbQsI5QH5dpMMvTHnzXQkrE0_TWkAtnFw''"
  unfolding hashToken_def rnd_token_values
  by (subst sha256_one_block, simp, simp add: sha256_eval b64_char_def) code_simp

lemma sample_hash_access:
  "hashToken (rnd_token 2) = ''bB1ju9q0N8VDaMu9iIaohqea2XcpfiZe6_H19fAVM7k''"
  unfolding hashToken_def rnd_token_values
  by (subst sha256_one_block, simp, simp add: sha256_eval b64_char_def) code_simp

lemma sample_hash_refresh:
  "hashToken (rnd_token 3) = ''g77gcvvTQj90gfwWOCFjatjPtz-u8N0FgfOXnqDHMbk''"
  unfolding hashToken_def rnd_token_values
  by (subst sha256_one_block, simp, simp add: sha256_eval b64_char_def) code_simp

definition sample_plan :: issuePlan where
  "sample_plan =
     \<lparr>ipScopes = [''read''], ipAudience = [''https://api.example''], ipRefresh = True,
      ipFormat = AccessTokenFormatOpaque, ipAccessClaims = [], ipIDClaims = [],
      ipAccessLifetime = 15 * minute, ipRefreshLifetime = 24 * hour, ipIDLifetime = 15 * minute\<rparr>"

definition code_log :: "event list" where
  "code_log =
     [EvLoadToken (hashToken ''c0de'') (Inr sample_code), EvNow 2, EvNow 3, EvRand (rnd 1), EvRand (rnd 2),
      EvRand (rnd 3), EvCreateToken (access_record sample_code 3 (rnd_token 2) sample_plan) None,
      EvCreateToken (refresh_record sample_code 3 (rnd_token 3) sample_plan) None,
      EvNow 4, EvConsumeToken (hashToken ''c0de'') 4 (Inr sample_code)]"

definition code_resp :: TokenResponse where
  "code_resp = new_response sample_plan (rnd_token 2) (rnd_token 3) []"

lemma sample_plan_code:
  "planIssuance sample_cfg req sample_client sample_code [''read''] True = Inr sample_plan"
  by (simp add: planIssuance_def initial_plan_def sample_plan_def sample_defs token_zero_def
      second_def minute_def hour_def)

lemma sample_p_sel [simp]:
  "pvCfg sample_p = sample_cfg" "pvJose sample_p = sample_jose" "pvStatic sample_p = Some sample_iss"
  by (simp_all add: sample_p_def)

lemma sample_plan_sel [simp]:
  "ipFormat sample_plan = AccessTokenFormatOpaque" "ipRefresh sample_plan"
  "ipScopes sample_plan = [''read'']"
  by (simp_all add: sample_plan_def)

text \<open>A program, run on a list of answers.\<close>

lemmas run_log_simps =
  performs_def after.simps advance.simps bind.simps bindE_def op_defs event.case option.case sum.case

lemma code_check [simp]: "checkTokenRequest (Some code_req) = Inr sample_client"
  by (simp add: checkTokenRequest_def code_req_def sample_req_def)

text \<open>A request that redeems the code, whatever else it holds.\<close>

definition redeems_code :: "TokenRequest \<Rightarrow> bool" where
  "redeems_code req \<longleftrightarrow>
     checkTokenRequest (Some req) = Inr sample_client \<and>
     values_Get (trForm req) ''code'' = ''c0de'' \<and>
     values_Get (trForm req) ''redirect_uri'' = ''https://rp.example/cb'' \<and>
     values_Get (trForm req) ''code_verifier'' = [] \<and>
     trGrantType req = GrantTypeAuthorizationCode \<and> tr_scopes req = None \<and>
     tr_iss req = Some sample_iss"

lemma redeems_code_run:
  assumes "redeems_code req"
  shows "performs (exchange sample_p (Some req)) code_log (Inr code_resp)"
proof -
  have 1: "client_allowsGrant sample_client GrantTypeAuthorizationCode"
      "client_allowsGrant sample_client GrantTypeRefreshToken"
    by (simp_all add: client_allowsGrant_def client_grantTypes_def sample_client_def)
  have check: "checkTokenRequest (Some req) = Inr sample_client"
    and 2: "values_Get (trForm req) ''code'' = ''c0de''"
      "values_Get (trForm req) ''redirect_uri'' = ''https://rp.example/cb''"
      "values_Get (trForm req) ''code_verifier'' = []"
      "trGrantType req = GrantTypeAuthorizationCode" "tr_scopes req = None"
      "tr_iss req = Some sample_iss"
    using assms by (simp_all add: redeems_code_def)
  have 3: "tKind sample_code = TokenKindAuthorizationCode" "tIssuer sample_code = rsURL sample_iss"
      "tClientID sample_code = cID sample_client" "tConsumedAt sample_code = 0"
      "tScopes sample_code = [''read'']" "\<not> tHasScope sample_code ''openid''"
      "time_Before 2 (tExpiresAt sample_code)"
      "check_code sample_code ''https://rp.example/cb'' [] = None"
      "checkClientGrant sample_client sample_code = None"
    by (simp_all add: sample_defs token_zero_def check_code_def verifyPKCE_def checkClientGrant_def
        tHasScope_def time_Before_def minute_def second_def)
  show ?thesis
    unfolding exchange_def check code_log_def code_resp_def
    by (simp add: run_log_simps exchangeAuthorizationCode_def 1 2 3 singleUseToken_def check_error_def
        checkUnused_def time_IsZero_def narrowScopes_def sample_plan_code sample_p_sel Let_def
        mintTokens_def encodeAccessToken_def sample_plan_sel storeAndConsume_def consume_def
        rnd_token_def)
qed

lemma code_run: "performs (exchange sample_p (Some code_req)) code_log (Inr code_resp)"
  by (rule redeems_code_run)
    (simp add: redeems_code_def, simp add: code_req_def sample_req_def code_form_def values_Get_def map_get_def)

definition refresh_log :: "event list" where
  "refresh_log =
     [EvLoadToken (hashToken ''r3fresh'') (Inr sample_refresh), EvNow 2, EvNow 3, EvRand (rnd 1),
      EvRand (rnd 2), EvRand (rnd 3),
      EvCreateToken (access_record sample_refresh 3 (rnd_token 2) sample_plan) None,
      EvCreateToken (refresh_record sample_refresh 3 (rnd_token 3) sample_plan) None,
      EvNow 4, EvConsumeToken (hashToken ''r3fresh'') 4 (Inr sample_refresh)]"

lemma refresh_req_values [simp]:
  "values_Get (trForm refresh_req) ''refresh_token'' = ''r3fresh''"
  "trGrantType refresh_req = GrantTypeRefreshToken" "tr_scopes refresh_req = None"
  "tr_iss refresh_req = Some sample_iss" "tr_client refresh_req = sample_client"
  by (simp_all add: refresh_req_def sample_req_def values_Get_def map_get_def)

lemma sample_plan_refresh:
  "planIssuance sample_cfg refresh_req sample_client sample_refresh [''read''] True = Inr sample_plan"
  by (simp add: planIssuance_def initial_plan_def sample_plan_def sample_defs token_zero_def
      second_def minute_def hour_def)

lemma refresh_run: "performs (exchange sample_p (Some refresh_req)) refresh_log (Inr code_resp)"
proof -
  have 0: "checkTokenRequest (Some refresh_req) = Inr sample_client"
    by (simp add: checkTokenRequest_def refresh_req_def sample_req_def)
  have 1: "client_allowsGrant sample_client GrantTypeRefreshToken"
    by (simp_all add: client_allowsGrant_def client_grantTypes_def sample_client_def)
  have 3: "tKind sample_refresh = TokenKindRefreshToken" "tIssuer sample_refresh = rsURL sample_iss"
      "tClientID sample_refresh = cID sample_client" "tConsumedAt sample_refresh = 0"
      "tScopes sample_refresh = [''read'']" "time_Before 2 (tExpiresAt sample_refresh)"
      "checkClientGrant sample_client sample_refresh = None"
    by (simp_all add: sample_defs token_zero_def checkClientGrant_def time_Before_def minute_def
        second_def)
  show ?thesis
    unfolding exchange_def 0 refresh_log_def code_resp_def
    by (simp add: run_log_simps exchangeRefreshToken_def 1 3 singleUseToken_def check_error_def
        checkUnused_def time_IsZero_def narrowScopes_def sample_plan_refresh Let_def
        mintTokens_def encodeAccessToken_def storeAndConsume_def consume_def rnd_token_def)
qed

definition cc_grant :: Token where
  "cc_grant = token_zero\<lparr>tGrantID := rnd_token 0, tIssuer := ''https://op.example'', tClientID := ''app'',
     tScopes := [''read''], tAudience := [''https://api.example'']\<rparr>"

definition cc_plan :: issuePlan where
  "cc_plan = sample_plan\<lparr>ipRefresh := False\<rparr>"

definition cc_log :: "event list" where
  "cc_log =
     [EvRand (rnd 0), EvNow 3, EvRand (rnd 1), EvRand (rnd 2),
      EvCreateToken (access_record cc_grant 3 (rnd_token 2) cc_plan) None]"

definition cc_resp :: TokenResponse where
  "cc_resp = new_response cc_plan (rnd_token 2) [] []"

lemma sample_plan_cc:
  "planIssuance sample_cfg cc_req sample_client cc_grant [''read''] False = Inr cc_plan"
  by (simp add: planIssuance_def initial_plan_def sample_plan_def cc_plan_def cc_grant_def sample_defs
      token_zero_def second_def minute_def hour_def)

lemma cc_run: "performs (exchange sample_p (Some cc_req)) cc_log (Inr cc_resp)"
proof -
  have 0: "checkTokenRequest (Some cc_req) = Inr sample_client"
    by (simp add: checkTokenRequest_def cc_req_def sample_req_def)
  have 1: "\<not> client_isPublic sample_client" "client_allowsGrant sample_client GrantTypeClientCredentials"
      "cID sample_client = ''app''" "cAudience sample_client = [''https://api.example'']"
    by (simp_all add: client_allowsGrant_def client_grantTypes_def client_isPublic_def
        client_authMethod_def sample_client_def)
  have 2: "validateScopes sample_client (tr_scopes cc_req) = Inr [''read'']"
    by (simp add: validateScopes_def cc_req_def sample_client_def opt_list_def validScopeToken_def byte_def)
  have 3: "trGrantType cc_req = GrantTypeClientCredentials" "tr_iss cc_req = Some sample_iss"
      "tr_client cc_req = sample_client" "rsURL sample_iss = ''https://op.example''"
      "ipFormat cc_plan = AccessTokenFormatOpaque" "\<not> ipRefresh cc_plan" "ipScopes cc_plan = [''read'']"
    by (simp_all add: cc_req_def sample_req_def sample_iss_def cc_plan_def)
  show ?thesis
    unfolding exchange_def 0 cc_log_def cc_resp_def
    by (simp add: run_log_simps exchangeClientCredentials_def 1 2 3 cc_grant_def [symmetric]
        rnd_token_def [symmetric] issueTokens_def sample_plan_cc Let_def mintTokens_def
        encodeAccessToken_def)
qed

section \<open>The sample in memory\<close>

lemma sample_code_sel [simp]:
  "tConsumedAt sample_code = 0" "tKind sample_code = TokenKindAuthorizationCode"
  "tGrantID sample_code = ''grant''" "tHash sample_code = hashToken ''c0de''"
  by (simp_all add: sample_code_def token_zero_def)

lemmas clone_simps =
  clone_token_def clone_strings_def json_map_roundtrip_def json_string_ascii [OF hashToken_ascii] byte_def

definition sample_access :: Token where
  "sample_access = access_record sample_code 3 (rnd_token 2) sample_plan"

definition sample_refreshed :: Token where
  "sample_refreshed = refresh_record sample_code 3 (rnd_token 3) sample_plan"

lemma clone_samples [simp]:
  "clone_token sample_code = sample_code"
  "clone_token sample_access = sample_access"
  "clone_token sample_refreshed = sample_refreshed"
  by (simp_all add: clone_simps sample_code_def token_zero_def sample_access_def access_record_def
      sample_refreshed_def refresh_record_def derive_def sample_plan_def)

definition used_code :: Token where
  "used_code = sample_code\<lparr>tConsumedAt := 4\<rparr>"

definition sample_store :: "(string \<Rightarrow> Token option) \<Rightarrow> Store" where
  "sample_store m = store_New\<lparr>msTokens := m\<rparr>"

definition sample_world :: "(string \<Rightarrow> Token option) \<Rightarrow> time \<Rightarrow> nat list \<Rightarrow> bytes list \<Rightarrow> world" where
  "sample_world m now ticks random =
     \<lparr>wStore = sample_store m, wNow = now, wTicks = ticks, wRandom = random\<rparr>"

definition code_world :: world where
  "code_world = sample_world [hashToken ''c0de'' \<mapsto> sample_code] 2 [1, 1] [rnd 1, rnd 2, rnd 3]"

definition spent_world :: world where
  "spent_world = sample_world
     [hashToken ''c0de'' \<mapsto> used_code, tHash sample_access \<mapsto> sample_access,
      tHash sample_refreshed \<mapsto> sample_refreshed] 4 [] []"

lemma sample_hashes:
  "tHash sample_access = hashToken (rnd_token 2)" "tHash sample_refreshed = hashToken (rnd_token 3)"
  "hashToken (rnd_token 2) \<noteq> hashToken ''c0de''" "hashToken (rnd_token 3) \<noteq> hashToken ''c0de''"
  "hashToken (rnd_token 3) \<noteq> hashToken (rnd_token 2)"
proof -
  show "tHash sample_access = hashToken (rnd_token 2)" "tHash sample_refreshed = hashToken (rnd_token 3)"
    by (simp_all add: sample_access_def sample_refreshed_def access_record_def refresh_record_def
        derive_def)
qed (simp_all only: sample_hash_code sample_hash_access sample_hash_refresh, simp_all)

lemma sample_collect: "0 \<le> n \<Longrightarrow> n < minute \<Longrightarrow> store_collectLocked n (sample_store m) = sample_store m"
  by (simp add: store_collectLocked_def sample_store_def store_New_def time_Sub_def max_duration_def
      min_duration_def minute_def second_def)

lemma sample_serve:
  "m h = Some t \<Longrightarrow> clone_token t = t' \<Longrightarrow>
     serve mem (EvLoadToken h (Inr t')) (sample_world m n ticks rs) = Some (sample_world m n ticks rs)"
  "serve mem (EvNow n) (sample_world m n (d # ticks) rs) = Some (sample_world m (n + int d) ticks rs)"
  "serve mem (EvNow n) (sample_world m n [] rs) = Some (sample_world m n [] rs)"
  "length b = 32 \<Longrightarrow>
     serve mem (EvRand b) (sample_world m n ticks (b # rs)) = Some (sample_world m n ticks rs)"
  "0 \<le> n \<Longrightarrow> n < minute \<Longrightarrow> m (tHash u) = None \<Longrightarrow>
     serve mem (EvCreateToken u None) (sample_world m n ticks rs) =
       Some (sample_world (m(tHash u \<mapsto> clone_token u)) n ticks rs)"
  "m h = Some t \<Longrightarrow> clone_token t = t' \<Longrightarrow> tConsumedAt t = 0 \<Longrightarrow>
     serve mem (EvConsumeToken h at (Inr t')) (sample_world m n ticks rs) =
       Some (sample_world (m(h \<mapsto> t\<lparr>tConsumedAt := at\<rparr>)) n ticks rs)"
  "serve mem (EvRevokeGrant g None) (sample_world m n ticks rs) =
     Some (sample_world (\<lambda>h. case m h of None \<Rightarrow> None
                              | Some t \<Rightarrow> if tGrantID t = g then None else Some t) n ticks rs)"
  by (simp_all add: answered_def on_store_def store_Token_def store_tokenLocked_def sample_world_def
      world_now_def world_rand_def store_CreateToken_def sample_collect store_ConsumeToken_def
      store_RevokeGrant_def time_IsZero_def)
    (simp_all add: sample_store_def time_IsZero_def)

lemma serves_code_log: "serves mem code_log code_world = Some spent_world"
proof -
  have "m(h \<mapsto> a, k \<mapsto> b, l \<mapsto> c, h \<mapsto> d) = m(h \<mapsto> d, k \<mapsto> b, l \<mapsto> c)"
    if "h \<noteq> k" "h \<noteq> l" for m :: "string \<Rightarrow> Token option" and h k l a b c d
    using that by (auto simp: fun_eq_iff)
  from this [of "hashToken ''c0de''" "tHash sample_access" "tHash sample_refreshed"] show ?thesis
    by (simp add: code_log_def code_world_def spent_world_def sample_serve minute_def second_def
        sample_access_def [symmetric] sample_refreshed_def [symmetric] sample_hashes not_sym [OF sample_hashes(3)] not_sym [OF sample_hashes(4)] used_code_def
        del: serve.simps)
qed

text \<open>The code is presented again: the grant is revoked.\<close>

definition replay_log :: "event list" where
  "replay_log = [EvLoadToken (hashToken ''c0de'') (Inr used_code), EvRevokeGrant ''grant'' None]"

definition revoked_world :: world where
  "revoked_world = sample_world Map.empty 4 [] []"

lemma used_code_clone: "clone_token used_code = used_code"
  by (simp add: used_code_def)

lemma serves_replay_log: "serves mem replay_log spent_world = Some revoked_world"
proof -
  have "tGrantID used_code = ''grant''" "tGrantID sample_access = ''grant''"
      "tGrantID sample_refreshed = ''grant''"
    by (simp_all add: used_code_def sample_access_def sample_refreshed_def access_record_def
        refresh_record_def derive_def)
  then show ?thesis
    by (simp add: replay_log_def spent_world_def revoked_world_def sample_serve used_code_clone
        sample_hashes not_sym [OF sample_hashes(3)] not_sym [OF sample_hashes(4)] del: serve.simps)
      (rule arg_cong [where f = "\<lambda>m. sample_world m 4 [] []"], auto simp: fun_eq_iff)
qed

lemma code_req_values [simp]:
  "values_Get (trForm code_req) ''code'' = ''c0de''"
  "values_Get (trForm code_req) ''redirect_uri'' = ''https://rp.example/cb''"
  "values_Get (trForm code_req) ''code_verifier'' = []"
  "trGrantType code_req = GrantTypeAuthorizationCode" "tr_scopes code_req = None"
  "tr_iss code_req = Some sample_iss" "tr_client code_req = sample_client"
  by (simp_all add: code_req_def sample_req_def code_form_def values_Get_def map_get_def)

lemma replay_run: "performs (exchange sample_p (Some code_req)) replay_log (Inl invalid_grant)"
proof -
  have "client_allowsGrant sample_client GrantTypeAuthorizationCode"
    by (simp add: client_allowsGrant_def client_grantTypes_def sample_client_def)
  moreover have "tKind used_code = TokenKindAuthorizationCode" "tIssuer used_code = rsURL sample_iss"
      "tClientID used_code = cID sample_client" "tConsumedAt used_code = 4"
      "tGrantID used_code = ''grant''"
      "check_code used_code ''https://rp.example/cb'' [] = None"
    by (simp_all add: used_code_def sample_defs token_zero_def check_code_def verifyPKCE_def)
  ultimately show ?thesis
    unfolding exchange_def code_check replay_log_def
    by (simp add: run_log_simps exchangeAuthorizationCode_def singleUseToken_def check_error_def
        checkUnused_def revokeReusedGrant_def time_IsZero_def Let_def)
qed

text \<open>A run in which storing fails: a token with the value of the new access token exists already.\<close>

definition conflict_log :: "event list" where
  "conflict_log =
     [EvLoadToken (hashToken ''c0de'') (Inr sample_code), EvNow 2, EvNow 3, EvRand (rnd 1),
      EvRand (rnd 2), EvRand (rnd 3), EvCreateToken sample_access (Some ErrConflict),
      EvRevokeToken (tHash sample_access) None, EvRevokeToken (tHash sample_refreshed) None]"

definition conflict_world :: world where
  "conflict_world = sample_world
     [hashToken ''c0de'' \<mapsto> sample_code, tHash sample_access \<mapsto> sample_access] 2 [1, 1]
     [rnd 1, rnd 2, rnd 3]"

definition conflict_end :: world where
  "conflict_end = sample_world [hashToken ''c0de'' \<mapsto> sample_code] 4 [] []"

lemma conflict_run:
  "performs (exchange sample_p (Some code_req)) conflict_log (Inl (errServer ErrConflict))"
proof -
  have 1: "client_allowsGrant sample_client GrantTypeAuthorizationCode"
      "client_allowsGrant sample_client GrantTypeRefreshToken"
    by (simp_all add: client_allowsGrant_def client_grantTypes_def sample_client_def)
  have 3: "tIssuer sample_code = rsURL sample_iss"
      "tClientID sample_code = cID sample_client"
      "tScopes sample_code = [''read'']" "\<not> tHasScope sample_code ''openid''"
      "time_Before 2 (tExpiresAt sample_code)"
      "check_code sample_code ''https://rp.example/cb'' [] = None"
      "checkClientGrant sample_client sample_code = None"
    by (simp_all add: sample_defs token_zero_def check_code_def verifyPKCE_def checkClientGrant_def
        tHasScope_def time_Before_def minute_def second_def)
  have 2: "planIssuance sample_cfg code_req sample_client sample_code [''read''] True = Inr sample_plan"
    by (rule sample_plan_code)
  show ?thesis
    unfolding exchange_def code_check conflict_log_def sample_access_def sample_refreshed_def
    by (simp add: run_log_simps exchangeAuthorizationCode_def 1 2 3 singleUseToken_def check_error_def
        checkUnused_def time_IsZero_def narrowScopes_def Let_def
        mintTokens_def encodeAccessToken_def storeAndConsume_def rnd_token_def)
qed

lemma serves_conflict_log: "serves mem conflict_log conflict_world = Some conflict_end"
proof -
  have revoke: "serve mem (EvRevokeToken h None) (sample_world m n ticks rs) =
      Some (sample_world (m(h := None)) n ticks rs)" for h m n ticks rs
    by (simp add: answered_def on_store_def sample_world_def sample_store_def store_RevokeToken_def)
  have conflict: "serve mem (EvCreateToken u (Some ErrConflict)) (sample_world m n ticks rs) =
      Some (sample_world m n ticks rs)" if "0 \<le> n" "n < minute" "m (tHash u) = Some v"
      for u v m n ticks rs
    using that by (simp add: answered_def on_store_def sample_world_def store_CreateToken_def
        sample_collect) (simp add: sample_store_def)
  have m: "m(h \<mapsto> a, k := None, l := None) = m(h \<mapsto> a)"
    if "h \<noteq> k" "h \<noteq> l" "m k = None" "m l = None" for m :: "string \<Rightarrow> Token option" and h k l a
    using that by (auto simp: fun_eq_iff)
  show ?thesis
    using m [of "hashToken ''c0de''" "tHash sample_access" "tHash sample_refreshed" "Map.empty"]
    by (simp add: conflict_log_def conflict_world_def conflict_end_def sample_serve revoke conflict
        minute_def second_def sample_hashes not_sym [OF sample_hashes(3)] not_sym [OF sample_hashes(4)]
        del: serve.simps)
qed

definition conflict_calls :: "(nat \<times> event) list" where
  "conflict_calls = map (Pair 0) conflict_log"

lemma conflict_concurrent:
  "concurrent mem ([exchange sample_p (Some code_req)], conflict_world) conflict_calls
     ([Ret (Inl (errServer ErrConflict))], conflict_end)"
proof -
  define ps where "ps = [exchange sample_p (Some code_req)]"
  have "concurrent mem (ps, conflict_world) ([] @ map (Pair 0) conflict_log)
      (ps[0 := Ret (Inl (errServer ErrConflict))], conflict_end)"
    by (rule concurrent_thread [OF concurrent_start])
      (use conflict_run in \<open>simp_all add: ps_def performs_def serves_conflict_log\<close>)
  then show ?thesis by (simp add: ps_def conflict_calls_def)
qed

lemma conflict_calls_of: "calls_of 0 conflict_calls = conflict_log"
  by (simp add: conflict_calls_def calls_of_def filter_map comp_def)

text \<open>Two requests present the code, one after the other.\<close>

definition two_log :: "(nat \<times> event) list" where
  "two_log = map (Pair 0) code_log @ map (Pair 1) replay_log"

lemma two_threads_run:
  "concurrent mem ([exchange sample_p (Some code_req), exchange sample_p (Some code_req)], code_world)
     two_log ([Ret (Inr code_resp), Ret (Inl invalid_grant)], revoked_world)"
proof -
  define ps where "ps = [exchange sample_p (Some code_req), exchange sample_p (Some code_req)]"
  have "concurrent mem (ps, code_world) ([] @ map (Pair 0) code_log)
      (ps[0 := Ret (Inr code_resp)], spent_world)"
    by (rule concurrent_thread [OF concurrent_start])
      (use code_run in \<open>simp_all add: ps_def performs_def serves_code_log\<close>)
  then have "concurrent mem (ps, code_world) (([] @ map (Pair 0) code_log) @ map (Pair 1) replay_log)
      (ps[0 := Ret (Inr code_resp), 1 := Ret (Inl invalid_grant)], revoked_world)"
    by (rule concurrent_thread)
      (use replay_run in \<open>simp_all add: ps_def performs_def serves_replay_log\<close>)
  then show ?thesis by (simp add: ps_def two_log_def)
qed

end
