(* ===== verification/Grantor_TokenSafety.thy ===== *)
theory Grantor_TokenSafety
  imports Grantor_TokenFacts Grantor_Sample
begin

text \<open>
  The token endpoint as a whole: what any token request may store, whatever the grant, the hooks of
  the application and the answers of the storage; how the exchanges of one code behave when they
  interleave with each other and with other requests; and that revoking a grant revokes everything
  that was issued from it.
\<close>

section \<open>What is stored\<close>

text \<open>A token within what the client is registered for.\<close>

definition within_registration :: "resolvedIssuer \<Rightarrow> Client \<Rightarrow> Token \<Rightarrow> bool" where
  "within_registration iss client u \<longleftrightarrow>
     tIssuer u = rsURL iss \<and> tClientID u = cID client \<and>
     set (tScopes u) \<subseteq> set (cScopes client) \<and> set (tAudience u) \<subseteq> set (cAudience client) \<and>
     tConsumedAt u = 0 \<and> tKind u \<in> {TokenKindAccessToken, TokenKindRefreshToken}"

text \<open>Every created token satisfies the predicate.\<close>

fun creates_only :: "(Token \<Rightarrow> bool) \<Rightarrow> event \<Rightarrow> bool" where
  "creates_only Q (EvCreateToken u r) = Q u"
| "creates_only Q _ = True"

abbreviation storing :: "(Token \<Rightarrow> bool) \<Rightarrow> 'a prog \<Rightarrow> bool" where
  "storing Q p \<equiv> makes (\<lambda>_. True) (creates_only Q) p"

lemma storing_ops [makes_intros]:
  "storing Q provider_now" "storing Q randomToken" "storing Q (storage_Token h)"
  "storing Q (storage_ConsumeToken h n)" "storing Q (storage_RevokeToken h)"
  "storing Q (storage_RevokeGrant g)"
  "Q t \<Longrightarrow> storing Q (storage_CreateToken t)"
  by (simp_all add: op_defs)

lemma storing_reads: "makes (\<lambda>_. True) is_read p \<Longrightarrow> storing Q p"
proof (induction p)
  case (OpCreateToken t k)
  then show ?case by simp
qed auto

lemma storing_mint [makes_intros]: "storing Q (mintTokens p iss client t plan withID nonce gt)"
  by (rule storing_reads [OF mintTokens_reads])

lemma storing_parts [makes_intros]:
  "storing Q (singleUseToken iss client h kind)" "storing Q (checkUnused t)"
  "storing Q (discardTokens ts)" "storing Q (consume h)"
  by (induction ts)
    (auto simp: singleUseToken_def checkUnused_def consume_def revokeReusedGrant_def
      intro!: makes_intros)

lemma storing_storeTokens: "\<forall>t \<in> set ts. Q t \<Longrightarrow> storing Q (storeTokens ts)"
  by (induction ts) (auto intro!: makes_intros)

lemma storing_storeAndConsume:
  "\<forall>t \<in> set (mtRecords minted). Q t \<Longrightarrow> storing Q (storeAndConsume minted h)"
  unfolding storeAndConsume_def by (intro makes_intros storing_storeTokens)

subsection \<open>The minted records\<close>

lemma derive_sel [simp]:
  "tKind (derive g n v k sc) = k" "tScopes (derive g n v k sc) = sc"
  "tIssuer (derive g n v k sc) = tIssuer g" "tClientID (derive g n v k sc) = tClientID g"
  "tGrantID (derive g n v k sc) = tGrantID g" "tSubject (derive g n v k sc) = tSubject g"
  "tAudience (derive g n v k sc) = tAudience g" "tConsumedAt (derive g n v k sc) = 0"
  "tHash (derive g n v k sc) = hashToken v" "tClaims (derive g n v k sc) = tClaims g"
  "tAuthTime (derive g n v k sc) = tAuthTime g" "tACR (derive g n v k sc) = tACR g"
  "tAMR (derive g n v k sc) = tAMR g"
  by (simp_all add: derive_def)

lemma access_record_sel [simp]:
  "tKind (access_record g n v p) = TokenKindAccessToken"
  "tScopes (access_record g n v p) = ipScopes p" "tAudience (access_record g n v p) = ipAudience p"
  "tIssuer (access_record g n v p) = tIssuer g" "tClientID (access_record g n v p) = tClientID g"
  "tGrantID (access_record g n v p) = tGrantID g" "tSubject (access_record g n v p) = tSubject g"
  "tConsumedAt (access_record g n v p) = 0" "tHash (access_record g n v p) = hashToken v"
  by (simp_all add: access_record_def)

lemma refresh_record_sel [simp]:
  "tKind (refresh_record g n v p) = TokenKindRefreshToken"
  "tScopes (refresh_record g n v p) = tScopes g" "tAudience (refresh_record g n v p) = tAudience g"
  "tIssuer (refresh_record g n v p) = tIssuer g" "tClientID (refresh_record g n v p) = tClientID g"
  "tGrantID (refresh_record g n v p) = tGrantID g" "tSubject (refresh_record g n v p) = tSubject g"
  "tConsumedAt (refresh_record g n v p) = 0" "tHash (refresh_record g n v p) = hashToken v"
  by (simp_all add: refresh_record_def)

lemma minted_within:
  assumes "minted_from p iss client t plan withID nonce minted"
    and "tIssuer t = rsURL iss" and "tClientID t = cID client"
    and "set (tScopes t) \<subseteq> set (cScopes client)" and "set (tAudience t) \<subseteq> set (cAudience client)"
    and "set (ipScopes plan) \<subseteq> set (tScopes t)" and "set (ipAudience plan) \<subseteq> set (tAudience t)"
  shows "\<forall>u \<in> set (mtRecords minted). within_registration iss client u"
proof -
  have "set (ipScopes plan) \<subseteq> set (cScopes client)" "set (ipAudience plan) \<subseteq> set (cAudience client)"
    using assms(4-7) by blast+
  moreover obtain now accessToken refresh where "mtRecords minted =
      access_record t now accessToken plan
      # (if ipRefresh plan then [refresh_record t now refresh plan] else [])"
    using assms(1) unfolding minted_from_def by blast
  ultimately show ?thesis using assms(2-5) by (simp add: within_registration_def)
qed

lemma planIssuance_narrows:
  assumes "planIssuance cfg req client t scopes withRefresh = Inr plan"
  shows "set (ipScopes plan) \<subseteq> set scopes" and "set (ipAudience plan) \<subseteq> set (tAudience t)"
    and "ipRefresh plan \<Longrightarrow> withRefresh"
proof -
  define plan0 where "plan0 = initial_plan cfg client t scopes withRefresh"
  have step: "(case cfBeforeIssue cfg of None \<Rightarrow> Inr plan0
              | Some hook \<Rightarrow> runBeforeIssue cfg hook req client t plan0) = Inr plan"
    using assms unfolding plan0_def
    by (auto simp: planIssuance_def Let_def split: sum.split_asm if_split_asm)
  have "set (ipScopes plan) \<subseteq> set (ipScopes plan0) \<and> set (ipAudience plan) \<subseteq> set (ipAudience plan0) \<and>
      (ipRefresh plan \<longrightarrow> ipRefresh plan0)"
  proof (cases "cfBeforeIssue cfg")
    case (Some hook)
    then have "runBeforeIssue cfg hook req client t plan0 = Inr plan" using step by simp
    then show ?thesis
    proof (rule runBeforeIssue_Inr)
      fix iu
      assume ck: "check_issuance cfg plan0 iu = None"
        and rest: "set (iuScopes iu) \<subseteq> set (ipScopes plan0)" "ipScopes plan = nub_loop [] (iuScopes iu)"
          "set (iuAudience iu) \<subseteq> set (ipAudience plan0)"
          "ipAudience plan = nub_loop [] (iuAudience iu)" "ipRefresh plan = iuRefreshToken iu"
      have "iuRefreshToken iu \<longrightarrow> ipRefresh plan0"
        using ck by (auto simp: check_issuance_def split: if_split_asm)
      with rest show ?thesis by simp
    qed
  qed (use step in simp)
  then show "set (ipScopes plan) \<subseteq> set scopes" and "set (ipAudience plan) \<subseteq> set (tAudience t)"
    and "ipRefresh plan \<Longrightarrow> withRefresh"
    by (auto simp: plan0_def)
qed

lemma narrowScopes_Inr:
  "narrowScopes allowed requested = Inr out \<Longrightarrow> set out \<subseteq> set allowed"
  by (auto simp: narrowScopes_def select_loop_eq split: option.splits if_splits)

lemma checkClientGrant_None:
  "checkClientGrant client t = None \<longleftrightarrow>
     set (tScopes t) \<subseteq> set (cScopes client) \<and> set (tAudience t) \<subseteq> set (cAudience client)"
  by (simp add: checkClientGrant_def)

lemma validateScopes_Inr:
  assumes "validateScopes client req = Inr scopes"
  shows "scopes = opt_list req \<and> set scopes \<subseteq> set (cScopes client) \<and> (\<forall>s \<in> set scopes. validScopeToken s)"
proof -
  have loop: "validateScopes_loop client ss = None \<longleftrightarrow>
      (\<forall>s \<in> set ss. validScopeToken s \<and> s \<in> set (cScopes client))" for ss
    by (induction ss) auto
  show ?thesis
    using assms by (auto simp: validateScopes_def loop split: option.splits)
qed

subsection \<open>Every grant\<close>

lemma singleUseToken_checks:
  "performs (singleUseToken iss client h kind) log (Inr t) \<Longrightarrow>
     tKind t = kind \<and> tIssuer t = rsURL iss \<and> tClientID t = cID client"
  by (elim singleUseToken_performs) auto

lemma storing_tail:
  assumes "tIssuer t = rsURL iss" and "tClientID t = cID client"
    and "checkClientGrant client t = None" and "set scopes \<subseteq> set (tScopes t)"
    and "planIssuance cfg req client t scopes withRefresh = Inr plan"
    and "\<And>minted. \<forall>u \<in> set (mtRecords minted). within_registration iss client u \<Longrightarrow>
           storing (within_registration iss client) (f minted)"
  shows "storing (within_registration iss client)
           (bindE (mintTokens p iss client t plan withID nonce gt) f)"
proof (rule makes_bindE_performs [OF storing_mint])
  fix log minted
  assume "performs (mintTokens p iss client t plan withID nonce gt) log (Inr minted)"
  from minted_within [OF mintTokens_Inr [OF this] assms(1,2)] planIssuance_narrows [OF assms(5)]
    assms(3,4,6)
  show "storing (within_registration iss client) (f minted)"
    by (auto simp: checkClientGrant_None)
qed

lemmas storing_use = storing_tail [OF _ _ _ _ _ storing_storeAndConsume]

lemma storing_exchangeAuthorizationCode:
  "storing (within_registration (the (tr_iss req)) client) (exchangeAuthorizationCode p req client)"
  unfolding exchangeAuthorizationCode_def Let_def
proof (intro makes_branches makes_Ret, goal_cases)
  case 1
  show ?case
  proof (rule makes_bindE_performs [OF storing_parts(1)])
    fix log t
    assume "performs (singleUseToken (the (tr_iss req)) client
        (hashToken (values_Get (trForm req) ''code'')) TokenKindAuthorizationCode) log (Inr t)"
    from singleUseToken_checks [OF this]
    show "storing (within_registration (the (tr_iss req)) client)
      (bindE (Ret (check_error (check_code t (values_Get (trForm req) ''redirect_uri'')
                                   (values_Get (trForm req) ''code_verifier'')))) (\<lambda>_.
        bindE (checkUnused t) (\<lambda>_.
        bindE (Ret (check_error (checkClientGrant client t))) (\<lambda>_.
        bindE (Ret (narrowScopes (tScopes t) (tr_scopes req))) (\<lambda>accessScopes.
        bindE (Ret (planIssuance (pvCfg p) req client t accessScopes
                     (client_allowsGrant client GrantTypeRefreshToken \<and>
                      (\<not> tHasScope t ''openid'' \<or> tHasScope t ''offline_access'')))) (\<lambda>plan.
        bindE (mintTokens p (the (tr_iss req)) client t plan (tHasScope t ''openid'') (tNonce t) (trGrantType req))
          (\<lambda>minted.
        storeAndConsume minted (hashToken (values_Get (trForm req) ''code'')))))))))"
      by (intro makes_bindE_Ret makes_bindE [OF storing_parts(2)])
        (rule storing_use; simp add: narrowScopes_Inr)
  qed
qed

lemma storing_exchangeRefreshToken:
  "storing (within_registration (the (tr_iss req)) client) (exchangeRefreshToken p req client)"
  unfolding exchangeRefreshToken_def Let_def
proof (intro makes_branches makes_Ret, goal_cases)
  case 1
  show ?case
  proof (rule makes_bindE_performs [OF storing_parts(1)])
    fix log t
    assume "performs (singleUseToken (the (tr_iss req)) client
        (hashToken (values_Get (trForm req) ''refresh_token'')) TokenKindRefreshToken) log (Inr t)"
    from singleUseToken_checks [OF this]
    show "storing (within_registration (the (tr_iss req)) client)
        (bindE (checkUnused t) (\<lambda>_.
        bindE (Ret (narrowScopes (tScopes t) (tr_scopes req))) (\<lambda>accessScopes.
        bindE (Ret (check_error (checkClientGrant client t))) (\<lambda>_.
        bindE (Ret (planIssuance (pvCfg p) req client t accessScopes True)) (\<lambda>plan.
        bindE (mintTokens p (the (tr_iss req)) client t plan (''openid'' \<in> set (ipScopes plan)) []
                 (trGrantType req)) (\<lambda>minted.
        storeAndConsume minted (hashToken (values_Get (trForm req) ''refresh_token''))))))))"
      by (intro makes_bindE_Ret makes_bindE [OF storing_parts(2)])
        (rule storing_use; simp add: narrowScopes_Inr)
  qed
qed

lemma storing_issueTokens:
  assumes "tIssuer t = rsURL (the (tr_iss req))" and "tClientID t = cID client"
    and "checkClientGrant client t = None" and "set scopes \<subseteq> set (tScopes t)"
  shows "storing (within_registration (the (tr_iss req)) client)
           (issueTokens p req client t scopes withRefresh)"
  unfolding issueTokens_def
proof (intro makes_bindE_Ret)
  fix plan
  assume "planIssuance (pvCfg p) req client t scopes withRefresh = Inr plan"
  then show "storing (within_registration (the (tr_iss req)) client)
     (bindE (mintTokens p (the (tr_iss req)) client t plan (''openid'' \<in> set (ipScopes plan)) []
             (trGrantType req)) (\<lambda>minted.
     bind (storeTokens (mtRecords minted)) (\<lambda>r.
       case r of
         Some perr \<Rightarrow> bind (discardTokens (mtRecords minted)) (\<lambda>_. Ret (Inl perr))
       | None \<Rightarrow> Ret (Inr (mtResp minted)))))"
    by (rule storing_tail [OF assms]) (intro makes_intros storing_storeTokens)
qed

lemma storing_exchangeClientCredentials:
  "storing (within_registration (the (tr_iss req)) client) (exchangeClientCredentials p req client)"
  unfolding exchangeClientCredentials_def
  by (intro makes_intros storing_issueTokens)
    (auto simp: token_zero_def checkClientGrant_None dest: validateScopes_Inr)

lemma storing_issueGrant:
  "storing (within_registration (the (tr_iss req)) client) (issueGrant p req client go)"
  unfolding issueGrant_def subsetOf_def
  by (intro makes_intros storing_issueTokens)
    (auto simp: token_zero_def checkClientGrant_None select_loop_eq split: if_split_asm)

lemma checkTokenRequest_Inr:
  "checkTokenRequest reqo = Inr c \<longleftrightarrow>
     (\<exists>req c'. reqo = Some req \<and> tr_iss req \<noteq> None \<and> trClient req = Some c' \<and> cID c' = cID c \<and>
        trGrantType req = tr_grantType req \<and> opt_list (trScopes req) = opt_list (tr_scopes req) \<and>
        c = tr_client req)"
  by (auto simp: checkTokenRequest_def split: option.splits if_splits)

lemma makes_mono: "makes A P p \<Longrightarrow> (\<And>ev. P ev \<Longrightarrow> P' ev) \<Longrightarrow> makes A P' p"
  by (induction p) auto

lemma creates_only_mono: "creates_only Q ev \<Longrightarrow> (\<And>u. Q u \<Longrightarrow> Q' u) \<Longrightarrow> creates_only Q' ev"
  by (cases ev) auto

text \<open>The token of any grant: of the client that authenticated, and of the issuer of the request
  unless a function of the application swapped the request for another one.\<close>

definition issued_for :: "TokenRequest \<Rightarrow> Token \<Rightarrow> bool" where
  "issued_for req u \<longleftrightarrow>
     (\<exists>iss. within_registration iss (tr_client req) u \<and>
        (builtin_grant (trGrantType req) \<longrightarrow> iss = the (tr_iss req)))"

lemma storing_issued_for:
  "storing (within_registration iss (tr_client req)) q \<Longrightarrow>
     (builtin_grant (trGrantType req) \<Longrightarrow> iss = the (tr_iss req)) \<Longrightarrow> storing (issued_for req) q"
  by (erule makes_mono, erule creates_only_mono) (auto simp: issued_for_def)

lemma storing_exchange: "storing (issued_for req) (exchange p (Some req))"
proof (cases "checkTokenRequest (Some req)")
  case (Inl perr)
  then show ?thesis by (simp add: exchange_def)
next
  case (Inr client)
  then have client: "client = tr_client req" by (auto simp: checkTokenRequest_Inr)
  note builtin = storing_issued_for [OF storing_exchangeAuthorizationCode]
    storing_issued_for [OF storing_exchangeRefreshToken]
    storing_issued_for [OF storing_exchangeClientCredentials]
  note custom = storing_issued_for [OF storing_issueGrant]
  show ?thesis
    unfolding exchange_def Inr sum.case client Let_def option.sel
    by (intro makes_branches makes_Ret builtin custom) (auto simp: builtin_grant_def)
qed

lemma storing_performs:
  "storing Q p \<Longrightarrow> performs p log a \<Longrightarrow> EvCreateToken u r \<in> set log \<Longrightarrow> Q u"
  using makes_performs by fastforce

section \<open>The grants of exchange\<close>

lemma exchange_cases:
  assumes "performs (exchange p (Some req)) log r"
  obtains e where "checkTokenRequest (Some req) = Inl e" and "log = []" and "r = Inl e"
  | "checkTokenRequest (Some req) = Inr (tr_client req)"
    and "trGrantType req = GrantTypeAuthorizationCode \<Longrightarrow>
           performs (exchangeAuthorizationCode p req (tr_client req)) log r"
    and "trGrantType req = GrantTypeRefreshToken \<Longrightarrow>
           performs (exchangeRefreshToken p req (tr_client req)) log r"
    and "trGrantType req = GrantTypeClientCredentials \<Longrightarrow>
           performs (exchangeClientCredentials p req (tr_client req)) log r"
proof (cases "checkTokenRequest (Some req)")
  case (Inl e)
  with assms that(1) show ?thesis by (auto simp: exchange_def)
next
  case (Inr client)
  then have check: "checkTokenRequest (Some req) = Inr (tr_client req)"
    by (auto simp: checkTokenRequest_Inr)
  note ex = assms [unfolded exchange_def check sum.case Let_def option.sel]
  show ?thesis
    by (rule that(2) [OF check]) (use ex in simp)+
qed

lemma storeTokens_None: "performs (storeTokens ts) log None \<Longrightarrow> log = stored ts"
  using storeTokens_performs by blast

lemma issueTokens_Inr:
  assumes "performs (issueTokens p req client t scopes withRefresh) log (Inr resp)"
  obtains plan minted l where "planIssuance (pvCfg p) req client t scopes withRefresh = Inr plan"
    and "minted_from p (the (tr_iss req)) client t plan (''openid'' \<in> set (ipScopes plan)) [] minted"
    and "log = l @ stored (mtRecords minted)" and "writes l = []" and "resp = mtResp minted"
  using assms unfolding issueTokens_def
proof (elim success_steps, goal_cases)
  case (1 plan l m minted)
  from 1(5) obtain m1 m2 s where m: "m = m1 @ m2" and st: "performs (storeTokens (mtRecords minted)) m1 s"
      and rest: "performs (case s of
         Some perr \<Rightarrow> bind (discardTokens (mtRecords minted)) (\<lambda>_. Ret (Inl perr))
       | None \<Rightarrow> Ret (Inr (mtResp minted))) m2 (Inr resp)"
    by (elim performs_bind_steps)
  have s: "s = None" using rest by (cases s) (auto simp: performs_bind)
  with rest m storeTokens_None [OF st [unfolded s]] 1 mintTokens_Inr [OF 1(4)]
    reads_writes [OF mintTokens_reads 1(4)]
  show ?case by (intro 1(1) [of plan minted l]) auto
qed

text \<open>The calls use clock readings only: with a clock that is past the zero time, no token is
  consumed at the zero time.\<close>

definition positive_clock :: "event \<Rightarrow> bool" where
  "positive_clock ev \<longleftrightarrow> (\<forall>n. ev = EvNow n \<longrightarrow> n \<noteq> 0)"

abbreviation timed :: "'a prog \<Rightarrow> bool" where
  "timed p \<equiv> makes positive_clock (\<lambda>ev. \<not> zero_consume ev) p"

lemma timed_ops [makes_intros]:
  "timed provider_now" "timed randomToken" "timed (storage_Token h)"
  "timed (storage_CreateToken t)" "timed (storage_RevokeToken h)" "timed (storage_RevokeGrant g)"
  "timed (clients_Client i c)" "timed (storage_ClaimOnce k e)"
  "timed (storage_CreateAuthorizationRequest q)" "timed (storage_AuthorizationRequest i)"
  "timed (storage_DeleteAuthorizationRequest i)"
  by (simp_all add: op_defs)

lemma timed_storage_ConsumeToken:
  "now \<noteq> 0 \<Longrightarrow> (\<And>r. timed (f r)) \<Longrightarrow> timed (bind (storage_ConsumeToken h now) f)"
  by (simp add: storage_ConsumeToken_def)

lemma positive_clock_EvNow: "positive_clock (EvNow n) \<longleftrightarrow> n \<noteq> 0"
  by (simp add: positive_clock_def)

lemma timed_revokeReusedGrant [makes_intros]: "timed (revokeReusedGrant t)"
  unfolding revokeReusedGrant_def by (intro makes_intros)

lemma timed_consume [makes_intros]: "timed (consume h)"
proof -
  have "timed (bind (storage_ConsumeToken h now) (\<lambda>r.
       case r of
         Inl err \<Rightarrow> Ret (Some (if errors_Is err ErrNotFound then invalid_grant else errServer err))
       | Inr t \<Rightarrow>
           if \<not> time_IsZero (tConsumedAt t) then bind (revokeReusedGrant t) (\<lambda>e. Ret (Some e))
           else Ret None))" if "now \<noteq> 0" for now
    by (rule timed_storage_ConsumeToken [OF that]) (intro makes_intros)
  then show ?thesis
    unfolding consume_def provider_now_def bind.simps makes.simps positive_clock_EvNow by simp
qed

lemma timed_reads: "makes (\<lambda>_. True) is_read p \<Longrightarrow> timed p"
  by (induction p) auto

lemma timed_mint [makes_intros]: "timed (mintTokens p iss client t plan withID nonce gt)"
  by (rule timed_reads [OF mintTokens_reads])

lemma timed_storeTokens [makes_intros]: "timed (storeTokens ts)"
  by (induction ts) (auto intro!: makes_intros)

lemma timed_discardTokens [makes_intros]: "timed (discardTokens ts)"
  by (induction ts) (auto intro!: makes_intros)

lemma timed_exchange: "timed (exchange p reqo)"
  unfolding exchange_def Let_def exchangeAuthorizationCode_def exchangeRefreshToken_def
    exchangeClientCredentials_def issueGrant_def issueTokens_def singleUseToken_def checkUnused_def
    revokeReusedGrant_def storeAndConsume_def
  by (intro makes_intros)

section \<open>Interleaved exchanges\<close>

text \<open>Two threads that both made a call of a kind made two such calls.\<close>

lemma calls_of_set: "ev \<in> set (calls_of i log) \<longleftrightarrow> (i, ev) \<in> set log"
  by (force simp: calls_of_def)

lemma two_threads:
  assumes "ev \<in> set (calls_of i log)" and "ev' \<in> set (calls_of j log)" and "i \<noteq> j"
    and "P ev" and "P ev'"
  shows "2 \<le> length (filter P (map snd log))"
proof -
  define l where "l = filter (\<lambda>x. P (snd x)) log"
  have "(i, ev) \<in> set l" "(j, ev') \<in> set l" using assms by (auto simp: l_def calls_of_set)
  then have "{(i, ev), (j, ev')} \<subseteq> set l" by blast
  then have "card {(i, ev), (j, ev')} \<le> card (set l)" by (intro card_mono) simp
  also have "\<dots> \<le> length l" by (rule card_length)
  finally have "2 \<le> length l" using assms(3) by simp
  then show ?thesis by (simp add: l_def filter_map comp_def)
qed

text \<open>A split of one thread's calls is a split of the run.\<close>

lemma calls_of_split:
  "calls_of i log = l @ ev # m \<Longrightarrow>
     \<exists>c d. log = c @ (i, ev) # d \<and> calls_of i c = l \<and> calls_of i d = m"
proof (induction log arbitrary: l)
  case (Cons x log)
  obtain j ev' where x: "x = (j, ev')" by (cases x)
  show ?case
  proof (cases "j = i \<and> l = []")
    case True
    with Cons.prems x show ?thesis by (intro exI [of _ "[]"] exI [of _ log]) (auto simp: calls_of_def)
  next
    case False
    define l' where "l' = (if j = i then tl l else l)"
    have "calls_of i log = l' @ ev # m"
      using False Cons.prems x by (cases l) (auto simp: calls_of_def l'_def)
    with Cons.IH obtain c d where "log = c @ (i, ev) # d" "calls_of i c = l'" "calls_of i d = m"
      by blast
    with False Cons.prems x show ?thesis
      by (intro exI [of _ "x # c"] exI [of _ d]) (cases l; auto simp: calls_of_def l'_def)
  qed
qed (simp add: calls_of_def)

context storage_contract
begin

lemma serves_positive_clock:
  "serves I log s = Some s1 \<Longrightarrow> 0 < clock s \<Longrightarrow> \<forall>ev \<in> set log. positive_clock ev"
proof (induction log arbitrary: s)
  case (Cons ev log)
  then obtain s' where ev: "serve I ev s = Some s'" and log: "serves I log s' = Some s1"
    by (auto split: option.splits)
  have "positive_clock ev"
    using ev Cons.prems(2)
    by (cases ev) (auto simp: positive_clock_def answered_Some dest!: read_clock)
  moreover have "0 < clock s'" using serve_clock [OF ev] Cons.prems(2) by simp
  ultimately show ?case using Cons.IH [OF log] by simp
qed simp

text \<open>At most one thread of a run consumes a token.\<close>

lemma concurrent_consume_once:
  assumes "concurrent I (ps, s) log (qs, s')" and "0 < clock s" and "\<forall>p \<in> set ps. timed p"
    and "\<forall>ev \<in> snd ` set log. \<not> creates_token h ev"
    and "ev \<in> set (calls_of i log)" and "consumes_token h ev"
    and "ev' \<in> set (calls_of j log)" and "consumes_token h ev'"
  shows "i = j"
proof (rule ccontr)
  assume "i \<noteq> j"
  note sv = concurrent_serves [OF assms(1)]
  have pos: "\<forall>ev \<in> snd ` set log. positive_clock ev"
    using serves_positive_clock [OF sv assms(2)] by simp
  have "\<forall>ev \<in> set (map snd log). \<not> creates_token h ev \<and> \<not> zero_consume ev"
    using concurrent_makes [OF assms(1,3) pos] assms(4) by auto
  from consume_once [OF sv this] two_threads [OF assms(5,7) \<open>i \<noteq> j\<close> assms(6,8)]
  show False by simp
qed

text \<open>What a thread created before it consumed a token of the same grant does not survive the
  revocation of the grant, whenever that happens.\<close>

lemma concurrent_revoked_gone:
  assumes run: "concurrent I (ps, s) log (qs, s')"
    and i: "(i, EvCreateToken u None) \<in> set log" and rev: "(j, EvRevokeGrant (tGrantID u) None) \<in> set log"
    and asc: "is_ascii (tGrantID u)"
    and calls: "calls_of i log = l @ [EvConsumeToken h at (Inr t')]"
    and load: "EvLoadToken h (Inr t) \<in> set l" and g: "tGrantID t = tGrantID u"
    and fresh: "\<forall>ev \<in> snd ` set log. \<not> creates_token h ev"
    and once: "length (filter (creates_token (tHash u)) (map snd log)) \<le> 1"
  shows "toks s' (tHash u) = None"
proof -
  obtain P1 P2 where log: "log = P1 @ (j, EvRevokeGrant (tGrantID u) None) # P2"
    using split_list [OF rev] by blast
  have sv: "serves I (map snd P1 @ EvRevokeGrant (tGrantID u) None # map snd P2) s = Some s'"
    using concurrent_serves [OF run] by (simp add: log)
  have load': "EvLoadToken h (Inr t) \<in> set (map snd P1 @ map snd P2)"
  proof -
    have "(i, EvLoadToken h (Inr t)) \<in> set log"
      using load calls by (simp add: calls_of_set [symmetric])
    then have "(i, EvLoadToken h (Inr t)) \<in> set (P1 @ P2)" by (simp add: log)
    then show ?thesis by (metis image_eqI list.set_map map_append snd_conv)
  qed
  have no: "\<forall>ev \<in> set (map snd P1 @ map snd P2). \<not> creates_token h ev"
    using fresh by (auto simp: log)
  have "yields_token h t (EvLoadToken h (Inr t))" by simp
  from revoked_not_yielded [OF sv asc no load' this g]
  have late: "\<forall>ev \<in> set (map snd P2). \<forall>v. \<not> yields_token h v ev" .
  have split: "calls_of i log =
      calls_of i P1 @ (if j = i then [EvRevokeGrant (tGrantID u) None] else []) @ calls_of i P2"
    by (simp add: log calls_of_def)
  have P2: "calls_of i P2 = []"
  proof (rule ccontr)
    assume ne: "calls_of i P2 \<noteq> []"
    then have "last (calls_of i log) = last (calls_of i P2)" using split by simp
    then have "last (calls_of i P2) = EvConsumeToken h at (Inr t')" using calls by simp
    then have "EvConsumeToken h at (Inr t') \<in> set (calls_of i P2)" using ne last_in_set by metis
    then have "EvConsumeToken h at (Inr t') \<in> set (map snd P2)"
      by (metis calls_of_set image_eqI list.set_map snd_conv)
    then have "\<not> yields_token h t' (EvConsumeToken h at (Inr t'))" using late by blast
    then show False by simp
  qed
  have "j \<noteq> i"
  proof
    assume "j = i"
    then have "last (calls_of i log) = EvRevokeGrant (tGrantID u) None" using split P2 by simp
    then show False using calls by simp
  qed
  then have "calls_of i log = calls_of i P1" using split P2 by simp
  then have "(i, EvCreateToken u None) \<in> set P1" using i by (metis calls_of_set)
  then have "EvCreateToken u None \<in> set (map snd P1)" by (metis image_eqI list.set_map snd_conv)
  then obtain k m where P1: "map snd P1 = k @ EvCreateToken u None # m"
    using split_list by metis
  have "\<forall>ev \<in> set (m @ map snd P2). \<not> creates_token (tHash u) ev"
    using once by (auto simp: log P1 filter_empty_conv)
  then show ?thesis
    using revoked_created_gone [of k u m "tGrantID u" "map snd P2" s s'] sv asc by (simp add: P1)
qed

text \<open>A live token stays while one thread leaves it untouched and the others do not use it up.\<close>

lemma thread_keeps:
  assumes "serves I (map snd log) s = Some s1" and "toks s h = Some t" and "clock s1 \<le> tExpiresAt t"
    and "untouched h (calls_of i log)"
    and "\<forall>(j, ev) \<in> set log. j \<noteq> i \<longrightarrow> \<not> uses_up h (tGrantID t) ev"
  shows "toks s1 h = Some t"
proof (rule serves_keeps [OF assms(1-3)])
  show "\<forall>ev \<in> set (map snd log). \<not> uses_up h (tGrantID t) ev"
  proof
    fix ev assume "ev \<in> set (map snd log)"
    then obtain j where j: "(j, ev) \<in> set log" by auto
    show "\<not> uses_up h (tGrantID t) ev"
    proof (cases "j = i")
      case True
      with j have "ev \<in> set (calls_of i log)" by (force simp: calls_of_def)
      with assms(4) have "\<not> touches h ev" by (simp add: untouched_def)
      then show ?thesis by (rule touches_uses_up)
    qed (use assms(5) j in auto)
  qed
qed

lemma refused_consume_keeps:
  assumes "serve I (EvConsumeToken h at (Inl err)) s = Some s1" and "toks s h = Some t"
    and "clock s \<le> tExpiresAt t"
  shows "\<not> errors_Is err ErrNotFound \<and> toks s1 h \<in> {Some t, Some (mark_consumed at t)}"
proof -
  have "consumes (clock s) h at (Inl err) (toks s) (toks s1)"
    using serve_toks [OF assms(1)] by simp
  moreover have live: "m' h = Some t" if "evolves (clock s) tExpiresAt (toks s) m'" for m'
    using evolves_live [OF that assms(2,3)] .
  ultimately show ?thesis by (auto simp: consumes_def split: if_split_asm dest!: live)
qed

lemma spared_token_kept:
  assumes sv: "serves I (map snd log) s = Some s'" and t: "toks s h = Some t" and "tConsumedAt t = 0"
    and live: "clock s' \<le> tExpiresAt t" and sp: "spares h (calls_of i log) e"
    and others: "\<forall>(j, ev) \<in> set log. j \<noteq> i \<longrightarrow> \<not> uses_up h (tGrantID t) ev"
  shows "(\<forall>g r. EvRevokeGrant g r \<notin> set (calls_of i log)) \<and>
     (\<forall>r. EvRevokeToken h r \<notin> set (calls_of i log)) \<and>
     (toks s' h = Some t \<or>
     (\<exists>at err. EvConsumeToken h at (Inl err) \<in> set (calls_of i log) \<and>
        \<not> errors_Is err ErrNotFound \<and> e = errServer err \<and> toks s' h = Some (mark_consumed at t)))"
proof -
  have until: "\<exists>c d s1 s2. log = c @ (i, ev) # d \<and> calls_of i d = m \<and> toks s1 h = Some t \<and>
      serve I ev s1 = Some s2 \<and> serves I (map snd d) s2 = Some s' \<and> clock s1 \<le> tExpiresAt t"
    if split: "calls_of i log = l @ ev # m" and l: "untouched h l" for l ev m
  proof -
    obtain c d where cd: "log = c @ (i, ev) # d" "calls_of i c = l" "calls_of i d = m"
      using calls_of_split [OF split] by blast
    then obtain s1 s2 where s1: "serves I (map snd c) s = Some s1" "serve I ev s1 = Some s2"
        "serves I (map snd d) s2 = Some s'"
      using sv by (auto simp: serves_append split: option.splits)
    have le: "clock s1 \<le> tExpiresAt t" using serve_clock [OF s1(2)] serves_clock [OF s1(3)] live by simp
    have "toks s1 h = Some t"
      using thread_keeps [OF s1(1) t le, of i] cd l others by auto
    with cd s1 le show ?thesis by blast
  qed
  from sp consider (a) "untouched h (calls_of i log)"
    | (b) l ev m t' where "calls_of i log = l @ ev # m" "untouched h l" "yields_token h t' ev"
        "tConsumedAt t' \<noteq> 0"
    | (c) l at err m where "calls_of i log = l @ EvConsumeToken h at (Inl err) # m" "untouched h l"
        "untouched h m" "errors_Is err ErrNotFound \<or> e = errServer err"
    unfolding spares_def by blast
  then show ?thesis
  proof cases
    case a
    with thread_keeps [OF sv t live _ others] show ?thesis by (auto simp: untouched_def)
  next
    case b
    obtain s1 s2 where "toks s1 h = Some t" "serve I ev s1 = Some s2"
      using until [OF b(1,2)] by blast
    with tok_effect_yields [OF serve_toks b(3)] assms(3) b(4) show ?thesis by auto
  next
    case c
    obtain cl d s1 s2 where s: "log = cl @ (i, EvConsumeToken h at (Inl err)) # d" "calls_of i d = m"
        "toks s1 h = Some t" "serve I (EvConsumeToken h at (Inl err)) s1 = Some s2"
        "serves I (map snd d) s2 = Some s'" "clock s1 \<le> tExpiresAt t"
      using until [OF c(1,2)] by blast
    note r = refused_consume_keeps [OF s(4,3,6)]
    then obtain u where u: "toks s2 h = Some u" "u = t \<or> u = mark_consumed at t" by auto
    have "tExpiresAt u = tExpiresAt t" "tGrantID u = tGrantID t"
      using u(2) by (auto simp: mark_consumed_def)
    then have "toks s' h = Some u"
      using thread_keeps [OF s(5) u(1), of i] live c(3) s(1,2) others by auto
    moreover have "(\<forall>g r. EvRevokeGrant g r \<notin> set (calls_of i log)) \<and>
        (\<forall>r. EvRevokeToken h r \<notin> set (calls_of i log))"
      using c(1-3) by (auto simp: untouched_def)
    ultimately show ?thesis using u(2) r c(1,4) by auto
  qed
qed

end

section \<open>Properties\<close>

text \<open>The hash of the single-use token a request presents.\<close>

definition presented :: "TokenRequest \<Rightarrow> string" where
  "presented req =
     hashToken (values_Get (trForm req)
       (if trGrantType req = GrantTypeAuthorizationCode then ''code'' else ''refresh_token''))"

definition single_use :: "TokenRequest \<Rightarrow> bool" where
  "single_use req \<longleftrightarrow> trGrantType req = GrantTypeAuthorizationCode \<or> trGrantType req = GrantTypeRefreshToken"

lemma exchange_redeems:
  assumes "performs (exchange p (Some req)) log (Inr resp)" and "single_use req"
  obtains kind t withRefresh plan minted withID nonce where
    "redeems p req (tr_client req) kind (presented req) t withRefresh plan minted log"
    and "minted_from p (the (tr_iss req)) (tr_client req) t plan withID nonce minted"
    and "resp = mtResp minted"
proof (cases "trGrantType req = GrantTypeAuthorizationCode")
  case True
  with assms(1) have "performs (exchangeAuthorizationCode p req (tr_client req)) log (Inr resp)"
    by (elim exchange_cases) auto
  then show ?thesis
    by (rule exchangeAuthorizationCode_Inr) (rule that, auto simp: presented_def True)
next
  case False
  then have gt: "trGrantType req = GrantTypeRefreshToken" using assms(2) by (simp add: single_use_def)
  with assms(1) have "performs (exchangeRefreshToken p req (tr_client req)) log (Inr resp)"
    by (elim exchange_cases) auto
  then show ?thesis
    by (rule exchangeRefreshToken_Inr) (rule that, auto simp: presented_def gt)
qed

lemma exchange_consumes:
  assumes "performs (exchange p (Some req)) log (Inr resp)" and "single_use req"
  obtains at t' where "EvConsumeToken (presented req) at (Inr t') \<in> set log" and "tConsumedAt t' = 0"
  using assms by (elim exchange_redeems) (auto simp: redeems_def intro: that)

lemma sample_single_use [simp]: "single_use code_req"
  by (simp add: single_use_def)

lemma timed_exchanges: "\<forall>q \<in> set [exchange p x, exchange p' y]. timed q"
  by (simp add: timed_exchange)

lemma two_log_calls:
  "calls_of 0 two_log = code_log" "calls_of 1 two_log = replay_log"
  by (simp_all add: two_log_def calls_of_def filter_map comp_def)

lemma set_two_log: "snd ` set two_log = set code_log \<union> set replay_log"
  by (simp add: two_log_def image_Un image_image)

lemma presented_code_req: "presented code_req = hashToken ''c0de''"
  by (simp add: presented_def)

lemma two_log_fresh: "\<forall>ev \<in> snd ` set two_log. \<not> creates_token (presented code_req) ev"
  using sample_hashes
  by (simp add: set_two_log code_log_def replay_log_def presented_code_req
      sample_access_def sample_refreshed_def)

text \<open>C1. An authorization code and a refresh token are used once, however requests interleave. In
  any run of requests against a storage that keeps its contract, if one thread was answered with
  tokens for a code or a refresh token, every other thread that presents the same one and has
  returned, returned an error. The other threads may be any requests that take the time of a
  consumption from the clock.\<close>

theorem single_use_in_any_run:
  assumes "storage_contract I reqs toks claimed clock sr st"
    and "concurrent I (ps, s) log (qs, s')" and "0 < clock s" and "\<forall>q \<in> set ps. timed q"
    and "i < length ps" and "j < length ps" and "i \<noteq> j"
    and "ps ! i = exchange p (Some req)" and "single_use req" and "qs ! i = Ret (Inr resp)"
    and "ps ! j = exchange p' (Some req')" and "single_use req'" and "qs ! j = Ret r"
    and "presented req' = presented req"
    and "\<forall>ev \<in> snd ` set log. \<not> creates_token (presented req) ev"
  shows "\<exists>e. r = Inl e"
proof (cases r)
  case (Inr resp')
  have pi: "performs (exchange p (Some req)) (calls_of i log) (Inr resp)"
    using concurrent_performs [OF assms(2,5,10)] assms(8) by simp
  have pj: "performs (exchange p' (Some req')) (calls_of j log) (Inr resp')"
    using concurrent_performs [OF assms(2,6,13)] assms(11) Inr by simp
  obtain ati ti atj tj where
    "EvConsumeToken (presented req) ati (Inr ti) \<in> set (calls_of i log)" "tConsumedAt ti = 0"
    "EvConsumeToken (presented req) atj (Inr tj) \<in> set (calls_of j log)" "tConsumedAt tj = 0"
    using exchange_consumes [OF pi assms(9)] exchange_consumes [OF pj assms(12)] assms(14) by metis
  then have "i = j"
    using storage_contract.concurrent_consume_once [OF assms(1-4) assms(15)] by simp
  with assms(7) show ?thesis by simp
qed simp

theorem single_use_in_any_run_witness:
  "\<exists>e. (Inl invalid_grant :: perror + TokenResponse) = Inl e"
proof (rule single_use_in_any_run [OF memory.storage_contract_axioms two_threads_run, of 0 1
      sample_p code_req code_resp sample_p code_req])
  show "0 < wNow code_world" by (simp add: code_world_def sample_world_def)
qed (simp_all add: timed_exchange two_log_fresh)

text \<open>C3. Revoking a grant takes everything that was issued from it, whatever the order. If a thread
  redeemed a code or a refresh token and stored a token of the grant, and any thread of the run
  revoked the grant (as the reuse of a code does, before or after), the token is not in the storage
  at the end of the run. Hashes of fresh tokens are taken not to collide.\<close>

theorem revoked_grant_leaves_nothing:
  assumes "storage_contract I reqs toks claimed clock sr st"
    and "concurrent I (ps, s) log (qs, s')" and "i < length ps"
    and "ps ! i = exchange p (Some req)" and "single_use req" and "qs ! i = Ret (Inr resp)"
    and "(i, EvCreateToken u None) \<in> set log" and "(j, EvRevokeGrant (tGrantID u) None) \<in> set log"
    and "is_ascii (tGrantID u)"
    and "\<forall>ev \<in> snd ` set log. \<not> creates_token (presented req) ev"
    and "length (filter (creates_token (tHash u)) (map snd log)) \<le> 1"
  shows "toks s' (tHash u) = None"
proof -
  have "performs (exchange p (Some req)) (calls_of i log) (Inr resp)"
    using concurrent_performs [OF assms(2,3,6)] assms(4) by simp
  then obtain kind t withRefresh plan minted withID nonce where
      r: "redeems p req (tr_client req) kind (presented req) t withRefresh plan minted (calls_of i log)"
      and m: "minted_from p (the (tr_iss req)) (tr_client req) t plan withID nonce minted"
    using assms(5) by (rule exchange_redeems)
  from r obtain now l later t' where calls: "calls_of i log =
      EvLoadToken (presented req) (Inr t) # EvNow now # l @ stored (mtRecords minted)
        @ [EvNow later, EvConsumeToken (presented req) later (Inr t')]" and "writes l = []"
    unfolding redeems_def by blast
  have "EvCreateToken u None \<in> set (calls_of i log)" using assms(7) by (simp add: calls_of_set)
  then have "EvCreateToken u None \<in> set l \<or> u \<in> set (mtRecords minted)"
    by (auto simp: calls stored_def)
  then have "u \<in> set (mtRecords minted)"
    using \<open>writes l = []\<close> by (auto simp: writes_def filter_empty_conv)
  then have gr: "tGrantID t = tGrantID u"
    using m by (auto simp: minted_from_def split: if_split_asm)
  have calls': "calls_of i log = (EvLoadToken (presented req) (Inr t) # EvNow now # l
      @ stored (mtRecords minted) @ [EvNow later]) @ [EvConsumeToken (presented req) later (Inr t')]"
    by (simp add: calls)
  show ?thesis
    by (rule storage_contract.concurrent_revoked_gone
          [OF assms(1,2,7,8,9) calls' _ gr assms(10,11)]) simp
qed

theorem revoked_grant_leaves_nothing_witness:
  "mem_toks revoked_world (hashToken (rnd_token 2)) = None"
proof -
  have h: "tHash sample_access = hashToken (rnd_token 2)" "tGrantID sample_access = ''grant''"
    by (simp_all add: sample_access_def)
  have "mem_toks revoked_world (tHash sample_access) = None"
  proof (rule revoked_grant_leaves_nothing [OF memory.storage_contract_axioms two_threads_run, of 0
        sample_p code_req code_resp _ 1])
    show "(0, EvCreateToken sample_access None) \<in> set two_log"
      by (simp add: two_log_def code_log_def sample_access_def)
    show "(1, EvRevokeGrant (tGrantID sample_access) None) \<in> set two_log"
      by (simp add: two_log_def replay_log_def h)
    show "length (filter (creates_token (tHash sample_access)) (map snd two_log)) \<le> 1"
      using sample_hashes(5)
      by (simp add: two_log_def code_log_def replay_log_def h)
  qed (simp_all add: two_log_fresh h byte_def)
  then show ?thesis by (simp add: h)
qed

text \<open>C4. No token request stores a token beyond the registration of the client that
  authenticated: whatever the grant, the hooks of the application, the answers of the storage and
  the outcome, every token it creates is an unused access or refresh token of this client, with
  scopes and audience the client is registered for; and for the built-in grants, of the issuer of
  the request.\<close>

theorem exchange_within_registration:
  assumes "performs (exchange p (Some req)) log r" and "EvCreateToken u a \<in> set log"
  shows "issued_for req u"
  by (rule storing_performs [OF storing_exchange assms])

theorem exchange_within_registration_witness: "issued_for code_req sample_access"
  by (rule exchange_within_registration [OF code_run, of _ None])
    (simp add: code_log_def sample_access_def)

end
