(* ===== verification/Grantor_TokenProps.thy ===== *)
theory Grantor_TokenProps
  imports Grantor_TokenSafety
begin

text \<open>
  The functional behaviour of the token endpoint: what a successful exchange checked and returned,
  and what a failed one leaves behind.
\<close>

section \<open>Successful exchanges\<close>

text \<open>C5. A code exchange that succeeds did all of this: the client may use the grant; the code is
  an unconsumed, unexpired code of this issuer and this client, which is still registered for its
  scopes and audience; the redirect URI and the PKCE verifier match; the tokens were planned and
  minted from the code, with an ID token exactly when the code has the openid scope and a subject;
  every minted record was stored first, and the code consumed last. Before the first record it only
  read.\<close>

theorem code_exchange_success:
  assumes "performs (exchange p (Some req)) log (Inr resp)"
    and "trGrantType req = GrantTypeAuthorizationCode"
  shows "\<exists>t plan minted.
     client_allowsGrant (tr_client req) GrantTypeAuthorizationCode \<and>
     check_code t (values_Get (trForm req) ''redirect_uri'')
       (values_Get (trForm req) ''code_verifier'') = None \<and>
     redeems p req (tr_client req) TokenKindAuthorizationCode
       (hashToken (values_Get (trForm req) ''code'')) t
       (client_allowsGrant (tr_client req) GrantTypeRefreshToken \<and>
        (\<not> tHasScope t ''openid'' \<or> tHasScope t ''offline_access'')) plan minted log \<and>
     minted_from p (the (tr_iss req)) (tr_client req) t plan (tHasScope t ''openid'') (tNonce t)
       minted \<and>
     resp = mtResp minted"
proof -
  from assms have "performs (exchangeAuthorizationCode p req (tr_client req)) log (Inr resp)"
    by (elim exchange_cases) auto
  then show ?thesis by (rule exchangeAuthorizationCode_Inr) blast
qed

theorem code_exchange_success_witness:
  "\<exists>t withRefresh plan minted.
     check_code t ''https://rp.example/cb'' [] = None \<and> code_resp = mtResp minted \<and>
     redeems sample_p code_req sample_client TokenKindAuthorizationCode (hashToken ''c0de'') t
       withRefresh plan minted code_log"
  using code_exchange_success [OF code_run code_req_values(4), unfolded code_req_values] by blast

text \<open>C6. A refresh token is rotated: a successful refresh stores an access token and, unless the
  BeforeIssue hook dropped it, a new refresh token which carries the whole grant on -- the grant ID,
  the subject, the scopes and the audience of the old one, not the narrower ones of this request --
  and then consumes the old one; no other call changes the storage.\<close>

theorem refresh_rotates:
  assumes "performs (exchange p (Some req)) log (Inr resp)"
    and "trGrantType req = GrantTypeRefreshToken"
  shows "\<exists>t access refreshed at t'.
     EvLoadToken (presented req) (Inr t) \<in> set log \<and> tKind t = TokenKindRefreshToken \<and>
     writes log = EvCreateToken access None # map (\<lambda>u. EvCreateToken u None) refreshed
                  @ [EvConsumeToken (presented req) at (Inr t')] \<and> tConsumedAt t' = 0 \<and>
     tKind access = TokenKindAccessToken \<and> tGrantID access = tGrantID t \<and>
     set (tScopes access) \<subseteq> set (tScopes t) \<and> set (tAudience access) \<subseteq> set (tAudience t) \<and>
     tHash access = hashToken (reAccessToken resp) \<and>
     (refreshed = [] \<and> reRefreshToken resp = [] \<or>
      (\<exists>u. refreshed = [u] \<and> tKind u = TokenKindRefreshToken \<and>
        tHash u = hashToken (reRefreshToken resp) \<and> tGrantID u = tGrantID t \<and>
        tSubject u = tSubject t \<and> tScopes u = tScopes t \<and> tAudience u = tAudience t \<and>
        tClaims u = tClaims t \<and> tAuthTime u = tAuthTime t))"
proof -
  from assms have "performs (exchangeRefreshToken p req (tr_client req)) log (Inr resp)"
    by (elim exchange_cases) auto
  then obtain t plan minted where
      r: "redeems p req (tr_client req) TokenKindRefreshToken (presented req) t True plan minted log"
      and m: "minted_from p (the (tr_iss req)) (tr_client req) t plan (''openid'' \<in> set (ipScopes plan))
        [] minted" and resp: "resp = mtResp minted"
    by (rule exchangeRefreshToken_Inr) (simp add: presented_def assms(2))
  from m obtain now accessToken refresh idToken where
      recs: "mtRecords minted = access_record t now accessToken plan
          # (if ipRefresh plan then [refresh_record t now refresh plan] else [])"
      and out: "mtResp minted =
          new_response plan accessToken (if ipRefresh plan then refresh else []) idToken"
    unfolding minted_from_def by blast
  from r obtain now1 l later t' scopes where
      log: "log = EvLoadToken (presented req) (Inr t) # EvNow now1 # l @ stored (mtRecords minted)
            @ [EvNow later, EvConsumeToken (presented req) later (Inr t')]"
      and l: "writes l = []" "tConsumedAt t' = 0" and kind: "tKind t = TokenKindRefreshToken"
      and ns: "narrowScopes (tScopes t) (tr_scopes req) = Inr scopes"
      and pl: "planIssuance (pvCfg p) req (tr_client req) t scopes True = Inr plan"
    unfolding redeems_def by blast
  have sub: "set (ipScopes plan) \<subseteq> set (tScopes t)" "set (ipAudience plan) \<subseteq> set (tAudience t)"
    using planIssuance_narrows [OF pl] narrowScopes_Inr [OF ns] by auto
  define refreshed where
    "refreshed = (if ipRefresh plan then [refresh_record t now refresh plan] else [])"
  have w: "writes log = EvCreateToken (access_record t now accessToken plan) None
      # map (\<lambda>u. EvCreateToken u None) refreshed @ [EvConsumeToken (presented req) later (Inr t')]"
    using l by (simp add: log recs refreshed_def stored_def)
  have last: "refreshed = [] \<and> reRefreshToken resp = [] \<or>
      (\<exists>u. refreshed = [u] \<and> tKind u = TokenKindRefreshToken \<and>
        tHash u = hashToken (reRefreshToken resp) \<and> tGrantID u = tGrantID t \<and>
        tSubject u = tSubject t \<and> tScopes u = tScopes t \<and> tAudience u = tAudience t \<and>
        tClaims u = tClaims t \<and> tAuthTime u = tAuthTime t)"
    by (simp add: refreshed_def resp out new_response_def refresh_record_def)
  show ?thesis
    by (intro exI conjI, rule_tac [3] w)
      (use log kind l sub last in \<open>simp_all add: resp out new_response_def\<close>)
qed

theorem refresh_rotates_witness:
  "\<exists>t u at t'. writes refresh_log =
     [EvCreateToken t None, EvCreateToken u None, EvConsumeToken (hashToken ''r3fresh'') at (Inr t')]"
  using refresh_rotates [OF refresh_run refresh_req_values(2)]
  by (auto simp: refresh_log_def presented_def)

section \<open>Failed exchanges\<close>

text \<open>C7. A failed exchange leaves its code or refresh token usable. In any run of requests against a
  storage that keeps its contract, take a thread that presents an unused token, and let the run end
  before the token expires, without another thread consuming or revoking the token or revoking its
  grant. If the exchange of the thread fails -- a wrong redirect URI or verifier, a client that lost
  a scope, a failing hook, encoder, key or storage call -- then the storage still holds the token
  exactly as it was, unconsumed, so that the client may try again: the exchange made no call to revoke
  the token or any grant, and no call of it consumed a token. The one exception is a ConsumeToken call
  that itself reported a failure of the storage: the failure is what the exchange returns, and the
  contract leaves open whether the token was marked as consumed; it is not revoked even then. New
  values are taken to be new: no created token and no random value of the exchange has the hash of
  the presented token.\<close>

theorem failed_exchange_keeps_token:
  assumes "storage_contract I reqs toks claimed clock sr st"
    and "concurrent I (ps, s) log (qs, s')" and "i < length ps"
    and "ps ! i = exchange p (Some req)" and "single_use req" and "qs ! i = Ret (Inl e)"
    and "toks s (presented req) = Some t" and "tConsumedAt t = 0" and "clock s' \<le> tExpiresAt t"
    and "\<forall>(j, ev) \<in> set log. j \<noteq> i \<longrightarrow> \<not> uses_up (presented req) (tGrantID t) ev"
    and "fresh_for (presented req) (calls_of i log)"
  shows "(\<forall>ev \<in> set (calls_of i log). \<forall>h. \<not> consumes_token h ev) \<and>
     (\<forall>g r. EvRevokeGrant g r \<notin> set (calls_of i log)) \<and>
     (\<forall>r. EvRevokeToken (presented req) r \<notin> set (calls_of i log)) \<and>
     (toks s' (presented req) = Some t \<or>
      (\<exists>at err. EvConsumeToken (presented req) at (Inl err) \<in> set (calls_of i log) \<and>
         \<not> errors_Is err ErrNotFound \<and> e = errServer err \<and>
         toks s' (presented req) = Some (mark_consumed at t)))"
proof -
  note unspent = exchanges_fail_unspent [unfolded fails_unspent_def, rule_format]
  note sparing = exchanges_fail_sparing [unfolded fails_sparing_def, rule_format]
  have run: "performs (exchange p (Some req)) (calls_of i log) (Inl e)"
    using concurrent_performs [OF assms(2,3,6)] assms(4) by simp
  from assms(5) have "trGrantType req = GrantTypeAuthorizationCode \<or>
      trGrantType req = GrantTypeRefreshToken" by (simp add: single_use_def)
  with run assms(11) have "consumes_none (calls_of i log)" "spares (presented req) (calls_of i log) e"
    by (auto elim!: exchange_cases dest: unspent sparing simp: presented_def spares_untouched)
  then show ?thesis
    using storage_contract.spared_token_kept [OF assms(1) concurrent_serves [OF assms(2)] assms(7-9) _ assms(10)]
    by (auto simp: consumes_none_def)
qed

theorem failed_exchange_keeps_token_witness:
  "mem_toks conflict_end (hashToken ''c0de'') = Some sample_code"
proof -
  have f: "fresh_for (presented code_req) (calls_of 0 conflict_calls)"
    using sample_hashes(1-4)
    by (simp add: conflict_calls_of conflict_log_def presented_code_req rnd_token_def [symmetric]
        sample_hash_code sample_hash_id del: One_nat_def)
  have o: "\<forall>(j, ev) \<in> set conflict_calls. j \<noteq> 0 \<longrightarrow>
      \<not> uses_up (presented code_req) (tGrantID sample_code) ev"
    by (auto simp: conflict_calls_def)
  have t: "mem_toks conflict_world (presented code_req) = Some sample_code"
    by (simp add: presented_code_req mem_toks_def conflict_world_def sample_world_def
        sample_store_def sample_hashes not_sym [OF sample_hashes(3)])
  have live: "wNow conflict_end \<le> tExpiresAt sample_code"
    by (simp add: conflict_end_def sample_world_def sample_code_def minute_def second_def)
  have "mem_toks conflict_end (presented code_req) = Some sample_code \<or>
      (\<exists>at err. EvConsumeToken (presented code_req) at (Inl err) \<in> set (calls_of 0 conflict_calls))"
    using failed_exchange_keeps_token [OF memory.storage_contract_axioms conflict_concurrent _ _ _ _
        t _ live o f] by auto
  then show ?thesis by (simp add: conflict_calls_of conflict_log_def presented_code_req)
qed

text \<open>C8. A code presented with the wrong redirect URI or PKCE verifier is refused without touching
  anything, even when it was used before: the reuse of a code revokes its grant only once the caller
  has shown the redirect URI and the verifier. When it has, and the code was used, the grant is
  revoked and the exchange fails.\<close>

theorem loaded_code_outcome:
  assumes "performs (exchange p (Some req)) log r"
    and "trGrantType req = GrantTypeAuthorizationCode"
    and "EvLoadToken (presented req) (Inr t) \<in> set log"
    and "tKind t = TokenKindAuthorizationCode" and "tIssuer t = rsURL (the (tr_iss req))"
    and "tClientID t = cID (tr_client req)"
  shows "case check_code t (values_Get (trForm req) ''redirect_uri'')
                (values_Get (trForm req) ''code_verifier'') of
      Some e \<Rightarrow> log = [EvLoadToken (presented req) (Inr t)] \<and> r = Inl e
    | None \<Rightarrow>
        tConsumedAt t \<noteq> 0 \<longrightarrow>
          (\<exists>a. log = [EvLoadToken (presented req) (Inr t), EvRevokeGrant (tGrantID t) a] \<and>
               r = Inl (case a of None \<Rightarrow> invalid_grant | Some err \<Rightarrow> errServer err))"
proof -
  have "log \<noteq> []" using assms(3) by auto
  with assms(1,2) have "performs (exchangeAuthorizationCode p req (tr_client req)) log r"
    by (elim exchange_cases) auto
  from exchangeAuthorizationCode_loaded [OF this _ assms(3-6)] assms(2) show ?thesis
    by (simp add: presented_def)
qed

theorem loaded_code_outcome_witness:
  "\<exists>a. replay_log = [EvLoadToken (hashToken ''c0de'') (Inr used_code), EvRevokeGrant ''grant'' a] \<and>
     (Inl invalid_grant :: perror + TokenResponse) =
       Inl (case a of None \<Rightarrow> invalid_grant | Some err \<Rightarrow> errServer err)"
proof -
  have t: "tKind used_code = TokenKindAuthorizationCode" "tIssuer used_code = rsURL sample_iss"
      "tClientID used_code = cID sample_client" "tConsumedAt used_code = 4"
      "tGrantID used_code = ''grant''"
      "check_code used_code ''https://rp.example/cb'' [] = None"
    by (simp_all add: used_code_def sample_defs token_zero_def check_code_def verifyPKCE_def)
  show ?thesis
    using loaded_code_outcome [OF replay_run, of used_code] t
    by (simp add: replay_log_def presented_def)
qed

section \<open>Client credentials\<close>

text \<open>The client credentials grant is for confidential clients registered for it, and has no
  end-user: a success stores one access token with no subject, with the scopes of the request or
  fewer, never openid or offline_access, and returns neither a refresh token nor an ID token.\<close>

theorem client_credentials_success:
  assumes "performs (exchange p (Some req)) log (Inr resp)"
    and "trGrantType req = GrantTypeClientCredentials"
  shows "\<not> client_isPublic (tr_client req) \<and>
     client_allowsGrant (tr_client req) GrantTypeClientCredentials \<and>
     (\<exists>u. writes log = [EvCreateToken u None] \<and> tKind u = TokenKindAccessToken \<and> tSubject u = [] \<and>
        tClientID u = cID (tr_client req) \<and> set (tScopes u) \<subseteq> set (opt_list (tr_scopes req)) \<and>
        ''openid'' \<notin> set (tScopes u) \<and> ''offline_access'' \<notin> set (tScopes u) \<and>
        tHash u = hashToken (reAccessToken resp)) \<and>
     reRefreshToken resp = [] \<and> reIDToken resp = []"
proof -
  from assms have ex: "performs (exchangeClientCredentials p req (tr_client req)) log (Inr resp)"
    by (elim exchange_cases) auto
  then have ok: "\<not> client_isPublic (tr_client req)"
      "client_allowsGrant (tr_client req) GrantTypeClientCredentials"
    by (auto simp: exchangeClientCredentials_def split: if_split_asm)
  obtain scopes where sc: "validateScopes (tr_client req) (tr_scopes req) = Inr scopes"
    using ex ok by (cases "validateScopes (tr_client req) (tr_scopes req)")
      (auto simp: exchangeClientCredentials_def)
  have user: "''openid'' \<notin> set scopes" "''offline_access'' \<notin> set scopes"
    using ex ok sc by (auto simp: exchangeClientCredentials_def split: if_split_asm)
  define grant where "grant g = token_zero\<lparr>tGrantID := g, tIssuer := rsURL (the (tr_iss req)),
      tClientID := cID (tr_client req), tScopes := scopes, tAudience := cAudience (tr_client req)\<rparr>" for g
  from ex ok sc user have "performs (bind randomToken (\<lambda>g.
      issueTokens p req (tr_client req) (grant g) scopes False)) log (Inr resp)"
    by (simp add: exchangeClientCredentials_def grant_def)
  then obtain l m g where log: "log = l @ m" and l: "performs randomToken l g"
      and "performs (issueTokens p req (tr_client req) (grant g) scopes False) m (Inr resp)"
    by (rule performs_bind_steps)
  from this(3) obtain plan minted l' where
      pl: "planIssuance (pvCfg p) req (tr_client req) (grant g) scopes False = Inr plan"
      and mt: "minted_from p (the (tr_iss req)) (tr_client req) (grant g) plan
        (''openid'' \<in> set (ipScopes plan)) [] minted"
      and m: "m = l' @ stored (mtRecords minted)" "writes l' = []" and resp: "resp = mtResp minted"
    by (rule issueTokens_Inr)
  have g: "tSubject (grant g) = []" "tClientID (grant g) = cID (tr_client req)"
    by (simp_all add: grant_def token_zero_def)
  have narrow: "set (ipScopes plan) \<subseteq> set scopes" "\<not> ipRefresh plan"
    using planIssuance_narrows [OF pl] by auto
  obtain now accessToken where recs: "mtRecords minted = [access_record (grant g) now accessToken plan]"
      and out: "mtResp minted = new_response plan accessToken [] []"
    using mt g(1) narrow(2) unfolding minted_from_def by auto
  have "writes log = [EvCreateToken (access_record (grant g) now accessToken plan) None]"
    using l m by (auto simp: log recs stored_def performs_randomToken)
  then show ?thesis
    using ok user narrow(1) g validateScopes_Inr [OF sc]
    by (auto simp: resp out new_response_def)
qed

theorem client_credentials_success_witness:
  "\<not> client_isPublic sample_client \<and> reRefreshToken cc_resp = [] \<and> reIDToken cc_resp = []"
  using client_credentials_success [OF cc_run] by (simp add: cc_req_def sample_req_def)

section \<open>Requests that were tampered with\<close>

text \<open>Exchange refuses a request that ParseTokenRequest did not make, or whose client, grant type
  or scopes the application changed, before any call to the storage; otherwise it works on the
  client that authenticated, not on the copy the application was shown.\<close>

theorem exchange_checks_request:
  assumes "performs (exchange p (Some req)) log (Inr resp)"
  shows "tr_iss req \<noteq> None \<and> map_option cID (trClient req) = Some (cID (tr_client req)) \<and>
     trGrantType req = tr_grantType req \<and> opt_list (trScopes req) = opt_list (tr_scopes req)"
  using assms by (elim exchange_cases) (auto simp: checkTokenRequest_Inr)

theorem exchange_checks_request_witness: "tr_iss code_req \<noteq> None"
  using exchange_checks_request [OF code_run] by simp

end
