(* ===== verification/Grantor_Respond.thy ===== *)
theory Grantor_Respond
  imports Grantor_Provider Grantor_Params
begin

text \<open>
  The response half of authorize.go, and formpost.go: where an authorization response is delivered
  and how it is written. \<^verbatim>\<open>url.Values\<close> is an association list, which \<^verbatim>\<open>Encode\<close> sorts.
\<close>

abbreviation (input) "responseModeQuery \<equiv> ''query''"
abbreviation (input) "responseModeFragment \<equiv> ''fragment''"
abbreviation (input) "responseModeFormPost \<equiv> ''form_post''"

section \<open>The form post page (formpost.go)\<close>

definition formPostScript :: string where
  "formPostScript = ''document.forms[0].submit();''"

text \<open>\<^verbatim>\<open>base64.StdEncoding\<close>: the other alphabet, with padding.\<close>

definition b64std_EncodeToString :: "bytes \<Rightarrow> string" where
  "b64std_EncodeToString s =
     map (\<lambda>c. if c = CHR ''-'' then CHR ''+'' else if c = CHR ''_'' then CHR ''/'' else c)
       (b64_EncodeToString s)
     @ replicate ((3 - length s mod 3) mod 3) CHR ''=''"

definition formPostCSP :: string where
  "formPostCSP =
     ''default-src '' @ [CHR 0x27] @ ''none'' @ [CHR 0x27] @ ''; script-src '' @ [CHR 0x27] @ ''sha256-''
     @ b64std_EncodeToString (sha256_Sum256 formPostScript) @ [CHR 0x27]
     @ ''; base-uri '' @ [CHR 0x27] @ ''none'' @ [CHR 0x27]
     @ ''; frame-ancestors '' @ [CHR 0x27] @ ''none'' @ [CHR 0x27]"

text \<open>
  The page is the template of formpost.go filled in with the action and the values, in the order of
  their names; executing it into memory does not fail. html/template escapes both.
\<close>

definition form_values :: "url_values \<Rightarrow> (string \<times> string) list" where
  "form_values v = map (\<lambda>(name, _). (name, values_Get v name)) (sort_key fst v)"

definition writeFormPost :: "string \<Rightarrow> url_values \<Rightarrow> ResponseWriter \<Rightarrow> ResponseWriter" where
  "writeFormPost action v w =
     writer_Write (BodyFormPost action (form_values v))
       (WriteHeader 200
         (header_Set ''Referrer-Policy'' ''no-referrer''
           (header_Set ''X-Content-Type-Options'' ''nosniff''
             (header_Set ''Content-Security-Policy'' formPostCSP
               (header_Set ''Content-Type'' ''text/html; charset=utf-8'' w)))))"

section \<open>Authorization responses (authorize.go)\<close>

definition isHTTPURL :: "string \<Rightarrow> bool" where
  "isHTTPURL raw \<longleftrightarrow>
     (case url_Parse raw of
        None \<Rightarrow> False
      | Some u \<Rightarrow> uScheme u = ''https'' \<or> uScheme u = ''http'')"

definition redirect :: "Request \<Rightarrow> string \<Rightarrow> ResponseWriter \<Rightarrow> ResponseWriter" where
  "redirect r location w =
     WriteHeader (if rMethod r \<noteq> ''GET'' \<and> rMethod r \<noteq> ''HEAD'' then 303 else 302)
       (header_Set ''Location'' location w)"

definition targetOf :: "AuthorizationRequest \<Rightarrow> authorizationTarget" where
  "targetOf req =
     \<lparr>atRedirectURI = arRedirectURI req, atMode = arResponseMode req, atState = arState req\<rparr>"

text \<open>The redirect URI with the parameters appended to its query.\<close>

definition query_location :: "string \<Rightarrow> url_values \<Rightarrow> string" where
  "query_location u v =
     (if strings_HasSuffix u ''?'' then u @ values_Encode v
      else if CHR ''?'' \<in> set u then u @ ''&'' @ values_Encode v
      else u @ ''?'' @ values_Encode v)"

definition response_values :: "resolvedIssuer \<Rightarrow> authorizationTarget \<Rightarrow> url_values \<Rightarrow> url_values" where
  "response_values iss target v =
     (let v = (if atState target \<noteq> [] then map_put ''state'' [atState target] v else v)
      in map_put ''iss'' [rsURL iss] v)"

definition writeAuthorizationResponse ::
  "Request \<Rightarrow> resolvedIssuer \<Rightarrow> authorizationTarget \<Rightarrow> url_values \<Rightarrow> ResponseWriter \<Rightarrow>
     ResponseWriter" where
  "writeAuthorizationResponse r iss target v w =
     (let v = response_values iss target v; w = noStore w in
      if atMode target = responseModeFormPost then writeFormPost (atRedirectURI target) v w
      else if atMode target = responseModeFragment
      then redirect r (atRedirectURI target @ ''#'' @ values_Encode v) w
      else redirect r (query_location (atRedirectURI target) v) w)"

definition error_values :: "perror \<Rightarrow> url_values" where
  "error_values e =
     (let v = [(''error'', [eCode e])];
          v = (if eDescription e \<noteq> []
               then map_put ''error_description'' [sanitizeDescription (eDescription e)] v else v)
      in if eURI e \<noteq> [] then map_put ''error_uri'' [sanitizeURI (eURI e)] v else v)"

definition writeAuthorizationError ::
  "Request \<Rightarrow> resolvedIssuer \<Rightarrow> authorizationTarget \<Rightarrow> perror \<Rightarrow> ResponseWriter \<Rightarrow> ResponseWriter"
  where
  "writeAuthorizationError r iss target e w =
     writeAuthorizationResponse r iss target (error_values e) w"

text \<open>Errors with a target are sent to the client, all others shown to the user.\<close>

definition WriteAuthorizationError ::
  "Provider \<Rightarrow> Request \<Rightarrow> goerr \<Rightarrow> ResponseWriter \<Rightarrow> ResponseWriter" where
  "WriteAuthorizationError p r err w =
     (case errors_As_auth err of
        Some (e, iss, Some target) \<Rightarrow> writeAuthorizationError r iss target e w
      | _ \<Rightarrow> provider_errorPage p w r (asProtocolError err))"

section \<open>What a response holds\<close>

lemma isHTTPURL_scheme:
  "isHTTPURL raw \<longleftrightarrow> (\<exists>u. url_Parse raw = Some u \<and> uScheme u \<in> {''https'', ''http''})"
  by (auto simp: isHTTPURL_def split: option.split)

end
