(* ===== verification/Grantor_Check.thy ===== *)
theory Grantor_Check
  imports Grantor_Respond Grantor_Pkce Grantor_Token
begin

text \<open>
  The checks of approve.go an authorization request has to pass again and again -- when it is saved,
  pushed, redeemed and completed -- because the application may change a request it was given, and
  the registration of the client may change meanwhile. \<open>None\<close> is the nil error.
\<close>

text \<open>\<^verbatim>\<open>parRequired\<close> of par.go.\<close>

definition parRequired :: "Provider \<Rightarrow> Client \<Rightarrow> bool" where
  "parRequired p client \<longleftrightarrow> cfPAR (pvCfg p) = PARRequired \<or> cRequirePAR client"

definition invalidRequest :: "string \<Rightarrow> goerr" where
  "invalidRequest reason = EWrap reason [ErrInvalidAuthorizationRequest]"

definition checkUnsaved :: "AuthorizationRequest \<Rightarrow> goerr option" where
  "checkUnsaved req =
     (if \<not> arParsed req
      then Some (ENew ''an unsaved authorization request must come from ParseAuthorizationRequest'')
      else if arPushed req \<noteq> arRedeemed req then Some (invalidRequest ''Pushed was changed'')
      else None)"

definition checkDelivery ::
  "resolvedIssuer \<Rightarrow> Client \<Rightarrow> AuthorizationRequest \<Rightarrow> goerr option" where
  "checkDelivery iss client req =
     (if arIssuer req \<noteq> rsURL iss then Some (invalidRequest ''it belongs to another issuer'')
      else if arClientID req \<noteq> cID client then Some (invalidRequest ''the client does not match'')
      else if \<not> client_matchRedirectURI client (arRedirectURI req)
      then Some (invalidRequest ''the redirect URI is not registered for the client'')
      else if arResponseMode req = responseModeQuery \<or> arResponseMode req = responseModeFragment
      then None
      else if arResponseMode req = responseModeFormPost then
        (if \<not> isHTTPURL (arRedirectURI req)
         then Some (invalidRequest ''form_post requires an http or https redirect URI'') else None)
      else Some (invalidRequest ''unsupported response mode''))"

definition checkRequest ::
  "Provider \<Rightarrow> resolvedIssuer \<Rightarrow> Client \<Rightarrow> AuthorizationRequest \<Rightarrow> goerr option" where
  "checkRequest p iss client req =
     (case checkDelivery iss client req of
        Some err \<Rightarrow> Some err
      | None \<Rightarrow>
          if \<not> client_allowsGrant client GrantTypeAuthorizationCode
          then Some (invalidRequest ''the client may not use the authorization code grant'')
          else if arResponseType req \<noteq> ''code''
          then Some (invalidRequest ''response_type must be code'')
          else if \<not> list_all (\<lambda>s. validScopeToken s \<and> s \<in> set (cScopes client)) (arScopes req)
          then Some (invalidRequest ''a scope is not registered for the client'')
          else if \<not> arPushed req \<and> parRequired p client
          then Some (invalidRequest ''the client must use pushed authorization requests'')
          else if subsetOf (cAudience client) (arAudience req) = None
          then Some (invalidRequest ''an audience is not registered for the client'')
          else if arCodeChallenge req = [] then
            (if arCodeChallengeMethod req \<noteq> [] \<or> checkPKCEPolicy client req \<noteq> None
             then Some (invalidRequest ''the client must use PKCE'') else None)
          else if arCodeChallengeMethod req \<noteq> ''S256'' \<or> length (arCodeChallenge req) \<noteq> 43
                  \<or> \<not> isUnreserved (arCodeChallenge req)
          then Some (invalidRequest ''the code challenge is malformed'')
          else None)"

definition sameProtocolFields :: "AuthorizationRequest \<Rightarrow> AuthorizationRequest \<Rightarrow> bool" where
  "sameProtocolFields a b \<longleftrightarrow>
     arIssuer a = arIssuer b \<and> arClientID a = arClientID b \<and>
     arRedirectURI a = arRedirectURI b \<and>
     arRedirectURIInRequest a = arRedirectURIInRequest b \<and>
     arResponseType a = arResponseType b \<and> arResponseMode a = arResponseMode b \<and>
     arState a = arState b \<and> arScopes a = arScopes b \<and> arAudience a = arAudience b \<and>
     arPushed a = arPushed b \<and> arCodeChallenge a = arCodeChallenge b \<and>
     arCodeChallengeMethod a = arCodeChallengeMethod b \<and> arNonce a = arNonce b \<and>
     arPrompt a = arPrompt b \<and> arMaxAge a = arMaxAge b \<and>
     arRequestedSubject a = arRequestedSubject b"

section \<open>What the checks establish\<close>

definition delivery_ok :: "resolvedIssuer \<Rightarrow> Client \<Rightarrow> AuthorizationRequest \<Rightarrow> bool" where
  "delivery_ok iss client req \<longleftrightarrow>
     arIssuer req = rsURL iss \<and> arClientID req = cID client \<and>
     client_matchRedirectURI client (arRedirectURI req) \<and>
     (arResponseMode req = responseModeQuery \<or> arResponseMode req = responseModeFragment \<or>
      arResponseMode req = responseModeFormPost \<and> isHTTPURL (arRedirectURI req))"

definition request_ok ::
  "Provider \<Rightarrow> resolvedIssuer \<Rightarrow> Client \<Rightarrow> AuthorizationRequest \<Rightarrow> bool" where
  "request_ok p iss client req \<longleftrightarrow>
     delivery_ok iss client req \<and> client_allowsGrant client GrantTypeAuthorizationCode \<and>
     arResponseType req = ''code'' \<and>
     list_all validScopeToken (arScopes req) \<and> set (arScopes req) \<subseteq> set (cScopes client) \<and>
     (parRequired p client \<longrightarrow> arPushed req) \<and> set (arAudience req) \<subseteq> set (cAudience client) \<and>
     challenge_ok (arCodeChallenge req) (arCodeChallengeMethod req) \<and>
     (arCodeChallenge req = [] \<longrightarrow> checkPKCEPolicy client req = None)"

lemma guard_None:
  "(if c then Some e else x) = None \<longleftrightarrow> \<not> c \<and> x = None"
  "(if c then if a then Some e else None else if b then Some f else None) = None \<longleftrightarrow>
     (if c then \<not> a else \<not> b)"
  by simp_all

lemma guard_modes:
  "(if a \<or> b then None else if c then if \<not> d then Some e else None else Some f) = None \<longleftrightarrow>
     a \<or> b \<or> c \<and> d"
  by simp

lemma pkce_branch:
  "(if c then a \<and> b else d) \<longleftrightarrow> (if c then a else d) \<and> (c \<longrightarrow> b)" "\<not> (\<not> x \<and> y) \<longleftrightarrow> (y \<longrightarrow> x)"
  by auto

lemma checkDelivery_None: "checkDelivery iss client req = None \<longleftrightarrow> delivery_ok iss client req"
  by (simp only: checkDelivery_def delivery_ok_def guard_None guard_modes simp_thms not_not
      option.distinct)

lemma subsetOf_None: "subsetOf allowed requested = None \<longleftrightarrow> \<not> set requested \<subseteq> set allowed"
  by (simp add: subsetOf_def select_loop_eq)

lemma subsetOf_Some:
  "subsetOf allowed requested = Some out \<Longrightarrow>
     set out = set requested \<and> set out \<subseteq> set allowed \<and> distinct out"
  by (auto simp: subsetOf_def select_loop_eq distinct_nub_loop split: if_splits)

lemma checkRequest_None: "checkRequest p iss client req = None \<longleftrightarrow> request_ok p iss client req"
proof (cases "checkDelivery iss client req")
  case None
  then have d: "delivery_ok iss client req" by (simp add: checkDelivery_None)
  have scopes: "list_all (\<lambda>s. validScopeToken s \<and> s \<in> set (cScopes client)) (arScopes req) \<longleftrightarrow>
      list_all validScopeToken (arScopes req) \<and> set (arScopes req) \<subseteq> set (cScopes client)"
    by (auto simp: list_all_iff)
  show ?thesis
    unfolding checkRequest_def None option.case scopes subsetOf_None request_ok_def challenge_ok_def
    by (simp only: guard_None d simp_thms option.distinct not_not de_Morgan_disj
        pkce_branch conj_assoc)
next
  case (Some e)
  then have "\<not> delivery_ok iss client req" by (simp flip: checkDelivery_None)
  with Some show ?thesis by (simp add: checkRequest_def request_ok_def)
qed

text \<open>The checks only read the protocol fields: a request that agrees on them passes or fails with
  the other.\<close>

lemma sameProtocolFields_checkRequest:
  "sameProtocolFields a b \<Longrightarrow> checkRequest p iss client a = checkRequest p iss client b"
  unfolding sameProtocolFields_def
  by (elim conjE)
    (simp only: checkRequest_def checkDelivery_def checkPKCEPolicy_def arIsOpenID_def arHasScope_def)

lemma sameProtocolFields_refl: "sameProtocolFields a a"
  by (simp only: sameProtocolFields_def simp_thms)

end
