(* ===== verification/Grantor_Parse.thy ===== *)
theory Grantor_Parse
  imports Grantor_Check
begin

text \<open>
  The parsing half of authorize.go: \<^verbatim>\<open>authorizationTarget\<close> decides where the response may go,
  \<^verbatim>\<open>parseAuthorizationRequest\<close> reads the other parameters. The claims parameter and the payload of a
  request object are decoded by encoding/json, a parameter of the model.
\<close>

section \<open>Constants\<close>

definition maxParamLength :: nat where "maxParamLength = 8000"
definition maxMaxAge :: int where "maxMaxAge = 10 * 365 * 24 * 60 * 60"
definition maxExtraParams :: nat where "maxExtraParams = 32"
definition maxExtraLength :: nat where "maxExtraLength = 1024"

definition authorizationParams :: "string list" where
  "authorizationParams =
     [''response_type'', ''client_id'', ''redirect_uri'', ''scope'', ''state'', ''response_mode'',
      ''code_challenge'', ''code_challenge_method'', ''nonce'', ''display'', ''prompt'', ''max_age'',
      ''ui_locales'', ''claims_locales'', ''id_token_hint'', ''login_hint'', ''acr_values'',
      ''claims'', ''request'', ''request_uri'']"

definition clientCredentialParams :: "string list" where
  "clientCredentialParams = [''client_secret'', ''client_assertion'', ''client_assertion_type'']"

definition excludedExtraParams :: "string list" where
  "excludedExtraParams =
     [''client_secret'', ''client_assertion'', ''client_assertion_type'', ''code_verifier'',
      ''password'', ''access_token'', ''refresh_token'']"

section \<open>The target\<close>

definition requestObjectResponseHints :: "jose \<Rightarrow> string \<Rightarrow> string \<times> string" where
  "requestObjectResponseHints J requestObject =
     (let parts = strings_Split requestObject CHR ''.'' in
      if length parts \<noteq> 3 then ([], [])
      else (case b64_DecodeString (parts ! 1) of
              None \<Rightarrow> ([], [])
            | Some payload \<Rightarrow>
                (case jzDecodeHints J payload of None \<Rightarrow> ([], []) | Some hints \<Rightarrow> hints)))"

text \<open>The response mode and state to use: those of the request, then those of a request object.\<close>

definition response_hints :: "jose \<Rightarrow> params \<Rightarrow> string \<times> string" where
  "response_hints J q =
     (let mode = params_get q ''response_mode''; state = params_get q ''state'';
          v = params_get q ''request'' in
      if v = [] then (mode, state)
      else (let (objMode, objState) = requestObjectResponseHints J v in
            (if mode = [] then objMode else mode, if state = [] then objState else state)))"

text \<open>The redirect URI, or the error to show to the user.\<close>

definition target_uri :: "Client \<Rightarrow> params \<Rightarrow> perror + string" where
  "target_uri client q =
     (let redirectURI = params_get q ''redirect_uri'' in
      if redirectURI \<noteq> [] then
        (if \<not> client_matchRedirectURI client redirectURI
         then Inl (errInvalidRequest ''redirect_uri is not registered for the client'')
         else Inr redirectURI)
      else if ''openid'' \<in> set (splitSpaces (params_get q ''scope''))
      then Inl (errInvalidRequest ''redirect_uri is required'')
      else if length (cRedirectURIs client) = 1 then Inr (cRedirectURIs client ! 0)
      else Inl (errInvalidRequest ''redirect_uri is required''))"

definition target_mode :: "params \<Rightarrow> string \<Rightarrow> string \<Rightarrow> string" where
  "target_mode q mode uri =
     (if mode \<noteq> [] \<and> \<not> params_isRepeated q ''response_mode'' then
        (if mode = responseModeQuery \<or> mode = responseModeFragment then mode
         else if mode = responseModeFormPost then
           (if isHTTPURL uri then mode else responseModeQuery)
         else responseModeQuery)
      else responseModeQuery)"

definition provider_authorizationTarget ::
  "Provider \<Rightarrow> resolvedIssuer \<Rightarrow> params \<Rightarrow> (perror + Client \<times> authorizationTarget) prog" where
  "provider_authorizationTarget p iss q =
     (if params_isRepeated q ''client_id'' \<or> params_isRepeated q ''redirect_uri''
      then Ret (Inl (errInvalidRequest ''client_id and redirect_uri must not be repeated''))
      else (let clientID = params_get q ''client_id'' in
        if clientID = [] then Ret (Inl (errInvalidRequest ''client_id is required''))
        else bind (provider_client p iss clientID) (\<lambda>r. Ret
          (case r of
             Inl err \<Rightarrow>
               if errors_Is err ErrNotFound
               then Inl (errInvalidRequest ''the client is not registered'')
               else Inl (errServer err)
           | Inr client \<Rightarrow>
               (let (mode, state) = response_hints (pvJose p) q in
                case target_uri client q of
                  Inl perr \<Rightarrow> Inl perr
                | Inr uri \<Rightarrow>
                    Inr (client, \<lparr>atRedirectURI = uri, atMode = target_mode q mode uri,
                                  atState = state\<rparr>))))))"

section \<open>The parameters\<close>

text \<open>The checks before the first parameter is kept.\<close>

definition check_params ::
  "Provider \<Rightarrow> Client \<Rightarrow> params \<Rightarrow> authorizationTarget \<Rightarrow> bool \<Rightarrow> perror option" where
  "check_params p client q target pushed =
     (if pRepeated q \<noteq> [] then Some (errInvalidRequest ''parameters must not be repeated'')
      else if list_ex (\<lambda>(name, v). maxParamLength < length v \<and> name \<notin> set clientCredentialParams)
                (pValues q)
      then Some (errInvalidRequest ''a parameter is too long'')
      else if params_has q ''request''
      then Some (newError CodeRequestNotSupported ''request objects are not supported'')
      else if params_has q ''request_uri''
      then Some (newError CodeRequestURINotSupported ''request_uri is not supported'')
      else if \<not> pushed \<and> parRequired p client
      then Some (errInvalidRequest ''the client must use pushed authorization requests'')
      else if params_get q ''response_mode'' \<noteq> [] \<and> params_get q ''response_mode'' \<noteq> atMode target
      then Some (errInvalidRequest ''the response_mode is not supported for this redirect_uri'')
      else if params_get q ''response_type'' = []
      then Some (errInvalidRequest ''response_type is required'')
      else if params_get q ''response_type'' \<noteq> ''code''
      then Some (newError CodeUnsupportedResponseType ''only the code response type is supported'')
      else if \<not> client_allowsGrant client GrantTypeAuthorizationCode
      then Some (newError CodeUnauthorizedClient
                  ''the client may not use the authorization code grant'')
      else None)"

fun extra_loop :: "(string \<times> string) list \<Rightarrow> (string \<times> string) list \<Rightarrow> (string \<times> string) list" where
  "extra_loop extra [] = extra"
| "extra_loop extra ((name, v) # values) =
     (if name \<in> set authorizationParams \<or> name \<in> set excludedExtraParams
         \<or> maxExtraLength < length v \<or> maxExtraParams \<le> length extra
      then extra_loop extra values
      else extra_loop (map_put name v extra) values)"

definition new_request ::
  "Provider \<Rightarrow> resolvedIssuer \<Rightarrow> Client \<Rightarrow> params \<Rightarrow> authorizationTarget \<Rightarrow> bool \<Rightarrow> time \<Rightarrow>
     AuthorizationRequest" where
  "new_request p iss client q target pushed now =
     \<lparr>arID = [], arIssuer = rsURL iss, arClientID = cID client,
      arRedirectURI = atRedirectURI target,
      arRedirectURIInRequest = params_has q ''redirect_uri'', arResponseType = ''code'',
      arResponseMode = atMode target, arState = atState target, arScopes = [],
      arCodeChallenge = [], arCodeChallengeMethod = [], arNonce = params_get q ''nonce'',
      arPrompt = [], arMaxAge = None, arDisplay = params_get q ''display'',
      arUILocales = splitSpaces (params_get q ''ui_locales''),
      arClaimsLocales = splitSpaces (params_get q ''claims_locales''),
      arLoginHint = params_get q ''login_hint'',
      arACRValues = splitSpaces (params_get q ''acr_values''), arRequestedSubject = [],
      arClaims = None, arAudience = cAudience client, arPushed = pushed,
      arExtra = extra_loop [] (pValues q), arBindingHash = [], arParsed = True,
      arPushedBy = [], arRedeemed = False, arCreatedAt = now,
      arExpiresAt = time_Add now (ltAuthorizationRequest (cfLifetimes (pvCfg p)))\<rparr>"

fun scope_loop :: "Client \<Rightarrow> string list \<Rightarrow> string list \<Rightarrow> perror + string list" where
  "scope_loop client out [] = Inr out"
| "scope_loop client out (s # ss) =
     (if \<not> validScopeToken s
      then Inl (newError CodeInvalidScope ''scope contains invalid characters'')
      else scope_loop client (if s \<in> set (cScopes client) then out @ [s] else out) ss)"

definition parse_prompt :: "string list \<Rightarrow> perror option" where
  "parse_prompt prompt =
     (if \<not> set prompt \<subseteq> {''none'', ''login'', ''consent'', ''select_account''}
      then Some (errInvalidRequest ''unsupported prompt value'')
      else if ''none'' \<in> set prompt \<and> 1 < length prompt
      then Some (errInvalidRequest ''prompt=none must not be combined with other values'')
      else None)"

definition parse_max_age :: "string \<Rightarrow> perror + duration option" where
  "parse_max_age v =
     (if v = [] then Inr None
      else (case strconv_ParseInt v of
              None \<Rightarrow> Inl (errInvalidRequest ''max_age must be a non-negative integer'')
            | Some n \<Rightarrow>
                if n < 0 \<or> maxMaxAge < n
                then Inl (errInvalidRequest ''max_age must be a non-negative integer'')
                else Inr (Some (n * second))))"

definition parse_claims :: "Provider \<Rightarrow> Client \<Rightarrow> string \<Rightarrow> perror + ClaimsRequest option" where
  "parse_claims p client v =
     (if v = [] then Inr None
      else (case jzDecodeClaims (pvJose p) v of
              None \<Rightarrow> Inl (errInvalidRequest ''claims is not a valid JSON object'')
            | Some claims \<Rightarrow> Inr (provider_claimsForClient (pvCfg p) client (Some claims))))"

definition parse_hint ::
  "Provider \<Rightarrow> resolvedIssuer \<Rightarrow> Client \<Rightarrow> string \<Rightarrow> perror + string" where
  "parse_hint p iss client v =
     (if v = [] then Inr []
      else (case verifyIDTokenHint p iss v (cID client) of
              Inl err \<Rightarrow> Inl (errInvalidRequest ''id_token_hint is not valid'')
            | Inr sub \<Rightarrow> Inr sub))"

text \<open>A \<^verbatim>\<open>sub\<close> claim requested with a value restricts the response to that end-user.\<close>

definition requested_sub :: "ClaimsRequest option \<Rightarrow> json option" where
  "requested_sub c =
     (case c of
        None \<Rightarrow> None
      | Some c \<Rightarrow>
          (case map_of (cqIDToken c) ''sub'' of
             Some (Some sub) \<Rightarrow> if crValue sub = JNull then None else Some (crValue sub)
           | _ \<Rightarrow> None))"

definition parse_subject :: "ClaimsRequest option \<Rightarrow> string \<Rightarrow> perror + string" where
  "parse_subject claims subject =
     (case requested_sub claims of
        None \<Rightarrow> Inr subject
      | Some v \<Rightarrow>
          (let bad = Inl (errInvalidRequest
                ''the requested sub claim value is invalid or conflicts with id_token_hint'') in
           case v of
             JString s \<Rightarrow> if s = [] \<or> (subject \<noteq> [] \<and> subject \<noteq> s) then bad else Inr s
           | _ \<Rightarrow> bad))"

text \<open>The parameters in the order they are read, on a request that has the first ones.\<close>

definition parse_rest ::
  "Provider \<Rightarrow> resolvedIssuer \<Rightarrow> Client \<Rightarrow> params \<Rightarrow> AuthorizationRequest \<Rightarrow>
     perror + AuthorizationRequest" where
  "parse_rest p iss client q req =
     (case scope_loop client [] (splitSpaces (params_get q ''scope'')) of Inl e \<Rightarrow> Inl e | Inr scopes \<Rightarrow>
     (case parsePKCE client q (req\<lparr>arScopes := scopes\<rparr>) of Inl e \<Rightarrow> Inl e | Inr req \<Rightarrow>
     (let req = req\<lparr>arPrompt := splitSpaces (params_get q ''prompt'')\<rparr> in
      case parse_prompt (arPrompt req) of Some e \<Rightarrow> Inl e | None \<Rightarrow>
     (case parse_max_age (params_get q ''max_age'') of Inl e \<Rightarrow> Inl e | Inr maxAge \<Rightarrow>
     (case parse_claims p client (params_get q ''claims'') of Inl e \<Rightarrow> Inl e | Inr claims \<Rightarrow>
     (case parse_hint p iss client (params_get q ''id_token_hint'') of Inl e \<Rightarrow> Inl e | Inr subject \<Rightarrow>
     (case parse_subject claims subject of Inl e \<Rightarrow> Inl e | Inr subject \<Rightarrow>
        Inr (req\<lparr>arMaxAge := maxAge, arClaims := claims, arRequestedSubject := subject\<rparr>))))))))"

definition parseAuthorizationRequest ::
  "Provider \<Rightarrow> resolvedIssuer \<Rightarrow> Client \<Rightarrow> params \<Rightarrow> authorizationTarget \<Rightarrow> bool \<Rightarrow>
     (perror + AuthorizationRequest) prog" where
  "parseAuthorizationRequest p iss client q target pushed =
     (case check_params p client q target pushed of
        Some e \<Rightarrow> Ret (Inl e)
      | None \<Rightarrow>
          bind provider_now (\<lambda>now.
            Ret (parse_rest p iss client q (new_request p iss client q target pushed now))))"

end
