(* ===== verification/Grantor_ParseFacts.thy ===== *)
theory Grantor_ParseFacts
  imports Grantor_Parse
begin

text \<open>
  What parsing an authorization request establishes: the target is a registered redirect URI with a
  response mode that works for it, and the request passes \<^verbatim>\<open>checkRequest\<close>.
\<close>

section \<open>The target\<close>

definition target_ok :: "Client \<Rightarrow> authorizationTarget \<Rightarrow> bool" where
  "target_ok client target \<longleftrightarrow>
     client_matchRedirectURI client (atRedirectURI target) \<and>
     (atMode target = responseModeQuery \<or> atMode target = responseModeFragment \<or>
      atMode target = responseModeFormPost \<and> isHTTPURL (atRedirectURI target))"

lemma target_uri_Inr:
  assumes "target_uri client q = Inr uri"
  shows "client_matchRedirectURI client uri"
    and "params_get q ''redirect_uri'' = [] \<Longrightarrow> cRedirectURIs client = [uri]"
proof -
  consider "client_matchRedirectURI client (params_get q ''redirect_uri'')"
      "params_get q ''redirect_uri'' \<noteq> []" "uri = params_get q ''redirect_uri''"
    | "params_get q ''redirect_uri'' = []" "length (cRedirectURIs client) = 1"
      "uri = cRedirectURIs client ! 0"
    using assms by (simp only: target_uri_def Let_def split: if_split_asm) auto
  then have "client_matchRedirectURI client uri \<and>
      (params_get q ''redirect_uri'' = [] \<longrightarrow> cRedirectURIs client = [uri])"
  proof cases
    case 2
    then have "cRedirectURIs client = [uri]" by (cases "cRedirectURIs client") auto
    then show ?thesis by (simp add: client_matchRedirectURI_iff)
  qed simp
  then show "client_matchRedirectURI client uri"
    and "params_get q ''redirect_uri'' = [] \<Longrightarrow> cRedirectURIs client = [uri]" by blast+
qed

lemma target_mode_cases:
  obtains "target_mode q mode uri = responseModeQuery"
  | "target_mode q mode uri = responseModeFragment"
  | "target_mode q mode uri = responseModeFormPost" "isHTTPURL uri"
  by (cases "mode \<noteq> [] \<and> \<not> params_isRepeated q ''response_mode''";
      cases "mode = responseModeQuery \<or> mode = responseModeFragment";
      cases "mode = responseModeFormPost"; cases "isHTTPURL uri")
    (auto simp only: target_mode_def if_True if_False simp_thms)

lemma target_ok_intro:
  "target_uri client q = Inr uri \<Longrightarrow>
     target_ok client \<lparr>atRedirectURI = uri, atMode = target_mode q mode uri, atState = s\<rparr>"
  by (cases rule: target_mode_cases [of q mode uri])
    (simp_all add: target_ok_def target_uri_Inr(1))

text \<open>Every answer of the client store leads to one outcome.\<close>

definition target_answer ::
  "Provider \<Rightarrow> params \<Rightarrow> goerr + Client \<Rightarrow> perror + Client \<times> authorizationTarget" where
  "target_answer p q r =
     (case r of
        Inl err \<Rightarrow>
          if errors_Is err ErrNotFound
          then Inl (errInvalidRequest ''the client is not registered'') else Inl (errServer err)
      | Inr client \<Rightarrow>
          (let (mode, state) = response_hints (pvJose p) q in
           case target_uri client q of
             Inl perr \<Rightarrow> Inl perr
           | Inr uri \<Rightarrow>
               Inr (client, \<lparr>atRedirectURI = uri, atMode = target_mode q mode uri,
                             atState = state\<rparr>)))"

lemma provider_authorizationTarget_performs:
  assumes "performs (provider_authorizationTarget p iss q) log r"
  obtains perr where "log = []" and "r = Inl perr"
  | a where "log = [EvClient (rsURL iss) (params_get q ''client_id'') a]"
      and "r = target_answer p q (client_answer p (params_get q ''client_id'') a)"
      and "\<not> params_isRepeated q ''client_id''" and "params_get q ''client_id'' \<noteq> []"
proof -
  let ?i = "params_get q ''client_id''"
  consider perr where "log = []" "r = Inl perr"
    | "\<not> params_isRepeated q ''client_id''" "?i \<noteq> []"
      "performs (bind (provider_client p iss ?i) (\<lambda>r. Ret (target_answer p q r))) log r"
    using assms
    by (simp only: provider_authorizationTarget_def Let_def target_answer_def split: if_split_asm) auto
  then show ?thesis
  proof cases
    case (1 perr)
    then show ?thesis by (rule that(1))
  next
    case 2
    from 2(3) show ?thesis
      by (elim performs_bind_steps)
        (auto simp: provider_client_performs intro: that(2) [OF _ _ 2(1,2)])
  qed
qed

lemma provider_authorizationTarget_Inr:
  assumes "performs (provider_authorizationTarget p iss q) log (Inr (client, target))"
  shows "log = [EvClient (rsURL iss) (params_get q ''client_id'') (Inr (Some client))]"
    and "cID client = params_get q ''client_id''" and "client_ok (pvCfg p) client"
    and "target_ok client target"
    and "target_uri client q = Inr (atRedirectURI target)"
  using assms
proof (induction rule: provider_authorizationTarget_performs)
  case (2 a)
  let ?i = "params_get q ''client_id''"
  from 2(2) obtain uri mode state where *: "client_answer p ?i a = Inr client"
      "target_uri client q = Inr uri"
      "target = \<lparr>atRedirectURI = uri, atMode = target_mode q mode uri, atState = state\<rparr>"
    by (cases "client_answer p ?i a"; cases "response_hints (pvJose p) q")
      (auto simp: target_answer_def split: if_splits sum.splits)
  show "log = [EvClient (rsURL iss) ?i (Inr (Some client))]"
      "cID client = ?i" "client_ok (pvCfg p) client" "target_ok client target"
      "target_uri client q = Inr (atRedirectURI target)"
    using 2(1) * client_answer_Inr target_ok_intro by auto
qed simp_all

section \<open>The parameters\<close>

lemma scope_loop_Inr:
  "scope_loop client out ss = Inr scopes \<Longrightarrow>
     scopes = out @ filter (\<lambda>s. s \<in> set (cScopes client)) ss \<and> list_all validScopeToken ss"
  by (induction client out ss rule: scope_loop.induct) (auto split: if_splits)

lemma parse_max_age_Inr:
  assumes "parse_max_age v = Inr (Some d)"
  shows "0 \<le> d" and "d \<le> maxMaxAge * second" and "d < 2 ^ 63" and "d mod second = 0"
proof -
  from assms obtain n where "0 \<le> n" "n \<le> maxMaxAge" "d = n * second"
    by (fastforce simp: parse_max_age_def not_less split: if_splits option.splits)
  then show "0 \<le> d" "d \<le> maxMaxAge * second" "d < 2 ^ 63" "d mod second = 0"
    by (auto simp: second_def maxMaxAge_def)
qed

lemma extra_loop_bounds:
  "length extra \<le> maxExtraParams \<Longrightarrow> length (extra_loop extra values) \<le> maxExtraParams"
proof (induction extra "values" rule: extra_loop.induct)
  case (2 extra name v "values")
  have "length (map_put name v extra) \<le> Suc (length extra)"
    by (simp add: map_put_def)
  with 2 show ?case
    by (cases "maxExtraParams \<le> length extra") auto
qed simp

lemma extra_loop_members:
  "(name, v) \<in> set (extra_loop extra values) \<Longrightarrow>
     (name, v) \<in> set extra \<or> (name, v) \<in> set values \<and> length v \<le> maxExtraLength \<and>
       name \<notin> set authorizationParams \<and> name \<notin> set excludedExtraParams"
proof (induction extra "values" rule: extra_loop.induct)
  case (2 extra n u "values")
  show ?case
  proof (cases "n \<in> set authorizationParams \<or> n \<in> set excludedExtraParams
      \<or> maxExtraLength < length u \<or> maxExtraParams \<le> length extra")
    case True
    with 2 show ?thesis by auto
  next
    case False
    with 2(2) [OF False] 2(3) show ?thesis
      by (auto simp: map_put_def)
  qed
qed simp

text \<open>A parsed request is the new one with the scopes, the challenge and the rest filled in.\<close>

lemma parse_rest_Inr:
  assumes "parse_rest p iss client q req0 = Inr req"
    and "arCodeChallenge req0 = []" and "arCodeChallengeMethod req0 = []"
  obtains scopes challenge chm prm maxAge claims hint subject where
    "scopes = filter (\<lambda>s. s \<in> set (cScopes client)) (splitSpaces (params_get q ''scope''))"
    and "list_all validScopeToken (splitSpaces (params_get q ''scope''))"
    and "challenge_ok challenge chm"
    and "challenge = [] \<Longrightarrow> checkPKCEPolicy client (req0\<lparr>arScopes := scopes\<rparr>) = None"
    and "prm = splitSpaces (params_get q ''prompt'')" and "parse_prompt prm = None"
    and "parse_max_age (params_get q ''max_age'') = Inr maxAge"
    and "parse_claims p client (params_get q ''claims'') = Inr claims"
    and "parse_hint p iss client (params_get q ''id_token_hint'') = Inr hint"
    and "parse_subject claims hint = Inr subject"
    and "req = req0\<lparr>arScopes := scopes, arCodeChallenge := challenge,
                     arCodeChallengeMethod := chm, arPrompt := prm, arMaxAge := maxAge,
                     arClaims := claims, arRequestedSubject := subject\<rparr>"
proof -
  from assms(1) obtain scopes req1 maxAge claims hint subject where
    s: "scope_loop client [] (splitSpaces (params_get q ''scope'')) = Inr scopes" and
    k: "parsePKCE client q (req0\<lparr>arScopes := scopes\<rparr>) = Inr req1" and
    r: "parse_prompt (splitSpaces (params_get q ''prompt'')) = None"
      "parse_max_age (params_get q ''max_age'') = Inr maxAge"
      "parse_claims p client (params_get q ''claims'') = Inr claims"
      "parse_hint p iss client (params_get q ''id_token_hint'') = Inr hint"
      "parse_subject claims hint = Inr subject" and
    req: "req = req1\<lparr>arPrompt := splitSpaces (params_get q ''prompt''), arMaxAge := maxAge,
                     arClaims := claims, arRequestedSubject := subject\<rparr>"
    by (simp add: parse_rest_def Let_def split: sum.split_asm option.split_asm)
  note pk = parsePKCE_Inr [OF k]
  from scope_loop_Inr [OF s] have "scopes = filter (\<lambda>s. s \<in> set (cScopes client))
      (splitSpaces (params_get q ''scope''))" "list_all validScopeToken (splitSpaces (params_get q ''scope''))"
    by simp_all
  then show ?thesis
  proof (rule that)
    show "challenge_ok (arCodeChallenge req1) (arCodeChallengeMethod req1)"
      using pk(1) assms(2,3) by simp
    show "arCodeChallenge req1 = [] \<Longrightarrow> checkPKCEPolicy client (req0\<lparr>arScopes := scopes\<rparr>) = None"
      using pk(2) assms(2,3) by simp
    have "req1 = req0\<lparr>arScopes := scopes, arCodeChallenge := arCodeChallenge req1,
        arCodeChallengeMethod := arCodeChallengeMethod req1\<rparr>"
      using pk(3) assms(2,3) by simp
    with req show "req = req0\<lparr>arScopes := scopes, arCodeChallenge := arCodeChallenge req1,
        arCodeChallengeMethod := arCodeChallengeMethod req1,
        arPrompt := splitSpaces (params_get q ''prompt''), arMaxAge := maxAge,
        arClaims := claims, arRequestedSubject := subject\<rparr>"
      by (metis (no_types, lifting) AuthorizationRequest.update_convs)
  qed (use r in simp_all)
qed

text \<open>The outcome of the parameters, for any answer of the clock.\<close>

lemma parseAuthorizationRequest_performs:
  assumes "performs (parseAuthorizationRequest p iss client q target pushed) log r"
  obtains e where "check_params p client q target pushed = Some e" and "log = []" and "r = Inl e"
  | now where "check_params p client q target pushed = None" and "log = [EvNow now]"
      and "r = parse_rest p iss client q (new_request p iss client q target pushed now)"
proof (cases "check_params p client q target pushed")
  case None
  with assms show ?thesis
    by (auto simp: parseAuthorizationRequest_def performs_bind op_defs intro: that(2))
next
  case (Some e)
  with assms show ?thesis
    by (auto simp: parseAuthorizationRequest_def intro: that(1))
qed

lemma check_params_None:
  assumes "check_params p client q target pushed = None"
  shows "pRepeated q = []" "\<not> params_has q ''request''" "\<not> params_has q ''request_uri''"
    "\<not> pushed \<Longrightarrow> \<not> parRequired p client" "client_allowsGrant client GrantTypeAuthorizationCode"
    "params_get q ''response_type'' = ''code''"
    "params_get q ''response_mode'' = [] \<or> params_get q ''response_mode'' = atMode target"
  using assms
  by (simp_all only: check_params_def guard_None simp_thms not_not de_Morgan_conj de_Morgan_disj)

lemma new_request_sel [simp]:
  "arID (new_request p iss client q target pushed now) = []"
  "arIssuer (new_request p iss client q target pushed now) = rsURL iss"
  "arClientID (new_request p iss client q target pushed now) = cID client"
  "arRedirectURI (new_request p iss client q target pushed now) = atRedirectURI target"
  "arRedirectURIInRequest (new_request p iss client q target pushed now) =
     params_has q ''redirect_uri''"
  "arResponseType (new_request p iss client q target pushed now) = ''code''"
  "arResponseMode (new_request p iss client q target pushed now) = atMode target"
  "arState (new_request p iss client q target pushed now) = atState target"
  "arCodeChallenge (new_request p iss client q target pushed now) = []"
  "arCodeChallengeMethod (new_request p iss client q target pushed now) = []"
  "arNonce (new_request p iss client q target pushed now) = params_get q ''nonce''"
  "arAudience (new_request p iss client q target pushed now) = cAudience client"
  "arPushed (new_request p iss client q target pushed now) = pushed"
  "arExtra (new_request p iss client q target pushed now) = extra_loop [] (pValues q)"
  "arBindingHash (new_request p iss client q target pushed now) = []"
  "arParsed (new_request p iss client q target pushed now)"
  "arPushedBy (new_request p iss client q target pushed now) = []"
  "\<not> arRedeemed (new_request p iss client q target pushed now)"
  "arCreatedAt (new_request p iss client q target pushed now) = now"
  "arExpiresAt (new_request p iss client q target pushed now) =
     now + ltAuthorizationRequest (cfLifetimes (pvCfg p))"
  by (simp_all only: new_request_def AuthorizationRequest.select_convs time_Add_def simp_thms)

text \<open>What parsing adds to a request besides the fields of the new one: the request passes
  \<^verbatim>\<open>checkRequest\<close>.\<close>

lemma parseAuthorizationRequest_Inr:
  assumes "performs (parseAuthorizationRequest p iss client q target pushed) log (Inr req)"
    and "target_ok client target"
  obtains now where "log = [EvNow now]" and "request_ok p iss client req"
    and "arID req = []" and "arBindingHash req = []" and "arParsed req" and "arPushed req = pushed"
    and "\<not> arRedeemed req" and "arPushedBy req = []" and "targetOf req = target"
    and "arExtra req = extra_loop [] (pValues q)" and "arCreatedAt req = now"
    and "arExpiresAt req = now + ltAuthorizationRequest (cfLifetimes (pvCfg p))"
    and "parse_max_age (params_get q ''max_age'') = Inr (arMaxAge req)"
    and "parse_prompt (arPrompt req) = None"
    and "parse_claims p client (params_get q ''claims'') = Inr (arClaims req)"
    and "arAudience req = cAudience client" and "distinct (arScopes req)"
    and "\<And>v. requested_sub (arClaims req) = Some v \<Longrightarrow> v = JString (arRequestedSubject req)"
  using assms(1)
proof (rule parseAuthorizationRequest_performs)
  fix now
  assume c: "check_params p client q target pushed = None" and log: "log = [EvNow now]"
    and r: "Inr req = parse_rest p iss client q (new_request p iss client q target pushed now)"
  note cp = check_params_None [OF c]
  show thesis
  proof (rule parse_rest_Inr [OF r [symmetric]])
    fix scopes challenge chm prm maxAge claims hint subject
    assume f: "scopes = filter (\<lambda>s. s \<in> set (cScopes client)) (splitSpaces (params_get q ''scope''))"
        "list_all validScopeToken (splitSpaces (params_get q ''scope''))"
        "challenge_ok challenge chm"
        "challenge = [] \<Longrightarrow> checkPKCEPolicy client
           (new_request p iss client q target pushed now\<lparr>arScopes := scopes\<rparr>) = None"
        "parse_prompt prm = None"
        "parse_max_age (params_get q ''max_age'') = Inr maxAge"
        "parse_claims p client (params_get q ''claims'') = Inr claims"
        "parse_subject claims hint = Inr subject"
      and req: "req = new_request p iss client q target pushed now
        \<lparr>arScopes := scopes, arCodeChallenge := challenge, arCodeChallengeMethod := chm,
         arPrompt := prm, arMaxAge := maxAge, arClaims := claims, arRequestedSubject := subject\<rparr>"
    have policy: "checkPKCEPolicy client req = checkPKCEPolicy client
        (new_request p iss client q target pushed now\<lparr>arScopes := scopes\<rparr>)"
      by (simp add: req checkPKCEPolicy_def arIsOpenID_def arHasScope_def)
    have "list_all validScopeToken scopes" using f(1,2) by (auto simp: list_all_iff)
    then have ok: "request_ok p iss client req"
      unfolding request_ok_def delivery_ok_def policy
      using assms(2) cp(4,5) f(1,3,4) by (auto simp: req target_ok_def)
    have sub: "v = JString (arRequestedSubject req)" if "requested_sub (arClaims req) = Some v" for v
      using f(8) that by (cases v) (auto simp: req parse_subject_def split: if_splits)
    show thesis
      by (rule that [OF log ok _ _ _ _ _ _ _ _ _ _ _ _ _ _ _ sub])
        (use f in \<open>simp_all add: req targetOf_def splitSpaces_distinct\<close>)
  qed simp_all
qed simp

end
