(* ===== verification/Grantor_Par.thy ===== *)
theory Grantor_Par
  imports Grantor_ParseFacts Grantor_ClientAuth Grantor_TokenFacts
begin

text \<open>
  par.go: pushed authorization requests. A client pushes the parameters of a request at an endpoint
  where it authenticates, and gets a \<^verbatim>\<open>request_uri\<close> which the user agent then presents once.
\<close>

definition requestURIPrefix :: string where
  "requestURIPrefix = ''urn:ietf:params:oauth:request_uri:''"

definition pushedIDPrefix :: string where
  "pushedIDPrefix = ''par:''"

definition pushedRefLength :: nat where
  "pushedRefLength = 43"

record PushedAuthorizationResponse =
  puRequestURI :: string
  puExpiresIn :: int

definition errPARDisabled :: perror where
  "errPARDisabled =
     PError CodeInvalidRequest ''pushed authorization requests are not enabled'' [] 404 None"

section \<open>Pushing a request\<close>

definition parsePushedAuthorization ::
  "Provider \<Rightarrow> Request \<Rightarrow> resolvedIssuer \<Rightarrow> (perror + AuthorizationRequest) prog" where
  "parsePushedAuthorization p r iss =
     (if cfPAR (pvCfg p) = PARDisabled then Ret (Inl errPARDisabled)
      else if rMethod r \<noteq> ''POST''
      then Ret (Inl (PError CodeInvalidRequest
             ''the pushed authorization request endpoint only accepts POST'' [] 405 None))
      else
        bindE (Ret (parseForm r)) (\<lambda>q.
        if pRepeated q \<noteq> []
        then Ret (Inl (errInvalidRequest ''parameters must not be repeated''))
        else
          bindE (authenticateClient p r iss q) (\<lambda>client.
          if params_has q ''request_uri''
          then Ret (Inl (errInvalidRequest ''request_uri must not be pushed''))
          else
            bindE (provider_authorizationTarget p iss q) (\<lambda>(_, target).
            bindE (parseAuthorizationRequest p iss client q target True) (\<lambda>req.
            Ret (Inr (req\<lparr>arParsed := False, arPushedBy := cID client\<rparr>)))))))"

definition ParsePushedAuthorizationRequest ::
  "Provider \<Rightarrow> Request \<Rightarrow> (goerr + AuthorizationRequest) prog" where
  "ParsePushedAuthorizationRequest p r =
     (case provider_issuerFor p r of
        Inl err \<Rightarrow> Ret (Inl (EProto (issuerError err)))
      | Inr iss \<Rightarrow>
          bind (parsePushedAuthorization p r iss) (\<lambda>x. Ret
            (case x of Inl perr \<Rightarrow> Inl (EProto perr) | Inr req \<Rightarrow> Inr req)))"

text \<open>The request as it is stored, under the random part of its \<^verbatim>\<open>request_uri\<close>.\<close>

definition pushed_record ::
  "Provider \<Rightarrow> Client \<Rightarrow> AuthorizationRequest \<Rightarrow> string \<Rightarrow> time \<Rightarrow> AuthorizationRequest" where
  "pushed_record p client req ref now =
     req\<lparr>arID := pushedIDPrefix @ ref, arPushed := True, arParsed := False, arPushedBy := [],
         arBindingHash := [], arClaims := provider_claimsForClient (pvCfg p) client (arClaims req),
         arCreatedAt := now,
         arExpiresAt := time_Add now (ltPushedAuthorizationRequest (cfLifetimes (pvCfg p)))\<rparr>"

definition pushAuthorization ::
  "Provider \<Rightarrow> resolvedIssuer \<Rightarrow> AuthorizationRequest option \<Rightarrow>
     (perror + PushedAuthorizationResponse) prog" where
  "pushAuthorization p iss reqo =
     (if cfPAR (pvCfg p) = PARDisabled then Ret (Inl errPARDisabled)
      else (case reqo of
        None \<Rightarrow> Ret (Inl (errServer
          (ENew ''the AuthorizationRequest was not created by ParsePushedAuthorizationRequest'')))
      | Some req \<Rightarrow>
          if arPushedBy req = [] \<or> arPushedBy req \<noteq> arClientID req
          then Ret (Inl (errServer
            (ENew ''the AuthorizationRequest was not created by ParsePushedAuthorizationRequest'')))
          else if arID req \<noteq> []
          then Ret (Inl (errServer (ENew ''the authorization request is already saved'')))
          else bind (provider_client p iss (arClientID req)) (\<lambda>r.
            case r of
              Inl err \<Rightarrow> Ret (Inl (errServer (EWrap ''look up client'' [err])))
            | Inr client \<Rightarrow>
                (case checkRequest p iss client req of
                   Some err \<Rightarrow> Ret (Inl (errServer err))
                 | None \<Rightarrow>
                     bind randomToken (\<lambda>ref.
                     bind provider_now (\<lambda>now.
                     bind (storage_CreateAuthorizationRequest (pushed_record p client req ref now))
                       (\<lambda>r. Ret (case r of
                          Some err \<Rightarrow>
                            Inl (errServer (EWrap ''save pushed authorization request'' [err]))
                        | None \<Rightarrow>
                            Inr \<lparr>puRequestURI = requestURIPrefix @ ref,
                                 puExpiresIn =
                                   go_div (ltPushedAuthorizationRequest (cfLifetimes (pvCfg p)))
                                     second\<rparr>))))))))"

definition PushAuthorizationRequest ::
  "Provider \<Rightarrow> Request \<Rightarrow> AuthorizationRequest option \<Rightarrow>
     (goerr + PushedAuthorizationResponse) prog" where
  "PushAuthorizationRequest p r req =
     (case provider_issuerFor p r of
        Inl err \<Rightarrow> Ret (Inl (EProto (issuerError err)))
      | Inr iss \<Rightarrow>
          bind (pushAuthorization p iss req) (\<lambda>x. Ret
            (case x of Inl perr \<Rightarrow> Inl (EProto perr) | Inr resp \<Rightarrow> Inr resp)))"

definition WritePushedAuthorizationResponse ::
  "PushedAuthorizationResponse \<Rightarrow> ResponseWriter \<Rightarrow> ResponseWriter" where
  "WritePushedAuthorizationResponse resp w =
     writeJSON 201 (JObject [(''request_uri'', JString (puRequestURI resp)),
                             (''expires_in'', JNum (puExpiresIn resp))]) (noStore w)"

definition servePushedAuthorization ::
  "Provider \<Rightarrow> ResponseWriter \<Rightarrow> Request \<Rightarrow> resolvedIssuer \<Rightarrow> ResponseWriter prog" where
  "servePushedAuthorization p w r iss =
     (if cfPAR (pvCfg p) = PARDisabled then Ret (WriteTokenError r (EProto errPARDisabled) w)
      else (case allowMethods r [''POST''] w of
        Some w \<Rightarrow> Ret w
      | None \<Rightarrow>
          bind (parsePushedAuthorization p r iss) (\<lambda>x.
            case x of
              Inl perr \<Rightarrow> Ret (WriteTokenError r (EProto perr) w)
            | Inr req \<Rightarrow>
                bind (pushAuthorization p iss (Some req)) (\<lambda>x. Ret
                  (case x of
                     Inl perr \<Rightarrow> WriteTokenError r (EProto perr) w
                   | Inr resp \<Rightarrow> WritePushedAuthorizationResponse resp w)))))"

definition ServePushedAuthorization ::
  "Provider \<Rightarrow> ResponseWriter \<Rightarrow> Request \<Rightarrow> ResponseWriter prog" where
  "ServePushedAuthorization p w r = withIssuer p w r True (servePushedAuthorization p)"

section \<open>Redeeming a request_uri\<close>

definition invalidURI :: "resolvedIssuer \<Rightarrow> goerr" where
  "invalidURI iss =
     EAuth (newError CodeInvalidRequestURI ''request_uri is invalid, expired or already used'') iss None"

definition error_page :: "resolvedIssuer \<Rightarrow> perror \<Rightarrow> goerr" where
  "error_page iss perr = EAuth perr iss None"

text \<open>The pushed request, after the last moment it could be redeemed a second time.\<close>

definition takePushedRequest ::
  "Provider \<Rightarrow> resolvedIssuer \<Rightarrow> string \<Rightarrow> string \<Rightarrow> (goerr + AuthorizationRequest) prog" where
  "takePushedRequest p iss clientID ref =
     bind (storage_AuthorizationRequest (pushedIDPrefix @ ref)) (\<lambda>r.
       case r of
         Inl err \<Rightarrow>
           Ret (Inl (if errors_Is err ErrNotFound then invalidURI iss
                     else error_page iss (errServer (EWrap ''load pushed authorization request'' [err]))))
       | Inr pushed \<Rightarrow>
           if arID pushed \<noteq> pushedIDPrefix @ ref \<or> \<not> arPushed pushed \<or> arIssuer pushed \<noteq> rsURL iss
              \<or> arClientID pushed \<noteq> clientID
           then Ret (Inl (invalidURI iss))
           else bind provider_now (\<lambda>now.
             if \<not> time_Before now (arExpiresAt pushed) then Ret (Inl (invalidURI iss))
             else bind (storage_DeleteAuthorizationRequest (arID pushed)) (\<lambda>r. Ret
               (case r of
                  None \<Rightarrow> Inr pushed
                | Some err \<Rightarrow>
                    if errors_Is err ErrNotFound then Inl (invalidURI iss)
                    else Inl (error_page iss
                           (errServer (EWrap ''delete pushed authorization request'' [err])))))))"

text \<open>The checks on a request that was taken, against the registration of the client as it is now.\<close>

definition redeemed_record :: "Provider \<Rightarrow> AuthorizationRequest \<Rightarrow> time \<Rightarrow> AuthorizationRequest" where
  "redeemed_record p q now =
     q\<lparr>arID := [], arParsed := True, arRedeemed := True, arCreatedAt := now,
       arExpiresAt := time_Add now (ltAuthorizationRequest (cfLifetimes (pvCfg p)))\<rparr>"

definition redeem_checked ::
  "Provider \<Rightarrow> resolvedIssuer \<Rightarrow> AuthorizationRequest \<Rightarrow> goerr + Client \<Rightarrow>
     (goerr + AuthorizationRequest) prog" where
  "redeem_checked p iss pushed r =
     (case r of
        Inl err \<Rightarrow>
          Ret (Inl (error_page iss
            (if errors_Is err ErrNotFound
             then errInvalidRequest ''the client is not registered'' else errServer err)))
      | Inr client \<Rightarrow>
          (let perr = errInvalidRequest
                 ''the pushed request no longer matches the client registration'' in
           if checkDelivery iss client pushed \<noteq> None then Ret (Inl (error_page iss perr))
           else if checkRequest p iss client pushed \<noteq> None
           then Ret (Inl (EAuth perr iss (Some (targetOf pushed))))
           else bind provider_now (\<lambda>now. Ret (Inr (redeemed_record p pushed now)))))"

definition redeemPushedRequest ::
  "Provider \<Rightarrow> resolvedIssuer \<Rightarrow> params \<Rightarrow> (goerr + AuthorizationRequest) prog" where
  "redeemPushedRequest p iss q =
     (if params_isRepeated q ''client_id'' \<or> params_isRepeated q ''request_uri''
      then Ret (Inl (error_page iss
             (errInvalidRequest ''client_id and request_uri must not be repeated'')))
      else (let clientID = params_get q ''client_id'' in
        if clientID = []
        then Ret (Inl (error_page iss (errInvalidRequest ''client_id is required'')))
        else (case strings_CutPrefix (params_get q ''request_uri'') requestURIPrefix of
          None \<Rightarrow> Ret (Inl (invalidURI iss))
        | Some ref \<Rightarrow>
            if length ref \<noteq> pushedRefLength \<or> \<not> isUnreserved ref then Ret (Inl (invalidURI iss))
            else
              bindE (takePushedRequest p iss clientID ref) (\<lambda>pushed.
              bind (provider_client p iss clientID) (redeem_checked p iss pushed)))))"

end
