(* ===== verification/Grantor_Approve.thy ===== *)
theory Grantor_Approve
  imports Grantor_Par
begin

text \<open>
  approve.go: loading a saved authorization request, and completing one with an approval or a
  denial. \<open>Inl\<close> is the error of the method, with which nothing is written to the response.
\<close>

section \<open>Binding to the user agent\<close>

definition bindingCookieName :: "string \<Rightarrow> bool \<Rightarrow> string" where
  "bindingCookieName requestID secure =
     (let name = ''grantor_'' @ take 16 (hashToken requestID)
      in if secure then ''__Host-'' @ name else name)"

text \<open>The cookies of the response are kept parsed; a cookie that the user agent is told to delete has
  a negative age.\<close>

definition bindingFromResponse :: "ResponseWriter \<Rightarrow> string \<Rightarrow> string" where
  "bindingFromResponse w name =
     (case find (\<lambda>c. ckName c = name \<and> 0 \<le> ckMaxAge c) (wSetCookie w) of
        None \<Rightarrow> [] | Some c \<Rightarrow> ckValue c)"

definition binding_cookie :: "string \<Rightarrow> resolvedIssuer \<Rightarrow> string \<Rightarrow> int \<Rightarrow> Cookie" where
  "binding_cookie requestID iss v maxAge =
     \<lparr>ckName = bindingCookieName requestID (rsSecure iss), ckValue = v, ckPath = ''/'',
      ckMaxAge = maxAge, ckSecure = rsSecure iss, ckHttpOnly = True, ckSameSiteLax = True\<rparr>"

definition clearBinding ::
  "AuthorizationRequest \<Rightarrow> resolvedIssuer \<Rightarrow> ResponseWriter \<Rightarrow> ResponseWriter" where
  "clearBinding req iss w =
     (if arBindingHash req = [] then w
      else http_SetCookie (binding_cookie (arID req) iss [] (- 1)) w)"

text \<open>The value of the binding cookie: of the request, else of the response when there is one.\<close>

definition binding_value :: "ResponseWriter option \<Rightarrow> Request \<Rightarrow> string \<Rightarrow> string" where
  "binding_value wo r name =
     (case request_Cookie r name of
        Some v \<Rightarrow> v
      | None \<Rightarrow> (case wo of Some w \<Rightarrow> bindingFromResponse w name | None \<Rightarrow> []))"

definition binding_ok ::
  "ResponseWriter option \<Rightarrow> Request \<Rightarrow> resolvedIssuer \<Rightarrow> AuthorizationRequest \<Rightarrow> bool" where
  "binding_ok wo r iss req \<longleftrightarrow>
     (arBindingHash req \<noteq> [] \<longrightarrow>
       (let v = binding_value wo r (bindingCookieName (arID req) (rsSecure iss))
        in v \<noteq> [] \<and> hashToken v = arBindingHash req))"

section \<open>Loading and deleting a saved request\<close>

definition loadPending ::
  "Provider \<Rightarrow> ResponseWriter option \<Rightarrow> Request \<Rightarrow> resolvedIssuer \<Rightarrow> string \<Rightarrow>
     (goerr + AuthorizationRequest) prog" where
  "loadPending p wo r iss i =
     (if i = [] \<or> strings_HasPrefix i pushedIDPrefix
      then Ret (Inl ErrAuthorizationRequestNotFound)
      else bind (storage_AuthorizationRequest i) (\<lambda>x.
        case x of
          Inl err \<Rightarrow>
            Ret (Inl (if errors_Is err ErrNotFound then ErrAuthorizationRequestNotFound
                      else EWrap ''load authorization request'' [err]))
        | Inr req \<Rightarrow>
            if arID req \<noteq> i \<or> arIssuer req \<noteq> rsURL iss
            then Ret (Inl ErrAuthorizationRequestNotFound)
            else bind provider_now (\<lambda>now. Ret
              (if \<not> time_Before now (arExpiresAt req) \<or> \<not> binding_ok wo r iss req
               then Inl ErrAuthorizationRequestNotFound else Inr req))))"

definition provider_AuthorizationRequest ::
  "Provider \<Rightarrow> Request \<Rightarrow> string \<Rightarrow> (goerr + AuthorizationRequest) prog" where
  "provider_AuthorizationRequest p r i =
     (case provider_issuerFor p r of
        Inl err \<Rightarrow> Ret (Inl (EProto (issuerError err)))
      | Inr iss \<Rightarrow> loadPending p None r iss i)"

definition completeRequest :: "AuthorizationRequest \<Rightarrow> (goerr + unit) prog" where
  "completeRequest req =
     bind (storage_DeleteAuthorizationRequest (arID req)) (\<lambda>r. Ret
       (case r of
          None \<Rightarrow> Inr ()
        | Some err \<Rightarrow>
            if errors_Is err ErrNotFound then Inl ErrAuthorizationRequestNotFound
            else Inl (EWrap ''delete authorization request'' [err])))"

definition check_goerr :: "goerr option \<Rightarrow> goerr + unit" where
  "check_goerr e = (case e of None \<Rightarrow> Inr () | Some err \<Rightarrow> Inl err)"

text \<open>The stored copy of a saved request, or a copy of an unsaved one.\<close>

definition current_request ::
  "Provider \<Rightarrow> ResponseWriter \<Rightarrow> Request \<Rightarrow> resolvedIssuer \<Rightarrow> AuthorizationRequest \<Rightarrow>
     (goerr + AuthorizationRequest) prog" where
  "current_request p w r iss req =
     (if arID req \<noteq> [] then
        bindE (loadPending p (Some w) r iss (arID req)) (\<lambda>stored.
          Ret (if \<not> sameProtocolFields stored req then Inl ErrAuthorizationRequestModified
               else Inr stored))
      else (case checkUnsaved req of
        Some err \<Rightarrow> Ret (Inl err)
      | None \<Rightarrow>
          bind provider_now (\<lambda>now. Ret
            (if \<not> time_Before now (arExpiresAt req) then Inl ErrAuthorizationRequestNotFound
             else Inr req))))"

definition completable ::
  "Provider \<Rightarrow> ResponseWriter \<Rightarrow> Request \<Rightarrow> AuthorizationRequest option \<Rightarrow> bool \<Rightarrow>
     (goerr + resolvedIssuer \<times> Client \<times> AuthorizationRequest) prog" where
  "completable p w r reqo approval =
     (case reqo of
        None \<Rightarrow> Ret (Inl ErrAuthorizationRequestNotFound)
      | Some req \<Rightarrow>
          (case provider_issuerFor p r of
             Inl err \<Rightarrow> Ret (Inl (EProto (issuerError err)))
           | Inr iss \<Rightarrow>
               bindE (current_request p w r iss req) (\<lambda>current.
               bind (provider_client p iss (arClientID current)) (\<lambda>x. Ret
                 (case x of
                    Inl err \<Rightarrow> Inl (EWrap ''look up client'' [err])
                  | Inr client \<Rightarrow>
                      (case (if approval then checkRequest p iss client current
                             else checkDelivery iss client current) of
                         Some err \<Rightarrow> Inl err
                       | None \<Rightarrow>
                           Inr (iss, client, current\<lparr>arClaims :=
                             provider_claimsForClient (pvCfg p) client (arClaims current)\<rparr>)))))))"

section \<open>Approvals\<close>

definition invalidApproval :: "string \<Rightarrow> goerr" where
  "invalidApproval reason = EWrap reason [ErrInvalidApproval]"

text \<open>What OpenID Connect requires of an approval, at an instant.\<close>

definition check_openid_approval ::
  "AuthorizationRequest \<Rightarrow> Approval \<Rightarrow> string list \<Rightarrow> time \<Rightarrow> goerr option" where
  "check_openid_approval req a scopes now =
     (if time_IsZero (apAuthTime a) \<or> time_After (apAuthTime a) (time_Add now minute)
      then Some (invalidApproval ''AuthTime must be set and not in the future'')
      else if needsAuthentication req (apAuthTime a) now
      then Some (invalidApproval ''the end-user must authenticate again'')
      else if arRequestedSubject req \<noteq> [] \<and> arRequestedSubject req \<noteq> apSubject a
      then Some (invalidApproval ''the authenticated end-user is not the one the client requested'')
      else (let (vals, essential) = requestedEssentialACR (arClaims req) in
            if essential \<and> (apACR a = [] \<or> (0 < length vals \<and> apACR a \<notin> set vals))
            then Some (invalidApproval ''the essential acr claim request is not satisfied'')
            else None))"

definition validateApproval ::
  "AuthorizationRequest \<Rightarrow> Approval \<Rightarrow> (goerr + string list \<times> ClaimsRequest option) prog" where
  "validateApproval req a =
     (case validateSubject (apSubject a) of
        Some err \<Rightarrow> Ret (Inl (EWrap [] [ErrInvalidApproval, err]))
      | None \<Rightarrow>
          (case select_loop (arScopes req) [] (apScopes a) of
             None \<Rightarrow> Ret (Inl (invalidApproval ''approved scope was not requested''))
           | Some scopes \<Rightarrow>
               if \<not> set (apClaims a) \<subseteq> set (ClaimsRequest_Names (arClaims req))
               then Ret (Inl (invalidApproval ''approved claim was not requested''))
               else if \<not> arIsOpenID req then Ret (Inr (scopes, None))
               else if ''openid'' \<notin> set scopes
               then Ret (Inl (invalidApproval ''the openid scope must be approved''))
               else bind provider_now (\<lambda>now. Ret
                 (case check_openid_approval req a scopes now of
                    Some err \<Rightarrow> Inl err
                  | None \<Rightarrow>
                      Inr (scopes, ClaimsRequest_filter (\<lambda>name. name \<in> set (apClaims a))
                                     (arClaims req))))))"

definition approved_audience ::
  "Provider \<Rightarrow> Client \<Rightarrow> AuthorizationRequest \<Rightarrow> Approval \<Rightarrow> goerr + string list" where
  "approved_audience p client req a =
     (case subsetOf (arAudience req) (apAudience a) of
        None \<Rightarrow> Inl (invalidApproval ''the approved audience was not requested'')
      | Some audience \<Rightarrow>
          if length audience = 0 \<and>
             firstFormat [cAccessTokenFormat client, cfAccessTokenFormat (pvCfg p)]
               = AccessTokenFormatJWT
          then Inl (invalidApproval ''client uses JWT access tokens, which need an audience'')
          else Inr audience)"

definition code_record ::
  "Provider \<Rightarrow> resolvedIssuer \<Rightarrow> AuthorizationRequest \<Rightarrow> Approval \<Rightarrow> string list \<Rightarrow>
     ClaimsRequest option \<Rightarrow> string list \<Rightarrow> time \<Rightarrow> string \<Rightarrow> string \<Rightarrow> Token" where
  "code_record p iss req a scopes claims audience now code grantID =
     \<lparr>tHash = hashToken code, tKind = TokenKindAuthorizationCode, tGrantID = grantID,
      tIssuer = rsURL iss, tClientID = arClientID req, tSubject = apSubject a, tScopes = scopes,
      tAuthTime = apAuthTime a, tACR = apACR a, tAMR = apAMR a, tClaims = claims,
      tAudience = audience, tAccessTokenClaims = [], tRedirectURI = arRedirectURI req,
      tRedirectURIInRequest = arRedirectURIInRequest req, tNonce = arNonce req,
      tCodeChallenge = arCodeChallenge req, tCodeChallengeMethod = arCodeChallengeMethod req,
      tCreatedAt = now,
      tExpiresAt = time_Add now (ltAuthorizationCode (cfLifetimes (pvCfg p))), tConsumedAt = 0\<rparr>"

text \<open>A saved request is deleted before it is answered; an unsaved one was never stored.\<close>

definition complete_saved :: "AuthorizationRequest \<Rightarrow> (goerr + unit) prog" where
  "complete_saved req = (if arID req \<noteq> [] then completeRequest req else Ret (Inr ()))"

definition issue_code ::
  "Provider \<Rightarrow> ResponseWriter \<Rightarrow> Request \<Rightarrow> resolvedIssuer \<Rightarrow> AuthorizationRequest \<Rightarrow>
     Approval \<Rightarrow> string list \<Rightarrow> ClaimsRequest option \<Rightarrow> string list \<Rightarrow> ResponseWriter prog" where
  "issue_code p w r iss req a scopes claims audience =
     bind provider_now (\<lambda>now.
     bind randomToken (\<lambda>code.
     bind randomToken (\<lambda>grantID.
     bind (storage_CreateToken (code_record p iss req a scopes claims audience now code grantID))
       (\<lambda>x. Ret
         (case x of
            Some err \<Rightarrow> writeAuthorizationError r iss (targetOf req) (errServer err) w
          | None \<Rightarrow>
              writeAuthorizationResponse r iss (targetOf req) [(''code'', [code])]
                (clearBinding req iss w))))))"

definition Approve ::
  "Provider \<Rightarrow> ResponseWriter \<Rightarrow> Request \<Rightarrow> AuthorizationRequest option \<Rightarrow> Approval \<Rightarrow>
     (goerr + ResponseWriter) prog" where
  "Approve p w r reqo a =
     bindE (completable p w r reqo True) (\<lambda>(iss, client, req).
     bindE (validateApproval req a) (\<lambda>(scopes, claims).
     bindE (Ret (approved_audience p client req a)) (\<lambda>audience.
     bindE (complete_saved req) (\<lambda>_.
     bind (issue_code p w r iss req a scopes claims audience) (\<lambda>w. Ret (Inr w))))))"

definition Deny ::
  "Provider \<Rightarrow> ResponseWriter \<Rightarrow> Request \<Rightarrow> AuthorizationRequest option \<Rightarrow> perror option \<Rightarrow>
     (goerr + ResponseWriter) prog" where
  "Deny p w r reqo reasono =
     (let reason = (case reasono of None \<Rightarrow> PError CodeAccessDenied [] [] 0 None | Some e \<Rightarrow> e) in
      if \<not> validErrorCode (eCode reason)
      then Ret (Inl (ENew ''not a valid error code''))
      else
        bindE (completable p w r reqo False) (\<lambda>(iss, _, req).
        bindE (complete_saved req) (\<lambda>_.
          Ret (Inr (writeAuthorizationError r iss (targetOf req) reason
                 (clearBinding req iss w))))))"

end
