(* ===== verification/Grantor_Authorize.thy ===== *)
theory Grantor_Authorize
  imports Grantor_Approve
begin

text \<open>
  The methods of authorize.go around the parsing: the authorization endpoint, which parses a request
  or redeems a pushed one, saves it and hands it to the application.
\<close>

definition parseAuthorization ::
  "Provider \<Rightarrow> Request \<Rightarrow> resolvedIssuer \<Rightarrow> (goerr + AuthorizationRequest) prog" where
  "parseAuthorization p r iss =
     bindE (Ret (if rMethod r = ''GET'' then Inr (newParams (rQuery r))
                 else if rMethod r = ''POST'' then
                   (case parseForm r of Inl perr \<Rightarrow> Inl (EAuth perr iss None) | Inr q \<Rightarrow> Inr q)
                 else Inl (EAuth (PError CodeInvalidRequest ''method not allowed'' [] 405 None)
                             iss None))) (\<lambda>q.
     if cfPAR (pvCfg p) \<noteq> PARDisabled \<and>
        strings_HasPrefix (params_get q ''request_uri'') requestURIPrefix
     then redeemPushedRequest p iss q
     else bind (provider_authorizationTarget p iss q) (\<lambda>x.
       case x of
         Inl perr \<Rightarrow> Ret (Inl (EAuth perr iss None))
       | Inr (client, target) \<Rightarrow>
           bind (parseAuthorizationRequest p iss client q target False) (\<lambda>y. Ret
             (case y of Inl perr \<Rightarrow> Inl (EAuth perr iss (Some target)) | Inr req \<Rightarrow> Inr req))))"

definition ParseAuthorizationRequest ::
  "Provider \<Rightarrow> Request \<Rightarrow> (goerr + AuthorizationRequest) prog" where
  "ParseAuthorizationRequest p r =
     (case provider_issuerFor p r of
        Inl err \<Rightarrow> Ret (Inl (EProto (issuerError err)))
      | Inr iss \<Rightarrow> parseAuthorization p r iss)"

text \<open>The record that is stored for a request, with its new ID and binding hash.\<close>

definition saved_record ::
  "Provider \<Rightarrow> Client \<Rightarrow> AuthorizationRequest \<Rightarrow> string \<Rightarrow> string option \<Rightarrow> AuthorizationRequest"
  where
  "saved_record p client req i binding =
     (let saved = req\<lparr>arParsed := False, arID := i,
                      arClaims := provider_claimsForClient (pvCfg p) client (arClaims req)\<rparr>
      in case binding of None \<Rightarrow> saved | Some b \<Rightarrow> saved\<lparr>arBindingHash := hashToken b\<rparr>)"

text \<open>Answers with the response, on which the binding cookie is set, and the request as it is now.\<close>

definition SaveAuthorizationRequest ::
  "Provider \<Rightarrow> ResponseWriter \<Rightarrow> Request \<Rightarrow> AuthorizationRequest \<Rightarrow>
     (goerr + ResponseWriter \<times> AuthorizationRequest) prog" where
  "SaveAuthorizationRequest p w r req =
     (case provider_issuerFor p r of
        Inl err \<Rightarrow> Ret (Inl (EProto (issuerError err)))
      | Inr iss \<Rightarrow>
          if arID req \<noteq> [] then Ret (Inl (ENew ''authorization request is already saved''))
          else (case checkUnsaved req of
            Some err \<Rightarrow> Ret (Inl err)
          | None \<Rightarrow>
              bind (provider_client p iss (arClientID req)) (\<lambda>x.
                case x of
                  Inl err \<Rightarrow> Ret (Inl (EWrap ''look up client'' [err]))
                | Inr client \<Rightarrow>
                    (case checkRequest p iss client req of
                       Some err \<Rightarrow> Ret (Inl err)
                     | None \<Rightarrow>
                         bind randomToken (\<lambda>i.
                         bind (if cfDisableInteractionBinding (pvCfg p) then Ret None
                               else bind randomToken (\<lambda>b. Ret (Some b))) (\<lambda>binding.
                         (let saved = saved_record p client req i binding in
                          bind (storage_CreateAuthorizationRequest saved) (\<lambda>x. Ret
                            (case x of
                               Some err \<Rightarrow> Inl (EWrap ''save authorization request'' [err])
                             | None \<Rightarrow>
                                 Inr (case binding of
                                        None \<Rightarrow> w
                                      | Some b \<Rightarrow>
                                          http_SetCookie (binding_cookie i iss b
                                            (go_div (ltAuthorizationRequest (cfLifetimes (pvCfg p)))
                                               second)) w,
                                      saved))))))))))"

definition errNoInteract :: goerr where
  "errNoInteract = ENew ''Config.Interact is not set''"

text \<open>The request the application sees carries the binding cookie the user agent does not have yet.\<close>

definition interact_request ::
  "ResponseWriter \<Rightarrow> Request \<Rightarrow> resolvedIssuer \<Rightarrow> AuthorizationRequest \<Rightarrow> Request" where
  "interact_request w r iss req =
     (if arBindingHash req \<noteq> [] then
        (let name = bindingCookieName (arID req) (rsSecure iss)
         in request_AddCookie r name (bindingFromResponse w name))
      else r)"

definition serveAuthorization ::
  "Provider \<Rightarrow> ResponseWriter \<Rightarrow> Request \<Rightarrow> resolvedIssuer \<Rightarrow> ResponseWriter prog" where
  "serveAuthorization p w r iss =
     (case allowMethods r [''GET'', ''POST''] w of
        Some w \<Rightarrow> Ret w
      | None \<Rightarrow>
          (case cfInteract (pvCfg p) of
             None \<Rightarrow> Ret (provider_errorPage p w r (errServer errNoInteract))
           | Some interact \<Rightarrow>
               bind (parseAuthorization p r iss) (\<lambda>x.
                 case x of
                   Inl err \<Rightarrow> Ret (WriteAuthorizationError p r err w)
                 | Inr req \<Rightarrow>
                     bind (SaveAuthorizationRequest p w r req) (\<lambda>y.
                       case y of
                         Inl err \<Rightarrow>
                           Ret (writeAuthorizationError r iss (targetOf req) (errServer err) w)
                       | Inr (w, saved) \<Rightarrow>
                           interact w (interact_request w r iss saved) saved))))"

end
