(* ===== verification/Grantor_ApproveFacts.thy ===== *)
theory Grantor_ApproveFacts
  imports Grantor_Authorize
begin

text \<open>
  What the methods of approve.go, par.go and authorize.go call and return, for every answer of the
  storage, the client store, the clock and the random source.
\<close>

section \<open>The small steps\<close>

lemma performs_requests [simp]:
  "performs (storage_AuthorizationRequest i) log r1 \<longleftrightarrow> log = [EvLoadRequest i r1]"
  "performs (storage_CreateAuthorizationRequest q) log r2 \<longleftrightarrow> log = [EvCreateRequest q r2]"
  "performs (storage_DeleteAuthorizationRequest i) log r3 \<longleftrightarrow> log = [EvDeleteRequest i r3]"
  by (auto simp: op_defs)

lemma completeRequest_Inr:
  "performs (completeRequest req) log (Inr u) \<Longrightarrow> log = [EvDeleteRequest (arID req) None]"
  by (auto simp: completeRequest_def performs_bind result_cases)

lemma complete_saved_Inr:
  "performs (complete_saved req) log (Inr u) \<Longrightarrow>
     log = (if arID req = [] then [] else [EvDeleteRequest (arID req) None])"
  by (auto simp: complete_saved_def dest: completeRequest_Inr split: if_split_asm)

lemma loadPending_Inr:
  assumes "performs (loadPending p wo r iss i) log (Inr req)"
  obtains now where "log = [EvLoadRequest i (Inr req), EvNow now]" and "i \<noteq> []"
    and "\<not> strings_HasPrefix i pushedIDPrefix" and "arID req = i" and "arIssuer req = rsURL iss"
    and "now < arExpiresAt req" and "binding_ok wo r iss req"
  using assms
  by (auto simp: loadPending_def performs_bind performs_cases result_cases time_Before_def
      simp del: performs_if)

text \<open>The request that is completed: the stored copy, bound to the user agent, of a saved request;
  otherwise the unsaved request itself.\<close>

definition current_from ::
  "ResponseWriter \<Rightarrow> Request \<Rightarrow> resolvedIssuer \<Rightarrow> AuthorizationRequest \<Rightarrow> AuthorizationRequest \<Rightarrow>
     event list \<Rightarrow> bool" where
  "current_from w r iss req cur log \<longleftrightarrow>
     (if arID req = [] then cur = req \<and> checkUnsaved req = None
      else EvLoadRequest (arID req) (Inr cur) \<in> set log \<and> arID cur = arID req \<and>
           \<not> strings_HasPrefix (arID req) pushedIDPrefix \<and> arIssuer cur = rsURL iss \<and>
           sameProtocolFields cur req \<and> binding_ok (Some w) r iss cur) \<and>
     (\<exists>now. EvNow now \<in> set log \<and> now < arExpiresAt cur)"

lemma current_request_Inr:
  assumes "performs (current_request p w r iss req) log (Inr cur)"
  shows "current_from w r iss req cur log \<and> writes log = [] \<and> arID cur = arID req"
proof (cases "arID req = []")
  case True
  have c: "checkUnsaved req = None"
    using assms True by (cases "checkUnsaved req") (simp_all add: current_request_def)
  with True assms show ?thesis
    by (auto simp: current_request_def current_from_def performs_bind time_Before_def
        split: if_split_asm)
next
  case False
  with assms have "performs (loadPending p (Some w) r iss (arID req)) log (Inr cur)"
      and same: "sameProtocolFields cur req"
    by (auto simp: current_request_def performs_bindE_Inr split: if_split_asm)
  from this(1) show ?thesis
    by (rule loadPending_Inr) (auto simp: current_from_def False same)
qed

lemma current_from_mono:
  "current_from w r iss req cur log \<Longrightarrow> set log \<subseteq> set log' \<Longrightarrow> current_from w r iss req cur log'"
  by (auto simp: current_from_def split: if_split_asm)

definition completion ::
  "Provider \<Rightarrow> resolvedIssuer \<Rightarrow> bool \<Rightarrow> AuthorizationRequest \<Rightarrow> goerr + Client \<Rightarrow>
     goerr + resolvedIssuer \<times> Client \<times> AuthorizationRequest" where
  "completion p iss approval current x =
     (case x of
        Inl err \<Rightarrow> Inl (EWrap ''look up client'' [err])
      | Inr client \<Rightarrow>
          (case (if approval then checkRequest p iss client current
                 else checkDelivery iss client current) of
             Some err \<Rightarrow> Inl err
           | None \<Rightarrow>
               Inr (iss, client, current\<lparr>arClaims :=
                 provider_claimsForClient (pvCfg p) client (arClaims current)\<rparr>)))"

lemma completable_Inr:
  assumes "performs (completable p w r reqo approval) log (Inr (iss, client, req'))"
  obtains req cur where "reqo = Some req" and "provider_issuerFor p r = Inr iss"
    and "current_from w r iss req cur log" and "writes log = []" and "arID cur = arID req"
    and "EvClient (rsURL iss) (arClientID cur) (Inr (Some client)) \<in> set log"
    and "client_ok (pvCfg p) client" and "cID client = arClientID cur"
    and "if approval then request_ok p iss client cur else delivery_ok iss client cur"
    and "req' = cur\<lparr>arClaims := provider_claimsForClient (pvCfg p) client (arClaims cur)\<rparr>"
proof -
  from assms obtain req where r: "reqo = Some req" by (auto simp: completable_def split: option.split_asm)
  with assms obtain iss' where iss: "provider_issuerFor p r = Inr iss'"
    and "performs (bindE (current_request p w r iss' req) (\<lambda>current.
               bind (provider_client p iss' (arClientID current)) (\<lambda>x. Ret
                 (completion p iss' approval current x)))) log (Inr (iss, client, req'))"
    by (auto simp: completable_def completion_def split: sum.split_asm)
  then obtain l m a and cur :: AuthorizationRequest where
    log: "log = l @ m" and cur: "performs (current_request p w r iss' req) l (Inr cur)"
    and m: "performs (provider_client p iss' (arClientID cur)) m a"
    and x: "completion p iss' approval cur a = Inr (iss, client, req')"
    by (auto simp: performs_bindE_Inr performs_bind)
  from x obtain c where c: "a = Inr c" by (cases a) (simp_all add: completion_def)
  with x have ck: "(if approval then checkRequest p iss' c cur else checkDelivery iss' c cur) = None"
    and eq: "iss' = iss" "c = client"
      "req' = cur\<lparr>arClaims := provider_claimsForClient (pvCfg p) client (arClaims cur)\<rparr>"
    by (auto simp: completion_def split: option.split_asm simp del: if_split)
  from m [unfolded c eq provider_client_performs] obtain a where
    m': "m = [EvClient (rsURL iss) (arClientID cur) a]" and "client_answer p (arClientID cur) a = Inr client"
    by auto
  then have a: "a = Inr (Some client)" "cID client = arClientID cur" "client_ok (pvCfg p) client"
    using client_answer_Inr [of p "arClientID cur" a client] by auto
  note cr = current_request_Inr [OF cur]
  show ?thesis
  proof (rule that [OF r])
    show "current_from w r iss req cur log"
      using cr current_from_mono [of w r iss req cur l log] by (simp add: eq log)
    show "if approval then request_ok p iss client cur else delivery_ok iss client cur"
      using ck by (cases approval) (simp_all add: checkRequest_None checkDelivery_None eq)
  qed (use iss eq cr log m' a in simp_all)
qed

section \<open>Approvals\<close>

text \<open>What an acceptable approval grants: scopes and claims that were requested and approved, and for
  OpenID Connect requests an end-user who authenticated as the request demands.\<close>

definition openid_approval_ok :: "AuthorizationRequest \<Rightarrow> Approval \<Rightarrow> time \<Rightarrow> bool" where
  "openid_approval_ok req a now \<longleftrightarrow>
     apAuthTime a \<noteq> 0 \<and> apAuthTime a \<le> now + minute \<and> \<not> needsAuthentication req (apAuthTime a) now \<and>
     (arRequestedSubject req = [] \<or> arRequestedSubject req = apSubject a) \<and>
     (snd (requestedEssentialACR (arClaims req)) \<longrightarrow>
        apACR a \<noteq> [] \<and>
        (fst (requestedEssentialACR (arClaims req)) = [] \<or>
         apACR a \<in> set (fst (requestedEssentialACR (arClaims req)))))"

definition approval_ok ::
  "AuthorizationRequest \<Rightarrow> Approval \<Rightarrow> string list \<Rightarrow> ClaimsRequest option \<Rightarrow> event list \<Rightarrow> bool" where
  "approval_ok req a scopes claims log \<longleftrightarrow>
     validateSubject (apSubject a) = None \<and>
     set scopes = set (apScopes a) \<and> set scopes \<subseteq> set (arScopes req) \<and> distinct scopes \<and>
     ClaimsRequest_names_all claims
       \<subseteq> {n \<in> ClaimsRequest_names_all (arClaims req). n \<in> set (apClaims a)} \<and>
     (arIsOpenID req \<longrightarrow>
        ''openid'' \<in> set scopes \<and> (\<exists>now. EvNow now \<in> set log \<and> openid_approval_ok req a now))"

lemma check_openid_approval_None:
  "check_openid_approval req a scopes now = None \<longleftrightarrow> openid_approval_ok req a now"
  by (cases "requestedEssentialACR (arClaims req)")
    (auto simp: check_openid_approval_def openid_approval_ok_def time_IsZero_def time_After_def
      time_Add_def)

lemma validateApproval_Inr:
  assumes "performs (validateApproval req a) log (Inr (scopes, claims))"
  shows "approval_ok req a scopes claims log \<and> writes log = []"
proof -
  have s: "validateSubject (apSubject a) = None"
    using assms by (cases "validateSubject (apSubject a)") (simp_all add: validateApproval_def)
  with assms obtain sc where sc: "select_loop (arScopes req) [] (apScopes a) = Some sc"
    by (cases "select_loop (arScopes req) [] (apScopes a)") (simp_all add: validateApproval_def)
  note sl = select_loop_Some [OF sc]
  have base: "set sc = set (apScopes a)" "set sc \<subseteq> set (arScopes req)" "distinct sc"
    using sl by (simp_all add: distinct_nub_loop)
  show ?thesis
  proof (cases "arIsOpenID req")
    case False
    with assms s sc have "scopes = sc" "claims = None" "log = []"
      by (simp_all add: validateApproval_def split: if_split_asm)
    with False s base show ?thesis by (simp add: approval_ok_def ClaimsRequest_names_all_def)
  next
    case True
    with assms s sc obtain now where o: "''openid'' \<in> set sc" and log: "log = [EvNow now]"
      and c: "check_openid_approval req a sc now = None" and "scopes = sc"
      and claims: "claims = ClaimsRequest_filter (\<lambda>n. n \<in> set (apClaims a)) (arClaims req)"
      by (auto simp: validateApproval_def performs_bind split: if_split_asm option.split_asm)
    then show ?thesis
      using s base by (simp add: approval_ok_def check_openid_approval_None ClaimsRequest_filter_names)
  qed
qed

lemma approved_audience_Inr:
  "approved_audience p client req a = Inr audience \<Longrightarrow>
     set audience = set (apAudience a) \<and> set audience \<subseteq> set (arAudience req) \<and>
     (firstFormat [cAccessTokenFormat client, cfAccessTokenFormat (pvCfg p)] = AccessTokenFormatJWT
        \<longrightarrow> audience \<noteq> [])"
  by (auto simp: approved_audience_def dest: subsetOf_Some split: option.split_asm if_split_asm)

text \<open>A request with the claims the client may ask for is the same for everything but the claims.\<close>

lemma claims_update_sel [simp]:
  "delivery_ok iss client (q\<lparr>arClaims := c\<rparr>) = delivery_ok iss client q"
  "request_ok p iss client (q\<lparr>arClaims := c\<rparr>) = request_ok p iss client q"
  "targetOf (q\<lparr>arClaims := c\<rparr>) = targetOf q"
  by (simp_all add: delivery_ok_def request_ok_def checkPKCEPolicy_def arIsOpenID_def arHasScope_def
      targetOf_def)

lemma claims_sel:
  "arID (q\<lparr>arClaims := c\<rparr>) = arID q" "arBindingHash (q\<lparr>arClaims := c\<rparr>) = arBindingHash q"
  "arRedirectURI (q\<lparr>arClaims := c\<rparr>) = arRedirectURI q" "arState (q\<lparr>arClaims := c\<rparr>) = arState q"
  "arResponseMode (q\<lparr>arClaims := c\<rparr>) = arResponseMode q"
  "arAudience (q\<lparr>arClaims := c\<rparr>) = arAudience q" "arClientID (q\<lparr>arClaims := c\<rparr>) = arClientID q"
  "arNonce (q\<lparr>arClaims := c\<rparr>) = arNonce q"
  "arRedirectURIInRequest (q\<lparr>arClaims := c\<rparr>) = arRedirectURIInRequest q"
  "arCodeChallenge (q\<lparr>arClaims := c\<rparr>) = arCodeChallenge q"
  "arCodeChallengeMethod (q\<lparr>arClaims := c\<rparr>) = arCodeChallengeMethod q"
  by simp_all

lemma delivery_target: "delivery_ok iss client q \<Longrightarrow> target_ok client (targetOf q)"
  unfolding delivery_ok_def target_ok_def targetOf_def by simp

section \<open>Completed requests\<close>

lemma Approve_Inr:
  assumes "performs (Approve p w r reqo a) log (Inr w')"
  obtains req cur iss client cl scopes audience now grantID code ans where
    "reqo = Some req" and "provider_issuerFor p r = Inr iss"
    and "current_from w r iss req cur log" and "client_ok (pvCfg p) client"
    and "EvClient (rsURL iss) (arClientID cur) (Inr (Some client)) \<in> set log"
    and "request_ok p iss client cur" and "approval_ok
          (cur\<lparr>arClaims := provider_claimsForClient (pvCfg p) client (arClaims cur)\<rparr>) a scopes cl log"
    and "approved_audience p client cur a = Inr audience"
    and "writes log = (if arID req = [] then [] else [EvDeleteRequest (arID req) None])
           @ [EvCreateToken (code_record p iss cur a scopes cl audience now code grantID) ans]"
    and "w' = (case ans of
        Some err \<Rightarrow> writeAuthorizationError r iss (targetOf cur) (errServer err) w
      | None \<Rightarrow> writeAuthorizationResponse r iss (targetOf cur) [(''code'', [code])]
                  (clearBinding cur iss w))"
proof -
  from assms obtain l m iss client req' where log: "log = l @ m"
    and c: "performs (completable p w r reqo True) l (Inr (iss, client, req'))"
    and rest: "performs
     (bindE (validateApproval req' a) (\<lambda>(scopes, claims).
      bindE (Ret (approved_audience p client req' a)) (\<lambda>audience.
      bindE (complete_saved req') (\<lambda>_.
      bind (issue_code p w r iss req' a scopes claims audience) (\<lambda>w. Ret (Inr w)))))) m (Inr w')"
    unfolding Approve_def by (elim success_step) (auto split: prod.split_asm)
  from rest obtain m1 m2 scopes cl where m: "m = m1 @ m2"
    and v: "performs (validateApproval req' a) m1 (Inr (scopes, cl))"
    and rest: "performs (bindE (Ret (approved_audience p client req' a)) (\<lambda>audience.
      bindE (complete_saved req') (\<lambda>_.
      bind (issue_code p w r iss req' a scopes cl audience) (\<lambda>w. Ret (Inr w))))) m2 (Inr w')"
    by (elim success_step) (auto split: prod.split_asm)
  from rest obtain audience where aud: "approved_audience p client req' a = Inr audience"
    and rest: "performs (bindE (complete_saved req') (\<lambda>_.
      bind (issue_code p w r iss req' a scopes cl audience) (\<lambda>w. Ret (Inr w)))) m2 (Inr w')"
    by (rule success_Ret)
  from rest obtain m3 m4 u where m2: "m2 = m3 @ m4" and d: "performs (complete_saved req') m3 (Inr u)"
    and rest: "performs (bind (issue_code p w r iss req' a scopes cl audience)
                 (\<lambda>w. Ret (Inr w :: goerr + ResponseWriter))) m4 (Inr w')"
    by (rule success_step)
  from rest obtain now b1 b2 ans where m4: "m4 = [EvNow now, EvRand b1, EvRand b2,
      EvCreateToken (code_record p iss req' a scopes cl audience now (randomToken_of b1)
        (randomToken_of b2)) ans]"
    and w': "w' = (case ans of
            Some err \<Rightarrow> writeAuthorizationError r iss (targetOf req') (errServer err) w
          | None \<Rightarrow>
              writeAuthorizationResponse r iss (targetOf req') [(''code'', [randomToken_of b1])]
                (clearBinding req' iss w))"
    by (auto simp: issue_code_def performs_bind performs_randomToken simp del: option.case)
  from c show ?thesis
  proof (rule completable_Inr)
    fix req cur
    assume f: "reqo = Some req" "provider_issuerFor p r = Inr iss" "current_from w r iss req cur l"
        "writes l = []" "arID cur = arID req"
        "EvClient (rsURL iss) (arClientID cur) (Inr (Some client)) \<in> set l"
        "client_ok (pvCfg p) client" "cID client = arClientID cur"
        "if True then request_ok p iss client cur else delivery_ok iss client cur"
      and req': "req' = cur\<lparr>arClaims := provider_claimsForClient (pvCfg p) client (arClaims cur)\<rparr>"
    note va = validateApproval_Inr [OF v]
    have eqs: "clearBinding req' iss w = clearBinding cur iss w" "targetOf req' = targetOf cur"
        "approved_audience p client req' a = approved_audience p client cur a"
        "code_record p iss req' a scopes cl audience n c g =
           code_record p iss cur a scopes cl audience n c g" for n c g
      by (simp_all only: req' clearBinding_def approved_audience_def targetOf_def code_record_def
          AuthorizationRequest.update_convs AuthorizationRequest.select_convs claims_sel)
    have cf: "current_from w r iss req cur log"
      by (rule current_from_mono [OF f(3)]) (simp add: log)
    have ev: "EvClient (rsURL iss) (arClientID cur) (Inr (Some client)) \<in> set log"
      using f(6) by (simp add: log)
    have rq: "request_ok p iss client cur" using f(9) by simp
    have ap: "approval_ok req' a scopes cl log"
      using va by (auto simp: approval_ok_def log m)
    have wr: "writes log = (if arID req = [] then [] else [EvDeleteRequest (arID req) None])
        @ [EvCreateToken (code_record p iss cur a scopes cl audience now (randomToken_of b1)
             (randomToken_of b2)) ans]"
      using complete_saved_Inr [OF d] f(4,5) va eqs by (simp add: log m m2 m4 req')
    show thesis
      by (rule that [OF f(1,2) cf f(7) ev rq ap [unfolded req'] aud [unfolded eqs] wr w' [unfolded eqs]])
  qed
qed

lemma Deny_Inr:
  assumes "performs (Deny p w r reqo reasono) log (Inr w')"
  obtains req cur iss client reason where
    "reason = (case reasono of None \<Rightarrow> PError CodeAccessDenied [] [] 0 None | Some e \<Rightarrow> e)"
    and "validErrorCode (eCode reason)"
    and "reqo = Some req" and "provider_issuerFor p r = Inr iss"
    and "current_from w r iss req cur log" and "client_ok (pvCfg p) client"
    and "EvClient (rsURL iss) (arClientID cur) (Inr (Some client)) \<in> set log"
    and "delivery_ok iss client cur"
    and "writes log = (if arID req = [] then [] else [EvDeleteRequest (arID req) None])"
    and "w' = writeAuthorizationError r iss (targetOf cur) reason (clearBinding cur iss w)"
proof -
  define reason where
    "reason = (case reasono of None \<Rightarrow> PError CodeAccessDenied [] [] 0 None | Some e \<Rightarrow> e)"
  from assms have valid: "validErrorCode (eCode reason)"
    and "performs (bindE (completable p w r reqo False) (\<lambda>(iss, _, req).
        bindE (complete_saved req) (\<lambda>_.
          Ret (Inr (writeAuthorizationError r iss (targetOf req) reason
                 (clearBinding req iss w)))))) log (Inr w')"
    by (simp_all add: Deny_def Let_def flip: reason_def split: if_split_asm)
  then obtain l m iss client req' where log: "log = l @ m"
    and c: "performs (completable p w r reqo False) l (Inr (iss, client, req'))"
    and rest: "performs (bindE (complete_saved req') (\<lambda>_.
          Ret (Inr (writeAuthorizationError r iss (targetOf req') reason
                 (clearBinding req' iss w))))) m (Inr w')"
    by (elim success_step) (auto split: prod.split_asm)
  from rest obtain u where d: "performs (complete_saved req') m (Inr u)"
    and w': "w' = writeAuthorizationError r iss (targetOf req') reason (clearBinding req' iss w)"
    by (elim success_step) auto
  from c show ?thesis
  proof (rule completable_Inr)
    fix req cur
    assume f: "reqo = Some req" "provider_issuerFor p r = Inr iss" "current_from w r iss req cur l"
        "writes l = []" "arID cur = arID req"
        "EvClient (rsURL iss) (arClientID cur) (Inr (Some client)) \<in> set l"
        "client_ok (pvCfg p) client" "cID client = arClientID cur"
        "if False then request_ok p iss client cur else delivery_ok iss client cur"
      and req': "req' = cur\<lparr>arClaims := provider_claimsForClient (pvCfg p) client (arClaims cur)\<rparr>"
    have eqs: "clearBinding req' iss w = clearBinding cur iss w" "targetOf req' = targetOf cur"
      by (simp_all only: req' clearBinding_def targetOf_def claims_sel)
    have cf: "current_from w r iss req cur log"
      by (rule current_from_mono [OF f(3)]) (simp add: log)
    have ev: "EvClient (rsURL iss) (arClientID cur) (Inr (Some client)) \<in> set log"
      using f(6) by (simp add: log)
    have dl: "delivery_ok iss client cur" using f(9) by simp
    have wr: "writes log = (if arID req = [] then [] else [EvDeleteRequest (arID req) None])"
      using complete_saved_Inr [OF d] f(4,5) by (simp add: log req')
    show thesis
      by (rule that [OF reason_def valid f(1,2) cf f(7) ev dl wr w' [unfolded eqs]])
  qed
qed

end
