(* ===== verification/Grantor_RequestFacts.thy ===== *)
theory Grantor_RequestFacts
  imports Grantor_ApproveFacts
begin

text \<open>
  The life of an authorization request in the programs of authorize.go and par.go: how it is parsed,
  saved, pushed and redeemed, for every answer of the environment.
\<close>

section \<open>Redeeming a pushed request\<close>

lemma takePushedRequest_Inr:
  assumes "performs (takePushedRequest p iss i ref) log (Inr q)"
  obtains now where
    "log = [EvLoadRequest (pushedIDPrefix @ ref) (Inr q), EvNow now,
            EvDeleteRequest (pushedIDPrefix @ ref) None]"
    and "arID q = pushedIDPrefix @ ref" and "arPushed q" and "arIssuer q = rsURL iss"
    and "arClientID q = i" and "now < arExpiresAt q"
  using assms
  by (auto simp: takePushedRequest_def performs_bind performs_cases result_cases time_Before_def
      simp del: performs_if)

lemma failure_cases:
  "Inl b = case_sum f g x \<longleftrightarrow> (\<exists>e. x = Inl e \<and> Inl b = f e) \<or> (\<exists>a. x = Inr a \<and> Inl b = g a)"
  "Inl b = case_option n h y \<longleftrightarrow> (y = None \<and> Inl b = n) \<or> (\<exists>a. y = Some a \<and> Inl b = h a)"
  "Inl b = (if c then p else q) \<longleftrightarrow> (c \<and> Inl b = p) \<or> (\<not> c \<and> Inl b = q)"
  by (cases x; auto) (cases y; auto)+

lemma takePushedRequest_Inl:
  assumes "performs (takePushedRequest p iss i ref) log (Inl err)"
  shows "\<exists>perr. err = EAuth perr iss None"
  using assms
  by (auto simp: takePushedRequest_def performs_bind invalidURI_def error_page_def performs_cases
      failure_cases simp del: performs_if)

lemma redeemPushedRequest_performs:
  assumes "performs (redeemPushedRequest p iss q) log x"
  obtains perr where "log = []" and "x = Inl (EAuth perr iss None)"
  | ref where "params_get q ''request_uri'' = requestURIPrefix @ ref"
      and "length ref = pushedRefLength" and "params_get q ''client_id'' \<noteq> []"
      and "\<not> params_isRepeated q ''client_id''"
      and "performs (bindE (takePushedRequest p iss (params_get q ''client_id'') ref) (\<lambda>pushed.
             bind (provider_client p iss (params_get q ''client_id''))
               (redeem_checked p iss pushed))) log x"
proof -
  let ?i = "params_get q ''client_id''"
  let ?ref = "strings_CutPrefix (params_get q ''request_uri'') requestURIPrefix"
  consider "params_isRepeated q ''client_id'' \<or> params_isRepeated q ''request_uri''"
    | "\<not> (params_isRepeated q ''client_id'' \<or> params_isRepeated q ''request_uri'')" "?i = []"
    | "\<not> (params_isRepeated q ''client_id'' \<or> params_isRepeated q ''request_uri'')" "?i \<noteq> []"
        "?ref = None"
    | ref where "\<not> (params_isRepeated q ''client_id'' \<or> params_isRepeated q ''request_uri'')"
        "?i \<noteq> []" "?ref = Some ref" by blast
  then show ?thesis
  proof cases
    case 1
    with assms show ?thesis
      by (intro that(1)) (auto simp: redeemPushedRequest_def error_page_def)
  next
    case 2
    with assms show ?thesis
      by (intro that(1)) (auto simp: redeemPushedRequest_def error_page_def invalidURI_def Let_def)
  next
    case 3
    with assms show ?thesis
      by (intro that(1)) (auto simp: redeemPushedRequest_def invalidURI_def Let_def)
  next
    case (4 ref)
    then have body: "redeemPushedRequest p iss q =
        (if length ref \<noteq> pushedRefLength \<or> \<not> isUnreserved ref then Ret (Inl (invalidURI iss))
         else bindE (takePushedRequest p iss ?i ref) (\<lambda>pushed.
                bind (provider_client p iss ?i) (redeem_checked p iss pushed)))"
      by (simp add: redeemPushedRequest_def Let_def)
    show ?thesis
    proof (cases "length ref \<noteq> pushedRefLength \<or> \<not> isUnreserved ref")
      case True
      with assms show ?thesis by (intro that(1)) (auto simp: body invalidURI_def)
    next
      case False
      with assms 4 show ?thesis
        by (intro that(2) [of ref]) (simp_all add: body CutPrefix_Some)
    qed
  qed
qed

lemma redeem_checked_performs:
  assumes "performs (bind (provider_client p iss (arClientID pushed)) (redeem_checked p iss pushed)) log x"
  obtains client now where "x = Inr (redeemed_record p pushed now)" and "client_ok (pvCfg p) client"
      and "log = [EvClient (rsURL iss) (arClientID pushed) (Inr (Some client)), EvNow now]"
      and "request_ok p iss client pushed"
  | perr client where "x = Inl (EAuth perr iss (Some (targetOf pushed)))"
      and "client_ok (pvCfg p) client" and "delivery_ok iss client pushed"
      and "log = [EvClient (rsURL iss) (arClientID pushed) (Inr (Some client))]"
  | perr a where "x = Inl (EAuth perr iss None)"
      and "log = [EvClient (rsURL iss) (arClientID pushed) a]"
proof -
  from assms obtain a m where log: "log = EvClient (rsURL iss) (arClientID pushed) a # m"
    and rest: "performs (redeem_checked p iss pushed (client_answer p (arClientID pushed) a)) m x"
    by (auto simp: performs_bind provider_client_performs)
  show ?thesis
  proof (cases "client_answer p (arClientID pushed) a")
    case (Inl err)
    with rest have "m = []" "\<exists>perr. x = Inl (EAuth perr iss None)"
      by (auto simp: redeem_checked_def error_page_def)
    with log show ?thesis by (auto intro: that(3))
  next
    case (Inr client)
    then have c: "a = Inr (Some client)" "client_ok (pvCfg p) client" by (simp_all add: client_answer_Inr)
    show ?thesis
    proof (cases "checkDelivery iss client pushed")
      case (Some e)
      with rest Inr have "m = []" "\<exists>perr. x = Inl (EAuth perr iss None)"
        by (auto simp: redeem_checked_def error_page_def)
      with log show ?thesis by (auto intro: that(3))
    next
      case None
      show ?thesis
      proof (cases "checkRequest p iss client pushed")
        case (Some e)
        with None rest Inr have "m = []" "\<exists>perr. x = Inl (EAuth perr iss (Some (targetOf pushed)))"
          by (auto simp: redeem_checked_def Let_def)
        with log c None show ?thesis by (auto simp: checkDelivery_None intro: that(2))
      next
        case None2: None
        with None rest Inr obtain now where "m = [EvNow now]"
            "x = Inr (redeemed_record p pushed now)"
          by (auto simp: redeem_checked_def Let_def performs_bind)
        with log c None2 show ?thesis by (auto simp: checkRequest_None intro: that(1))
      qed
    qed
  qed
qed

section \<open>Parsing\<close>

text \<open>The request was parsed for a registered client, and passes every check.\<close>

definition parsed_ok ::
  "Provider \<Rightarrow> resolvedIssuer \<Rightarrow> AuthorizationRequest \<Rightarrow> event list \<Rightarrow> bool" where
  "parsed_ok p iss req log \<longleftrightarrow>
     (\<exists>client. EvClient (rsURL iss) (arClientID req) (Inr (Some client)) \<in> set log \<and>
        client_ok (pvCfg p) client \<and> request_ok p iss client req) \<and>
     arID req = [] \<and> checkUnsaved req = None \<and>
     (\<exists>now. EvNow now \<in> set log \<and> arCreatedAt req = now \<and>
        arExpiresAt req = now + ltAuthorizationRequest (cfLifetimes (pvCfg p)))"

text \<open>An error that is sent to a client goes to a redirect URI of a registered client.\<close>

definition redirect_ok ::
  "Provider \<Rightarrow> resolvedIssuer \<Rightarrow> goerr \<Rightarrow> event list \<Rightarrow> bool" where
  "redirect_ok p iss err log \<longleftrightarrow>
     (\<exists>perr. err = EAuth perr iss None \<or>
        (\<exists>client target. err = EAuth perr iss (Some target) \<and> client_ok (pvCfg p) client \<and>
           EvClient (rsURL iss) (cID client) (Inr (Some client)) \<in> set log \<and>
           target_ok client target))"

lemma request_ok_redeemed:
  "request_ok p iss client (redeemed_record p q now) = request_ok p iss client q"
  by (simp add: request_ok_def delivery_ok_def redeemed_record_def checkPKCEPolicy_def arIsOpenID_def
      arHasScope_def)

lemma redeemed_record_sel:
  "arID (redeemed_record p q now) = []" "arClientID (redeemed_record p q now) = arClientID q"
  "arParsed (redeemed_record p q now)" "arRedeemed (redeemed_record p q now)"
  "arPushed (redeemed_record p q now) = arPushed q" "arCreatedAt (redeemed_record p q now) = now"
  "arExpiresAt (redeemed_record p q now) = now + ltAuthorizationRequest (cfLifetimes (pvCfg p))"
  by (simp_all add: redeemed_record_def time_Add_def)

lemma delivery_ok_client: "delivery_ok iss client q \<Longrightarrow> cID client = arClientID q"
  by (simp add: delivery_ok_def)

lemma redeemPushedRequest_outcome:
  assumes "performs (redeemPushedRequest p iss q) log x"
  shows "case x of Inr req \<Rightarrow> parsed_ok p iss req log | Inl err \<Rightarrow> redirect_ok p iss err log"
  using assms
proof (cases rule: redeemPushedRequest_performs)
  case (2 ref)
  from 2(5) show ?thesis
  proof (cases rule: performs_bindE_steps)
    case (1 e)
    with takePushedRequest_Inl show ?thesis by (fastforce simp: redirect_ok_def)
  next
    case (2 l m pushed)
    from 2(2) obtain now where t: "l = [EvLoadRequest (pushedIDPrefix @ ref) (Inr pushed), EvNow now,
          EvDeleteRequest (pushedIDPrefix @ ref) None]" "arPushed pushed"
        "arClientID pushed = params_get q ''client_id''"
      by (rule takePushedRequest_Inr)
    from 2(3) [folded t(3)] show ?thesis
    proof (cases rule: redeem_checked_performs)
      case (1 client now)
      have "parsed_ok p iss (redeemed_record p pushed now) log"
        using 1 2(1) t(2)
        by (auto simp: parsed_ok_def redeemed_record_sel request_ok_redeemed checkUnsaved_def)
      with 1 show ?thesis by simp
    next
      case (2 perr client)
      with delivery_target [OF 2(3)] delivery_ok_client [OF 2(3)] \<open>log = l @ m\<close> show ?thesis
        by (auto simp: redirect_ok_def)
    qed (simp add: redirect_ok_def)
  qed
qed (simp add: redirect_ok_def)

lemma parseAuthorization_outcome:
  assumes "performs (parseAuthorization p r iss) log x"
  shows "case x of Inr req \<Rightarrow> parsed_ok p iss req log | Inl err \<Rightarrow> redirect_ok p iss err log"
proof -
  from assms consider perr where "x = Inl (EAuth perr iss None)" "log = []"
    | q where "performs (redeemPushedRequest p iss q) log x"
    | q where "performs (bind (provider_authorizationTarget p iss q) (\<lambda>x.
       case x of
         Inl perr \<Rightarrow> Ret (Inl (EAuth perr iss None))
       | Inr (client, target) \<Rightarrow>
           bind (parseAuthorizationRequest p iss client q target False) (\<lambda>y. Ret
             (case y of Inl perr \<Rightarrow> Inl (EAuth perr iss (Some target)) | Inr req \<Rightarrow> Inr req)))) log x"
    unfolding parseAuthorization_def performs_RetE
    by (auto split: if_split_asm sum.split_asm)
  then show ?thesis
  proof cases
    case 2
    then show ?thesis by (rule redeemPushedRequest_outcome)
  next
    case (3 q)
    then obtain l m a where log: "log = l @ m"
      and t: "performs (provider_authorizationTarget p iss q) l a"
      and rest: "performs (case a of
         Inl perr \<Rightarrow> Ret (Inl (EAuth perr iss None))
       | Inr (client, target) \<Rightarrow>
           bind (parseAuthorizationRequest p iss client q target False) (\<lambda>y. Ret
             (case y of Inl perr \<Rightarrow> Inl (EAuth perr iss (Some target)) | Inr req \<Rightarrow> Inr req))) m x"
      by (rule performs_bind_steps)
    show ?thesis
    proof (cases a)
      case (Inl perr)
      with rest show ?thesis by (simp add: redirect_ok_def)
    next
      case (Inr ct)
      obtain client target where ct: "ct = (client, target)" by (cases ct)
      note at = provider_authorizationTarget_Inr [OF t [unfolded Inr ct]]
      from rest have "performs (bind (parseAuthorizationRequest p iss client q target False)
          (\<lambda>y. Ret (case y of Inl perr \<Rightarrow> Inl (EAuth perr iss (Some target)) | Inr req \<Rightarrow> Inr req)))
          m x" by (simp add: Inr ct)
      then obtain y where pr: "performs (parseAuthorizationRequest p iss client q target False) m y"
        and x: "x = (case y of Inl perr \<Rightarrow> Inl (EAuth perr iss (Some target)) | Inr req \<Rightarrow> Inr req)"
        by (elim performs_bind_steps) (simp del: sum.case)
      show ?thesis
      proof (cases y)
        case (Inl perr)
        then show ?thesis
          using at log x by (auto simp: redirect_ok_def)
      next
        case (Inr req)
        from pr [unfolded this] at(4) show ?thesis
        proof (rule parseAuthorizationRequest_Inr)
          fix now
          assume f: "m = [EvNow now]" "request_ok p iss client req" "arID req = []"
            "arParsed req" "arPushed req = False" "\<not> arRedeemed req" "arCreatedAt req = now"
            "arExpiresAt req = now + ltAuthorizationRequest (cfLifetimes (pvCfg p))"
          have "cID client = arClientID req" using f(2) by (simp add: request_ok_def delivery_ok_def)
          then have "parsed_ok p iss req log"
            using f at by (auto simp: parsed_ok_def checkUnsaved_def log)
          then show ?thesis by (simp add: x Inr)
        qed
      qed
    qed
  qed (simp add: redirect_ok_def)
qed

end
