(* ===== verification/Grantor_RequestSafety.thy ===== *)
theory Grantor_RequestSafety
  imports Grantor_RequestFacts Grantor_TokenSafety
begin

text \<open>
  Authorization requests across HTTP requests: a saved request is completed once and a pushed one
  redeemed once, however the requests interleave, and neither can be used in place of the other.
\<close>

section \<open>Which stored requests a program touches\<close>

fun touches_only :: "(string \<Rightarrow> bool) \<Rightarrow> event \<Rightarrow> bool" where
  "touches_only Q (EvCreateRequest q r) = Q (arID q)"
| "touches_only Q (EvLoadRequest i r) = Q i"
| "touches_only Q (EvDeleteRequest i r) = Q i"
| "touches_only Q _ = True"

abbreviation touching :: "(string \<Rightarrow> bool) \<Rightarrow> 'a prog \<Rightarrow> bool" where
  "touching Q p \<equiv> makes (\<lambda>_. True) (touches_only Q) p"

definition pushed_id :: "string \<Rightarrow> bool" where
  "pushed_id i \<longleftrightarrow> strings_HasPrefix i pushedIDPrefix"

lemma touching_ops [makes_intros]:
  "touching Q provider_now" "touching Q randomToken" "touching Q (storage_CreateToken t)"
  "touching Q (clients_Client iss i)" "touching Q (storage_ClaimOnce k e)"
  "Q i \<Longrightarrow> touching Q (storage_AuthorizationRequest i)"
  "Q i \<Longrightarrow> touching Q (storage_DeleteAuthorizationRequest i)"
  "Q (arID q) \<Longrightarrow> touching Q (storage_CreateAuthorizationRequest q)"
  by (simp_all add: op_defs)

lemma touching_client [makes_intros]: "touching Q (provider_client p iss i)"
  unfolding provider_client_def by (intro makes_intros)

lemma touching_authenticate [makes_intros]: "touching Q (authenticateClient p r iss q)"
  unfolding authenticateClient_def authenticateWithSecret_def lookupAuthenticatingClient_def
    verifyClientAssertion_def check_assertion_def claim_assertion_def
  by (intro makes_intros)

lemma touching_target [makes_intros]: "touching Q (provider_authorizationTarget p iss q)"
  unfolding provider_authorizationTarget_def by (intro makes_intros)

lemma touching_parse [makes_intros]:
  "touching Q (parseAuthorizationRequest p iss client q target pushed)"
  unfolding parseAuthorizationRequest_def by (intro makes_intros)

lemma touching_loadPending [makes_intros]: "touching (\<lambda>i. \<not> pushed_id i) (loadPending p wo r iss i)"
  unfolding loadPending_def by (intro makes_intros) (simp add: pushed_id_def)

lemma touching_current [makes_intros]:
  "touching (\<lambda>i. \<not> pushed_id i) (current_request p w r iss req)"
  unfolding current_request_def by (intro makes_intros)

lemma touching_completable [makes_intros]:
  "touching (\<lambda>i. \<not> pushed_id i) (completable p w r reqo approval)"
  unfolding completable_def by (intro makes_intros)

lemma touching_complete_saved:
  "arID req = [] \<or> \<not> pushed_id (arID req) \<Longrightarrow> touching (\<lambda>i. \<not> pushed_id i) (complete_saved req)"
  unfolding complete_saved_def completeRequest_def by (intro makes_intros) simp

lemma touching_validateApproval [makes_intros]: "touching Q (validateApproval req a)"
  unfolding validateApproval_def by (intro makes_intros)

lemma touching_issue_code [makes_intros]:
  "touching Q (issue_code p w r iss req a scopes claims audience)"
  unfolding issue_code_def by (intro makes_intros)

lemma completable_id:
  assumes "performs (completable p w r reqo approval) log (Inr x)"
  shows "arID (snd (snd x)) = [] \<or> \<not> pushed_id (arID (snd (snd x)))"
proof -
  obtain iss client req' where x: "x = (iss, client, req')" by (cases x)
  from assms [unfolded x] show ?thesis
    by (rule completable_Inr)
      (auto simp: x current_from_def pushed_id_def claims_sel split: if_split_asm)
qed

lemma touching_completed:
  assumes "\<And>iss client req. arID req = [] \<or> \<not> pushed_id (arID req) \<Longrightarrow>
     touching (\<lambda>i. \<not> pushed_id i) (f (iss, client, req))"
  shows "touching (\<lambda>i. \<not> pushed_id i) (bindE (completable p w r reqo approval) f)"
proof (rule makes_bindE_performs [OF touching_completable])
  fix log x
  assume "performs (completable p w r reqo approval) log (Inr x)"
  from completable_id [OF this] assms show "touching (\<lambda>i. \<not> pushed_id i) (f x)"
    by (cases x) auto
qed

lemma touching_Approve: "touching (\<lambda>i. \<not> pushed_id i) (Approve p w r reqo a)"
  unfolding Approve_def
  by (rule touching_completed) (simp, intro makes_intros touching_complete_saved)

lemma touching_Deny: "touching (\<lambda>i. \<not> pushed_id i) (Deny p w r reqo reason)"
  unfolding Deny_def Let_def
  by (intro makes_branches(1) makes_Ret touching_completed)
    (simp, intro makes_intros touching_complete_saved)

lemma randomToken_not_pushed: "\<not> pushed_id (randomToken_of b)"
proof
  assume "pushed_id (randomToken_of b)"
  then obtain s where "randomToken_of b = pushedIDPrefix @ s"
    by (auto simp: pushed_id_def HasPrefix_iff)
  then have "CHR '':'' \<in> set (randomToken_of b)" by (simp add: pushedIDPrefix_def)
  with randomToken_no_colon show False by blast
qed

lemma makes_randomToken:
  "(\<And>b. length b = 32 \<Longrightarrow> makes A P (f (randomToken_of b))) \<Longrightarrow> (\<And>b. P (EvRand b)) \<Longrightarrow>
     makes A P (bind randomToken f)"
  by (simp add: randomToken_def)

lemma saved_record_id: "arID (saved_record p client req i binding) = i"
  by (simp add: saved_record_def Let_def split: option.split)

lemma touching_Save: "touching (\<lambda>i. \<not> pushed_id i) (SaveAuthorizationRequest p w r req)"
  unfolding SaveAuthorizationRequest_def Let_def
  by (intro makes_branches makes_Ret makes_bind touching_client makes_randomToken)
    (auto intro!: makes_intros simp: saved_record_id randomToken_not_pushed)

lemma touching_redeem [makes_intros]: "touching pushed_id (redeemPushedRequest p iss q)"
proof -
  have take: "touching pushed_id (takePushedRequest p iss i ref)" for i ref
    unfolding takePushedRequest_def
    by (intro makes_intros) (auto simp: pushed_id_def)
  have "touching pushed_id (redeem_checked p iss q r)" for q r
    unfolding redeem_checked_def by (intro makes_intros)
  then show ?thesis
    unfolding redeemPushedRequest_def by (intro makes_intros take)
qed

lemma touching_parseAuthorization: "touching pushed_id (parseAuthorization p r iss)"
  unfolding parseAuthorization_def by (intro makes_intros)

lemma touching_push: "touching pushed_id (pushAuthorization p iss reqo)"
  unfolding pushAuthorization_def
  by (intro makes_intros) (simp add: pushed_record_def pushed_id_def)

section \<open>Completing and redeeming once\<close>

lemma Approve_deletes:
  assumes "performs (Approve p w r (Some req) a) log (Inr w')" and "arID req \<noteq> []"
  shows "EvDeleteRequest (arID req) None \<in> set log"
  using assms(1)
proof (rule Approve_Inr)
  fix req' cur iss scopes cl audience now grantID code ans
  assume "Some req = Some req'"
    and "writes log = (if arID req' = [] then [] else [EvDeleteRequest (arID req') None])
           @ [EvCreateToken (code_record p iss cur a scopes cl audience now code grantID) ans]"
  then have "EvDeleteRequest (arID req) None \<in> set (writes log)" using assms(2) by simp
  then show ?thesis by (simp add: writes_def)
qed

lemma Deny_deletes:
  assumes "performs (Deny p w r (Some req) reason) log (Inr w')" and "arID req \<noteq> []"
  shows "EvDeleteRequest (arID req) None \<in> set log"
  using assms(1)
proof (rule Deny_Inr)
  fix req'
  assume "Some req = Some req'"
    and "writes log = (if arID req' = [] then [] else [EvDeleteRequest (arID req') None])"
  then have "EvDeleteRequest (arID req) None \<in> set (writes log)" using assms(2) by simp
  then show ?thesis by (simp add: writes_def)
qed

text \<open>An attempt to complete a request, with the program that makes it.\<close>

definition completes :: "AuthorizationRequest \<Rightarrow> (goerr + ResponseWriter) prog \<Rightarrow> bool" where
  "completes req q \<longleftrightarrow>
     (\<exists>p w r. (\<exists>a. q = Approve p w r (Some req) a) \<or> (\<exists>reason. q = Deny p w r (Some req) reason))"

lemma completes_intros:
  "completes req (Approve p w r (Some req) a)" "completes req (Deny p w r (Some req) reason)"
  unfolding completes_def by blast+

lemma completes_deletes:
  "completes req q \<Longrightarrow> performs q log (Inr w') \<Longrightarrow> arID req \<noteq> [] \<Longrightarrow>
     EvDeleteRequest (arID req) None \<in> set log"
  unfolding completes_def using Approve_deletes Deny_deletes by blast

text \<open>The storage ID of the pushed request that an authorization request refers to.\<close>

definition redeems_id :: "params \<Rightarrow> string" where
  "redeems_id q = pushedIDPrefix @ drop (length requestURIPrefix) (params_get q ''request_uri'')"

lemma redeem_deletes:
  assumes "performs (redeemPushedRequest p iss q) log (Inr req)"
  shows "EvDeleteRequest (redeems_id q) None \<in> set log"
  using assms
proof (cases rule: redeemPushedRequest_performs)
  case (2 ref)
  then have i: "redeems_id q = pushedIDPrefix @ ref" by (simp add: redeems_id_def)
  from 2(5) obtain l m pushed where "log = l @ m"
      and "performs (takePushedRequest p iss (params_get q ''client_id'') ref) l (Inr pushed)"
    by (elim success_step)
  then show ?thesis by (elim takePushedRequest_Inr) (simp add: i)
qed simp

context storage_contract
begin

text \<open>At most one thread of a run is told that it deleted a request.\<close>

lemma concurrent_delete_once:
  assumes "concurrent I (ps, s) log (qs, s')" and "\<forall>ev \<in> snd ` set log. \<not> creates_request i ev"
    and "EvDeleteRequest i None \<in> set (calls_of j log)"
    and "EvDeleteRequest i None \<in> set (calls_of k log)"
  shows "j = k"
proof (rule ccontr)
  assume "j \<noteq> k"
  have "length (filter (deletes_request i) (map snd log)) \<le> 1"
    using delete_once [OF concurrent_serves [OF assms(1)]] assms(2) by simp
  with two_threads [OF assms(3,4) \<open>j \<noteq> k\<close>, of "deletes_request i"] show False by simp
qed

end

end
