(* ===== verification/Grantor_RequestSample.thy ===== *)
theory Grantor_RequestSample
  imports Grantor_RequestSafety
begin

text \<open>
  Authorization requests on the deployment of Grantor_Sample: one that is parsed, one that was saved,
  one that was pushed, and runs that complete and redeem them. Nothing of it models code of the
  repository.
\<close>

lemma sample_client_checks [simp]: "check_client sample_cfg ''app'' sample_client = None"
proof -
  have "validateRedirectURI ''https://rp.example/cb'' = None" by code_simp
  then show ?thesis
    by (simp add: check_client_None client_ok_def client_validate_None validate_authMethod_def
        client_authMethod_def validate_lifetime_def validate_pkce_def client_grantTypes_def
        client_isPublic_def sample_client_def sample_cfg_def HashClientSecret_def builtin_grant_def
        Let_def)
qed

definition sample_saved :: AuthorizationRequest where
  "sample_saved =
     \<lparr>arID = ''r1'', arIssuer = ''https://op.example'', arClientID = ''app'',
      arRedirectURI = ''https://rp.example/cb'', arRedirectURIInRequest = True,
      arResponseType = ''code'', arResponseMode = ''query'', arState = ''st'',
      arScopes = [''openid'', ''read''], arCodeChallenge = [], arCodeChallengeMethod = [],
      arNonce = ''n'', arPrompt = [''login''], arMaxAge = Some (60 * second), arDisplay = [],
      arUILocales = [], arClaimsLocales = [], arLoginHint = [], arACRValues = [],
      arRequestedSubject = ''alice'', arClaims = None, arAudience = [''https://api.example''],
      arPushed = False, arExtra = [], arBindingHash = [], arParsed = False, arPushedBy = [],
      arRedeemed = False, arCreatedAt = 10 * second, arExpiresAt = 910 * second\<rparr>"

definition sample_pushed :: AuthorizationRequest where
  "sample_pushed = sample_saved\<lparr>arID := ''par:'' @ replicate 43 CHR ''A'', arPushed := True\<rparr>"

definition sample_approval :: Approval where
  "sample_approval =
     \<lparr>apSubject = ''alice'', apScopes = [''openid''], apAuthTime = 11 * second, apACR = [],
      apAMR = [''pwd''], apClaims = [], apAudience = [''https://api.example'']\<rparr>"

lemma sample_saved_ok:
  "checkRequest sample_p sample_iss sample_client sample_saved = None"
  "checkRequest sample_p sample_iss sample_client sample_pushed = None"
  "checkDelivery sample_iss sample_client sample_saved = None"
  "checkDelivery sample_iss sample_client sample_pushed = None"
  by (simp_all add: checkRequest_None checkDelivery_None request_ok_def delivery_ok_def
      parRequired_def sample_saved_def sample_pushed_def sample_defs client_matchRedirectURI_def
      client_allowsGrant_def client_grantTypes_def challenge_ok_def checkPKCEPolicy_def
      client_pkcePolicy_def client_isPublic_def client_authMethod_def HashClientSecret_def
      validScopeToken_def byte_def)

section \<open>Completing the saved request\<close>

lemma sample_saved_sel [simp]:
  "arID sample_saved = ''r1''" "arIssuer sample_saved = ''https://op.example''"
  "arClientID sample_saved = ''app''" "arClaims sample_saved = None"
  "arExpiresAt sample_saved = 910 * second" "arBindingHash sample_saved = []"
  "arScopes sample_saved = [''openid'', ''read'']" "arRequestedSubject sample_saved = ''alice''"
  "arAudience sample_saved = [''https://api.example'']" "arMaxAge sample_saved = Some (60 * second)"
  "arPrompt sample_saved = [''login'']" "arCreatedAt sample_saved = 10 * second"
  by (simp_all add: sample_saved_def)

lemma sample_issuer_for [simp]: "provider_issuerFor sample_p r = Inr sample_iss"
  by (simp add: provider_issuerFor_def)

lemma sample_client_answer [simp]: "client_answer sample_p ''app'' (Inr (Some sample_client)) = Inr sample_client"
  by (simp add: client_answer_def)

lemma sample_iss_url [simp]: "rsURL sample_iss = ''https://op.example''"
  by (simp add: sample_iss_def)

definition load_log :: "event list" where
  "load_log =
     [EvLoadRequest ''r1'' (Inr sample_saved), EvNow (12 * second),
      EvClient ''https://op.example'' ''app'' (Inr (Some sample_client))]"

lemma sample_not_pushed: "\<not> strings_HasPrefix ''r1'' pushedIDPrefix"
  by (simp add: strings_HasPrefix_def pushedIDPrefix_def)

lemma sample_completable:
  "performs (completable sample_p w r (Some sample_saved) approval) load_log
     (Inr (sample_iss, sample_client, sample_saved\<lparr>arClaims := None\<rparr>))"
  by (cases approval)
    (simp_all add: completable_def current_request_def loadPending_def run_log_simps load_log_def
      provider_client_def sample_not_pushed binding_ok_def sameProtocolFields_refl time_Before_def
      second_def sample_saved_ok provider_claimsForClient_def ClaimsRequest_filter_def)

definition deny_log :: "event list" where
  "deny_log = load_log @ [EvDeleteRequest ''r1'' None]"

definition deny_response :: "ResponseWriter \<Rightarrow> Request \<Rightarrow> ResponseWriter" where
  "deny_response w r =
     writeAuthorizationError r sample_iss (targetOf sample_saved)
       (PError CodeAccessDenied [] [] 0 None) w"

lemma deny_run: "performs (Deny sample_p w r (Some sample_saved) None) deny_log (Inr (deny_response w r))"
proof -
  have "validErrorCode ''access_denied''" by code_simp
  then show ?thesis
    unfolding Deny_def deny_log_def Let_def
    by (simp, intro performs_bindEI [OF sample_completable])
      (simp add: complete_saved_def completeRequest_def run_log_simps deny_response_def
        clearBinding_def targetOf_def)
qed

definition approved_code :: Token where
  "approved_code = code_record sample_p sample_iss sample_saved sample_approval [''openid''] None
     [''https://api.example''] (12 * second) (rnd_token 2) (rnd_token 3)"

definition approve_log :: "event list" where
  "approve_log =
     load_log @ [EvNow (12 * second)] @ [EvDeleteRequest ''r1'' None] @ [EvNow (12 * second), EvRand (rnd 2), EvRand (rnd 3),
       EvCreateToken approved_code None]"

definition approve_response :: "ResponseWriter \<Rightarrow> Request \<Rightarrow> ResponseWriter" where
  "approve_response w r =
     writeAuthorizationResponse r sample_iss (targetOf sample_saved) [(''code'', [rnd_token 2])] w"

lemma sample_validateApproval:
  "performs (validateApproval (sample_saved\<lparr>arClaims := None\<rparr>) sample_approval) [EvNow (12 * second)]
     (Inr ([''openid''], None))"
proof -
  have "validateSubject ''alice'' = None" by code_simp
  then show ?thesis
    by (simp add: validateApproval_def sample_approval_def run_log_simps arIsOpenID_def arHasScope_def
        ClaimsRequest_Names_def check_openid_approval_def needsAuthentication_def time_IsZero_def
        time_After_def time_Before_def time_Add_def time_Truncate_def time_Sub_def max_duration_def
        min_duration_def second_def minute_def requestedEssentialACR_def ClaimsRequest_filter_def
        Let_def arHasPrompt_def)
qed

lemma approve_run:
  "performs (Approve sample_p w r (Some sample_saved) sample_approval) approve_log
     (Inr (approve_response w r))"
proof -
  have 1: "approved_audience sample_p sample_client (sample_saved\<lparr>arClaims := None\<rparr>) sample_approval =
      Inr [''https://api.example'']"
    by (simp add: approved_audience_def subsetOf_def sample_approval_def sample_defs)
  have 2: "code_record p iss (q\<lparr>arClaims := None\<rparr>) a sc c au n v g = code_record p iss q a sc c au n v g"
    "clearBinding (sample_saved\<lparr>arClaims := None\<rparr>) sample_iss w = w"
    "targetOf (sample_saved\<lparr>arClaims := None\<rparr>) = targetOf sample_saved"
    for p iss q a sc c au n v g
    by (simp_all add: code_record_def clearBinding_def targetOf_def)
  have "performs (issue_code sample_p w r sample_iss (sample_saved\<lparr>arClaims := None\<rparr>) sample_approval
        [''openid''] None [''https://api.example''])
      [EvNow (12 * second), EvRand (rnd 2), EvRand (rnd 3), EvCreateToken approved_code None]
      (approve_response w r)"
    by (simp add: issue_code_def run_log_simps approved_code_def approve_response_def 2 rnd_token_def)
  from performs_bindI [OF this, of "\<lambda>w. Ret (Inr w)" "[]" "Inr (approve_response w r) :: goerr + ResponseWriter"]
  have 3: "performs (bind (issue_code sample_p w r sample_iss (sample_saved\<lparr>arClaims := None\<rparr>)
        sample_approval [''openid''] None [''https://api.example'']) (\<lambda>w. Ret (Inr w)))
      [EvNow (12 * second), EvRand (rnd 2), EvRand (rnd 3), EvCreateToken approved_code None]
      (Inr (approve_response w r) :: goerr + ResponseWriter)"
    by simp
  have 4: "performs (complete_saved (sample_saved\<lparr>arClaims := None\<rparr>)) [EvDeleteRequest ''r1'' None] (Inr ())"
    by (simp add: complete_saved_def completeRequest_def run_log_simps)
  show ?thesis
    unfolding Approve_def approve_log_def
  proof (rule performs_bindEI [OF sample_completable], unfold prod.case,
      rule performs_bindEI [OF sample_validateApproval], unfold prod.case 1, rule performs_RetI)
    show "performs (bindE (complete_saved (sample_saved\<lparr>arClaims := None\<rparr>)) (\<lambda>_.
        bind (issue_code sample_p w r sample_iss (sample_saved\<lparr>arClaims := None\<rparr>)
          sample_approval [''openid''] None [''https://api.example'']) (\<lambda>w. Ret (Inr w))))
      ([EvDeleteRequest ''r1'' None] @ [EvNow (12 * second), EvRand (rnd 2), EvRand (rnd 3),
        EvCreateToken approved_code None]) (Inr (approve_response w r))"
      by (rule performs_bindEI [OF 4]) (rule 3)
  qed
qed

section \<open>Two attempts to complete it\<close>

definition request_world :: "(string \<Rightarrow> AuthorizationRequest option) \<Rightarrow> world" where
  "request_world m =
     \<lparr>wStore = store_New\<lparr>msClients := [(''https://op.example'', ''app'') \<mapsto> sample_client], msRequests := m\<rparr>,
      wNow = 12 * second, wTicks = [], wRandom = []\<rparr>"

lemma clone_sample_client: "clone_client sample_client = sample_client"
  by (simp add: clone_client_def clone_strings_def sample_client_def byte_def)

lemma clone_sample_requests [simp]:
  "clone_request sample_saved = sample_saved" "clone_request sample_pushed = sample_pushed"
  by (simp_all add: clone_request_def clone_strings_def sample_saved_def sample_pushed_def byte_def
      numeral_eq_Suc)

lemma request_serve:
  "m i = Some q \<Longrightarrow> clone_request q = q' \<Longrightarrow>
     serve mem (EvLoadRequest i (Inr q')) (request_world m) = Some (request_world m)"
  "m i = None \<Longrightarrow>
     serve mem (EvLoadRequest i (Inl ErrNotFound)) (request_world m) = Some (request_world m)"
  "m i = Some q \<Longrightarrow>
     serve mem (EvDeleteRequest i None) (request_world m) = Some (request_world (m(i := None)))"
  "serve mem (EvNow (12 * second)) (request_world m) = Some (request_world m)"
  "serve mem (EvClient ''https://op.example'' ''app'' (Inr (Some sample_client))) (request_world m) =
     Some (request_world m)"
  by (simp_all add: answered_def on_store_def store_AuthorizationRequest_def request_world_def
      store_DeleteAuthorizationRequest_def store_Client_def world_now_def clone_sample_client)

lemma serves_deny:
  "serves mem deny_log (request_world [''r1'' \<mapsto> sample_saved]) = Some (request_world Map.empty)"
  by (simp add: deny_log_def load_log_def request_serve del: serve.simps)

definition gone_log :: "event list" where
  "gone_log = [EvLoadRequest ''r1'' (Inl ErrNotFound)]"

lemma gone_run:
  "performs (Approve sample_p w r (Some sample_saved) a) gone_log (Inl ErrAuthorizationRequestNotFound)"
  by (simp add: Approve_def completable_def current_request_def loadPending_def run_log_simps
      gone_log_def sample_not_pushed)

definition complete_log :: "(nat \<times> event) list" where
  "complete_log = map (Pair 0) deny_log @ map (Pair 1) gone_log"

lemma complete_run:
  "concurrent mem
     ([Deny sample_p w r (Some sample_saved) None, Approve sample_p w r (Some sample_saved) a],
      request_world [''r1'' \<mapsto> sample_saved])
     complete_log
     ([Ret (Inr (deny_response w r)), Ret (Inl ErrAuthorizationRequestNotFound)], request_world Map.empty)"
proof -
  define ps where
    "ps = [Deny sample_p w r (Some sample_saved) None, Approve sample_p w r (Some sample_saved) a]"
  have "concurrent mem (ps, request_world [''r1'' \<mapsto> sample_saved]) ([] @ map (Pair 0) deny_log)
      (ps[0 := Ret (Inr (deny_response w r))], request_world Map.empty)"
    by (rule concurrent_thread [OF concurrent_start])
      (use deny_run in \<open>simp_all add: ps_def performs_def serves_deny\<close>)
  then have "concurrent mem (ps, request_world [''r1'' \<mapsto> sample_saved])
      (([] @ map (Pair 0) deny_log) @ map (Pair 1) gone_log)
      (ps[0 := Ret (Inr (deny_response w r)), 1 := Ret (Inl ErrAuthorizationRequestNotFound)],
       request_world Map.empty)"
    by (rule concurrent_thread)
      (use gone_run in \<open>simp_all add: ps_def performs_def gone_log_def request_serve del: serve.simps\<close>)
  then show ?thesis by (simp add: ps_def complete_log_def)
qed

section \<open>Redeeming the pushed request\<close>

definition ref_value :: string where
  "ref_value = replicate 43 CHR ''A''"

definition redeem_http :: Request where
  "redeem_http = sample_http\<lparr>rMethod := ''GET'', rQuery :=
     [(''client_id'', [''app'']), (''request_uri'', [requestURIPrefix @ ref_value])]\<rparr>"

definition redeem_params :: params where
  "redeem_params = \<lparr>pValues = [(''request_uri'', requestURIPrefix @ ref_value), (''client_id'', ''app'')],
                    pRepeated = []\<rparr>"

lemma redeem_http_params: "newParams (rQuery redeem_http) = redeem_params"
  by (simp add: newParams_def redeem_http_def redeem_params_def map_put_def requestURIPrefix_def)

definition redeem_log :: "event list" where
  "redeem_log =
     [EvLoadRequest (pushedIDPrefix @ ref_value) (Inr sample_pushed), EvNow (12 * second),
      EvDeleteRequest (pushedIDPrefix @ ref_value) None,
      EvClient ''https://op.example'' ''app'' (Inr (Some sample_client)), EvNow (12 * second)]"

lemma ref_value_ok: "length ref_value = pushedRefLength" "isUnreserved ref_value"
  by (simp_all add: ref_value_def pushedRefLength_def isUnreserved_def list_all_iff unreserved_char_def
      in_range_def byte_def)

lemma redeem_params_get [simp]:
  "params_get redeem_params ''request_uri'' = requestURIPrefix @ ref_value"
  "params_get redeem_params ''client_id'' = ''app''"
  "\<not> params_isRepeated redeem_params x"
  by (simp_all add: params_get_def map_get_def redeem_params_def params_isRepeated_def)

lemma sample_pushed_sel:
  "arID sample_pushed = pushedIDPrefix @ ref_value" "arPushed sample_pushed"
  "arIssuer sample_pushed = ''https://op.example''" "arClientID sample_pushed = ''app''"
  "arExpiresAt sample_pushed = 910 * second"
  by (simp_all add: sample_pushed_def ref_value_def pushedIDPrefix_def)

lemma redeem_run:
  "performs (parseAuthorization sample_p redeem_http sample_iss) redeem_log
     (Inr (redeemed_record sample_p sample_pushed (12 * second)))"
proof -
  have "strings_CutPrefix (requestURIPrefix @ ref_value) requestURIPrefix = Some ref_value"
    by (simp add: CutPrefix_Some)
  moreover have "rMethod redeem_http = ''GET''" "cfPAR sample_cfg = PARAllowed"
    by (simp_all add: redeem_http_def sample_cfg_def)
  ultimately show ?thesis
    unfolding redeem_log_def
    by (simp add: parseAuthorization_def redeem_http_params redeemPushedRequest_def ref_value_ok
        takePushedRequest_def run_log_simps sample_pushed_sel time_Before_def second_def
        provider_client_def redeem_checked_def sample_saved_ok Let_def)
qed

definition redeem_gone_log :: "event list" where
  "redeem_gone_log = [EvLoadRequest (pushedIDPrefix @ ref_value) (Inl ErrNotFound)]"

lemma redeem_gone_run:
  "performs (parseAuthorization sample_p redeem_http sample_iss) redeem_gone_log
     (Inl (invalidURI sample_iss))"
proof -
  have "strings_CutPrefix (requestURIPrefix @ ref_value) requestURIPrefix = Some ref_value"
    by (simp add: CutPrefix_Some)
  moreover have "rMethod redeem_http = ''GET''" "cfPAR sample_cfg = PARAllowed"
    by (simp_all add: redeem_http_def sample_cfg_def)
  ultimately show ?thesis
    unfolding redeem_gone_log_def
    by (simp add: parseAuthorization_def redeem_http_params redeemPushedRequest_def ref_value_ok
        takePushedRequest_def run_log_simps Let_def)
qed

lemma redeem_two_run:
  "concurrent mem
     ([parseAuthorization sample_p redeem_http sample_iss,
       parseAuthorization sample_p redeem_http sample_iss],
      request_world [pushedIDPrefix @ ref_value \<mapsto> sample_pushed])
     (map (Pair 0) redeem_log @ map (Pair 1) redeem_gone_log)
     ([Ret (Inr (redeemed_record sample_p sample_pushed (12 * second))),
       Ret (Inl (invalidURI sample_iss))], request_world Map.empty)"
proof -
  define ps where "ps = [parseAuthorization sample_p redeem_http sample_iss,
       parseAuthorization sample_p redeem_http sample_iss]"
  define w where "w = request_world [pushedIDPrefix @ ref_value \<mapsto> sample_pushed]"
  have "concurrent mem (ps, w) ([] @ map (Pair 0) redeem_log)
      (ps[0 := Ret (Inr (redeemed_record sample_p sample_pushed (12 * second)))], request_world Map.empty)"
    by (rule concurrent_thread [OF concurrent_start])
      (use redeem_run in \<open>simp_all add: ps_def w_def performs_def redeem_log_def request_serve
         del: serve.simps\<close>)
  then have "concurrent mem (ps, w)
      (([] @ map (Pair 0) redeem_log) @ map (Pair 1) redeem_gone_log)
      (ps[0 := Ret (Inr (redeemed_record sample_p sample_pushed (12 * second))),
          1 := Ret (Inl (invalidURI sample_iss))], request_world Map.empty)"
    by (rule concurrent_thread)
      (use redeem_gone_run in \<open>simp_all add: ps_def performs_def redeem_gone_log_def request_serve
         del: serve.simps\<close>)
  then show ?thesis by (simp add: ps_def w_def)
qed

lemma parse_redeems:
  "parseAuthorization sample_p redeem_http iss = redeemPushedRequest sample_p iss redeem_params"
proof -
  have "rMethod redeem_http = ''GET''" "cfPAR sample_cfg = PARAllowed"
    by (simp_all add: redeem_http_def sample_cfg_def)
  then show ?thesis by (simp add: parseAuthorization_def redeem_http_params bindE_def)
qed

section \<open>Parsing a request\<close>

definition parse_http :: "string \<Rightarrow> Request" where
  "parse_http maxAge = sample_http\<lparr>rMethod := ''GET'', rQuery :=
     [(''client_id'', [''app'']), (''redirect_uri'', [''https://rp.example/cb'']),
      (''response_type'', [''code'']), (''scope'', [''openid read extra'']), (''state'', [''st'']),
      (''max_age'', [maxAge])]\<rparr>"

definition parse_params :: "string \<Rightarrow> params" where
  "parse_params maxAge =
     \<lparr>pValues = [(''max_age'', maxAge), (''state'', ''st''), (''scope'', ''openid read extra''),
        (''response_type'', ''code''), (''redirect_uri'', ''https://rp.example/cb''),
        (''client_id'', ''app'')], pRepeated = []\<rparr>"

lemma parse_http_params: "v \<noteq> [] \<Longrightarrow> newParams (rQuery (parse_http v)) = parse_params v"
  by (simp add: newParams_def parse_http_def parse_params_def map_put_def)

lemma parse_params_get:
  "params_get (parse_params v) ''client_id'' = ''app''"
  "params_get (parse_params v) ''redirect_uri'' = ''https://rp.example/cb''"
  "params_get (parse_params v) ''response_type'' = ''code''"
  "params_get (parse_params v) ''scope'' = ''openid read extra''"
  "params_get (parse_params v) ''state'' = ''st''"
  "params_get (parse_params v) ''max_age'' = v"
  "params_get (parse_params v) ''request'' = []" "params_get (parse_params v) ''request_uri'' = []"
  "params_get (parse_params v) ''response_mode'' = []" "params_get (parse_params v) ''nonce'' = []"
  "params_get (parse_params v) ''code_challenge'' = []"
  "params_get (parse_params v) ''code_challenge_method'' = []"
  "params_get (parse_params v) ''prompt'' = []" "params_get (parse_params v) ''claims'' = []"
  "params_get (parse_params v) ''id_token_hint'' = []"
  "params_has (parse_params v) ''request'' = False"
  "params_has (parse_params v) ''request_uri'' = False"
  "\<not> params_isRepeated (parse_params v) x" "pRepeated (parse_params v) = []"
  by (simp_all add: params_get_def params_has_def map_get_def map_has_def parse_params_def
      params_isRepeated_def)

definition parse_target :: authorizationTarget where
  "parse_target = \<lparr>atRedirectURI = ''https://rp.example/cb'', atMode = ''query'', atState = ''st''\<rparr>"

definition parse_log :: "event list" where
  "parse_log = [EvClient ''https://op.example'' ''app'' (Inr (Some sample_client)), EvNow (12 * second)]"

lemma parse_target_run:
  "performs (provider_authorizationTarget sample_p sample_iss (parse_params v))
     [EvClient ''https://op.example'' ''app'' (Inr (Some sample_client))]
     (Inr (sample_client, parse_target))"
  by (simp add: provider_authorizationTarget_def parse_params_get provider_client_def run_log_simps
      response_hints_def target_uri_def target_mode_def parse_target_def client_matchRedirectURI_def
      sample_client_def [THEN arg_cong [where f = cRedirectURIs]] Let_def)

lemma parse_check:
  assumes "length v < 100"
  shows "check_params sample_p sample_client (parse_params v) parse_target False = None"
proof -
  have long: "\<not> list_ex (\<lambda>(name, v). maxParamLength < length v \<and> name \<notin> set clientCredentialParams)
      (pValues (parse_params v))"
    using assms by (simp add: parse_params_def maxParamLength_def)
  have par: "\<not> parRequired sample_p sample_client"
    by (simp add: parRequired_def sample_cfg_def sample_client_def)
  have grant: "client_allowsGrant sample_client GrantTypeAuthorizationCode"
    by (simp add: client_allowsGrant_def client_grantTypes_def sample_client_def)
  show ?thesis
    by (simp add: check_params_def long par grant parse_params_get)
qed

lemma parse_sample:
  "splitSpaces ''openid read extra'' = [''openid'', ''read'', ''extra'']" "splitSpaces [] = []"
  "scope_loop sample_client [] [''openid'', ''read'', ''extra''] = Inr [''openid'', ''read'']"
  "checkPKCEPolicy sample_client q = None"
proof -
  show "splitSpaces ''openid read extra'' = [''openid'', ''read'', ''extra'']" "splitSpaces [] = []"
    by code_simp+
  show "scope_loop sample_client [] [''openid'', ''read'', ''extra''] = Inr [''openid'', ''read'']"
    by (simp add: sample_client_def validScopeToken_def byte_def)
  show "checkPKCEPolicy sample_client q = None"
    by (simp add: checkPKCEPolicy_None client_pkcePolicy_def client_isPublic_def client_authMethod_def
        sample_client_def)
qed

definition parsed_request :: "time \<Rightarrow> AuthorizationRequest" where
  "parsed_request now =
     new_request sample_p sample_iss sample_client (parse_params ''60'') parse_target False now
       \<lparr>arScopes := [''openid'', ''read''], arMaxAge := Some (60 * second)\<rparr>"

lemma parse_rest_run:
  "parse_rest sample_p sample_iss sample_client (parse_params ''60'')
     (new_request sample_p sample_iss sample_client (parse_params ''60'') parse_target False now) =
   Inr (parsed_request now)"
proof -
  have 3: "parse_max_age ''60'' = Inr (Some (60 * second))"
    by (simp add: parse_max_age_def) code_simp
  show ?thesis
    by (simp add: parse_rest_def parse_params_get parse_sample 3 parsePKCE_def parse_prompt_def
        parse_claims_def parse_hint_def parse_subject_def requested_sub_def parsed_request_def Let_def
        new_request_def del: scope_loop.simps)
qed

lemma parse_run:
  "performs (parseAuthorization sample_p (parse_http ''60'') sample_iss) parse_log
     (Inr (parsed_request (12 * second)))"
proof -
  have "rMethod (parse_http ''60'') = ''GET''" by (simp add: parse_http_def)
  moreover have "performs (bind (provider_authorizationTarget sample_p sample_iss (parse_params ''60''))
      (\<lambda>x. case x of
         Inl perr \<Rightarrow> Ret (Inl (EAuth perr sample_iss None))
       | Inr (client, target) \<Rightarrow>
           bind (parseAuthorizationRequest sample_p sample_iss client (parse_params ''60'') target False)
             (\<lambda>y. Ret (case y of Inl perr \<Rightarrow> Inl (EAuth perr sample_iss (Some target)) | Inr req \<Rightarrow> Inr req))))
      ([EvClient ''https://op.example'' ''app'' (Inr (Some sample_client))] @ [EvNow (12 * second)])
      (Inr (parsed_request (12 * second)))"
    by (rule performs_bindI [OF parse_target_run])
      (simp add: parseAuthorizationRequest_def parse_check parse_rest_run run_log_simps)
  ultimately show ?thesis
    by (simp add: parseAuthorization_def parse_http_params parse_params_get requestURIPrefix_def
        strings_HasPrefix_def parse_log_def performs_RetE)
qed

text \<open>The same request with a malformed \<^verbatim>\<open>max_age\<close>.\<close>

definition bad_error :: goerr where
  "bad_error = EAuth (errInvalidRequest ''max_age must be a non-negative integer'') sample_iss
     (Some parse_target)"

lemma parse_bad_run:
  "performs (parseAuthorization sample_p (parse_http ''-1'') sample_iss) parse_log (Inl bad_error)"
proof -
  have 3: "parse_max_age ''-1'' = Inl (errInvalidRequest ''max_age must be a non-negative integer'')"
    by (simp add: parse_max_age_def) code_simp
  have bad: "parse_rest sample_p sample_iss sample_client (parse_params ''-1'') q =
      Inl (errInvalidRequest ''max_age must be a non-negative integer'')" for q
    by (simp add: parse_rest_def parse_params_get parse_sample 3 parsePKCE_def parse_prompt_def Let_def
        del: scope_loop.simps)
  have "rMethod (parse_http ''-1'') = ''GET''" by (simp add: parse_http_def)
  moreover have "performs (bind (provider_authorizationTarget sample_p sample_iss (parse_params ''-1''))
      (\<lambda>x. case x of
         Inl perr \<Rightarrow> Ret (Inl (EAuth perr sample_iss None))
       | Inr (client, target) \<Rightarrow>
           bind (parseAuthorizationRequest sample_p sample_iss client (parse_params ''-1'') target False)
             (\<lambda>y. Ret (case y of Inl perr \<Rightarrow> Inl (EAuth perr sample_iss (Some target)) | Inr req \<Rightarrow> Inr req))))
      ([EvClient ''https://op.example'' ''app'' (Inr (Some sample_client))] @ [EvNow (12 * second)])
      (Inl bad_error)"
    by (rule performs_bindI [OF parse_target_run])
      (simp add: parseAuthorizationRequest_def parse_check bad run_log_simps bad_error_def)
  ultimately show ?thesis
    by (simp add: parseAuthorization_def parse_http_params parse_params_get requestURIPrefix_def
        strings_HasPrefix_def parse_log_def performs_RetE)
qed

end
