(* ===== verification/Grantor_RequestProps.thy ===== *)
theory Grantor_RequestProps
  imports Grantor_RequestSample
begin

text \<open>
  The properties of the authorization endpoint, of approvals and denials, and of pushed requests.
\<close>

section \<open>Parsing\<close>

text \<open>C9. An authorization request that ParseAuthorizationRequest returns, parsed from its parameters
  or redeemed from a request_uri, belongs to a valid client of the client store and passes the checks
  that every later step repeats: a registered redirect URI, a response mode that works for it,
  registered scopes and audience, PKCE where the client must use it, and a pushed request where the
  client or the provider requires one. It is unsaved, and expires as configured.\<close>

theorem parsed_request_valid:
  assumes "performs (parseAuthorization p r iss) log (Inr req)"
  shows "parsed_ok p iss req log"
  using parseAuthorization_outcome [OF assms] by simp

theorem parsed_request_valid_witness:
  "parsed_ok sample_p sample_iss (parsed_request (12 * second)) parse_log"
  by (rule parsed_request_valid [OF parse_run])

text \<open>C10. An error of the authorization endpoint reaches a client only at a redirect URI it has
  registered: WriteAuthorizationError shows the error page, or answers to a target whose redirect URI
  and response mode were checked against a valid client of the client store.\<close>

theorem errors_stay_registered:
  assumes "performs (parseAuthorization p r iss) log (Inl err)"
  shows "\<exists>perr. WriteAuthorizationError p r err w = provider_errorPage p w r perr \<or>
     (\<exists>client target. client_ok (pvCfg p) client \<and>
        EvClient (rsURL iss) (cID client) (Inr (Some client)) \<in> set log \<and>
        target_ok client target \<and>
        WriteAuthorizationError p r err w = writeAuthorizationError r iss target perr w)"
proof -
  from parseAuthorization_outcome [OF assms] obtain perr where
    "err = EAuth perr iss None \<or>
      (\<exists>client target. err = EAuth perr iss (Some target) \<and> client_ok (pvCfg p) client \<and>
         EvClient (rsURL iss) (cID client) (Inr (Some client)) \<in> set log \<and> target_ok client target)"
    by (auto simp: redirect_ok_def)
  then show ?thesis
  proof (elim disjE exE conjE)
    fix client target
    assume "err = EAuth perr iss (Some target)" and rest: "client_ok (pvCfg p) client"
      "EvClient (rsURL iss) (cID client) (Inr (Some client)) \<in> set log" "target_ok client target"
    then have "WriteAuthorizationError p r err w = writeAuthorizationError r iss target perr w"
      by (simp add: WriteAuthorizationError_def)
    with rest show ?thesis by blast
  next
    assume "err = EAuth perr iss None"
    then have "WriteAuthorizationError p r err w = provider_errorPage p w r perr"
      by (simp add: WriteAuthorizationError_def asProtocolError_def)
    then show ?thesis by blast
  qed
qed

theorem errors_stay_registered_witness:
  "\<exists>perr. WriteAuthorizationError sample_p (parse_http ''-1'') bad_error fresh_writer =
       provider_errorPage sample_p fresh_writer (parse_http ''-1'') perr \<or>
     (\<exists>client target. client_ok sample_cfg client \<and>
        EvClient (rsURL sample_iss) (cID client) (Inr (Some client)) \<in> set parse_log \<and>
        target_ok client target \<and>
        WriteAuthorizationError sample_p (parse_http ''-1'') bad_error fresh_writer =
          writeAuthorizationError (parse_http ''-1'') sample_iss target perr fresh_writer)"
  using errors_stay_registered [OF parse_bad_run, of fresh_writer] by simp

text \<open>C11. What a request may make the provider store or compute is bounded: max_age is at most ten
  years and fits time.Duration without overflow, at most 32 unprocessed parameters of at most 1024
  bytes are kept, and none of them is a credential.\<close>

theorem parsed_bounds:
  assumes "performs (parseAuthorizationRequest p iss client q target pushed) log (Inr req)"
    and "target_ok client target"
  shows "(\<forall>d. arMaxAge req = Some d \<longrightarrow> 0 \<le> d \<and> d \<le> 10 * 365 * 24 * hour \<and> d < 2 ^ 63) \<and>
     length (arExtra req) \<le> 32 \<and>
     (\<forall>(name, v) \<in> set (arExtra req). length v \<le> 1024 \<and> name \<notin> set excludedExtraParams \<and>
        name \<notin> set authorizationParams \<and> (name, v) \<in> set (pValues q))"
  using assms
proof (rule parseAuthorizationRequest_Inr)
  assume m: "parse_max_age (params_get q ''max_age'') = Inr (arMaxAge req)"
    and e: "arExtra req = extra_loop [] (pValues q)"
  have "0 \<le> d \<and> d \<le> 10 * 365 * 24 * hour \<and> d < 2 ^ 63" if "arMaxAge req = Some d" for d
    using parse_max_age_Inr [OF m [unfolded that]] by (simp add: maxMaxAge_def second_def hour_def)
  moreover have "length (arExtra req) \<le> 32"
    using extra_loop_bounds [of "[]" "pValues q"] by (simp add: e maxExtraParams_def)
  moreover have "length v \<le> 1024 \<and> name \<notin> set excludedExtraParams \<and>
      name \<notin> set authorizationParams \<and> (name, v) \<in> set (pValues q)"
    if "(name, v) \<in> set (arExtra req)" for name v
    using extra_loop_members [OF that [unfolded e]] by (simp add: maxExtraLength_def)
  ultimately show ?thesis by blast
qed

theorem parsed_bounds_witness: "length (arExtra (parsed_request (12 * second))) \<le> 32"
proof -
  have "performs (parseAuthorizationRequest sample_p sample_iss sample_client (parse_params ''60'')
      parse_target False) [EvNow (12 * second)] (Inr (parsed_request (12 * second)))"
    by (simp add: parseAuthorizationRequest_def parse_check parse_rest_run run_log_simps)
  moreover have "target_ok sample_client parse_target"
    by (simp add: target_ok_def parse_target_def client_matchRedirectURI_def sample_client_def)
  ultimately show ?thesis using parsed_bounds by blast
qed

section \<open>Completing a request\<close>

text \<open>C12. Approve issues an authorization code for what was requested and approved. The request it
  completes is the stored one of a saved request -- bound to this user agent, unexpired, and equal to
  the one the application holds in every protocol field -- or the unsaved one, checked again against
  the registration of the client. The only code it stores carries the approved scopes and audience,
  which were requested, and the client, redirect URI, nonce and code challenge of the request; a saved
  request is deleted first, and the response goes to its redirect URI.\<close>

theorem approve_success:
  assumes "performs (Approve p w r reqo a) log (Inr w')"
  shows "\<exists>req cur iss client t code ans.
     reqo = Some req \<and> current_from w r iss req cur log \<and> request_ok p iss client cur \<and>
     client_ok (pvCfg p) client \<and>
     EvClient (rsURL iss) (arClientID cur) (Inr (Some client)) \<in> set log \<and>
     writes log = (if arID req = [] then [] else [EvDeleteRequest (arID req) None])
       @ [EvCreateToken t ans] \<and>
     tKind t = TokenKindAuthorizationCode \<and> tHash t = hashToken code \<and> tConsumedAt t = 0 \<and>
     tIssuer t = rsURL iss \<and> tClientID t = cID client \<and>
     tSubject t = apSubject a \<and> validateSubject (apSubject a) = None \<and>
     set (tScopes t) = set (apScopes a) \<and> set (tScopes t) \<subseteq> set (arScopes cur) \<and>
     set (tAudience t) = set (apAudience a) \<and> set (tAudience t) \<subseteq> set (arAudience cur) \<and>
     tRedirectURI t = arRedirectURI cur \<and> tNonce t = arNonce cur \<and>
     tCodeChallenge t = arCodeChallenge cur \<and> (arIsOpenID cur \<longrightarrow> ''openid'' \<in> set (tScopes t)) \<and>
     w' = (case ans of
        Some err \<Rightarrow> writeAuthorizationError r iss (targetOf cur) (errServer err) w
      | None \<Rightarrow> writeAuthorizationResponse r iss (targetOf cur) [(''code'', [code])]
                  (clearBinding cur iss w))"
  using assms
proof (rule Approve_Inr)
  fix req cur :: AuthorizationRequest and iss client cl scopes audience now grantID code ans
  define q where "q = cur\<lparr>arClaims := provider_claimsForClient (pvCfg p) client (arClaims cur)\<rparr>"
  define t where "t = code_record p iss cur a scopes cl audience now code grantID"
  assume f: "reqo = Some req" "current_from w r iss req cur log" "client_ok (pvCfg p) client"
      "EvClient (rsURL iss) (arClientID cur) (Inr (Some client)) \<in> set log"
      "request_ok p iss client cur"
    and ap: "approval_ok (cur\<lparr>arClaims := provider_claimsForClient (pvCfg p) client (arClaims cur)\<rparr>)
        a scopes cl log"
    and aud: "approved_audience p client cur a = Inr audience"
    and wr: "writes log = (if arID req = [] then [] else [EvDeleteRequest (arID req) None])
           @ [EvCreateToken (code_record p iss cur a scopes cl audience now code grantID) ans]"
    and w': "w' = (case ans of
        Some err \<Rightarrow> writeAuthorizationError r iss (targetOf cur) (errServer err) w
      | None \<Rightarrow> writeAuthorizationResponse r iss (targetOf cur) [(''code'', [code])]
                  (clearBinding cur iss w))"
  have cid: "cID client = arClientID cur" using f(5) by (simp add: request_ok_def delivery_ok_def)
  have t: "tKind t = TokenKindAuthorizationCode \<and> tHash t = hashToken code \<and> tConsumedAt t = 0 \<and>
      tIssuer t = rsURL iss \<and> tClientID t = cID client \<and> tSubject t = apSubject a \<and>
      tScopes t = scopes \<and> tAudience t = audience \<and> tRedirectURI t = arRedirectURI cur \<and>
      tNonce t = arNonce cur \<and> tCodeChallenge t = arCodeChallenge cur"
    by (simp add: t_def code_record_def cid)
  have "validateSubject (apSubject a) = None \<and> set scopes = set (apScopes a) \<and>
      set scopes \<subseteq> set (arScopes cur) \<and> (arIsOpenID cur \<longrightarrow> ''openid'' \<in> set scopes)"
    using ap by (auto simp: approval_ok_def arIsOpenID_def arHasScope_def)
  then have "validateSubject (apSubject a) = None \<and> set (tScopes t) = set (apScopes a) \<and>
      set (tScopes t) \<subseteq> set (arScopes cur) \<and> (arIsOpenID cur \<longrightarrow> ''openid'' \<in> set (tScopes t)) \<and>
      set (tAudience t) = set (apAudience a) \<and> set (tAudience t) \<subseteq> set (arAudience cur)"
    using t approved_audience_Inr [OF aud] by (elim conjE) (simp only: simp_thms)
  then show ?thesis
    using f t w' wr [folded t_def]
    by - (rule exI [of _ req], rule exI [of _ cur], rule exI [of _ iss], rule exI [of _ client],
        rule exI [of _ t], rule exI [of _ code], rule exI [of _ ans], elim conjE,
        intro conjI; simp only: simp_thms)
qed

theorem approve_success_witness:
  "\<exists>iss cur t. current_from fresh_writer sample_http iss sample_saved cur approve_log \<and>
     writes approve_log = [EvDeleteRequest ''r1'' None, EvCreateToken t None] \<and>
     set (tScopes t) = {''openid''}"
proof -
  have "writes approve_log = [EvDeleteRequest ''r1'' None, EvCreateToken approved_code None]"
    by (simp add: approve_log_def load_log_def)
  with approve_success [OF approve_run, of fresh_writer sample_http] show ?thesis
    by (auto simp: sample_approval_def)
qed

text \<open>C13. Authentication is as recent as the request demands. When Approve completes an OpenID
  Connect request, the end-user is the one the client asked for, if it named one; the authentication
  is not in the future by more than a minute; it happened within max_age; and when the request has
  prompt=login or max_age=0, it happened after the request was created, up to the second an ID token
  can express.\<close>

theorem approve_authentication:
  assumes "performs (Approve p w r reqo a) log (Inr w')"
  shows "\<exists>req cur iss. reqo = Some req \<and> current_from w r iss req cur log \<and>
     (arIsOpenID cur \<longrightarrow>
       (\<exists>now. EvNow now \<in> set log \<and> apAuthTime a \<noteq> 0 \<and> apAuthTime a \<le> now + minute \<and>
         (arRequestedSubject cur \<noteq> [] \<longrightarrow> apSubject a = arRequestedSubject cur) \<and>
         (\<forall>m. arMaxAge cur = Some m \<longrightarrow> 0 < m \<longrightarrow> m < max_duration \<longrightarrow> now \<le> apAuthTime a + m) \<and>
         (arHasPrompt cur ''login'' \<or> arMaxAge cur = Some 0 \<longrightarrow>
            arCreatedAt cur < apAuthTime a + second)))"
  using assms
proof (rule Approve_Inr)
  fix req cur :: AuthorizationRequest and iss client cl scopes
  define q where "q = cur\<lparr>arClaims := provider_claimsForClient (pvCfg p) client (arClaims cur)\<rparr>"
  assume f: "reqo = Some req" "current_from w r iss req cur log"
    and ap: "approval_ok (cur\<lparr>arClaims := provider_claimsForClient (pvCfg p) client (arClaims cur)\<rparr>)
        a scopes cl log"
  have sel: "arIsOpenID q = arIsOpenID cur" "arRequestedSubject q = arRequestedSubject cur"
      "arMaxAge q = arMaxAge cur" "arHasPrompt q x = arHasPrompt cur x" "arCreatedAt q = arCreatedAt cur"
    for x by (simp_all add: q_def arIsOpenID_def arHasScope_def arHasPrompt_def)
  have "\<exists>now. EvNow now \<in> set log \<and> apAuthTime a \<noteq> 0 \<and> apAuthTime a \<le> now + minute \<and>
         (arRequestedSubject cur \<noteq> [] \<longrightarrow> apSubject a = arRequestedSubject cur) \<and>
         (\<forall>m. arMaxAge cur = Some m \<longrightarrow> 0 < m \<longrightarrow> m < max_duration \<longrightarrow> now \<le> apAuthTime a + m) \<and>
         (arHasPrompt cur ''login'' \<or> arMaxAge cur = Some 0 \<longrightarrow>
            arCreatedAt cur < apAuthTime a + second)" if "arIsOpenID cur"
  proof -
    from ap [folded q_def] that [folded sel(1)] obtain now where "EvNow now \<in> set log"
        and o: "openid_approval_ok q a now" by (auto simp: approval_ok_def)
    moreover from o have "\<not> needsAuthentication q (apAuthTime a) now"
      by (simp add: openid_approval_ok_def)
    note needsAuthentication_False [OF this, unfolded sel]
    ultimately show ?thesis
      by (intro exI [of _ now]) (auto simp: openid_approval_ok_def sel)
  qed
  with f show ?thesis by blast
qed

theorem approve_authentication_witness:
  "\<exists>cur iss. current_from fresh_writer sample_http iss sample_saved cur approve_log"
  using approve_authentication [OF approve_run, of fresh_writer sample_http] by blast

text \<open>C14. Deny sends its reason to the redirect URI of the request it completes, registered for a
  valid client of the client store, and does nothing else but delete a saved request first. The
  reason is the one the application gave, unchanged, and access_denied with no description when it
  gave none; its code is a non-empty string of the characters RFC 6749 allows: printable ASCII
  without the double quote and the backslash.\<close>

theorem deny_success:
  assumes "performs (Deny p w r reqo reasono) log (Inr w')"
    and "reason = (case reasono of Some e \<Rightarrow> e | None \<Rightarrow> PError ''access_denied'' [] [] 0 None)"
  shows "eCode reason \<noteq> [] \<and>
     (\<forall>c \<in> set (eCode reason). 0x20 \<le> byte c \<and> byte c \<le> 0x7e \<and> c \<noteq> CHR 0x22 \<and> c \<noteq> CHR 0x5c) \<and>
     (\<exists>req cur iss client.
        reqo = Some req \<and> current_from w r iss req cur log \<and> delivery_ok iss client cur \<and>
        client_ok (pvCfg p) client \<and>
        EvClient (rsURL iss) (arClientID cur) (Inr (Some client)) \<in> set log \<and>
        writes log = (if arID req = [] then [] else [EvDeleteRequest (arID req) None]) \<and>
        w' = writeAuthorizationError r iss (targetOf cur) reason (clearBinding cur iss w))"
  using assms(1)
proof (rule Deny_Inr)
  fix req cur :: AuthorizationRequest and iss client reason'
  assume "reason' = (case reasono of None \<Rightarrow> PError CodeAccessDenied [] [] 0 None | Some e \<Rightarrow> e)"
  then have r: "reason' = reason" using assms(2) by (simp split: option.splits)
  assume "validErrorCode (eCode reason')"
  then have "eCode reason \<noteq> [] \<and>
      (\<forall>c \<in> set (eCode reason). 0x20 \<le> byte c \<and> byte c \<le> 0x7e \<and> c \<noteq> CHR 0x22 \<and> c \<noteq> CHR 0x5c)"
    by (simp add: r validErrorCode_def errorCodeByte_def list_all_iff not_less)
  moreover assume "reqo = Some req" "current_from w r iss req cur log" "client_ok (pvCfg p) client"
    "EvClient (rsURL iss) (arClientID cur) (Inr (Some client)) \<in> set log"
    "delivery_ok iss client cur"
    "writes log = (if arID req = [] then [] else [EvDeleteRequest (arID req) None])"
    "w' = writeAuthorizationError r iss (targetOf cur) reason' (clearBinding cur iss w)"
  ultimately show ?thesis unfolding r by blast
qed

theorem deny_success_witness:
  "\<exists>cur iss client. current_from fresh_writer sample_http iss sample_saved cur deny_log \<and>
     delivery_ok iss client cur \<and>
     deny_response fresh_writer sample_http =
       writeAuthorizationError sample_http iss (targetOf cur)
         (PError ''access_denied'' [] [] 0 None) (clearBinding cur iss fresh_writer)"
  using deny_success [OF deny_run refl, of fresh_writer sample_http, THEN conjunct2, THEN conjunct2]
  unfolding option.case option.inject by blast

section \<open>Once, however requests interleave\<close>

text \<open>C15. A saved authorization request is completed at most once. In any run of interleaved calls
  against a storage that keeps its contract, if one thread completed a saved request with Approve or
  Deny, any other thread that tries to complete it fails. IDs of new requests are taken not to collide
  with it.\<close>

theorem completed_once:
  assumes "storage_contract I reqs toks claimed clock sr st"
    and "concurrent I (ps, s) log (qs, s')"
    and "i < length ps" and "j < length ps" and "i \<noteq> j"
    and "completes req (ps ! i)" and "completes req' (ps ! j)"
    and "arID req = arID req'" and "arID req \<noteq> []"
    and "qs ! i = Ret (Inr w)" and "qs ! j = Ret x"
    and "\<forall>ev \<in> snd ` set log. \<not> creates_request (arID req) ev"
  shows "\<exists>err. x = Inl err"
proof (cases x)
  case (Inr w')
  have "EvDeleteRequest (arID req) None \<in> set (calls_of i log)"
    using completes_deletes [OF assms(6) concurrent_performs [OF assms(2,3,10)] assms(9)] .
  moreover have "EvDeleteRequest (arID req) None \<in> set (calls_of j log)"
    using completes_deletes [OF assms(7) concurrent_performs [OF assms(2,4) assms(11) [unfolded Inr]]]
      assms(8,9) by simp
  ultimately have "i = j"
    using storage_contract.concurrent_delete_once [OF assms(1,2,12)] by blast
  with assms(5) show ?thesis by simp
qed simp

theorem completed_once_witness:
  "\<exists>err. (Inl ErrAuthorizationRequestNotFound :: goerr + ResponseWriter) = Inl err"
proof (rule completed_once [where i = 0 and j = 1 and req = sample_saved and req' = sample_saved,
      OF memory.storage_contract_axioms complete_run [of fresh_writer sample_http sample_approval]])
  show "completes sample_saved
      ([Deny sample_p fresh_writer sample_http (Some sample_saved) None,
        Approve sample_p fresh_writer sample_http (Some sample_saved) sample_approval] ! 0)"
    "completes sample_saved
      ([Deny sample_p fresh_writer sample_http (Some sample_saved) None,
        Approve sample_p fresh_writer sample_http (Some sample_saved) sample_approval] ! 1)"
    by (simp_all add: completes_intros)
qed (simp_all add: complete_log_def deny_log_def load_log_def gone_log_def)

text \<open>C16. A request_uri is redeemed at most once. In any run of interleaved calls against a storage
  that keeps its contract, if two threads parse authorization requests that refer to the same pushed
  request, at most one of them gets it.\<close>

theorem redeemed_once:
  assumes "storage_contract I reqs toks claimed clock sr st"
    and "concurrent I (ps, s) log (qs, s')"
    and "i < length ps" and "j < length ps" and "i \<noteq> j"
    and "ps ! i = redeemPushedRequest p iss q" and "ps ! j = redeemPushedRequest p' iss' q'"
    and "params_get q ''request_uri'' = params_get q' ''request_uri''"
    and "qs ! i = Ret (Inr req)" and "qs ! j = Ret x"
    and "\<forall>ev \<in> snd ` set log. \<not> creates_request (redeems_id q) ev"
  shows "\<exists>err. x = Inl err"
proof (cases x)
  case (Inr req')
  have "EvDeleteRequest (redeems_id q) None \<in> set (calls_of i log)"
    using redeem_deletes concurrent_performs [OF assms(2,3,9)] assms(6) by simp
  moreover have "EvDeleteRequest (redeems_id q) None \<in> set (calls_of j log)"
    using redeem_deletes [of p' iss' q'] concurrent_performs [OF assms(2,4) assms(10) [unfolded Inr]]
      assms(7,8) by (simp add: redeems_id_def)
  ultimately have "i = j"
    using storage_contract.concurrent_delete_once [OF assms(1,2,11)] by blast
  with assms(5) show ?thesis by simp
qed simp

theorem redeemed_once_witness:
  "\<exists>err. (Inl (invalidURI sample_iss) :: goerr + AuthorizationRequest) = Inl err"
  by (rule redeemed_once [where i = 0 and j = 1 and q = redeem_params and q' = redeem_params,
        OF memory.storage_contract_axioms redeem_two_run])
    (simp_all add: parse_redeems redeem_log_def redeem_gone_log_def)

text \<open>C17. Pushed requests and saved requests are kept apart, though the storage holds both: approving,
  denying and saving a request touch no stored request whose ID has the prefix of pushed requests, and
  pushing and redeeming touch no other, whatever IDs and URIs the caller presents.\<close>

theorem pushed_and_saved_apart:
  "makes (\<lambda>_. True) (touches_only (\<lambda>i. \<not> pushed_id i)) (Approve p w r reqo a) \<and>
   makes (\<lambda>_. True) (touches_only (\<lambda>i. \<not> pushed_id i)) (Deny p w r reqo reason) \<and>
   makes (\<lambda>_. True) (touches_only (\<lambda>i. \<not> pushed_id i)) (SaveAuthorizationRequest p w r req) \<and>
   makes (\<lambda>_. True) (touches_only pushed_id) (pushAuthorization p iss reqo) \<and>
   makes (\<lambda>_. True) (touches_only pushed_id) (parseAuthorization p r iss)"
  by (simp only: touching_Approve touching_Deny touching_Save touching_push touching_parseAuthorization
      simp_thms)

end
