(* ===== verification/Grantor_Resource.thy ===== *)
theory Grantor_Resource
  imports Grantor_ClientAuth Grantor_Token
begin

text \<open>
  The endpoints and methods for tokens that were issued: revoke.go, introspect.go, userinfo.go and
  validate.go. Logging is left out.
\<close>

section \<open>Requests of authenticated clients\<close>

text \<open>The beginning of the revocation and introspection endpoints: the form, and the client.\<close>

definition authenticatedForm ::
  "Provider \<Rightarrow> Request \<Rightarrow> resolvedIssuer \<Rightarrow> (perror + params \<times> Client) prog" where
  "authenticatedForm p r iss =
     bindE (Ret (parseForm r)) (\<lambda>q.
     if pRepeated q \<noteq> [] then Ret (Inl (errInvalidRequest ''parameters must not be repeated''))
     else bindE (authenticateClient p r iss q) (\<lambda>client. Ret (Inr (q, client))))"

section \<open>Revocation (revoke.go)\<close>

text \<open>What happens to a token that the client presents; \<open>None\<close> is success, which an unknown token is,
  too.\<close>

definition revokePresented ::
  "resolvedIssuer \<Rightarrow> Client \<Rightarrow> string \<Rightarrow> perror option prog" where
  "revokePresented iss client token =
     (let hash = hashToken token;
          done = (\<lambda>e. case e of
             None \<Rightarrow> None
           | Some err \<Rightarrow> if errors_Is err ErrNotFound then None else Some (errServer err)) in
      bind (storage_Token hash) (\<lambda>x.
        case x of
          Inl err \<Rightarrow> Ret (done (Some err))
        | Inr t \<Rightarrow>
            if tIssuer t \<noteq> rsURL iss \<or> tKind t = TokenKindAuthorizationCode then Ret None
            else if tClientID t \<noteq> cID client
            then Ret (Some (newError CodeUnauthorizedClient
                        ''the token was not issued to this client''))
            else if tKind t = TokenKindRefreshToken
            then bind (storage_RevokeGrant (tGrantID t)) (\<lambda>e. Ret (done e))
            else bind (storage_RevokeToken hash) (\<lambda>e. Ret (done e))))"

definition serveRevocation ::
  "Provider \<Rightarrow> ResponseWriter \<Rightarrow> Request \<Rightarrow> resolvedIssuer \<Rightarrow> ResponseWriter prog" where
  "serveRevocation p w r iss =
     (case allowMethods r [''POST''] w of
        Some w \<Rightarrow> Ret w
      | None \<Rightarrow>
          bind (authenticatedForm p r iss) (\<lambda>x.
            case x of
              Inl perr \<Rightarrow> Ret (WriteTokenError r (EProto perr) w)
            | Inr (q, client) \<Rightarrow>
                if params_get q ''token'' = []
                then Ret (WriteTokenError r (EProto (errInvalidRequest ''token is required'')) w)
                else bind (revokePresented iss client (params_get q ''token'')) (\<lambda>e. Ret
                  (case e of
                     Some perr \<Rightarrow> WriteTokenError r (EProto perr) w
                   | None \<Rightarrow> WriteHeader 200 (noStore w)))))"

section \<open>Introspection (introspect.go)\<close>

definition inactive :: json where
  "inactive = JObject [(''active'', JBool False)]"

text \<open>The response about an active token.\<close>

definition introspection :: "Token \<Rightarrow> json_map" where
  "introspection t =
     (let resp = map_puts (filter (\<lambda>(name, _). name \<notin> set accessTokenProtectedClaims)
                             (tAccessTokenClaims t)) [];
          resp = (if tAudience t = [] then resp
                  else map_put ''aud'' (json_audience (tAudience t)) resp);
          resp = map_puts
            [(''active'', JBool True), (''client_id'', JString (tClientID t)),
             (''iss'', JString (tIssuer t)), (''iat'', JNum (time_Unix (tCreatedAt t))),
             (''exp'', JNum (time_Unix (tExpiresAt t)))] resp;
          resp = put_if (tScopes t \<noteq> []) ''scope'' (JString (strings_Join (tScopes t) '' '')) resp;
          resp = put_if (tSubject t \<noteq> []) ''sub'' (JString (tSubject t)) resp
      in put_if (tKind t = TokenKindAccessToken) ''token_type'' (JString ''Bearer'') resp)"

definition introspectable :: "Client \<Rightarrow> Token \<Rightarrow> bool" where
  "introspectable client t \<longleftrightarrow>
     (tKind t = TokenKindAccessToken \<or> (tKind t = TokenKindRefreshToken \<and> time_IsZero (tConsumedAt t)))
     \<and> (tClientID t = cID client \<or> cAllowIntrospection client)"

definition introspect ::
  "resolvedIssuer \<Rightarrow> Client \<Rightarrow> string \<Rightarrow> (perror + json) prog" where
  "introspect iss client token =
     bind (storage_Token (hashToken token)) (\<lambda>x.
       case x of
         Inl err \<Rightarrow>
           Ret (if errors_Is err ErrNotFound then Inr inactive else Inl (errServer err))
       | Inr t \<Rightarrow>
           if tIssuer t \<noteq> rsURL iss then Ret (Inr inactive)
           else bind provider_now (\<lambda>now. Ret (Inr
             (if time_Before now (tExpiresAt t) \<and> introspectable client t
              then JObject (introspection t) else inactive))))"

definition serveIntrospection ::
  "Provider \<Rightarrow> ResponseWriter \<Rightarrow> Request \<Rightarrow> resolvedIssuer \<Rightarrow> ResponseWriter prog" where
  "serveIntrospection p w r iss =
     (case allowMethods r [''POST''] w of
        Some w \<Rightarrow> Ret w
      | None \<Rightarrow>
          bind (authenticatedForm p r iss) (\<lambda>x.
            case x of
              Inl perr \<Rightarrow> Ret (WriteTokenError r (EProto perr) w)
            | Inr (q, client) \<Rightarrow>
                if client_isPublic client
                then Ret (WriteTokenError r
                       (EProto (errInvalidClient ''public clients may not introspect tokens'')) w)
                else if params_get q ''token'' = []
                then Ret (WriteTokenError r (EProto (errInvalidRequest ''token is required'')) w)
                else bind (introspect iss client (params_get q ''token'')) (\<lambda>y. Ret
                  (case y of
                     Inl perr \<Rightarrow> WriteTokenError r (EProto perr) (noStore w)
                   | Inr body \<Rightarrow> writeJSON 200 body (noStore w)))))"

section \<open>UserInfo (userinfo.go)\<close>

text \<open>The tokens of the request, in the header and in the form, or an error.\<close>

definition header_token :: "Request \<Rightarrow> perror + string list" where
  "header_token r =
     (if rAuthorization r = [] then Inr []
      else (let (scheme, v, _) = strings_Cut (rAuthorization r) CHR '' '' in
            if \<not> strings_EqualFold scheme ''Bearer'' then Inl (PError [] [] [] 401 None)
            else if v = [] then Inl (errInvalidRequest ''malformed Authorization header'')
            else Inr [v]))"

definition form_tokens :: "Request \<Rightarrow> perror + string list" where
  "form_tokens r =
     (if rMethod r = ''POST'' \<and> rMediaType r = ''application/x-www-form-urlencoded'' then
        (case rPostForm r of
           None \<Rightarrow> Inl (errInvalidRequest ''the request body could not be parsed'')
         | Some form \<Rightarrow> Inr (map_get [] form ''access_token''))
      else Inr [])"

definition bearerToken :: "Request \<Rightarrow> perror + string" where
  "bearerToken r =
     (case header_token r of Inl e \<Rightarrow> Inl e | Inr hs \<Rightarrow>
     (case form_tokens r of Inl e \<Rightarrow> Inl e | Inr fs \<Rightarrow>
       (case hs @ fs of
          [] \<Rightarrow> Inl (PError [] [] [] 401 None)
        | [t] \<Rightarrow> Inr t
        | _ \<Rightarrow> Inl (errInvalidRequest ''only one access token may be sent''))))"

text \<open>\<^verbatim>\<open>%q\<close>, on printable ASCII without quotes and backslashes, as codes and sanitised texts are.\<close>

definition go_quote :: "string \<Rightarrow> string" where
  "go_quote s = [CHR 0x22] @ s @ [CHR 0x22]"

definition bearer_challenge :: "perror \<Rightarrow> string" where
  "bearer_challenge e =
     ''Bearer realm='' @ go_quote ''userinfo'' @
     (if eCode e = [] then []
      else '', error='' @ go_quote (eCode e) @
        (if eDescription e = [] then []
         else '', error_description='' @ go_quote (sanitizeDescription (eDescription e))) @
        (if eURI e = [] then [] else '', error_uri='' @ go_quote (sanitizeURI (eURI e))))"

definition writeBearerError :: "perror \<Rightarrow> ResponseWriter \<Rightarrow> ResponseWriter" where
  "writeBearerError e w =
     (if eCode e = CodeServerError
      then writeJSON 500 (JObject [(''error'', JString CodeServerError)]) (noStore w)
      else (let w = noStore (header_Set ''WWW-Authenticate'' (bearer_challenge e) w) in
            if eCode e = [] then WriteHeader 401 w
            else writeJSON (perror_HTTPStatus e) (JObject [(''error'', JString (eCode e))]) w))"

text \<open>The claims for a bearer of the token.\<close>

definition userInfo :: "Provider \<Rightarrow> resolvedIssuer \<Rightarrow> string \<Rightarrow> (perror + json_map) prog" where
  "userInfo p iss token =
     (let bad = Ret (Inl (newError CodeInvalidToken ''the access token is invalid or expired'')) in
      bind (storage_Token (hashToken token)) (\<lambda>x.
        case x of
          Inl err \<Rightarrow> if errors_Is err ErrNotFound then bad else Ret (Inl (errServer err))
        | Inr t \<Rightarrow>
            if tKind t \<noteq> TokenKindAccessToken \<or> tIssuer t \<noteq> rsURL iss then bad
            else bind provider_now (\<lambda>now.
              if \<not> time_Before now (tExpiresAt t) then bad
              else if \<not> tHasScope t ''openid'' \<or> tSubject t = []
              then Ret (Inl (newError CodeInsufficientScope
                     ''the access token was not granted the openid scope''))
              else (let requested = (case tClaims t of None \<Rightarrow> [] | Some c \<Rightarrow> cqUserInfo c) in
                    Ret (case provider_endUserClaims (pvCfg p) t
                           (provider_allowedClaims (pvCfg p) t requested True) of
                      Inl err \<Rightarrow> Inl (errServer err)
                    | Inr claims \<Rightarrow> Inr (map_put ''sub'' (JString (tSubject t)) claims))))))"

definition serveUserInfo ::
  "Provider \<Rightarrow> ResponseWriter \<Rightarrow> Request \<Rightarrow> resolvedIssuer \<Rightarrow> ResponseWriter prog" where
  "serveUserInfo p w r iss =
     (let w = header_Set ''Access-Control-Allow-Origin'' ''*'' w in
      if rMethod r = ''OPTIONS'' then
        Ret (WriteHeader 204
              (header_Set ''Access-Control-Max-Age'' ''600''
                (header_Set ''Access-Control-Allow-Headers'' ''Authorization, Content-Type''
                  (header_Set ''Access-Control-Allow-Methods'' ''GET, POST'' w))))
      else (case allowMethods r [''GET'', ''POST'', ''OPTIONS''] w of
        Some w \<Rightarrow> Ret w
      | None \<Rightarrow>
          (let w = header_Set ''Access-Control-Expose-Headers'' ''WWW-Authenticate'' w in
           case bearerToken r of
             Inl perr \<Rightarrow> Ret (writeBearerError perr w)
           | Inr token \<Rightarrow>
               bind (userInfo p iss token) (\<lambda>x. Ret
                 (case x of
                    Inl perr \<Rightarrow> writeBearerError perr w
                  | Inr claims \<Rightarrow> writeJSON 200 (JObject claims) (noStore w))))))"

section \<open>Validation in the same process (validate.go)\<close>

definition ValidateAccessToken :: "Provider \<Rightarrow> Request \<Rightarrow> string \<Rightarrow> (goerr + Token) prog" where
  "ValidateAccessToken p r token =
     (case provider_issuerFor p r of
        Inl err \<Rightarrow> Ret (Inl (EProto (issuerError err)))
      | Inr iss \<Rightarrow>
          bind (storage_Token (hashToken token)) (\<lambda>x.
            case x of
              Inl err \<Rightarrow>
                Ret (Inl (if errors_Is err ErrNotFound then ErrNotFound
                          else EWrap ''look up access token'' [err]))
            | Inr t \<Rightarrow>
                if tKind t \<noteq> TokenKindAccessToken \<or> tIssuer t \<noteq> rsURL iss then Ret (Inl ErrNotFound)
                else bind provider_now (\<lambda>now. Ret
                  (if \<not> time_Before now (tExpiresAt t) then Inl ErrNotFound else Inr t))))"

end
