(* ===== verification/Grantor_ResourceSample.thy ===== *)
theory Grantor_ResourceSample
  imports Grantor_Resource Grantor_RequestSample
begin

text \<open>
  The client of the sample deployment presents an access token: the request, its form and its
  authentication. Nothing of it models code of the repository.
\<close>

definition present_http :: Request where
  "present_http = sample_http\<lparr>rPostForm := Some [(''token'', [rnd_token 2])]\<rparr>"

lemma rnd_token_not_Nil [simp]: "rnd_token n \<noteq> []"
  by (simp add: rnd_token_def randomToken_not_Nil)

lemma present_form: "parseForm present_http = Inr \<lparr>pValues = [(''token'', rnd_token 2)], pRepeated = []\<rparr>"
  by (simp add: parseForm_def present_http_def sample_http_def newParams_def map_put_def)

lemma sample_access_sel [simp]:
  "tKind sample_access = TokenKindAccessToken" "tIssuer sample_access = ''https://op.example''"
  "tClientID sample_access = ''app''" "tGrantID sample_access = ''grant''"
  "tScopes sample_access = [''read'']" "tAccessTokenClaims sample_access = []"
  "tExpiresAt sample_access = 3 + 15 * minute"
  by (simp_all add: sample_access_def access_record_def derive_def sample_code_def token_zero_def
      sample_plan_def time_Add_def)

lemma sample_authenticates:
  "performs (authenticatedForm sample_p present_http sample_iss)
     [EvClient ''https://op.example'' ''app'' (Inr (Some sample_client))]
     (Inr (\<lparr>pValues = [(''token'', rnd_token 2)], pRepeated = []\<rparr>, sample_client))"
proof -
  have u: "url_QueryUnescape ''app'' = Some ''app''" "url_QueryUnescape ''s3cret'' = Some ''s3cret''"
    by code_simp+
  have c: "client_usesSecret sample_client" "client_verifySecret sample_client ''s3cret''"
    by (simp_all add: verifySecret_iff client_usesSecret_def client_authMethod_def sample_client_def
        HashClientSecret_def)
  have h: "rBasicAuth present_http = Some (''app'', ''s3cret'')"
    by (simp add: present_http_def sample_http_def)
  show ?thesis
    unfolding authenticatedForm_def
    by (simp add: run_log_simps present_form authenticateClient_def auth_methods_used_def h u
        params_has_def params_get_def map_has_def map_get_def hasAssertion_def c
        authenticateWithSecret_def lookupAuthenticatingClient_def provider_client_def)
qed

definition openid_access :: Token where
  "openid_access = sample_access\<lparr>tScopes := [''openid'', ''read'']\<rparr>"

lemma openid_access_sel [simp]:
  "tKind openid_access = TokenKindAccessToken" "tIssuer openid_access = ''https://op.example''"
  "tClientID openid_access = ''app''" "tScopes openid_access = [''openid'', ''read'']"
  "tExpiresAt openid_access = 3 + 15 * minute" "tSubject openid_access = ''alice''"
  "tClaims openid_access = None" "tAccessTokenClaims openid_access = []"
  by (simp_all add: openid_access_def sample_access_def access_record_def derive_def sample_code_def
      token_zero_def sample_plan_def time_Add_def)

end
