(* ===== verification/Grantor_ResourceProps.thy ===== *)
theory Grantor_ResourceProps
  imports Grantor_ResourceSample
begin

text \<open>
  The properties of the endpoints for issued tokens: introspection, UserInfo, revocation, and
  validation in the same process.
\<close>

section \<open>Using a token\<close>

text \<open>What every use of an access token asks of its record: the specification of the three ways to
  present one.\<close>

definition usable_access :: "resolvedIssuer \<Rightarrow> Token \<Rightarrow> time \<Rightarrow> bool" where
  "usable_access iss t now \<longleftrightarrow>
     tKind t = TokenKindAccessToken \<and> tIssuer t = rsURL iss \<and> now < tExpiresAt t"

definition may_introspect :: "Client \<Rightarrow> Token \<Rightarrow> bool" where
  "may_introspect c t \<longleftrightarrow> tClientID t = cID c \<or> cAllowIntrospection c"

text \<open>All loads of the token answer alike, and so does the clock.\<close>

definition sees :: "string \<Rightarrow> Token \<Rightarrow> time \<Rightarrow> event list \<Rightarrow> bool" where
  "sees token t now log \<longleftrightarrow>
     (\<forall>ev \<in> set log. ev = EvLoadToken (hashToken token) (Inr t) \<or> ev = EvNow now)"

lemma sees_simps [simp]:
  "sees token t now []"
  "sees token t now (EvLoadToken (hashToken token) x # log) \<longleftrightarrow> x = Inr t \<and> sees token t now log"
  "sees token t now (EvNow n # log) \<longleftrightarrow> n = now \<and> sees token t now log"
  by (auto simp: sees_def)

lemma ValidateAccessToken_sees:
  assumes "performs (ValidateAccessToken p r token) log v" and "provider_issuerFor p r = Inr iss"
    and "sees token t now log"
  shows "v = (if usable_access iss t now then Inr t else Inl ErrNotFound)"
  using assms
  by (auto simp: ValidateAccessToken_def performs_bind usable_access_def time_Before_def
      split: if_splits)

lemma introspect_sees:
  assumes "performs (introspect iss c token) log i" and "sees token t now log"
    and "tKind t \<noteq> TokenKindRefreshToken"
  shows "i = Inr (if usable_access iss t now \<and> may_introspect c t
                  then JObject (introspection t) else inactive)"
  using assms
  by (auto simp: introspect_def performs_bind usable_access_def may_introspect_def introspectable_def
      time_Before_def split: if_splits)

text \<open>UserInfo for a token that was loaded as an access token of the issuer.\<close>

definition userInfo_for :: "Provider \<Rightarrow> Token \<Rightarrow> time \<Rightarrow> perror + json_map" where
  "userInfo_for p t now =
     (if tExpiresAt t \<le> now then Inl (newError CodeInvalidToken ''the access token is invalid or expired'')
      else if \<not> tHasScope t ''openid'' \<or> tSubject t = []
      then Inl (newError CodeInsufficientScope ''the access token was not granted the openid scope'')
      else (case provider_endUserClaims (pvCfg p) t
                   (provider_allowedClaims (pvCfg p) t
                      (case tClaims t of None \<Rightarrow> [] | Some c \<Rightarrow> cqUserInfo c) True) of
              Inl err \<Rightarrow> Inl (errServer err)
            | Inr claims \<Rightarrow> Inr (map_put ''sub'' (JString (tSubject t)) claims)))"

lemma userInfo_performs:
  assumes "performs (userInfo p iss token) log u"
  obtains (refused) x e where "log = [EvLoadToken (hashToken token) x]" and "u = Inl e"
    and "\<And>t. x = Inr t \<Longrightarrow> (tKind t \<noteq> TokenKindAccessToken \<or> tIssuer t \<noteq> rsURL iss) \<and> eCode e = CodeInvalidToken"
  | (loaded) t now where "log = [EvLoadToken (hashToken token) (Inr t), EvNow now]"
    and "tKind t = TokenKindAccessToken" and "tIssuer t = rsURL iss" and "u = userInfo_for p t now"
proof -
  from assms obtain l m x where log: "log = l @ m" and l: "l = [EvLoadToken (hashToken token) x]"
      and m: "performs (case x of
          Inl err \<Rightarrow> if errors_Is err ErrNotFound
            then Ret (Inl (newError CodeInvalidToken ''the access token is invalid or expired''))
            else Ret (Inl (errServer err))
        | Inr t \<Rightarrow>
            if tKind t \<noteq> TokenKindAccessToken \<or> tIssuer t \<noteq> rsURL iss
            then Ret (Inl (newError CodeInvalidToken ''the access token is invalid or expired''))
            else bind provider_now (\<lambda>now. Ret (userInfo_for p t now))) m u"
    unfolding userInfo_def Let_def
    by (elim performs_bind_steps) (auto simp: userInfo_for_def performs_bind time_Before_def
        split: if_split_asm sum.split_asm; fastforce?)
  show ?thesis
  proof (cases x)
    case (Inl err)
    with m obtain e where "u = Inl e" "m = []" by (auto split: if_split_asm)
    with Inl log l show ?thesis by (intro refused [of x e]) auto
  next
    case (Inr t)
    show ?thesis
    proof (cases "tKind t \<noteq> TokenKindAccessToken \<or> tIssuer t \<noteq> rsURL iss")
      case True
      with m log l Inr show ?thesis by (intro refused [of x]) auto
    next
      case False
      with m Inr obtain now where "m = [EvNow now]" "u = userInfo_for p t now"
        by (auto simp: performs_bind)
      with False log l Inr show ?thesis by (intro loaded [of t now]) auto
    qed
  qed
qed

lemma userInfo_sees:
  assumes "performs (userInfo p iss token) log u" and "sees token t now log"
  shows "u = (if usable_access iss t now then userInfo_for p t now
              else Inl (newError CodeInvalidToken ''the access token is invalid or expired''))"
  using assms(1)
proof (cases rule: userInfo_performs)
  case (refused x e)
  with assms show ?thesis
    by (auto simp: userInfo_def performs_bind usable_access_def Let_def)
next
  case (loaded t' n)
  with assms(2) show ?thesis by (auto simp: usable_access_def userInfo_for_def)
qed

text \<open>What UserInfo answers for a usable token.\<close>

lemma userInfo_for_cases:
  "usable_access iss t now \<Longrightarrow>
     if ''openid'' \<in> set (tScopes t) \<and> tSubject t \<noteq> []
     then (\<exists>members. userInfo_for p t now = Inr members \<and>
            map_of members ''sub'' = Some (JString (tSubject t))) \<or>
       (\<exists>hook err. cfClaims (pvCfg p) = Some hook \<and> hook t = Inl err \<and>
          userInfo_for p t now = Inl (errServer (EWrap ''claims func'' [err])))
     else \<exists>e. userInfo_for p t now = Inl e \<and> eCode e = CodeInsufficientScope"
proof -
  assume "usable_access iss t now"
  then have live: "\<not> tExpiresAt t \<le> now" by (simp add: usable_access_def)
  show ?thesis
  proof (cases "''openid'' \<in> set (tScopes t) \<and> tSubject t \<noteq> []")
    case True
    obtain allowed where "userInfo_for p t now = (case provider_endUserClaims (pvCfg p) t allowed of
          Inl err \<Rightarrow> Inl (errServer err)
        | Inr claims \<Rightarrow> Inr (map_put ''sub'' (JString (tSubject t)) claims))"
      using True live by (auto simp: userInfo_for_def tHasScope_def)
    then show ?thesis
      using True by (auto simp: provider_endUserClaims_def split: option.splits sum.splits if_splits)
  qed (use live in \<open>auto simp: userInfo_for_def tHasScope_def\<close>)
qed

lemma introspection_active: "map_of (introspection t) ''active'' = Some (JBool True)"
  by (simp add: introspection_def Let_def put_if_def)

lemma introspection_not_inactive: "JObject (introspection t) \<noteq> inactive"
proof
  assume "JObject (introspection t) = inactive"
  then have "map_of (introspection t) ''active'' = Some (JBool False)" by (simp add: inactive_def)
  then show False by (simp add: introspection_active)
qed

text \<open>C18. The three ways to present an access token agree on whether it is valid. When the storage
  and the clock answer alike, a token is valid when it is an access token of this issuer that has not
  expired. A valid token is returned by ValidateAccessToken and reported active to a client that may
  introspect it; anything else is answered with ErrNotFound, inactive and invalid_token. UserInfo asks
  more of a valid token: it serves the end-user's claims, with the token's subject as sub, only for a
  token with the openid scope and a subject -- unless the Claims hook fails, whose error it then
  reports -- and refuses any other valid token with insufficient_scope.\<close>

theorem token_checks_agree:
  assumes "performs (ValidateAccessToken p r token) l1 v" and "provider_issuerFor p r = Inr iss"
    and "performs (introspect iss c token) l2 i" and "performs (userInfo p iss token) l3 u"
    and "sees token t now (l1 @ l2 @ l3)"
    and "tKind t \<noteq> TokenKindRefreshToken" and "may_introspect c t"
  shows "if usable_access iss t now
     then v = Inr t \<and> i = Inr (JObject (introspection t)) \<and>
       map_of (introspection t) ''active'' = Some (JBool True) \<and>
       (if ''openid'' \<in> set (tScopes t) \<and> tSubject t \<noteq> []
        then (\<exists>members. u = Inr members \<and> map_of members ''sub'' = Some (JString (tSubject t))) \<or>
          (\<exists>hook err. cfClaims (pvCfg p) = Some hook \<and> hook t = Inl err \<and>
             u = Inl (errServer (EWrap ''claims func'' [err])))
        else \<exists>e. u = Inl e \<and> eCode e = ''insufficient_scope'')
     else v = Inl ErrNotFound \<and> i = Inr inactive \<and> (\<exists>e. u = Inl e \<and> eCode e = ''invalid_token'')"
proof -
  have s: "sees token t now l1" "sees token t now l2" "sees token t now l3"
    using assms(5) by (auto simp: sees_def)
  note v = ValidateAccessToken_sees [OF assms(1,2) s(1)]
  note i = introspect_sees [OF assms(3) s(2) assms(6)]
  note u = userInfo_sees [OF assms(4) s(3)]
  show ?thesis
  proof (cases "usable_access iss t now")
    case True
    from userInfo_for_cases [OF True] v i u assms(7) show ?thesis
      by (simp only: True if_True simp_thms introspection_active)
  qed (simp add: v i u)
qed

definition check_log :: "event list" where
  "check_log = [EvLoadToken (hashToken (rnd_token 2)) (Inr openid_access), EvNow (12 * second)]"

lemma usable_openid_access: "usable_access sample_iss openid_access (12 * second)"
  by (simp add: usable_access_def minute_def second_def)

lemma validate_run:
  "performs (ValidateAccessToken sample_p r (rnd_token 2)) check_log (Inr openid_access)"
  by (simp add: ValidateAccessToken_def run_log_simps check_log_def time_Before_def minute_def second_def)

lemma introspect_run:
  "performs (introspect sample_iss sample_client (rnd_token 2)) check_log
     (Inr (JObject (introspection openid_access)))"
  by (simp add: introspect_def run_log_simps check_log_def time_Before_def minute_def second_def
      introspectable_def sample_client_def)

lemma userInfo_run:
  "performs (userInfo sample_p sample_iss (rnd_token 2)) check_log
     (Inr [(''sub'', JString ''alice'')])"
  by (simp add: userInfo_def run_log_simps check_log_def time_Before_def minute_def second_def
      tHasScope_def provider_endUserClaims_def sample_cfg_def Let_def map_put_def)

theorem token_checks_agree_witness:
  "map_of [(''sub'', JString ''alice'')] ''sub'' = Some (JString (tSubject openid_access)) \<and>
     map_of (introspection openid_access) ''active'' = Some (JBool True)"
proof -
  have "sees (rnd_token 2) openid_access (12 * second) (check_log @ check_log @ check_log)"
    by (simp add: check_log_def)
  moreover have "may_introspect sample_client openid_access"
    by (simp add: may_introspect_def sample_client_def)
  moreover have "''openid'' \<in> set (tScopes openid_access) \<and> tSubject openid_access \<noteq> []"
    by simp
  ultimately show ?thesis
    using token_checks_agree [OF validate_run sample_issuer_for introspect_run userInfo_run,
        of openid_access "12 * second"]
    by (simp add: usable_openid_access)
qed

section \<open>Introspection\<close>

lemma authenticatedForm_Inr:
  assumes "performs (authenticatedForm p r iss) log (Inr (q, client))"
  shows "parseForm r = Inr q \<and> pRepeated q = [] \<and> authenticated_as p r iss q log client"
proof -
  from assms obtain q' where q': "parseForm r = Inr q'" "pRepeated q' = []"
      and "performs (bindE (authenticateClient p r iss q') (\<lambda>client. Ret (Inr (q', client)))) log
             (Inr (q, client))"
    by (auto simp: authenticatedForm_def performs_RetE split: if_split_asm)
  then have "q = q'" "performs (authenticateClient p r iss q') log (Inr client)"
    by (auto simp: performs_bindE_Inr)
  with q' authenticateClient_Inr show ?thesis by blast
qed

lemma body_writers [simp]:
  "wBody (noStore w) = wBody w"
  "wBody (WriteTokenError r e w) = wBody w @ [BodyJSON (JObject (token_error_body (asProtocolError e)))]"
  "json_ok v \<Longrightarrow> wBody (writeJSON n v w) = wBody w @ [BodyJSON v]"
  "wBody (http_Error msg n w) = wBody w @ [BodyText (msg @ [CHR 0x0A])]"
  by (simp_all add: noStore_def WriteTokenError_def writeJSON_def http_Error_def Let_def
      token_error_body_ok [simplified])

lemma writeJSON_body:
  "BodyJSON x \<in> set (wBody (writeJSON n v w)) \<Longrightarrow> BodyJSON x \<in> set (wBody w) \<or> x = v"
  by (auto simp: writeJSON_def split: if_splits)

lemma fresh_body [simp]: "wBody fresh_writer = []" "wStatus fresh_writer = None"
  by (simp_all add: fresh_writer_def)

lemma token_error_inactive [simp]: "map_of (token_error_body e) ''active'' = None"
  by (simp add: token_error_body_def Let_def)

lemma introspect_Inr:
  assumes "performs (introspect iss c token) log (Inr i)" and "i \<noteq> inactive"
  obtains t now where "log = [EvLoadToken (hashToken token) (Inr t), EvNow now]"
    and "tIssuer t = rsURL iss" and "now < tExpiresAt t" and "introspectable c t"
    and "i = JObject (introspection t)"
  using assms
  by (auto simp: introspect_def performs_bind performs_cases time_Before_def simp del: performs_if
      split: if_split_asm)

text \<open>The steps of a request that got past the method, the form and the client.\<close>

lemma serveIntrospection_steps:
  assumes "performs (serveIntrospection p w r iss) log w'"
  obtains (refused) e where "w' = WriteTokenError r e w"
  | (method_) "w' = the (allowMethods r [''POST''] w)" "rMethod r \<noteq> ''POST''"
  | (answered) q client l m y where "log = l @ m"
    and "performs (authenticatedForm p r iss) l (Inr (q, client))"
    and "\<not> client_isPublic client"
    and "performs (introspect iss client (params_get q ''token'')) m y"
    and "w' = (case y of Inl perr \<Rightarrow> WriteTokenError r (EProto perr) (noStore w)
                | Inr body \<Rightarrow> writeJSON 200 body (noStore w))"
proof (cases "rMethod r = ''POST''")
  case False
  with assms show ?thesis by (intro method_) (auto simp: serveIntrospection_def allowMethods_def)
next
  case True
  with assms have "performs (bind (authenticatedForm p r iss) (\<lambda>x.
            case x of
              Inl perr \<Rightarrow> Ret (WriteTokenError r (EProto perr) w)
            | Inr (q, client) \<Rightarrow>
                if client_isPublic client
                then Ret (WriteTokenError r
                       (EProto (errInvalidClient ''public clients may not introspect tokens'')) w)
                else if params_get q ''token'' = []
                then Ret (WriteTokenError r (EProto (errInvalidRequest ''token is required'')) w)
                else bind (introspect iss client (params_get q ''token'')) (\<lambda>y. Ret
                  (case y of
                     Inl perr \<Rightarrow> WriteTokenError r (EProto perr) (noStore w)
                   | Inr body \<Rightarrow> writeJSON 200 body (noStore w))))) log w'"
    by (simp add: serveIntrospection_def allowMethods_def)
  then show ?thesis
  proof (rule performs_bind_steps)
    fix l m x
    assume log: "log = l @ m" and l: "performs (authenticatedForm p r iss) l x"
      and m: "performs (case x of
              Inl perr \<Rightarrow> Ret (WriteTokenError r (EProto perr) w)
            | Inr (q, client) \<Rightarrow>
                if client_isPublic client
                then Ret (WriteTokenError r
                       (EProto (errInvalidClient ''public clients may not introspect tokens'')) w)
                else if params_get q ''token'' = []
                then Ret (WriteTokenError r (EProto (errInvalidRequest ''token is required'')) w)
                else bind (introspect iss client (params_get q ''token'')) (\<lambda>y. Ret
                  (case y of
                     Inl perr \<Rightarrow> WriteTokenError r (EProto perr) (noStore w)
                   | Inr body \<Rightarrow> writeJSON 200 body (noStore w)))) m w'"
    show ?thesis
    proof (cases x)
      case (Inl perr)
      with m show ?thesis by (intro refused) auto
    next
      case (Inr qc)
      obtain q client where qc: "qc = (q, client)" by (cases qc)
      show ?thesis
      proof (cases "client_isPublic client \<or> params_get q ''token'' = []")
        case True
        with m Inr qc refused show ?thesis by (auto split: if_split_asm)
      next
        case False
        with m Inr qc obtain y where "performs (introspect iss client (params_get q ''token'')) m y"
          "w' = (case y of Inl perr \<Rightarrow> WriteTokenError r (EProto perr) (noStore w)
                  | Inr body \<Rightarrow> writeJSON 200 body (noStore w))"
          by (auto simp: performs_bind)
        with False log l Inr qc show ?thesis by (intro answered [of l m q client y]) auto
      qed
    qed
  qed
qed

text \<open>C19. Introspection tells about a token only an authenticated, confidential client that may know
  it. If the response says a token is active, the client proved its identity in this request and is
  not public; the token was issued by this issuer, has not expired, is an access token or a refresh
  token that was not consumed, and belongs to the client or the client may introspect the tokens of
  others; and the response holds what the record says.\<close>

theorem introspection_authorised:
  assumes "performs (serveIntrospection p fresh_writer r iss) log w"
    and "BodyJSON (JObject m) \<in> set (wBody w)" and "map_of m ''active'' = Some (JBool True)"
  shows "\<exists>q client l t now.
     log = l @ [EvLoadToken (hashToken (params_get q ''token'')) (Inr t), EvNow now] \<and>
     parseForm r = Inr q \<and> authenticated_as p r iss q l client \<and> \<not> client_isPublic client \<and>
     tIssuer t = rsURL iss \<and> now < tExpiresAt t \<and>
     (tKind t = TokenKindAccessToken \<or> tKind t = TokenKindRefreshToken \<and> tConsumedAt t = 0) \<and>
     (tClientID t = cID client \<or> cAllowIntrospection client) \<and> m = introspection t"
  using assms(1)
proof (cases rule: serveIntrospection_steps)
  case (refused e)
  with assms(2,3) show ?thesis by auto
next
  case method_
  with assms(2) show ?thesis by (auto simp: allowMethods_def header_Set_def)
next
  case (answered q client l k y)
  have "y = Inr (JObject m)"
    using answered(5) assms(2,3) by (cases y) (auto dest: writeJSON_body)
  with answered(4) have "performs (introspect iss client (params_get q ''token'')) k (Inr (JObject m))"
    by (simp only:)
  moreover have "JObject m \<noteq> inactive" using assms(3) by (auto simp: inactive_def)
  ultimately obtain t now where
    t: "k = [EvLoadToken (hashToken (params_get q ''token'')) (Inr t), EvNow now]"
      "tIssuer t = rsURL iss" "now < tExpiresAt t" "introspectable client t" "m = introspection t"
    by (rule introspect_Inr) (simp only: json.inject)
  have k: "(tKind t = TokenKindAccessToken \<or> tKind t = TokenKindRefreshToken \<and> tConsumedAt t = 0) \<and>
      (tClientID t = cID client \<or> cAllowIntrospection client)"
    using t(4) by (simp add: introspectable_def time_IsZero_def)
  show ?thesis
    by (rule exI [of _ q], rule exI [of _ client], rule exI [of _ l], rule exI [of _ t],
        rule exI [of _ now])
      (use answered(1,3) authenticatedForm_Inr [OF answered(2)] t(1-3,5) k in simp)
qed

lemma serveIntrospection_run:
  "performs (serveIntrospection sample_p fresh_writer present_http sample_iss)
     ([EvClient ''https://op.example'' ''app'' (Inr (Some sample_client))] @ check_log)
     (writeJSON 200 (JObject (introspection openid_access)) (noStore fresh_writer))"
proof -
  have m: "allowMethods present_http [''POST''] fresh_writer = None"
    by (simp add: allowMethods_def present_http_def sample_http_def)
  have c: "\<not> client_isPublic sample_client"
    by (simp add: client_isPublic_def client_authMethod_def sample_client_def)
  from performs_bindI [OF introspect_run, of "\<lambda>y. Ret (case y of
        Inl perr \<Rightarrow> WriteTokenError present_http (EProto perr) (noStore fresh_writer)
      | Inr body \<Rightarrow> writeJSON 200 body (noStore fresh_writer))" "[]"]
  have rest: "performs (bind (introspect sample_iss sample_client (rnd_token 2)) (\<lambda>y. Ret (case y of
        Inl perr \<Rightarrow> WriteTokenError present_http (EProto perr) (noStore fresh_writer)
      | Inr body \<Rightarrow> writeJSON 200 body (noStore fresh_writer)))) check_log
    (writeJSON 200 (JObject (introspection openid_access)) (noStore fresh_writer))"
    by simp
  show ?thesis
    unfolding serveIntrospection_def m option.case
    by (rule performs_bindI [OF sample_authenticates])
      (use rest in \<open>simp add: params_get_def map_get_def c\<close>)
qed

lemma introspection_ok: "json_ok (JObject (introspection openid_access))"
  by (simp add: introspection_def Let_def put_if_def map_put_def json_audience_def
      openid_access_def sample_access_def access_record_def derive_def sample_code_def token_zero_def
      sample_plan_def)

theorem introspection_authorised_witness:
  "\<exists>q client l t now.
     [EvClient ''https://op.example'' ''app'' (Inr (Some sample_client))] @ check_log =
       l @ [EvLoadToken (hashToken (params_get q ''token'')) (Inr t), EvNow now] \<and>
     \<not> client_isPublic client \<and> introspection openid_access = introspection t"
proof -
  have "BodyJSON (JObject (introspection openid_access)) \<in>
      set (wBody (writeJSON 200 (JObject (introspection openid_access)) (noStore fresh_writer)))"
    using introspection_ok by (simp del: json_ok.simps)
  from introspection_authorised [OF serveIntrospection_run this introspection_active] show ?thesis
    by blast
qed

text \<open>What the record says about a member of the response.\<close>

definition record_member :: "Token \<Rightarrow> string \<Rightarrow> json option" where
  "record_member t name =
     (if name = ''active'' then Some (JBool True)
      else if name = ''iss'' then Some (JString (tIssuer t))
      else if name = ''client_id'' then Some (JString (tClientID t))
      else if name = ''iat'' then Some (JNum (time_Unix (tCreatedAt t)))
      else if name = ''exp'' then Some (JNum (time_Unix (tExpiresAt t)))
      else if name = ''aud'' then
        (case tAudience t of [] \<Rightarrow> None | [a] \<Rightarrow> Some (JString a) | as \<Rightarrow> Some (JArray (map JString as)))
      else if name = ''scope'' then
        (if tScopes t = [] then None else Some (JString (strings_Join (tScopes t) '' '')))
      else if name = ''sub'' then (if tSubject t = [] then None else Some (JString (tSubject t)))
      else if name = ''token_type'' then
        (if tKind t = TokenKindAccessToken then Some (JString ''Bearer'') else None)
      else if name \<in> set accessTokenProtectedClaims then None
      else map_of (tAccessTokenClaims t) name)"

text \<open>An introspection response is the token's record and nothing else: the application's access
  token claims appear under their own names, but never in the place of a member the protocol defines,
  not even one the record leaves empty.\<close>

theorem introspection_members:
  assumes "distinct (map fst (tAccessTokenClaims t))"
  shows "map_of (introspection t) name = record_member t name"
proof -
  define app where "app = map_puts (filter (\<lambda>(name, _). name \<notin> set accessTokenProtectedClaims)
                             (tAccessTokenClaims t)) []"
  have app: "map_of app k = (if k \<in> set accessTokenProtectedClaims then None
      else map_of (tAccessTokenClaims t) k)" for k
    unfolding app_def
    by (subst map_of_map_puts)
      (auto simp: assms distinct_filter_names map_of_filter_names split: option.split)
  have prot: "''aud'' \<in> set accessTokenProtectedClaims" "''scope'' \<in> set accessTokenProtectedClaims"
      "''sub'' \<in> set accessTokenProtectedClaims" "''token_type'' \<in> set accessTokenProtectedClaims"
    by (simp_all add: accessTokenProtectedClaims_def)
  have aud: "json_audience as = JString a" if "as = [a]" for as a
    using that by (simp add: json_audience_def)
  note unfold = introspection_def record_member_def app_def [symmetric] Let_def map_of_put_if
    map_puts_simps json_audience_def
  let ?own = "{''active'', ''iss'', ''client_id'', ''iat'', ''exp'', ''aud'', ''scope'', ''sub'', ''token_type''}"
  show ?thesis
  proof (cases "name \<in> ?own")
    case True
    then show ?thesis
      unfolding unfold
      by (elim insertE emptyE) (simp_all add: app prot split: list.split)
  next
    case False
    then show ?thesis
      unfolding unfold by (simp add: app)
  qed
qed

theorem introspection_members_witness:
  "map_of (introspection openid_access) ''sub'' = Some (JString ''alice'')"
  using introspection_members [of openid_access "''sub''"] by (simp add: record_member_def)

section \<open>UserInfo\<close>

lemma status_writers [simp]:
  "wStatus (noStore w) = wStatus w"
  "wStatus w = None \<Longrightarrow> wStatus (writeJSON n v w) = Some (if json_ok v then n else 500)"
  "wStatus w = None \<Longrightarrow> wStatus (http_Error msg n w) = Some n"
  by (simp_all add: noStore_def writeJSON_def http_Error_def)

lemma writeBearerError_status:
  assumes "wStatus w = None"
  shows "\<exists>n \<ge> 400. wStatus (writeBearerError e w) = Some n"
proof (cases "eCode e = CodeServerError \<or> eCode e = []")
  case True
  then show ?thesis using assms by (auto simp: writeBearerError_def Let_def)
next
  case False
  then show ?thesis
    using assms HTTPStatus_range [of e] by (auto simp: writeBearerError_def Let_def)
qed

lemma userInfo_Inr:
  assumes "performs (userInfo p iss token) log (Inr claims)"
  obtains t now user where "log = [EvLoadToken (hashToken token) (Inr t), EvNow now]"
    and "usable_access iss t now" and "''openid'' \<in> set (tScopes t)" and "tSubject t \<noteq> []"
    and "provider_endUserClaims (pvCfg p) t (provider_allowedClaims (pvCfg p) t
           (case tClaims t of None \<Rightarrow> [] | Some c \<Rightarrow> cqUserInfo c) True) = Inr user"
    and "claims = map_put ''sub'' (JString (tSubject t)) user"
  using assms
proof (cases rule: userInfo_performs)
  case (loaded t now)
  then have "now < tExpiresAt t" "tHasScope t ''openid''" "tSubject t \<noteq> []"
    by (auto simp: userInfo_for_def split: if_split_asm)
  moreover from this loaded(4) obtain user where
    "provider_endUserClaims (pvCfg p) t (provider_allowedClaims (pvCfg p) t
       (case tClaims t of None \<Rightarrow> [] | Some c \<Rightarrow> cqUserInfo c) True) = Inr user"
    "claims = map_put ''sub'' (JString (tSubject t)) user"
    by (auto simp: userInfo_for_def split: sum.split_asm)
  ultimately show ?thesis
    using loaded by (intro that) (simp_all add: usable_access_def tHasScope_def)
qed simp

lemma serveUserInfo_success:
  assumes "performs (serveUserInfo p fresh_writer r iss) log w" and "wStatus w = Some 200"
  obtains token claims where "bearerToken r = Inr token"
    and "performs (userInfo p iss token) log (Inr claims)"
    and "wBody w = [BodyJSON (JObject claims)]"
proof -
  define v where "v = header_Set ''Access-Control-Expose-Headers'' ''WWW-Authenticate''
      (header_Set ''Access-Control-Allow-Origin'' ''*'' fresh_writer)"
  have v: "wStatus v = None" "wBody v = []" by (simp_all add: v_def)
  have meth: "rMethod r \<in> {''GET'', ''POST''}"
    using assms by (auto simp: serveUserInfo_def Let_def allowMethods_def split: if_split_asm)
  then have run: "performs (case bearerToken r of
             Inl perr \<Rightarrow> Ret (writeBearerError perr v)
           | Inr token \<Rightarrow>
               bind (userInfo p iss token) (\<lambda>x. Ret
                 (case x of
                    Inl perr \<Rightarrow> writeBearerError perr v
                  | Inr claims \<Rightarrow> writeJSON 200 (JObject claims) (noStore v)))) log w"
    using assms(1) by (auto simp: serveUserInfo_def Let_def allowMethods_def v_def [symmetric])
  have bad: "w \<noteq> writeBearerError e v" for e
    using writeBearerError_status [OF v(1), of e] assms(2) by auto
  then obtain token where token: "bearerToken r = Inr token"
    using run by (cases "bearerToken r") auto
  then obtain x where x: "performs (userInfo p iss token) log x"
      and w: "w = (case x of Inl perr \<Rightarrow> writeBearerError perr v
                   | Inr claims \<Rightarrow> writeJSON 200 (JObject claims) (noStore v))"
    using run by (auto simp: performs_bind)
  from w bad obtain claims where c: "x = Inr claims" "w = writeJSON 200 (JObject claims) (noStore v)"
    by (cases x) auto
  moreover have "json_ok (JObject claims)"
    using assms(2) c(2) v(1) by (auto split: if_split_asm)
  ultimately show ?thesis using token x v(2) by (intro that) auto
qed

text \<open>C20. UserInfo discloses what the token was granted, to the bearer of one access token. A 200
  response answers to exactly one bearer token, whose record is an unexpired access token of this
  issuer with the openid scope and a subject; its sub is that subject, and every other member is a
  claim of a granted scope or one the client requested for UserInfo, never a protocol claim.\<close>

theorem userinfo_within_grant:
  assumes "performs (serveUserInfo p fresh_writer r iss) log w" and "wStatus w = Some 200"
  shows "\<exists>token t now m. bearerToken r = Inr token \<and>
     log = [EvLoadToken (hashToken token) (Inr t), EvNow now] \<and> usable_access iss t now \<and>
     ''openid'' \<in> set (tScopes t) \<and> wBody w = [BodyJSON (JObject m)] \<and>
     map_of m ''sub'' = Some (JString (tSubject t)) \<and> tSubject t \<noteq> [] \<and>
     fst ` set m \<subseteq> insert ''sub'' (set (provider_allowedClaims (pvCfg p) t
         (case tClaims t of None \<Rightarrow> [] | Some c \<Rightarrow> cqUserInfo c) True) - set protocolClaims)"
  using assms
proof (rule serveUserInfo_success)
  fix token claims
  assume b: "bearerToken r = Inr token" "wBody w = [BodyJSON (JObject claims)]"
  assume "performs (userInfo p iss token) log (Inr claims)"
  then obtain t now user where u: "log = [EvLoadToken (hashToken token) (Inr t), EvNow now]"
    "usable_access iss t now" "''openid'' \<in> set (tScopes t)" "tSubject t \<noteq> []"
    "provider_endUserClaims (pvCfg p) t (provider_allowedClaims (pvCfg p) t
       (case tClaims t of None \<Rightarrow> [] | Some c \<Rightarrow> cqUserInfo c) True) = Inr user"
    and m: "claims = map_put ''sub'' (JString (tSubject t)) user"
    by (rule userInfo_Inr)
  have "fst ` set claims \<subseteq> insert ''sub'' (fst ` set user)"
    by (auto simp: m map_put_def)
  also have "\<dots> \<subseteq> insert ''sub'' (set (provider_allowedClaims (pvCfg p) t
         (case tClaims t of None \<Rightarrow> [] | Some c \<Rightarrow> cqUserInfo c) True) - set protocolClaims)"
    using endUserClaims_names [OF u(5)] by blast
  finally have names: "fst ` set claims \<subseteq> insert ''sub'' (set (provider_allowedClaims (pvCfg p) t
         (case tClaims t of None \<Rightarrow> [] | Some c \<Rightarrow> cqUserInfo c) True) - set protocolClaims)" .
  show ?thesis
    by (rule exI [of _ token], rule exI [of _ t], rule exI [of _ now], rule exI [of _ claims])
      (use b u names in \<open>simp add: m\<close>)
qed

definition userinfo_http :: Request where
  "userinfo_http = sample_http\<lparr>rMethod := ''GET'', rAuthorization := ''Bearer '' @ rnd_token 2\<rparr>"

definition userinfo_writer :: ResponseWriter where
  "userinfo_writer = writeJSON 200 (JObject [(''sub'', JString ''alice'')])
     (noStore (header_Set ''Access-Control-Expose-Headers'' ''WWW-Authenticate''
        (header_Set ''Access-Control-Allow-Origin'' ''*'' fresh_writer)))"

lemma userinfo_bearer: "bearerToken userinfo_http = Inr (rnd_token 2)"
proof -
  have "strings_Cut (''Bearer '' @ rnd_token 2) CHR '' '' = (''Bearer'', rnd_token 2, True)"
    unfolding rnd_token_values by code_simp
  then show ?thesis
    by (simp add: bearerToken_def header_token_def form_tokens_def userinfo_http_def sample_http_def
        strings_EqualFold_def)
qed

lemma serveUserInfo_run:
  "performs (serveUserInfo sample_p fresh_writer userinfo_http sample_iss) check_log userinfo_writer"
proof -
  have m: "rMethod userinfo_http = ''GET''" by (simp add: userinfo_http_def)
  define v where "v = header_Set ''Access-Control-Expose-Headers'' ''WWW-Authenticate''
      (header_Set ''Access-Control-Allow-Origin'' ''*'' fresh_writer)"
  from performs_bindI [OF userInfo_run, of "\<lambda>x. Ret (case x of
      Inl perr \<Rightarrow> writeBearerError perr v
    | Inr claims \<Rightarrow> writeJSON 200 (JObject claims) (noStore v))" "[]"]
  have "performs (bind (userInfo sample_p sample_iss (rnd_token 2)) (\<lambda>x. Ret (case x of
      Inl perr \<Rightarrow> writeBearerError perr v
    | Inr claims \<Rightarrow> writeJSON 200 (JObject claims) (noStore v)))) check_log userinfo_writer"
    by (simp add: userinfo_writer_def v_def)
  from this [unfolded v_def] show ?thesis
    by (simp add: serveUserInfo_def Let_def m allowMethods_def userinfo_bearer)
qed

theorem userinfo_within_grant_witness:
  "\<exists>m. wBody userinfo_writer = [BodyJSON (JObject m)] \<and> map_of m ''sub'' = Some (JString ''alice'')"
proof -
  have "wStatus userinfo_writer = Some 200" by (simp add: userinfo_writer_def)
  from userinfo_within_grant [OF serveUserInfo_run this] show ?thesis
    by (auto simp: check_log_def)
qed

end
