(* ===== verification/Grantor_RevocationProps.thy ===== *)
theory Grantor_RevocationProps
  imports Grantor_ResourceProps
begin

text \<open>
  What revocation achieves: after the endpoint has answered 200, the storage does not yield the token
  again as one that could be used.
\<close>

section \<open>A stored token only changes by being consumed\<close>

definition same_token :: "Token \<Rightarrow> Token \<Rightarrow> bool" where
  "same_token t u \<longleftrightarrow> t\<lparr>tConsumedAt := 0\<rparr> = u\<lparr>tConsumedAt := 0\<rparr>"

lemma same_token_refl [simp]: "same_token t t"
  by (simp add: same_token_def)

lemma same_token_trans: "same_token t u \<Longrightarrow> same_token u v \<Longrightarrow> same_token t v"
  by (simp add: same_token_def)

lemma same_token_sel:
  assumes "same_token t u"
  shows "tIssuer t = tIssuer u" and "tKind t = tKind u" and "tGrantID t = tGrantID u"
proof -
  have "tIssuer (t\<lparr>tConsumedAt := 0\<rparr>) = tIssuer (u\<lparr>tConsumedAt := 0\<rparr>)"
    "tKind (t\<lparr>tConsumedAt := 0\<rparr>) = tKind (u\<lparr>tConsumedAt := 0\<rparr>)"
    "tGrantID (t\<lparr>tConsumedAt := 0\<rparr>) = tGrantID (u\<lparr>tConsumedAt := 0\<rparr>)"
    using assms by (simp_all only: same_token_def)
  then show "tIssuer t = tIssuer u" "tKind t = tKind u" "tGrantID t = tGrantID u" by simp_all
qed

lemma same_token_mark [simp]: "same_token t (mark_consumed at t)"
  by (simp add: same_token_def mark_consumed_def)

lemma tok_effect_same:
  assumes "tok_effect st ev now m m1" and "m1 h = Some t" and "\<not> creates_token h ev"
  shows "\<exists>t0. m h = Some t0 \<and> same_token t0 t"
proof -
  have old: "\<exists>t0. m h = Some t0 \<and> same_token t0 t"
    if "evolves now tExpiresAt m m'" "m' h = Some u" "same_token u t" for m' u
    using evolves_Some [OF that(1,2)] that(3) by blast
  show ?thesis
  proof (cases ev)
    case (EvCreateToken t' r)
    with assms obtain m' where "evolves now tExpiresAt m m'" "m1 h = m' h"
      by (cases r) (auto simp: inserts_def)
    with old assms(2) show ?thesis by auto
  next
    case (EvConsumeToken k at r)
    with assms(1) obtain m' where m': "evolves now tExpiresAt m m'"
        and alt: "m1 = m' \<or> (\<exists>u. m' k = Some u \<and> m1 = m'(k \<mapsto> mark_consumed at u))"
      by (cases r) (auto simp: consumes_def split: if_split_asm)
    then obtain u where "m' h = Some u" "same_token u t"
      using assms(2) by (cases "h = k") auto
    with m' show ?thesis by (rule old)
  next
    case (EvRevokeToken k r)
    with assms obtain m' where "evolves now tExpiresAt m m'" "m' h = Some t"
      by (cases "h = k") auto
    then show ?thesis by (rule old) simp
  next
    case (EvRevokeGrant g r)
    with assms(1) obtain m' where m': "evolves now tExpiresAt m m'"
        and "\<forall>k. m1 k = m' k \<or> m1 k = None"
      using revokes_grant_shrinks by (metis tok_effect.simps(5))
    then have "m' h = Some t" using assms(2) by (metis option.distinct(1))
    with m' show ?thesis by (rule old) simp
  qed (use assms old in \<open>auto simp: loads_def\<close>)
qed

section \<open>A run that retires a token\<close>

text \<open>How a successful revocation ends: the token was not found, was not one to revoke here, or was
  revoked, alone or with its grant.\<close>

definition retires :: "resolvedIssuer \<Rightarrow> string \<Rightarrow> event list \<Rightarrow> bool" where
  "retires iss h l \<longleftrightarrow>
     (\<exists>k e. l = k @ [EvLoadToken h (Inl e)] \<and> errors_Is e ErrNotFound) \<or>
     (\<exists>k t. l = k @ [EvLoadToken h (Inr t)] \<and>
        \<not> (tIssuer t = rsURL iss \<and> tKind t \<noteq> TokenKindAuthorizationCode)) \<or>
     (\<exists>k t. l = k @ [EvLoadToken h (Inr t), EvRevokeGrant (tGrantID t) None] \<and>
        is_ascii (tGrantID t)) \<or>
     (\<exists>k t. l = k @ [EvLoadToken h (Inr t), EvRevokeToken h None])"

context storage_contract
begin

lemma serves_same:
  "serves I log s = Some s1 \<Longrightarrow> toks s1 h = Some t \<Longrightarrow> \<forall>ev \<in> set log. \<not> creates_token h ev \<Longrightarrow>
     \<exists>t0. toks s h = Some t0 \<and> same_token t0 t"
proof (induction log arbitrary: s)
  case (Cons ev log)
  then obtain s' where ev: "serve I ev s = Some s'" and log: "serves I log s' = Some s1"
    by (auto split: option.splits)
  obtain t1 where t1: "toks s' h = Some t1" "same_token t1 t"
    using Cons.IH [OF log Cons.prems(2)] Cons.prems(3) by auto
  have "\<not> creates_token h ev" using Cons.prems(3) by simp
  from tok_effect_same [OF serve_toks [OF ev] t1(1) this] t1(2) same_token_trans
  show ?case by blast
qed auto

text \<open>A token that is loaded was stored when the run began.\<close>

lemma loaded_was_stored:
  assumes "serves I log s = Some s1" and "EvLoadToken h (Inr t) \<in> set log"
    and "\<forall>ev \<in> set log. \<not> creates_token h ev"
  shows "\<exists>t0. toks s h = Some t0 \<and> same_token t0 t"
proof -
  obtain l m where log: "log = l @ EvLoadToken h (Inr t) # m"
    using split_list [OF assms(2)] by blast
  then obtain s2 s3 where s2: "serves I l s = Some s2"
      and ev: "serve I (EvLoadToken h (Inr t)) s2 = Some s3"
    using assms(1) by (auto simp: serves_append split: option.splits)
  have "toks s2 h = Some t" using tok_effect_yields [OF serve_toks [OF ev]] by simp
  then show ?thesis using serves_same [OF s2] assms(3) log by auto
qed

lemma revoke_token_gone: "serve I (EvRevokeToken h None) s = Some s1 \<Longrightarrow> toks s1 h = None"
  using serve_toks [of "EvRevokeToken h None" s s1] by auto

lemma not_found_gone:
  "serve I (EvLoadToken h (Inl e)) s = Some s1 \<Longrightarrow> errors_Is e ErrNotFound \<Longrightarrow> toks s1 h = None"
  using serve_toks [of "EvLoadToken h (Inl e)" s s1] by (auto simp: loads_def)

lemma loads_state: "serve I (EvLoadToken h (Inr t)) s = Some s1 \<Longrightarrow> toks s1 h = Some t"
  using serve_toks [of "EvLoadToken h (Inr t)" s s1] by (auto simp: loads_def)

lemma retired_unusable:
  assumes "retires iss h l" and "serves I (l @ m) s = Some s2"
    and "EvLoadToken h (Inr t) \<in> set m" and "\<forall>ev \<in> set m. \<not> creates_token h ev"
  shows "tIssuer t \<noteq> rsURL iss \<or> tKind t = TokenKindAuthorizationCode"
proof -
  obtain s1 where l: "serves I l s = Some s1" and m: "serves I m s1 = Some s2"
    using assms(2) by (auto simp: serves_append split: option.splits)
  obtain t1 where t1: "toks s1 h = Some t1" "same_token t1 t"
    using loaded_was_stored [OF m assms(3,4)] by blast
  show ?thesis
    using assms(1) unfolding retires_def
  proof (elim disjE exE conjE)
    fix k e assume "l = k @ [EvLoadToken h (Inl e)]" "errors_Is e ErrNotFound"
    with l t1 not_found_gone show ?thesis
      by (fastforce simp: serves_append split: option.splits)
  next
    fix k u assume u: "l = k @ [EvLoadToken h (Inr u)]"
      "\<not> (tIssuer u = rsURL iss \<and> tKind u \<noteq> TokenKindAuthorizationCode)"
    have "toks s1 h = Some u"
      using l u(1) loads_state by (auto simp: serves_append split: option.splits)
    with t1 have "same_token u t" by simp
    with u(2) show ?thesis using same_token_sel [of u t] by simp
  next
    fix k u assume u: "l = k @ [EvLoadToken h (Inr u), EvRevokeGrant (tGrantID u) None]"
      "is_ascii (tGrantID u)"
    then obtain s0 s' where s': "serve I (EvLoadToken h (Inr u)) s0 = Some s'"
        and g: "serve I (EvRevokeGrant (tGrantID u) None) s' = Some s1"
      using l by (auto simp: serves_append split: option.splits)
    obtain t0 where "toks s' h = Some t0" "same_token t0 t1"
      using tok_effect_same [OF serve_toks [OF g] t1(1)] by auto
    then have "tGrantID t1 = tGrantID u"
      using loads_state [OF s'] same_token_sel(3) by fastforce
    then show ?thesis
      using revoke_grant_gone [OF g u(2)] t1(1) by (auto simp: grant_gone_def)
  next
    fix k u assume "l = k @ [EvLoadToken h (Inr u), EvRevokeToken h None]"
    then show ?thesis
      using l t1(1) revoke_token_gone by (fastforce simp: serves_append split: option.splits)
  qed
qed

end

section \<open>The endpoint\<close>

text \<open>storage.go: revoking an unknown token or grant is not an error.\<close>

definition revokes_quietly :: "event list \<Rightarrow> bool" where
  "revokes_quietly log \<longleftrightarrow>
     (\<forall>ev \<in> set log. case ev of
        EvRevokeToken h (Some e) \<Rightarrow> \<not> errors_Is e ErrNotFound
      | EvRevokeGrant g (Some e) \<Rightarrow> \<not> errors_Is e ErrNotFound
      | _ \<Rightarrow> True)"

definition loads_ascii_grants :: "event list \<Rightarrow> bool" where
  "loads_ascii_grants log \<longleftrightarrow> (\<forall>h t. EvLoadToken h (Inr t) \<in> set log \<longrightarrow> is_ascii (tGrantID t))"

lemma revokePresented_retires:
  assumes "performs (revokePresented iss client token) log None"
    and "revokes_quietly log" and "loads_ascii_grants log"
  shows "retires iss (hashToken token) log"
proof -
  define fin where "fin = (\<lambda>e. case e of
             None \<Rightarrow> None
           | Some err \<Rightarrow> if errors_Is err ErrNotFound then None else Some (errServer err))"
  have fin: "fin e = None \<longleftrightarrow> (\<forall>err. e = Some err \<longrightarrow> errors_Is err ErrNotFound)" for e
    by (simp add: fin_def split: option.split)
  define nxt :: "goerr + Token \<Rightarrow> perror option prog" where "nxt = (\<lambda>x. case x of
          Inl err \<Rightarrow> Ret (fin (Some err))
        | Inr t \<Rightarrow>
            if tIssuer t \<noteq> rsURL iss \<or> tKind t = TokenKindAuthorizationCode then Ret None
            else if tClientID t \<noteq> cID client
            then Ret (Some (newError CodeUnauthorizedClient
                        ''the token was not issued to this client''))
            else if tKind t = TokenKindRefreshToken
            then bind (storage_RevokeGrant (tGrantID t)) (\<lambda>e. Ret (fin e))
            else bind (storage_RevokeToken (hashToken token)) (\<lambda>e. Ret (fin e)))"
  have "revokePresented iss client token = bind (storage_Token (hashToken token)) nxt"
    by (simp only: revokePresented_def Let_def fin_def nxt_def)
  with assms(1) obtain x m where log: "log = EvLoadToken (hashToken token) x # m"
      and m: "performs (nxt x) m None"
    by (auto simp: performs_bind)
  show ?thesis
  proof (cases x)
    case (Inl err)
    with m fin [of "Some err"] have "m = []" "errors_Is err ErrNotFound" by (auto simp: nxt_def)
    with log Inl show ?thesis by (auto simp: retires_def)
  next
    case (Inr t)
    then consider (other) "m = []" "tIssuer t \<noteq> rsURL iss \<or> tKind t = TokenKindAuthorizationCode"
      | (grant) e where "m = [EvRevokeGrant (tGrantID t) e]" "fin e = None"
      | (one) e where "m = [EvRevokeToken (hashToken token) e]" "fin e = None"
      using m by (auto simp: nxt_def performs_bind op_defs split: if_split_asm)
    then show ?thesis
    proof cases
      case other
      with log Inr show ?thesis by (auto simp: retires_def)
    next
      case grant
      then have "e = None" using assms(2) log fin [of e] by (cases e) (auto simp: revokes_quietly_def)
      with grant log Inr assms(3) show ?thesis
        by (auto simp: retires_def loads_ascii_grants_def)
    next
      case one
      then have "e = None" using assms(2) log fin [of e] by (cases e) (auto simp: revokes_quietly_def)
      with one log Inr show ?thesis by (auto simp: retires_def)
    qed
  qed
qed

lemma retires_append: "retires iss h l \<Longrightarrow> retires iss h (k @ l)"
  unfolding retires_def by (elim disjE exE conjE) (metis append.assoc)+

lemma writeTokenError_status:
  "wStatus w = None \<Longrightarrow> \<exists>n \<ge> 400. wStatus (WriteTokenError r e w) = Some n"
  using HTTPStatus_range [of "asProtocolError e"]
  by (auto simp: WriteTokenError_def Let_def token_error_body_ok [simplified])

lemma serveRevocation_success:
  assumes "performs (serveRevocation p fresh_writer r iss) log w" and "wStatus w = Some 200"
  obtains q client l m where "log = l @ m"
    and "performs (authenticatedForm p r iss) l (Inr (q, client))"
    and "performs (revokePresented iss client (params_get q ''token'')) m None"
proof -
  have bad: "w \<noteq> WriteTokenError r e fresh_writer" for e
    using writeTokenError_status [of fresh_writer r e] assms(2) by auto
  have "rMethod r = ''POST''"
    using assms by (auto simp: serveRevocation_def allowMethods_def split: if_split_asm)
  with assms(1) obtain l m x where log: "log = l @ m" "performs (authenticatedForm p r iss) l x"
      and m: "performs (case x of
              Inl perr \<Rightarrow> Ret (WriteTokenError r (EProto perr) fresh_writer)
            | Inr (q, client) \<Rightarrow>
                if params_get q ''token'' = []
                then Ret (WriteTokenError r (EProto (errInvalidRequest ''token is required'')) fresh_writer)
                else bind (revokePresented iss client (params_get q ''token'')) (\<lambda>e. Ret
                  (case e of
                     Some perr \<Rightarrow> WriteTokenError r (EProto perr) fresh_writer
                   | None \<Rightarrow> WriteHeader 200 (noStore fresh_writer)))) m w"
    by (auto simp: serveRevocation_def allowMethods_def elim: performs_bind_steps)
  obtain q client where x: "x = Inr (q, client)" using m bad by (cases x) auto
  then obtain e where e: "performs (revokePresented iss client (params_get q ''token'')) m e"
      "w = (case e of Some perr \<Rightarrow> WriteTokenError r (EProto perr) fresh_writer
             | None \<Rightarrow> WriteHeader 200 (noStore fresh_writer))"
    using m bad by (auto simp: performs_bind split: if_split_asm)
  then have "e = None" using bad by (cases e) auto
  with that log x e(1) show ?thesis by blast
qed

text \<open>The calls that revoke.\<close>

fun is_revocation :: "event \<Rightarrow> bool" where
  "is_revocation (EvRevokeToken h a) = True"
| "is_revocation (EvRevokeGrant g a) = True"
| "is_revocation _ = False"

lemma authenticatedForm_no_revocation:
  assumes "performs (authenticatedForm p r iss) log x"
  shows "\<forall>ev \<in> set log. \<not> is_revocation ev"
proof -
  have ops: "makes (\<lambda>_. True) (\<lambda>ev. \<not> is_revocation ev) provider_now"
    "\<And>k e. makes (\<lambda>_. True) (\<lambda>ev. \<not> is_revocation ev) (storage_ClaimOnce k e)"
    "\<And>i c. makes (\<lambda>_. True) (\<lambda>ev. \<not> is_revocation ev) (clients_Client i c)"
    by (simp_all add: op_defs)
  have "makes (\<lambda>_. True) (\<lambda>ev. \<not> is_revocation ev) (authenticatedForm p r iss)"
    unfolding authenticatedForm_def authenticateClient_def authenticateWithSecret_def
      lookupAuthenticatingClient_def verifyClientAssertion_def check_assertion_def claim_assertion_def
      provider_client_def
    by (intro makes_intros ops)
  then show ?thesis using assms by (rule makes_performs)
qed

lemma revokePresented_revokes:
  assumes "performs (revokePresented iss client token) log e" and "ev \<in> set log" and "is_revocation ev"
  obtains t a where "log = [EvLoadToken (hashToken token) (Inr t), ev]"
    and "tIssuer t = rsURL iss" and "tClientID t = cID client" and "tKind t \<noteq> TokenKindAuthorizationCode"
    and "ev = (if tKind t = TokenKindRefreshToken then EvRevokeGrant (tGrantID t) a
               else EvRevokeToken (hashToken token) a)"
proof -
  from assms(1) obtain x m where log: "log = EvLoadToken (hashToken token) x # m"
    and "m \<noteq> [] \<Longrightarrow> \<exists>t a. x = Inr t \<and> tIssuer t = rsURL iss \<and> tClientID t = cID client \<and>
       tKind t \<noteq> TokenKindAuthorizationCode \<and>
       m = [if tKind t = TokenKindRefreshToken then EvRevokeGrant (tGrantID t) a
            else EvRevokeToken (hashToken token) a]"
    by (auto simp: revokePresented_def Let_def performs_bind op_defs performs_cases simp del: performs_if)
  moreover have "m \<noteq> []" using assms(2,3) log by auto
  ultimately obtain t a where "x = Inr t" "tIssuer t = rsURL iss" "tClientID t = cID client"
      "tKind t \<noteq> TokenKindAuthorizationCode"
      and m: "m = [if tKind t = TokenKindRefreshToken then EvRevokeGrant (tGrantID t) a
            else EvRevokeToken (hashToken token) a]" by metis
  moreover have "m = [ev]" using assms(2,3) log m by auto
  ultimately show ?thesis using log m by (intro that [of t a]) simp_all
qed

lemma serveRevocation_revokes:
  assumes "performs (serveRevocation p w r iss) log w'" and "ev \<in> set log" and "is_revocation ev"
  obtains q client l m e where "log = l @ m"
    and "performs (authenticatedForm p r iss) l (Inr (q, client))"
    and "performs (revokePresented iss client (params_get q ''token'')) m e" and "ev \<in> set m"
proof -
  have "rMethod r = ''POST''"
    using assms(1,2) by (auto simp: serveRevocation_def allowMethods_def split: if_split_asm)
  with assms(1) obtain l m x where log: "log = l @ m" "performs (authenticatedForm p r iss) l x"
      and m: "performs (case x of
              Inl perr \<Rightarrow> Ret (WriteTokenError r (EProto perr) w)
            | Inr (q, client) \<Rightarrow>
                if params_get q ''token'' = []
                then Ret (WriteTokenError r (EProto (errInvalidRequest ''token is required'')) w)
                else bind (revokePresented iss client (params_get q ''token'')) (\<lambda>e. Ret
                  (case e of
                     Some perr \<Rightarrow> WriteTokenError r (EProto perr) w
                   | None \<Rightarrow> WriteHeader 200 (noStore w)))) m w'"
    by (auto simp: serveRevocation_def allowMethods_def elim: performs_bind_steps)
  have ev: "ev \<in> set m"
    using assms(2,3) log(1) authenticatedForm_no_revocation [OF log(2)] by auto
  then obtain q client where x: "x = Inr (q, client)" using m by (cases x) auto
  then obtain e where "performs (revokePresented iss client (params_get q ''token'')) m e"
    using m ev by (auto simp: performs_bind split: if_split_asm)
  with that log ev x show ?thesis by blast
qed

text \<open>C21. A client can revoke only its own tokens. If the revocation endpoint makes the storage revoke
  anything, the client of the request has proved its identity, the presented token was loaded and was
  issued to this client by this issuer; a refresh token takes its whole grant with it, an access token
  only itself, and an authorization code is left alone.\<close>

theorem revocation_own_tokens:
  assumes "performs (serveRevocation p w r iss) log w'" and "ev \<in> set log" and "is_revocation ev"
  shows "\<exists>q client l t a. parseForm r = Inr q \<and> authenticated_as p r iss q l client \<and>
     log = l @ [EvLoadToken (hashToken (params_get q ''token'')) (Inr t), ev] \<and>
     tIssuer t = rsURL iss \<and> tClientID t = cID client \<and> tKind t \<noteq> TokenKindAuthorizationCode \<and>
     ev = (if tKind t = TokenKindRefreshToken then EvRevokeGrant (tGrantID t) a
           else EvRevokeToken (hashToken (params_get q ''token'')) a)"
  using assms
proof (rule serveRevocation_revokes)
  fix q client l m e
  assume log: "log = l @ m" and form: "performs (authenticatedForm p r iss) l (Inr (q, client))"
    and m: "performs (revokePresented iss client (params_get q ''token'')) m e" "ev \<in> set m"
  obtain t a where t: "m = [EvLoadToken (hashToken (params_get q ''token'')) (Inr t), ev]"
    "tIssuer t = rsURL iss" "tClientID t = cID client" "tKind t \<noteq> TokenKindAuthorizationCode"
    "ev = (if tKind t = TokenKindRefreshToken then EvRevokeGrant (tGrantID t) a
           else EvRevokeToken (hashToken (params_get q ''token'')) a)"
    using revokePresented_revokes [OF m assms(3)] by metis
  show ?thesis
    by (rule exI [of _ q], rule exI [of _ client], rule exI [of _ l], rule exI [of _ t], rule exI [of _ a])
      (use authenticatedForm_Inr [OF form] log t in \<open>simp only: simp_thms\<close>)
qed

text \<open>C22. A revoked token stays revoked. Once the revocation endpoint has answered 200, the storage
  never again yields the presented token as an access or refresh token of this issuer, whatever
  requests follow: it was unknown, is an authorization code or another issuer's, or it was revoked --
  a refresh token with its grant. So it cannot be introspected, refreshed or used. The storage keeps
  its contract, and no other token is given the same value.\<close>

theorem revocation_effective:
  assumes "storage_contract I reqs toks claimed clock sr st"
    and "performs (serveRevocation p fresh_writer r iss) l w" and "wStatus w = Some 200"
    and "parseForm r = Inr q"
    and "revokes_quietly l" and "loads_ascii_grants l"
    and "serves I (l @ m) s = Some s'"
    and "\<forall>ev \<in> set m. \<not> creates_token (hashToken (params_get q ''token'')) ev"
    and "tIssuer t = rsURL iss" and "tKind t \<noteq> TokenKindAuthorizationCode"
  shows "EvLoadToken (hashToken (params_get q ''token'')) (Inr t) \<notin> set m"
proof
  assume load: "EvLoadToken (hashToken (params_get q ''token'')) (Inr t) \<in> set m"
  show False
    using assms(2,3)
  proof (rule serveRevocation_success)
    fix q' client l1 l2
    assume l: "l = l1 @ l2" and "performs (authenticatedForm p r iss) l1 (Inr (q', client))"
      and rv: "performs (revokePresented iss client (params_get q' ''token'')) l2 None"
    then have "q' = q" using authenticatedForm_Inr assms(4) by fastforce
    moreover have "revokes_quietly l2" "loads_ascii_grants l2"
      using assms(5,6) l by (auto simp: revokes_quietly_def loads_ascii_grants_def)
    ultimately have "retires iss (hashToken (params_get q ''token'')) l"
      using revokePresented_retires [OF rv] retires_append l by blast
    from storage_contract.retired_unusable [OF assms(1) this assms(7) load assms(8)] assms(9,10)
    show False by simp
  qed
qed

text \<open>The client of the sample deployment revokes an access token.\<close>

definition revoke_log :: "event list" where
  "revoke_log =
     [EvClient ''https://op.example'' ''app'' (Inr (Some sample_client)),
      EvLoadToken (hashToken (rnd_token 2)) (Inr sample_access),
      EvRevokeToken (hashToken (rnd_token 2)) None]"

definition revoked_log :: "event list" where
  "revoked_log = [EvLoadToken (hashToken (rnd_token 2)) (Inl ErrNotFound)]"

definition revoke_world :: "(string \<Rightarrow> Token option) \<Rightarrow> world" where
  "revoke_world m =
     \<lparr>wStore = store_New\<lparr>msClients := [(''https://op.example'', ''app'') \<mapsto> sample_client], msTokens := m\<rparr>,
      wNow = 12 * second, wTicks = [], wRandom = []\<rparr>"

lemma revoke_run:
  "performs (serveRevocation sample_p fresh_writer present_http sample_iss) revoke_log
     (WriteHeader 200 (noStore fresh_writer))"
proof -
  have m: "allowMethods present_http [''POST''] fresh_writer = None"
    by (simp add: allowMethods_def present_http_def sample_http_def)
  have c: "cID sample_client = ''app''" by (simp add: sample_client_def)
  have "performs (revokePresented sample_iss sample_client (rnd_token 2)) (tl revoke_log) None"
    by (simp add: revokePresented_def revoke_log_def run_log_simps Let_def c)
  from performs_bindI [OF this, of "\<lambda>e. Ret (case e of
      Some perr \<Rightarrow> WriteTokenError present_http (EProto perr) fresh_writer
    | None \<Rightarrow> WriteHeader 200 (noStore fresh_writer))" "[]"]
  have rest: "performs (bind (revokePresented sample_iss sample_client (rnd_token 2)) (\<lambda>e. Ret (case e of
      Some perr \<Rightarrow> WriteTokenError present_http (EProto perr) fresh_writer
    | None \<Rightarrow> WriteHeader 200 (noStore fresh_writer)))) (tl revoke_log)
    (WriteHeader 200 (noStore fresh_writer))"
    by simp
  have log: "revoke_log = [EvClient ''https://op.example'' ''app'' (Inr (Some sample_client))] @ tl revoke_log"
    by (simp add: revoke_log_def)
  show ?thesis
    unfolding serveRevocation_def m option.case
    by (subst log, rule performs_bindI [OF sample_authenticates])
      (use rest in \<open>simp add: params_get_def map_get_def\<close>)
qed

lemma revoke_serve:
  "m h = Some t \<Longrightarrow> clone_token t = t' \<Longrightarrow>
     serve mem (EvLoadToken h (Inr t')) (revoke_world m) = Some (revoke_world m)"
  "m h = None \<Longrightarrow> serve mem (EvLoadToken h (Inl ErrNotFound)) (revoke_world m) = Some (revoke_world m)"
  "serve mem (EvRevokeToken h None) (revoke_world m) = Some (revoke_world (m(h := None)))"
  "serve mem (EvClient ''https://op.example'' ''app'' (Inr (Some sample_client))) (revoke_world m) =
     Some (revoke_world m)"
  by (simp_all add: answered_def on_store_def revoke_world_def store_Token_def store_tokenLocked_def
      store_RevokeToken_def store_Client_def world_now_def clone_sample_client)

lemma serves_revoke:
  "serves mem (revoke_log @ revoked_log) (revoke_world [hashToken (rnd_token 2) \<mapsto> sample_access]) =
     Some (revoke_world Map.empty)"
  by (simp add: revoke_log_def revoked_log_def revoke_serve fun_upd_idem del: serve.simps)

theorem revocation_effective_witness:
  "EvLoadToken (hashToken (rnd_token 2)) (Inr sample_access) \<notin> set revoked_log"
proof -
  have "revokes_quietly revoke_log" "loads_ascii_grants revoke_log"
    by (auto simp: revokes_quietly_def loads_ascii_grants_def revoke_log_def is_ascii_def byte_def)
  moreover have "params_get \<lparr>pValues = [(''token'', rnd_token 2)], pRepeated = []\<rparr> ''token'' = rnd_token 2"
    by (simp add: params_get_def map_get_def)
  moreover have "\<forall>ev \<in> set revoked_log. \<not> creates_token (hashToken (rnd_token 2)) ev"
    by (simp add: revoked_log_def)
  ultimately show ?thesis
    using revocation_effective [OF memory.storage_contract_axioms revoke_run _ present_form _ _
        serves_revoke, of sample_access] by simp
qed

theorem revocation_own_tokens_witness:
  "\<exists>l t. revoke_log = l @ [EvLoadToken (hashToken (rnd_token 2)) (Inr t),
                            EvRevokeToken (hashToken (rnd_token 2)) None] \<and>
     tClientID t = ''app''"
proof -
  have "EvRevokeToken (hashToken (rnd_token 2)) None \<in> set revoke_log" by (simp add: revoke_log_def)
  from revocation_own_tokens [OF revoke_run this] show ?thesis
    by (auto simp: revoke_log_def append_eq_Cons_conv)
qed

end
