(* ===== verification/Grantor_Server.thy ===== *)
theory Grantor_Server
  imports Grantor_Authorize Grantor_Resource
begin

text \<open>
  discovery.go, and the routing of provider.go and endpoints.go: the metadata document, the keys of an
  issuer, and which endpoint serves a request. A response is written into the writer the server
  passes; logging is left out.
\<close>

section \<open>Metadata (discovery.go)\<close>

record metadata =
  mdIssuer :: string
  mdAuthorizationEndpoint :: string
  mdTokenEndpoint :: string
  mdUserInfoEndpoint :: string
  mdJWKSURI :: string
  mdIntrospectionEndpoint :: string
  mdRevocationEndpoint :: string
  mdScopesSupported :: "string list"
  mdResponseTypesSupported :: "string list"
  mdResponseModesSupported :: "string list"
  mdGrantTypesSupported :: "string list"
  mdSubjectTypesSupported :: "string list"
  mdIDTokenSigningAlgValuesSupported :: "string list"
  mdTokenEndpointAuthMethodsSupported :: "string list"
  mdTokenEndpointAuthSigningAlgValues :: "string list"
  mdIntrospectionEndpointAuthMethodsSupported :: "string list"
  mdIntrospectionEndpointAuthSigningAlgValues :: "string list"
  mdRevocationEndpointAuthMethodsSupported :: "string list"
  mdRevocationEndpointAuthSigningAlgValues :: "string list"
  mdCodeChallengeMethodsSupported :: "string list"
  mdClaimsSupported :: "string list"
  mdClaimTypesSupported :: "string list"
  mdClaimsParameterSupported :: bool
  mdRequestParameterSupported :: bool
  mdRequestURIParameterSupported :: bool
  mdPromptValuesSupported :: "string list"
  mdAuthorizationResponseIssParameterSupported :: bool
  mdPushedAuthorizationRequestEndpoint :: string
  mdRequirePushedAuthorizationRequests :: bool

definition json_list :: "string list \<Rightarrow> json" where
  "json_list ss = JArray (map JString ss)"

text \<open>The last two members are omitted when they are empty.\<close>

definition json_metadata :: "metadata \<Rightarrow> json" where
  "json_metadata m = JObject
     ([(''issuer'', JString (mdIssuer m)),
      (''authorization_endpoint'', JString (mdAuthorizationEndpoint m)),
      (''token_endpoint'', JString (mdTokenEndpoint m)),
      (''userinfo_endpoint'', JString (mdUserInfoEndpoint m)),
      (''jwks_uri'', JString (mdJWKSURI m)),
      (''introspection_endpoint'', JString (mdIntrospectionEndpoint m)),
      (''revocation_endpoint'', JString (mdRevocationEndpoint m)),
      (''scopes_supported'', json_list (mdScopesSupported m)),
      (''response_types_supported'', json_list (mdResponseTypesSupported m)),
      (''response_modes_supported'', json_list (mdResponseModesSupported m)),
      (''grant_types_supported'', json_list (mdGrantTypesSupported m)),
      (''subject_types_supported'', json_list (mdSubjectTypesSupported m)),
      (''id_token_signing_alg_values_supported'', json_list (mdIDTokenSigningAlgValuesSupported m)),
      (''token_endpoint_auth_methods_supported'', json_list (mdTokenEndpointAuthMethodsSupported m)),
      (''token_endpoint_auth_signing_alg_values_supported'', json_list (mdTokenEndpointAuthSigningAlgValues m)),
      (''introspection_endpoint_auth_methods_supported'', json_list (mdIntrospectionEndpointAuthMethodsSupported m)),
      (''introspection_endpoint_auth_signing_alg_values_supported'', json_list (mdIntrospectionEndpointAuthSigningAlgValues m)),
      (''revocation_endpoint_auth_methods_supported'', json_list (mdRevocationEndpointAuthMethodsSupported m)),
      (''revocation_endpoint_auth_signing_alg_values_supported'', json_list (mdRevocationEndpointAuthSigningAlgValues m)),
      (''code_challenge_methods_supported'', json_list (mdCodeChallengeMethodsSupported m)),
      (''claims_supported'', json_list (mdClaimsSupported m)),
      (''claim_types_supported'', json_list (mdClaimTypesSupported m)),
      (''claims_parameter_supported'', JBool (mdClaimsParameterSupported m)),
      (''request_parameter_supported'', JBool (mdRequestParameterSupported m)),
      (''request_uri_parameter_supported'', JBool (mdRequestURIParameterSupported m)),
      (''prompt_values_supported'', json_list (mdPromptValuesSupported m)),
      (''authorization_response_iss_parameter_supported'', JBool (mdAuthorizationResponseIssParameterSupported m))]
      @ json_opt ''pushed_authorization_request_endpoint'' (mdPushedAuthorizationRequestEndpoint m)
      @ (if mdRequirePushedAuthorizationRequests m
         then [(''require_pushed_authorization_requests'', JBool True)] else []))"

definition supportedGrantTypes :: "Config \<Rightarrow> string list" where
  "supportedGrantTypes cfg =
     [GrantTypeAuthorizationCode, GrantTypeRefreshToken, GrantTypeClientCredentials]
     @ sort (map fst (cfGrants cfg))"

definition secret_methods :: "AuthMethod list" where
  "secret_methods =
     [AuthMethodClientSecretBasic, AuthMethodClientSecretPost, AuthMethodPrivateKeyJWT]"

definition all_methods :: "AuthMethod list" where
  "all_methods = secret_methods @ [AuthMethodNone]"

definition provider_metadata :: "Provider \<Rightarrow> resolvedIssuer \<Rightarrow> metadata" where
  "provider_metadata p iss =
     (let e = cfEndpoints (pvCfg p); par = (cfPAR (pvCfg p) \<noteq> PARDisabled) in
      \<lparr>mdIssuer = rsURL iss,
         mdAuthorizationEndpoint = issuer_endpoint iss (epAuthorization e),
         mdTokenEndpoint = issuer_endpoint iss (epToken e),
         mdUserInfoEndpoint = issuer_endpoint iss (epUserInfo e),
         mdJWKSURI = issuer_endpoint iss (epJWKS e),
         mdIntrospectionEndpoint = issuer_endpoint iss (epIntrospection e),
         mdRevocationEndpoint = issuer_endpoint iss (epRevocation e),
         mdScopesSupported = provider_supportedScopes (pvCfg p),
         mdResponseTypesSupported = [''code''],
         mdResponseModesSupported = [responseModeQuery, responseModeFragment, responseModeFormPost],
         mdGrantTypesSupported = supportedGrantTypes (pvCfg p),
         mdSubjectTypesSupported = [''public''],
         mdIDTokenSigningAlgValuesSupported = keySet_algorithms (rsKeys iss),
         mdTokenEndpointAuthMethodsSupported = all_methods,
         mdTokenEndpointAuthSigningAlgValues = assertionAlgorithms,
         mdIntrospectionEndpointAuthMethodsSupported = secret_methods,
         mdIntrospectionEndpointAuthSigningAlgValues = assertionAlgorithms,
         mdRevocationEndpointAuthMethodsSupported = all_methods,
         mdRevocationEndpointAuthSigningAlgValues = assertionAlgorithms,
         mdCodeChallengeMethodsSupported = [''S256''],
         mdClaimsSupported = provider_supportedClaims (pvCfg p),
         mdClaimTypesSupported = [''normal''],
         mdClaimsParameterSupported = True,
         mdRequestParameterSupported = False,
         mdRequestURIParameterSupported = False,
         mdPromptValuesSupported = [''none'', ''login'', ''consent'', ''select_account''],
         mdAuthorizationResponseIssParameterSupported = True,
         mdPushedAuthorizationRequestEndpoint = (if par then issuer_endpoint iss (epPushedAuthorization e) else []),
         mdRequirePushedAuthorizationRequests = (par \<and> cfPAR (pvCfg p) = PARRequired)\<rparr>)"

definition serveDiscovery ::
  "Provider \<Rightarrow> ResponseWriter \<Rightarrow> Request \<Rightarrow> resolvedIssuer \<Rightarrow> ResponseWriter prog" where
  "serveDiscovery p w r iss =
     (case allowMethods r [''GET'', ''HEAD''] w of
        Some w \<Rightarrow> Ret w
      | None \<Rightarrow>
          Ret (writeJSON 200 (json_metadata (provider_metadata p iss))
                (header_Set ''Cache-Control'' ''public, max-age=300''
                  (header_Set ''Access-Control-Allow-Origin'' ''*'' w))))"

definition serveJWKS ::
  "Provider \<Rightarrow> ResponseWriter \<Rightarrow> Request \<Rightarrow> resolvedIssuer \<Rightarrow> ResponseWriter prog" where
  "serveJWKS p w r iss =
     (case allowMethods r [''GET'', ''HEAD''] w of
        Some w \<Rightarrow> Ret w
      | None \<Rightarrow>
          Ret (case keySet_publicJWKS (pvJose p) (rsKeys iss) of
                 Inl err \<Rightarrow> http_Error ''internal error'' 500 w
               | Inr body \<Rightarrow>
                   writer_Write (BodyBytes body)
                     (WriteHeader 200
                       (header_Set ''X-Content-Type-Options'' ''nosniff''
                         (header_Set ''Cache-Control'' ''public, max-age=300''
                           (header_Set ''Access-Control-Allow-Origin'' ''*''
                             (header_Set ''Content-Type'' ''application/jwk-set+json'' w)))))))"

section \<open>Routing (provider.go)\<close>

definition PathAuthorizationServerMetadata :: string where
  "PathAuthorizationServerMetadata = ''/.well-known/oauth-authorization-server''"

definition PathOpenIDConfiguration :: string where
  "PathOpenIDConfiguration = ''/.well-known/openid-configuration''"

definition route ::
  "Provider \<Rightarrow> ResponseWriter \<Rightarrow> Request \<Rightarrow> resolvedIssuer \<Rightarrow> ResponseWriter prog" where
  "route p w r iss =
     (let path = rEscapedPath r in
      if path = PathAuthorizationServerMetadata @ rsBasePath iss then serveDiscovery p w r iss
      else (case strings_CutPrefix path (rsBasePath iss) of
        None \<Rightarrow> Ret (http_NotFound w)
      | Some rel \<Rightarrow>
          (let e = cfEndpoints (pvCfg p) in
           if cfPAR (pvCfg p) \<noteq> PARDisabled \<and> rel = epPushedAuthorization e
           then servePushedAuthorization p w r iss
           else if rel = epAuthorization e then serveAuthorization p w r iss
           else if rel = epToken e then serveToken p w r iss
           else if rel = epUserInfo e then serveUserInfo p w r iss
           else if rel = epIntrospection e then serveIntrospection p w r iss
           else if rel = epRevocation e then serveRevocation p w r iss
           else if rel = epJWKS e then serveJWKS p w r iss
           else if rel = PathOpenIDConfiguration then serveDiscovery p w r iss
           else Ret (http_NotFound w))))"

definition ServeHTTP :: "Provider \<Rightarrow> ResponseWriter \<Rightarrow> Request \<Rightarrow> ResponseWriter prog" where
  "ServeHTTP p w r = withIssuer p w r False (route p)"

section \<open>The endpoints on their own (endpoints.go)\<close>

definition ServeAuthorization :: "Provider \<Rightarrow> ResponseWriter \<Rightarrow> Request \<Rightarrow> ResponseWriter prog" where
  "ServeAuthorization p w r = withIssuer p w r False (serveAuthorization p)"

definition ServeToken :: "Provider \<Rightarrow> ResponseWriter \<Rightarrow> Request \<Rightarrow> ResponseWriter prog" where
  "ServeToken p w r = withIssuer p w r True (serveToken p)"

definition ServeUserInfo :: "Provider \<Rightarrow> ResponseWriter \<Rightarrow> Request \<Rightarrow> ResponseWriter prog" where
  "ServeUserInfo p w r = withIssuer p w r True (serveUserInfo p)"

definition ServeIntrospection :: "Provider \<Rightarrow> ResponseWriter \<Rightarrow> Request \<Rightarrow> ResponseWriter prog" where
  "ServeIntrospection p w r = withIssuer p w r True (serveIntrospection p)"

definition ServeRevocation :: "Provider \<Rightarrow> ResponseWriter \<Rightarrow> Request \<Rightarrow> ResponseWriter prog" where
  "ServeRevocation p w r = withIssuer p w r True (serveRevocation p)"

definition ServeJWKS :: "Provider \<Rightarrow> ResponseWriter \<Rightarrow> Request \<Rightarrow> ResponseWriter prog" where
  "ServeJWKS p w r = withIssuer p w r False (serveJWKS p)"

definition ServeDiscovery :: "Provider \<Rightarrow> ResponseWriter \<Rightarrow> Request \<Rightarrow> ResponseWriter prog" where
  "ServeDiscovery p w r = withIssuer p w r False (serveDiscovery p)"

end
