(* ===== verification/Grantor_ServerProps.thy ===== *)
theory Grantor_ServerProps
  imports Grantor_Server Grantor_ResourceProps
begin

text \<open>
  The properties of the provider as an HTTP handler: which handler serves a path, that the metadata
  document describes it, and that every request is answered.
\<close>

section \<open>Routing\<close>

type_synonym handler =
  "Provider \<Rightarrow> ResponseWriter \<Rightarrow> Request \<Rightarrow> resolvedIssuer \<Rightarrow> ResponseWriter prog"

text \<open>What the configuration promises: a handler for each path below the issuer.\<close>

definition endpoint_table :: "Config \<Rightarrow> (string \<times> handler) list" where
  "endpoint_table cfg =
     (let e = cfEndpoints cfg in
      [(epAuthorization e, serveAuthorization), (epToken e, serveToken), (epUserInfo e, serveUserInfo),
       (epIntrospection e, serveIntrospection), (epRevocation e, serveRevocation),
       (epJWKS e, serveJWKS)]
      @ (if cfPAR cfg \<noteq> PARDisabled then [(epPushedAuthorization e, servePushedAuthorization)] else [])
      @ [(PathOpenIDConfiguration, serveDiscovery)])"

lemma endpoint_table_paths:
  "map fst (endpoint_table cfg) =
     Endpoints_paths (cfEndpoints cfg) (cfPAR cfg \<noteq> PARDisabled) @ [PathOpenIDConfiguration]"
  by (simp add: endpoint_table_def Endpoints_paths_def Let_def)

lemma distinct_endpoints:
  assumes "config_ok cfg"
  shows "distinct (map fst (endpoint_table cfg))"
proof -
  have "\<not> path_ok PathOpenIDConfiguration"
    by (simp add: path_ok_def PathOpenIDConfiguration_def strings_HasPrefix_def)
  with assms show ?thesis
    by (auto simp: endpoint_table_paths config_ok_def)
qed

text \<open>The chain of comparisons in \<^verbatim>\<open>route\<close> finds the same handler as the table.\<close>

lemma table_step:
  "(case map_of ((a, h) # xs) k of Some g \<Rightarrow> f g | None \<Rightarrow> n) =
     (if k = a then f h else case map_of xs k of Some g \<Rightarrow> f g | None \<Rightarrow> n)"
  "(case map_of [] k of Some g \<Rightarrow> f g | None \<Rightarrow> n) = n"
  by simp_all

definition table_lookup :: "Provider \<Rightarrow> ResponseWriter \<Rightarrow> Request \<Rightarrow> resolvedIssuer \<Rightarrow> string \<Rightarrow> ResponseWriter prog"
  where "table_lookup p w r iss rel =
     (case map_of (endpoint_table (pvCfg p)) rel of
        Some h \<Rightarrow> h p w r iss
      | None \<Rightarrow> Ret (http_NotFound w))"

lemma table_lookup_in:
  assumes "config_ok (pvCfg p)" and "(path, h) \<in> set (endpoint_table (pvCfg p))"
  shows "table_lookup p w r iss path = h p w r iss"
  using map_of_is_SomeI [OF distinct_endpoints [OF assms(1)] assms(2)]
  by (simp add: table_lookup_def)

lemma table_lookup_chain:
  assumes "config_ok (pvCfg p)"
  shows "table_lookup p w r iss rel =
     (let e = cfEndpoints (pvCfg p) in
      if cfPAR (pvCfg p) \<noteq> PARDisabled \<and> rel = epPushedAuthorization e
      then servePushedAuthorization p w r iss
      else if rel = epAuthorization e then serveAuthorization p w r iss
      else if rel = epToken e then serveToken p w r iss
      else if rel = epUserInfo e then serveUserInfo p w r iss
      else if rel = epIntrospection e then serveIntrospection p w r iss
      else if rel = epRevocation e then serveRevocation p w r iss
      else if rel = epJWKS e then serveJWKS p w r iss
      else if rel = PathOpenIDConfiguration then serveDiscovery p w r iss
      else Ret (http_NotFound w))"
proof (cases "cfPAR (pvCfg p) \<noteq> PARDisabled \<and> rel = epPushedAuthorization (cfEndpoints (pvCfg p))")
  case True
  then have "(rel, servePushedAuthorization) \<in> set (endpoint_table (pvCfg p))"
    by (simp add: endpoint_table_def Let_def)
  from table_lookup_in [OF assms this] True show ?thesis by (simp only: Let_def if_P simp_thms)
next
  case False
  show ?thesis
  proof (cases "cfPAR (pvCfg p) \<noteq> PARDisabled")
    case True
    with False have "rel \<noteq> epPushedAuthorization (cfEndpoints (pvCfg p))" by simp
    with True show ?thesis
      by (simp only: table_lookup_def endpoint_table_def Let_def append_Cons append_Nil table_step
          if_P if_False not_False_eq_True simp_thms)
  next
    case par: False
    then show ?thesis
      by (simp only: table_lookup_def endpoint_table_def Let_def append_Cons append_Nil table_step
          if_False if_True simp_thms)
  qed
qed

lemma route_lookup:
  assumes "config_ok (pvCfg p)" and "rEscapedPath r \<noteq> PathAuthorizationServerMetadata @ rsBasePath iss"
  shows "route p w r iss =
     (case strings_CutPrefix (rEscapedPath r) (rsBasePath iss) of
        None \<Rightarrow> Ret (http_NotFound w)
      | Some rel \<Rightarrow> table_lookup p w r iss rel)"
  using assms(2) by (simp only: route_def Let_def table_lookup_chain [OF assms(1)] if_False)

text \<open>The two well-known paths start and end with a slash apart from each other, so an endpoint below
  an issuer whose path does not begin with \<^verbatim>\<open>/.well-known\<close> is never taken for the metadata.\<close>

lemma well_known_slashes:
  assumes "PathAuthorizationServerMetadata = pre @ CHR ''/'' # rest"
  shows "pre = [] \<or> pre = ''/.well-known''"
proof -
  have "\<forall>n \<in> set [0..<39]. PathAuthorizationServerMetadata ! n = CHR ''/'' \<longrightarrow> n = 0 \<or> n = 12"
    unfolding PathAuthorizationServerMetadata_def by code_simp
  moreover have "length pre < 39"
    using arg_cong [OF assms, of length] by (simp add: PathAuthorizationServerMetadata_def)
  moreover have "PathAuthorizationServerMetadata ! length pre = CHR ''/''"
    by (simp add: assms)
  ultimately have "length pre = 0 \<or> length pre = 12" by auto
  moreover have "pre = take (length pre) PathAuthorizationServerMetadata" by (simp add: assms)
  ultimately show ?thesis
    by (elim disjE) (simp_all add: PathAuthorizationServerMetadata_def)
qed

lemma endpoint_not_metadata:
  assumes "path_ok path \<or> path = PathOpenIDConfiguration"
    and "\<not> strings_HasPrefix base ''/.well-known''"
  shows "base @ path \<noteq> PathAuthorizationServerMetadata @ base"
proof
  assume eq: "base @ path = PathAuthorizationServerMetadata @ base"
  obtain rest where path: "path = CHR ''/'' # rest"
    using assms(1) by (auto simp: path_ok_def HasPrefix_iff PathOpenIDConfiguration_def)
  from eq [symmetric] consider us where "base = PathAuthorizationServerMetadata @ us"
    | us where "PathAuthorizationServerMetadata = base @ us" "path = us @ base"
    by (auto simp: append_eq_append_conv2)
  then show False
  proof cases
    case 1
    then show False
      using assms(2) by (simp add: strings_HasPrefix_def PathAuthorizationServerMetadata_def)
  next
    case (2 us)
    show False
    proof (cases us)
      case Nil
      with 2(1) have "base = PathAuthorizationServerMetadata" by simp
      with assms(2) show False
        by (simp add: strings_HasPrefix_def PathAuthorizationServerMetadata_def)
    next
      case (Cons u us')
      with 2 path have "PathAuthorizationServerMetadata = base @ CHR ''/'' # us'" by simp
      from well_known_slashes [OF this] assms(2) have "base = []"
        by (auto simp: strings_HasPrefix_def)
      with 2 have "path = PathAuthorizationServerMetadata" by simp
      with assms(1) show False
        by (simp add: path_ok_def strings_HasPrefix_def PathAuthorizationServerMetadata_def
            PathOpenIDConfiguration_def)
    qed
  qed
qed

lemma table_paths_ok:
  assumes "config_ok cfg" and "(path, h) \<in> set (endpoint_table cfg)"
  shows "path_ok path \<or> path = PathOpenIDConfiguration"
proof -
  have "path \<in> set (map fst (endpoint_table cfg))" using assms(2) by force
  with assms(1) show ?thesis by (auto simp: endpoint_table_paths config_ok_def)
qed

lemma route_endpoint:
  assumes "config_ok (pvCfg p)" and "(path, h) \<in> set (endpoint_table (pvCfg p))"
    and "rEscapedPath r = rsBasePath iss @ path"
    and "\<not> strings_HasPrefix (rsBasePath iss) ''/.well-known''"
  shows "route p w r iss = h p w r iss"
proof -
  have "rEscapedPath r \<noteq> PathAuthorizationServerMetadata @ rsBasePath iss"
    using endpoint_not_metadata [OF table_paths_ok [OF assms(1,2)] assms(4)] assms(3) by simp
  from route_lookup [OF assms(1) this] show ?thesis
    using assms(3) table_lookup_in [OF assms(1,2)]
    by (simp add: CutPrefix_Some [THEN iffD2, OF refl])
qed

text \<open>C24. Every request reaches the endpoint its path names, and no other. For a provider that New
  returned, a path below the issuer goes to the handler the configuration gives it, the metadata path
  of RFC 8414 to the metadata, and every other path to 404 Not Found. An issuer path that begins with
  /.well-known is left out: there, a configured endpoint may coincide with the metadata path.\<close>

theorem endpoints_routed:
  assumes "provider_ok p" and "provider_issuerFor p r = Inr iss"
    and "\<not> strings_HasPrefix (rsBasePath iss) ''/.well-known''"
  shows "(\<forall>(path, h) \<in> set (endpoint_table (pvCfg p)).
            rEscapedPath r = rsBasePath iss @ path \<longrightarrow> ServeHTTP p w r = h p w r iss) \<and>
         (rEscapedPath r = PathAuthorizationServerMetadata @ rsBasePath iss \<longrightarrow>
            ServeHTTP p w r = serveDiscovery p w r iss) \<and>
         (rEscapedPath r \<noteq> PathAuthorizationServerMetadata @ rsBasePath iss \<and>
          (\<forall>(path, h) \<in> set (endpoint_table (pvCfg p)). rEscapedPath r \<noteq> rsBasePath iss @ path) \<longrightarrow>
            ServeHTTP p w r = Ret (http_NotFound w))"
proof (intro conjI impI)
  have cfg: "config_ok (pvCfg p)" using assms(1) by (simp add: provider_ok_def)
  have serve: "ServeHTTP p w r = route p w r iss"
    by (simp add: ServeHTTP_def withIssuer_def assms(2))
  show "\<forall>(path, h) \<in> set (endpoint_table (pvCfg p)).
           rEscapedPath r = rsBasePath iss @ path \<longrightarrow> ServeHTTP p w r = h p w r iss"
    using route_endpoint [OF cfg _ _ assms(3)] serve by auto
  show "ServeHTTP p w r = serveDiscovery p w r iss"
    if "rEscapedPath r = PathAuthorizationServerMetadata @ rsBasePath iss"
    using that serve by (simp add: route_def)
  assume a: "rEscapedPath r \<noteq> PathAuthorizationServerMetadata @ rsBasePath iss \<and>
    (\<forall>(path, h) \<in> set (endpoint_table (pvCfg p)). rEscapedPath r \<noteq> rsBasePath iss @ path)"
  note look = route_lookup [OF cfg conjunct1 [OF a]]
  show "ServeHTTP p w r = Ret (http_NotFound w)"
  proof (cases "strings_CutPrefix (rEscapedPath r) (rsBasePath iss)")
    case None
    then show ?thesis by (simp add: serve look)
  next
    case (Some rel)
    then have "rel \<notin> fst ` set (endpoint_table (pvCfg p))"
      using a by (auto simp: CutPrefix_Some)
    then have "map_of (endpoint_table (pvCfg p)) rel = None" by (simp add: map_of_eq_None_iff)
    then show ?thesis by (simp add: serve look Some table_lookup_def)
  qed
qed

section \<open>A deployment that New accepts\<close>

definition server_cfg :: Config where
  "server_cfg = sample_cfg\<lparr>cfIssuer := Some \<lparr>isURL = ''https://op.example'',
     isKeys = [\<lparr>skID = ''k1'', skSigner = Some (Signer 0 (RSAPublicKey (2 ^ 2047))), skAlgorithm = []\<rparr>]\<rparr>\<rparr>"

definition server_p :: Provider where
  "server_p = \<lparr>pvCfg = New_defaults server_cfg, pvStatic = Some sample_iss, pvJose = sample_jose\<rparr>"

lemma bit_length_power: "bit_length (2 ^ k) = Suc k"
proof (induction k)
  case 0
  show ?case by (simp add: bit_length.simps)
next
  case (Suc k)
  have "bit_length (2 ^ Suc k) = Suc (bit_length (2 ^ Suc k div 2))"
    by (subst bit_length.simps) simp
  with Suc show ?case by simp
qed

lemma server_key:
  "newKeySet [\<lparr>skID = ''k1'', skSigner = Some (Signer 0 (RSAPublicKey (2 ^ 2047))), skAlgorithm = []\<rparr>] =
     Inr \<lparr>ksKeys = [sample_key]\<rparr>"
  using bit_length_power [of 2047]
  by (simp add: newKeySet_def SigningKey_algorithm_def keySet_forAlg_def sample_key_def Let_def
      del: power_numeral)

lemma server_issuer:
  "resolveIssuer \<lparr>isURL = ''https://op.example'',
     isKeys = [\<lparr>skID = ''k1'', skSigner = Some (Signer 0 (RSAPublicKey (2 ^ 2047))), skAlgorithm = []\<rparr>]\<rparr> =
     Inr sample_iss"
proof -
  obtain u where u: "url_Parse ''https://op.example'' = Some u" "uScheme u = ''https''"
    "uHost u = ''op.example''" "uRawQuery u = []" "uFragment u = []" "\<not> uUser u" "url_EscapedPath u = []"
  proof -
    have "case url_Parse ''https://op.example'' of None \<Rightarrow> False
      | Some u \<Rightarrow> uScheme u = ''https'' \<and> uHost u = ''op.example'' \<and> uRawQuery u = [] \<and> uFragment u = []
          \<and> \<not> uUser u \<and> url_EscapedPath u = []" by code_simp
    then show ?thesis by (auto intro: that split: option.splits)
  qed
  show ?thesis
    by (simp add: resolveIssuer_def u server_key strings_HasSuffix_def sample_iss_def
        del: power_numeral)
qed

lemma server_defaults: "New_defaults server_cfg = server_cfg\<lparr>cfErrorPage := Some defaultErrorPage\<rparr>"
  by (simp add: New_defaults_def server_cfg_def sample_cfg_def Endpoints_setDefaults_def default_path_def
      sample_endpoints_def defaultLifetimes_def setDefault_def sample_lifetimes_def second_def minute_def
      hour_def del: power_numeral)

lemma server_cfg_sel [simp]:
  "cfIssuerFor server_cfg = None" "cfClientsSet server_cfg" "cfStorageSet server_cfg"
  "cfScopeClaims server_cfg = []" "cfGrants server_cfg = []" "cfAccessTokenFormats server_cfg = []"
  "cfIssuer server_cfg = Some \<lparr>isURL = ''https://op.example'',
     isKeys = [\<lparr>skID = ''k1'', skSigner = Some (Signer 0 (RSAPublicKey (2 ^ 2047))), skAlgorithm = []\<rparr>]\<rparr>"
  "cfEndpoints server_cfg = sample_endpoints" "cfPAR server_cfg = PARAllowed"
  "cfLifetimes server_cfg = sample_lifetimes" "cfInteract server_cfg = None"
  "cfAccessTokenFormat server_cfg = AccessTokenFormatOpaque"
  by (simp_all add: server_cfg_def sample_cfg_def del: power_numeral)

lemma server_checks: "New_checks (New_defaults server_cfg) = None"
proof -
  have "Endpoints_validate True sample_endpoints = None"
    unfolding sample_endpoints_def by code_simp
  then show ?thesis
    by (simp add: New_checks_None server_defaults provider_knownFormat_def validLifetime_def
        sample_lifetimes_def second_def minute_def hour_def)
qed

lemma server_new: "provider_New sample_jose server_cfg = Inr server_p"
proof -
  have "cfIssuer (New_defaults server_cfg) = cfIssuer server_cfg" by simp
  then show ?thesis
    by (simp add: provider_New_def server_checks server_issuer server_p_def Let_def first_error_None
        del: power_numeral)
qed

lemma server_ok: "provider_ok server_p"
  by (rule provider_New_ok [OF server_new])

text \<open>C23. Every provider New returns has a configuration its handlers can rely on: distinct endpoint
  paths outside /.well-known, known values of the PAR policy and token formats, positive lifetimes
  with whole seconds for tokens, custom grants and formats that neither lack a function nor redefine
  the built-in ones, and, with a static issuer, an https URL -- or http to a loopback host -- with
  distinct key IDs, keys fit for their algorithm, and one for RS256.\<close>

theorem new_provider_valid:
  assumes "provider_New J cfg = Inr p"
  shows "provider_ok p"
  using assms by (rule provider_New_ok)

theorem new_provider_valid_witness: "provider_ok server_p"
  by (rule new_provider_valid [OF server_new])

definition server_http :: Request where
  "server_http = sample_http\<lparr>rMethod := ''POST'', rEscapedPath := ''/token''\<rparr>"

lemma server_issuer_for: "provider_issuerFor server_p r = Inr sample_iss"
  by (simp add: provider_issuerFor_def server_p_def)

lemma server_base: "\<not> strings_HasPrefix (rsBasePath sample_iss) ''/.well-known''"
  by (simp add: sample_iss_def strings_HasPrefix_def)

lemma server_endpoints: "cfEndpoints (pvCfg server_p) = sample_endpoints"
  by (simp add: server_p_def server_defaults)

theorem endpoints_routed_witness:
  "ServeHTTP server_p fresh_writer server_http = serveToken server_p fresh_writer server_http sample_iss"
proof -
  have "(''/token'', serveToken) \<in> set (endpoint_table (pvCfg server_p))"
    by (simp add: endpoint_table_def server_endpoints sample_endpoints_def Let_def)
  moreover have "rEscapedPath server_http = rsBasePath sample_iss @ ''/token''"
    by (simp add: server_http_def sample_iss_def)
  ultimately show ?thesis
    using endpoints_routed [OF server_ok server_issuer_for server_base] by blast
qed

text \<open>The issuer path left out above: New takes the token endpoint, and the server answers its path with
  the metadata.\<close>

lemma metadata_shadows_endpoint:
  "Endpoints_validate True (sample_endpoints\<lparr>epToken := ''/oauth-authorization-server/.well-known''\<rparr>) = None"
  "rsBasePath iss = ''/.well-known'' \<Longrightarrow>
     rEscapedPath r = rsBasePath iss @ ''/oauth-authorization-server/.well-known'' \<Longrightarrow>
     route p w r iss = serveDiscovery p w r iss"
   apply code_simp
  apply (simp add: route_def PathAuthorizationServerMetadata_def)
  done

section \<open>The metadata document\<close>

text \<open>The endpoints a client finds in the document, and what it expects behind them.\<close>

definition published :: "metadata \<Rightarrow> (string \<times> handler) list" where
  "published m =
     [(mdAuthorizationEndpoint m, serveAuthorization), (mdTokenEndpoint m, serveToken),
      (mdUserInfoEndpoint m, serveUserInfo), (mdJWKSURI m, serveJWKS),
      (mdIntrospectionEndpoint m, serveIntrospection), (mdRevocationEndpoint m, serveRevocation)]
     @ (if mdPushedAuthorizationRequestEndpoint m = [] then []
        else [(mdPushedAuthorizationRequestEndpoint m, servePushedAuthorization)])"

lemma published_table:
  assumes "(url, h) \<in> set (published (provider_metadata p iss))"
  shows "\<exists>path. url = rsURL iss @ path \<and> (path, h) \<in> set (endpoint_table (pvCfg p))"
  using assms
  by (auto simp: published_def provider_metadata_def issuer_endpoint_def endpoint_table_def Let_def
      split: if_splits)

text \<open>C25. The metadata document tells the truth about the server: an endpoint it publishes is the
  issuer's URL followed by a path, and a request for that path reaches the handler of that endpoint.
  The pushed authorization request endpoint is published exactly when the provider has one, and
  declared required exactly when every client must use it.\<close>

theorem discovery_matches_routing:
  assumes "provider_ok p" and "provider_issuerFor p r = Inr iss"
    and "\<not> strings_HasPrefix (rsBasePath iss) ''/.well-known''"
    and "(url, h) \<in> set (published (provider_metadata p iss))"
  shows "\<exists>path. url = mdIssuer (provider_metadata p iss) @ path \<and>
     (rEscapedPath r = rsBasePath iss @ path \<longrightarrow> ServeHTTP p w r = h p w r iss) \<and>
     (mdRequirePushedAuthorizationRequests (provider_metadata p iss) \<longleftrightarrow>
        cfPAR (pvCfg p) = PARRequired) \<and>
     (mdPushedAuthorizationRequestEndpoint (provider_metadata p iss) = [] \<longleftrightarrow>
        cfPAR (pvCfg p) = PARDisabled)"
proof -
  obtain path where path: "url = rsURL iss @ path" "(path, h) \<in> set (endpoint_table (pvCfg p))"
    using published_table [OF assms(4)] by blast
  have cfg: "config_ok (pvCfg p)" using assms(1) by (simp add: provider_ok_def)
  have "cfPAR (pvCfg p) \<noteq> PARDisabled \<Longrightarrow> path_ok (epPushedAuthorization (cfEndpoints (pvCfg p)))"
    using cfg by (simp add: config_ok_def Endpoints_paths_def)
  then have "cfPAR (pvCfg p) \<noteq> PARDisabled \<Longrightarrow> epPushedAuthorization (cfEndpoints (pvCfg p)) \<noteq> []"
    by (auto simp: path_ok_def HasPrefix_iff)
  then have par: "mdPushedAuthorizationRequestEndpoint (provider_metadata p iss) = [] \<longleftrightarrow>
      cfPAR (pvCfg p) = PARDisabled"
    by (auto simp: provider_metadata_def issuer_endpoint_def Let_def)
  have req: "mdRequirePushedAuthorizationRequests (provider_metadata p iss) \<longleftrightarrow>
      cfPAR (pvCfg p) = PARRequired"
    by (auto simp: provider_metadata_def Let_def)
  have iss: "mdIssuer (provider_metadata p iss) = rsURL iss"
    by (simp add: provider_metadata_def Let_def)
  have "ServeHTTP p w r = h p w r iss" if "rEscapedPath r = rsBasePath iss @ path"
    using route_endpoint [OF cfg path(2) that assms(3)]
    by (simp add: ServeHTTP_def withIssuer_def assms(2))
  with path(1) par req iss show ?thesis by (intro exI [of _ path]) simp
qed

theorem discovery_matches_routing_witness:
  "\<exists>path. ''https://op.example/token'' = mdIssuer (provider_metadata server_p sample_iss) @ path"
proof -
  have "(''https://op.example/token'', serveToken) \<in> set (published (provider_metadata server_p sample_iss))"
    by (simp add: published_def provider_metadata_def issuer_endpoint_def server_endpoints
        sample_endpoints_def Let_def)
  from discovery_matches_routing [OF server_ok server_issuer_for server_base this]
  show ?thesis by blast
qed

section \<open>Every request is answered\<close>

definition written :: "ResponseWriter \<Rightarrow> bool" where
  "written w \<longleftrightarrow> wStatus w \<noteq> None"

text \<open>However its calls are answered, the program returns a response that was written.\<close>

definition answers :: "ResponseWriter prog \<Rightarrow> bool" where
  "answers p \<longleftrightarrow> (\<forall>log w. performs p log w \<longrightarrow> written w)"

named_theorems answers_intros

lemma answers_Ret [answers_intros]: "written w \<Longrightarrow> answers (Ret w)"
  by (simp add: answers_def)

lemma answers_bind [answers_intros]: "(\<And>a. answers (f a)) \<Longrightarrow> answers (bind p f)"
  by (auto simp: answers_def performs_bind)

lemma answers_branches [answers_intros]:
  "(c \<Longrightarrow> answers p) \<Longrightarrow> (\<not> c \<Longrightarrow> answers q) \<Longrightarrow> answers (if c then p else q)"
  "(\<And>e. x = Inl e \<Longrightarrow> answers (f e)) \<Longrightarrow> (\<And>a. x = Inr a \<Longrightarrow> answers (g a)) \<Longrightarrow>
     answers (case_sum f g x)"
  "(y = None \<Longrightarrow> answers n) \<Longrightarrow> (\<And>a. y = Some a \<Longrightarrow> answers (k a)) \<Longrightarrow>
     answers (case_option n k y)"
  "(\<And>a b. z = (a, b) \<Longrightarrow> answers (l a b)) \<Longrightarrow> answers (case_prod l z)"
  "answers (m v) \<Longrightarrow> answers (Let v m)"
  by (auto split: sum.split option.split prod.split)

lemma written_base:
  "written (WriteHeader n w)" "written (writer_Write b w)"
  by (simp_all add: written_def split: option.split)

lemma written_writers [simp]:
  "written (http_Error msg n w)" "written (writeJSON n js w)" "written (http_NotFound w)"
  "written (WriteTokenError r e w)" "written (redirect r loc w)" "written (writeFormPost u v w)"
  "written (WriteTokenResponse resp w)" "written (WritePushedAuthorizationResponse presp w)"
  "written (defaultErrorPage w r perr)" "written (writeBearerError perr w)"
proof -
  show err: "written (http_Error msg n w)" for msg n w
    unfolding http_Error_def by (rule written_base)
  show json: "written (writeJSON n js w)" for n js w
    unfolding writeJSON_def using err written_base by simp
  show "written (http_NotFound w)" unfolding http_NotFound_def by (rule err)
  show "written (WriteTokenError r e w)" unfolding WriteTokenError_def Let_def by (rule json)
  show "written (redirect r loc w)" unfolding redirect_def by (rule written_base)
  show "written (writeFormPost u v w)" unfolding writeFormPost_def by (rule written_base)
  show "written (WriteTokenResponse resp w)" unfolding WriteTokenResponse_def by (rule json)
  show "written (WritePushedAuthorizationResponse presp w)"
    unfolding WritePushedAuthorizationResponse_def by (rule json)
  show "written (defaultErrorPage w r perr)"
    unfolding defaultErrorPage_def Let_def using written_base by simp
  show "written (writeBearerError perr w)"
    unfolding writeBearerError_def Let_def using json written_base by simp
qed

lemma written_responses [simp]:
  "written (writeAuthorizationResponse r iss t v w)" "written (writeAuthorizationError r iss t e w)"
  by (simp_all add: writeAuthorizationResponse_def writeAuthorizationError_def Let_def)

lemma allowMethods_written: "allowMethods r ms w = Some w' \<Longrightarrow> written w'"
  by (auto simp: allowMethods_def split: if_split_asm)

text \<open>The hooks that write responses are the application's.\<close>

definition hooks_answer :: "Config \<Rightarrow> bool" where
  "hooks_answer cfg \<longleftrightarrow>
     (\<forall>page w r e. cfErrorPage cfg = Some page \<longrightarrow> written (page w r e)) \<and>
     (\<forall>interact w r req. cfInteract cfg = Some interact \<longrightarrow> answers (interact w r req))"

lemma written_errorPage:
  "hooks_answer (pvCfg p) \<Longrightarrow> written (provider_errorPage p w r e)"
  by (auto simp: provider_errorPage_def hooks_answer_def split: option.split)

lemma written_WriteAuthorizationError:
  "hooks_answer (pvCfg p) \<Longrightarrow> written (WriteAuthorizationError p r e w)"
  by (auto simp: WriteAuthorizationError_def written_errorPage split: option.split)

lemma answers_handlers [answers_intros]:
  "answers (serveToken p w r iss)" "answers (servePushedAuthorization p w r iss)"
  "answers (serveUserInfo p w r iss)" "answers (serveIntrospection p w r iss)"
  "answers (serveRevocation p w r iss)" "answers (serveJWKS p w r iss)"
  "answers (serveDiscovery p w r iss)"
proof -
  show "answers (serveToken p w r iss)"
    unfolding serveToken_def
    by (intro answers_intros) (auto dest: allowMethods_written split: sum.split)
  show "answers (servePushedAuthorization p w r iss)"
    unfolding servePushedAuthorization_def
    by (intro answers_intros) (auto dest: allowMethods_written split: sum.split)
  show "answers (serveUserInfo p w r iss)"
    unfolding serveUserInfo_def
    by (intro answers_intros) (auto dest: allowMethods_written intro: written_base split: sum.split)
  show "answers (serveIntrospection p w r iss)"
    unfolding serveIntrospection_def
    by (intro answers_intros) (auto dest: allowMethods_written split: sum.split)
  show "answers (serveRevocation p w r iss)"
    unfolding serveRevocation_def
    by (intro answers_intros) (auto dest: allowMethods_written intro: written_base split: option.split)
  show "answers (serveJWKS p w r iss)"
    unfolding serveJWKS_def
    by (intro answers_intros) (auto dest: allowMethods_written intro: written_base split: sum.split)
  show "answers (serveDiscovery p w r iss)"
    unfolding serveDiscovery_def
    by (intro answers_intros) (auto dest: allowMethods_written)
qed

lemma answers_serveAuthorization [answers_intros]:
  assumes "hooks_answer (pvCfg p)"
  shows "answers (serveAuthorization p w r iss)"
  unfolding serveAuthorization_def
  by (intro answers_intros)
    (use assms in \<open>auto dest: allowMethods_written
      simp: written_errorPage written_WriteAuthorizationError hooks_answer_def\<close>)

lemma answers_route:
  assumes "hooks_answer (pvCfg p)"
  shows "answers (route p w r iss)"
  unfolding route_def by (intro answers_intros assms) simp_all

text \<open>C26. Every request is answered. Whatever the storage, the client store, the clock and the random
  source answer -- errors included -- ServeHTTP comes to an end and has written a response, provided
  the application's error page and interaction do so: no path through the handlers returns without a
  status, and no loop keeps calling the storage.\<close>

theorem every_request_answered:
  assumes "hooks_answer (pvCfg p)" and "rand32 I"
  shows "wStatus (fst (run I (ServeHTTP p w r) s)) \<noteq> None"
proof -
  have "answers (ServeHTTP p w r)"
    unfolding ServeHTTP_def withIssuer_def
    by (intro answers_intros answers_route assms(1)) (simp_all add: written_errorPage assms(1))
  moreover have "performs (ServeHTTP p w r) (fst (snd (run I (ServeHTTP p w r) s)))
      (fst (run I (ServeHTTP p w r) s))"
    by (rule conjunct1 [OF run_performs_proj [OF assms(2)]])
  ultimately show ?thesis by (simp only: answers_def written_def) blast
qed

theorem every_request_answered_witness:
  "wStatus (fst (run mem (ServeHTTP server_p fresh_writer server_http) code_world)) \<noteq> None"
proof -
  have "hooks_answer (pvCfg server_p)"
    by (simp add: hooks_answer_def server_p_def server_defaults)
  moreover have "rand32 mem" by (rule memory.rand32)
  ultimately show ?thesis by (rule every_request_answered)
qed

end
