(* ===== verification/Grantor_WireProps.thy ===== *)
theory Grantor_WireProps
  imports Grantor_Respond Grantor_Pkce Grantor_RequestSample
begin

text \<open>
  What the two ends of a connection make of each other's strings: authorization responses, redirect
  URIs, scope parameters, PKCE challenges and error texts.
\<close>

section \<open>Queries read back\<close>

lemma parse_query_append:
  "parse_query (s @ CHR ''&'' # t) = parse_query s @ parse_query t"
  by (simp add: parse_query_def Split_append map_filter_def)

lemma parse_query_Nil [simp]: "parse_query [] = []"
  by (simp add: parse_query_def map_filter_def parse_query_pair_def)

text \<open>An escaped string holds none of the characters that structure a URL.\<close>

definition url_special :: "char set" where
  "url_special = {CHR ''&'', CHR ''='', CHR '';'', CHR ''#'', CHR ''?''}"

lemma hex_digit_plain: "n < 16 \<Longrightarrow> hex_digit n \<notin> url_special"
proof -
  have "\<forall>n \<in> set [0..<16]. hex_digit n \<notin> {CHR ''&'', CHR ''='', CHR '';'', CHR ''#'', CHR ''?''}"
    by code_simp
  then show "n < 16 \<Longrightarrow> hex_digit n \<notin> url_special" unfolding url_special_def by auto
qed

lemma percent_plain: "set (percent c) \<inter> url_special = {}"
proof -
  have "byte c div 16 < 16" "byte c mod 16 < 16" using byte_less [of c] by linarith+
  then show ?thesis
    using hex_digit_plain by (auto simp: percent_def) (auto simp: url_special_def)
qed

lemma unreserved_plain: "url_unreserved c \<Longrightarrow> c \<notin> url_special"
  by (auto simp: url_special_def url_unreserved_def is_alnum_def in_range_def byte_def)

lemma QueryEscape_plain: "set (url_QueryEscape s) \<inter> url_special = {}"
proof (induction s)
  case (Cons c s)
  have "CHR ''+'' \<notin> url_special" by (simp add: url_special_def)
  with Cons percent_plain [of c] unreserved_plain [of c] show ?case
    by (auto simp: QueryEscape_Cons)
qed simp

lemma parse_encode_pair: "parse_query_pair (values_encode_pair k v) = Some (k, v)"
proof -
  have "CHR ''='' \<notin> set (url_QueryEscape k)" "CHR '';'' \<notin> set (url_QueryEscape k)"
    "CHR '';'' \<notin> set (url_QueryEscape v)"
    using QueryEscape_plain by (fastforce simp: url_special_def)+
  then show ?thesis
    by (simp add: parse_query_pair_def values_encode_pair_def Cut_append QueryUnescape_QueryEscape)
qed

text \<open>The pairs of \<^verbatim>\<open>url.Values\<close>, in the order \<^verbatim>\<open>Encode\<close> writes them.\<close>

definition values_pairs :: "url_values \<Rightarrow> (string \<times> string) list" where
  "values_pairs v = concat (map (\<lambda>(k, xs). map (Pair k) xs) (sort_key fst v))"

lemma values_Encode_pairs:
  "values_Encode v = strings_Join (map (case_prod values_encode_pair) (values_pairs v)) ''&''"
  unfolding values_Encode_def values_pairs_def map_concat map_map
  by (rule arg_cong [where f = "\<lambda>x. strings_Join (concat x) ''&''"]) auto

lemma encode_pair_plain:
  "c \<in> set (values_encode_pair k v) \<Longrightarrow> c \<in> url_special \<Longrightarrow> c = CHR ''=''"
  using QueryEscape_plain [of k] QueryEscape_plain [of v] by (auto simp: values_encode_pair_def)

lemma parse_query_Encode: "parse_query (values_Encode v) = values_pairs v"
proof (cases "values_pairs v = []")
  case True
  then show ?thesis by (simp add: values_Encode_pairs)
next
  case False
  have "strings_Split (values_Encode v) CHR ''&'' = map (case_prod values_encode_pair) (values_pairs v)"
    unfolding values_Encode_pairs
    using False encode_pair_plain by (intro Split_Join) (auto simp: url_special_def)
  then show ?thesis
    by (simp add: parse_query_def map_filter_def comp_def parse_encode_pair case_prod_beta)
qed

lemma Join_chars: "set (strings_Join fs sep) \<subseteq> \<Union> (set ` set fs) \<union> set sep"
  by (induction fs sep rule: strings_Join.induct) auto

lemma Encode_plain: "c \<in> set (values_Encode v) \<Longrightarrow> c \<noteq> CHR ''#'' \<and> c \<noteq> CHR ''?''"
  using Join_chars [of "map (case_prod values_encode_pair) (values_pairs v)" "''&''"] encode_pair_plain
  unfolding values_Encode_pairs by (fastforce simp: url_special_def)

section \<open>Authorization responses\<close>

text \<open>Each name once, with one value, as in every response of the endpoint.\<close>

definition single_valued :: "url_values \<Rightarrow> bool" where
  "single_valued v \<longleftrightarrow> distinct (map fst v) \<and> (\<forall>(k, xs) \<in> set v. length xs = 1)"

lemma single_valued_put:
  assumes "single_valued v"
  shows "single_valued (map_put k [x] v)"
proof -
  have "distinct (map fst (filter (\<lambda>(k', _). k' \<noteq> k) v))"
    using assms by (auto simp: single_valued_def intro: distinct_map_filter)
  moreover have "k \<notin> fst ` set (filter (\<lambda>(k', _). k' \<noteq> k) v)" by auto
  ultimately show ?thesis using assms by (auto simp: single_valued_def map_put_def)
qed

lemma single_valued_response:
  "single_valued v \<Longrightarrow> single_valued (response_values iss target v)"
  by (simp add: response_values_def single_valued_put Let_def)

lemma map_of_pairs:
  assumes "distinct (map fst w)" and "\<forall>(k, xs) \<in> set w. length xs = 1"
  shows "map_of (concat (map (\<lambda>(k, xs). map (Pair k) xs) w)) = map_option hd \<circ> map_of w"
  using assms
proof (induction w)
  case (Cons kv w)
  obtain k x where "kv = (k, [x])"
    using Cons.prems(2) by (cases kv) (auto simp: length_Suc_conv)
  with Cons show ?case by (auto simp: fun_eq_iff)
qed (auto simp: fun_eq_iff)

lemma distinct_sort_key: "distinct (map fst v) \<Longrightarrow> distinct (map fst (sort_key fst v))"
  by (simp add: distinct_map)

lemma map_of_sort_key: "distinct (map fst v) \<Longrightarrow> map_of (sort_key fst v) = map_of v"
  by (simp add: map_of_inject_set distinct_sort_key)

lemma map_of_values_pairs:
  assumes "single_valued v"
  shows "map_of (values_pairs v) k = map_option hd (map_of v k)"
proof -
  have "distinct (map fst (sort_key fst v))" "\<forall>(k, xs) \<in> set (sort_key fst v). length xs = 1"
    using assms by (simp_all add: single_valued_def distinct_sort_key)
  from map_of_pairs [OF this] show ?thesis
    using assms by (simp add: values_pairs_def map_of_sort_key single_valued_def)
qed

lemma form_values_pairs:
  assumes "single_valued v"
  shows "form_values v = values_pairs v"
proof -
  have one: "map (Pair (fst kv)) (snd kv) = [(fst kv, values_Get v (fst kv))]" if "kv \<in> set v" for kv
  proof -
    obtain k xs where "kv = (k, xs)" by (cases kv)
    moreover from this have "length xs = 1" using assms that by (auto simp: single_valued_def)
    ultimately obtain x where kv: "kv = (k, [x])" by (cases xs) auto
    then have "map_of v k = Some [x]" using assms that by (simp add: single_valued_def)
    then show ?thesis by (simp add: kv values_Get_def)
  qed
  have "map (\<lambda>kv. (fst kv, values_Get v (fst kv))) w = concat (map (\<lambda>kv. map (Pair (fst kv)) (snd kv)) w)"
    if "set w \<subseteq> set v" for w
    using that by (induction w) (auto simp: one)
  from this [of "sort_key fst v"] show ?thesis
    by (simp add: form_values_def values_pairs_def case_prod_unfold)
qed

text \<open>What the client reads at its redirect URI, in each response mode.\<close>

definition url_query :: "string \<Rightarrow> string" where
  "url_query u = fst (snd (strings_Cut u CHR ''?''))"

definition client_reads :: "authorizationTarget \<Rightarrow> ResponseWriter \<Rightarrow> (string \<times> string) list" where
  "client_reads target w =
     (if atMode target = responseModeFormPost then
        (case wBody w of [BodyFormPost action vs] \<Rightarrow> (if action = atRedirectURI target then vs else [])
         | _ \<Rightarrow> [])
      else if atMode target = responseModeFragment
      then parse_query (fst (snd (strings_Cut (header_Get w ''Location'') CHR ''#'')))
      else parse_query (url_query (header_Get w ''Location'')))"

text \<open>A query that ends with a question mark of its own would run into the parameters.\<close>

definition query_open :: "string \<Rightarrow> bool" where
  "query_open u \<longleftrightarrow> strings_HasSuffix u ''?'' \<and> CHR ''?'' \<in> set (butlast u)"

lemma HasSuffix_char: "strings_HasSuffix u [c] \<Longrightarrow> u = butlast u @ [c]"
  by (cases u rule: rev_cases) (auto simp: strings_HasSuffix_def)

lemma query_location_read:
  assumes "\<not> query_open u"
  shows "parse_query (url_query (query_location u v)) = parse_query (url_query u) @ values_pairs v"
    and "strings_HasPrefix (query_location u v) u"
proof -
  show "strings_HasPrefix (query_location u v) u"
    by (simp add: query_location_def)
  consider (ends) b where "u = b @ [CHR ''?'']" "CHR ''?'' \<notin> set b"
    | (query) b q where "\<not> strings_HasSuffix u ''?''" "u = b @ CHR ''?'' # q" "CHR ''?'' \<notin> set b"
    | (plain) "\<not> strings_HasSuffix u ''?''" "CHR ''?'' \<notin> set u"
  proof (cases "strings_HasSuffix u ''?''")
    case True
    then show ?thesis
      using ends [of "butlast u"] HasSuffix_char [OF True] assms by (simp add: query_open_def)
  next
    case False
    then show ?thesis using query plain split_list_first [of "CHR ''?''" u] by blast
  qed
  then show "parse_query (url_query (query_location u v)) = parse_query (url_query u) @ values_pairs v"
  proof cases
    case ends
    then have "strings_HasSuffix u ''?''" by (simp add: strings_HasSuffix_def)
    with ends show ?thesis
      using Cut_append [of "CHR ''?''" b "values_Encode v"] Cut_append [of "CHR ''?''" b "[]"]
      by (simp add: query_location_def url_query_def parse_query_Encode)
  next
    case query
    then show ?thesis
      using Cut_append [of "CHR ''?''" b "q @ CHR ''&'' # values_Encode v"] Cut_append [of "CHR ''?''" b q]
      by (simp add: query_location_def url_query_def parse_query_append parse_query_Encode)
  next
    case plain
    then show ?thesis
      using Cut_append [of "CHR ''?''" u "values_Encode v"] Cut_free [of "CHR ''?''" u]
      by (simp add: query_location_def url_query_def parse_query_Encode)
  qed
qed

text \<open>C39. A client reads what the provider sent. In the form_post and fragment modes the response holds
  exactly the sent parameters; in the query mode they follow the parameters of the registered redirect
  URI, which the response leaves as it is. The client finds its state, the issuer (RFC 9207) and every
  other parameter under its name, escaped and read back without loss. Not covered is a redirect URI
  whose own query ends with a question mark.\<close>

theorem authorization_response_roundtrip:
  assumes "single_valued v" and "wBody w = []"
    and "CHR ''#'' \<notin> set (atRedirectURI target)" and "\<not> query_open (atRedirectURI target)"
  shows "\<exists>own sent.
     client_reads target (writeAuthorizationResponse r iss target v w) = own @ sent \<and>
     own = (if atMode target = responseModeFormPost \<or> atMode target = responseModeFragment then []
            else parse_query (url_query (atRedirectURI target))) \<and>
     map_of sent ''iss'' = Some (rsURL iss) \<and>
     (if atState target = [] then map_of sent ''state'' = map_option hd (map_of v ''state'')
      else map_of sent ''state'' = Some (atState target)) \<and>
     (\<forall>name. name \<noteq> ''iss'' \<and> name \<noteq> ''state'' \<longrightarrow> map_of sent name = map_option hd (map_of v name))"
proof -
  define sent where "sent = values_pairs (response_values iss target v)"
  have sv: "single_valued (response_values iss target v)"
    by (rule single_valued_response [OF assms(1)])
  have "map_of sent ''iss'' = Some (rsURL iss) \<and>
     (if atState target = [] then map_of sent ''state'' = map_option hd (map_of v ''state'')
      else map_of sent ''state'' = Some (atState target)) \<and>
     (\<forall>name. name \<noteq> ''iss'' \<and> name \<noteq> ''state'' \<longrightarrow> map_of sent name = map_option hd (map_of v name))"
    by (simp add: sent_def map_of_values_pairs [OF sv]) (simp add: response_values_def Let_def)
  moreover have "client_reads target (writeAuthorizationResponse r iss target v w) =
      (if atMode target = responseModeFormPost \<or> atMode target = responseModeFragment then []
       else parse_query (url_query (atRedirectURI target))) @ sent"
  proof -
    have cut: "strings_Cut (atRedirectURI target @ CHR ''#'' # e) CHR ''#'' = (atRedirectURI target, e, True)"
      for e using assms(3) by (rule Cut_append)
    show ?thesis
      using form_values_pairs [OF sv] query_location_read(1) [OF assms(4)] assms(2)
      by (simp add: client_reads_def writeAuthorizationResponse_def Let_def sent_def writeFormPost_def
          redirect_def noStore_def cut parse_query_Encode)
  qed
  ultimately show ?thesis by blast
qed

definition response_target :: authorizationTarget where
  "response_target = \<lparr>atRedirectURI = ''https://rp.example/cb?x=1'', atMode = ''query'', atState = ''a b&c''\<rparr>"

theorem authorization_response_roundtrip_witness:
  "\<exists>own sent. client_reads response_target (writeAuthorizationResponse sample_http sample_iss
       response_target [(''code'', [rnd_token 2])] fresh_writer) = own @ sent \<and>
     map_of sent ''state'' = Some ''a b&c'' \<and> map_of sent ''code'' = Some (rnd_token 2)"
proof -
  have 1: "single_valued [(''code'', [rnd_token 2])]" by (simp add: single_valued_def)
  have 2: "wBody fresh_writer = []" by (simp add: fresh_writer_def)
  have 3: "CHR ''#'' \<notin> set (atRedirectURI response_target)" "\<not> query_open (atRedirectURI response_target)"
    by (simp_all add: response_target_def query_open_def strings_HasSuffix_def)
  obtain own sent where
      a: "client_reads response_target (writeAuthorizationResponse sample_http sample_iss
       response_target [(''code'', [rnd_token 2])] fresh_writer) = own @ sent"
    and b: "if atState response_target = []
      then map_of sent ''state'' = map_option hd (map_of [(''code'', [rnd_token 2])] ''state'')
      else map_of sent ''state'' = Some (atState response_target)"
    and c: "\<forall>name. name \<noteq> ''iss'' \<and> name \<noteq> ''state'' \<longrightarrow>
      map_of sent name = map_option hd (map_of [(''code'', [rnd_token 2])] name)"
    using authorization_response_roundtrip [OF 1 2 3, of sample_http sample_iss]
    by (elim exE conjE) (rule that)
  have "map_of sent ''state'' = Some ''a b&c''" using b by (simp add: response_target_def)
  moreover have "map_of sent ''code'' = Some (rnd_token 2)" using c by simp
  ultimately show ?thesis using a by blast
qed

text \<open>The redirect URI left out above: the code becomes a part of the parameter before it.\<close>

lemma query_open_loses_code:
  "parse_query (url_query (query_location ''https://rp.example/cb?a=b?'' [(''code'', [''xyz''])])) =
     [(''a'', ''b?code=xyz'')]"
  by (simp add: query_location_def strings_HasSuffix_def values_Encode_def values_encode_pair_def
      url_query_def) code_simp

section \<open>Error responses\<close>








end
