(* ===== verification/Grantor_CredentialProps.thy ===== *)
theory Grantor_CredentialProps
  imports Grantor_Approve Grantor_RequestSample
begin

text \<open>
  What the credentials of the protocol prove: PKCE verifiers, redirect URIs, client secrets and
  assertions, and what a client that presents a wrong one is told.
\<close>

section \<open>PKCE\<close>

definition pkce_verifier :: "string \<Rightarrow> bool" where
  "pkce_verifier v \<longleftrightarrow> 43 \<le> length v \<and> length v \<le> 128 \<and> isUnreserved v"

lemma isUnreserved_hashToken: "isUnreserved (hashToken v)"
  by (simp add: hashToken_def isUnreserved_b64)

lemma parsePKCE_accepts:
  assumes "params_get q ''code_challenge'' = hashToken v"
    and "params_get q ''code_challenge_method'' = ''S256''"
  shows "parsePKCE client q req =
     Inr (req\<lparr>arCodeChallenge := hashToken v, arCodeChallengeMethod := ''S256''\<rparr>)"
  using assms
  by (simp add: parsePKCE_def isUnreserved_hashToken)

lemma parsePKCE_challenge:
  assumes "parsePKCE client q req = Inr req'" and "arCodeChallenge req = []"
  shows "arCodeChallenge req' = params_get q ''code_challenge''"
    and "params_get q ''code_challenge'' = [] \<Longrightarrow> checkPKCEPolicy client req = None"
  using assms by (auto simp: parsePKCE_def Let_def split: if_split_asm option.split_asm)

text \<open>C29. The challenge of an authorization request decides who can redeem the code issued for it. A
  client that sent a challenge redeems the code with exactly the well-formed verifiers whose S256
  transform is that challenge; leaving the verifier out is refused. A client that sent none was allowed
  to by its PKCE policy, and then any verifier is refused, so that a challenge stripped from the request
  is noticed.\<close>

theorem pkce_binds_code:
  assumes "parsePKCE client q req0 = Inr req" and "arCodeChallenge req0 = []"
  shows "(verifyPKCE (code_record p iss req a scopes claims audience now code grantID) v = None \<longleftrightarrow>
            (if params_get q ''code_challenge'' = [] then v = []
             else pkce_verifier v \<and> hashToken v = params_get q ''code_challenge'')) \<and>
         (params_get q ''code_challenge'' = [] \<longrightarrow> checkPKCEPolicy client req0 = None)"
  using parsePKCE_challenge [OF assms]
  by (auto simp: verifyPKCE_None code_record_def pkce_verifier_def)

text \<open>The example of RFC 7636, appendix B.\<close>

definition rfc_verifier :: string where
  "rfc_verifier = ''dBjftJeZ4CVP-mB92K27uhbUJU1p1r_wW1gFWFOEjXk''"

definition rfc_challenge :: string where
  "rfc_challenge = ''E9Melhoa2OwvFrEMTJguCHaoeK1t8URWbuGJSstw-cM''"

lemma rfc_transform: "hashToken rfc_verifier = rfc_challenge"
  unfolding hashToken_def rfc_verifier_def rfc_challenge_def
  by (subst sha256_one_block, simp, simp add: sha256_eval b64_char_def) code_simp

definition rfc_params :: params where
  "rfc_params = \<lparr>pValues = [(''code_challenge'', rfc_challenge), (''code_challenge_method'', ''S256'')],
     pRepeated = []\<rparr>"

lemma rfc_params_get [simp]:
  "params_get rfc_params ''code_challenge'' = rfc_challenge"
  "params_get rfc_params ''code_challenge_method'' = ''S256''"
  by (simp_all add: params_get_def rfc_params_def map_get_def)

theorem pkce_binds_code_witness:
  "\<exists>req. parsePKCE sample_client rfc_params sample_saved = Inr req \<and>
     verifyPKCE (code_record sample_p sample_iss req sample_approval [] None [] 3 ''c'' ''g'') rfc_verifier = None \<and>
     verifyPKCE (code_record sample_p sample_iss req sample_approval [] None [] 3 ''c'' ''g'') [] \<noteq> None"
proof -
  define req where
    "req = sample_saved\<lparr>arCodeChallenge := rfc_challenge, arCodeChallengeMethod := ''S256''\<rparr>"
  have 1: "parsePKCE sample_client rfc_params sample_saved = Inr req"
    using parsePKCE_accepts [of rfc_params rfc_verifier] by (simp add: rfc_transform req_def)
  have 2: "arCodeChallenge sample_saved = []" by (simp add: sample_saved_def)
  have 3: "rfc_challenge \<noteq> []" by (simp add: rfc_challenge_def)
  have "pkce_verifier rfc_verifier"
    unfolding pkce_verifier_def rfc_verifier_def by code_simp
  with pkce_binds_code [OF 1 2, of sample_p sample_iss sample_approval "[]" None "[]" 3 "''c''" "''g''" rfc_verifier]
    pkce_binds_code [OF 1 2, of sample_p sample_iss sample_approval "[]" None "[]" 3 "''c''" "''g''" "[]"] 1 3
  show ?thesis by (auto simp: rfc_transform pkce_verifier_def)
qed

end
