(* ===== verification/Grantor_ClaimProps.thy ===== *)
theory Grantor_ClaimProps
  imports Grantor_TokenSafety Grantor_RequestSample
begin

text \<open>
  What signed tokens assert: the protocol claims of JWT access tokens and ID tokens, and what the
  application may add to them.
\<close>

section \<open>Protocol claims\<close>

text \<open>The protocol's members of a JWT access token (RFC 9068), by name; \<open>None\<close> for those it leaves out.\<close>

definition access_claim :: "AccessToken \<Rightarrow> string \<Rightarrow> json option" where
  "access_claim x name =
     (if name = ''iss'' then Some (JString (xIssuer x))
      else if name = ''sub'' then Some (JString (if xSubject x = [] then xClientID x else xSubject x))
      else if name = ''aud'' then Some (json_audience (xAudience x))
      else if name = ''exp'' then Some (JNum (time_Unix (xExpiresAt x)))
      else if name = ''iat'' then Some (JNum (time_Unix (xIssuedAt x)))
      else if name = ''jti'' then Some (JString (xID x))
      else if name = ''client_id'' then Some (JString (xClientID x))
      else if name = ''scope'' \<and> xScopes x \<noteq> [] then Some (JString (strings_Join (xScopes x) '' ''))
      else if name = ''auth_time'' \<and> xAuthTime x \<noteq> 0 then Some (JNum (time_Unix (xAuthTime x)))
      else if name = ''acr'' \<and> xACR x \<noteq> [] then Some (JString (xACR x))
      else if name = ''amr'' \<and> xAMR x \<noteq> [] then Some (JArray (map JString (xAMR x)))
      else None)"

lemma jwtAccessTokenClaims_members:
  assumes "fst ` set (xClaims x) \<inter> set accessTokenProtectedClaims = {}"
  shows "map_of (jwtAccessTokenClaims x) name =
     (if name \<in> set accessTokenProtectedClaims then access_claim x name else map_of (xClaims x) name)"
proof -
  have app: "map_of (xClaims x) n = None" if "n \<in> set accessTokenProtectedClaims" for n
    using assms that by (force simp: map_of_eq_None_iff)
  let ?own = "{''iss'', ''sub'', ''aud'', ''exp'', ''iat'', ''jti'', ''client_id'', ''scope'', ''auth_time'',
     ''acr'', ''amr''}"
  have own: "?own \<subseteq> set accessTokenProtectedClaims" by (simp add: accessTokenProtectedClaims_def)
  show ?thesis
  proof (cases "name \<in> ?own")
    case True
    then have p: "name \<in> set accessTokenProtectedClaims" using own by blast
    from True app [OF p] show ?thesis
      unfolding jwtAccessTokenClaims_def access_claim_def Let_def map_of_put_if time_IsZero_def
      by (simp only: p if_True) (elim insertE emptyE; simp add: map_of_put_if)
  next
    case False
    then have "map_of (jwtAccessTokenClaims x) name = map_of (xClaims x) name"
      unfolding jwtAccessTokenClaims_def Let_def by (simp add: map_of_put_if)
    moreover have "access_claim x name = None" using False unfolding access_claim_def by simp
    ultimately show ?thesis using app by simp
  qed
qed

text \<open>The protocol's members of an ID token (OpenID Connect Core, section 2).\<close>

definition id_claim ::
  "resolvedIssuer \<Rightarrow> Client \<Rightarrow> Token \<Rightarrow> string \<Rightarrow> string \<Rightarrow> duration \<Rightarrow> alg \<Rightarrow> time \<Rightarrow> string \<Rightarrow>
     json option" where
  "id_claim iss client grant nonce accessToken lifetime alg now name =
     (if name = ''iss'' then Some (JString (rsURL iss))
      else if name = ''sub'' then Some (JString (tSubject grant))
      else if name = ''aud'' then Some (JString (cID client))
      else if name = ''iat'' then Some (JNum (time_Unix now))
      else if name = ''exp'' then Some (JNum (time_Unix (now + lifetime)))
      else if name = ''auth_time'' \<and> tAuthTime grant \<noteq> 0 then Some (JNum (time_Unix (tAuthTime grant)))
      else if name = ''nonce'' \<and> nonce \<noteq> [] then Some (JString nonce)
      else if name = ''acr'' \<and> tACR grant \<noteq> [] then Some (JString (tACR grant))
      else if name = ''amr'' \<and> tAMR grant \<noteq> [] then Some (JArray (map JString (tAMR grant)))
      else if name = ''at_hash'' \<and> accessToken \<noteq> []
      then map_option (\<lambda>h. JString (leftHalfHash h accessToken)) (hashForAlg alg)
      else None)"

lemma idTokenClaims_members:
  assumes "fst ` set extra \<inter> set protocolClaims = {}" and "fst ` set user \<inter> set protocolClaims = {}"
    and "name \<in> set protocolClaims"
  shows "map_of (idTokenClaims iss client grant nonce at lifetime extra alg now user) name =
     id_claim iss client grant nonce at lifetime alg now name"
proof -
  define app where "app = map_puts extra user"
  have app: "map_of app name = None"
    using assms by (subst app_def, subst map_of_map_puts_other) (force simp: map_of_eq_None_iff)+
  let ?own = "{''iss'', ''sub'', ''aud'', ''exp'', ''iat'', ''auth_time'', ''nonce'', ''acr'', ''amr'', ''at_hash''}"
  note unfold = idTokenClaims_def id_claim_def Let_def map_of_put_if time_IsZero_def time_Add_def
    app_def [symmetric]
  show ?thesis
  proof (cases "name \<in> ?own")
    case True
    then show ?thesis
      unfolding unfold using app
      by (elim insertE emptyE) (simp_all add: map_of_put_if split: option.split)
  next
    case False
    then show ?thesis
      unfolding unfold using app by (simp add: map_of_put_if split: option.split)
  qed
qed

text \<open>C30. Whatever the application's hooks answer, a signed token asserts what the protocol asserts.
  Once BeforeIssue has let an issuance pass, the JWT access token carries, under every protected name,
  exactly the value the grant, the client and the issuance give it, or none, and under any other name
  what the hook set; the ID token carries under every protocol claim exactly what the issuer, the
  client, the grant and the nonce give it, whatever claims the end-user and the hook bring along.\<close>

theorem signed_claims_protected:
  assumes "planIssuance cfg req client grant scopes withRefresh = Inr plan"
    and "config_ok cfg" and "client_ok cfg client"
    and "provider_endUserClaims cfg record (provider_allowedClaims cfg record requested incl) = Inr user"
  shows "map_of (jwtAccessTokenClaims (new_access_token i iss client grant plan gt now)) name =
           (if name \<in> set accessTokenProtectedClaims
            then access_claim (new_access_token i iss client grant plan gt now) name
            else map_of (ipAccessClaims plan) name) \<and>
         (name \<in> set protocolClaims \<longrightarrow>
            map_of (idTokenClaims iss client record nonce at lifetime (ipIDClaims plan) alg now' user) name =
              id_claim iss client record nonce at lifetime alg now' name)"
proof -
  have ok: "fst ` set (ipAccessClaims plan) \<inter> set accessTokenProtectedClaims = {}"
      "fst ` set (ipIDClaims plan) \<inter> set protocolClaims = {}"
    using planIssuance_ok [OF assms(1-3)] by (simp_all add: plan_ok_def)
  have user: "fst ` set user \<inter> set protocolClaims = {}"
    using endUserClaims_names [OF assms(4)] by blast
  show ?thesis
    using jwtAccessTokenClaims_members [of "new_access_token i iss client grant plan gt now" name] ok(1)
      idTokenClaims_members [OF ok(2) user]
    by (simp add: new_access_token_def)
qed

text \<open>A hook and an end-user that try: the hook sets a claim of its own, the claims function answers with
  another subject.\<close>

definition tenant_hook :: BeforeIssueFunc where
  "tenant_hook iu = (None, iu\<lparr>iuAccessTokenClaims := [(''tenant'', JString ''t1'')],
                             iuIDTokenClaims := [(''tenant'', JString ''t1'')]\<rparr>)"

definition tenant_cfg :: Config where
  "tenant_cfg = sample_cfg
     \<lparr>cfBeforeIssue := Some tenant_hook, cfErrorPage := Some defaultErrorPage,
      cfClaims := Some (\<lambda>_. Inr [(''sub'', JString ''mallory''), (''email'', JString ''a@b'')])\<rparr>"

definition tenant_plan :: issuePlan where
  "tenant_plan = sample_plan
     \<lparr>ipAccessClaims := [(''tenant'', JString ''t1'')], ipIDClaims := [(''tenant'', JString ''t1'')]\<rparr>"

lemma tenant_planned:
  "planIssuance tenant_cfg req sample_client sample_code [''read''] True = Inr tenant_plan"
proof -
  have n: "normalizeClaims [(''tenant'', JString ''t1'')] = Some [(''tenant'', JString ''t1'')]"
    by code_simp
  have "runBeforeIssue tenant_cfg tenant_hook req sample_client sample_code
      (initial_plan tenant_cfg sample_client sample_code [''read''] True) = Inr tenant_plan"
    by (simp add: runBeforeIssue_def tenant_hook_def new_issuance_def initial_plan_def tenant_cfg_def
        sample_defs token_zero_def narrowed_def check_issuance_def provider_knownFormat_def
        accessTokenProtectedClaims_def protocolClaims_def validLifetime_def second_def minute_def hour_def
        n tenant_plan_def sample_plan_def)
  then show ?thesis
    by (simp add: planIssuance_def tenant_cfg_def [symmetric]) (simp add: tenant_cfg_def tenant_plan_def
        sample_plan_def)
qed

theorem signed_claims_protected_witness:
  "map_of (jwtAccessTokenClaims (new_access_token ''j'' sample_iss sample_client sample_code tenant_plan
       GrantTypeAuthorizationCode 5)) ''sub'' = Some (JString ''alice'') \<and>
   map_of (idTokenClaims sample_iss sample_client sample_code [] ''at'' minute (ipIDClaims tenant_plan)
       ''RS256'' 5 [(''email'', JString ''a@b'')]) ''sub'' = Some (JString ''alice'')"
proof -
  have 1: "config_ok tenant_cfg"
  proof -
    have "list_all path_ok (Endpoints_paths sample_endpoints True) \<and>
        distinct (Endpoints_paths sample_endpoints True)" by code_simp
    then show ?thesis
      by (simp add: config_ok_def tenant_cfg_def sample_cfg_def list_all_iff sample_lifetimes_def
          provider_knownFormat_def second_def minute_def hour_def)
  qed
  have 2: "client_ok tenant_cfg sample_client"
  proof -
    have "cAccessTokenFormat sample_client = []" by (simp add: sample_client_def)
    then show ?thesis
      using sample_client_checks by (simp add: check_client_None client_ok_def tenant_cfg_def sample_cfg_def)
  qed
  have 3: "provider_endUserClaims tenant_cfg sample_code
      (provider_allowedClaims tenant_cfg sample_code [(''sub'', None), (''email'', None)] False) =
      Inr [(''email'', JString ''a@b'')]"
    by (simp add: provider_endUserClaims_def provider_allowedClaims_def tenant_cfg_def protocolClaims_def)
  have p: "''sub'' \<in> set accessTokenProtectedClaims" "''sub'' \<in> set protocolClaims"
    by (simp_all add: accessTokenProtectedClaims_def protocolClaims_def)
  from signed_claims_protected [OF tenant_planned 1 2 3, of "''j''" sample_iss
      GrantTypeAuthorizationCode 5 "''sub''" "[]" "''at''" minute "''RS256''" 5]
  show ?thesis
    using p by (simp add: access_claim_def id_claim_def new_access_token_def sample_code_def token_zero_def)
qed

end
