(* ===== verification/Grantor_AssertionProps.thy ===== *)
theory Grantor_AssertionProps
  imports Grantor_TokenSafety Grantor_RequestSample
begin

text \<open>
  Client authentication at the endpoints: what it establishes about the client, and that a client
  assertion authenticates once, whichever requests present it and however their calls interleave.
\<close>

section \<open>Replay keys in the storage\<close>

fun claims_key :: "string \<Rightarrow> event \<Rightarrow> bool" where
  "claims_key k (EvClaimOnce k' e None) = (k = k')"
| "claims_key k ev = False"

fun claim_effect :: "event \<Rightarrow> time \<Rightarrow> (string \<Rightarrow> time option) \<Rightarrow> (string \<Rightarrow> time option) \<Rightarrow> bool" where
  "claim_effect (EvClaimOnce k e r) now m m1 = claims_once now k e r m m1"
| "claim_effect ev now m m1 = evolves now id m m1"

text \<open>A key that stays live is not claimed again, and stays.\<close>

lemma claim_effect_live:
  assumes "claim_effect ev now m m1" and "m k = Some e" and "now < e"
  shows "m1 k = Some e \<and> \<not> claims_key k ev"
proof -
  have keep: "evolves now id m m' \<Longrightarrow> m' k = Some e" for m'
    using evolves_live [of now id m m' k e] assms(2,3) by simp
  show ?thesis
  proof (cases "\<exists>k' e' r. ev = EvClaimOnce k' e' r")
    case True
    then obtain k' e' r where ev: "ev = EvClaimOnce k' e' r" by blast
    with assms(1) obtain m' where m': "evolves now id m m'"
        and r: "case r of
           None \<Rightarrow> (\<forall>x. m' k' = Some x \<longrightarrow> x \<le> now) \<and> m1 = m'(k' \<mapsto> e')
         | Some (_::goerr) \<Rightarrow> m1 = m' \<or> ((\<forall>x. m' k' = Some x \<longrightarrow> x \<le> now) \<and> m1 = m'(k' \<mapsto> e'))"
      by (auto simp: claims_once_def)
    show ?thesis
      using r keep [OF m'] assms(3) by (cases r) (auto simp: ev)
  next
    case False
    then have "claim_effect ev now m m1 = evolves now id m m1" "\<not> claims_key k ev"
      by (cases ev; simp)+
    with assms(1) keep show ?thesis by blast
  qed
qed

lemma claim_effect_claims:
  "claim_effect (EvClaimOnce k e None) now m m1 \<Longrightarrow> m1 k = Some e"
  by (auto simp: claims_once_def)

context storage_contract
begin

lemma serve_claimed:
  assumes "serve I ev s = Some s1"
  shows "claim_effect ev (clock s) (claimed s) (claimed s1)"
  using assms
  by (cases ev)
    (auto simp: answered_Some dest!: create_request load_request delete_request create_token
      load_token consume_token revoke_token revoke_grant claim_once client_lookup read_clock
      read_random)

lemma serves_claimed_live:
  "serves I log s = Some s1 \<Longrightarrow> claimed s k = Some e \<Longrightarrow> clock s1 < e \<Longrightarrow>
     filter (claims_key k) log = []"
proof (induction log arbitrary: s)
  case (Cons ev log)
  then obtain s' where ev: "serve I ev s = Some s'" and log: "serves I log s' = Some s1"
    by (auto split: option.splits)
  have "clock s < e"
    using serve_clock [OF ev] serves_clock [OF log] Cons.prems(3) by linarith
  from claim_effect_live [OF serve_claimed [OF ev] Cons.prems(2) this] Cons.IH [OF log] Cons.prems(3)
  show ?case by simp
qed simp

lemma claim_once_run:
  "serves I log s = Some s1 \<Longrightarrow> \<forall>e. EvClaimOnce k e None \<in> set log \<longrightarrow> clock s1 < e \<Longrightarrow>
     length (filter (claims_key k) log) \<le> 1"
proof (induction log arbitrary: s)
  case (Cons ev log)
  then obtain s' where ev: "serve I ev s = Some s'" and log: "serves I log s' = Some s1"
    by (auto split: option.splits)
  show ?case
  proof (cases "claims_key k ev")
    case True
    then obtain e where e: "ev = EvClaimOnce k e None"
      by (cases "(k, ev)" rule: claims_key.cases) auto
    have "claimed s' k = Some e"
      using claim_effect_claims serve_claimed [OF ev] unfolding e by blast
    moreover have "clock s1 < e" using Cons.prems(2) e by simp
    ultimately have "filter (claims_key k) log = []"
      using serves_claimed_live [OF log] by blast
    then show ?thesis by (simp add: e)
  next
    case False
    then show ?thesis using Cons.IH [OF log] Cons.prems(2) by simp
  qed
qed simp

lemma concurrent_claim_once:
  assumes "concurrent I (ps, s) log (qs, s')"
    and "\<forall>e. EvClaimOnce k e None \<in> snd ` set log \<longrightarrow> clock s' < e"
    and "EvClaimOnce k e None \<in> set (calls_of i log)"
    and "EvClaimOnce k e' None \<in> set (calls_of j log)"
  shows "i = j"
proof (rule ccontr)
  assume "i \<noteq> j"
  have "length (filter (claims_key k) (map snd log)) \<le> 1"
    using claim_once_run [OF concurrent_serves [OF assms(1)]] assms(2) by simp
  with two_threads [OF assms(3,4) \<open>i \<noteq> j\<close>, of "claims_key k"] show False by simp
qed

end

section \<open>An assertion authenticates once\<close>

text \<open>What the library for JSON web tokens documents: the claims it returns when it verifies a token
  are those the token carries, whatever the key.\<close>

definition assertion_payload :: "jose \<Rightarrow> string \<Rightarrow> jwt_claims \<Rightarrow> bool" where
  "assertion_payload jz assertion u \<longleftrightarrow>
     (\<forall>tok. jzParseSigned jz assertion assertionAlgorithms = Some tok \<longrightarrow>
        jtUnverified tok = Some u \<and> (\<forall>k claims. jtClaims tok k = Some claims \<longrightarrow> claims = u))"

lemma verifyClientAssertion_claims:
  assumes "performs (verifyClientAssertion p iss assertion) log (Inr c)"
    and "assertion_payload (pvJose p) assertion u"
  shows "\<exists>e. EvClaimOnce (assertionKey (rsURL iss) (jcSubject u) (jcID u)) e None \<in> set log"
proof -
  from assms(1) obtain tok unverified where
      tok: "jzParseSigned (pvJose p) assertion assertionAlgorithms = Some tok"
        "jtUnverified tok = Some unverified"
      and run: "performs (bindE (lookupAuthenticatingClient p iss (jcSubject unverified))
             (check_assertion p iss tok)) log (Inr c)"
    by (auto simp: verifyClientAssertion_def performs_cases simp del: performs_if)
  with assms(2) have u: "unverified = u" "\<And>k claims. jtClaims tok k = Some claims \<Longrightarrow> claims = u"
    by (auto simp: assertion_payload_def)
  from run obtain l m a where log: "log = l @ m"
      and lk: "performs (lookupAuthenticatingClient p iss (jcSubject unverified)) l (Inr a)"
      and "performs (check_assertion p iss tok a) m (Inr c)"
    by (auto simp: performs_bindE_Inr)
  then obtain keys claims where
      keys: "verify_with_keys tok (hd (jtHeaders tok)) keys = Some claims"
      and ca: "performs (claim_assertion p iss a claims) m (Inr c)"
    by (auto simp: check_assertion_def performs_cases simp del: performs_if)
  have "claims = u" using verify_with_keys_Some [OF keys] u(2) by blast
  moreover have "cID a = jcSubject u" using lookupAuthenticatingClient_Inr [OF lk] u(1) by simp
  ultimately show ?thesis
    using claim_assertion_Inr [OF ca] log by (metis list.set_intros(1,2) set_append UnI2)
qed

lemma authenticateClient_assertion:
  assumes "performs (authenticateClient p r iss q) log (Inr c)"
    and "params_get q ''client_assertion'' \<noteq> []"
  shows "performs (verifyClientAssertion p iss (params_get q ''client_assertion'')) log (Inr c)"
proof -
  have h: "hasAssertion q" using params_get_has [OF assms(2)] by (simp add: hasAssertion_def)
  have one: "\<not> 1 < auth_methods_used r q"
    using assms by (auto simp: authenticateClient_def)
  with h have n: "rBasicAuth r = None" "\<not> params_has q ''client_secret''"
    by (cases "rBasicAuth r"; simp add: auth_methods_used_def split: if_split_asm)+
  show ?thesis
    using assms(1) one by (auto simp: authenticateClient_def n h performs_bindE_Inr split: if_split_asm)
qed

text \<open>C28. A client assertion authenticates one request. In any run of interleaved calls against a
  storage that keeps its contract, if two threads authenticate clients by the same assertion, for
  whatever requests and while the claim on its jti has not expired, at most one of them succeeds.\<close>

theorem client_assertion_once:
  assumes "storage_contract I reqs toks claimed clock sr st"
    and "concurrent I (ps, s) log (qs, s')"
    and "i < length ps" and "j < length ps" and "i \<noteq> j"
    and "ps ! i = authenticateClient p r iss q" and "ps ! j = authenticateClient p r' iss q'"
    and "params_get q ''client_assertion'' = assertion" and "params_get q' ''client_assertion'' = assertion"
    and "assertion \<noteq> []" and "assertion_payload (pvJose p) assertion u"
    and "qs ! i = Ret (Inr c)" and "qs ! j = Ret x"
    and "\<forall>e. EvClaimOnce (assertionKey (rsURL iss) (jcSubject u) (jcID u)) e None \<in> snd ` set log \<longrightarrow>
           clock s' < e"
  shows "\<exists>perr. x = Inl perr"
proof (cases x)
  case (Inr c')
  have "\<exists>e. EvClaimOnce (assertionKey (rsURL iss) (jcSubject u) (jcID u)) e None \<in> set (calls_of i log)"
    using verifyClientAssertion_claims authenticateClient_assertion
      concurrent_performs [OF assms(2,3,12)] assms(6,8,10,11) by metis
  moreover
  have "\<exists>e. EvClaimOnce (assertionKey (rsURL iss) (jcSubject u) (jcID u)) e None \<in> set (calls_of j log)"
    using verifyClientAssertion_claims authenticateClient_assertion
      concurrent_performs [OF assms(2,4) assms(13) [unfolded Inr]] assms(7,9,10,11) by metis
  ultimately have "i = j"
    using storage_contract.concurrent_claim_once [OF assms(1,2,14)] by blast
  with assms(5) show ?thesis by simp
qed simp

text \<open>A client that authenticates with assertions, and two requests with the same one.\<close>

definition jwt_client :: Client where
  "jwt_client = sample_client\<lparr>cAuthMethod := AuthMethodPrivateKeyJWT, cSecretHash := [], cJWKS := ''keys''\<rparr>"

definition jwt_payload :: jwt_claims where
  "jwt_payload =
     \<lparr>jcIssuer = ''app'', jcSubject = ''app'', jcAudience = [''https://op.example''],
      jcExpiry = Some (60 * second), jcNotBefore = None, jcIssuedAt = None, jcID = ''j1''\<rparr>"

definition jwt_token :: parsed_jwt where
  "jwt_token =
     \<lparr>jtHeaders = [\<lparr>jhKeyID = ''ck'', jhAlgorithm = ''RS256''\<rparr>], jtUnverified = Some jwt_payload,
      jtClaims = (\<lambda>k. if k = RSAPublicKey (2 ^ 2047) then Some jwt_payload else None)\<rparr>"

definition jwt_keys :: "json_web_key list" where
  "jwt_keys =
     [\<lparr>jwkKey = RSAPublicKey (2 ^ 2047), jwkKeyID = ''ck'', jwkAlgorithm = ''RS256'', jwkUse = ''sig'',
       jwkIsPublic = True\<rparr>]"

definition jwt_jose :: jose where
  "jwt_jose = sample_jose
     \<lparr>jzParseSigned := \<lambda>s algs. if s = ''assertion'' then Some jwt_token else None,
      jzParseJWKS := \<lambda>b. Some jwt_keys, jzValidateWithLeeway := \<lambda>c e d. True\<rparr>"

definition jwt_p :: Provider where
  "jwt_p = sample_p\<lparr>pvJose := jwt_jose\<rparr>"

definition jwt_params :: params where
  "jwt_params =
     \<lparr>pValues = [(''client_assertion'', ''assertion''), (''client_assertion_type'', clientAssertionTypeJWT)],
      pRepeated = []\<rparr>"

definition jwt_http :: Request where
  "jwt_http = sample_http\<lparr>rAuthorization := [], rBasicAuth := None\<rparr>"

definition jwt_world :: "(string \<Rightarrow> time option) \<Rightarrow> world" where
  "jwt_world m =
     \<lparr>wStore = store_New\<lparr>msClients := [(''https://op.example'', ''app'') \<mapsto> jwt_client], msClaims := m\<rparr>,
      wNow = 12 * second, wTicks = [], wRandom = []\<rparr>"

definition jwt_key :: string where
  "jwt_key = assertionKey ''https://op.example'' ''app'' ''j1''"

definition jwt_log :: "goerr option \<Rightarrow> event list" where
  "jwt_log r =
     [EvClient ''https://op.example'' ''app'' (Inr (Some jwt_client)), EvNow (12 * second),
      EvClaimOnce jwt_key (90 * second) r]"

lemmas jwt_defs = jwt_client_def jwt_payload_def jwt_token_def jwt_keys_def jwt_jose_def jwt_p_def
  jwt_params_def jwt_http_def

lemma jwt_client_ok: "check_client sample_cfg ''app'' jwt_client = None"
  using sample_client_checks
  by (simp add: check_client_None client_ok_def client_validate_None validate_authMethod_def
      validate_pkce_def client_isPublic_def client_authMethod_def client_grantTypes_def jwt_client_def
      sample_client_def)

lemma jwt_params_get [simp]:
  "params_get jwt_params ''client_assertion'' = ''assertion''"
  "params_get jwt_params ''client_assertion_type'' = clientAssertionTypeJWT"
  "params_get jwt_params ''client_id'' = []" "params_has jwt_params ''client_secret'' = False"
  "hasAssertion jwt_params"
  by (simp_all add: params_get_def params_has_def hasAssertion_def map_get_def map_has_def jwt_params_def)

lemma jwt_run:
  "performs (authenticateClient jwt_p jwt_http sample_iss jwt_params) (jwt_log r)
     (case r of None \<Rightarrow> Inr jwt_client
      | Some err \<Rightarrow> if errors_Is err ErrConflict
                    then Inl (errInvalidClient ''client_assertion was already used'')
                    else Inl (errServer err))"
proof -
  have 1: "auth_methods_used jwt_http jwt_params = 1"
    by (simp add: auth_methods_used_def jwt_http_def)
  have 2: "rsURL sample_iss = ''https://op.example''" by (simp add: sample_iss_def)
  have 3: "pvCfg jwt_p = sample_cfg" "pvJose jwt_p = jwt_jose" by (simp_all add: jwt_p_def)
  have 4: "jzParseSigned jwt_jose ''assertion'' assertionAlgorithms = Some jwt_token"
    "jzParseJWKS jwt_jose (cJWKS jwt_client) = Some jwt_keys" by (simp_all add: jwt_jose_def)
  have 5: "verify_with_keys jwt_token (hd (jtHeaders jwt_token)) jwt_keys = Some jwt_payload"
    by (simp add: jwt_token_def jwt_keys_def assertion_key_usable_def)
  have 6: "check_assertion_claims jwt_p sample_iss jwt_client jwt_payload (12 * second) = Inr (60 * second)"
    by (simp add: check_assertion_claims_def jwt_defs time_After_def time_Add_def
        maxAssertionLifetime_def second_def minute_def hour_def)
  have 7: "client_authMethod jwt_client = AuthMethodPrivateKeyJWT" "cID jwt_client = ''app''"
    by (simp_all add: client_authMethod_def jwt_client_def sample_client_def)
  have 8: "rBasicAuth jwt_http = None" by (simp add: jwt_http_def)
  have 9: "length (jtHeaders jwt_token) = 1" "jtUnverified jwt_token = Some jwt_payload"
      "jcSubject jwt_payload = ''app''" "jcID jwt_payload = ''j1''"
    by (simp_all add: jwt_token_def jwt_payload_def)
  have 10: "time_Add (60 * second) assertionLeeway = 90 * second"
    by (simp add: time_Add_def assertionLeeway_def second_def)
  show ?thesis
    by (cases r) (simp_all add: run_log_simps jwt_log_def authenticateClient_def 1 2 3 4 5 6 7 8 9 10
        verifyClientAssertion_def lookupAuthenticatingClient_def provider_client_def jwt_client_ok
        check_assertion_def claim_assertion_def jwt_key_def)
qed

lemma jwt_clone: "clone_client jwt_client = jwt_client"
  by (simp add: clone_client_def clone_strings_def jwt_client_def sample_client_def byte_def)

lemma jwt_serves:
  "serves mem (jwt_log None) (jwt_world Map.empty) = Some (jwt_world [jwt_key \<mapsto> 90 * second])"
  "serves mem (jwt_log (Some ErrConflict)) (jwt_world [jwt_key \<mapsto> 90 * second]) =
     Some (jwt_world [jwt_key \<mapsto> 90 * second])"
  by (simp_all add: jwt_log_def answered_def on_store_def jwt_world_def store_Client_def world_now_def
      jwt_clone store_ClaimOnce_def store_collectLocked_def store_New_def time_Sub_def time_Before_def
      minute_def second_def min_duration_def max_duration_def Let_def)

theorem client_assertion_once_witness:
  "\<exists>perr. (Inl (errInvalidClient ''client_assertion was already used'') :: perror + Client) = Inl perr"
proof -
  define ps where
    "ps = replicate 2 (authenticateClient jwt_p jwt_http sample_iss jwt_params)"
  have len: "length ps = 2" and nth: "ps ! 0 = authenticateClient jwt_p jwt_http sample_iss jwt_params"
      "ps ! 1 = authenticateClient jwt_p jwt_http sample_iss jwt_params"
      "ps ! Suc 0 = authenticateClient jwt_p jwt_http sample_iss jwt_params"
    by (simp_all add: ps_def)
  define qs where "qs = ps[0 := Ret (Inr jwt_client)]"
  define qs' where "qs' = qs[1 := Ret (Inl (errInvalidClient ''client_assertion was already used''))]"
  have "concurrent mem (ps, jwt_world Map.empty) ([] @ map (Pair 0) (jwt_log None))
      (qs, jwt_world [jwt_key \<mapsto> 90 * second])"
    unfolding qs_def
    by (rule concurrent_thread [OF concurrent_start])
      (use jwt_run [of None] jwt_serves(1) in \<open>simp_all add: len nth performs_def\<close>)
  then have run: "concurrent mem (ps, jwt_world Map.empty)
      (([] @ map (Pair 0) (jwt_log None)) @ map (Pair 1) (jwt_log (Some ErrConflict)))
      (qs', jwt_world [jwt_key \<mapsto> 90 * second])"
    unfolding qs'_def
    by (rule concurrent_thread)
      (use jwt_run [of "Some ErrConflict"] jwt_serves(2) in \<open>simp_all add: qs_def len nth performs_def\<close>)
  have pay: "assertion_payload (pvJose jwt_p) ''assertion'' jwt_payload"
    by (auto simp: assertion_payload_def jwt_p_def jwt_jose_def jwt_token_def split: if_split_asm)
  show ?thesis
    by (rule client_assertion_once [where i = 0 and j = 1 and q = jwt_params and q' = jwt_params
          and u = jwt_payload and r = jwt_http and r' = jwt_http and p = jwt_p and iss = sample_iss
          and c = jwt_client and assertion = "''assertion''", OF memory.storage_contract_axioms run])
      (use pay in \<open>auto simp: len nth qs'_def qs_def jwt_log_def jwt_world_def second_def\<close>)
qed

end
