(* ===== verification/Grantor_TokenEndpoint.thy ===== *)
theory Grantor_TokenEndpoint
  imports Grantor_AssertionProps
begin

text \<open>
  The token endpoint as a whole, from the HTTP request to the stored tokens: parsing, client
  authentication, the exchange and the response.
\<close>

section \<open>The token endpoint\<close>

lemma storing_authenticate: "storing (\<lambda>_. False) (authenticateClient p r iss q)"
proof -
  have ops: "storing (\<lambda>_. False) (storage_ClaimOnce k e)" "storing (\<lambda>_. False) (clients_Client i c)"
    for k e i c by (simp_all add: op_defs)
  show ?thesis
    unfolding authenticateClient_def authenticateWithSecret_def lookupAuthenticatingClient_def
      verifyClientAssertion_def check_assertion_def claim_assertion_def provider_client_def
    by (intro makes_intros ops)
qed

lemma parseToken_Inr:
  assumes "performs (parseToken p r iss) log (Inr req)"
  obtains q c where "rMethod r = ''POST''" and "parseForm r = Inr q" and "pRepeated q = []"
    and "performs (authenticateClient p r iss q) log (Inr c)" and "req = new_token_request r iss q c"
  using assms
  by (auto simp: parseToken_def performs_cases performs_bindE_Inr result_cases simp del: performs_if
      split: if_split_asm)

lemma parseToken_creates:
  assumes "performs (parseToken p r iss) log x"
  shows "EvCreateToken u a \<notin> set log"
proof -
  have "storing (\<lambda>_. False) (parseToken p r iss)"
    unfolding parseToken_def by (intro makes_intros storing_authenticate)
  from storing_performs [OF this assms] show ?thesis by blast
qed

text \<open>C27. The token endpoint stores tokens for authenticated clients only. If answering a request
  creates a token, then the request was a POST with unrepeated form parameters, the client it names
  was looked up in the store of the issuer and proved itself before, by its secret, an assertion of its
  own or as a public client, and the token is within that client's registration.\<close>

theorem token_endpoint_authenticates:
  assumes "performs (serveToken p w r iss) log w'" and "EvCreateToken u a \<in> set log"
  shows "\<exists>q c l m. rMethod r = ''POST'' \<and> parseForm r = Inr q \<and> pRepeated q = [] \<and> log = l @ m \<and>
     authenticated_as p r iss q l c \<and> EvCreateToken u a \<in> set m \<and>
     tClientID u = cID c \<and> issued_for (new_token_request r iss q c) u"
proof -
  have "allowMethods r [''POST''] w = None"
    using assms by (cases "allowMethods r [''POST''] w") (auto simp: serveToken_def)
  then obtain l m x where log: "log = l @ m" and parse: "performs (parseToken p r iss) l x"
      and rest: "performs (case x of Inl perr \<Rightarrow> Ret (WriteTokenError r (EProto perr) w)
            | Inr req \<Rightarrow> bind (exchange p (Some req)) (\<lambda>x. Ret
                  (case x of Inl perr \<Rightarrow> WriteTokenError r (EProto perr) w
                   | Inr resp \<Rightarrow> WriteTokenResponse resp w))) m w'"
    using assms(1) by (auto simp: serveToken_def performs_bind)
  have m: "EvCreateToken u a \<in> set m"
    using assms(2) parseToken_creates [OF parse] log by auto
  with rest obtain req where x: "x = Inr req" by (cases x) auto
  with rest obtain y where "performs (exchange p (Some req)) m y" by (auto simp: performs_bind)
  from storing_performs [OF storing_exchange this m] have issued: "issued_for req u" .
  from parse [unfolded x] obtain q c where q: "rMethod r = ''POST''" "parseForm r = Inr q" "pRepeated q = []"
      "performs (authenticateClient p r iss q) l (Inr c)" "req = new_token_request r iss q c"
    by (rule parseToken_Inr)
  have "tClientID u = cID c"
    using issued by (auto simp: issued_for_def within_registration_def q(5) new_token_request_def Let_def)
  then show ?thesis
    using q(1-3,5) authenticateClient_Inr [OF q(4)] issued m log by blast
qed

text \<open>The client redeems its code over HTTP.\<close>

definition token_form :: url_values where
  "token_form =
     [(''grant_type'', [GrantTypeAuthorizationCode]), (''code'', [''c0de'']),
      (''redirect_uri'', [''https://rp.example/cb''])]"

definition token_http :: Request where
  "token_http = sample_http\<lparr>rPostForm := Some token_form\<rparr>"

definition token_params :: params where
  "token_params =
     \<lparr>pValues = map_put ''redirect_uri'' ''https://rp.example/cb'' (map_put ''code'' ''c0de''
        [(''grant_type'', GrantTypeAuthorizationCode)]), pRepeated = []\<rparr>"

lemma token_form_parsed: "parseForm token_http = Inr token_params"
  by (simp add: parseForm_def token_http_def sample_http_def newParams_def token_params_def
      token_form_def map_put_def)

lemma basic_authenticates:
  assumes "rBasicAuth r = Some (''app'', ''s3cret'')" and "params_get q ''client_id'' = []"
    and "\<not> params_has q ''client_secret''" and "\<not> hasAssertion q"
  shows "performs (authenticateClient sample_p r sample_iss q)
     [EvClient ''https://op.example'' ''app'' (Inr (Some sample_client))] (Inr sample_client)"
proof -
  have u: "url_QueryUnescape ''app'' = Some ''app''" "url_QueryUnescape ''s3cret'' = Some ''s3cret''"
    by code_simp+
  have c: "client_usesSecret sample_client" "client_verifySecret sample_client ''s3cret''"
    by (simp_all add: verifySecret_iff client_usesSecret_def client_authMethod_def sample_client_def
        HashClientSecret_def)
  have i: "rsURL sample_iss = ''https://op.example''" by (simp add: sample_iss_def)
  show ?thesis
    by (simp add: run_log_simps authenticateClient_def auth_methods_used_def assms u c i
        authenticateWithSecret_def lookupAuthenticatingClient_def provider_client_def)
qed

definition token_log :: "event list" where
  "token_log = [EvClient ''https://op.example'' ''app'' (Inr (Some sample_client))] @ code_log"

lemma serveToken_run:
  "performs (serveToken sample_p fresh_writer token_http sample_iss) token_log
     (WriteTokenResponse code_resp fresh_writer)"
proof -
  define req where "req = new_token_request token_http sample_iss token_params sample_client"
  have q: "params_get token_params ''client_id'' = []" "\<not> params_has token_params ''client_secret''"
      "\<not> hasAssertion token_params" "pRepeated token_params = []" "params_has token_params ''grant_type''"
    by (simp_all add: params_get_def params_has_def map_get_def map_has_def hasAssertion_def token_params_def)
  have h: "rBasicAuth token_http = Some (''app'', ''s3cret'')" "rMethod token_http = ''POST''"
    by (simp_all add: token_http_def sample_http_def)
  have parse: "performs (parseToken sample_p token_http sample_iss)
      [EvClient ''https://op.example'' ''app'' (Inr (Some sample_client))] (Inr req)"
    using basic_authenticates [OF h(1) q(1-3)]
    by (simp add: parseToken_def h token_form_parsed q performs_bindE_Inr req_def)
      (rule exI, rule exI [of _ "[]"], auto)
  have "redeems_code req"
    by (simp add: redeems_code_def req_def new_token_request_def token_params_def params_get_def
        params_has_def map_get_def map_has_def checkTokenRequest_def values_Get_def map_put_def Let_def)
  from redeems_code_run [OF this] have run: "performs (exchange sample_p (Some req)) code_log (Inr code_resp)" .
  from performs_bindI [OF run, of "\<lambda>x. Ret (case x of
        Inl perr \<Rightarrow> WriteTokenError token_http (EProto perr) fresh_writer
      | Inr resp \<Rightarrow> WriteTokenResponse resp fresh_writer)" "[]"]
  have "performs (bind (exchange sample_p (Some req)) (\<lambda>x. Ret (case x of
        Inl perr \<Rightarrow> WriteTokenError token_http (EProto perr) fresh_writer
      | Inr resp \<Rightarrow> WriteTokenResponse resp fresh_writer))) code_log (WriteTokenResponse code_resp fresh_writer)"
    by simp
  then show ?thesis
    unfolding serveToken_def token_log_def
    by (simp add: allowMethods_def h) (rule performs_bindI [OF parse, where m = code_log, simplified], simp)
qed

theorem token_endpoint_authenticates_witness:
  "\<exists>q c l m. parseForm token_http = Inr q \<and> token_log = l @ m \<and>
     authenticated_as sample_p token_http sample_iss q l c \<and> tClientID sample_access = cID c"
proof -
  have "EvCreateToken sample_access None \<in> set token_log"
    by (simp add: token_log_def code_log_def sample_access_def)
  from token_endpoint_authenticates [OF serveToken_run this] show ?thesis by blast
qed

end
