(* ===== verification/Grantor_CostProps.thy ===== *)
theory Grantor_CostProps
  imports Grantor_Server Grantor_TokenEndpoint
begin

text \<open>
  How many calls a request costs: an upper bound on the calls each endpoint makes to the storage, the
  client store, the clock and the random source, whatever these answer.
\<close>

section \<open>Bounded programs\<close>

text \<open>\<open>costs R n p\<close>: the program makes at most \<open>n\<close> calls, and what it returns satisfies \<open>R\<close>.\<close>

primrec costs :: "('a \<Rightarrow> bool) \<Rightarrow> nat \<Rightarrow> 'a prog \<Rightarrow> bool" where
  "costs R n (Ret a) = R a"
| "costs R n (OpCreateRequest q k) = (0 < n \<and> (\<forall>r. costs R (n - 1) (k r)))"
| "costs R n (OpLoadRequest i k) = (0 < n \<and> (\<forall>r. costs R (n - 1) (k r)))"
| "costs R n (OpDeleteRequest i k) = (0 < n \<and> (\<forall>r. costs R (n - 1) (k r)))"
| "costs R n (OpCreateToken t k) = (0 < n \<and> (\<forall>r. costs R (n - 1) (k r)))"
| "costs R n (OpLoadToken h k) = (0 < n \<and> (\<forall>r. costs R (n - 1) (k r)))"
| "costs R n (OpConsumeToken h m k) = (0 < n \<and> (\<forall>r. costs R (n - 1) (k r)))"
| "costs R n (OpRevokeToken h k) = (0 < n \<and> (\<forall>r. costs R (n - 1) (k r)))"
| "costs R n (OpRevokeGrant g k) = (0 < n \<and> (\<forall>r. costs R (n - 1) (k r)))"
| "costs R n (OpClaimOnce c e k) = (0 < n \<and> (\<forall>r. costs R (n - 1) (k r)))"
| "costs R n (OpClient i c k) = (0 < n \<and> (\<forall>r. costs R (n - 1) (k r)))"
| "costs R n (OpNow k) = (0 < n \<and> (\<forall>r. costs R (n - 1) (k r)))"
| "costs R n (OpRand k) = (0 < n \<and> (\<forall>r. costs R (n - 1) (k r)))"

abbreviation calls_at_most :: "nat \<Rightarrow> 'a prog \<Rightarrow> bool" where
  "calls_at_most n p \<equiv> costs (\<lambda>_. True) n p"

lemma costs_mono: "costs R m p \<Longrightarrow> m \<le> n \<Longrightarrow> costs R n p"
proof (induction p arbitrary: m n)
  case (Ret a)
  then show ?case by simp
qed (simp; meson diff_le_mono rangeI)+

lemma costs_bind:
  "costs R m p \<Longrightarrow> (\<And>a. R a \<Longrightarrow> costs S n (f a)) \<Longrightarrow> costs S (m + n) (bind p f)"
proof (induction p arbitrary: m)
  case (Ret a)
  then show ?case using costs_mono [of S n "f a" "m + n"] by simp
qed (simp, metis Nat.add_diff_assoc2 Suc_leI rangeI One_nat_def)+

lemma costs_advance: "costs R n p \<Longrightarrow> advance p ev = Some q \<Longrightarrow> 0 < n \<and> costs R (n - 1) q"
  by (cases p; cases ev) (auto split: if_split_asm)

lemma costs_after: "costs R n p \<Longrightarrow> after p log = Some q \<Longrightarrow> length log \<le> n \<and> costs R (n - length log) q"
proof (induction log arbitrary: p n)
  case (Cons ev log)
  then obtain p' where p': "advance p ev = Some p'" "after p' log = Some q"
    by (auto split: option.splits)
  from costs_advance [OF Cons.prems(1) p'(1)] Cons.IH [OF _ p'(2), of "n - 1"] show ?case by auto
qed simp

named_theorems costs_intros \<open>rules that add up the calls of a program\<close>

lemma costs_Ret [costs_intros]: "calls_at_most 0 (Ret a)"
  by simp

lemma calls_bind [costs_intros]:
  "calls_at_most m p \<Longrightarrow> (\<And>a. calls_at_most n (f a)) \<Longrightarrow> calls_at_most (m + n) (bind p f)"
  by (rule costs_bind) auto

lemma calls_bindE [costs_intros]:
  "calls_at_most m p \<Longrightarrow> (\<And>a. calls_at_most n (f a)) \<Longrightarrow> calls_at_most (m + n) (bindE p f)"
  unfolding bindE_def by (rule calls_bind) (auto split: sum.split)

lemma calls_bindE_result:
  assumes "costs (\<lambda>x. \<forall>a. x = Inr a \<longrightarrow> R a) m p" and "\<And>a. R a \<Longrightarrow> calls_at_most n (f a)"
  shows "calls_at_most (m + n) (bindE p f)"
  unfolding bindE_def by (rule costs_bind [OF assms(1)]) (auto simp: assms(2) split: sum.split)

lemma calls_branches [costs_intros]:
  "calls_at_most m p \<Longrightarrow> calls_at_most n q \<Longrightarrow> calls_at_most (max m n) (if c then p else q)"
  "(\<And>e. calls_at_most m (f e)) \<Longrightarrow> (\<And>a. calls_at_most n (g a)) \<Longrightarrow>
     calls_at_most (max m n) (case_sum f g x)"
  "calls_at_most m no \<Longrightarrow> (\<And>a. calls_at_most n (h a)) \<Longrightarrow>
     calls_at_most (max m n) (case_option no h y)"
  "(\<And>a b. calls_at_most n (k a b)) \<Longrightarrow> calls_at_most n (case_prod k z)"
  "calls_at_most n (b v) \<Longrightarrow> calls_at_most n (Let v b)"
  by (auto intro: costs_mono [OF _ max.cobounded1] costs_mono [OF _ max.cobounded2]
      split: sum.split option.split prod.split)

lemma calls_ops [costs_intros]:
  "calls_at_most 1 provider_now" "calls_at_most 1 randomToken" "calls_at_most 1 (clients_Client i c)"
  "calls_at_most 1 (storage_CreateAuthorizationRequest q)"
  "calls_at_most 1 (storage_AuthorizationRequest i)" "calls_at_most 1 (storage_DeleteAuthorizationRequest i)"
  "calls_at_most 1 (storage_CreateToken t)" "calls_at_most 1 (storage_Token h)"
  "calls_at_most 1 (storage_ConsumeToken h n)" "calls_at_most 1 (storage_RevokeToken h)"
  "calls_at_most 1 (storage_RevokeGrant g)" "calls_at_most 1 (storage_ClaimOnce k e)"
  by (simp_all add: op_defs)

section \<open>The parts of the endpoints\<close>

lemma calls_client [costs_intros]: "calls_at_most 1 (provider_client p iss i)"
  unfolding provider_client_def by (rule costs_mono, (rule costs_intros)+, simp)

lemma calls_authenticate [costs_intros]: "calls_at_most 3 (authenticateClient p r iss q)"
  unfolding authenticateClient_def authenticateWithSecret_def lookupAuthenticatingClient_def
    verifyClientAssertion_def check_assertion_def claim_assertion_def
  by (rule costs_mono, (rule costs_intros)+, simp)

lemma calls_storeTokens: "length ts \<le> n \<Longrightarrow> calls_at_most n (storeTokens ts)"
proof (induction ts arbitrary: n)
  case (Cons t ts)
  then obtain m where n: "n = 1 + m" "length ts \<le> m" by (cases n) auto
  have "calls_at_most (1 + max m 0) (storeTokens (t # ts))"
    unfolding storeTokens.simps by (rule costs_intros Cons.IH [OF n(2)])+
  then show ?case by (simp add: n)
qed simp

lemma calls_discardTokens: "length ts \<le> n \<Longrightarrow> calls_at_most n (discardTokens ts)"
proof (induction ts arbitrary: n)
  case (Cons t ts)
  then obtain m where n: "n = 1 + m" "length ts \<le> m" by (cases n) auto
  have "calls_at_most (1 + m) (discardTokens (t # ts))"
    unfolding discardTokens.simps by (rule costs_intros Cons.IH [OF n(2)])+
  then show ?case by (simp add: n)
qed simp

lemma calls_unused [costs_intros]: "calls_at_most 1 (checkUnused t)"
  unfolding checkUnused_def revokeReusedGrant_def by (rule costs_mono, (rule costs_intros)+, simp)

lemma calls_consume [costs_intros]: "calls_at_most 3 (consume h)"
  unfolding consume_def revokeReusedGrant_def by (rule costs_mono, (rule costs_intros)+, simp)

lemma calls_mint_parts [costs_intros]:
  "calls_at_most 1 (encodeAccessToken p iss client f x)"
  "calls_at_most 1 (issueIDToken p iss client g nonce at l extra)"
  "calls_at_most 1 (singleUseToken iss client h typ)"
  unfolding encodeAccessToken_def issueIDToken_def singleUseToken_def
  by (rule costs_mono, (rule costs_intros)+, simp)+

text \<open>Minting makes at most an access and a refresh token.\<close>

lemma costs_mint:
  "costs (\<lambda>x. \<forall>m. x = Inr m \<longrightarrow> length (mtRecords m) \<le> 2) 5
     (mintTokens p iss client grant plan withID nonce gt)"
proof -
  let ?R = "\<lambda>x :: perror + mintedTokens. \<forall>m. x = Inr m \<longrightarrow> length (mtRecords m) \<le> 2"
  have "costs ?R (1 + (1 + (1 + (1 + (1 + 0)))))
      (mintTokens p iss client grant plan withID nonce gt)"
    unfolding mintTokens_def
  proof (rule costs_bind [OF calls_ops(1)], rule costs_bind [OF calls_ops(2)],
      rule costs_bind [OF calls_mint_parts(1)])
    fix now i and x :: "goerr + string"
    have r: "calls_at_most 1 (if ipRefresh plan then bind randomToken (\<lambda>v. Ret (Some v)) else Ret None)"
      by (rule costs_mono, (rule costs_intros)+, simp)
    show "costs ?R (1 + (1 + 0)) (case x of
         Inl err \<Rightarrow> Ret (Inl (errServer err))
       | Inr accessToken \<Rightarrow>
           (let access = access_record grant now accessToken plan in
            bind (if ipRefresh plan then bind randomToken (\<lambda>v. Ret (Some v)) else Ret None)
              (\<lambda>refreshToken.
            (let records =
                   access # (case refreshToken of
                               Some v \<Rightarrow> [refresh_record grant now v plan] | None \<Rightarrow> []);
                 refresh = (case refreshToken of Some v \<Rightarrow> v | None \<Rightarrow> [])
             in if withID \<and> tSubject grant \<noteq> []
                then bind (issueIDToken p iss client access nonce accessToken (ipIDLifetime plan)
                            (ipIDClaims plan)) (\<lambda>r. Ret
                  (case r of
                     Inl err \<Rightarrow> Inl (errServer err)
                   | Inr idToken \<Rightarrow>
                       Inr \<lparr>mtResp = new_response plan accessToken refresh idToken,
                            mtRecords = records\<rparr>))
                else Ret (Inr \<lparr>mtResp = new_response plan accessToken refresh [],
                               mtRecords = records\<rparr>)))))"
    proof (cases x)
      case (Inr v)
      show ?thesis
        unfolding Inr sum.case Let_def
        by (rule costs_bind [OF r], simp only: split: if_split, intro conjI impI,
            rule costs_bind [OF calls_mint_parts(2)])
          (auto split: sum.split option.split)
    qed simp
  qed
  then show ?thesis by (rule costs_mono) simp
qed

lemma calls_storeAndConsume:
  "length (mtRecords minted) \<le> 2 \<Longrightarrow> calls_at_most 7 (storeAndConsume minted h)"
  unfolding storeAndConsume_def
  by (rule costs_mono, (rule costs_intros calls_storeTokens calls_discardTokens | assumption)+) simp

lemmas costs_mint_bind = calls_bindE_result [where R = "\<lambda>m. length (mtRecords m) \<le> 2", OF costs_mint]

lemma calls_storeAndDiscard:
  "length ts \<le> 2 \<Longrightarrow> calls_at_most 4 (bind (storeTokens ts) (\<lambda>r.
     case r of Some perr \<Rightarrow> bind (discardTokens ts) (\<lambda>_. Ret (Inl perr)) | None \<Rightarrow> Ret (Inr x)))"
  by (rule costs_mono, (rule costs_intros calls_storeTokens calls_discardTokens | assumption)+) simp

lemma calls_issueTokens [costs_intros]:
  "calls_at_most 9 (issueTokens p req client grant scopes withRefresh)"
  unfolding issueTokens_def
  by (rule costs_mono, (rule costs_mint_bind costs_intros calls_storeAndDiscard | assumption)+, simp)

lemma calls_grants [costs_intros]:
  "calls_at_most 14 (exchangeAuthorizationCode p req client)"
  "calls_at_most 14 (exchangeRefreshToken p req client)"
  "calls_at_most 14 (exchangeClientCredentials p req client)"
  "calls_at_most 14 (issueGrant p req client g)"
  unfolding exchangeAuthorizationCode_def exchangeRefreshToken_def exchangeClientCredentials_def
    issueGrant_def Let_def
  by (rule costs_mono, (rule costs_mint_bind costs_intros calls_storeAndConsume | assumption)+, simp)+

lemma calls_exchange [costs_intros]: "calls_at_most 14 (exchange p req)"
  unfolding exchange_def Let_def by (rule costs_mono, (rule costs_intros)+, simp)

lemma calls_parse [costs_intros]:
  "calls_at_most 1 (provider_authorizationTarget p iss q)"
  "calls_at_most 1 (parseAuthorizationRequest p iss client q target pushed)"
  "calls_at_most 3 (takePushedRequest p iss i ref)" "calls_at_most 1 (redeem_checked p iss taken c)"
  unfolding provider_authorizationTarget_def parseAuthorizationRequest_def takePushedRequest_def
    redeem_checked_def Let_def
  by (rule costs_mono, (rule costs_intros)+, simp)+

lemma calls_parseAuthorization [costs_intros]:
  "calls_at_most 5 (redeemPushedRequest p iss q)" "calls_at_most 5 (parseAuthorization p r iss)"
  "calls_at_most 5 (parsePushedAuthorization p r iss)"
  unfolding redeemPushedRequest_def parseAuthorization_def parsePushedAuthorization_def Let_def
  by (rule costs_mono, (rule costs_intros)+, simp)+

lemma calls_save [costs_intros]:
  "calls_at_most 4 (SaveAuthorizationRequest p w r req)" "calls_at_most 4 (pushAuthorization p iss reqo)"
  unfolding SaveAuthorizationRequest_def pushAuthorization_def Let_def
  by (rule costs_mono, (rule costs_intros)+, simp)+

lemma calls_parseToken [costs_intros]: "calls_at_most 3 (parseToken p r iss)"
  "calls_at_most 3 (authenticatedForm p r iss)"
  unfolding parseToken_def authenticatedForm_def by (rule costs_mono, (rule costs_intros)+, simp)+

lemma calls_endpoints [costs_intros]:
  "calls_at_most 17 (serveToken p w r iss)" "calls_at_most 5 (serveIntrospection p w r iss)"
  "calls_at_most 5 (serveRevocation p w r iss)" "calls_at_most 2 (serveUserInfo p w r iss)"
  "calls_at_most 9 (servePushedAuthorization p w r iss)" "calls_at_most 0 (serveJWKS p w r iss)"
  "calls_at_most 0 (serveDiscovery p w r iss)"
  unfolding serveToken_def serveIntrospection_def serveRevocation_def serveUserInfo_def
    servePushedAuthorization_def serveJWKS_def serveDiscovery_def introspect_def revokePresented_def
    userInfo_def Let_def
  by (rule costs_mono, (rule costs_intros)+, simp)+

lemma calls_complete [costs_intros]:
  "calls_at_most 3 (completable p w r reqo b)" "calls_at_most 1 (validateApproval req a)"
  "calls_at_most 1 (complete_saved req)" "calls_at_most 4 (issue_code p w r iss req a sc cl aud)"
  unfolding completable_def current_request_def loadPending_def validateApproval_def complete_saved_def
    completeRequest_def issue_code_def Let_def
  by (rule costs_mono, (rule costs_intros)+, simp)+

lemma calls_Approve: "calls_at_most 9 (Approve p w r reqo a)"
  unfolding Approve_def by (rule costs_mono, (rule costs_intros)+, simp)

lemma calls_Deny: "calls_at_most 4 (Deny p w r reqo reason)"
  unfolding Deny_def Let_def by (rule costs_mono, (rule costs_intros)+, simp)

lemma calls_serveAuthorization:
  assumes "\<forall>interact w r req. cfInteract (pvCfg p) = Some interact \<longrightarrow> calls_at_most k (interact w r req)"
  shows "calls_at_most (9 + k) (serveAuthorization p w r iss)"
proof (cases "cfInteract (pvCfg p)")
  case None
  show ?thesis
    unfolding serveAuthorization_def None option.case
    by (rule costs_mono, (rule costs_intros)+, simp)
next
  case (Some interact)
  then have i: "calls_at_most k (interact w' r' req)" for w' r' req using assms by blast
  show ?thesis
    unfolding serveAuthorization_def Some option.case(2)
    by (rule costs_mono, (rule costs_intros i)+, simp)
qed

section \<open>The property\<close>

text \<open>C38. Every request ends after a bounded number of calls. Whatever the storage, the client store and
  the clock answer, however long the lists in the request and the registrations are, and wherever the
  run is stopped, ServeHTTP has made at most 17 calls, or 9 and those of the application's Interact
  function when this is more; an approval makes at most 9, a denial at most 4.\<close>

theorem calls_per_request:
  assumes "\<forall>interact w r req. cfInteract (pvCfg p) = Some interact \<longrightarrow> calls_at_most k (interact w r req)"
  shows "(after (ServeHTTP p w r) log = Some rest \<longrightarrow> length log \<le> max 17 (9 + k)) \<and>
     (after (Approve p w r reqo a) log' = Some rest' \<longrightarrow> length log' \<le> 9) \<and>
     (after (Deny p w r reqo reason) log' = Some rest' \<longrightarrow> length log' \<le> 4)"
proof -
  have serve: "calls_at_most (max 17 (9 + k)) (ServeHTTP p w r)"
    unfolding ServeHTTP_def withIssuer_def route_def Let_def
    by (rule costs_mono, (rule costs_intros calls_serveAuthorization [OF assms])+) simp
  then show ?thesis
    using costs_after [OF serve, of log rest] costs_after [OF calls_Approve, of p w r reqo a log' rest']
      costs_after [OF calls_Deny, of p w r reqo reason log' rest'] by blast
qed

lemma token_routed:
  "ServeHTTP sample_p fresh_writer token_http = serveToken sample_p fresh_writer token_http sample_iss"
  by (simp add: ServeHTTP_def withIssuer_def provider_issuerFor_def route_def token_http_def sample_http_def
      sample_iss_def sample_cfg_def sample_endpoints_def strings_CutPrefix_def
      PathAuthorizationServerMetadata_def strings_HasPrefix_def Let_def)

theorem calls_per_request_witness:
  "after (ServeHTTP sample_p fresh_writer token_http) token_log =
     Some (Ret (WriteTokenResponse code_resp fresh_writer)) \<and> length token_log \<le> 17"
proof -
  have "\<forall>interact w r req. cfInteract (pvCfg sample_p) = Some interact \<longrightarrow> calls_at_most 8 (interact w r req)"
    by (simp add: sample_cfg_def)
  from calls_per_request [OF this, of fresh_writer token_http token_log] serveToken_run
  show ?thesis by (simp add: performs_def token_routed)
qed

end
