(* ===== verification/Grantor_StoreProps.thy ===== *)
theory Grantor_StoreProps
  imports Grantor_TokenSafety
begin

text \<open>
  memory.Store as an implementation of the storage contract, and what it keeps of the records it is
  given.
\<close>

section \<open>Records that survive JSON\<close>

fun claim_stable :: "string \<times> ClaimRequest option \<Rightarrow> bool" where
  "claim_stable (n, None) = (json_string n = n)"
| "claim_stable (n, Some r) =
     (json_string n = n \<and> json_stable (crValue r) \<and> list_all json_stable (crValues r))"

definition claims_stable :: "ClaimsRequest \<Rightarrow> bool" where
  "claims_stable c \<longleftrightarrow> list_all claim_stable (cqUserInfo c) \<and> list_all claim_stable (cqIDToken c)"

definition token_stable :: "Token \<Rightarrow> bool" where
  "token_stable t \<longleftrightarrow>
     (\<forall>v \<in> {tHash t, tGrantID t, tIssuer t, tClientID t, tSubject t, tACR t, tRedirectURI t, tNonce t,
             tCodeChallenge t, tCodeChallengeMethod t} \<union> set (tScopes t) \<union> set (tAMR t) \<union> set (tAudience t).
        json_string v = v) \<and>
     (\<forall>c. tClaims t = Some c \<longrightarrow> claims_stable c) \<and> json_map_stable (tAccessTokenClaims t)"

lemma clone_strings_stable: "\<forall>v \<in> set vs. json_string v = v \<Longrightarrow> clone_strings vs = vs"
  by (simp add: clone_strings_def map_idI)

lemma clone_claim_map_stable: "list_all claim_stable m \<Longrightarrow> clone_claim_map m = m"
proof (induction m)
  case (Cons nr m)
  have "(\<lambda>(n, r). (json_string n, map_option clone_claim_request r)) nr = nr"
  proof (cases nr rule: claim_stable.cases)
    case (2 n r)
    then have "json_roundtrip (crValue r) = crValue r" "map json_roundtrip (crValues r) = crValues r"
      using Cons.prems json_stable_roundtrip by (auto simp: list_all_iff intro!: map_idI)
    with 2 Cons.prems show ?thesis by (simp add: clone_claim_request_def)
  qed (use Cons.prems in simp)
  with Cons show ?case by (simp add: clone_claim_map_def)
qed (simp add: clone_claim_map_def)

lemma clone_token_stable: "token_stable t \<Longrightarrow> clone_token t = t"
proof -
  assume t: "token_stable t"
  have "map_option clone_claims (tClaims t) = tClaims t"
  proof (cases "tClaims t")
    case (Some c)
    then have "clone_claim_map (cqUserInfo c) = cqUserInfo c" "clone_claim_map (cqIDToken c) = cqIDToken c"
      using t by (simp_all add: token_stable_def claims_stable_def clone_claim_map_stable)
    then show ?thesis by (simp add: Some clone_claims_def)
  qed simp
  then show ?thesis
    using t by (simp add: token_stable_def clone_token_def clone_strings_stable json_map_stable_roundtrip)
qed

section \<open>The contract\<close>

text \<open>C31. memory.Store implements the contract that storage.go documents and on which the provider's
  guarantees rest: creating never replaces a record, what is loaded is what is stored, a token is
  consumed once and keeps the time of it, a request is deleted once, a key is claimed once until the
  claim expires, a revoked grant loses all its tokens, and records vanish only by expiring.\<close>

theorem memory_keeps_contract:
  "storage_contract mem mem_reqs mem_toks mem_claimed wNow
     (\<lambda>q. clone_request (clone_request q)) (\<lambda>t. clone_token (clone_token t))"
  by (rule memory.storage_contract_axioms)

section \<open>What is stored comes back\<close>

text \<open>C32. What is stored comes back unchanged. In any interleaving of requests with memory.Store, a
  token that was stored, all of whose strings are valid UTF-8 and whose claims are JSON values, is what
  Token returns for its hash to every later caller, until the token is consumed or revoked or has
  expired.\<close>

theorem stored_token_returned:
  assumes "concurrent mem (ps, s) log (qs, s')"
    and "log = earlier @ (i, EvCreateToken t None) # between @ (j, EvLoadToken (tHash t) r) # later"
    and "token_stable t" and "\<forall>ev \<in> snd ` set between. \<not> uses_up (tHash t) (tGrantID t) ev"
    and "wNow s' \<le> tExpiresAt t"
  shows "r = Inr t"
proof -
  define m2 where "m2 = map snd between"
  have "serves mem (map snd earlier @ EvCreateToken t None # m2 @ EvLoadToken (tHash t) r # map snd later) s = Some s'"
    using concurrent_serves [OF assms(1)] by (simp add: assms(2) m2_def)
  then obtain s1 s2 s3 s4 where run: "serve mem (EvCreateToken t None) s1 = Some s2" "serves mem m2 s2 = Some s3"
      "serve mem (EvLoadToken (tHash t) r) s3 = Some s4" "serves mem (map snd later) s4 = Some s'"
    by (auto simp: serves_append split: option.splits)
  have clk: "wNow s3 \<le> tExpiresAt t"
    using memory.serve_clock [OF run(3)] memory.serves_clock [OF run(4)] assms(5) by linarith
  have st: "clone_token (clone_token t) = t" by (simp add: clone_token_stable [OF assms(3)])
  have s2: "mem_toks s2 (tHash t) = Some t"
    using tok_effect_created [OF memory.serve_toks [OF run(1)]] unfolding st .
  have "mem_toks s3 (tHash t) = Some t"
    by (rule memory.serves_keeps [OF run(2) s2 clk]) (use assms(4) in \<open>auto simp: m2_def\<close>)
  then show ?thesis
    using run(3) by (auto simp: answered_Some on_store_def store_Token_def store_tokenLocked_def mem_toks_def
        split: option.splits)
qed

definition store_world :: "(string \<Rightarrow> Token option) \<Rightarrow> world" where
  "store_world m =
     \<lparr>wStore = store_New\<lparr>msTokens := m\<rparr>, wNow = 5, wTicks = [], wRandom = []\<rparr>"

definition create_sample :: "unit prog" where
  "create_sample = bind (storage_CreateToken sample_code) (\<lambda>_. Ret ())"

definition load_sample :: "unit prog" where
  "load_sample = bind (storage_Token (tHash sample_code)) (\<lambda>_. Ret ())"

lemma sample_code_stable: "token_stable sample_code"
  by (simp add: token_stable_def sample_code_def token_zero_def sample_hash_code byte_def
      json_map_stable_def)

theorem stored_token_returned_witness: "(Inr sample_code :: goerr + Token) = Inr sample_code"
proof -
  let ?m = "[tHash sample_code \<mapsto> sample_code]"
  have c: "clone_token sample_code = sample_code" by (rule clone_token_stable [OF sample_code_stable])
  have 1: "concurrent mem ([create_sample, load_sample], store_world Map.empty)
      ([] @ [(0, EvCreateToken sample_code None)]) ([create_sample, load_sample][0 := Ret ()], store_world ?m)"
    by (rule concurrent_call [OF concurrent_start])
      (simp_all add: create_sample_def op_defs answered_Some on_store_def store_CreateToken_def
        store_collectLocked_def store_world_def store_New_def time_Sub_def min_duration_def
        max_duration_def minute_def second_def c)
  have 2: "concurrent mem ([create_sample, load_sample], store_world Map.empty)
      (([] @ [(0, EvCreateToken sample_code None)]) @ [(1, EvLoadToken (tHash sample_code) (Inr sample_code))])
      (([create_sample, load_sample][0 := Ret ()])[1 := Ret ()], store_world ?m)"
    by (rule concurrent_call [OF 1])
      (simp_all add: load_sample_def op_defs answered_Some on_store_def store_Token_def store_tokenLocked_def
        store_world_def c)
  show ?thesis
    by (rule stored_token_returned [OF 2, where earlier = "[]" and between = "[]" and later = "[]" and i = 0 and j = 1])
      (simp_all add: sample_code_stable,
        simp_all add: store_world_def sample_code_def token_zero_def minute_def second_def)
qed

end
