(* ===== verification/Grantor_StorageTest.thy ===== *)
theory Grantor_StorageTest
  imports Grantor_Effects
begin

text \<open>
  storagetest/storagetest.go: the conformance suite for implementations of \<^verbatim>\<open>Storage\<close>. A test is a
  program over the storage and the clock, which ends with \<open>Inl\<close> and the message of \<^verbatim>\<open>t.Fatalf\<close> or
  passes with \<open>Inr\<close>; messages stand without the values they quote. The bytes that \<^verbatim>\<open>rand.Read\<close> fills
  the n-th buffer of a test with are \<open>rnd n\<close>. \<^verbatim>\<open>time.Now\<close> is the clock of \<open>prog\<close>.

  A test with goroutines has three parts: what runs before them, the goroutine, and what runs after
  \<^verbatim>\<open>wg.Wait\<close> on their results. The relation \<open>staged\<close> runs the goroutines interleaved.
\<close>

section \<open>Fixtures\<close>

definition microsecond :: duration where "microsecond = 1000"

definition randomID :: "bytes \<Rightarrow> string" where
  "randomID b = b64_EncodeToString b"

text \<open>\<^verbatim>\<open>now()\<close> of the suite.\<close>

definition test_now :: "time prog" where
  "test_now = bind provider_now (\<lambda>t. Ret (time_Truncate t microsecond))"

definition request_fixture :: "time \<Rightarrow> string \<Rightarrow> AuthorizationRequest" where
  "request_fixture n i =
     \<lparr>arID = i, arIssuer = ''https://issuer.example.com'', arClientID = ''client-1'',
      arRedirectURI = ''https://client.example.com/cb'', arRedirectURIInRequest = True,
      arResponseType = ''code'', arResponseMode = ''query'', arState = ''state-value'',
      arScopes = [''openid'', ''profile''],
      arCodeChallenge = ''E9Melhoa2OwvFrEMTJguCHaoeK1t8URWbuGJSstw-cM'', arCodeChallengeMethod = ''S256'',
      arNonce = ''nonce-value'', arPrompt = [''login'', ''consent''], arMaxAge = Some (5 * minute),
      arDisplay = ''page'', arUILocales = [''en'', ''ja''], arClaimsLocales = [''en''],
      arLoginHint = ''alice@example.com'', arACRValues = [''urn:acr:1''], arRequestedSubject = ''alice'',
      arClaims = Some
        \<lparr>cqUserInfo = [(''email'', None),
                       (''name'', Some \<lparr>crEssential = True, crValue = JNull, crValues = []\<rparr>)],
         cqIDToken = [(''acr'', Some \<lparr>crEssential = True, crValue = JNull,
                                      crValues = [JString ''urn:acr:1'']\<rparr>)]\<rparr>,
      arAudience = [''https://api.example.com''], arPushed = True, arExtra = [(''tenant'', ''acme'')],
      arBindingHash = ''binding-hash'', arParsed = False, arPushedBy = [], arRedeemed = False,
      arCreatedAt = n, arExpiresAt = time_Add n (15 * minute)\<rparr>"

definition fullAuthorizationRequest :: "bytes \<Rightarrow> AuthorizationRequest prog" where
  "fullAuthorizationRequest b = bind test_now (\<lambda>n. Ret (request_fixture n (randomID b)))"

definition token_fixture :: "TokenKind \<Rightarrow> string \<Rightarrow> time \<Rightarrow> string \<Rightarrow> Token" where
  "token_fixture typ grantID n h =
     \<lparr>tHash = h, tKind = typ, tGrantID = grantID, tIssuer = ''https://issuer.example.com'',
      tClientID = ''client-1'', tSubject = ''alice'', tScopes = [''openid'', ''offline_access''],
      tAuthTime = time_Add n (- minute), tACR = ''urn:acr:1'', tAMR = [''pwd'', ''otp''],
      tClaims = Some \<lparr>cqUserInfo = [(''email'', None)], cqIDToken = []\<rparr>,
      tAudience = [''https://api.example.com'', ''https://other.example.com''],
      tAccessTokenClaims = [(''tenant'', JString ''acme''), (''admin'', JBool True)],
      tRedirectURI = ''https://client.example.com/cb'', tRedirectURIInRequest = True,
      tNonce = ''nonce-value'',
      tCodeChallenge = ''E9Melhoa2OwvFrEMTJguCHaoeK1t8URWbuGJSstw-cM'', tCodeChallengeMethod = ''S256'',
      tCreatedAt = n, tExpiresAt = time_Add n hour, tConsumedAt = 0\<rparr>"

definition fullToken :: "TokenKind \<Rightarrow> string \<Rightarrow> bytes \<Rightarrow> Token prog" where
  "fullToken typ grantID b = bind test_now (\<lambda>n. Ret (token_fixture typ grantID n (randomID b)))"

section \<open>Comparing records\<close>

text \<open>Values as the reflect package presents them. \<^verbatim>\<open>any\<close> holds decoded JSON, and nil is \<open>JNull\<close>; nil and
  empty slices and maps are not told apart. A field has its name and whether it is exported.\<close>

datatype goval =
  GoTime time
| GoString string
| GoBool bool
| GoInt int
| GoKind TokenKind
| GoPointer "goval option"
| GoStruct "(string \<times> bool \<times> goval) list"
| GoSlice "goval list"
| GoMap "(string \<times> goval) list"
| GoAny json

text \<open>\<^verbatim>\<open>reflect.DeepEqual\<close> on decoded JSON: maps are equal whatever their order.\<close>

fun deepEqual :: "json \<Rightarrow> json \<Rightarrow> bool"
  and deepEqual_elems :: "json list \<Rightarrow> json list \<Rightarrow> bool"
  and deepEqual_entries :: "(string \<times> json) list \<Rightarrow> json_map \<Rightarrow> bool" where
  "deepEqual (JArray xs) b = (case b of JArray ys \<Rightarrow> deepEqual_elems xs ys | _ \<Rightarrow> False)"
| "deepEqual (JObject m) b =
     (case b of JObject n \<Rightarrow> length m = length n \<and> deepEqual_entries m n | _ \<Rightarrow> False)"
| "deepEqual JNull b = (b = JNull)"
| "deepEqual (JBool x) b = (b = JBool x)"
| "deepEqual (JNum x) b = (b = JNum x)"
| "deepEqual (JFloat x) b = (b = JFloat x)"
| "deepEqual (JString x) b = (b = JString x)"
| "deepEqual JUnsupported b = (b = JUnsupported)"
| "deepEqual_elems [] ys = (ys = [])"
| "deepEqual_elems (x # xs) ys = (case ys of y # ys \<Rightarrow> deepEqual x y \<and> deepEqual_elems xs ys | [] \<Rightarrow> False)"
| "deepEqual_entries [] n = True"
| "deepEqual_entries ((k, x) # m) n =
     ((case map_of n k of Some y \<Rightarrow> deepEqual x y | None \<Rightarrow> False) \<and> deepEqual_entries m n)"

text \<open>The loops over fields, elements and keys; the first argument holds, for each of them, the
  comparison with its value.\<close>

fun equal_fields :: "(string \<times> bool \<times> (goval \<Rightarrow> bool)) list \<Rightarrow> (string \<times> bool \<times> goval) list \<Rightarrow> bool" where
  "equal_fields [] gs = True"
| "equal_fields ((name, exported, eq) # fs) gs =
     (case gs of
        (_, _, y) # gs \<Rightarrow> if \<not> exported then equal_fields fs gs
                         else if \<not> eq y then False else equal_fields fs gs
      | [] \<Rightarrow> False)"

fun equal_elems :: "(goval \<Rightarrow> bool) list \<Rightarrow> goval list \<Rightarrow> bool" where
  "equal_elems [] ys = True"
| "equal_elems (eq # eqs) ys =
     (case ys of y # ys \<Rightarrow> if \<not> eq y then False else equal_elems eqs ys | [] \<Rightarrow> False)"

fun equal_entries :: "(string \<times> (goval \<Rightarrow> bool)) list \<Rightarrow> (string \<times> goval) list \<Rightarrow> bool" where
  "equal_entries [] n = True"
| "equal_entries ((k, eq) # m) n =
     (case map_of n k of
        None \<Rightarrow> False
      | Some y \<Rightarrow> if \<not> eq y then False else equal_entries m n)"

primrec equalValues :: "goval \<Rightarrow> goval \<Rightarrow> bool" where
  "equalValues (GoTime s) = (\<lambda>b. case b of GoTime t \<Rightarrow> s = t | _ \<Rightarrow> False)"
| "equalValues (GoPointer p) =
     (\<lambda>b. case b of
        GoPointer q \<Rightarrow>
          (case (map_option equalValues p, q) of
             (Some eq, Some y) \<Rightarrow> eq y
           | (eqo, q) \<Rightarrow> (eqo = None) = (q = None))
      | _ \<Rightarrow> False)"
| "equalValues (GoStruct fs) =
     (\<lambda>b. case b of
        GoStruct gs \<Rightarrow> equal_fields (map (map_prod id (map_prod id equalValues)) fs) gs
      | _ \<Rightarrow> False)"
| "equalValues (GoSlice xs) =
     (\<lambda>b. case b of
        GoSlice ys \<Rightarrow> if length xs \<noteq> length ys then False else equal_elems (map equalValues xs) ys
      | _ \<Rightarrow> False)"
| "equalValues (GoMap m) =
     (\<lambda>b. case b of
        GoMap n \<Rightarrow> if length m \<noteq> length n then False
                  else equal_entries (map (map_prod id equalValues) m) n
      | _ \<Rightarrow> False)"
| "equalValues (GoAny x) =
     (\<lambda>b. case b of
        GoAny y \<Rightarrow> if x = JNull \<or> y = JNull then (x = JNull) = (y = JNull) else deepEqual x y
      | _ \<Rightarrow> False)"
| "equalValues (GoString x) = (\<lambda>b. b = GoString x)"
| "equalValues (GoBool x) = (\<lambda>b. b = GoBool x)"
| "equalValues (GoInt x) = (\<lambda>b. b = GoInt x)"
| "equalValues (GoKind x) = (\<lambda>b. b = GoKind x)"

definition reflect_strings :: "string list \<Rightarrow> goval" where
  "reflect_strings xs = GoSlice (map GoString xs)"

definition reflect_claim :: "ClaimRequest option \<Rightarrow> goval" where
  "reflect_claim r = GoPointer (map_option (\<lambda>r. GoStruct
     [(''Essential'', True, GoBool (crEssential r)), (''Value'', True, GoAny (crValue r)),
      (''Values'', True, GoSlice (map GoAny (crValues r)))]) r)"

definition reflect_claims :: "ClaimsRequest option \<Rightarrow> goval" where
  "reflect_claims c = GoPointer (map_option (\<lambda>c. GoStruct
     [(''UserInfo'', True, GoMap (map (\<lambda>(n, r). (n, reflect_claim r)) (cqUserInfo c))),
      (''IDToken'', True, GoMap (map (\<lambda>(n, r). (n, reflect_claim r)) (cqIDToken c)))]) c)"

definition reflect_request :: "AuthorizationRequest \<Rightarrow> (string \<times> bool \<times> goval) list" where
  "reflect_request r =
     [(''ID'', True, GoString (arID r)), (''Issuer'', True, GoString (arIssuer r)),
      (''ClientID'', True, GoString (arClientID r)), (''RedirectURI'', True, GoString (arRedirectURI r)),
      (''RedirectURIInRequest'', True, GoBool (arRedirectURIInRequest r)),
      (''ResponseType'', True, GoString (arResponseType r)),
      (''ResponseMode'', True, GoString (arResponseMode r)), (''State'', True, GoString (arState r)),
      (''Scopes'', True, reflect_strings (arScopes r)),
      (''CodeChallenge'', True, GoString (arCodeChallenge r)),
      (''CodeChallengeMethod'', True, GoString (arCodeChallengeMethod r)),
      (''Nonce'', True, GoString (arNonce r)), (''Prompt'', True, reflect_strings (arPrompt r)),
      (''MaxAge'', True, GoPointer (map_option GoInt (arMaxAge r))),
      (''Display'', True, GoString (arDisplay r)), (''UILocales'', True, reflect_strings (arUILocales r)),
      (''ClaimsLocales'', True, reflect_strings (arClaimsLocales r)),
      (''LoginHint'', True, GoString (arLoginHint r)),
      (''ACRValues'', True, reflect_strings (arACRValues r)),
      (''RequestedSubject'', True, GoString (arRequestedSubject r)),
      (''Claims'', True, reflect_claims (arClaims r)), (''Audience'', True, reflect_strings (arAudience r)),
      (''Pushed'', True, GoBool (arPushed r)),
      (''Extra'', True, GoMap (map (\<lambda>(k, v). (k, GoString v)) (arExtra r))),
      (''BindingHash'', True, GoString (arBindingHash r)),
      (''parsed'', False, GoBool (arParsed r)), (''pushedBy'', False, GoString (arPushedBy r)),
      (''redeemed'', False, GoBool (arRedeemed r)),
      (''CreatedAt'', True, GoTime (arCreatedAt r)), (''ExpiresAt'', True, GoTime (arExpiresAt r))]"

definition reflect_token :: "Token \<Rightarrow> (string \<times> bool \<times> goval) list" where
  "reflect_token t =
     [(''Hash'', True, GoString (tHash t)), (''Kind'', True, GoKind (tKind t)),
      (''GrantID'', True, GoString (tGrantID t)), (''Issuer'', True, GoString (tIssuer t)),
      (''ClientID'', True, GoString (tClientID t)), (''Subject'', True, GoString (tSubject t)),
      (''Scopes'', True, reflect_strings (tScopes t)), (''AuthTime'', True, GoTime (tAuthTime t)),
      (''ACR'', True, GoString (tACR t)), (''AMR'', True, reflect_strings (tAMR t)),
      (''Claims'', True, reflect_claims (tClaims t)), (''Audience'', True, reflect_strings (tAudience t)),
      (''AccessTokenClaims'', True, GoMap (map (\<lambda>(k, v). (k, GoAny v)) (tAccessTokenClaims t))),
      (''RedirectURI'', True, GoString (tRedirectURI t)),
      (''RedirectURIInRequest'', True, GoBool (tRedirectURIInRequest t)),
      (''Nonce'', True, GoString (tNonce t)), (''CodeChallenge'', True, GoString (tCodeChallenge t)),
      (''CodeChallengeMethod'', True, GoString (tCodeChallengeMethod t)),
      (''CreatedAt'', True, GoTime (tCreatedAt t)), (''ExpiresAt'', True, GoTime (tExpiresAt t)),
      (''ConsumedAt'', True, GoTime (tConsumedAt t))]"

definition assertEqual ::
  "(string \<times> bool \<times> goval) list \<Rightarrow> (string \<times> bool \<times> goval) list \<Rightarrow> string + unit" where
  "assertEqual got want =
     (if \<not> equalValues (GoStruct got) (GoStruct want) then Inl ''record did not round-trip''
      else Inr ())"

fun isZero :: "goval \<Rightarrow> bool" where
  "isZero (GoTime t) = (t = 0)"
| "isZero (GoString s) = (s = [])"
| "isZero (GoBool b) = (\<not> b)"
| "isZero (GoInt i) = (i = 0)"
| "isZero (GoKind k) = (k = TokenKindUnset)"
| "isZero (GoPointer p) = (p = None)"
| "isZero (GoStruct fs) = list_all (\<lambda>(_, _, x). isZero x) fs"
| "isZero (GoSlice xs) = (xs = [])"
| "isZero (GoMap m) = (m = [])"
| "isZero (GoAny v) = (v = JNull)"

text \<open>The messages of \<^verbatim>\<open>t.Errorf\<close>; the test passes when there are none.\<close>

definition empty_fields :: "(string \<times> bool \<times> goval) list \<Rightarrow> string list" where
  "empty_fields fs =
     map fst (filter (\<lambda>(name, exported, x). exported \<and> name \<noteq> ''ConsumedAt'' \<and> isZero x) fs)"

definition testFixturesAreComplete :: "(nat \<Rightarrow> bytes) \<Rightarrow> string list prog" where
  "testFixturesAreComplete rnd =
     bind (fullAuthorizationRequest (rnd 0)) (\<lambda>req.
     bind (fullToken TokenKindAuthorizationCode (randomID (rnd 1)) (rnd 2)) (\<lambda>tok.
     Ret (concat (map (\<lambda>(name, fs). map (\<lambda>f. name @ '' fixture leaves '' @ f @ '' empty'') (empty_fields fs))
                    [(''AuthorizationRequest'', reflect_request req), (''Token'', reflect_token tok)]))))"

section \<open>Steps of a test\<close>

definition lift :: "'a prog \<Rightarrow> (string + 'a) prog" where
  "lift p = bind p (\<lambda>a. Ret (Inr a))"

definition fatal_if :: "bool \<Rightarrow> string \<Rightarrow> (string + unit) prog" where
  "fatal_if c msg = Ret (if c then Inl msg else Inr ())"

text \<open>A call that must not fail, with and without a result.\<close>

definition must :: "string \<Rightarrow> goerr option prog \<Rightarrow> (string + unit) prog" where
  "must msg p = bind p (\<lambda>err. Ret (case err of None \<Rightarrow> Inr () | Some _ \<Rightarrow> Inl msg))"

definition must_get :: "string \<Rightarrow> (goerr + 'a) prog \<Rightarrow> (string + 'a) prog" where
  "must_get msg p = bind p (\<lambda>r. Ret (case r of Inr a \<Rightarrow> Inr a | Inl _ \<Rightarrow> Inl msg))"

text \<open>A call whose error must be the target; nil is no error.\<close>

definition nil_or_Is :: "goerr option \<Rightarrow> goerr \<Rightarrow> bool" where
  "nil_or_Is err target = (case err of None \<Rightarrow> False | Some e \<Rightarrow> errors_Is e target)"

definition must_fail :: "goerr \<Rightarrow> string \<Rightarrow> goerr option prog \<Rightarrow> (string + unit) prog" where
  "must_fail target msg p = bind p (\<lambda>err. fatal_if (\<not> nil_or_Is err target) msg)"

definition error_of :: "(goerr + 'a) prog \<Rightarrow> goerr option prog" where
  "error_of p = bind p (\<lambda>r. Ret (case r of Inl e \<Rightarrow> Some e | Inr _ \<Rightarrow> None))"

fun for_each :: "('a \<Rightarrow> (string + unit) prog) \<Rightarrow> 'a list \<Rightarrow> (string + unit) prog" where
  "for_each body [] = Ret (Inr ())"
| "for_each body (x # xs) = bindE (body x) (\<lambda>_. for_each body xs)"

section \<open>The tests without goroutines\<close>

definition pad :: "nat \<Rightarrow> char \<Rightarrow> string \<Rightarrow> string" where
  "pad n c s = s @ replicate (n - length s) c"

definition roundtrip_request :: "AuthorizationRequest \<Rightarrow> (string + unit) prog" where
  "roundtrip_request want =
     bindE (must ''CreateAuthorizationRequest'' (storage_CreateAuthorizationRequest want)) (\<lambda>_.
     bindE (must_get ''AuthorizationRequest'' (storage_AuthorizationRequest (arID want))) (\<lambda>got.
     Ret (assertEqual (reflect_request got) (reflect_request want))))"

definition testAuthorizationRequestRoundTrip :: "(nat \<Rightarrow> bytes) \<Rightarrow> (string + unit) prog" where
  "testAuthorizationRequestRoundTrip rnd =
     bindE (lift (fullAuthorizationRequest (rnd 0))) (\<lambda>pushed.
     (let pushed = pushed\<lparr>arID := ''par:'' @ randomID (rnd 1) @ randomID (rnd 2)\<rparr>;
          pushed = pushed\<lparr>arID := pad 64 (CHR ''x'') (arID pushed)\<rparr> in
      bindE (lift (fullAuthorizationRequest (rnd 3))) (\<lambda>full.
      for_each roundtrip_request [full, pushed])))"

definition testAuthorizationRequestConflict :: "(nat \<Rightarrow> bytes) \<Rightarrow> (string + unit) prog" where
  "testAuthorizationRequestConflict rnd =
     bindE (lift (fullAuthorizationRequest (rnd 0))) (\<lambda>req.
     bindE (must ''CreateAuthorizationRequest'' (storage_CreateAuthorizationRequest req)) (\<lambda>_.
     bindE (must_fail ErrConflict ''second CreateAuthorizationRequest''
              (storage_CreateAuthorizationRequest req)) (\<lambda>_.
     must_fail ErrNotFound ''AuthorizationRequest(unknown)''
       (error_of (storage_AuthorizationRequest (randomID (rnd 1)))))))"

definition roundtrip_token :: "Token \<Rightarrow> (string + unit) prog" where
  "roundtrip_token want =
     bindE (must ''CreateToken'' (storage_CreateToken want)) (\<lambda>_.
     bindE (must_get ''Token'' (storage_Token (tHash want))) (\<lambda>got.
     Ret (assertEqual (reflect_token got) (reflect_token want))))"

definition minimal_token :: "string \<Rightarrow> string \<Rightarrow> time \<Rightarrow> time \<Rightarrow> Token" where
  "minimal_token h grantID created expires = token_zero
     \<lparr>tHash := h, tKind := TokenKindAccessToken, tGrantID := grantID,
      tIssuer := ''https://issuer.example.com'', tClientID := ''client-1'',
      tCreatedAt := created, tExpiresAt := expires\<rparr>"

definition testTokenRoundTrip :: "(nat \<Rightarrow> bytes) \<Rightarrow> (string + unit) prog" where
  "testTokenRoundTrip rnd =
     bindE (for_each (\<lambda>(n, typ).
         bindE (lift (fullToken typ (randomID (rnd n)) (rnd (n + 1)))) roundtrip_token)
       [(0, TokenKindAuthorizationCode), (2, TokenKindAccessToken), (4, TokenKindRefreshToken)]) (\<lambda>_.
     bindE (lift test_now) (\<lambda>created.
     bindE (lift (bind test_now (\<lambda>n. Ret (time_Add n hour)))) (\<lambda>expires.
     roundtrip_token (minimal_token (randomID (rnd 6)) (randomID (rnd 7)) created expires))))"

definition testTokenConflict :: "(nat \<Rightarrow> bytes) \<Rightarrow> (string + unit) prog" where
  "testTokenConflict rnd =
     bindE (lift (fullToken TokenKindAccessToken (randomID (rnd 0)) (rnd 1))) (\<lambda>tok.
     bindE (must ''CreateToken'' (storage_CreateToken tok)) (\<lambda>_.
     must_fail ErrConflict ''second CreateToken'' (storage_CreateToken tok)))"

definition testTokenNotFound :: "(nat \<Rightarrow> bytes) \<Rightarrow> (string + unit) prog" where
  "testTokenNotFound rnd =
     bindE (must_fail ErrNotFound ''Token(unknown)'' (error_of (storage_Token (randomID (rnd 0))))) (\<lambda>_.
     bindE (lift test_now) (\<lambda>n.
     bindE (must_fail ErrNotFound ''ConsumeToken(unknown)''
              (error_of (storage_ConsumeToken (randomID (rnd 1)) n))) (\<lambda>_.
     bindE (must ''RevokeToken(unknown)'' (storage_RevokeToken (randomID (rnd 2)))) (\<lambda>_.
     must ''RevokeGrant(unknown)'' (storage_RevokeGrant (randomID (rnd 3)))))))"

definition testConsumeToken :: "(nat \<Rightarrow> bytes) \<Rightarrow> (string + unit) prog" where
  "testConsumeToken rnd =
     bindE (lift (fullToken TokenKindAuthorizationCode (randomID (rnd 0)) (rnd 1))) (\<lambda>tok.
     bindE (must ''CreateToken'' (storage_CreateToken tok)) (\<lambda>_.
     bindE (lift test_now) (\<lambda>consumedAt.
     bindE (must_get ''first ConsumeToken'' (storage_ConsumeToken (tHash tok) consumedAt)) (\<lambda>first.
     bindE (fatal_if (\<not> time_IsZero (tConsumedAt first)) ''first ConsumeToken returned ConsumedAt'') (\<lambda>_.
     bindE (Ret (assertEqual (reflect_token first) (reflect_token tok))) (\<lambda>_.
     bindE (must_get ''second ConsumeToken''
              (storage_ConsumeToken (tHash tok) (time_Add consumedAt second))) (\<lambda>again.
     bindE (fatal_if (tConsumedAt again \<noteq> consumedAt) ''second ConsumeToken returned ConsumedAt'') (\<lambda>_.
     bindE (must_get ''Token after consume'' (storage_Token (tHash tok))) (\<lambda>got.
     fatal_if (tConsumedAt got \<noteq> consumedAt) ''Token after consume has ConsumedAt'')))))))))"

definition testRevokeToken :: "(nat \<Rightarrow> bytes) \<Rightarrow> (string + unit) prog" where
  "testRevokeToken rnd =
     (let grantID = randomID (rnd 0) in
      bindE (lift (fullToken TokenKindAccessToken grantID (rnd 1))) (\<lambda>a.
      bindE (lift (fullToken TokenKindRefreshToken grantID (rnd 2))) (\<lambda>b.
      bindE (for_each (\<lambda>tok. must ''CreateToken'' (storage_CreateToken tok)) [a, b]) (\<lambda>_.
      bindE (must ''RevokeToken'' (storage_RevokeToken (tHash a))) (\<lambda>_.
      bindE (must_fail ErrNotFound ''Token after RevokeToken'' (error_of (storage_Token (tHash a)))) (\<lambda>_.
      must ''RevokeToken revoked another token of the grant'' (error_of (storage_Token (tHash b)))))))))"

definition token_is_gone :: "Token \<Rightarrow> (string + unit) prog" where
  "token_is_gone tok =
     bindE (must_fail ErrNotFound ''Token after RevokeGrant'' (error_of (storage_Token (tHash tok)))) (\<lambda>_.
     bindE (lift test_now) (\<lambda>n.
     must_fail ErrNotFound ''ConsumeToken after RevokeGrant''
       (error_of (storage_ConsumeToken (tHash tok) n))))"

definition testRevokeGrant :: "(nat \<Rightarrow> bytes) \<Rightarrow> (string + unit) prog" where
  "testRevokeGrant rnd =
     (let grantID = randomID (rnd 0) in
      bindE (lift (fullToken TokenKindAuthorizationCode grantID (rnd 1))) (\<lambda>a.
      bindE (lift (fullToken TokenKindAccessToken grantID (rnd 2))) (\<lambda>b.
      bindE (lift (fullToken TokenKindRefreshToken grantID (rnd 3))) (\<lambda>c.
      (let revoked = [a, b, c] in
       bindE (lift (fullToken TokenKindAccessToken (randomID (rnd 4)) (rnd 5))) (\<lambda>other.
       bindE (for_each (\<lambda>tok. must ''CreateToken'' (storage_CreateToken tok)) (revoked @ [other])) (\<lambda>_.
       bindE (must ''RevokeGrant'' (storage_RevokeGrant grantID)) (\<lambda>_.
       bindE (for_each token_is_gone revoked) (\<lambda>_.
       must ''RevokeGrant revoked a token of another grant''
         (error_of (storage_Token (tHash other))))))))))))"

text \<open>
  Records are values here: an assignment to an element of \<^verbatim>\<open>req.Scopes\<close> changes the test's own record,
  as it does in Go exactly when the storage keeps and returns copies; Grantor_PointerTest has the test with
  the pointers of Go. Reading element 0 of an empty slice panics, which fails the test.
\<close>

definition check_scope :: "string list \<Rightarrow> string \<Rightarrow> string + unit" where
  "check_scope scopes msg =
     (case scopes of
        [] \<Rightarrow> Inl ''index out of range''
      | s # _ \<Rightarrow> if s \<noteq> ''openid'' then Inl msg else Inr ())"

definition testReturnedRecordsAreCopies :: "(nat \<Rightarrow> bytes) \<Rightarrow> (string + unit) prog" where
  "testReturnedRecordsAreCopies rnd =
     bindE (lift (fullAuthorizationRequest (rnd 0))) (\<lambda>req.
     bindE (must ''CreateAuthorizationRequest'' (storage_CreateAuthorizationRequest req)) (\<lambda>_.
     (let req = req\<lparr>arScopes := (arScopes req)[0 := ''mutated-after-create'']\<rparr> in
     bindE (must_get ''AuthorizationRequest'' (storage_AuthorizationRequest (arID req))) (\<lambda>got.
     bindE (Ret (check_scope (arScopes got) ''storage kept a reference to the created request'')) (\<lambda>_.
     (let got = got\<lparr>arScopes := (arScopes got)[0 := ''mutated-after-read'']\<rparr> in
     bindE (must_get ''AuthorizationRequest'' (storage_AuthorizationRequest (arID req))) (\<lambda>again.
     bindE (Ret (check_scope (arScopes again) ''storage returned a reference to its own request'')) (\<lambda>_.
     bindE (lift (fullToken TokenKindAccessToken (randomID (rnd 1)) (rnd 2))) (\<lambda>tok.
     bindE (must ''CreateToken'' (storage_CreateToken tok)) (\<lambda>_.
     (let tok = tok\<lparr>tScopes := (tScopes tok)[0 := ''mutated-after-create'']\<rparr> in
     bindE (must_get ''Token'' (storage_Token (tHash tok))) (\<lambda>gotTok.
     bindE (Ret (check_scope (tScopes gotTok) ''storage kept a reference to the created token'')) (\<lambda>_.
     (let gotTok = gotTok\<lparr>tScopes := (tScopes gotTok)[0 := ''mutated-after-read'']\<rparr> in
     bindE (must_get ''Token'' (storage_Token (tHash tok))) (\<lambda>againTok.
     Ret (check_scope (tScopes againTok) ''storage returned a reference to its own token''))))))))))))))))"

definition testClaimOnce :: "(nat \<Rightarrow> bytes) \<Rightarrow> (string + unit) prog" where
  "testClaimOnce rnd =
     (let key = ''test:'' @ randomID (rnd 0) in
      bindE (lift (bind provider_now (\<lambda>t. Ret (time_Add t minute)))) (\<lambda>exp.
      bindE (must ''ClaimOnce'' (storage_ClaimOnce key exp)) (\<lambda>_.
      bindE (must_fail ErrConflict ''second ClaimOnce'' (storage_ClaimOnce key exp)) (\<lambda>_.
      bindE (must ''ClaimOnce for another key'' (storage_ClaimOnce (''test:'' @ randomID (rnd 1)) exp)) (\<lambda>_.
      bindE (must ''ClaimOnce with a 128-byte key''
               (storage_ClaimOnce (pad 128 (CHR ''k'') (''test:'' @ randomID (rnd 2))) exp)) (\<lambda>_.
      (let expired = ''test:'' @ randomID (rnd 3) in
       bindE (lift provider_now) (\<lambda>t.
       bindE (must ''ClaimOnce(expired)'' (storage_ClaimOnce expired (time_Add t (- second)))) (\<lambda>_.
       bindE (lift provider_now) (\<lambda>t.
       must ''ClaimOnce after the previous claim expired''
         (storage_ClaimOnce expired (time_Add t minute))))))))))))"

section \<open>The tests with goroutines\<close>

definition workers :: nat where "workers = 32"

text \<open>What a goroutine did: it counted a success, it lost, or it called \<^verbatim>\<open>t.Errorf\<close>.\<close>

datatype worker_result = Succeeded | Lost | Reported string

definition deleteWorker :: "AuthorizationRequest \<Rightarrow> worker_result prog" where
  "deleteWorker req =
     bind (storage_DeleteAuthorizationRequest (arID req)) (\<lambda>err. Ret
       (case err of
          None \<Rightarrow> Succeeded
        | Some e \<Rightarrow> if errors_Is e ErrNotFound then Lost else Reported ''DeleteAuthorizationRequest''))"

definition consumeWorker :: "Token \<Rightarrow> worker_result prog" where
  "consumeWorker tok =
     bind test_now (\<lambda>n.
     bind (storage_ConsumeToken (tHash tok) n) (\<lambda>r. Ret
       (case r of
          Inl _ \<Rightarrow> Reported ''ConsumeToken''
        | Inr got \<Rightarrow> if time_IsZero (tConsumedAt got) then Succeeded else Lost)))"

definition claimWorker :: "string \<times> time \<Rightarrow> worker_result prog" where
  "claimWorker = (\<lambda>(key, exp).
     bind (storage_ClaimOnce key exp) (\<lambda>err. Ret
       (case err of
          None \<Rightarrow> Succeeded
        | Some e \<Rightarrow> if errors_Is e ErrConflict then Lost else Reported ''ClaimOnce'')))"

text \<open>Exactly one success, and after the rest of the test nothing reported.\<close>

definition exactly_one :: "string \<Rightarrow> worker_result list \<Rightarrow> (string + unit) prog" where
  "exactly_one msg rs = fatal_if (count_list rs Succeeded \<noteq> 1) msg"

definition none_reported :: "worker_result list \<Rightarrow> (string + unit) prog" where
  "none_reported rs = Ret (case [m. Reported m \<leftarrow> rs] of [] \<Rightarrow> Inr () | m # _ \<Rightarrow> Inl m)"

definition deleteOnce_prepare :: "(nat \<Rightarrow> bytes) \<Rightarrow> (string + AuthorizationRequest) prog" where
  "deleteOnce_prepare rnd =
     bindE (lift (fullAuthorizationRequest (rnd 0))) (\<lambda>req.
     bindE (must ''CreateAuthorizationRequest'' (storage_CreateAuthorizationRequest req)) (\<lambda>_.
     Ret (Inr req)))"

definition deleteOnce_finish :: "AuthorizationRequest \<Rightarrow> worker_result list \<Rightarrow> (string + unit) prog" where
  "deleteOnce_finish req rs =
     bindE (exactly_one ''concurrent deletes succeeded, want exactly 1'' rs) (\<lambda>_.
     bindE (must_fail ErrNotFound ''AuthorizationRequest after delete''
              (error_of (storage_AuthorizationRequest (arID req)))) (\<lambda>_.
     none_reported rs))"

definition consumeConcurrently_prepare :: "(nat \<Rightarrow> bytes) \<Rightarrow> (string + Token) prog" where
  "consumeConcurrently_prepare rnd =
     bindE (lift (fullToken TokenKindRefreshToken (randomID (rnd 0)) (rnd 1))) (\<lambda>tok.
     bindE (must ''CreateToken'' (storage_CreateToken tok)) (\<lambda>_. Ret (Inr tok)))"

definition consumeConcurrently_finish :: "Token \<Rightarrow> worker_result list \<Rightarrow> (string + unit) prog" where
  "consumeConcurrently_finish tok rs =
     bindE (exactly_one ''concurrent ConsumeToken calls saw an unconsumed token, want exactly 1'' rs) (\<lambda>_.
     none_reported rs)"

definition claimConcurrently_prepare :: "(nat \<Rightarrow> bytes) \<Rightarrow> (string + string \<times> time) prog" where
  "claimConcurrently_prepare rnd =
     bindE (lift provider_now) (\<lambda>t.
     Ret (Inr (''test:'' @ randomID (rnd 0), time_Add t minute)))"

definition claimConcurrently_finish :: "string \<times> time \<Rightarrow> worker_result list \<Rightarrow> (string + unit) prog" where
  "claimConcurrently_finish ke rs =
     bindE (exactly_one ''concurrent ClaimOnce calls succeeded, want exactly 1'' rs) (\<lambda>_.
     none_reported rs)"

text \<open>One run of a test with goroutines, with what it ends with.\<close>

inductive staged ::
  "'s iface \<Rightarrow> (string + 'x) prog \<Rightarrow> ('x \<Rightarrow> worker_result prog) \<Rightarrow>
     ('x \<Rightarrow> worker_result list \<Rightarrow> (string + unit) prog) \<Rightarrow> 's \<Rightarrow> string + unit \<Rightarrow> bool"
  for I :: "'s iface" and prepare worker finish where
  staged_failed:
    "run I prepare s = (Inl msg, log, s1) \<Longrightarrow> staged I prepare worker finish s (Inl msg)"
| staged_finished:
    "\<lbrakk> run I prepare s = (Inr x, log, s1);
       concurrent I (replicate workers (worker x), s1) calls (map Ret rs, s2);
       run I (finish x rs) s2 = (v, log2, s3) \<rbrakk> \<Longrightarrow>
     staged I prepare worker finish s v"

inductive_cases stagedE: "staged I prepare worker finish s v"

section \<open>The suite\<close>

definition sequential_tests :: "((nat \<Rightarrow> bytes) \<Rightarrow> (string + unit) prog) list" where
  "sequential_tests =
     [testAuthorizationRequestRoundTrip, testAuthorizationRequestConflict, testTokenRoundTrip,
      testTokenConflict, testTokenNotFound, testConsumeToken, testRevokeToken, testRevokeGrant,
      testReturnedRecordsAreCopies, testClaimOnce]"

text \<open>\<^verbatim>\<open>Run\<close>: every test on a new storage, whose states \<open>fresh\<close> is, passes; of the tests with goroutines,
  every run.\<close>

definition Run :: "'s iface \<Rightarrow> (nat \<Rightarrow> bytes) \<Rightarrow> 's \<Rightarrow> bool" where
  "Run I rnd fresh \<longleftrightarrow>
     fst (run I (testFixturesAreComplete rnd) fresh) = [] \<and>
     list_all (\<lambda>test. fst (run I (test rnd) fresh) = Inr ()) sequential_tests \<and>
     (\<forall>v. staged I (deleteOnce_prepare rnd) deleteWorker deleteOnce_finish fresh v \<longrightarrow> v = Inr ()) \<and>
     (\<forall>v. staged I (consumeConcurrently_prepare rnd) consumeWorker consumeConcurrently_finish fresh v \<longrightarrow>
        v = Inr ()) \<and>
     (\<forall>v. staged I (claimConcurrently_prepare rnd) claimWorker claimConcurrently_finish fresh v \<longrightarrow>
        v = Inr ())"

end
