(* ===== verification/Grantor_StorageTestProps.thy ===== *)
theory Grantor_StorageTestProps
  imports Grantor_StorageTest Grantor_StoreProps "HOL-Library.Multiset"
begin

text \<open>
  memory.Store passes the conformance suite, in every interleaving of the goroutines.
\<close>

section \<open>Weakest preconditions on memory.Store\<close>

definition wp :: "'a prog \<Rightarrow> ('a \<Rightarrow> world \<Rightarrow> bool) \<Rightarrow> world \<Rightarrow> bool" where
  "wp p Q w \<longleftrightarrow> (case run mem p w of (a, _, w') \<Rightarrow> Q a w')"

lemma wp_Ret [simp]: "wp (Ret a) Q = Q a"
  by (simp add: wp_def fun_eq_iff)

lemma wp_bind [simp]: "wp (bind p f) Q w = wp p (\<lambda>a. wp (f a) Q) w"
  by (simp add: wp_def run_bind split: prod.split)

lemma wp_bindE [simp]:
  "wp (bindE p f) Q w = wp p (\<lambda>x w. case x of Inl e \<Rightarrow> Q (Inl e) w | Inr a \<Rightarrow> wp (f a) Q w) w"
  unfolding bindE_def wp_bind
  by (rule arg_cong [where f = "\<lambda>g. wp p g w"], rule ext, rule ext) (simp split: sum.split)

lemma wp_lift [simp]: "wp (lift p) Q w = wp p (\<lambda>a. Q (Inr a)) w"
  by (simp add: lift_def)

lemma wp_fatal_if [simp]: "wp (fatal_if c msg) Q = Q (if c then Inl msg else Inr ())"
  by (simp add: fatal_if_def)

lemma wp_must [simp]:
  "wp (must msg p) Q w = wp p (\<lambda>err. Q (case err of None \<Rightarrow> Inr () | Some _ \<Rightarrow> Inl msg)) w"
  by (simp add: must_def)

lemma wp_must_get [simp]:
  "wp (must_get msg p) Q w = wp p (\<lambda>r. Q (case r of Inr a \<Rightarrow> Inr a | Inl _ \<Rightarrow> Inl msg)) w"
  by (simp add: must_get_def)

lemma wp_must_fail [simp]:
  "wp (must_fail target msg p) Q w =
     wp p (\<lambda>err. Q (if \<not> nil_or_Is err target then Inl msg else Inr ())) w"
  by (simp add: must_fail_def)

lemma wp_error_of [simp]:
  "wp (error_of p) Q w = wp p (\<lambda>r. Q (case r of Inl e \<Rightarrow> Some e | Inr _ \<Rightarrow> None)) w"
  by (simp add: error_of_def)

section \<open>A store in which nothing expires during a test\<close>

text \<open>The three maps of the store, while the clock is less than a minute past \<open>lo\<close>, when the test began,
  and all records live longer.\<close>

definition holding ::
  "(string \<Rightarrow> AuthorizationRequest option) \<Rightarrow> (string \<Rightarrow> Token option) \<Rightarrow> (string \<Rightarrow> time option) \<Rightarrow>
     time \<Rightarrow> world \<Rightarrow> bool" where
  "holding R K C lo w \<longleftrightarrow>
     msRequests (wStore w) = R \<and> msTokens (wStore w) = K \<and> msClaims (wStore w) = C \<and>
     lo \<le> wNow w \<and> wNow w + int (sum_list (wTicks w)) < lo + minute \<and> 1000 \<le> lo \<and>
     (\<forall>i q. R i = Some q \<longrightarrow> lo + minute \<le> arExpiresAt q) \<and>
     (\<forall>h t. K h = Some t \<longrightarrow> lo + minute \<le> tExpiresAt t) \<and>
     (\<forall>k e. C k = Some e \<longrightarrow> lo + minute \<le> e)"

lemma drop_expired_live:
  assumes "\<forall>k r. m k = Some r \<longrightarrow> lo + minute \<le> exp r" and "now < lo + minute"
  shows "drop_expired now exp m = m"
proof
  fix k
  show "drop_expired now exp m k = m k"
  proof (cases "m k")
    case (Some r)
    then have "\<not> exp r < now" using assms by force
    then show ?thesis by (simp add: drop_expired_def Some time_After_def)
  qed (simp add: drop_expired_def)
qed

lemma holding_now: "holding R K C lo w \<Longrightarrow> lo \<le> wNow w \<and> wNow w < lo + minute"
proof -
  assume "holding R K C lo w"
  then have "lo \<le> wNow w" "wNow w + int (sum_list (wTicks w)) < lo + minute"
    by (simp_all add: holding_def)
  then show ?thesis using of_nat_0_le_iff [of "sum_list (wTicks w)"] by linarith
qed

lemma collect_holding:
  assumes "holding R K C lo w"
  shows "msRequests (store_collectLocked (wNow w) (wStore w)) = R"
    "msTokens (store_collectLocked (wNow w) (wStore w)) = K"
    "msClaims (store_collectLocked (wNow w) (wStore w)) = C"
  using assms holding_now [OF assms]
    drop_expired_live [of R lo arExpiresAt "wNow w"] drop_expired_live [of K lo tExpiresAt "wNow w"]
    drop_expired_live [of C lo id "wNow w"]
  by (simp_all add: store_collectLocked_def holding_def)

text \<open>The same clock, and other maps.\<close>

lemma holding_store:
  assumes "holding R K C lo w" and "msRequests s = R'" and "msTokens s = K'" and "msClaims s = C'"
    and "\<forall>i q. R' i = Some q \<longrightarrow> lo + minute \<le> arExpiresAt q"
    and "\<forall>h t. K' h = Some t \<longrightarrow> lo + minute \<le> tExpiresAt t"
    and "\<forall>k e. C' k = Some e \<longrightarrow> lo + minute \<le> e"
  shows "holding R' K' C' lo (w\<lparr>wStore := s\<rparr>)"
  using assms by (simp add: holding_def)

lemma holding_live:
  assumes "holding R K C lo w"
  shows "\<forall>i q. R i = Some q \<longrightarrow> lo + minute \<le> arExpiresAt q"
    "\<forall>h t. K h = Some t \<longrightarrow> lo + minute \<le> tExpiresAt t"
    "\<forall>k e. C k = Some e \<longrightarrow> lo + minute \<le> e"
  using assms by (simp_all add: holding_def)

lemma wp_now:
  assumes "holding R K C lo w"
    and "\<And>t w'. lo \<le> t \<Longrightarrow> t \<le> wNow w' \<Longrightarrow> holding R K C lo w' \<Longrightarrow> Q t w'"
  shows "wp provider_now Q w"
proof -
  define w' where "w' = snd (world_now w)"
  have h: "holding R K C lo w'" "wNow w \<le> wNow w'"
    using assms(1) by (auto simp: w'_def world_now_def holding_def split: list.split)
  have "fst (world_now w) = wNow w" by (simp add: world_now_def)
  then show ?thesis
    using assms(2) [of "wNow w" w'] holding_now [OF assms(1)] h
    by (cases "world_now w") (simp add: wp_def op_defs w'_def)
qed

lemma wp_test_now:
  assumes "holding R K C lo w"
    and "\<And>n w'. lo - 1000 < n \<Longrightarrow> 0 < n \<Longrightarrow> n \<le> wNow w' \<Longrightarrow> holding R K C lo w' \<Longrightarrow> Q n w'"
  shows "wp test_now Q w"
  unfolding test_now_def wp_bind
proof (rule wp_now [OF assms(1)])
  fix t w'
  assume t: "lo \<le> t" "t \<le> wNow w'" "holding R K C lo w'"
  have m: "0 \<le> t mod 1000" "t mod 1000 < 1000" by simp_all
  have "1000 \<le> lo" using t(3) by (simp add: holding_def)
  then have n: "lo - 1000 < t - t mod 1000" "0 < t - t mod 1000" "t - t mod 1000 \<le> wNow w'"
    using t(1,2) m by linarith+
  from assms(2) [OF n t(3)]
  show "wp (Ret (time_Truncate t microsecond)) Q w'"
    by (simp add: time_Truncate_def microsecond_def)
qed

lemma wp_store:
  "wp (storage_CreateAuthorizationRequest q) Q w =
     (case store_CreateAuthorizationRequest (wNow w) q (wStore w) of (r, s) \<Rightarrow> Q r (w\<lparr>wStore := s\<rparr>))"
  "wp (storage_AuthorizationRequest i) Q1 w =
     (case store_AuthorizationRequest i (wStore w) of (r, s) \<Rightarrow> Q1 r (w\<lparr>wStore := s\<rparr>))"
  "wp (storage_DeleteAuthorizationRequest i) Q w =
     (case store_DeleteAuthorizationRequest i (wStore w) of (r, s) \<Rightarrow> Q r (w\<lparr>wStore := s\<rparr>))"
  "wp (storage_CreateToken t) Q w =
     (case store_CreateToken (wNow w) t (wStore w) of (r, s) \<Rightarrow> Q r (w\<lparr>wStore := s\<rparr>))"
  "wp (storage_Token h) Q2 w = (case store_Token h (wStore w) of (r, s) \<Rightarrow> Q2 r (w\<lparr>wStore := s\<rparr>))"
  "wp (storage_ConsumeToken h n) Q2 w =
     (case store_ConsumeToken h n (wStore w) of (r, s) \<Rightarrow> Q2 r (w\<lparr>wStore := s\<rparr>))"
  "wp (storage_RevokeToken h) Q w =
     (case store_RevokeToken h (wStore w) of (r, s) \<Rightarrow> Q r (w\<lparr>wStore := s\<rparr>))"
  "wp (storage_RevokeGrant g) Q w =
     (case store_RevokeGrant g (wStore w) of (r, s) \<Rightarrow> Q r (w\<lparr>wStore := s\<rparr>))"
  "wp (storage_ClaimOnce k e) Q w =
     (case store_ClaimOnce (wNow w) k e (wStore w) of (r, s) \<Rightarrow> Q r (w\<lparr>wStore := s\<rparr>))"
  by (simp_all add: wp_def op_defs on_store_def split: prod.split)

lemma wp_create_request:
  assumes "holding R K C lo w" and "R (arID q) = None" and "clone_request q = q"
    and "lo + minute \<le> arExpiresAt q"
    and "\<And>w'. holding (R(arID q \<mapsto> q)) K C lo w' \<Longrightarrow> Q None w'"
  shows "wp (storage_CreateAuthorizationRequest q) Q w"
  unfolding wp_store store_CreateAuthorizationRequest_def Let_def
  using assms(2,3) collect_holding [OF assms(1)] holding_live [OF assms(1)] assms(4)
  by (auto intro!: assms(5) holding_store [OF assms(1)] split: if_splits)

lemma wp_create_request_conflict:
  assumes "holding R K C lo w" and "R (arID q) = Some x"
    and "\<And>w'. holding R K C lo w' \<Longrightarrow> Q (Some ErrConflict) w'"
  shows "wp (storage_CreateAuthorizationRequest q) Q w"
  unfolding wp_store store_CreateAuthorizationRequest_def Let_def
  using assms(2) collect_holding [OF assms(1)] holding_live [OF assms(1)]
  by (auto intro!: assms(3) holding_store [OF assms(1)])

lemma wp_load_request:
  assumes "holding R K C lo w"
    and "\<And>w'. holding R K C lo w' \<Longrightarrow>
           Q (case R i of None \<Rightarrow> Inl ErrNotFound | Some q \<Rightarrow> Inr (clone_request q)) w'"
  shows "wp (storage_AuthorizationRequest i) Q w"
  unfolding wp_store store_AuthorizationRequest_def
  using assms(2) [OF assms(1)] assms(1) by (auto simp: holding_def split: option.splits)

lemma wp_create_token:
  assumes "holding R K C lo w" and "K (tHash t) = None" and "clone_token t = t"
    and "lo + minute \<le> tExpiresAt t"
    and "\<And>w'. holding R (K(tHash t \<mapsto> t)) C lo w' \<Longrightarrow> Q None w'"
  shows "wp (storage_CreateToken t) Q w"
  unfolding wp_store store_CreateToken_def Let_def
  using assms(2,3) collect_holding [OF assms(1)] holding_live [OF assms(1)] assms(4)
  by (auto intro!: assms(5) holding_store [OF assms(1)] split: if_splits)

lemma wp_create_token_conflict:
  assumes "holding R K C lo w" and "K (tHash t) = Some x"
    and "\<And>w'. holding R K C lo w' \<Longrightarrow> Q (Some ErrConflict) w'"
  shows "wp (storage_CreateToken t) Q w"
  unfolding wp_store store_CreateToken_def Let_def
  using assms(2) collect_holding [OF assms(1)] holding_live [OF assms(1)]
  by (auto intro!: assms(3) holding_store [OF assms(1)])

lemma wp_load_token:
  assumes "holding R K C lo w"
    and "\<And>w'. holding R K C lo w' \<Longrightarrow>
           Q (case K h of None \<Rightarrow> Inl ErrNotFound | Some t \<Rightarrow> Inr (clone_token t)) w'"
  shows "wp (storage_Token h) Q w"
  unfolding wp_store store_Token_def store_tokenLocked_def
  using assms(2) [OF assms(1)] assms(1) by (auto simp: holding_def split: option.splits)

lemma wp_consume_token:
  assumes "holding R K C lo w"
    and "\<And>w'. holding R (case K h of None \<Rightarrow> K | Some t \<Rightarrow> K(h \<mapsto> mark_consumed n t)) C lo w' \<Longrightarrow>
           Q (case K h of None \<Rightarrow> Inl ErrNotFound | Some t \<Rightarrow> Inr (clone_token t)) w'"
  shows "wp (storage_ConsumeToken h n) Q w"
proof -
  have "holding R (case K h of None \<Rightarrow> K | Some t \<Rightarrow> K(h \<mapsto> mark_consumed n t)) C lo
      (w\<lparr>wStore := snd (store_ConsumeToken h n (wStore w))\<rparr>)"
    using assms(1) holding_live [OF assms(1)]
    by (intro holding_store [OF assms(1)])
      (auto simp: store_ConsumeToken_def store_tokenLocked_def holding_def mark_consumed_def
        time_IsZero_def Let_def split: option.splits)
  from assms(2) [OF this] show ?thesis
    using assms(1)
    by (auto simp: wp_store store_ConsumeToken_def store_tokenLocked_def holding_def Let_def
        split: option.splits)
qed

lemma wp_revoke_token:
  assumes "holding R K C lo w" and "\<And>w'. holding R (K(h := None)) C lo w' \<Longrightarrow> Q None w'"
  shows "wp (storage_RevokeToken h) Q w"
  unfolding wp_store store_RevokeToken_def
  using holding_live [OF assms(1)] assms(1)
  by (auto intro!: assms(2) holding_store [OF assms(1)] simp: holding_def split: if_splits)

lemma wp_revoke_grant:
  assumes "holding R K C lo w"
    and "\<And>w'. holding R (\<lambda>h. case K h of None \<Rightarrow> None | Some t \<Rightarrow> if tGrantID t = g then None else Some t)
           C lo w' \<Longrightarrow> Q None w'"
  shows "wp (storage_RevokeGrant g) Q w"
  unfolding wp_store store_RevokeGrant_def
  using holding_live [OF assms(1)] assms(1)
  by (auto intro!: assms(2) holding_store [OF assms(1)] simp: holding_def split: option.splits if_splits)

lemma wp_claim:
  assumes "holding R K C lo w" and "C k = None" and "lo + minute \<le> e"
    and "\<And>w'. holding R K (C(k \<mapsto> e)) lo w' \<Longrightarrow> Q None w'"
  shows "wp (storage_ClaimOnce k e) Q w"
  unfolding wp_store store_ClaimOnce_def Let_def
  using assms(2,3) collect_holding [OF assms(1)] holding_live [OF assms(1)]
  by (auto intro!: assms(4) holding_store [OF assms(1)] split: if_splits)

lemma wp_claim_conflict:
  assumes "holding R K C lo w" and "C k = Some e'"
    and "\<And>w'. holding R K C lo w' \<Longrightarrow> Q (Some ErrConflict) w'"
  shows "wp (storage_ClaimOnce k e) Q w"
proof -
  have "wNow w < e'" using holding_live(3) [OF assms(1)] assms(2) holding_now [OF assms(1)] by force
  then show ?thesis
    unfolding wp_store store_ClaimOnce_def Let_def
    using assms(2) collect_holding [OF assms(1)] holding_live [OF assms(1)]
    by (auto intro!: assms(3) holding_store [OF assms(1)] simp: time_Before_def)
qed

section \<open>The fixtures\<close>

text \<open>What the random source of a test returns: 16 bytes at a time, and of the first 16 times
  (no test reads as often) never the same ones twice.\<close>

definition fresh_random :: "(nat \<Rightarrow> bytes) \<Rightarrow> bool" where
  "fresh_random src \<longleftrightarrow> inj_on src {..<16} \<and> (\<forall>n. length (src n) = 16)"

lemma randomID_eq:
  "fresh_random src \<Longrightarrow> m < 16 \<Longrightarrow> n < 16 \<Longrightarrow> randomID (src m) = randomID (src n) \<longleftrightarrow> m = n"
  using b64_encode_inj [of "src m" "src n"] inj_onD [of src "{..<16}" m n]
  by (auto simp: randomID_def fresh_random_def)

lemma randomID_ascii [simp]: "is_ascii (randomID b)"
  by (simp add: randomID_def b64_encode_ascii)

lemma length_randomID: "fresh_random src \<Longrightarrow> length (randomID (src n)) = 22"
  by (simp add: randomID_def fresh_random_def length_b64_encode)

lemma clone_request_fixture:
  "is_ascii i \<Longrightarrow> clone_request (request_fixture n i) = request_fixture n i"
  by (simp add: clone_request_def request_fixture_def clone_strings_def clone_claims_def
      clone_claim_map_def clone_claim_request_def json_string_ascii is_ascii_def byte_def)

lemma clone_token_fixture:
  "is_ascii h \<Longrightarrow> is_ascii g \<Longrightarrow> clone_token (token_fixture typ g n h) = token_fixture typ g n h"
  by (simp add: clone_token_def token_fixture_def clone_strings_def clone_claims_def
      clone_claim_map_def json_string_ascii is_ascii_def byte_def json_map_roundtrip_def)

lemma clone_minimal:
  "is_ascii h \<Longrightarrow> is_ascii g \<Longrightarrow> clone_token (minimal_token h g c e) = minimal_token h g c e"
  by (simp add: clone_token_def minimal_token_def token_zero_def clone_strings_def json_string_ascii
      is_ascii_def byte_def json_map_roundtrip_def)

lemmas reflect_defs = assertEqual_def reflect_request_def reflect_token_def reflect_strings_def
  reflect_claims_def reflect_claim_def

lemma fixture_equal [simp]:
  "assertEqual (reflect_request (request_fixture n i)) (reflect_request (request_fixture n i)) = Inr ()"
  by (simp add: reflect_defs request_fixture_def)

lemma token_fixture_equal [simp]:
  "assertEqual (reflect_token (token_fixture typ g n h)) (reflect_token (token_fixture typ g n h)) = Inr ()"
  by (simp add: reflect_defs token_fixture_def)

lemma minimal_equal [simp]:
  "assertEqual (reflect_token (minimal_token h g c e)) (reflect_token (minimal_token h g c e)) = Inr ()"
  by (simp add: reflect_defs minimal_token_def token_zero_def)

lemma fixture_sel [simp]:
  "arID (request_fixture n i) = i" "arExpiresAt (request_fixture n i) = n + 15 * minute"
  "arScopes (request_fixture n i) = [''openid'', ''profile'']"
  "tHash (token_fixture typ g n h) = h" "tGrantID (token_fixture typ g n h) = g"
  "tExpiresAt (token_fixture typ g n h) = n + hour" "tConsumedAt (token_fixture typ g n h) = 0"
  "tScopes (token_fixture typ g n h) = [''openid'', ''offline_access'']"
  "tHash (minimal_token h g c e) = h" "tExpiresAt (minimal_token h g c e) = e"
  by (simp_all add: request_fixture_def token_fixture_def minimal_token_def time_Add_def)

lemma renamed_fixture: "request_fixture n i\<lparr>arID := j\<rparr> = request_fixture n j"
  by (simp add: request_fixture_def)

lemma wp_fullAuthorizationRequest:
  assumes "holding R K C lo w"
    and "\<And>n w'. lo - 1000 < n \<Longrightarrow> holding R K C lo w' \<Longrightarrow> Q (request_fixture n (randomID b)) w'"
  shows "wp (fullAuthorizationRequest b) Q w"
  unfolding fullAuthorizationRequest_def wp_bind
  by (rule wp_test_now [OF assms(1)]) (simp add: assms(2))

lemma wp_fullToken:
  assumes "holding R K C lo w"
    and "\<And>n w'. lo - 1000 < n \<Longrightarrow> holding R K C lo w' \<Longrightarrow> Q (token_fixture typ g n (randomID b)) w'"
  shows "wp (fullToken typ g b) Q w"
  unfolding fullToken_def wp_bind
  by (rule wp_test_now [OF assms(1)]) (simp add: assms(2))

lemma later: "lo - 1000 < n \<Longrightarrow> lo + minute \<le> n + 15 * minute" "lo - 1000 < n \<Longrightarrow> lo + minute \<le> n + hour"
  by (simp_all add: minute_def hour_def)

section \<open>The tests without goroutines\<close>

text \<open>What each test needs of its fixtures.\<close>

lemmas test_facts = nil_or_Is_def clone_request_fixture clone_token_fixture later

abbreviation empty_store :: "time \<Rightarrow> world \<Rightarrow> bool" where
  "empty_store \<equiv> holding Map.empty Map.empty Map.empty"

abbreviation test_passes :: "(string + unit) prog \<Rightarrow> world \<Rightarrow> bool" where
  "test_passes test \<equiv> wp test (\<lambda>v _. v = Inr ())"

lemma passes_RequestConflict:
  assumes "fresh_random src" and "empty_store lo w"
  shows "test_passes (testAuthorizationRequestConflict src) w"
  unfolding testAuthorizationRequestConflict_def
  apply simp
  apply (rule wp_fullAuthorizationRequest [OF assms(2)])
  apply (rule wp_create_request, assumption, simp_all add: test_facts)
  apply (rule wp_create_request_conflict, assumption, simp_all add: test_facts)
  apply (rule wp_load_request, assumption, simp add: test_facts randomID_eq [OF assms(1)])
  done

lemma wp_roundtrip_request:
  assumes "holding R K C lo w" and "R i = None" and "is_ascii i" and "lo - 1000 < n"
    and "\<And>w'. holding (R(i \<mapsto> request_fixture n i)) K C lo w' \<Longrightarrow> Q (Inr ()) w'"
  shows "wp (roundtrip_request (request_fixture n i)) Q w"
  unfolding roundtrip_request_def
  apply simp
  apply (rule wp_create_request [OF assms(1)], simp_all add: test_facts assms(2-4))
  apply (rule wp_load_request, assumption, simp add: test_facts assms(3,5))
  done

lemma pad_ascii: "is_ascii s \<Longrightarrow> byte c < 128 \<Longrightarrow> is_ascii (pad n c s)"
  unfolding pad_def is_ascii_simps by (simp add: is_ascii_def)

lemma length_pad: "length s \<le> n \<Longrightarrow> length (pad n c s) = n"
  by (simp add: pad_def)

lemma padded_id:
  assumes "fresh_random src"
  shows "is_ascii (pad 64 CHR ''x'' (''par:'' @ randomID (src m) @ randomID (src n)))"
    and "pad 64 CHR ''x'' (''par:'' @ randomID (src m) @ randomID (src n)) \<noteq> randomID (src k)"
proof -
  have "is_ascii ''par:''" by (simp add: byte_def)
  then show "is_ascii (pad 64 CHR ''x'' (''par:'' @ randomID (src m) @ randomID (src n)))"
    by (intro pad_ascii) (simp_all only: is_ascii_simps randomID_ascii simp_thms, simp add: byte_def)
  have "length (''par:'' @ randomID (src m) @ randomID (src n)) = 48"
    by (simp add: length_randomID [OF assms])
  then have "length (pad 64 CHR ''x'' (''par:'' @ randomID (src m) @ randomID (src n))) = 64"
    by (intro length_pad) linarith
  then show "pad 64 CHR ''x'' (''par:'' @ randomID (src m) @ randomID (src n)) \<noteq> randomID (src k)"
    using length_randomID [OF assms, of k] by (intro notI) (simp only: numeral_eq_iff, simp)
qed

lemma passes_RequestRoundTrip:
  assumes "fresh_random src" and "empty_store lo w"
  shows "test_passes (testAuthorizationRequestRoundTrip src) w"
  unfolding testAuthorizationRequestRoundTrip_def Let_def
  apply (simp del: append_Cons)
  apply (rule wp_fullAuthorizationRequest [OF assms(2)], rule wp_fullAuthorizationRequest, assumption)
  apply (rule wp_roundtrip_request, assumption, simp_all add: renamed_fixture del: append_Cons)
  apply (rule wp_roundtrip_request, assumption, simp_all add: padded_id [OF assms(1)] del: append_Cons)
  done

lemma wp_roundtrip_token:
  assumes "holding R K C lo w" and "K (tHash t) = None" and "clone_token t = t"
    and "lo + minute \<le> tExpiresAt t" and "assertEqual (reflect_token t) (reflect_token t) = Inr ()"
    and "\<And>w'. holding R (K(tHash t \<mapsto> t)) C lo w' \<Longrightarrow> Q (Inr ()) w'"
  shows "wp (roundtrip_token t) Q w"
  unfolding roundtrip_token_def
  apply simp
  apply (rule wp_create_token [OF assms(1)], simp_all add: assms(2-4))
  apply (rule wp_load_token, assumption, simp add: assms(3,5,6))
  done

lemma passes_TokenRoundTrip:
  assumes "fresh_random src" and "empty_store lo w"
  shows "test_passes (testTokenRoundTrip src) w"
  unfolding testTokenRoundTrip_def
  apply simp
  apply (rule wp_fullToken [OF assms(2)], rule wp_roundtrip_token, assumption,
      simp_all add: test_facts)
  apply (rule wp_fullToken, assumption, rule wp_roundtrip_token, assumption,
      simp_all add: test_facts randomID_eq [OF assms(1)])
  apply (rule wp_fullToken, assumption, rule wp_roundtrip_token, assumption,
      simp_all add: test_facts randomID_eq [OF assms(1)])
  apply (rule wp_test_now, assumption, rule wp_test_now, assumption)
  apply (rule wp_roundtrip_token, assumption,
      simp_all add: test_facts clone_minimal time_Add_def randomID_eq [OF assms(1)])
  done

lemma passes_TokenConflict:
  assumes "fresh_random src" and "empty_store lo w"
  shows "test_passes (testTokenConflict src) w"
  unfolding testTokenConflict_def
  apply simp
  apply (rule wp_fullToken [OF assms(2)])
  apply (rule wp_create_token, assumption, simp_all add: test_facts)
  apply (rule wp_create_token_conflict, assumption, simp_all add: test_facts)
  done

lemma passes_TokenNotFound:
  assumes "fresh_random src" and "empty_store lo w"
  shows "test_passes (testTokenNotFound src) w"
  unfolding testTokenNotFound_def
  apply simp
  apply (rule wp_load_token [OF assms(2)], simp add: test_facts)
  apply (rule wp_test_now, assumption)
  apply (rule wp_consume_token, assumption, simp add: test_facts)
  apply (rule wp_revoke_token, assumption, simp)
  apply (rule wp_revoke_grant, assumption, simp)
  done

lemma passes_ConsumeToken:
  assumes "fresh_random src" and "empty_store lo w"
  shows "test_passes (testConsumeToken src) w"
  unfolding testConsumeToken_def
  apply simp
  apply (rule wp_fullToken [OF assms(2)])
  apply (rule wp_create_token, assumption, simp_all add: test_facts)
  apply (rule wp_test_now, assumption)
  apply (rule wp_consume_token, assumption, simp add: test_facts time_IsZero_def)
  apply (rule wp_consume_token, assumption, simp add: test_facts mark_consumed_def)
  apply (rule wp_load_token, assumption, simp add: test_facts mark_consumed_def)
  done

lemma passes_RevokeToken:
  assumes "fresh_random src" and "empty_store lo w"
  shows "test_passes (testRevokeToken src) w"
  unfolding testRevokeToken_def Let_def
  apply simp
  apply (rule wp_fullToken [OF assms(2)], rule wp_fullToken, assumption)
  apply (rule wp_create_token, assumption, simp_all add: test_facts)
  apply (rule wp_create_token, assumption, simp_all add: test_facts randomID_eq [OF assms(1)])
  apply (rule wp_revoke_token, assumption, simp)
  apply (rule wp_load_token, assumption, simp add: test_facts)
  apply (rule wp_load_token, assumption, simp add: test_facts randomID_eq [OF assms(1)])
  done

lemma wp_token_is_gone:
  assumes "holding R K C lo w" and "K (tHash t) = None" and "\<And>w'. holding R K C lo w' \<Longrightarrow> Q (Inr ()) w'"
  shows "wp (token_is_gone t) Q w"
  unfolding token_is_gone_def
  apply simp
  apply (rule wp_load_token [OF assms(1)], simp add: test_facts assms(2))
  apply (rule wp_test_now, assumption)
  apply (rule wp_consume_token, assumption, simp add: test_facts assms(2,3))
  done

lemma passes_RevokeGrant:
  assumes "fresh_random src" and "empty_store lo w"
  shows "test_passes (testRevokeGrant src) w"
  unfolding testRevokeGrant_def Let_def
  apply simp
  apply (rule wp_fullToken [OF assms(2)], rule wp_fullToken, assumption, rule wp_fullToken, assumption,
      rule wp_fullToken, assumption)
  apply (rule wp_create_token, assumption, simp_all add: test_facts)
  apply (rule wp_create_token, assumption, simp_all add: test_facts randomID_eq [OF assms(1)])
  apply (rule wp_create_token, assumption, simp_all add: test_facts randomID_eq [OF assms(1)])
  apply (rule wp_create_token, assumption, simp_all add: test_facts randomID_eq [OF assms(1)])
  apply (rule wp_revoke_grant, assumption, simp)
  apply (rule wp_token_is_gone, assumption, simp_all add: randomID_eq [OF assms(1)])
  apply (rule wp_token_is_gone, assumption, simp_all add: randomID_eq [OF assms(1)])
  apply (rule wp_token_is_gone, assumption, simp_all add: randomID_eq [OF assms(1)])
  apply (rule wp_load_token, assumption, simp add: test_facts randomID_eq [OF assms(1)])
  done

lemma passes_ReturnedRecordsAreCopies:
  assumes "fresh_random src" and "empty_store lo w"
  shows "test_passes (testReturnedRecordsAreCopies src) w"
  unfolding testReturnedRecordsAreCopies_def Let_def
  apply simp
  apply (rule wp_fullAuthorizationRequest [OF assms(2)])
  apply (rule wp_create_request, assumption, simp_all add: test_facts)
  apply (rule wp_load_request, assumption, simp add: test_facts check_scope_def)
  apply (rule wp_load_request, assumption, simp add: test_facts check_scope_def)
  apply (rule wp_fullToken, assumption)
  apply (rule wp_create_token, assumption, simp_all add: test_facts)
  apply (rule wp_load_token, assumption, simp add: test_facts check_scope_def)
  apply (rule wp_load_token, assumption, simp add: test_facts check_scope_def)
  done

text \<open>A claim that has expired does not keep its key.\<close>

definition claimable :: "string \<Rightarrow> world \<Rightarrow> bool" where
  "claimable k w \<longleftrightarrow> (\<forall>e. msClaims (wStore w) k = Some e \<longrightarrow> e \<le> wNow w)"

lemma claimable_collect:
  "claimable k w \<Longrightarrow> msClaims (store_collectLocked (wNow w) (wStore w)) k = Some e \<Longrightarrow> e \<le> wNow w"
  by (auto simp: claimable_def store_collectLocked_def drop_expired_def split: if_split_asm option.split_asm)

lemma wp_claim_claimable:
  assumes "claimable k w" and "\<And>w'. wNow w' = wNow w \<Longrightarrow> (e \<le> wNow w \<Longrightarrow> claimable k w') \<Longrightarrow> Q None w'"
  shows "wp (storage_ClaimOnce k e) Q w"
  unfolding wp_store store_ClaimOnce_def Let_def
  using claimable_collect [OF assms(1)]
  by (auto simp: time_Before_def claimable_def split: option.splits intro!: assms(2))

lemma wp_now_claimable:
  assumes "claimable k w" and "\<And>t w'. t \<le> wNow w' \<Longrightarrow> claimable k w' \<Longrightarrow> Q t w'"
  shows "wp provider_now Q w"
proof -
  define w' where "w' = snd (world_now w)"
  have h: "wStore w' = wStore w" "wNow w \<le> wNow w'"
    by (auto simp: w'_def world_now_def split: list.split)
  have "claimable k w'"
    using assms(1) h(2) unfolding claimable_def h(1) by fastforce
  then show ?thesis
    using assms(2) [of "wNow w" w'] h(2)
    by (cases "world_now w") (simp add: wp_def op_defs w'_def world_now_def)
qed

lemma holding_claimable: "holding R K C lo w \<Longrightarrow> C k = None \<Longrightarrow> claimable k w"
  by (simp add: holding_def claimable_def)

lemma long_key:
  assumes "fresh_random src"
  shows "pad 128 CHR ''k'' (''test:'' @ randomID (src m)) \<noteq> ''test:'' @ randomID (src n)"
proof -
  have len: "length (''test:'' @ randomID (src k)) = 27" for k
    by (simp add: length_randomID [OF assms])
  have "length (pad 128 CHR ''k'' (''test:'' @ randomID (src m))) = 128"
    by (rule length_pad) (use len [of m] in linarith)
  then show ?thesis
    using len [of n] by (intro notI) (simp only: numeral_eq_iff, simp)
qed

lemma passes_ClaimOnce:
  assumes "fresh_random src" and "empty_store lo w"
  shows "test_passes (testClaimOnce src) w"
proof -
  define key where "key n = ''test:'' @ randomID (src n)" for n
  have keys: "key m = key n \<longleftrightarrow> m = n" if "m < 16" "n < 16" for m n
    using that by (simp add: key_def randomID_eq [OF assms(1)])
  have long: "pad 128 CHR ''k'' (key m) \<noteq> key n" for m n
    using long_key [OF assms(1)] by (simp only: key_def not_False_eq_True)
  show ?thesis
    unfolding testClaimOnce_def Let_def key_def [symmetric]
    apply simp
    apply (rule wp_now [OF assms(2)])
    apply (rule wp_claim, assumption, simp_all add: time_Add_def)
    apply (rule wp_claim_conflict, assumption, simp_all add: test_facts)
    apply (rule wp_claim, assumption, simp_all add: time_Add_def keys)
    apply (rule wp_claim, assumption, simp_all add: time_Add_def long)
    apply (rule wp_now_claimable [where k = "key 3"], rule holding_claimable, assumption)
     apply (simp add: keys long long [symmetric])
    apply (rule wp_claim_claimable, assumption, simp)
    apply (rule wp_now_claimable [where k = "key 3"], simp add: second_def)
    apply (rule wp_claim_claimable, assumption, simp)
    done
qed

lemmas passes = passes_RequestRoundTrip passes_RequestConflict passes_TokenRoundTrip passes_TokenConflict
  passes_TokenNotFound passes_ConsumeToken passes_RevokeToken passes_RevokeGrant
  passes_ReturnedRecordsAreCopies passes_ClaimOnce

lemma complete_fixtures:
  "0 < n \<Longrightarrow> i \<noteq> [] \<Longrightarrow> empty_fields (reflect_request (request_fixture n i)) = []"
  "minute < n \<Longrightarrow> h \<noteq> [] \<Longrightarrow> g \<noteq> [] \<Longrightarrow> typ \<noteq> TokenKindUnset \<Longrightarrow>
     empty_fields (reflect_token (token_fixture typ g n h)) = []"
  by (simp_all add: empty_fields_def reflect_request_def reflect_token_def request_fixture_def
      token_fixture_def reflect_strings_def reflect_claims_def time_Add_def minute_def hour_def)

lemma randomID_nonempty: "fresh_random src \<Longrightarrow> randomID (src n) \<noteq> []"
  using length_randomID [of src n] by auto

lemma passes_FixturesAreComplete:
  assumes "fresh_random src" and "empty_store lo w" and "minute + 1000 \<le> lo"
  shows "wp (testFixturesAreComplete src) (\<lambda>msgs _. msgs = []) w"
  unfolding testFixturesAreComplete_def wp_bind
  apply (rule wp_fullAuthorizationRequest [OF assms(2)], rule wp_fullToken, assumption)
  apply (use assms(3) in \<open>simp add: complete_fixtures randomID_nonempty [OF assms(1)] minute_def\<close>)
  done

section \<open>The tests with goroutines\<close>

text \<open>One call of a program, in the terms of \<open>wp\<close>.\<close>

lemma wp_call: "wp p Q w \<Longrightarrow> advance p ev = Some q \<Longrightarrow> serve mem ev w = Some w' \<Longrightarrow> wp q Q w'"
  by (cases p) (auto simp: wp_def answered_def split: event.splits if_splits prod.splits)

definition atomic :: "'a prog \<Rightarrow> bool" where
  "atomic p \<longleftrightarrow> (\<forall>a. p \<noteq> Ret a) \<and> (\<forall>ev q. advance p ev = Some q \<longrightarrow> (\<exists>a. q = Ret a))"

lemma atomic_ops [simp]:
  "atomic (storage_DeleteAuthorizationRequest i)" "atomic (storage_ConsumeToken h n)"
  "atomic (storage_ClaimOnce k e)" "atomic provider_now"
  by (auto simp: atomic_def op_defs split: event.splits if_splits)

lemma advance_bind:
  "atomic p \<Longrightarrow> advance (bind p f) ev = Some q \<Longrightarrow> \<exists>a. q = f a \<and> advance p ev = Some (Ret a)"
  unfolding atomic_def
  by (cases p) (auto split: event.splits if_splits; metis bind.simps(1))+

definition step :: "'a prog \<Rightarrow> ('a prog \<Rightarrow> world \<Rightarrow> bool) \<Rightarrow> world \<Rightarrow> bool" where
  "step p Q w \<longleftrightarrow>
     (\<forall>ev q w'. advance p ev = Some q \<longrightarrow> serve mem ev w = Some w' \<longrightarrow> Q q w')"

lemma step_bind: "atomic p \<Longrightarrow> wp p (\<lambda>a. Q (f a)) w \<Longrightarrow> step (bind p f) Q w"
  unfolding step_def using advance_bind wp_call by fastforce

definition racing ::
  "worker_result prog set \<Rightarrow> (world \<Rightarrow> bool) \<Rightarrow> (world \<Rightarrow> bool) \<Rightarrow> worker_result prog list \<Rightarrow> world \<Rightarrow> bool" where
  "racing A opened closed qs w \<longleftrightarrow>
     set qs \<subseteq> A \<union> {Ret Succeeded, Ret Lost} \<and>
     (opened w \<and> set qs \<subseteq> A \<or> closed w \<and> count (mset qs) (Ret Succeeded) = 1)"

text \<open>Goroutines of which one wins, as an interface: \<open>A\<close> holds what a goroutine that has not ended may
  still have to do. While the state is \<open>opened\<close> none has succeeded, the one that succeeds leaves it
  \<open>closed\<close>, and then the others lose.\<close>

locale contest =
  fixes A :: "worker_result prog set" and opened closed :: "world \<Rightarrow> bool"
  assumes running: "p \<in> A \<Longrightarrow> p \<noteq> Ret a"
    and winning: "p \<in> A \<Longrightarrow> opened w \<Longrightarrow>
      step p (\<lambda>q w. q \<in> A \<and> opened w \<or> q = Ret Succeeded \<and> closed w) w"
    and losing: "p \<in> A \<Longrightarrow> closed w \<Longrightarrow> step p (\<lambda>q w. (q \<in> A \<or> q = Ret Lost) \<and> closed w) w"

context contest
begin

lemma racing_step:
  assumes "racing A opened closed qs w" and "i < length qs"
    and "advance (qs ! i) ev = Some q" and "serve mem ev w = Some w'"
  shows "racing A opened closed (qs[i := q]) w'"
proof -
  have "qs ! i \<noteq> Ret a" for a using assms(3) by auto
  moreover have "qs ! i \<in> A \<union> {Ret Succeeded, Ret Lost}"
    using assms(1) nth_mem [OF assms(2)] unfolding racing_def by blast
  ultimately have i: "qs ! i \<in> A" by simp
  have ret: "Ret Succeeded \<notin> A" using running by blast
  then have old: "qs ! i \<noteq> Ret Succeeded" using i by metis
  have upd: "set (qs[i := q]) \<subseteq> insert q (set qs)" by (rule set_update_subset_insert)
  have count: "count (mset (qs[i := q])) (Ret Succeeded) =
      count (mset qs) (Ret Succeeded) + (if q = Ret Succeeded then 1 else 0)"
    using old assms(2) by (simp add: mset_update)
  consider "opened w" "set qs \<subseteq> A" | "closed w" "count (mset qs) (Ret Succeeded) = 1"
    using assms(1) unfolding racing_def by blast
  then show ?thesis
  proof cases
    case 1
    then have "q \<in> A \<and> opened w' \<or> q = Ret Succeeded \<and> closed w'"
      using assms(3,4) winning [OF i] unfolding step_def by blast
    moreover have "count (mset qs) (Ret Succeeded) = 0" using 1(2) ret by (auto simp: count_eq_zero_iff)
    ultimately show ?thesis using 1(2) upd count unfolding racing_def by auto
  next
    case 2
    then have "(q \<in> A \<or> q = Ret Lost) \<and> closed w'"
      using assms(3,4) losing [OF i] unfolding step_def by blast
    then show ?thesis using 2 assms(1) upd count ret unfolding racing_def by auto
  qed
qed

lemma race:
  assumes "p \<in> A" and "opened w" and "0 < n"
    and "concurrent mem (replicate n p, w) calls (map Ret rs, w')"
  shows "closed w'" and "count_list rs Succeeded = 1" and "[m. Reported m \<leftarrow> rs] = []"
proof -
  have start: "racing A opened closed (replicate n p) w"
    using assms(1,2) by (auto simp: racing_def)
  have "racing A opened closed (map Ret rs) w'"
    by (rule concurrent_invariant [where P = "racing A opened closed", OF assms(4) start])
      (rule racing_step)
  moreover have "rs \<noteq> []" using concurrent_length [OF assms(4)] assms(3) by auto
  then have "\<not> set (map Ret rs) \<subseteq> A" using running by (cases rs) auto
  ultimately have ends: "closed w'" "count (mset (map Ret rs)) (Ret Succeeded :: worker_result prog) = 1"
      "set (map Ret rs) \<subseteq> A \<union> {Ret Succeeded, Ret Lost}"
    unfolding racing_def by blast+
  have "count (mset (map Ret rs)) (Ret Succeeded :: worker_result prog) = count_list rs Succeeded"
    by (induction rs) simp_all
  with ends(1,2) show "closed w'" "count_list rs Succeeded = 1" by simp_all
  have "set rs \<subseteq> {Succeeded, Lost}"
    using ends(3) running by auto
  then show "[m. Reported m \<leftarrow> rs] = []" by (induction rs) auto
qed

end

lemma wp_delete_request:
  assumes "holding R K C lo w"
    and "\<And>w'. holding (R(i := None)) K C lo w' \<Longrightarrow>
           Q (case R i of None \<Rightarrow> Some ErrNotFound | Some _ \<Rightarrow> None) w'"
  shows "wp (storage_DeleteAuthorizationRequest i) Q w"
proof -
  have R: "msRequests (wStore w) = R" using assms(1) by (simp add: holding_def)
  have "holding (R(i := None)) K C lo (w\<lparr>wStore := snd (store_DeleteAuthorizationRequest i (wStore w))\<rparr>)"
    using assms(1) holding_live [OF assms(1)]
    by (intro holding_store [OF assms(1)])
      (auto simp: store_DeleteAuthorizationRequest_def holding_def split: option.splits if_splits)
  from assms(2) [OF this] show ?thesis
    unfolding wp_store store_DeleteAuthorizationRequest_def R by (auto split: option.splits)
qed

interpretation deletion: contest "{deleteWorker q}" "holding [arID q \<mapsto> q] Map.empty Map.empty lo"
    "holding Map.empty Map.empty Map.empty lo"
  for q lo
proof (rule contest.intro; elim singletonE; hypsubst?)
  show "deleteWorker q \<noteq> Ret a" for a by (simp add: deleteWorker_def op_defs)
  fix w
  show "step (deleteWorker q) (\<lambda>p w. p \<in> {deleteWorker q} \<and> holding [arID q \<mapsto> q] Map.empty Map.empty lo w \<or>
      p = Ret Succeeded \<and> holding Map.empty Map.empty Map.empty lo w) w"
    if "holding [arID q \<mapsto> q] Map.empty Map.empty lo w"
    unfolding deleteWorker_def by (rule step_bind, simp, rule wp_delete_request [OF that]) simp
  show "step (deleteWorker q) (\<lambda>p w. (p \<in> {deleteWorker q} \<or> p = Ret Lost) \<and>
      holding Map.empty Map.empty Map.empty lo w) w"
    if "holding Map.empty Map.empty Map.empty lo w"
    unfolding deleteWorker_def by (rule step_bind, simp, rule wp_delete_request [OF that]) simp
qed

definition unclaimed where
  "unclaimed e lo w \<longleftrightarrow> holding Map.empty Map.empty Map.empty lo w \<and> lo + minute \<le> e"

interpretation claim: contest "{claimWorker (k, e)}" "unclaimed e lo" "holding Map.empty Map.empty [k \<mapsto> e] lo"
  for k e lo
proof (rule contest.intro; elim singletonE; hypsubst?)
  show "claimWorker (k, e) \<noteq> Ret a" for a by (simp add: claimWorker_def op_defs)
  fix w
  show "step (claimWorker (k, e)) (\<lambda>p w. p \<in> {claimWorker (k, e)} \<and> unclaimed e lo w \<or>
      p = Ret Succeeded \<and> holding Map.empty Map.empty [k \<mapsto> e] lo w) w"
    if "unclaimed e lo w"
    unfolding claimWorker_def prod.case
    by (rule step_bind, simp, rule wp_claim [OF conjunct1 [OF that [unfolded unclaimed_def]] _
          conjunct2 [OF that [unfolded unclaimed_def]]]) simp_all
  show "step (claimWorker (k, e)) (\<lambda>p w. (p \<in> {claimWorker (k, e)} \<or> p = Ret Lost) \<and>
      holding Map.empty Map.empty [k \<mapsto> e] lo w) w"
    if "holding Map.empty Map.empty [k \<mapsto> e] lo w"
    unfolding claimWorker_def prod.case by (rule step_bind, simp, rule wp_claim_conflict [OF that]) simp_all
qed

text \<open>A worker of the consuming test first asks for the time.\<close>

definition consuming :: "Token \<Rightarrow> time \<Rightarrow> worker_result prog" where
  "consuming tok n =
     bind (storage_ConsumeToken (tHash tok) n) (\<lambda>r. Ret
       (case r of
          Inl _ \<Rightarrow> Reported ''ConsumeToken''
        | Inr got \<Rightarrow> if time_IsZero (tConsumedAt got) then Succeeded else Lost))"

lemma consumeWorker_eq: "consumeWorker tok = bind test_now (consuming tok)"
  by (simp add: consumeWorker_def consuming_def [abs_def])

lemma step_test_now: "wp test_now (\<lambda>n. Q (f n)) w \<Longrightarrow> step (bind test_now f) Q w"
  unfolding test_now_def bind_assoc by (rule step_bind) simp_all

definition unconsumed where
  "unconsumed tok lo w \<longleftrightarrow> holding Map.empty [tHash tok \<mapsto> tok] Map.empty lo w \<and> tConsumedAt tok = 0"

definition consumed where
  "consumed tok lo w \<longleftrightarrow> (\<exists>t. holding Map.empty [tHash tok \<mapsto> t] Map.empty lo w \<and> tConsumedAt t \<noteq> 0)"

interpretation consumption: contest "{consumeWorker tok} \<union> consuming tok ` {0<..}"
    "unconsumed tok lo" "consumed tok lo"
  for tok lo
proof (rule contest.intro)
  fix p :: "worker_result prog" and w
  assume p: "p \<in> {consumeWorker tok} \<union> consuming tok ` {0<..}" (is "p \<in> ?A")
  show "p \<noteq> Ret a" for a
    using p by (auto simp: consumeWorker_def consuming_def test_now_def op_defs)
  have loop: "step (consumeWorker tok) (\<lambda>q w. q \<in> ?A \<and> holding R K C lo w) w"
    if "holding R K C lo w" for R K C
    unfolding consumeWorker_eq
    by (rule step_test_now, rule wp_test_now [OF that]) (simp add: consumeWorker_eq)
  show "step p (\<lambda>q w. q \<in> ?A \<and> unconsumed tok lo w \<or> q = Ret Succeeded \<and> consumed tok lo w) w"
    if "unconsumed tok lo w"
  proof -
    have o: "holding Map.empty [tHash tok \<mapsto> tok] Map.empty lo w" "tConsumedAt tok = 0"
      using that by (simp_all add: unconsumed_def)
    show ?thesis
    proof (cases "p = consumeWorker tok")
      case True
      then show ?thesis using loop [OF o(1)] o(2) unfolding unconsumed_def step_def by blast
    next
      case False
      then obtain n where n: "p = consuming tok n" "0 < n" using p by auto
      show ?thesis
        unfolding n(1) consuming_def
        apply (rule step_bind, simp, rule wp_consume_token [OF o(1)])
        using n(2) o(2) by (auto simp: consumed_def mark_consumed_def time_IsZero_def)
    qed
  qed
  show "step p (\<lambda>q w. (q \<in> ?A \<or> q = Ret Lost) \<and> consumed tok lo w) w" if c: "consumed tok lo w"
  proof -
    from c obtain t where t: "holding Map.empty [tHash tok \<mapsto> t] Map.empty lo w" "tConsumedAt t \<noteq> 0"
      by (auto simp: consumed_def)
    show ?thesis
    proof (cases "p = consumeWorker tok")
      case True
      then show ?thesis using loop [OF t(1)] t(2) unfolding consumed_def step_def by blast
    next
      case False
      then obtain n where n: "p = consuming tok n" using p by auto
      show ?thesis
        unfolding n consuming_def
        apply (rule step_bind, simp, rule wp_consume_token [OF t(1)])
        using t(2) by (auto simp: consumed_def mark_consumed_def time_IsZero_def)
    qed
  qed
qed

text \<open>A test with goroutines passes when its preparation ends where one goroutine wins, and its end
  passes where one has won.\<close>

definition decided ::
  "('x \<Rightarrow> worker_result prog) \<Rightarrow> ('x \<Rightarrow> worker_result list \<Rightarrow> (string + unit) prog) \<Rightarrow>
     string + 'x \<Rightarrow> world \<Rightarrow> bool" where
  "decided worker finish r w \<longleftrightarrow>
     (\<exists>x A opened closed. r = Inr x \<and> contest A opened closed \<and> worker x \<in> A \<and> opened w \<and>
        (\<forall>rs w. closed w \<longrightarrow> count_list rs Succeeded = 1 \<longrightarrow> [m. Reported m \<leftarrow> rs] = [] \<longrightarrow>
           test_passes (finish x rs) w))"

lemma decidedI:
  assumes "contest A opened closed" and "worker x \<in> A" and "opened w"
    and "\<And>rs w. closed w \<Longrightarrow> count_list rs Succeeded = 1 \<Longrightarrow> [m. Reported m \<leftarrow> rs] = [] \<Longrightarrow>
           test_passes (finish x rs) w"
  shows "decided worker finish (Inr x) w"
  using assms unfolding decided_def by blast

lemma staged_passes:
  assumes "staged mem prepare worker finish w v" and "wp prepare (decided worker finish) w"
  shows "v = Inr ()"
  using assms(1)
proof (rule stagedE)
  fix msg log w1
  assume "run mem prepare w = (Inl msg, log, w1)"
  then show ?thesis using assms(2) by (simp add: wp_def decided_def)
next
  fix x log w1 calls rs w2 log2 w3
  assume r: "run mem prepare w = (Inr x, log, w1)"
    and c: "concurrent mem (replicate workers (worker x), w1) calls (map Ret rs, w2)"
    and f: "run mem (finish x rs) w2 = (v, log2, w3)"
  from assms(2) r obtain A opened closed where one: "contest A opened closed" "worker x \<in> A" "opened w1"
      and fin: "\<And>rs w. closed w \<Longrightarrow> count_list rs Succeeded = 1 \<Longrightarrow> [m. Reported m \<leftarrow> rs] = [] \<Longrightarrow>
                  test_passes (finish x rs) w"
    by (auto simp: wp_def decided_def)
  have "0 < workers" by (simp add: workers_def)
  from fin [OF contest.race [OF one this c]] f show ?thesis by (simp add: wp_def)
qed

lemma exactly_one_passes:
  "count_list rs Succeeded = 1 \<Longrightarrow> exactly_one msg rs = Ret (Inr ())"
  "[m. Reported m \<leftarrow> rs] = [] \<Longrightarrow> none_reported rs = Ret (Inr ())"
  by (simp_all only: exactly_one_def fatal_if_def none_reported_def if_False simp_thms list.case)

lemma deletions_decided:
  assumes "holding [arID q \<mapsto> q] Map.empty Map.empty lo w"
  shows "decided deleteWorker deleteOnce_finish (Inr q) w"
proof (rule decidedI [OF deletion.contest_axioms [of q lo]])
  show "deleteWorker q \<in> {deleteWorker q}" by simp
  show "holding [arID q \<mapsto> q] Map.empty Map.empty lo w" by (rule assms)
  fix rs w
  assume "empty_store lo w" "count_list rs Succeeded = 1" "[m. Reported m \<leftarrow> rs] = []"
  then show "test_passes (deleteOnce_finish q rs) w"
    unfolding deleteOnce_finish_def
    by (simp only: exactly_one_passes wp_bindE wp_Ret sum.case wp_must_fail wp_error_of)
      (rule wp_load_request, assumption, simp add: test_facts)
qed

lemma consumptions_decided:
  assumes "holding Map.empty [tHash tok \<mapsto> tok] Map.empty lo w" and "tConsumedAt tok = 0"
  shows "decided consumeWorker consumeConcurrently_finish (Inr tok) w"
  by (rule decidedI [OF consumption.contest_axioms [of tok lo]], rule UnI1, rule singletonI)
    (use assms in \<open>simp_all only: unconsumed_def consumeConcurrently_finish_def exactly_one_passes
       wp_bindE wp_Ret sum.case\<close>)

lemma claims_decided:
  assumes "empty_store lo w" and "lo + minute \<le> e"
  shows "decided claimWorker claimConcurrently_finish (Inr (k, e)) w"
  by (rule decidedI [OF claim.contest_axioms [of k e lo]], rule singletonI)
    (use assms in \<open>simp_all only: unclaimed_def claimConcurrently_finish_def exactly_one_passes
       wp_bindE wp_Ret sum.case\<close>)

lemma deletions_pass:
  assumes "empty_store lo w"
    and "staged mem (deleteOnce_prepare src) deleteWorker deleteOnce_finish w v"
  shows "v = Inr ()"
  using assms(2)
proof (rule staged_passes)
  show "wp (deleteOnce_prepare src) (decided deleteWorker deleteOnce_finish) w"
    unfolding deleteOnce_prepare_def
    apply simp
    apply (rule wp_fullAuthorizationRequest [OF assms(1)], rule wp_create_request, assumption)
    apply (simp_all add: test_facts deletions_decided)
    done
qed

lemma consumptions_pass:
  assumes "empty_store lo w"
    and "staged mem (consumeConcurrently_prepare src) consumeWorker consumeConcurrently_finish w v"
  shows "v = Inr ()"
  using assms(2)
proof (rule staged_passes)
  show "wp (consumeConcurrently_prepare src) (decided consumeWorker consumeConcurrently_finish) w"
    unfolding consumeConcurrently_prepare_def
    apply simp
    apply (rule wp_fullToken [OF assms(1)], rule wp_create_token, assumption)
    apply (simp_all add: test_facts consumptions_decided)
    done
qed

lemma claims_pass:
  assumes "empty_store lo w"
    and "staged mem (claimConcurrently_prepare src) claimWorker claimConcurrently_finish w v"
  shows "v = Inr ()"
  using assms(2)
proof (rule staged_passes)
  show "wp (claimConcurrently_prepare src) (decided claimWorker claimConcurrently_finish) w"
    unfolding claimConcurrently_prepare_def
    apply simp
    apply (rule wp_now [OF assms(1)], rule claims_decided, assumption)
    apply (simp add: time_Add_def)
    done
qed

section \<open>memory.Store passes\<close>

lemma empty_store_holding:
  assumes "wStore w = store_New" and "1000 \<le> wNow w" and "int (sum_list (wTicks w)) < minute"
  shows "empty_store (wNow w) w"
  using assms by (simp add: holding_def store_New_def)

text \<open>C33. memory.Store passes the conformance suite of storagetest, whatever the clock (but for a test that
  takes a minute) and the random source (but for one that repeats an identifier), and in every interleaving of the
  goroutines of the tests that have them: records come back as they were stored, a second insert conflicts,
  a token is consumed once and stays, revocations leave the other tokens, an expired claim frees its key, and of
  32 concurrent deletions, consumptions or claims exactly one succeeds.\<close>

theorem memory_passes_storagetest:
  assumes "fresh_random src" and "wStore w = store_New" and "minute + 1000 \<le> wNow w"
    and "int (sum_list (wTicks w)) < minute"
  shows "Run mem src w"
proof -
  have e: "empty_store (wNow w) w"
    using assms(2-4) by (intro empty_store_holding) (simp_all add: minute_def)
  have fixtures: "fst (run mem (testFixturesAreComplete src) w) = []"
    using passes_FixturesAreComplete [OF assms(1) e assms(3)] by (auto simp: wp_def split: prod.splits)
  have passed: "fst (run mem p w) = Inr ()" if "test_passes p w" for p :: "(string + unit) prog"
    using that by (auto simp: wp_def split: prod.splits)
  have "list_all (\<lambda>test. fst (run mem (test src) w) = Inr ()) sequential_tests"
    unfolding sequential_tests_def list.pred_inject
    by (intro conjI passed passes [OF assms(1) e] list.pred_inject(1))
  then show ?thesis
    unfolding Run_def using fixtures deletions_pass [OF e] consumptions_pass [OF e] claims_pass [OF e] by blast
qed

text \<open>A clock that stands at noon but for two ticks, and a source that counts.\<close>

lemma memory_passes_storagetest_witness:
  "Run mem (\<lambda>n. char_of n # replicate 15 (char_of (0::nat)))
     \<lparr>wStore = store_New, wNow = 12 * hour, wTicks = [0, 1, 2], wRandom = []\<rparr>"
proof (rule memory_passes_storagetest)
  have "(char_of m :: char) = char_of n \<longleftrightarrow> m = n" if "m < 16" "n < 16" for m n :: nat
    using that arg_cong [of "char_of m" "char_of n" "of_char :: char \<Rightarrow> nat"] by auto
  then show "fresh_random (\<lambda>n. char_of n # replicate 15 (char_of (0::nat)))"
    by (auto simp: fresh_random_def inj_on_def)
qed (simp_all add: hour_def minute_def)

end
