(* ===== verification/Grantor_ProvenanceProps.thy ===== *)
theory Grantor_ProvenanceProps
  imports Grantor_TokenEndpoint Grantor_RevocationProps Grantor_RequestSafety Grantor_Server
begin

text \<open>
  Where tokens come from. Approve, the token endpoint and the storage together: whatever requests
  interleave, a token of an end-user descends from a code that was issued with that end-user's approval.
\<close>

section \<open>Programs that pass on what they read\<close>

text \<open>A token of the same grant, client and end-user, for no more than the other.\<close>

definition descends :: "Token \<Rightarrow> Token \<Rightarrow> bool" where
  "descends u t \<longleftrightarrow>
     tIssuer u = tIssuer t \<and> tGrantID u = tGrantID t \<and> tClientID u = tClientID t \<and>
     tSubject u = tSubject t \<and> set (tScopes u) \<subseteq> set (tScopes t) \<and>
     set (tAudience u) \<subseteq> set (tAudience t)"

lemma descends_refl [simp]: "descends t t"
  by (simp add: descends_def)

lemma descends_trans: "descends u v \<Longrightarrow> descends v t \<Longrightarrow> descends u t"
  by (auto simp: descends_def)

lemma descends_same: "same_token t u \<Longrightarrow> descends u t"
proof -
  assume "same_token t u"
  then have "descends (u\<lparr>tConsumedAt := 0\<rparr>) (t\<lparr>tConsumedAt := 0\<rparr>)" by (simp add: same_token_def)
  then show ?thesis by (simp add: descends_def)
qed

text \<open>Every token the storage answers satisfies the predicate.\<close>

fun reads_only :: "(Token \<Rightarrow> bool) \<Rightarrow> event \<Rightarrow> bool" where
  "reads_only S (EvLoadToken h (Inr t)) = S t"
| "reads_only S (EvConsumeToken h at (Inr t)) = S t"
| "reads_only S _ = True"

abbreviation tracing :: "(Token \<Rightarrow> bool) \<Rightarrow> 'a prog \<Rightarrow> bool" where
  "tracing S p \<equiv> makes (reads_only S) (creates_only S) p"

text \<open>A set of tokens that holds the descendants of its tokens, and the tokens without an end-user.\<close>

definition lineage :: "(Token \<Rightarrow> bool) \<Rightarrow> bool" where
  "lineage S \<longleftrightarrow> (\<forall>t u. S t \<longrightarrow> descends u t \<longrightarrow> S u) \<and> (\<forall>u. tSubject u = [] \<longrightarrow> S u)"

lemma minted_descends:
  assumes "minted_from p iss client t plan withID nonce minted"
    and "set (ipScopes plan) \<subseteq> set (tScopes t)" and "set (ipAudience plan) \<subseteq> set (tAudience t)"
  shows "\<forall>u \<in> set (mtRecords minted). descends u t"
proof -
  obtain now accessToken refresh where "mtRecords minted =
      access_record t now accessToken plan
      # (if ipRefresh plan then [refresh_record t now refresh plan] else [])"
    using assms(1) unfolding minted_from_def by blast
  then show ?thesis using assms(2,3) by (simp add: descends_def)
qed

lemma tracing_tail:
  assumes "lineage S" and "S t" and "set scopes \<subseteq> set (tScopes t)"
    and "planIssuance cfg req client t scopes withRefresh = Inr plan"
    and "\<And>minted. \<forall>u \<in> set (mtRecords minted). S u \<Longrightarrow> tracing S (f minted)"
  shows "tracing S (bindE (mintTokens p iss client t plan withID nonce gt) f)"
proof (rule makes_bindE_performs [OF makes_weaken [OF storing_mint]])
  fix log minted
  assume "performs (mintTokens p iss client t plan withID nonce gt) log (Inr minted)"
  from minted_descends [OF mintTokens_Inr [OF this]] planIssuance_narrows [OF assms(4)] assms(3)
  have "\<forall>u \<in> set (mtRecords minted). descends u t" by auto
  then show "tracing S (f minted)" using assms(1,2) unfolding lineage_def by (blast intro: assms(5))
qed

lemma tracing_store [makes_intros]:
  "\<forall>t \<in> set (mtRecords minted). S t \<Longrightarrow> tracing S (storeAndConsume minted h)"
  by (rule makes_weaken [OF storing_storeAndConsume])

lemma singleUseToken_read:
  assumes "performs (singleUseToken iss client h kind) log (Inr t)" and "\<forall>ev \<in> set log. reads_only S ev"
  shows "S t"
  using assms(1)
proof (rule singleUseToken_performs)
  fix a
  assume log: "log = [EvLoadToken h a]" and "\<And>u. Inr t = Inr u \<longleftrightarrow>
      a = Inr u \<and> tKind u = kind \<and> tIssuer u = rsURL iss \<and> tClientID u = cID client"
  then have "a = Inr t" by blast
  then show ?thesis using assms(2) log by simp
qed

lemma tracing_single_use:
  assumes "\<And>t. S t \<Longrightarrow> tracing S (f t)"
  shows "tracing S (bindE (singleUseToken iss client h kind) f)"
  by (rule makes_bindE_seen [OF makes_weaken [OF storing_parts(1)]], rule assms, rule singleUseToken_read)

lemma tracing_checkUnused [makes_intros]: "tracing S (checkUnused t)"
  by (rule makes_weaken [OF storing_parts(2)])

lemma tracing_exchangeAuthorizationCode:
  "lineage S \<Longrightarrow> tracing S (exchangeAuthorizationCode p req client)"
  unfolding exchangeAuthorizationCode_def Let_def
  by (intro makes_branches makes_Ret tracing_single_use makes_bindE_Ret makes_bindE [OF tracing_checkUnused])
    (rule tracing_tail; (assumption | rule tracing_store | simp add: narrowScopes_Inr))

lemma tracing_exchangeRefreshToken:
  "lineage S \<Longrightarrow> tracing S (exchangeRefreshToken p req client)"
  unfolding exchangeRefreshToken_def Let_def
  by (intro makes_branches makes_Ret tracing_single_use makes_bindE_Ret makes_bindE [OF tracing_checkUnused])
    (rule tracing_tail; (assumption | rule tracing_store | simp add: narrowScopes_Inr))

lemma tracing_exchangeClientCredentials:
  assumes "lineage S"
  shows "tracing S (exchangeClientCredentials p req client)"
proof -
  have issue: "tracing S (issueTokens p req client t scopes withRefresh)"
    if "S t" "set scopes \<subseteq> set (tScopes t)" for t scopes withRefresh
    unfolding issueTokens_def
  proof (intro makes_bindE_Ret)
    fix plan
    assume plan: "planIssuance (pvCfg p) req client t scopes withRefresh = Inr plan"
    show "tracing S
       (bindE (mintTokens p (the (tr_iss req)) client t plan (''openid'' \<in> set (ipScopes plan)) []
               (trGrantType req)) (\<lambda>minted.
       bind (storeTokens (mtRecords minted)) (\<lambda>r.
         case r of
           Some perr \<Rightarrow> bind (discardTokens (mtRecords minted)) (\<lambda>_. Ret (Inl perr))
         | None \<Rightarrow> Ret (Inr (mtResp minted)))))"
    proof (rule tracing_tail [OF assms that plan])
      fix minted :: mintedTokens
      assume "\<forall>u \<in> set (mtRecords minted). S u"
      then show "tracing S (bind (storeTokens (mtRecords minted)) (\<lambda>r.
         case r of
           Some perr \<Rightarrow> bind (discardTokens (mtRecords minted)) (\<lambda>_. Ret (Inl perr))
         | None \<Rightarrow> Ret (Inr (mtResp minted))))"
        by - (rule makes_weaken, intro makes_intros storing_storeTokens)
    qed
  qed
  have rand: "tracing S randomToken" by (rule makes_weaken [OF storing_ops(2)])
  have zero: "S t" if "tSubject t = []" for t using assms that by (simp add: lineage_def)
  show ?thesis
    unfolding exchangeClientCredentials_def
    by (intro makes_branches makes_Ret makes_bind rand) (rule issue, rule zero, simp_all add: token_zero_def)
qed

lemma tracing_exchange:
  fixes p :: Provider
  assumes "lineage S" and "cfGrants (pvCfg p) = []"
  shows "tracing S (exchange p reqo)"
proof (cases "checkTokenRequest reqo")
  case (Inl perr)
  then show ?thesis by (simp add: exchange_def)
next
  case (Inr client)
  show ?thesis
    unfolding exchange_def Inr sum.case Let_def assms(2)
    by (simp add: tracing_exchangeAuthorizationCode tracing_exchangeRefreshToken
        tracing_exchangeClientCredentials assms(1))
qed

lemma creates_none: "storing (\<lambda>_. False) q \<Longrightarrow> tracing S q"
  by (rule makes_weaken, erule makes_mono, erule creates_only_mono) simp

lemma tracing_ServeToken:
  fixes p :: Provider and r :: Request
  assumes "lineage S" and "cfGrants (pvCfg p) = []"
  shows "tracing S (ServeToken p w r)"
proof -
  have parse: "tracing S (parseToken p r iss)" for iss
    by (rule creates_none) (unfold parseToken_def, intro makes_intros storing_authenticate)
  show ?thesis
    unfolding ServeToken_def withIssuer_def serveToken_def
    by (simp add: Let_def split: sum.split option.split)
      (intro allI impI makes_bind makes_branches makes_Ret parse tracing_exchange assms)
qed

section \<open>The codes of an approval\<close>

definition code_of :: "Approval \<Rightarrow> Token \<Rightarrow> bool" where
  "code_of a c \<longleftrightarrow>
     tKind c = TokenKindAuthorizationCode \<and> tSubject c = apSubject a \<and> tAuthTime c = apAuthTime a \<and>
     set (tScopes c) \<subseteq> set (apScopes a) \<and> set (tAudience c) \<subseteq> set (apAudience a)"

lemma storing_more [makes_intros]:
  "storing Q (clients_Client iss i)" "storing Q (storage_AuthorizationRequest i)"
  "storing Q (storage_DeleteAuthorizationRequest i)"
  by (simp_all add: op_defs)

lemma storing_completable: "storing Q (completable p w r reqo approval)"
  unfolding completable_def current_request_def loadPending_def provider_client_def by (intro makes_intros)

lemma storing_validateApproval: "storing Q (validateApproval req a)"
  unfolding validateApproval_def by (intro makes_intros)

lemma storing_complete_saved: "storing Q (complete_saved req)"
  unfolding complete_saved_def completeRequest_def by (intro makes_intros)

lemma storing_Approve:
  "storing (\<lambda>c. code_of a c \<and> tClientID c = arClientID (the reqo)) (Approve p w r reqo a)"
  (is "storing ?Q _")
  unfolding Approve_def
proof (rule makes_bindE_performs [OF storing_completable], clarify)
  fix log iss client req
  assume "performs (completable p w r reqo True) log (Inr (iss, client, req))"
  then have id: "arClientID req = arClientID (the reqo)"
    by (rule completable_Inr) (auto simp: current_from_def sameProtocolFields_def split: if_split_asm)
  show "storing ?Q (bindE (validateApproval req a) (\<lambda>(scopes, claims).
     bindE (Ret (approved_audience p client req a)) (\<lambda>audience.
     bindE (complete_saved req) (\<lambda>_.
     bind (issue_code p w r iss req a scopes claims audience) (\<lambda>w. Ret (Inr w))))))"
  proof (rule makes_bindE_performs [OF storing_validateApproval], clarify)
    fix log scopes claims
    assume "performs (validateApproval req a) log (Inr (scopes, claims))"
    from validateApproval_Inr [OF this] have sc: "set scopes = set (apScopes a)"
      by (simp add: approval_ok_def)
    have code: "?Q (code_record p iss req a scopes claims audience now code grantID)"
      if "approved_audience p client req a = Inr audience" for audience now code grantID
      using approved_audience_Inr [OF that] sc id by (simp add: code_of_def code_record_def)
    show "storing ?Q (bindE (Ret (approved_audience p client req a)) (\<lambda>audience.
       bindE (complete_saved req) (\<lambda>_.
       bind (issue_code p w r iss req a scopes claims audience) (\<lambda>w. Ret (Inr w)))))"
      unfolding issue_code_def
      by (intro makes_bindE_Ret makes_bindE [OF storing_complete_saved] makes_bind makes_Ret
          storing_ops code)
  qed
qed

section \<open>Runs\<close>

text \<open>The requests of a run: Approve, with what was approved; a request at the token endpoint of a
  provider without grant types of the application; or anything that creates no tokens. The first two
  may be followed by anything the caller computes.\<close>

inductive approving :: "Approval \<Rightarrow> 'a prog \<Rightarrow> bool" where
  "approving a (bind (Approve p w r reqo a) (\<lambda>x. Ret (f x)))"

inductive token_request :: "'a prog \<Rightarrow> bool" where
  "cfGrants (pvCfg p) = [] \<Longrightarrow> token_request (bind (ServeToken p w r) (\<lambda>x. Ret (f x)))"
| "cfGrants (pvCfg p) = [] \<Longrightarrow> token_request (bind (exchange p reqo) (\<lambda>x. Ret (f x)))"

abbreviation creates_no_tokens :: "'a prog \<Rightarrow> bool" where
  "creates_no_tokens \<equiv> storing (\<lambda>_. False)"

lemma approving_storing: "approving a q \<Longrightarrow> storing (code_of a) q"
  by (erule approving.cases)
    (auto intro!: makes_bind makes_mono [OF storing_Approve] elim: creates_only_mono)

lemma token_request_tracing: "token_request q \<Longrightarrow> lineage S \<Longrightarrow> tracing S q"
  by (erule token_request.cases) (auto intro!: makes_bind tracing_ServeToken tracing_exchange)

context storage_contract
begin

lemma stored_satisfy:
  assumes "serve I ev s = Some s1" and "\<forall>h t. toks s h = Some t \<longrightarrow> S t" and "lineage S"
    and "creates_only S ev" and "\<And>t r. ev = EvCreateToken t r \<Longrightarrow> descends (stored_tok t) t"
  shows "\<forall>h t. toks s1 h = Some t \<longrightarrow> S t"
proof (intro allI impI)
  fix h t
  assume t: "toks s1 h = Some t"
  note eff = serve_toks [OF assms(1)]
  have keep: "S t" if "toks s h = Some t0" "same_token t0 t" for t0
    using that assms(2,3) descends_same unfolding lineage_def by blast
  show "S t"
  proof (cases "creates_token h ev")
    case False
    then show ?thesis using tok_effect_same [OF eff t] keep by blast
  next
    case True
    then obtain u r where ev: "ev = EvCreateToken u r" "tHash u = h" by (cases ev) auto
    have "S (stored_tok u)"
      using assms(3,4) assms(5) [OF ev(1)] ev(1) unfolding lineage_def by auto
    moreover from eff obtain m' where "evolves (clock s) tExpiresAt (toks s) m'"
        "toks s1 = m' \<or> toks s1 = m'(h \<mapsto> stored_tok u)"
      using ev by (auto simp: inserts_def split: option.splits)
    moreover have "S t" if "m' h = Some t" using keep [OF evolves_Some [OF \<open>evolves _ _ _ m'\<close> that]] by simp
    ultimately show ?thesis using t by auto
  qed
qed

lemma concurrent_lineage:
  assumes "concurrent I (ps, s) log (qs, s')" and "\<forall>h t. toks s h = Some t \<longrightarrow> S t" and "lineage S"
    and "\<forall>i < length ps. tracing S (ps ! i) \<or> (\<forall>ev. (i, ev) \<in> set log \<longrightarrow> creates_only S ev)"
    and "\<forall>t r. EvCreateToken t r \<in> snd ` set log \<longrightarrow> descends (stored_tok t) t"
  shows "(\<forall>ev \<in> snd ` set log. creates_only S ev) \<and> (\<forall>h t. toks s' h = Some t \<longrightarrow> S t) \<and>
     (\<forall>i < length ps. tracing S (ps ! i) \<longrightarrow> tracing S (qs ! i))"
  using assms
proof (induction "(ps, s)" log "(qs, s')" arbitrary: qs s' rule: concurrent.induct)
  case (concurrent_call log qs s1 i ev q s2)
  have "\<forall>i < length ps. tracing S (ps ! i) \<or> (\<forall>ev. (i, ev) \<in> set log \<longrightarrow> creates_only S ev)"
    "\<forall>t r. EvCreateToken t r \<in> snd ` set log \<longrightarrow> descends (stored_tok t) t"
    using concurrent_call.prems(3,4) by auto
  from concurrent_call.hyps(2) [OF concurrent_call.prems(1,2) this]
  have IH: "\<forall>ev \<in> snd ` set log. creates_only S ev" "\<forall>h t. toks s1 h = Some t \<longrightarrow> S t"
    "\<forall>i < length ps. tracing S (ps ! i) \<longrightarrow> tracing S (qs ! i)" by blast+
  have len: "length qs = length ps" using concurrent_length [OF concurrent_call.hyps(1)] .
  have step: "creates_only S ev \<and> (reads_only S ev \<longrightarrow> tracing S q)" if "tracing S (ps ! i)"
  proof -
    have "tracing S (qs ! i)" using IH(3) that concurrent_call.hyps(3) len by simp
    from makes_advance [OF this concurrent_call.hyps(4)] show ?thesis .
  qed
  have new: "creates_only S ev"
    using step concurrent_call.prems(3) concurrent_call.hyps(3) len by auto
  have read: "reads_only S ev"
    using tok_effect_yields [OF serve_toks [OF concurrent_call.hyps(5)]] IH(2)
    by (cases "(S, ev)" rule: reads_only.cases) auto
  have "\<forall>h t. toks s2 h = Some t \<longrightarrow> S t"
    by (rule stored_satisfy [OF concurrent_call.hyps(5) IH(2) assms(3) new])
      (use concurrent_call.prems(4) in auto)
  moreover have "tracing S (qs[i := q] ! k)" if "k < length ps" "tracing S (ps ! k)" for k
    using IH(3) step read that len by (cases "k = i") simp_all
  ultimately show ?case using IH(1) new by auto
qed simp

end

section \<open>The property\<close>

text \<open>C2. No token without an approval. In any run of interleaved requests that starts without tokens,
  against a storage that keeps its contract and the strings of the tokens it is given, every code, access
  token and refresh token of an end-user that is created descends from a code that some call of Approve
  created in the run: it has the issuer, the grant ID and the client of that code, its subject is the
  end-user the application approved for, and its scopes and audience are among the approved ones. The
  provider has no grant types of the application, whose functions choose subjects themselves.\<close>

theorem tokens_trace_to_approvals:
  assumes "storage_contract I reqs toks claimed clock sr st"
    and "concurrent I (ps, s) log (qs, s')" and "toks s = Map.empty"
    and "\<forall>q \<in> set ps. (\<exists>a. approving a q) \<or> token_request q \<or> creates_no_tokens q"
    and "\<forall>t r. EvCreateToken t r \<in> snd ` set log \<longrightarrow> descends (st t) t"
    and "(i, EvCreateToken u r) \<in> set log" and "tSubject u \<noteq> []"
  shows "\<exists>j a c r'. j < length ps \<and> approving a (ps ! j) \<and> (j, EvCreateToken c r') \<in> set log \<and>
     code_of a c \<and> descends u c"
proof -
  define approved where "approved c \<longleftrightarrow> (\<exists>j a r'. j < length ps \<and> approving a (ps ! j) \<and>
      (j, EvCreateToken c r') \<in> set log \<and> code_of a c)" for c
  define S where "S u \<longleftrightarrow> tSubject u = [] \<or> (\<exists>c. approved c \<and> descends u c)" for u
  have lin: "lineage S"
    unfolding lineage_def
  proof (intro conjI allI impI)
    fix t u assume t: "S t" and d: "descends u t"
    show "S u"
    proof (cases "tSubject t = []")
      case True
      then show ?thesis using d by (simp add: S_def descends_def)
    next
      case False
      with t show ?thesis using descends_trans [OF d] unfolding S_def by blast
    qed
  qed (simp add: S_def)
  have "tracing S (ps ! k) \<or> (\<forall>ev. (k, ev) \<in> set log \<longrightarrow> creates_only S ev)" if k: "k < length ps" for k
  proof -
    from assms(4) nth_mem [OF k] consider a where "approving a (ps ! k)" | "token_request (ps ! k)"
      | "creates_no_tokens (ps ! k)" by blast
    then show ?thesis
    proof cases
      case 1
      have "creates_only S ev" if ev: "(k, ev) \<in> set log" for ev
      proof (cases ev)
        case (EvCreateToken c r')
        have "after (ps ! k) (calls_of k log) = Some (qs ! k)" by (rule concurrent_after [OF assms(2) k])
        from makes_after [OF approving_storing [OF 1] this]
        have "\<forall>ev \<in> set (calls_of k log). creates_only (code_of a) ev" by simp
        moreover have "EvCreateToken c r' \<in> set (calls_of k log)"
          using ev by (simp add: EvCreateToken calls_of_set)
        ultimately have "code_of a c" by fastforce
        then have "approved c" using k 1 ev EvCreateToken unfolding approved_def by blast
        then show ?thesis using descends_refl by (auto simp: EvCreateToken S_def)
      qed auto
      then show ?thesis by blast
    next
      case 2
      then show ?thesis using token_request_tracing lin by blast
    next
      case 3
      then show ?thesis using creates_none by blast
    qed
  qed
  then have "creates_only S (EvCreateToken u r)"
    using storage_contract.concurrent_lineage [OF assms(1,2) _ lin, of] assms(3,5,6) by fastforce
  then show ?thesis using assms(7) unfolding S_def approved_def by simp blast
qed

text \<open>Approve issues a code, while another request waits at the token endpoint.\<close>

definition approve_world :: "(string \<Rightarrow> AuthorizationRequest option) \<Rightarrow> bytes list \<Rightarrow> world" where
  "approve_world m bs = request_world m\<lparr>wRandom := bs\<rparr>"

lemma approve_serve:
  "serve mem (EvLoadRequest ''r1'' (Inr sample_saved)) (approve_world [''r1'' \<mapsto> sample_saved] bs) =
     Some (approve_world [''r1'' \<mapsto> sample_saved] bs)"
  "serve mem (EvDeleteRequest ''r1'' None) (approve_world [''r1'' \<mapsto> sample_saved] bs) =
     Some (approve_world Map.empty bs)"
  "serve mem (EvNow (12 * second)) (approve_world m bs) = Some (approve_world m bs)"
  "serve mem (EvClient ''https://op.example'' ''app'' (Inr (Some sample_client))) (approve_world m bs) =
     Some (approve_world m bs)"
  "serve mem (EvRand (rnd n)) (approve_world m (rnd n # bs)) = Some (approve_world m bs)"
  by (simp_all add: answered_def on_store_def store_AuthorizationRequest_def request_world_def
      approve_world_def store_DeleteAuthorizationRequest_def store_Client_def world_now_def world_rand_def
      clone_sample_client)

lemma create_serve:
  assumes "msTokens (wStore w) = Map.empty"
  shows "\<exists>w'. serve mem (EvCreateToken t None) w = Some w'"
proof -
  have "msTokens (store_collectLocked (wNow w) (wStore w)) = Map.empty"
    using assms by (auto simp: store_collectLocked_def Let_def drop_expired_def fun_eq_iff)
  then show ?thesis by (simp add: answered_def on_store_def store_CreateToken_def Let_def)
qed

lemma serves_approve:
  "\<exists>w. serves mem approve_log (approve_world [''r1'' \<mapsto> sample_saved] [rnd 2, rnd 3]) = Some w"
proof -
  have "msTokens (wStore (approve_world Map.empty [])) = Map.empty"
    by (simp add: approve_world_def request_world_def store_New_def)
  from create_serve [OF this] obtain w where
    "serve mem (EvCreateToken approved_code None) (approve_world Map.empty []) = Some w" by blast
  then show ?thesis by (simp add: approve_log_def load_log_def approve_serve del: serve.simps)
qed

definition approve_threads :: "unit prog list" where
  "approve_threads =
     [bind (Approve sample_p fresh_writer sample_http (Some sample_saved) sample_approval) (\<lambda>_. Ret ()),
      bind (exchange sample_p (Some code_req)) (\<lambda>_. Ret ())]"

lemma approve_concurrent:
  "\<exists>qs w. concurrent mem (approve_threads, approve_world [''r1'' \<mapsto> sample_saved] [rnd 2, rnd 3])
     (map (Pair 0) approve_log) (qs, w)"
proof -
  obtain w where w: "serves mem approve_log (approve_world [''r1'' \<mapsto> sample_saved] [rnd 2, rnd 3]) = Some w"
    using serves_approve by blast
  have "performs (approve_threads ! 0) approve_log ()"
    using performs_bindI [OF approve_run [of fresh_writer sample_http], of "\<lambda>_. Ret ()" "[]"]
    by (simp add: approve_threads_def)
  then have "after (approve_threads ! 0) approve_log = Some (Ret ())" by (simp add: performs_def)
  from concurrent_thread [OF concurrent_start _ this w] show ?thesis
    by (auto simp: approve_threads_def)
qed

lemma approved_code_kept: "descends (clone_token (clone_token approved_code)) approved_code"
proof -
  have "json_string (rnd_token 3) = rnd_token 3"
    by (simp add: rnd_token_def randomToken_of_def json_string_ascii b64_encode_ascii)
  then show ?thesis
    by (simp add: descends_def clone_token_def clone_strings_def approved_code_def code_record_def
        sample_approval_def byte_def)
qed

lemma tokens_trace_to_approvals_witness:
  "\<exists>a c. approving a (approve_threads ! 0) \<and> code_of a c \<and> descends approved_code c"
proof -
  obtain qs w where run: "concurrent mem
      (approve_threads, approve_world [''r1'' \<mapsto> sample_saved] [rnd 2, rnd 3])
      (map (Pair 0) approve_log) (qs, w)" using approve_concurrent by blast
  have created: "EvCreateToken t r \<in> set approve_log \<longleftrightarrow> t = approved_code \<and> r = None" for t r
    by (auto simp: approve_log_def load_log_def)
  have "\<exists>j a c r'. j < length approve_threads \<and> approving a (approve_threads ! j) \<and>
      (j, EvCreateToken c r') \<in> set (map (Pair 0) approve_log) \<and> code_of a c \<and> descends approved_code c"
  proof (rule tokens_trace_to_approvals [OF memory.storage_contract_axioms run])
    show "mem_toks (approve_world [''r1'' \<mapsto> sample_saved] [rnd 2, rnd 3]) = Map.empty"
      by (simp add: mem_toks_def approve_world_def request_world_def store_New_def fun_eq_iff)
    show "\<forall>q \<in> set approve_threads. (\<exists>a. approving a q) \<or> token_request q \<or> creates_no_tokens q"
    proof -
      have "approving sample_approval (approve_threads ! 0)"
        unfolding approve_threads_def nth_Cons_0 by (rule approving.intros)
      moreover have "token_request (approve_threads ! 1)"
        unfolding approve_threads_def One_nat_def nth_Cons_Suc nth_Cons_0
        by (rule token_request.intros(2)) (simp add: sample_p_def sample_cfg_def)
      ultimately show ?thesis by (auto simp: approve_threads_def)
    qed
    show "\<forall>t r. EvCreateToken t r \<in> snd ` set (map (Pair 0) approve_log) \<longrightarrow>
        descends (clone_token (clone_token t)) t"
      by (auto simp: image_image created approved_code_kept)
    show "(0, EvCreateToken approved_code None) \<in> set (map (Pair 0) approve_log)"
      by (simp add: created)
    show "tSubject approved_code \<noteq> []"
      by (simp add: approved_code_def code_record_def sample_approval_def)
  qed
  then show ?thesis by auto
qed

end
