(* ===== verification/Go_Heap.thy ===== *)
theory Go_Heap
  imports Go_Json "HOL-Library.AList"
begin

text \<open>
  The memory of a Go program, for the places where it matters whether two values share a map or a slice:
  a heap of objects at addresses, allocation, what code that was handed some addresses can do to it, and
  the values of type \<^verbatim>\<open>any\<close> with their \<^verbatim>\<open>copyJSON\<close> (claims.go) and \<^verbatim>\<open>slices.Clone\<close>.
\<close>

section \<open>Objects at addresses\<close>

record 'o heap =
  hObj :: "nat \<Rightarrow> 'o option"
  hNext :: nat

definition alloc :: "'o \<Rightarrow> 'o heap \<Rightarrow> nat \<times> 'o heap" where
  "alloc x h = (hNext h, h\<lparr>hObj := (hObj h)(hNext h \<mapsto> x), hNext := hNext h + 1\<rparr>)"

definition overwrite :: "nat \<Rightarrow> 'o \<Rightarrow> 'o heap \<Rightarrow> 'o heap" where
  "overwrite a x h = h\<lparr>hObj := (hObj h)(a \<mapsto> x)\<rparr>"

definition heap_ok :: "'o heap \<Rightarrow> bool" where
  "heap_ok h \<longleftrightarrow> (\<forall>a. hNext h \<le> a \<longrightarrow> hObj h a = None)"

text \<open>Nothing that was allocated has changed.\<close>

definition kept :: "'o heap \<Rightarrow> 'o heap \<Rightarrow> bool" where
  "kept h h' \<longleftrightarrow> hNext h \<le> hNext h' \<and> (\<forall>a < hNext h. hObj h' a = hObj h a)"

lemma kept_refl [simp]: "kept h h"
  by (simp add: kept_def)

lemma kept_trans [trans]: "kept h1 h2 \<Longrightarrow> kept h2 h3 \<Longrightarrow> kept h1 h3"
  by (simp add: kept_def)

lemma keptD: "kept h h' \<Longrightarrow> a < hNext h \<Longrightarrow> hObj h' a = hObj h a" "kept h h' \<Longrightarrow> hNext h \<le> hNext h'"
  by (simp_all add: kept_def)

lemma alloc_facts:
  assumes "alloc x h = (a, h')"
  shows "a = hNext h" and "hNext h' = hNext h + 1" and "hObj h' = (hObj h)(hNext h \<mapsto> x)"
    and "kept h h'" and "heap_ok h \<Longrightarrow> heap_ok h'"
  using assms by (auto simp: alloc_def kept_def heap_ok_def)

lemma overwrite_sel [simp]:
  "hObj (overwrite a x h) = (hObj h)(a \<mapsto> x)" "hNext (overwrite a x h) = hNext h"
  by (simp_all add: overwrite_def)

lemma overwrite_ok: "heap_ok h \<Longrightarrow> a < hNext h \<Longrightarrow> heap_ok (overwrite a x h)"
  by (simp add: heap_ok_def)

section \<open>Code that was handed addresses\<close>

text \<open>
  What code can do that knows a set of addresses: read an object there and learn the addresses in it,
  write an object of addresses it knows, and allocate one. \<open>refs\<close> are the addresses in an object.
\<close>

inductive uses :: "('o \<Rightarrow> nat set) \<Rightarrow> 'o heap \<Rightarrow> nat set \<Rightarrow> 'o heap \<Rightarrow> nat set \<Rightarrow> bool" for refs h K where
  uses_start: "uses refs h K h K"
| uses_read: "\<lbrakk> uses refs h K h1 K1; a \<in> K1; hObj h1 a = Some x \<rbrakk> \<Longrightarrow> uses refs h K h1 (K1 \<union> refs x)"
| uses_write: "\<lbrakk> uses refs h K h1 K1; a \<in> K1; refs x \<subseteq> K1 \<rbrakk> \<Longrightarrow> uses refs h K (overwrite a x h1) K1"
| uses_alloc: "\<lbrakk> uses refs h K h1 K1; refs x \<subseteq> K1; alloc x h1 = (a, h2) \<rbrakk> \<Longrightarrow> uses refs h K h2 (insert a K1)"

lemma uses_trans:
  assumes "uses refs h1 K1 h2 K2" and "uses refs h K h1 K1"
  shows "uses refs h K h2 K2"
  using assms by (induction rule: uses.induct) (auto intro: uses.intros)

text \<open>Addresses from which only such addresses can be reached.\<close>

definition closed_region :: "('o \<Rightarrow> nat set) \<Rightarrow> 'o heap \<Rightarrow> nat set \<Rightarrow> bool" where
  "closed_region refs h R \<longleftrightarrow> (\<forall>a \<in> R. \<forall>x. hObj h a = Some x \<longrightarrow> refs x \<subseteq> R)"

lemma closed_regionD: "closed_region refs h R \<Longrightarrow> a \<in> R \<Longrightarrow> hObj h a = Some x \<Longrightarrow> refs x \<subseteq> R"
  by (simp add: closed_region_def)

lemma closed_region_upd:
  "closed_region refs h R \<Longrightarrow> refs x \<subseteq> R \<Longrightarrow> hObj h' = (hObj h)(a \<mapsto> x) \<Longrightarrow> closed_region refs h' R"
  by (auto simp: closed_region_def)

lemma closed_region_Un: "closed_region refs h R \<Longrightarrow> closed_region refs h S \<Longrightarrow> closed_region refs h (R \<union> S)"
  by (auto simp: closed_region_def)

lemma closed_region_cong:
  "closed_region refs h R \<Longrightarrow> (\<And>a. a \<in> R \<Longrightarrow> hObj h' a = hObj h a) \<Longrightarrow> closed_region refs h' R"
  by (auto simp: closed_region_def)

text \<open>Such code stays inside the closed region of what it was handed, and what it allocates.\<close>

lemma uses_region:
  assumes "uses refs h K h' K'" and "heap_ok h" and "K \<subseteq> F" and "closed_region refs h F" and "F \<subseteq> {..<hNext h}"
  shows "K' \<subseteq> F \<union> {hNext h..<hNext h'} \<and> closed_region refs h' (F \<union> {hNext h..<hNext h'}) \<and>
     heap_ok h' \<and> hNext h \<le> hNext h' \<and> (\<forall>a < hNext h. a \<notin> F \<longrightarrow> hObj h' a = hObj h a)"
  using assms(1)
proof (induction rule: uses.induct)
  case uses_start
  then show ?case using assms(2-5) by simp
next
  case (uses_read h1 K1 a x)
  then show ?case using closed_regionD [of refs h1 "F \<union> {hNext h..<hNext h1}" a x] by blast
next
  case (uses_write h1 K1 a x)
  let ?F = "F \<union> {hNext h..<hNext h1}"
  from uses_write.IH have IH: "K1 \<subseteq> ?F" "closed_region refs h1 ?F" "heap_ok h1" "hNext h \<le> hNext h1"
      "\<forall>a < hNext h. a \<notin> F \<longrightarrow> hObj h1 a = hObj h a" by blast+
  have a: "a \<in> ?F" using uses_write.hyps(2) IH(1) by blast
  then have "a < hNext h1" using assms(5) IH(4) by auto
  moreover have "closed_region refs (overwrite a x h1) ?F"
    using closed_region_upd [OF IH(2), of x "overwrite a x h1" a] uses_write.hyps(3) IH(1) by auto
  moreover have "hObj (overwrite a x h1) b = hObj h b" if "b < hNext h" "b \<notin> F" for b
    using IH(5) that a by auto
  ultimately show ?case using IH(1,4) overwrite_ok [OF IH(3)] by simp
next
  case (uses_alloc h1 K1 x a h2)
  let ?F = "F \<union> {hNext h..<hNext h1}"
  from uses_alloc.IH have IH: "K1 \<subseteq> ?F" "closed_region refs h1 ?F" "heap_ok h1" "hNext h \<le> hNext h1"
      "\<forall>a < hNext h. a \<notin> F \<longrightarrow> hObj h1 a = hObj h a" by blast+
  note new = alloc_facts [OF uses_alloc.hyps(3)]
  have F': "F \<union> {hNext h..<hNext h2} = insert a ?F" using new(1,2) IH(4) by auto
  have "closed_region refs h1 (insert a ?F)"
    using IH(2,3) new(1) by (auto simp: closed_region_def heap_ok_def)
  from closed_region_upd [OF this _ new(3)] have "closed_region refs h2 (insert a ?F)"
    using uses_alloc.hyps(2) IH(1) by blast
  then show ?case unfolding F' using IH new by auto
qed

end
