(* ===== verification/Grantor_Copies.thy ===== *)
theory Grantor_Copies
  imports Go_Heap Grantor_Config
begin

text \<open>
  The deep copies of the sources, on a heap: \<^verbatim>\<open>copyJSON\<close> of claims.go, \<^verbatim>\<open>AccessToken.clone\<close> of
  accesstoken.go and \<^verbatim>\<open>Client.clone\<close> of client.go. The other theories have values in place of
  pointers, maps and slices; the copies are why they may.
\<close>

section \<open>JSON values in memory\<close>

text \<open>A value of type \<^verbatim>\<open>any\<close>: nil, a bool, a number or a string (\<open>GScalar\<close>), or one that refers to a
  \<^verbatim>\<open>map[string]any\<close>, a \<^verbatim>\<open>[]any\<close> or a slice of strings, where \<open>None\<close> is the nil map and the nil slice.\<close>

datatype gval =
  GScalar json
| GMap "nat option"
| GArr "nat option"
| GSlice "nat option"

datatype gobj =
  OMap "(string \<times> gval) list"
| OArr "gval list"
| OStrings "string list"

fun gval_refs :: "gval \<Rightarrow> nat set" where
  "gval_refs (GScalar _) = {}"
| "gval_refs (GMap a) = set_option a"
| "gval_refs (GArr a) = set_option a"
| "gval_refs (GSlice a) = set_option a"

fun gobj_refs :: "gobj \<Rightarrow> nat set" where
  "gobj_refs (OMap kvs) = \<Union> (gval_refs ` snd ` set kvs)"
| "gobj_refs (OArr vs) = \<Union> (gval_refs ` set vs)"
| "gobj_refs (OStrings _) = {}"

fun json_scalar :: "json \<Rightarrow> bool" where
  "json_scalar (JArray _) = False"
| "json_scalar (JObject _) = False"
| "json_scalar _ = True"

text \<open>\<open>denotes A h v j\<close>: the value is the decoded JSON document, read in the heap at addresses of \<open>A\<close>.
  Decoded documents hold no slices of strings.\<close>

inductive denotes :: "nat set \<Rightarrow> gobj heap \<Rightarrow> gval \<Rightarrow> json \<Rightarrow> bool" for A h where
  den_scalar: "json_scalar j \<Longrightarrow> denotes A h (GScalar j) j"
| den_nil_map: "denotes A h (GMap None) (JObject [])"
| den_nil_arr: "denotes A h (GArr None) (JArray [])"
| den_map: "\<lbrakk> a \<in> A; hObj h a = Some (OMap kvs); distinct (map fst kvs); map fst kvs = map fst kjs;
     list_all2 (denotes A h) (map snd kvs) (map snd kjs) \<rbrakk> \<Longrightarrow> denotes A h (GMap (Some a)) (JObject kjs)"
| den_arr: "\<lbrakk> a \<in> A; hObj h a = Some (OArr vs); list_all2 (denotes A h) vs js \<rbrakk> \<Longrightarrow>
     denotes A h (GArr (Some a)) (JArray js)"

inductive_simps denotes_simps [simp]:
  "denotes A h (GScalar s) j" "denotes A h (GMap None) j" "denotes A h (GArr None) j"
  "denotes A h (GSlice s) j" "denotes A h (GMap (Some a)) j" "denotes A h (GArr (Some a)) j"

text \<open>Only what is read at these addresses matters.\<close>

lemma denotes_frame:
  assumes "denotes A h v j" and "A \<subseteq> B" and "\<And>a. a \<in> A \<Longrightarrow> hObj h' a = hObj h a"
  shows "denotes B h' v j"
  using assms(1)
proof (induction rule: denotes.induct)
  case (den_map a kvs kjs)
  then show ?case
    using assms(2,3) by (auto intro!: exI [of _ kvs] elim: list_all2_mono)
next
  case (den_arr a vs js)
  then show ?case
    using assms(2,3) by (auto intro!: exI [of _ vs] elim: list_all2_mono)
qed simp_all

section \<open>copyJSON\<close>

text \<open>The loops visit a map in the order of its list. A call needs one frame of the stack, of which \<open>n\<close>
  are left; a value that contains itself exhausts any stack.\<close>

definition map_assign :: "nat \<Rightarrow> string \<Rightarrow> gval \<Rightarrow> gobj heap \<Rightarrow> gobj heap" where
  "map_assign m k v h =
     (case hObj h m of Some (OMap kvs) \<Rightarrow> overwrite m (OMap (AList.update k v kvs)) h | _ \<Rightarrow> h)"

definition index_assign :: "nat \<Rightarrow> nat \<Rightarrow> gval \<Rightarrow> gobj heap \<Rightarrow> gobj heap" where
  "index_assign s i v h =
     (case hObj h s of Some (OArr vs) \<Rightarrow> overwrite s (OArr (vs[i := v])) h | _ \<Rightarrow> h)"

definition map_entries :: "gobj heap \<Rightarrow> nat option \<Rightarrow> (string \<times> gval) list" where
  "map_entries h ao = (case ao of None \<Rightarrow> [] | Some a \<Rightarrow> (case hObj h a of Some (OMap kvs) \<Rightarrow> kvs | _ \<Rightarrow> []))"

definition slice_elems :: "gobj heap \<Rightarrow> nat option \<Rightarrow> gval list" where
  "slice_elems h ao = (case ao of None \<Rightarrow> [] | Some a \<Rightarrow> (case hObj h a of Some (OArr vs) \<Rightarrow> vs | _ \<Rightarrow> []))"

function copyJSON :: "nat \<Rightarrow> gval \<Rightarrow> gobj heap \<Rightarrow> (gval \<times> gobj heap) option"
  and copy_entries :: "nat \<Rightarrow> nat \<Rightarrow> (string \<times> gval) list \<Rightarrow> gobj heap \<Rightarrow> gobj heap option"
  and copy_elems :: "nat \<Rightarrow> nat \<Rightarrow> nat \<Rightarrow> gval list \<Rightarrow> gobj heap \<Rightarrow> gobj heap option"
where
  "copyJSON 0 v h = None"
| "copyJSON (Suc n) v h =
     (case v of
        GMap ao \<Rightarrow>
          (let (m, h1) = alloc (OMap []) h in
           case copy_entries n m (map_entries h ao) h1 of
             None \<Rightarrow> None
           | Some h2 \<Rightarrow> Some (GMap (Some m), h2))
      | GArr ao \<Rightarrow>
          (let vs = slice_elems h ao;
               (s, h1) = alloc (OArr (replicate (length vs) (GScalar JNull))) h in
           case copy_elems n s 0 vs h1 of
             None \<Rightarrow> None
           | Some h2 \<Rightarrow> Some (GArr (Some s), h2))
      | _ \<Rightarrow> Some (v, h))"
| "copy_entries n m [] h = Some h"
| "copy_entries n m ((k, v) # kvs) h =
     (case copyJSON n v h of
        None \<Rightarrow> None
      | Some (v', h1) \<Rightarrow> copy_entries n m kvs (map_assign m k v' h1))"
| "copy_elems n s i [] h = Some h"
| "copy_elems n s i (v # vs) h =
     (case copyJSON n v h of
        None \<Rightarrow> None
      | Some (v', h1) \<Rightarrow> copy_elems n s (i + 1) vs (index_assign s i v' h1))"
  by pat_completeness auto
termination
  by (relation "inv_image (less_than <*lex*> less_than)
       (\<lambda>x. case x of
          Inl (n, _) \<Rightarrow> (n, 0)
        | Inr (Inl (n, _, kvs, _)) \<Rightarrow> (n, length kvs + 1)
        | Inr (Inr (n, _, _, vs, _)) \<Rightarrow> (n, length vs + 1))") auto

lemma update_new: "k \<notin> set (map fst kvs) \<Longrightarrow> AList.update k v kvs = kvs @ [(k, v)]"
  by (induction kvs) auto

text \<open>A copy is as the original, at new addresses, and changes nothing that was there before.\<close>

definition copied :: "gobj heap \<Rightarrow> gval \<Rightarrow> json \<Rightarrow> gobj heap \<Rightarrow> bool" where
  "copied h v' j h' \<longleftrightarrow> heap_ok h' \<and> kept h h' \<and> denotes {hNext h..<hNext h'} h' v' j"

definition copies_to :: "nat set \<Rightarrow> gobj heap \<Rightarrow> gval \<Rightarrow> json \<Rightarrow> bool" where
  "copies_to A h0 v j \<longleftrightarrow>
     (\<forall>n h. size j < n \<longrightarrow> heap_ok h \<longrightarrow> (\<forall>a \<in> A. a < hNext h \<and> hObj h a = hObj h0 a) \<longrightarrow>
        (\<exists>v' h'. copyJSON n v h = Some (v', h') \<and> copied h v' j h'))"

text \<open>One turn of a loop: an element was copied and stored in the new object \<open>m\<close>. Later turns change
  \<open>m\<close> and new objects only.\<close>

definition filling :: "nat \<Rightarrow> gobj heap \<Rightarrow> gobj heap \<Rightarrow> bool" where
  "filling m h h' \<longleftrightarrow>
     heap_ok h' \<and> hNext h \<le> hNext h' \<and> (\<forall>a < hNext h. a \<noteq> m \<longrightarrow> hObj h' a = hObj h a)"

lemma filling_trans: "filling m h1 h2 \<Longrightarrow> filling m h2 h3 \<Longrightarrow> filling m h1 h3"
  by (auto simp: filling_def)

lemma copied_turn:
  assumes "copied h v' j h1" and "m < hNext h"
  shows "filling m h (overwrite m x h1)" and "denotes {hNext h..<hNext h1} (overwrite m x h1) v' j"
proof -
  have h1: "heap_ok h1" "kept h h1" "denotes {hNext h..<hNext h1} h1 v' j"
    using assms(1) by (simp_all add: copied_def)
  show "filling m h (overwrite m x h1)"
    using overwrite_ok [OF h1(1), of m x] assms(2) keptD [OF h1(2)] by (simp add: filling_def)
  show "denotes {hNext h..<hNext h1} (overwrite m x h1) v' j"
    by (rule denotes_frame [OF h1(3)]) (use assms(2) in auto)
qed

lemma filled_denotes:
  assumes "filling m h1 h2" and "denotes {hNext h..<hNext h1} h1 v j" and "m < hNext h" and "hNext h \<le> hNext h1"
  shows "denotes {hNext h..<hNext h2} h2 v j"
  by (rule denotes_frame [OF assms(2)]) (use assms(1,3,4) in \<open>auto simp: filling_def\<close>)

lemma filling_agrees:
  assumes "filling m h h1" and "m \<notin> A" and "\<forall>a \<in> A. a < hNext h \<and> hObj h a = hObj h0 a"
  shows "\<forall>a \<in> A. a < hNext h1 \<and> hObj h1 a = hObj h0 a"
proof
  fix a assume "a \<in> A"
  then have "a < hNext h" "hObj h a = hObj h0 a" "a \<noteq> m" using assms(2,3) by blast+
  then show "a < hNext h1 \<and> hObj h1 a = hObj h0 a" using assms(1) by (simp add: filling_def)
qed

lemma copy_entries_copies:
  assumes "list_all2 (copies_to A h0) (map snd kvs) (map snd kjs)" and "map fst kvs = map fst kjs"
    and "distinct (map fst (ws @ kvs))" and "\<forall>kj \<in> set kjs. size (snd kj) < n" and "heap_ok h"
    and "m < hNext h" and "m \<notin> A" and "\<forall>a \<in> A. a < hNext h \<and> hObj h a = hObj h0 a"
    and "hObj h m = Some (OMap ws)"
  shows "\<exists>h' ws'. copy_entries n m kvs h = Some h' \<and> filling m h h' \<and>
     hObj h' m = Some (OMap (ws @ ws')) \<and> map fst ws' = map fst kjs \<and>
     list_all2 (denotes {hNext h..<hNext h'} h') (map snd ws') (map snd kjs)"
  using assms
proof (induction kvs arbitrary: kjs ws h)
  case Nil
  then show ?case by (simp add: filling_def)
next
  case (Cons kv kvs)
  obtain k v where kv: "kv = (k, v)" by (cases kv)
  from Cons.prems(1,2) kv obtain j kjs' where kjs: "kjs = (k, j) # kjs'"
    by (cases kjs) (auto simp: list_all2_Cons1)
  have "copies_to A h0 v j" "size j < n" using Cons.prems(1,4) by (simp_all add: kv kjs)
  then obtain v' h1 where v': "copyJSON n v h = Some (v', h1)" "copied h v' j h1"
    using Cons.prems(5,8) unfolding copies_to_def by blast
  have "hObj h1 m = Some (OMap ws)"
    using v'(2) Cons.prems(6,9) by (simp add: copied_def kept_def)
  moreover have "k \<notin> set (map fst ws)" using Cons.prems(3) by (auto simp: kv)
  ultimately have step: "map_assign m k v' h1 = overwrite m (OMap (ws @ [(k, v')])) h1" (is "_ = ?h2")
    by (simp add: map_assign_def update_new)
  note turn = copied_turn [OF v'(2) Cons.prems(6), of "OMap (ws @ [(k, v')])"]
  have h2: "heap_ok ?h2" "m < hNext ?h2" "hObj ?h2 m = Some (OMap (ws @ [(k, v')]))"
    using turn(1) Cons.prems(6) by (simp_all add: filling_def)
  have "\<exists>h' ws'. copy_entries n m kvs ?h2 = Some h' \<and> filling m ?h2 h' \<and>
      hObj h' m = Some (OMap ((ws @ [(k, v')]) @ ws')) \<and> map fst ws' = map fst kjs' \<and>
      list_all2 (denotes {hNext ?h2..<hNext h'} h') (map snd ws') (map snd kjs')"
    by (rule Cons.IH [OF _ _ _ _ h2(1,2) Cons.prems(7) _ h2(3)])
      (use Cons.prems(1-4) filling_agrees [OF turn(1) Cons.prems(7,8)] in \<open>simp_all add: kv kjs\<close>)
  then obtain h' ws' where h': "copy_entries n m kvs ?h2 = Some h'" "filling m ?h2 h'"
      "hObj h' m = Some (OMap ((ws @ [(k, v')]) @ ws'))" "map fst ws' = map fst kjs'"
      "list_all2 (denotes {hNext ?h2..<hNext h'} h') (map snd ws') (map snd kjs')" by blast
  have le: "hNext h \<le> hNext ?h2" using turn(1) by (simp add: filling_def)
  have "denotes {hNext h..<hNext h'} h' v' j"
    by (rule filled_denotes [OF h'(2) _ Cons.prems(6) le]) (use turn(2) in simp)
  moreover have "list_all2 (denotes {hNext h..<hNext h'} h') (map snd ws') (map snd kjs')"
    by (rule list_all2_mono [OF h'(5)]) (erule denotes_frame, use le in auto)
  ultimately show ?case
    using h' v'(1) step filling_trans [OF turn(1) h'(2)]
    by (intro exI [of _ h'] exI [of _ "(k, v') # ws'"]) (simp add: kv kjs)
qed

lemma copy_elems_copies:
  assumes "list_all2 (copies_to A h0) vs js" and "\<forall>j \<in> set js. size j < n" and "heap_ok h"
    and "m < hNext h" and "m \<notin> A" and "\<forall>a \<in> A. a < hNext h \<and> hObj h a = hObj h0 a"
    and "hObj h m = Some (OArr (ws @ replicate (length vs) z))"
  shows "\<exists>h' ws'. copy_elems n m (length ws) vs h = Some h' \<and> filling m h h' \<and>
     hObj h' m = Some (OArr (ws @ ws')) \<and> list_all2 (denotes {hNext h..<hNext h'} h') ws' js"
  using assms
proof (induction vs arbitrary: js ws h)
  case Nil
  then show ?case by (simp add: filling_def)
next
  case (Cons v vs)
  from Cons.prems(1) obtain j js' where js: "js = j # js'" by (auto simp: list_all2_Cons1)
  have "copies_to A h0 v j" "size j < n" using Cons.prems(1,2) by (simp_all add: js)
  then obtain v' h1 where v': "copyJSON n v h = Some (v', h1)" "copied h v' j h1"
    using Cons.prems(3,6) unfolding copies_to_def by blast
  have "hObj h1 m = Some (OArr (ws @ z # replicate (length vs) z))"
    using v'(2) Cons.prems(4,7) by (simp add: copied_def kept_def)
  then have step: "index_assign m (length ws) v' h1 = overwrite m (OArr (ws @ v' # replicate (length vs) z)) h1"
      (is "_ = ?h2")
    by (simp add: index_assign_def list_update_append)
  note turn = copied_turn [OF v'(2) Cons.prems(4), of "OArr (ws @ v' # replicate (length vs) z)"]
  have h2: "heap_ok ?h2" "m < hNext ?h2" "hObj ?h2 m = Some (OArr ((ws @ [v']) @ replicate (length vs) z))"
    using turn(1) Cons.prems(4) by (simp_all add: filling_def)
  have "\<exists>h' ws'. copy_elems n m (length (ws @ [v'])) vs ?h2 = Some h' \<and> filling m ?h2 h' \<and>
      hObj h' m = Some (OArr ((ws @ [v']) @ ws')) \<and> list_all2 (denotes {hNext ?h2..<hNext h'} h') ws' js'"
    by (rule Cons.IH [OF _ _ h2(1,2) Cons.prems(5) _ h2(3)])
      (use Cons.prems(1,2) filling_agrees [OF turn(1) Cons.prems(5,6)] in \<open>simp_all add: js\<close>)
  then obtain h' ws' where h': "copy_elems n m (length ws + 1) vs ?h2 = Some h'" "filling m ?h2 h'"
      "hObj h' m = Some (OArr ((ws @ [v']) @ ws'))"
      "list_all2 (denotes {hNext ?h2..<hNext h'} h') ws' js'" by auto
  have le: "hNext h \<le> hNext ?h2" using turn(1) by (simp add: filling_def)
  have "denotes {hNext h..<hNext h'} h' v' j"
    by (rule filled_denotes [OF h'(2) _ Cons.prems(4) le]) (use turn(2) in simp)
  moreover have "list_all2 (denotes {hNext h..<hNext h'} h') ws' js'"
    by (rule list_all2_mono [OF h'(4)]) (erule denotes_frame, use le in auto)
  ultimately show ?case
    using h' v'(1) step filling_trans [OF turn(1) h'(2)]
    by (intro exI [of _ h'] exI [of _ "v' # ws'"]) (simp add: js)
qed

text \<open>Copying a decoded document ends, with a stack deeper than the document.\<close>

lemma size_elems: "j \<in> set js \<Longrightarrow> size j < size (JArray js)" "kj \<in> set kjs \<Longrightarrow> size (snd kj) < size (JObject kjs)"
proof -
  show "j \<in> set js \<Longrightarrow> size j < size (JArray js)"
    using size_list_estimation' [of j js "size j" size] by simp
  show "kj \<in> set kjs \<Longrightarrow> size (snd kj) < size (JObject kjs)"
    using size_list_estimation' [of kj kjs "size (snd kj)" "size_prod (\<lambda>_. 0) size"] by (cases kj) simp
qed

lemma alloc_copied:
  assumes "heap_ok h" and "\<forall>a \<in> A. a < hNext h \<and> hObj h a = hObj h0 a" and "alloc x h = (m, h1)"
  shows "heap_ok h1" "m < hNext h1" "m \<notin> A" "\<forall>a \<in> A. a < hNext h1 \<and> hObj h1 a = hObj h0 a"
    "hObj h1 m = Some x" "filling m h h1"
  using alloc_facts [OF assms(3)] assms(1,2) by (auto simp: filling_def)

lemma filled_copied:
  assumes "alloc x h = (m, h1)" and "filling m h h1" and "filling m h1 h2"
  shows "heap_ok h2 \<and> kept h h2 \<and> hNext h < hNext h2 \<and> m \<in> {hNext h..<hNext h2}"
  using alloc_facts [OF assms(1)] filling_trans [OF assms(2,3)] assms(3)
  by (auto simp: filling_def kept_def)

lemma copy_map:
  assumes "\<And>h. \<forall>a \<in> A. a < hNext h \<and> hObj h a = hObj h0 a \<Longrightarrow> map_entries h ao = kvs"
    and "distinct (map fst kvs)" and "map fst kvs = map fst kjs"
    and "list_all2 (copies_to A h0) (map snd kvs) (map snd kjs)"
  shows "copies_to A h0 (GMap ao) (JObject kjs)"
  unfolding copies_to_def
proof (intro allI impI)
  fix n :: nat and h
  assume n: "size (JObject kjs) < n" and h: "heap_ok h" "\<forall>a \<in> A. a < hNext h \<and> hObj h a = hObj h0 a"
  then obtain n' where n': "n = Suc n'" "\<forall>kj \<in> set kjs. size (snd kj) < n'"
    using size_elems(2) by (cases n) fastforce+
  obtain m h1 where new: "alloc (OMap []) h = (m, h1)" by fastforce
  note h1 = alloc_copied [OF h new]
  from copy_entries_copies [OF assms(4,3) _ n'(2) h1(1-5)] assms(2) obtain h2 ws where
    h2: "copy_entries n' m kvs h1 = Some h2" "filling m h1 h2" "hObj h2 m = Some (OMap ws)"
      "map fst ws = map fst kjs" "list_all2 (denotes {hNext h1..<hNext h2} h2) (map snd ws) (map snd kjs)"
    by auto
  have "list_all2 (denotes {hNext h..<hNext h2} h2) (map snd ws) (map snd kjs)"
    by (rule list_all2_mono [OF h2(5)]) (erule denotes_frame, use h1(6) in \<open>auto simp: filling_def\<close>)
  then have "copied h (GMap (Some m)) (JObject kjs) h2"
    using filled_copied [OF new h1(6) h2(2)] h2(3,4) assms(2,3) by (simp add: copied_def)
  moreover have "copyJSON n (GMap ao) h = Some (GMap (Some m), h2)"
    using h2(1) assms(1) [OF h(2)] new by (simp add: n'(1))
  ultimately show "\<exists>v' h'. copyJSON n (GMap ao) h = Some (v', h') \<and> copied h v' (JObject kjs) h'" by blast
qed

lemma copy_slice:
  assumes "\<And>h. \<forall>a \<in> A. a < hNext h \<and> hObj h a = hObj h0 a \<Longrightarrow> slice_elems h ao = vs"
    and "list_all2 (copies_to A h0) vs js"
  shows "copies_to A h0 (GArr ao) (JArray js)"
  unfolding copies_to_def
proof (intro allI impI)
  fix n :: nat and h
  assume n: "size (JArray js) < n" and h: "heap_ok h" "\<forall>a \<in> A. a < hNext h \<and> hObj h a = hObj h0 a"
  then obtain n' where n': "n = Suc n'" "\<forall>j \<in> set js. size j < n'"
    using size_elems(1) by (cases n) fastforce+
  obtain m h1 where new: "alloc (OArr (replicate (length vs) (GScalar JNull))) h = (m, h1)" by fastforce
  note h1 = alloc_copied [OF h new]
  have "hObj h1 m = Some (OArr ([] @ replicate (length vs) (GScalar JNull)))" by (simp add: h1(5))
  from copy_elems_copies [OF assms(2) n'(2) h1(1-4) this] obtain h2 ws where
    h2: "copy_elems n' m 0 vs h1 = Some h2" "filling m h1 h2" "hObj h2 m = Some (OArr ws)"
      "list_all2 (denotes {hNext h1..<hNext h2} h2) ws js"
    by auto
  have "list_all2 (denotes {hNext h..<hNext h2} h2) ws js"
    by (rule list_all2_mono [OF h2(4)]) (erule denotes_frame, use h1(6) in \<open>auto simp: filling_def\<close>)
  then have "copied h (GArr (Some m)) (JArray js) h2"
    using filled_copied [OF new h1(6) h2(2)] h2(3) by (simp add: copied_def)
  moreover have "copyJSON n (GArr ao) h = Some (GArr (Some m), h2)"
    using h2(1) assms(1) [OF h(2)] new by (simp add: n'(1) Let_def)
  ultimately show "\<exists>v' h'. copyJSON n (GArr ao) h = Some (v', h') \<and> copied h v' (JArray js) h'" by blast
qed

lemma copyJSON_copies: "denotes A h0 v j \<Longrightarrow> copies_to A h0 v j"
proof (induction rule: denotes.induct)
  case (den_scalar j)
  show ?case
    unfolding copies_to_def copied_def
    by (auto simp: den_scalar gr0_conv_Suc dest!: less_imp_Suc_add)
next
  case den_nil_map
  show ?case by (rule copy_map [where kvs = "[]"]) (simp_all add: map_entries_def)
next
  case den_nil_arr
  show ?case by (rule copy_slice [where vs = "[]"]) (simp_all add: slice_elems_def)
next
  case (den_map a kvs kjs)
  show ?case
    by (rule copy_map [OF _ den_map.hyps(3,4)])
      (use den_map in \<open>auto simp: map_entries_def elim: list_all2_mono\<close>)
next
  case (den_arr a vs js)
  show ?case
    by (rule copy_slice [where vs = vs])
      (use den_arr in \<open>auto simp: slice_elems_def elim: list_all2_mono\<close>)
qed

section \<open>Footprints\<close>

text \<open>What is read of a value is closed: nothing else can be reached from it.\<close>

definition footprint :: "nat set \<Rightarrow> gobj heap \<Rightarrow> gval \<Rightarrow> json \<Rightarrow> nat set \<Rightarrow> bool" where
  "footprint A h v j F \<longleftrightarrow>
     F \<subseteq> A \<and> gval_refs v \<subseteq> F \<and> closed_region gobj_refs h F \<and> denotes F h v j"

lemma footprints:
  assumes "list_all2 (\<lambda>v j. \<exists>F. footprint A h v j F) vs js"
  shows "\<exists>F. F \<subseteq> A \<and> (\<Union>v \<in> set vs. gval_refs v) \<subseteq> F \<and> closed_region gobj_refs h F \<and>
     list_all2 (denotes F h) vs js"
  using assms
proof (induction rule: list_all2_induct)
  case Nil
  then show ?case by (intro exI [of _ "{}"]) (simp add: closed_region_def)
next
  case (Cons v vs j js)
  then obtain F G where F: "footprint A h v j F"
    and G: "G \<subseteq> A" "(\<Union>v \<in> set vs. gval_refs v) \<subseteq> G" "closed_region gobj_refs h G"
      "list_all2 (denotes G h) vs js" by blast
  have "list_all2 (denotes (F \<union> G) h) vs js"
    by (rule list_all2_mono [OF G(4)]) (erule denotes_frame, auto)
  moreover have "denotes (F \<union> G) h v j"
    using F by (auto simp: footprint_def elim: denotes_frame)
  ultimately show ?case
    using F G closed_region_Un [of gobj_refs h F G] by (intro exI [of _ "F \<union> G"]) (auto simp: footprint_def)
qed

lemma closed_region_insert:
  "closed_region refs h F \<Longrightarrow> hObj h a = Some x \<Longrightarrow> refs x \<subseteq> F \<Longrightarrow> closed_region refs h (insert a F)"
  by (auto simp: closed_region_def)

lemma denotes_footprint: "denotes A h v j \<Longrightarrow> \<exists>F. footprint A h v j F"
proof (induction rule: denotes.induct)
  case (den_map a kvs kjs)
  from den_map.IH have "list_all2 (\<lambda>v j. \<exists>F. footprint A h v j F) (map snd kvs) (map snd kjs)"
    by (rule list_all2_mono) blast
  from footprints [OF this] obtain F where F: "F \<subseteq> A" "(\<Union>v \<in> snd ` set kvs. gval_refs v) \<subseteq> F"
      "closed_region gobj_refs h F" "list_all2 (denotes F h) (map snd kvs) (map snd kjs)" by auto
  have "list_all2 (denotes (insert a F) h) (map snd kvs) (map snd kjs)"
    by (rule list_all2_mono [OF F(4)]) (erule denotes_frame, auto)
  moreover have "closed_region gobj_refs h (insert a F)"
    by (rule closed_region_insert [OF F(3) den_map.hyps(2)]) (use F(2) in auto)
  ultimately show ?case
    using F(1) den_map.hyps by (intro exI [of _ "insert a F"]) (auto simp: footprint_def)
next
  case (den_arr a vs js)
  from den_arr.IH have "list_all2 (\<lambda>v j. \<exists>F. footprint A h v j F) vs js"
    by (rule list_all2_mono) blast
  from footprints [OF this] obtain F where F: "F \<subseteq> A" "(\<Union>v \<in> set vs. gval_refs v) \<subseteq> F"
      "closed_region gobj_refs h F" "list_all2 (denotes F h) vs js" by blast
  have "list_all2 (denotes (insert a F) h) vs js"
    by (rule list_all2_mono [OF F(4)]) (erule denotes_frame, auto)
  moreover have "closed_region gobj_refs h (insert a F)"
    by (rule closed_region_insert [OF F(3) den_arr.hyps(2)]) (use F(2) in auto)
  ultimately show ?case
    using F(1) den_arr.hyps by (intro exI [of _ "insert a F"]) (auto simp: footprint_def)
qed (intro exI [of _ "{}"]; simp add: footprint_def closed_region_def)+

text \<open>Slices of strings.\<close>

definition slices_Clone :: "nat option \<Rightarrow> gobj heap \<Rightarrow> nat option \<times> gobj heap" where
  "slices_Clone so h =
     (case so of
        None \<Rightarrow> (None, h)
      | Some a \<Rightarrow>
          (case hObj h a of
             None \<Rightarrow> (None, h)
           | Some x \<Rightarrow> (let (b, h') = alloc x h in (Some b, h'))))"

definition denotes_strings :: "nat set \<Rightarrow> gobj heap \<Rightarrow> nat option \<Rightarrow> string list \<Rightarrow> bool" where
  "denotes_strings A h so xs \<longleftrightarrow>
     (case so of None \<Rightarrow> xs = [] | Some a \<Rightarrow> a \<in> A \<and> hObj h a = Some (OStrings xs))"

lemma strings_frame:
  "denotes_strings A h so xs \<Longrightarrow> A \<subseteq> B \<Longrightarrow> (\<And>a. a \<in> A \<Longrightarrow> hObj h' a = hObj h a) \<Longrightarrow> denotes_strings B h' so xs"
  by (auto simp: denotes_strings_def split: option.splits)

lemma strings_footprint:
  "denotes_strings A h so xs \<Longrightarrow> set_option so \<subseteq> A \<and> closed_region gobj_refs h (set_option so) \<and>
     denotes_strings (set_option so) h so xs"
  by (auto simp: denotes_strings_def closed_region_def split: option.splits)

lemma slices_Clone_copies:
  assumes "denotes_strings A h so xs" and "heap_ok h" and "slices_Clone so h = (so', h')"
  shows "heap_ok h' \<and> kept h h' \<and> denotes_strings {hNext h..<hNext h'} h' so' xs"
proof (cases so)
  case None
  then show ?thesis using assms by (simp add: slices_Clone_def denotes_strings_def)
next
  case (Some a)
  with assms(1) have a: "hObj h a = Some (OStrings xs)" by (simp add: denotes_strings_def)
  obtain b h1 where new: "alloc (OStrings xs) h = (b, h1)" by fastforce
  with assms(3) Some a have "so' = Some b" "h' = h1" by (simp_all add: slices_Clone_def)
  then show ?thesis using alloc_facts [OF new] assms(2) by (simp add: denotes_strings_def)
qed

section \<open>Records\<close>

text \<open>The parts of a record that are behind references, with what they denote.\<close>

datatype part =
  PStrings "nat option" "string list"
| PAny gval json

primrec part_ok :: "nat set \<Rightarrow> gobj heap \<Rightarrow> part \<Rightarrow> bool" where
  "part_ok A h (PStrings so xs) \<longleftrightarrow> denotes_strings A h so xs"
| "part_ok A h (PAny v j) \<longleftrightarrow> denotes A h v j"

primrec part_refs :: "part \<Rightarrow> nat set" where
  "part_refs (PStrings so xs) = set_option so"
| "part_refs (PAny v j) = gval_refs v"

definition parts_ok :: "nat set \<Rightarrow> gobj heap \<Rightarrow> part list \<Rightarrow> bool" where
  "parts_ok A h ps \<longleftrightarrow> list_all (part_ok A h) ps"

lemma parts_ok_simps [simp]:
  "parts_ok A h []" "parts_ok A h (p # ps) \<longleftrightarrow> part_ok A h p \<and> parts_ok A h ps"
  by (simp_all add: parts_ok_def)

lemma parts_frame:
  assumes "parts_ok A h ps" and "A \<subseteq> B" and "\<And>a. a \<in> A \<Longrightarrow> hObj h' a = hObj h a"
  shows "parts_ok B h' ps"
proof -
  have "part_ok B h' p" if "part_ok A h p" for p
    using that strings_frame [OF _ assms(2,3)] denotes_frame [OF _ assms(2,3)] by (cases p) simp_all
  then show ?thesis using assms(1) by (auto simp: parts_ok_def list_all_iff)
qed

lemma parts_footprint:
  "parts_ok A h ps \<Longrightarrow> \<exists>F \<subseteq> A. (\<Union>p \<in> set ps. part_refs p) \<subseteq> F \<and> closed_region gobj_refs h F"
proof (induction ps)
  case Nil
  then show ?case by (intro exI [of _ "{}"]) (simp add: closed_region_def)
next
  case (Cons p ps)
  then obtain F where F: "F \<subseteq> A" "(\<Union>p \<in> set ps. part_refs p) \<subseteq> F" "closed_region gobj_refs h F"
    by auto
  have "\<exists>G \<subseteq> A. part_refs p \<subseteq> G \<and> closed_region gobj_refs h G"
  proof (cases p)
    case (PStrings so xs)
    then show ?thesis using Cons.prems strings_footprint [of A h so xs] by auto
  next
    case (PAny v j)
    then show ?thesis using Cons.prems denotes_footprint [of A h v j] by (auto simp: footprint_def)
  qed
  then obtain G where "G \<subseteq> A" "part_refs p \<subseteq> G" "closed_region gobj_refs h G" by blast
  then show ?case
    using F closed_region_Un [of gobj_refs h F G] by (intro exI [of _ "F \<union> G"]) auto
qed

text \<open>Whoever holds one of two records that share nothing cannot change the other.\<close>

lemma parts_isolated:
  assumes "parts_ok A h ps" and "parts_ok B h qs" and "A \<inter> B = {}" and "heap_ok h"
    and "A \<subseteq> {..<hNext h}" and "B \<subseteq> {..<hNext h}"
    and "uses gobj_refs h (\<Union>p \<in> set ps. part_refs p) h' K"
  shows "parts_ok B h' qs"
proof -
  obtain F where F: "F \<subseteq> A" "(\<Union>p \<in> set ps. part_refs p) \<subseteq> F" "closed_region gobj_refs h F"
    using parts_footprint [OF assms(1)] by blast
  have "\<forall>a < hNext h. a \<notin> F \<longrightarrow> hObj h' a = hObj h a"
    using uses_region [OF assms(7,4) F(2,3)] F(1) assms(5) by blast
  then show ?thesis
    by (intro parts_frame [OF assms(2)]) (use F(1) assms(3,6) in auto)
qed

fun clone_slices :: "nat option list \<Rightarrow> gobj heap \<Rightarrow> nat option list \<times> gobj heap" where
  "clone_slices [] h = ([], h)"
| "clone_slices (so # sos) h =
     (let (so', h) = slices_Clone so h; (sos', h) = clone_slices sos h in (so' # sos', h))"

lemma clone_slices_copies:
  assumes "parts_ok A h (map2 PStrings sos xss)" and "length sos = length xss" and "heap_ok h"
    and "A \<subseteq> {..<hNext h}" and "clone_slices sos h = (sos', h')"
  shows "length sos' = length xss \<and> heap_ok h' \<and> kept h h' \<and>
     parts_ok {hNext h..<hNext h'} h' (map2 PStrings sos' xss)"
  using assms
proof (induction sos arbitrary: xss h sos')
  case (Cons so sos)
  obtain xs xss' where xss: "xss = xs # xss'" using Cons.prems(2) by (cases xss) auto
  obtain so1 h1 where one: "slices_Clone so h = (so1, h1)" by fastforce
  obtain sos1 where rest: "clone_slices sos h1 = (sos1, h')" "sos' = so1 # sos1"
    using Cons.prems(5) one by (auto split: prod.splits)
  have h1: "heap_ok h1" "kept h h1" "denotes_strings {hNext h..<hNext h1} h1 so1 xs"
    using slices_Clone_copies [OF _ Cons.prems(3) one] Cons.prems(1) by (auto simp: xss)
  have "parts_ok A h1 (map2 PStrings sos xss')"
    by (rule parts_frame [of A h]) (use Cons.prems(1,4) keptD(1) [OF h1(2)] in \<open>auto simp: xss\<close>)
  moreover have "A \<subseteq> {..<hNext h1}" using Cons.prems(4) keptD(2) [OF h1(2)] by auto
  ultimately have r: "length sos1 = length xss'" "heap_ok h'" "kept h1 h'"
      "parts_ok {hNext h1..<hNext h'} h' (map2 PStrings sos1 xss')"
    using Cons.IH [OF _ _ h1(1) _ rest(1), of xss'] Cons.prems(2) by (simp_all add: xss)
  have "denotes_strings {hNext h..<hNext h'} h' so1 xs"
    by (rule strings_frame [OF h1(3)]) (use r(3) in \<open>auto simp: kept_def\<close>)
  moreover have "parts_ok {hNext h..<hNext h'} h' (map2 PStrings sos1 xss')"
    by (rule parts_frame [OF r(4)]) (use keptD(2) [OF h1(2)] in auto)
  ultimately show ?case using r kept_trans [OF h1(2) r(3)] by (simp add: xss rest(2))
qed simp

subsection \<open>Access tokens\<close>

text \<open>A record in memory: its fields that are values, and the references of the others. A slice of bytes
  is one of one-byte strings.\<close>

record accessTokenRef =
  yPlain :: AccessToken
  yAudience :: "nat option"
  yScopes :: "nat option"
  yAMR :: "nat option"
  yClaims :: "nat option"

definition accessToken_parts :: "accessTokenRef \<Rightarrow> AccessToken \<Rightarrow> part list" where
  "accessToken_parts r at =
     map2 PStrings [yAudience r, yScopes r, yAMR r] [xAudience at, xScopes at, xAMR at]
     @ [PAny (GMap (yClaims r)) (JObject (xClaims at))]"

definition accessToken_is :: "nat set \<Rightarrow> gobj heap \<Rightarrow> accessTokenRef \<Rightarrow> AccessToken \<Rightarrow> bool" where
  "accessToken_is A h r at \<longleftrightarrow>
     parts_ok A h (accessToken_parts r at) \<and>
     at = (yPlain r)\<lparr>xAudience := xAudience at, xScopes := xScopes at, xAMR := xAMR at, xClaims := xClaims at\<rparr>"

definition accessToken_refs :: "accessTokenRef \<Rightarrow> nat set" where
  "accessToken_refs r =
     set_option (yAudience r) \<union> set_option (yScopes r) \<union> set_option (yAMR r) \<union> set_option (yClaims r)"

definition accessToken_clone ::
  "nat \<Rightarrow> accessTokenRef \<Rightarrow> gobj heap \<Rightarrow> (accessTokenRef \<times> gobj heap) option" where
  "accessToken_clone n r h =
     (let (slices, h) = clone_slices [yAudience r, yScopes r, yAMR r] h in
      case copyJSON n (GMap (yClaims r)) h of
        Some (GMap m, h) \<Rightarrow>
          Some (r\<lparr>yAudience := slices ! 0, yScopes := slices ! 1, yAMR := slices ! 2, yClaims := m\<rparr>, h)
      | _ \<Rightarrow> None)"

lemma copyJSON_map: "copyJSON n (GMap a) h = Some (v, h') \<Longrightarrow> \<exists>m. v = GMap m"
  by (cases n) (auto split: prod.splits option.splits)

lemma accessToken_clone_copies:
  assumes "heap_ok h" and "accessToken_is {..<hNext h} h r at" and "size (JObject (xClaims at)) < n"
  obtains c h1 where "accessToken_clone n r h = Some (c, h1)" and "heap_ok h1" and "kept h h1"
    and "accessToken_is {hNext h..<hNext h1} h1 c at"
proof -
  have parts: "parts_ok {..<hNext h} h
        (map2 PStrings [yAudience r, yScopes r, yAMR r] [xAudience at, xScopes at, xAMR at])"
      "denotes {..<hNext h} h (GMap (yClaims r)) (JObject (xClaims at))"
    using assms(2) by (simp_all add: accessToken_is_def accessToken_parts_def)
  obtain sl h1 where sl: "clone_slices [yAudience r, yScopes r, yAMR r] h = (sl, h1)" by fastforce
  from clone_slices_copies [OF parts(1) _ assms(1) order_refl sl]
  have h1: "length sl = 3" "heap_ok h1" "kept h h1"
      "parts_ok {hNext h..<hNext h1} h1 (map2 PStrings sl [xAudience at, xScopes at, xAMR at])" by simp_all
  have "\<forall>a \<in> {..<hNext h}. a < hNext h1 \<and> hObj h1 a = hObj h a" using h1(3) by (auto simp: kept_def)
  with copyJSON_copies [OF parts(2)] assms(3) h1(2) obtain v h2 where
    v: "copyJSON n (GMap (yClaims r)) h1 = Some (v, h2)" "copied h1 v (JObject (xClaims at)) h2"
    unfolding copies_to_def by blast
  from copyJSON_map [OF v(1)] obtain m where m: "v = GMap m" by blast
  from h1(1) obtain a b c where abc: "sl = [a, b, c]" by (auto simp: length_Suc_conv numeral_3_eq_3)
  have "parts_ok {hNext h..<hNext h2} h2 (map2 PStrings sl [xAudience at, xScopes at, xAMR at])"
    by (rule parts_frame [OF h1(4)]) (use v(2) in \<open>auto simp: copied_def kept_def\<close>)
  moreover have "denotes {hNext h..<hNext h2} h2 (GMap m) (JObject (xClaims at))"
    by (rule denotes_frame [of "{hNext h1..<hNext h2}" h2])
      (use v(2) m keptD(2) [OF h1(3)] in \<open>auto simp: copied_def\<close>)
  ultimately have "accessToken_is {hNext h..<hNext h2} h2
      (r\<lparr>yAudience := a, yScopes := b, yAMR := c, yClaims := m\<rparr>) at"
    using assms(2) by (simp add: accessToken_is_def accessToken_parts_def abc)
  moreover have "accessToken_clone n r h =
      Some (r\<lparr>yAudience := a, yScopes := b, yAMR := c, yClaims := m\<rparr>, h2)"
    by (simp add: accessToken_clone_def sl v(1) m abc del: clone_slices.simps)
  moreover have "heap_ok h2" "kept h h2" using v(2) kept_trans [OF h1(3)] by (simp_all add: copied_def)
  ultimately show thesis using that by blast
qed

lemma accessToken_isolated:
  assumes "accessToken_is A h r at" and "accessToken_is B h c at'" and "A \<inter> B = {}" and "heap_ok h"
    and "A \<subseteq> {..<hNext h}" and "B \<subseteq> {..<hNext h}" and "uses gobj_refs h (accessToken_refs r) h' K"
  shows "accessToken_is B h' c at'"
proof -
  have "accessToken_refs r = (\<Union>p \<in> set (accessToken_parts r at). part_refs p)"
    by (auto simp: accessToken_refs_def accessToken_parts_def)
  with parts_isolated [OF _ _ assms(3-6)] assms(1,2,7) show ?thesis
    unfolding accessToken_is_def by metis
qed

text \<open>The clone is made for every token whose claims are a decoded document, on a stack deeper than the
  document; it denotes the same token, and whoever holds it cannot change the token it was made of.\<close>

lemma accessToken_clone_isolated:
  assumes "heap_ok h" and "accessToken_is {..<hNext h} h r at" and "size (JObject (xClaims at)) < n"
  shows "\<exists>c h1. accessToken_clone n r h = Some (c, h1) \<and>
     accessToken_is {hNext h..<hNext h1} h1 c at \<and>
     (\<forall>h2 K. uses gobj_refs h1 (accessToken_refs c) h2 K \<longrightarrow> accessToken_is {..<hNext h} h2 r at)"
proof -
  obtain c h1 where c: "accessToken_clone n r h = Some (c, h1)" "heap_ok h1" "kept h h1"
      "accessToken_is {hNext h..<hNext h1} h1 c at"
    using accessToken_clone_copies [OF assms] by blast
  have "accessToken_is {..<hNext h} h1 r at"
    using assms(2) parts_frame [of "{..<hNext h}" h _ "{..<hNext h}" h1] keptD(1) [OF c(3)]
    by (auto simp: accessToken_is_def)
  moreover have "{hNext h..<hNext h1} \<inter> {..<hNext h} = {}" "{hNext h..<hNext h1} \<subseteq> {..<hNext h1}"
      "{..<hNext h} \<subseteq> {..<hNext h1}" using keptD(2) [OF c(3)] by auto
  ultimately have "\<forall>h2 K. uses gobj_refs h1 (accessToken_refs c) h2 K \<longrightarrow> accessToken_is {..<hNext h} h2 r at"
    using accessToken_isolated [OF c(4) _ _ c(2)] by blast
  then show ?thesis using c(1,4) by blast
qed

subsection \<open>Clients\<close>

record clientRef =
  kPlain :: Client
  kSecretHash :: "nat option"
  kJWKS :: "nat option"
  kRedirectURIs :: "nat option"
  kGrantTypes :: "nat option"
  kScopes :: "nat option"
  kAudience :: "nat option"

definition byte_strings :: "bytes \<Rightarrow> string list" where
  "byte_strings = map (\<lambda>b. [b])"

definition client_slices :: "clientRef \<Rightarrow> nat option list" where
  "client_slices r = [kSecretHash r, kJWKS r, kRedirectURIs r, kGrantTypes r, kScopes r, kAudience r]"

definition client_lists :: "Client \<Rightarrow> string list list" where
  "client_lists c =
     [byte_strings (cSecretHash c), byte_strings (cJWKS c), cRedirectURIs c, cGrantTypes c, cScopes c, cAudience c]"

definition client_is :: "nat set \<Rightarrow> gobj heap \<Rightarrow> clientRef \<Rightarrow> Client \<Rightarrow> bool" where
  "client_is A h r c \<longleftrightarrow>
     parts_ok A h (map2 PStrings (client_slices r) (client_lists c)) \<and>
     c = (kPlain r)\<lparr>cSecretHash := cSecretHash c, cJWKS := cJWKS c, cRedirectURIs := cRedirectURIs c,
                  cGrantTypes := cGrantTypes c, cScopes := cScopes c, cAudience := cAudience c\<rparr>"

definition client_clone :: "clientRef \<Rightarrow> gobj heap \<Rightarrow> clientRef \<times> gobj heap" where
  "client_clone r h =
     (let (slices, h) = clone_slices (client_slices r) h in
      (r\<lparr>kSecretHash := slices ! 0, kJWKS := slices ! 1, kRedirectURIs := slices ! 2,
         kGrantTypes := slices ! 3, kScopes := slices ! 4, kAudience := slices ! 5\<rparr>, h))"

text \<open>A function of the application that gets a client gets one it cannot change the provider's with.\<close>

lemma client_clone_isolated:
  assumes "heap_ok h" and "client_is {..<hNext h} h r c" and "client_clone r h = (r', h1)"
  shows "client_is {hNext h..<hNext h1} h1 r' c"
    and "uses gobj_refs h1 (\<Union>so \<in> set (client_slices r'). set_option so) h2 K \<Longrightarrow> client_is {..<hNext h} h2 r c"
proof -
  have old: "parts_ok {..<hNext h} h (map2 PStrings (client_slices r) (client_lists c))"
    using assms(2) by (simp add: client_is_def)
  obtain sl where sl: "clone_slices (client_slices r) h = (sl, h1)"
    using assms(3) by (auto simp: client_clone_def split: prod.splits)
  have len: "length (client_slices r) = length (client_lists c)"
    by (simp add: client_slices_def client_lists_def)
  from clone_slices_copies [OF old len assms(1) order_refl sl]
  have h1: "length sl = 6" "heap_ok h1" "kept h h1"
      "parts_ok {hNext h..<hNext h1} h1 (map2 PStrings sl (client_lists c))"
    by (simp_all add: client_lists_def)
  have "client_slices r' = [sl ! 0, sl ! 1, sl ! 2, sl ! 3, sl ! 4, sl ! 5]"
    using assms(3) sl by (auto simp: client_clone_def client_slices_def)
  also have "\<dots> = sl"
    using h1(1) by (intro nth_equalityI) (auto simp: less_Suc_eq numeral_eq_Suc)
  finally have r': "client_slices r' = sl" .
  moreover have "kPlain r' = kPlain r" using assms(3) sl by (auto simp: client_clone_def)
  ultimately show new: "client_is {hNext h..<hNext h1} h1 r' c"
    using h1(4) assms(2) by (simp add: client_is_def)
  assume u: "uses gobj_refs h1 (\<Union>so \<in> set (client_slices r'). set_option so) h2 K"
  have "(\<Union>p \<in> set (map2 PStrings (client_slices r') (client_lists c)). part_refs p) =
      (\<Union>so \<in> set (client_slices r'). set_option so)"
    by (auto simp: client_slices_def client_lists_def)
  with u have "uses gobj_refs h1 (\<Union>p \<in> set (map2 PStrings sl (client_lists c)). part_refs p) h2 K"
    by (simp add: r')
  moreover have "parts_ok {..<hNext h} h1 (map2 PStrings (client_slices r) (client_lists c))"
    by (rule parts_frame [OF old]) (use keptD(1) [OF h1(3)] in auto)
  ultimately have "parts_ok {..<hNext h} h2 (map2 PStrings (client_slices r) (client_lists c))"
    using parts_isolated [OF h1(4) _ _ h1(2)] keptD(2) [OF h1(3)] by fastforce
  then show "client_is {..<hNext h} h2 r c" using assms(2) by (simp add: client_is_def)
qed

end
