(* ===== verification/Grantor_MintRefs.thy ===== *)
theory Grantor_MintRefs
  imports Grantor_Copies Grantor_Sample
begin

text \<open>
  \<^verbatim>\<open>mintTokens\<close> of token.go and \<^verbatim>\<open>encodeAccessToken\<close> of accesstoken.go on the heap of Grantor_Copies, up
  to the ID token: the access token is put together from slices and maps of the plan and the grant, a
  clone of it is handed to the encoder of the application, and the records and the response are made
  from the same slices and maps afterwards. Grantor_Token has the same steps on values; the property
  of this theory is why it may.
\<close>

section \<open>Reading memory\<close>

definition read_strings :: "gobj heap \<Rightarrow> nat option \<Rightarrow> string list" where
  "read_strings h so =
     (case so of None \<Rightarrow> [] | Some a \<Rightarrow> (case hObj h a of Some (OStrings xs) \<Rightarrow> xs | _ \<Rightarrow> []))"

text \<open>The document at a value, on a stack of \<open>n\<close> frames.\<close>

fun read_json :: "nat \<Rightarrow> gobj heap \<Rightarrow> gval \<Rightarrow> json option" where
  "read_json 0 h v = None"
| "read_json (Suc n) h v =
     (case v of
        GScalar j \<Rightarrow> Some j
      | GSlice so \<Rightarrow> Some (JArray (map JString (read_strings h so)))
      | GArr ao \<Rightarrow> map_option JArray (those (map (read_json n h) (slice_elems h ao)))
      | GMap ao \<Rightarrow>
          map_option (\<lambda>js. JObject (zip (map fst (map_entries h ao)) js))
            (those (map (read_json n h) (map snd (map_entries h ao)))))"

lemma read_strings_denotes: "denotes_strings A h so xs \<Longrightarrow> read_strings h so = xs"
  by (auto simp: read_strings_def denotes_strings_def split: option.splits)

lemma those_all2: "list_all2 (\<lambda>v j. f v = Some j) vs js \<Longrightarrow> those (map f vs) = Some js"
  by (induction rule: list_all2_induct) auto

lemma read_json_denotes: "denotes A h v j \<Longrightarrow> size j < n \<Longrightarrow> read_json n h v = Some j"
proof (induction arbitrary: n rule: denotes.induct)
  case (den_map a kvs kjs)
  then obtain m where m: "n = Suc m" by (cases n) auto
  have "list_all2 (\<lambda>v j. read_json m h v = Some j) (map snd kvs) (map snd kjs)"
    using den_map.IH
  proof (rule list.rel_mono_strong)
    fix v j
    assume "j \<in> set (map snd kjs)"
      and "denotes A h v j \<and> (\<forall>n. size j < n \<longrightarrow> read_json n h v = Some j)"
    moreover from this(1) have "size j < size (JObject kjs)" using size_elems(2) by fastforce
    ultimately show "read_json m h v = Some j" using den_map.prems m by simp
  qed
  from those_all2 [OF this] show ?case
    using den_map.hyps by (simp add: m map_entries_def zip_map_fst_snd)
next
  case (den_arr a vs js)
  then obtain m where m: "n = Suc m" by (cases n) auto
  have "list_all2 (\<lambda>v j. read_json m h v = Some j) vs js"
    using den_arr.IH
  proof (rule list.rel_mono_strong)
    fix v j
    assume "j \<in> set js" and "denotes A h v j \<and> (\<forall>n. size j < n \<longrightarrow> read_json n h v = Some j)"
    moreover from this(1) have "size j < size (JArray js)" by (rule size_elems(1))
    ultimately show "read_json m h v = Some j" using den_arr.prems m by simp
  qed
  from those_all2 [OF this] show ?case using den_arr.hyps by (simp add: m slice_elems_def)
next
  case den_nil_map
  then show ?case by (cases n) (simp_all add: map_entries_def)
next
  case den_nil_arr
  then show ?case by (cases n) (simp_all add: slice_elems_def)
next
  case (den_scalar j)
  then show ?case by (cases n) simp_all
qed

definition read_accessToken :: "nat \<Rightarrow> accessTokenRef \<Rightarrow> gobj heap \<Rightarrow> AccessToken option" where
  "read_accessToken n r h =
     (case read_json n h (GMap (yClaims r)) of
        Some (JObject claims) \<Rightarrow>
          Some ((yPlain r)\<lparr>xAudience := read_strings h (yAudience r), xScopes := read_strings h (yScopes r),
                  xAMR := read_strings h (yAMR r), xClaims := claims\<rparr>)
      | _ \<Rightarrow> None)"

lemma read_accessToken_is:
  assumes "accessToken_is A h r at" and "size (JObject (xClaims at)) < n"
  shows "read_accessToken n r h = Some at"
proof -
  have "denotes A h (GMap (yClaims r)) (JObject (xClaims at))"
    and "denotes_strings A h (yAudience r) (xAudience at)" "denotes_strings A h (yScopes r) (xScopes at)"
      "denotes_strings A h (yAMR r) (xAMR at)"
    and at: "at = (yPlain r)\<lparr>xAudience := xAudience at, xScopes := xScopes at, xAMR := xAMR at,
      xClaims := xClaims at\<rparr>"
    using assms(1) by (simp_all add: accessToken_is_def accessToken_parts_def)
  from read_json_denotes [OF this(1) assms(2)] this(2-4)
  have "read_accessToken n r h = Some ((yPlain r)\<lparr>xAudience := xAudience at, xScopes := xScopes at,
      xAMR := xAMR at, xClaims := xClaims at\<rparr>)"
    by (simp add: read_accessToken_def read_strings_denotes)
  then show ?thesis using at by simp
qed

section \<open>Plans and grants in memory\<close>

text \<open>The fields of the plan and of the grant that an access token shares, and those that the records
  share. What else a grant refers to is not reachable from an access token, and stays a value.\<close>

record planRef =
  plPlain :: issuePlan
  plScopes :: "nat option"
  plAudience :: "nat option"
  plAccessClaims :: "nat option"

record tokenRef =
  rtPlain :: Token
  rtScopes :: "nat option"
  rtAMR :: "nat option"
  rtAudience :: "nat option"
  rtAccessTokenClaims :: "nat option"

definition plan_is :: "nat set \<Rightarrow> gobj heap \<Rightarrow> planRef \<Rightarrow> issuePlan \<Rightarrow> bool" where
  "plan_is A h r plan \<longleftrightarrow>
     denotes_strings A h (plScopes r) (ipScopes plan) \<and>
     denotes_strings A h (plAudience r) (ipAudience plan) \<and>
     denotes A h (GMap (plAccessClaims r)) (JObject (ipAccessClaims plan)) \<and>
     plan = (plPlain r)\<lparr>ipScopes := ipScopes plan, ipAudience := ipAudience plan,
                        ipAccessClaims := ipAccessClaims plan\<rparr>"

definition token_is :: "nat set \<Rightarrow> gobj heap \<Rightarrow> tokenRef \<Rightarrow> Token \<Rightarrow> bool" where
  "token_is A h r t \<longleftrightarrow>
     denotes_strings A h (rtScopes r) (tScopes t) \<and> denotes_strings A h (rtAMR r) (tAMR t) \<and>
     denotes_strings A h (rtAudience r) (tAudience t) \<and>
     denotes A h (GMap (rtAccessTokenClaims r)) (JObject (tAccessTokenClaims t)) \<and>
     t = (rtPlain r)\<lparr>tScopes := tScopes t, tAMR := tAMR t, tAudience := tAudience t,
                     tAccessTokenClaims := tAccessTokenClaims t\<rparr>"

lemma plan_frame:
  "plan_is A h r plan \<Longrightarrow> (\<And>a. a \<in> A \<Longrightarrow> hObj h' a = hObj h a) \<Longrightarrow> plan_is A h' r plan"
  unfolding plan_is_def using strings_frame [of A h _ _ A h'] denotes_frame [of A h _ _ A h'] by blast

lemma token_frame:
  "token_is A h r t \<Longrightarrow> (\<And>a. a \<in> A \<Longrightarrow> hObj h' a = hObj h a) \<Longrightarrow> token_is A h' r t"
  unfolding token_is_def using strings_frame [of A h _ _ A h'] denotes_frame [of A h _ _ A h'] by blast

section \<open>Minting\<close>

text \<open>An encoder gets a pointer to an access token and the function that signs; it returns a value and
  leaves the heap as it likes.\<close>

type_synonym encoderRef =
  "accessTokenRef \<Rightarrow> (string \<Rightarrow> json \<Rightarrow> goerr + string) \<Rightarrow> gobj heap \<Rightarrow> (goerr + string) \<times> gobj heap"

definition ref_encodeAccessToken ::
  "nat \<Rightarrow> Provider \<Rightarrow> resolvedIssuer \<Rightarrow> Client \<Rightarrow> (AccessTokenFormat \<Rightarrow> encoderRef option) \<Rightarrow> string \<Rightarrow>
     AccessTokenFormat \<Rightarrow> accessTokenRef \<Rightarrow> gobj heap \<Rightarrow> ((goerr + string) \<times> gobj heap) option" where
  "ref_encodeAccessToken n p iss client encoders random format at h =
     (if format = AccessTokenFormatOpaque then Some (Inr random, h)
      else map_option
        (\<lambda>(value, h). (case value of
             Inl err \<Rightarrow> Inl (EWrap ''encode access token'' [err])
           | Inr v \<Rightarrow>
               if v = [] then Inl (ENew ''the access token encoder returned an empty token'')
               else Inr v, h))
        (if format = AccessTokenFormatJWT
         then map_option
           (\<lambda>x. (access_token_sign p iss client ''at+jwt'' (JObject (jwtAccessTokenClaims x)), h))
           (read_accessToken n at h)
         else (case encoders format of
                 Some enc \<Rightarrow> Some (enc at (access_token_sign p iss client) h)
               | None \<Rightarrow> Some (Inl (ENew ''unknown access token format''), h))))"

definition ref_accessToken ::
  "string \<Rightarrow> resolvedIssuer \<Rightarrow> Client \<Rightarrow> tokenRef \<Rightarrow> planRef \<Rightarrow> GrantType \<Rightarrow> time \<Rightarrow> accessTokenRef" where
  "ref_accessToken i iss client grant plan grantType now =
     \<lparr>yPlain = new_access_token i iss client (rtPlain grant) (plPlain plan) grantType now,
      yAudience = plAudience plan, yScopes = plScopes plan, yAMR = rtAMR grant,
      yClaims = plAccessClaims plan\<rparr>"

definition ref_derive :: "tokenRef \<Rightarrow> time \<Rightarrow> string \<Rightarrow> TokenKind \<Rightarrow> nat option \<Rightarrow> tokenRef" where
  "ref_derive grant now value typ scopes =
     grant\<lparr>rtPlain := derive (rtPlain grant) now value typ [], rtScopes := scopes,
           rtAccessTokenClaims := None\<rparr>"

definition expiring :: "time \<Rightarrow> tokenRef \<Rightarrow> tokenRef" where
  "expiring at r = r\<lparr>rtPlain := (rtPlain r)\<lparr>tExpiresAt := at\<rparr>\<rparr>"

text \<open>Answers of the clock and of the random source come first: the time, the ID of the token, an opaque
  token and a refresh token. \<open>None\<close> is an exhausted stack.\<close>

definition ref_mintTokens ::
  "nat \<Rightarrow> Provider \<Rightarrow> resolvedIssuer \<Rightarrow> Client \<Rightarrow> (AccessTokenFormat \<Rightarrow> encoderRef option) \<Rightarrow>
     time \<Rightarrow> string \<Rightarrow> string \<Rightarrow> string \<Rightarrow> tokenRef \<Rightarrow> planRef \<Rightarrow> GrantType \<Rightarrow> gobj heap \<Rightarrow>
     ((perror + TokenResponse \<times> tokenRef list) \<times> gobj heap) option" where
  "ref_mintTokens n p iss client encoders now i random refreshToken grant plan grantType h =
     (let at = ref_accessToken i iss client grant plan grantType now in
      case accessToken_clone n at h of
        None \<Rightarrow> None
      | Some (c, h) \<Rightarrow>
          (case ref_encodeAccessToken n p iss client encoders random (ipFormat (plPlain plan)) c h of
             None \<Rightarrow> None
           | Some (Inl err, h) \<Rightarrow> Some (Inl (errServer err), h)
           | Some (Inr accessToken, h) \<Rightarrow>
               (let pl = plPlain plan;
                    resp = new_response (pl\<lparr>ipScopes := read_strings h (plScopes plan)\<rparr>) accessToken
                             (if ipRefresh pl then refreshToken else []) [];
                    access = expiring (time_Add now (ipAccessLifetime pl))
                      ((ref_derive grant now accessToken TokenKindAccessToken (plScopes plan))
                         \<lparr>rtAudience := plAudience plan, rtAccessTokenClaims := plAccessClaims plan\<rparr>);
                    refresh = expiring (time_Add now (ipRefreshLifetime pl))
                      (ref_derive grant now refreshToken TokenKindRefreshToken (rtScopes grant))
                in Some (Inr (resp, access # (if ipRefresh pl then [refresh] else [])), h))))"

section \<open>What an encoder cannot change\<close>

text \<open>An encoder reaches memory through the pointer it gets, and what it allocates.\<close>

definition confined :: "encoderRef \<Rightarrow> bool" where
  "confined enc \<longleftrightarrow>
     (\<forall>at sign h. \<exists>K. uses gobj_refs h (accessToken_refs at) (snd (enc at sign h)) K)"

lemma ref_accessToken_is:
  assumes "token_is A h grant t" and "plan_is A h plan pl"
  shows "accessToken_is A h (ref_accessToken i iss client grant plan gt now)
           (new_access_token i iss client t pl gt now)"
proof -
  obtain sc am au ac where t: "t = (rtPlain grant)\<lparr>tScopes := sc, tAMR := am, tAudience := au,
      tAccessTokenClaims := ac\<rparr>" and am: "denotes_strings A h (rtAMR grant) am"
    using assms(1) unfolding token_is_def by blast
  obtain ps pa pc where pl: "pl = (plPlain plan)\<lparr>ipScopes := ps, ipAudience := pa, ipAccessClaims := pc\<rparr>"
      and "denotes_strings A h (plScopes plan) ps" "denotes_strings A h (plAudience plan) pa"
        "denotes A h (GMap (plAccessClaims plan)) (JObject pc)"
    using assms(2) unfolding plan_is_def by blast
  with am show ?thesis
    unfolding t pl
    by (simp add: accessToken_is_def accessToken_parts_def ref_accessToken_def new_access_token_def)
qed

text \<open>Only a custom encoder changes the heap.\<close>

lemma encode_heap:
  assumes "ref_encodeAccessToken n p iss client encoders random format c h = Some (answer, h')"
  shows "h' = h \<or> (\<exists>e. encoders format = Some e \<and> h' = snd (e c (access_token_sign p iss client) h))"
proof (cases "encoders format")
  case None
  with assms show ?thesis by (auto simp: ref_encodeAccessToken_def split: if_split_asm)
next
  case (Some e)
  show ?thesis
  proof (cases "format = AccessTokenFormatOpaque \<or> format = AccessTokenFormatJWT")
    case True
    with assms show ?thesis by (auto simp: ref_encodeAccessToken_def)
  next
    case False
    with assms Some show ?thesis
      by (cases "e c (access_token_sign p iss client) h") (auto simp: ref_encodeAccessToken_def)
  qed
qed

text \<open>Encoding what was handed a record in its own part of memory leaves the rest as it was.\<close>

lemma encode_frame:
  assumes enc: "ref_encodeAccessToken n p iss client encoders random format c h = Some (answer, h')"
    and conf: "\<forall>f enc. encoders f = Some enc \<longrightarrow> confined enc"
    and c: "accessToken_is A h c x" and "A \<subseteq> {..<hNext h}" and "heap_ok h"
  shows "\<forall>a < hNext h. a \<notin> A \<longrightarrow> hObj h' a = hObj h a"
proof -
  have "\<exists>K. uses gobj_refs h (accessToken_refs c) h' K"
    using encode_heap [OF enc]
  proof (elim disjE exE conjE)
    assume "h' = h"
    then show ?thesis using uses_start by blast
  next
    fix e assume e: "encoders format = Some e" "h' = snd (e c (access_token_sign p iss client) h)"
    then have "confined e" using conf by blast
    then show ?thesis unfolding e(2) confined_def by blast
  qed
  then obtain K where K: "uses gobj_refs h (accessToken_refs c) h' K" ..
  obtain F where F: "F \<subseteq> A" "(\<Union>p \<in> set (accessToken_parts c x). part_refs p) \<subseteq> F"
      "closed_region gobj_refs h F"
    using parts_footprint [OF c [unfolded accessToken_is_def, THEN conjunct1]] by (elim exE conjE)
  have refs: "accessToken_refs c \<subseteq> F"
    using F(2) by (auto simp: accessToken_refs_def accessToken_parts_def)
  have "F \<subseteq> {..<hNext h}" using F(1) assms(4) by simp
  from uses_region [OF K assms(5) refs F(3) this] have "\<forall>a < hNext h. a \<notin> F \<longrightarrow> hObj h' a = hObj h a"
    by (elim conjE)
  with F(1) show ?thesis by auto
qed

text \<open>For the built-in formats this is the encoding of Grantor_Issue.\<close>

lemma encode_builtin:
  assumes "accessToken_is A h c x" and "size (JObject (xClaims x)) < n"
    and "format = AccessTokenFormatOpaque \<and> log = [EvRand b] \<and> length b = 32 \<or>
         format = AccessTokenFormatJWT \<and> log = []"
  shows "\<exists>answer. ref_encodeAccessToken n p iss client encoders (randomToken_of b) format c h =
       Some (answer, h) \<and>
     performs (encodeAccessToken p iss client format x) log answer"
  using assms(3) read_accessToken_is [OF assms(1,2)]
  by (auto simp: ref_encodeAccessToken_def encodeAccessToken_def performs_bind randomToken_def
      Let_def)

text \<open>The records made of what denotes the plan and the grant.\<close>

lemma derived_records:
  assumes "token_is A h grant t" and "plan_is A h plan pl"
  shows "token_is A h (expiring (time_Add now (ipAccessLifetime (plPlain plan)))
           ((ref_derive grant now v TokenKindAccessToken (plScopes plan))
              \<lparr>rtAudience := plAudience plan, rtAccessTokenClaims := plAccessClaims plan\<rparr>))
           (access_record t now v pl)"
    and "token_is A h (expiring (time_Add now (ipRefreshLifetime (plPlain plan)))
           (ref_derive grant now w TokenKindRefreshToken (rtScopes grant)))
           (refresh_record t now w pl)"
proof -
  obtain sc am au ac where t: "t = (rtPlain grant)\<lparr>tScopes := sc, tAMR := am, tAudience := au,
      tAccessTokenClaims := ac\<rparr>"
      and parts: "denotes_strings A h (rtScopes grant) sc" "denotes_strings A h (rtAMR grant) am"
        "denotes_strings A h (rtAudience grant) au"
    using assms(1) unfolding token_is_def by blast
  obtain ps pa pc where pl: "pl = (plPlain plan)\<lparr>ipScopes := ps, ipAudience := pa, ipAccessClaims := pc\<rparr>"
      and "denotes_strings A h (plScopes plan) ps" "denotes_strings A h (plAudience plan) pa"
        "denotes A h (GMap (plAccessClaims plan)) (JObject pc)"
    using assms(2) unfolding plan_is_def by blast
  with parts show "token_is A h (expiring (time_Add now (ipAccessLifetime (plPlain plan)))
           ((ref_derive grant now v TokenKindAccessToken (plScopes plan))
              \<lparr>rtAudience := plAudience plan, rtAccessTokenClaims := plAccessClaims plan\<rparr>))
           (access_record t now v pl)"
    and "token_is A h (expiring (time_Add now (ipRefreshLifetime (plPlain plan)))
           (ref_derive grant now w TokenKindRefreshToken (rtScopes grant)))
           (refresh_record t now w pl)"
    unfolding t pl
    by (simp_all add: token_is_def expiring_def ref_derive_def access_record_def refresh_record_def
        derive_def)
qed

text \<open>Nothing but an exhausted stack keeps a token from being encoded.\<close>

lemma encode_total:
  assumes "accessToken_is A h c x" and "size (JObject (xClaims x)) < n"
  obtains answer h' where
    "ref_encodeAccessToken n p iss client encoders random format c h = Some (answer, h')"
  using read_accessToken_is [OF assms]
  by (cases "ref_encodeAccessToken n p iss client encoders random format c h")
    (auto simp: ref_encodeAccessToken_def split: if_splits option.splits)

text \<open>C36. What an access token encoder does with the token it gets has no effect on what is stored and
  returned. When tokens are minted, the encoder is handed a copy of the access token, which says what
  the token made of the plan and the grant says. Whatever a custom encoder writes to anything it can
  reach from there, and whatever it allocates, the plan and the grant stay as they were; and if it
  returns a value, the records to store and the response are those of the plan and the grant for that
  value, with the scopes, the audience, the authentication methods and the claims that were granted.
  On a stack deeper than the claims, which are a decoded document, minting returns, and with an error
  only when encoding did.\<close>

theorem encoder_cannot_change_token:
  assumes "heap_ok h" and "token_is {..<hNext h} h grant t" and "plan_is {..<hNext h} h plan pl"
    and "size (JObject (ipAccessClaims pl)) < n"
    and "\<forall>f enc. encoders f = Some enc \<longrightarrow> confined enc"
  shows "\<exists>c h1 answer result h2.
     accessToken_is {hNext h..<hNext h1} h1 c (new_access_token i iss client t pl gt now) \<and>
     ref_encodeAccessToken n p iss client encoders random (ipFormat pl) c h1 = Some (answer, h2) \<and>
     ref_mintTokens n p iss client encoders now i random refreshToken grant plan gt h =
       Some (result, h2) \<and>
     token_is {..<hNext h} h2 grant t \<and> plan_is {..<hNext h} h2 plan pl \<and>
     (case answer of
        Inl err \<Rightarrow> result = Inl (errServer err)
      | Inr accessToken \<Rightarrow>
          \<exists>records. result = Inr (new_response pl accessToken (if ipRefresh pl then refreshToken else []) [],
                               records) \<and>
            list_all2 (token_is {..<hNext h} h2) records
              (access_record t now accessToken pl
               # (if ipRefresh pl then [refresh_record t now refreshToken pl] else [])))"
proof -
  define at where "at = ref_accessToken i iss client grant plan gt now"
  define x where "x = new_access_token i iss client t pl gt now"
  have x: "accessToken_is {..<hNext h} h at x" "size (JObject (xClaims x)) < n"
    using ref_accessToken_is [OF assms(2,3)] assms(4) by (simp_all add: at_def x_def new_access_token_def)
  obtain c h1 where c: "accessToken_clone n at h = Some (c, h1)" "heap_ok h1" "kept h h1"
      "accessToken_is {hNext h..<hNext h1} h1 c x"
    using accessToken_clone_copies [OF assms(1) x] by blast
  obtain answer h2 where enc:
      "ref_encodeAccessToken n p iss client encoders random (ipFormat (plPlain plan)) c h1 = Some (answer, h2)"
    using encode_total [OF c(4) x(2)] .
  have same: "hObj h2 a = hObj h a" if "a \<in> {..<hNext h}" for a
  proof -
    have "{hNext h..<hNext h1} \<subseteq> {..<hNext h1}" by auto
    from encode_frame [OF enc assms(5) c(4) this c(2)] keptD [OF c(3)] that show ?thesis by auto
  qed
  note kept = token_frame [OF assms(2) same] plan_frame [OF assms(3) same]
  obtain ps pa pc where pl: "pl = (plPlain plan)\<lparr>ipScopes := ps, ipAudience := pa, ipAccessClaims := pc\<rparr>"
    and ps: "denotes_strings {..<hNext h} h2 (plScopes plan) ps"
    using kept(2) unfolding plan_is_def by blast
  have resp: "new_response ((plPlain plan)\<lparr>ipScopes := read_strings h2 (plScopes plan)\<rparr>) v w [] =
      new_response pl v w []" for v w
    using read_strings_denotes [OF ps] by (simp add: pl new_response_def)
  have sel: "ipFormat pl = ipFormat (plPlain plan)" "ipRefresh pl = ipRefresh (plPlain plan)"
    by (simp_all add: pl)
  show ?thesis
  proof (cases answer)
    case (Inl err)
    with c(1) enc have "ref_mintTokens n p iss client encoders now i random refreshToken grant plan gt h =
        Some (Inl (errServer err), h2)"
      by (simp add: ref_mintTokens_def at_def)
    then show ?thesis
      by (intro exI [of _ c] exI [of _ h1] exI [of _ answer] exI [of _ "Inl (errServer err)"]
          exI [of _ h2] conjI) (use c(4) enc kept Inl in \<open>simp_all add: x_def sel\<close>)
  next
    case (Inr v)
    define records where "records =
      expiring (time_Add now (ipAccessLifetime (plPlain plan)))
           ((ref_derive grant now v TokenKindAccessToken (plScopes plan))
              \<lparr>rtAudience := plAudience plan, rtAccessTokenClaims := plAccessClaims plan\<rparr>)
      # (if ipRefresh pl
         then [expiring (time_Add now (ipRefreshLifetime (plPlain plan)))
                 (ref_derive grant now refreshToken TokenKindRefreshToken (rtScopes grant))] else [])"
    have "ref_mintTokens n p iss client encoders now i random refreshToken grant plan gt h =
        Some (Inr (new_response pl v (if ipRefresh pl then refreshToken else []) [], records), h2)"
      using c(1) enc Inr
      by (simp add: ref_mintTokens_def at_def Let_def resp records_def sel)
    moreover have "list_all2 (token_is {..<hNext h} h2) records
        (access_record t now v pl # (if ipRefresh pl then [refresh_record t now refreshToken pl] else []))"
      using derived_records [OF kept] by (simp add: records_def)
    ultimately show ?thesis
      by (intro exI [of _ c] exI [of _ h1] exI [of _ answer] exI [of _ "Inr (new_response pl v
            (if ipRefresh pl then refreshToken else []) [], records)"] exI [of _ h2] conjI)
        (use c(4) enc kept Inr in \<open>simp_all add: x_def sel\<close>)
  qed
qed

text \<open>A plan with an audience and a claim, and an encoder that empties both.\<close>

definition mint_heap :: "gobj heap" where
  "mint_heap =
     \<lparr>hObj = [0 \<mapsto> OStrings [''https://api.example''], 1 \<mapsto> OMap [(''tenant'', GScalar (JString ''acme''))]],
      hNext = 2\<rparr>"

definition mint_plan :: issuePlan where
  "mint_plan = sample_plan
     \<lparr>ipScopes := [], ipFormat := ''emptying'', ipAccessClaims := [(''tenant'', JString ''acme'')]\<rparr>"

definition mint_planRef :: planRef where
  "mint_planRef =
     \<lparr>plPlain = mint_plan, plScopes = None, plAudience = Some 0, plAccessClaims = Some 1\<rparr>"

definition mint_grant :: Token where
  "mint_grant = sample_code\<lparr>tScopes := []\<rparr>"

definition mint_grantRef :: tokenRef where
  "mint_grantRef =
     \<lparr>rtPlain = mint_grant, rtScopes = None, rtAMR = None, rtAudience = Some 0, rtAccessTokenClaims = None\<rparr>"

definition emptying :: encoderRef where
  "emptying at sign h =
     (Inr ''v4lue'',
      (case yAudience at of Some a \<Rightarrow> overwrite a (OStrings []) | None \<Rightarrow> id)
        ((case yClaims at of Some m \<Rightarrow> overwrite m (OMap []) | None \<Rightarrow> id) h))"

lemma emptying_confined: "confined emptying"
  unfolding confined_def
proof (intro allI exI)
  fix at sign h
  let ?K = "accessToken_refs at"
  have "uses gobj_refs h ?K ((case yClaims at of Some m \<Rightarrow> overwrite m (OMap []) | None \<Rightarrow> id) h) ?K"
    by (cases "yClaims at") (auto intro: uses.intros simp: accessToken_refs_def)
  then show "uses gobj_refs h ?K (snd (emptying at sign h)) ?K"
    by (cases "yAudience at") (auto intro: uses_write simp: emptying_def accessToken_refs_def)
qed

definition mint_encoders :: "AccessTokenFormat \<Rightarrow> encoderRef option" where
  "mint_encoders = [''emptying'' \<mapsto> emptying]"

theorem encoder_cannot_change_token_witness:
  "\<exists>records h2.
     ref_mintTokens 20 sample_p sample_iss sample_client mint_encoders 2 ''id'' [] ''r3fresh''
       mint_grantRef mint_planRef GrantTypeAuthorizationCode mint_heap =
       Some (Inr (new_response mint_plan ''v4lue'' ''r3fresh'' [], records), h2) \<and>
     hObj h2 0 = Some (OStrings [''https://api.example'']) \<and>
     list_all2 (token_is {..<2} h2) records
       [access_record mint_grant 2 ''v4lue'' mint_plan, refresh_record mint_grant 2 ''r3fresh'' mint_plan]"
proof -
  have h: "heap_ok mint_heap" by (simp add: heap_ok_def mint_heap_def)
  have t: "token_is {..<hNext mint_heap} mint_heap mint_grantRef mint_grant"
    by (simp add: token_is_def denotes_strings_def mint_heap_def mint_grantRef_def mint_grant_def
        sample_code_def token_zero_def)
  have pl: "plan_is {..<hNext mint_heap} mint_heap mint_planRef mint_plan"
    by (simp add: plan_is_def denotes_strings_def mint_heap_def mint_planRef_def mint_plan_def
        sample_plan_def)
  have n: "size (JObject (ipAccessClaims mint_plan)) < 20" by (simp add: mint_plan_def)
  have f: "\<forall>f enc. mint_encoders f = Some enc \<longrightarrow> confined enc"
    using emptying_confined by (simp add: mint_encoders_def)
  have fmt: "ipFormat mint_plan = ''emptying''" "ipRefresh mint_plan" by (simp_all add: mint_plan_def)
  have enc: "ref_encodeAccessToken 20 sample_p sample_iss sample_client mint_encoders [] ''emptying'' c h1 =
      Some (Inr ''v4lue'', snd (emptying c (access_token_sign sample_p sample_iss sample_client) h1))" for c h1
    by (simp add: ref_encodeAccessToken_def mint_encoders_def emptying_def)
  from encoder_cannot_change_token [OF h t pl n f, of "''id''" sample_iss sample_client
      GrantTypeAuthorizationCode 2 sample_p "[]" "''r3fresh''"]
  obtain records h2 where
    "ref_mintTokens 20 sample_p sample_iss sample_client mint_encoders 2 ''id'' [] ''r3fresh''
       mint_grantRef mint_planRef GrantTypeAuthorizationCode mint_heap =
       Some (Inr (new_response mint_plan ''v4lue'' ''r3fresh'' [], records), h2)"
    and "plan_is {..<2} h2 mint_planRef mint_plan"
    and "list_all2 (token_is {..<2} h2) records
       [access_record mint_grant 2 ''v4lue'' mint_plan, refresh_record mint_grant 2 ''r3fresh'' mint_plan]"
    by (auto simp: fmt enc mint_heap_def)
  moreover from this(2) have "hObj h2 0 = Some (OStrings [''https://api.example''])"
    by (simp add: plan_is_def denotes_strings_def mint_planRef_def mint_plan_def sample_plan_def)
  ultimately show ?thesis by blast
qed

end
