(* ===== verification/Grantor_MemoryRefs.thy ===== *)
theory Grantor_MemoryRefs
  imports Go_Heap Grantor_Memory
begin

text \<open>
  memory/memory.go with the pointers it has: the maps of the store hold pointers to records, callers pass
  pointers and are returned pointers, and everything that holds a pointer may write through it. What the
  store does then is what Grantor_Memory says of values, whatever the callers do to the records they
  passed and got.

  A record is an object with the references of its slices, maps and pointers, which are the parts of the
  record; one part is one object, with everything below it.
\<close>

section \<open>Records behind pointers\<close>

datatype rpart =
  RStrings "string list"
| RClaims "ClaimsRequest option"
| RJson json_map
| RMaxAge "duration option"
| RExtra "(string \<times> string) list"

datatype robj =
  RPart rpart
| RToken Token "nat list"
| RRequest AuthorizationRequest "nat list"
| RClient Client "nat list"

fun robj_refs :: "robj \<Rightarrow> nat set" where
  "robj_refs (RPart _) = {}"
| "robj_refs (RToken _ as) = set as"
| "robj_refs (RRequest _ as) = set as"
| "robj_refs (RClient _ as) = set as"

text \<open>How records of a type lie in memory: the object, its parts in the order of its references (the
  scopes first), and the record that the object and its parts are. The fields that are parts are not used
  in the object itself.\<close>

record 'r layout =
  lyMake :: "'r \<Rightarrow> nat list \<Rightarrow> robj"
  lyOpen :: "robj \<Rightarrow> ('r \<times> nat list) option"
  lySplit :: "'r \<Rightarrow> rpart list"
  lyJoin :: "'r \<Rightarrow> rpart list \<Rightarrow> 'r option"

text \<open>Reading a part at the type it has.\<close>

fun as_strings :: "rpart \<Rightarrow> string list" where
  "as_strings (RStrings xs) = xs" | "as_strings _ = []"

fun as_claims :: "rpart \<Rightarrow> ClaimsRequest option" where
  "as_claims (RClaims c) = c" | "as_claims _ = None"

fun as_json :: "rpart \<Rightarrow> json_map" where
  "as_json (RJson m) = m" | "as_json _ = []"

fun as_maxAge :: "rpart \<Rightarrow> duration option" where
  "as_maxAge (RMaxAge d) = d" | "as_maxAge _ = None"

fun as_extra :: "rpart \<Rightarrow> (string \<times> string) list" where
  "as_extra (RExtra m) = m" | "as_extra _ = []"

definition token_join :: "Token \<Rightarrow> rpart list \<Rightarrow> Token option" where
  "token_join t qs =
     (if length qs = 5
      then Some (t\<lparr>tScopes := as_strings (qs ! 0), tAMR := as_strings (qs ! 1), tClaims := as_claims (qs ! 2),
                   tAudience := as_strings (qs ! 3), tAccessTokenClaims := as_json (qs ! 4)\<rparr>)
      else None)"

definition token_layout :: "Token layout" where
  "token_layout =
     \<lparr>lyMake = RToken, lyOpen = (\<lambda>x. case x of RToken t as \<Rightarrow> Some (t, as) | _ \<Rightarrow> None),
      lySplit = (\<lambda>t. [RStrings (tScopes t), RStrings (tAMR t), RClaims (tClaims t),
                      RStrings (tAudience t), RJson (tAccessTokenClaims t)]),
      lyJoin = token_join\<rparr>"

definition request_join :: "AuthorizationRequest \<Rightarrow> rpart list \<Rightarrow> AuthorizationRequest option" where
  "request_join q qs =
     (if length qs = 9
      then Some (q\<lparr>arScopes := as_strings (qs ! 0), arPrompt := as_strings (qs ! 1),
                   arMaxAge := as_maxAge (qs ! 2), arUILocales := as_strings (qs ! 3),
                   arClaimsLocales := as_strings (qs ! 4), arACRValues := as_strings (qs ! 5),
                   arClaims := as_claims (qs ! 6), arAudience := as_strings (qs ! 7),
                   arExtra := as_extra (qs ! 8)\<rparr>)
      else None)"

definition request_layout :: "AuthorizationRequest layout" where
  "request_layout =
     \<lparr>lyMake = RRequest, lyOpen = (\<lambda>x. case x of RRequest q as \<Rightarrow> Some (q, as) | _ \<Rightarrow> None),
      lySplit = (\<lambda>q. [RStrings (arScopes q), RStrings (arPrompt q), RMaxAge (arMaxAge q),
                      RStrings (arUILocales q), RStrings (arClaimsLocales q), RStrings (arACRValues q),
                      RClaims (arClaims q), RStrings (arAudience q), RExtra (arExtra q)]),
      lyJoin = request_join\<rparr>"

definition client_join :: "Client \<Rightarrow> rpart list \<Rightarrow> Client option" where
  "client_join c qs =
     (if length qs = 6
      then Some (c\<lparr>cScopes := as_strings (qs ! 0), cRedirectURIs := as_strings (qs ! 1),
                   cGrantTypes := as_strings (qs ! 2), cAudience := as_strings (qs ! 3),
                   cSecretHash := concat (as_strings (qs ! 4)), cJWKS := concat (as_strings (qs ! 5))\<rparr>)
      else None)"

definition client_layout :: "Client layout" where
  "client_layout =
     \<lparr>lyMake = RClient, lyOpen = (\<lambda>x. case x of RClient c as \<Rightarrow> Some (c, as) | _ \<Rightarrow> None),
      lySplit = (\<lambda>c. [RStrings (cScopes c), RStrings (cRedirectURIs c), RStrings (cGrantTypes c),
                      RStrings (cAudience c), RStrings [cSecretHash c], RStrings [cJWKS c]]),
      lyJoin = client_join\<rparr>"

definition part_at :: "robj heap \<Rightarrow> nat \<Rightarrow> rpart option" where
  "part_at h a = (case hObj h a of Some (RPart q) \<Rightarrow> Some q | _ \<Rightarrow> None)"

definition read_record :: "'r layout \<Rightarrow> robj heap \<Rightarrow> nat \<Rightarrow> 'r option" where
  "read_record ly h p =
     (case hObj h p of
        None \<Rightarrow> None
      | Some x \<Rightarrow>
          (case lyOpen ly x of
             None \<Rightarrow> None
           | Some (v, as) \<Rightarrow>
               (case those (map (part_at h) as) of None \<Rightarrow> None | Some qs \<Rightarrow> lyJoin ly v qs)))"

fun alloc_parts :: "rpart list \<Rightarrow> robj heap \<Rightarrow> nat list \<times> robj heap" where
  "alloc_parts [] h = ([], h)"
| "alloc_parts (q # qs) h =
     (let (a, h) = alloc (RPart q) h; (as, h) = alloc_parts qs h in (a # as, h))"

definition new_record :: "'r layout \<Rightarrow> 'r \<Rightarrow> robj heap \<Rightarrow> nat \<times> robj heap" where
  "new_record ly v h = (let (as, h) = alloc_parts (lySplit ly v) h in alloc (lyMake ly v as) h)"

text \<open>\<^verbatim>\<open>clone\<close>: a new record, of what the JSON encoding of the old one decodes to. The pointers are
  never nil, of which reading a record is \<open>None\<close>.\<close>

definition clone_ref :: "'r layout \<Rightarrow> ('r \<Rightarrow> 'r) \<Rightarrow> nat \<Rightarrow> robj heap \<Rightarrow> nat \<times> robj heap" where
  "clone_ref ly f p h = new_record ly (f (the (read_record ly h p))) h"

section \<open>The laws of a layout\<close>

definition footprint_of :: "robj heap \<Rightarrow> nat \<Rightarrow> nat set" where
  "footprint_of h p = insert p (case hObj h p of None \<Rightarrow> {} | Some x \<Rightarrow> robj_refs x)"

lemma read_cong:
  assumes "\<And>a. a \<in> footprint_of h p \<Longrightarrow> hObj h' a = hObj h a"
    and "\<And>x v as. lyOpen ly x = Some (v, as) \<Longrightarrow> robj_refs x = set as"
  shows "read_record ly h' p = read_record ly h p" and "footprint_of h' p = footprint_of h p"
proof -
  have p: "hObj h' p = hObj h p" using assms(1) by (simp add: footprint_of_def)
  then show "footprint_of h' p = footprint_of h p" by (simp add: footprint_of_def)
  have parts: "map (part_at h') as = map (part_at h) as" if "hObj h p = Some x" "lyOpen ly x = Some (v, as)"
    for x v as
    using that assms by (auto simp: footprint_of_def part_at_def)
  show "read_record ly h' p = read_record ly h p"
  proof (cases "hObj h p")
    case (Some x)
    show ?thesis
    proof (cases "lyOpen ly x")
      case (Some va)
      then obtain v as where va: "lyOpen ly x = Some (v, as)" by (cases va) simp
      show ?thesis
        unfolding read_record_def p \<open>hObj h p = Some x\<close> va option.case prod.case
          parts [OF \<open>hObj h p = Some x\<close> va] ..
    qed (simp add: read_record_def p Some)
  qed (simp add: read_record_def p)
qed

locale record_layout =
  fixes ly :: "'r layout"
  assumes open_make: "lyOpen ly (lyMake ly v as) = Some (v, as)"
    and open_refs: "lyOpen ly x = Some (v, as) \<Longrightarrow> robj_refs x = set as"
    and join_split: "lyJoin ly v (lySplit ly v) = Some v"
begin

lemma read_frame:
  assumes "\<And>a. a \<in> footprint_of h p \<Longrightarrow> hObj h' a = hObj h a"
  shows "read_record ly h' p = read_record ly h p" and "footprint_of h' p = footprint_of h p"
  using read_cong [of h p h' ly] assms open_refs by blast+

lemma alloc_parts_facts:
  "alloc_parts qs h = (as, h') \<Longrightarrow> heap_ok h \<Longrightarrow>
     heap_ok h' \<and> kept h h' \<and> set as \<subseteq> {hNext h..<hNext h'} \<and> those (map (part_at h') as) = Some qs \<and>
     (\<forall>a \<in> set as. \<exists>q. hObj h' a = Some (RPart q))"
proof (induction qs arbitrary: h as)
  case (Cons q qs)
  obtain a h1 where one: "alloc (RPart q) h = (a, h1)" by fastforce
  obtain as1 where rest: "alloc_parts qs h1 = (as1, h')" and as: "as = a # as1"
    using Cons.prems(1) one by (auto split: prod.splits)
  note a = alloc_facts [OF one]
  have r: "heap_ok h'" "kept h1 h'" "set as1 \<subseteq> {hNext h1..<hNext h'}" "those (map (part_at h') as1) = Some qs"
      "\<forall>a \<in> set as1. \<exists>q. hObj h' a = Some (RPart q)"
    using Cons.IH [OF rest a(5) [OF Cons.prems(2)]] by blast+
  have "hObj h' a = Some (RPart q)" using r(2) a(1-3) by (simp add: kept_def)
  then have "part_at h' a = Some q" by (simp add: part_at_def)
  then show ?case
    using \<open>hObj h' a = Some (RPart q)\<close> r a(1,2) kept_trans [OF a(4) r(2)] keptD(2) [OF r(2)]
    by (auto simp: as)
qed simp

lemma new_record_facts:
  assumes "new_record ly v h = (p, h')" and "heap_ok h"
  shows "heap_ok h'" and "kept h h'" and "read_record ly h' p = Some v"
    and "footprint_of h' p \<subseteq> {hNext h..<hNext h'}" and "closed_region robj_refs h' (footprint_of h' p)"
    and "hNext h \<le> p"
proof -
  obtain as h1 where parts: "alloc_parts (lySplit ly v) h = (as, h1)"
    and new: "alloc (lyMake ly v as) h1 = (p, h')"
    using assms(1) by (auto simp: new_record_def split: prod.splits)
  have h1: "heap_ok h1" "kept h h1" "set as \<subseteq> {hNext h..<hNext h1}"
      "those (map (part_at h1) as) = Some (lySplit ly v)" "\<forall>a \<in> set as. \<exists>q. hObj h1 a = Some (RPart q)"
    using alloc_parts_facts [OF parts assms(2)] by blast+
  note p = alloc_facts [OF new]
  show "heap_ok h'" using p(5) h1(1) by blast
  show "kept h h'" using kept_trans [OF h1(2) p(4)] .
  show "hNext h \<le> p" using p(1) keptD(2) [OF h1(2)] by simp
  have refs: "robj_refs (lyMake ly v as) = set as" using open_refs [OF open_make] .
  have same: "hObj h' a = hObj h1 a" if "a \<in> set as" for a
    using that h1(3) p(1,3) by auto
  then have "map (part_at h') as = map (part_at h1) as" by (simp add: part_at_def)
  then show "read_record ly h' p = Some v"
    using p(1,3) h1(4) by (simp add: read_record_def open_make join_split del: map_eq_conv)
  have fp: "footprint_of h' p = insert p (set as)"
    using p(1,3) refs by (simp add: footprint_of_def)
  show "footprint_of h' p \<subseteq> {hNext h..<hNext h'}"
    unfolding fp using h1(3) p(1,2) keptD(2) [OF h1(2)] by auto
  show "closed_region robj_refs h' (footprint_of h' p)"
    unfolding closed_region_def fp
  proof (intro ballI allI impI)
    fix a x assume a: "a \<in> insert p (set as)" "hObj h' a = Some x"
    show "robj_refs x \<subseteq> insert p (set as)"
    proof (cases "a = p")
      case True
      then show ?thesis using a(2) p(1,3) refs by auto
    next
      case False
      then obtain q where "hObj h1 a = Some (RPart q)" using a(1) h1(5) by auto
      then show ?thesis using a same False by auto
    qed
  qed
qed

text \<open>Any code can build a record.\<close>

lemma alloc_parts_uses:
  "alloc_parts qs h = (as, h') \<Longrightarrow> uses robj_refs h K h' (K \<union> set as)"
proof (induction qs arbitrary: h as K)
  case (Cons q qs)
  obtain a h1 where one: "alloc (RPart q) h = (a, h1)" by fastforce
  obtain as1 where rest: "alloc_parts qs h1 = (as1, h')" and as: "as = a # as1"
    using Cons.prems(1) one by (auto split: prod.splits)
  have "uses robj_refs h K h1 (insert a K)" using uses_alloc [OF uses_start _ one] by simp
  from uses_trans [OF Cons.IH [OF rest] this] show ?case by (simp add: as insert_commute)
qed (simp add: uses_start)

lemma new_record_uses:
  assumes "new_record ly v h = (p, h')"
  shows "uses robj_refs h K h' (K \<union> footprint_of h' p)"
proof -
  obtain as h1 where parts: "alloc_parts (lySplit ly v) h = (as, h1)"
    and new: "alloc (lyMake ly v as) h1 = (p, h')"
    using assms(1) by (auto simp: new_record_def split: prod.splits)
  have refs: "robj_refs (lyMake ly v as) = set as" using open_refs [OF open_make] .
  have "uses robj_refs h K h' (insert p (K \<union> set as))"
    using uses_alloc [OF alloc_parts_uses [OF parts] _ new] refs by simp
  moreover have "footprint_of h' p = insert p (set as)"
    using alloc_facts(1,3) [OF new] refs by (simp add: footprint_of_def)
  ultimately show ?thesis by simp
qed

end

interpretation token_record: record_layout token_layout
  by unfold_locales (auto simp: token_layout_def token_join_def split: robj.splits)

interpretation request_record: record_layout request_layout
  by unfold_locales (auto simp: request_layout_def request_join_def split: robj.splits)

interpretation client_record: record_layout client_layout
  by unfold_locales (auto simp: client_layout_def client_join_def split: robj.splits)

section \<open>The store of pointers\<close>

text \<open>The clock and the random source are those of a \<open>world\<close>, whose store is not used.\<close>

record refworld =
  rwHeap :: "robj heap"
  rwClients :: "(string \<times> string) \<Rightarrow> nat option"
  rwRequests :: "string \<Rightarrow> nat option"
  rwTokens :: "string \<Rightarrow> nat option"
  rwClaims :: "string \<Rightarrow> time option"
  rwLastCollection :: time
  rwEnv :: world

abbreviation token_read :: "refworld \<Rightarrow> nat \<Rightarrow> Token" where
  "token_read rw p \<equiv> the (read_record token_layout (rwHeap rw) p)"

abbreviation request_read :: "refworld \<Rightarrow> nat \<Rightarrow> AuthorizationRequest" where
  "request_read rw p \<equiv> the (read_record request_layout (rwHeap rw) p)"

definition ref_collectLocked :: "refworld \<Rightarrow> refworld" where
  "ref_collectLocked rw =
     (let now = wNow (rwEnv rw) in
      if time_Sub now (rwLastCollection rw) < minute then rw
      else rw\<lparr>rwLastCollection := now,
              rwRequests := drop_expired now (\<lambda>p. arExpiresAt (request_read rw p)) (rwRequests rw),
              rwTokens := drop_expired now (\<lambda>p. tExpiresAt (token_read rw p)) (rwTokens rw),
              rwClaims := drop_expired now id (rwClaims rw)\<rparr>)"

definition ref_cloned :: "'r layout \<Rightarrow> ('r \<Rightarrow> 'r) \<Rightarrow> nat \<Rightarrow> refworld \<Rightarrow> nat \<times> refworld" where
  "ref_cloned ly f p rw = (let (q, h) = clone_ref ly f p (rwHeap rw) in (q, rw\<lparr>rwHeap := h\<rparr>))"

definition ref_New :: "world \<Rightarrow> refworld" where
  "ref_New env =
     \<lparr>rwHeap = \<lparr>hObj = Map.empty, hNext = 0\<rparr>, rwClients = Map.empty, rwRequests = Map.empty,
      rwTokens = Map.empty, rwClaims = Map.empty, rwLastCollection = 0, rwEnv = env\<rparr>"

text \<open>The parameter of \<^verbatim>\<open>SetClient\<close> is a copy of the caller's struct, at \<open>p\<close>, with the caller's slices.\<close>

definition ref_SetClient :: "string \<Rightarrow> nat \<Rightarrow> refworld \<Rightarrow> refworld" where
  "ref_SetClient issuer p rw =
     (let i = cID (the (read_record client_layout (rwHeap rw) p));
          (q, rw) = ref_cloned client_layout clone_client p rw
      in rw\<lparr>rwClients := (rwClients rw)((issuer, i) \<mapsto> q)\<rparr>)"

definition ref_Client :: "string \<Rightarrow> string \<Rightarrow> refworld \<Rightarrow> (goerr + nat) \<times> refworld" where
  "ref_Client issuer clientID rw =
     (case rwClients rw (issuer, clientID) of
        None \<Rightarrow> (Inl ErrNotFound, rw)
      | Some p \<Rightarrow> (let (q, rw) = ref_cloned client_layout clone_client p rw in (Inr q, rw)))"

definition ref_CreateAuthorizationRequest :: "nat \<Rightarrow> refworld \<Rightarrow> goerr option \<times> refworld" where
  "ref_CreateAuthorizationRequest p rw =
     (let rw = ref_collectLocked rw; i = arID (request_read rw p) in
      case rwRequests rw i of
        Some _ \<Rightarrow> (Some ErrConflict, rw)
      | None \<Rightarrow>
          (let (q, rw) = ref_cloned request_layout clone_request p rw
           in (None, rw\<lparr>rwRequests := (rwRequests rw)(i \<mapsto> q)\<rparr>)))"

definition ref_AuthorizationRequest :: "string \<Rightarrow> refworld \<Rightarrow> (goerr + nat) \<times> refworld" where
  "ref_AuthorizationRequest i rw =
     (case rwRequests rw i of
        None \<Rightarrow> (Inl ErrNotFound, rw)
      | Some p \<Rightarrow> (let (q, rw) = ref_cloned request_layout clone_request p rw in (Inr q, rw)))"

definition ref_DeleteAuthorizationRequest :: "string \<Rightarrow> refworld \<Rightarrow> goerr option \<times> refworld" where
  "ref_DeleteAuthorizationRequest i rw =
     (case rwRequests rw i of
        None \<Rightarrow> (Some ErrNotFound, rw)
      | Some _ \<Rightarrow> (None, rw\<lparr>rwRequests := (rwRequests rw)(i := None)\<rparr>))"

definition ref_CreateToken :: "nat \<Rightarrow> refworld \<Rightarrow> goerr option \<times> refworld" where
  "ref_CreateToken p rw =
     (let rw = ref_collectLocked rw; hash = tHash (token_read rw p) in
      case rwTokens rw hash of
        Some _ \<Rightarrow> (Some ErrConflict, rw)
      | None \<Rightarrow>
          (let (q, rw) = ref_cloned token_layout clone_token p rw
           in (None, rw\<lparr>rwTokens := (rwTokens rw)(hash \<mapsto> q)\<rparr>)))"

definition ref_Token :: "string \<Rightarrow> refworld \<Rightarrow> (goerr + nat) \<times> refworld" where
  "ref_Token hash rw =
     (case rwTokens rw hash of
        None \<Rightarrow> (Inl ErrNotFound, rw)
      | Some p \<Rightarrow> (let (q, rw) = ref_cloned token_layout clone_token p rw in (Inr q, rw)))"

text \<open>The assignment \<^verbatim>\<open>t.ConsumedAt = now\<close>, to the object behind the pointer.\<close>

definition set_ConsumedAt :: "nat \<Rightarrow> time \<Rightarrow> robj heap \<Rightarrow> robj heap" where
  "set_ConsumedAt p now h =
     (case hObj h p of Some (RToken t as) \<Rightarrow> overwrite p (RToken (t\<lparr>tConsumedAt := now\<rparr>) as) h | _ \<Rightarrow> h)"

definition ref_ConsumeToken :: "string \<Rightarrow> time \<Rightarrow> refworld \<Rightarrow> (goerr + nat) \<times> refworld" where
  "ref_ConsumeToken hash now rw =
     (case rwTokens rw hash of
        None \<Rightarrow> (Inl ErrNotFound, rw)
      | Some p \<Rightarrow>
          (let (before, rw) = ref_cloned token_layout clone_token p rw
           in (Inr before,
               if time_IsZero (tConsumedAt (token_read rw p))
               then rw\<lparr>rwHeap := set_ConsumedAt p now (rwHeap rw)\<rparr> else rw)))"

definition ref_RevokeToken :: "string \<Rightarrow> refworld \<Rightarrow> goerr option \<times> refworld" where
  "ref_RevokeToken hash rw = (None, rw\<lparr>rwTokens := (rwTokens rw)(hash := None)\<rparr>)"

definition ref_RevokeGrant :: "string \<Rightarrow> refworld \<Rightarrow> goerr option \<times> refworld" where
  "ref_RevokeGrant grantID rw =
     (None,
      rw\<lparr>rwTokens := (\<lambda>hash. case rwTokens rw hash of
                            None \<Rightarrow> None
                          | Some p \<Rightarrow> if tGrantID (token_read rw p) = grantID then None else Some p)\<rparr>)"

definition ref_ClaimOnce :: "string \<Rightarrow> time \<Rightarrow> refworld \<Rightarrow> goerr option \<times> refworld" where
  "ref_ClaimOnce key expiresAt rw =
     (let rw = ref_collectLocked rw in
      if (case rwClaims rw key of None \<Rightarrow> False | Some exp \<Rightarrow> time_Before (wNow (rwEnv rw)) exp)
      then (Some ErrConflict, rw)
      else (None, rw\<lparr>rwClaims := (rwClaims rw)(key \<mapsto> expiresAt)\<rparr>))"

section \<open>The values the store holds\<close>

definition table_view :: "'r layout \<Rightarrow> robj heap \<Rightarrow> ('k \<Rightarrow> nat option) \<Rightarrow> 'k \<Rightarrow> 'r option" where
  "table_view ly h m = (\<lambda>k. case m k of None \<Rightarrow> None | Some p \<Rightarrow> read_record ly h p)"

definition value_world :: "refworld \<Rightarrow> world" where
  "value_world rw = (rwEnv rw)\<lparr>wStore :=
     \<lparr>msClients = table_view client_layout (rwHeap rw) (rwClients rw),
      msRequests = table_view request_layout (rwHeap rw) (rwRequests rw),
      msTokens = table_view token_layout (rwHeap rw) (rwTokens rw),
      msClaims = rwClaims rw, msLastCollection = rwLastCollection rw\<rparr>\<rparr>"

text \<open>A table points to records, at addresses of \<open>S\<close>.\<close>

definition table_ok :: "'r layout \<Rightarrow> robj heap \<Rightarrow> nat set \<Rightarrow> ('k \<Rightarrow> nat option) \<Rightarrow> bool" where
  "table_ok ly h S m \<longleftrightarrow>
     (\<forall>k p. m k = Some p \<longrightarrow> (\<exists>v. read_record ly h p = Some v) \<and> footprint_of h p \<subseteq> S)"

lemma table_okD:
  "table_ok ly h S m \<Longrightarrow> m k = Some p \<Longrightarrow> read_record ly h p = Some (the (read_record ly h p)) \<and> footprint_of h p \<subseteq> S"
  unfolding table_ok_def by fastforce

lemma table_ok_sub: "table_ok ly h S m \<Longrightarrow> (\<And>k p. m' k = Some p \<Longrightarrow> m k = Some p) \<Longrightarrow> table_ok ly h S m'"
  unfolding table_ok_def by blast

context record_layout
begin

lemma table_frame:
  assumes "table_ok ly h S m" and "\<And>a. a \<in> S \<Longrightarrow> hObj h' a = hObj h a" and "S \<subseteq> S'"
  shows "table_ok ly h' S' m" and "table_view ly h' m = table_view ly h m"
proof -
  have same: "read_record ly h' p = read_record ly h p \<and> footprint_of h' p = footprint_of h p \<and>
      footprint_of h p \<subseteq> S \<and> (\<exists>v. read_record ly h p = Some v)" if "m k = Some p" for k p
    using that assms(1,2) read_frame [of h p h'] unfolding table_ok_def by blast
  then show "table_ok ly h' S' m" using assms(3) unfolding table_ok_def by force
  show "table_view ly h' m = table_view ly h m"
    using same by (auto simp: table_view_def fun_eq_iff split: option.split)
qed

lemma view_Some:
  "table_ok ly h S m \<Longrightarrow> m k = Some p \<Longrightarrow> table_view ly h m k = Some (the (read_record ly h p))"
  using table_okD [of ly h S m k p] by (simp add: table_view_def)

lemma view_None: "m k = None \<Longrightarrow> table_view ly h m k = None"
  by (simp add: table_view_def)

lemma view_drop_expired:
  assumes "table_ok ly h S m"
  shows "table_view ly h (drop_expired now (\<lambda>p. exp (the (read_record ly h p))) m) =
     drop_expired now exp (table_view ly h m)"
  using table_okD [OF assms] by (fastforce simp: table_view_def drop_expired_def fun_eq_iff split: option.split)

lemma view_upd:
  "table_view ly h (m(k := None)) = (table_view ly h m)(k := None)"
  "read_record ly h p = Some v \<Longrightarrow> table_view ly h (m(k \<mapsto> p)) = (table_view ly h m)(k \<mapsto> v)"
  by (auto simp: table_view_def)

lemma table_ok_upd:
  "table_ok ly h S m \<Longrightarrow> read_record ly h p = Some v \<Longrightarrow> footprint_of h p \<subseteq> S \<Longrightarrow> table_ok ly h S (m(k \<mapsto> p))"
  by (auto simp: table_ok_def)

end

section \<open>The store and its callers share nothing\<close>

text \<open>\<open>F\<close> is what the callers can reach: no record of the store.\<close>

definition separated :: "nat set \<Rightarrow> refworld \<Rightarrow> bool" where
  "separated F rw \<longleftrightarrow>
     (let h = rwHeap rw; S = {..<hNext h} - F in
      heap_ok h \<and> F \<subseteq> {..<hNext h} \<and> closed_region robj_refs h F \<and>
      table_ok client_layout h S (rwClients rw) \<and> table_ok request_layout h S (rwRequests rw) \<and>
      table_ok token_layout h S (rwTokens rw) \<and>
      (\<forall>j k p. rwTokens rw j = Some p \<longrightarrow> rwTokens rw k = Some p \<longrightarrow> j = k))"

lemma separatedD:
  assumes "separated F rw"
  shows "heap_ok (rwHeap rw)" and "F \<subseteq> {..<hNext (rwHeap rw)}" and "closed_region robj_refs (rwHeap rw) F"
    and "table_ok client_layout (rwHeap rw) ({..<hNext (rwHeap rw)} - F) (rwClients rw)"
    and "table_ok request_layout (rwHeap rw) ({..<hNext (rwHeap rw)} - F) (rwRequests rw)"
    and "table_ok token_layout (rwHeap rw) ({..<hNext (rwHeap rw)} - F) (rwTokens rw)"
    and "rwTokens rw j = Some p \<Longrightarrow> rwTokens rw k = Some p \<Longrightarrow> j = k"
  using assms unfolding separated_def Let_def by blast+

lemma separated_heap:
  assumes "separated F rw" and "heap_ok h" and "hNext (rwHeap rw) \<le> hNext h"
    and "\<And>a. a \<in> {..<hNext (rwHeap rw)} - F \<Longrightarrow> hObj h a = hObj (rwHeap rw) a"
    and "F' \<subseteq> {..<hNext h}" and "F' \<inter> ({..<hNext (rwHeap rw)} - F) = {}" and "closed_region robj_refs h F'"
  shows "separated F' (rw\<lparr>rwHeap := h\<rparr>)" and "value_world (rw\<lparr>rwHeap := h\<rparr>) = value_world rw"
proof -
  have sub: "{..<hNext (rwHeap rw)} - F \<subseteq> {..<hNext h} - F'" using assms(3,6) by auto
  note D = separatedD [OF assms(1)]
  note c = client_record.table_frame [OF D(4) assms(4) sub]
  note r = request_record.table_frame [OF D(5) assms(4) sub]
  note t = token_record.table_frame [OF D(6) assms(4) sub]
  show "separated F' (rw\<lparr>rwHeap := h\<rparr>)"
    using c(1) r(1) t(1) assms(2,5,7) D(7) unfolding separated_def Let_def by simp
  show "value_world (rw\<lparr>rwHeap := h\<rparr>) = value_world rw"
    using c(2) r(2) t(2) by (simp add: value_world_def)
qed

lemma separated_sub:
  assumes "separated F rw" and "rwHeap rw' = rwHeap rw" and "rwClients rw' = rwClients rw"
    and "\<And>k p. rwRequests rw' k = Some p \<Longrightarrow> rwRequests rw k = Some p"
    and "\<And>k p. rwTokens rw' k = Some p \<Longrightarrow> rwTokens rw k = Some p"
  shows "separated F rw'"
proof -
  note D = separatedD [OF assms(1)]
  have "table_ok request_layout (rwHeap rw) ({..<hNext (rwHeap rw)} - F) (rwRequests rw')"
    "table_ok token_layout (rwHeap rw) ({..<hNext (rwHeap rw)} - F) (rwTokens rw')"
    by (rule table_ok_sub [OF D(5) assms(4)], assumption) (rule table_ok_sub [OF D(6) assms(5)], assumption)
  moreover have "j = k" if "rwTokens rw' j = Some p" "rwTokens rw' k = Some p" for j k p
    using D(7) assms(5) that by blast
  ultimately show ?thesis using D(1-4) assms(2,3) unfolding separated_def Let_def by simp
qed

text \<open>A clone, for the store to keep or for a caller to get.\<close>

lemma separated_clone:
  assumes "separated F rw" and "record_layout ly" and "clone_ref ly f p (rwHeap rw) = (q, h)"
  shows "separated F (rw\<lparr>rwHeap := h\<rparr>)" and "separated (F \<union> footprint_of h q) (rw\<lparr>rwHeap := h\<rparr>)"
    and "value_world (rw\<lparr>rwHeap := h\<rparr>) = value_world rw"
    and "read_record ly h q = Some (f (the (read_record ly (rwHeap rw) p)))"
    and "footprint_of h q \<subseteq> {..<hNext h} - F" and "hNext (rwHeap rw) \<le> q" and "kept (rwHeap rw) h"
proof -
  note D = separatedD [OF assms(1)]
  note new = record_layout.new_record_facts [OF assms(2) assms(3) [unfolded clone_ref_def] D(1)]
  have same: "hObj h a = hObj (rwHeap rw) a" if "a \<in> {..<hNext (rwHeap rw)} - F" for a
    using that new(2) by (simp add: kept_def)
  have F: "closed_region robj_refs h F"
    by (rule closed_region_cong [OF D(3)]) (use D(2) new(2) in \<open>auto simp: kept_def\<close>)
  have "F \<subseteq> {..<hNext h}" using D(2) keptD(2) [OF new(2)] by auto
  then show "separated F (rw\<lparr>rwHeap := h\<rparr>)" "value_world (rw\<lparr>rwHeap := h\<rparr>) = value_world rw"
    using separated_heap [OF assms(1) new(1) keptD(2) [OF new(2)] same _ _ F] by auto
  show "separated (F \<union> footprint_of h q) (rw\<lparr>rwHeap := h\<rparr>)"
    by (rule separated_heap(1) [OF assms(1) new(1) _ same _ _ closed_region_Un [OF F new(5)]])
      (use D(2) new(4) keptD(2) [OF new(2)] in auto)
  show "footprint_of h q \<subseteq> {..<hNext h} - F"
  proof
    fix a assume "a \<in> footprint_of h q"
    then have "hNext (rwHeap rw) \<le> a" "a < hNext h" using new(4) by auto
    then show "a \<in> {..<hNext h} - F" using D(2) by auto
  qed
qed (use record_layout.new_record_facts [OF assms(2) assms(3) [unfolded clone_ref_def] separatedD(1) [OF assms(1)]]
      in simp_all)

lemma collect_sel [simp]:
  "rwHeap (ref_collectLocked rw) = rwHeap rw" "rwEnv (ref_collectLocked rw) = rwEnv rw"
  "rwClients (ref_collectLocked rw) = rwClients rw"
  by (simp_all add: ref_collectLocked_def Let_def)

lemma drop_expired_sub: "drop_expired now exp m k = Some p \<Longrightarrow> m k = Some p"
  by (auto simp: drop_expired_def split: option.split_asm if_split_asm)

lemma separated_collect:
  assumes "separated F rw"
  shows "separated F (ref_collectLocked rw)"
    and "value_world (ref_collectLocked rw) = (value_world rw)\<lparr>wStore :=
           store_collectLocked (wNow (rwEnv rw)) (wStore (value_world rw))\<rparr>"
proof -
  note D = separatedD [OF assms]
  have sub: "rwTokens (ref_collectLocked rw) k = Some p \<Longrightarrow> rwTokens rw k = Some p"
    "rwRequests (ref_collectLocked rw) k = Some p \<Longrightarrow> rwRequests rw k = Some p" for k p
    by (auto simp: ref_collectLocked_def Let_def dest: drop_expired_sub split: if_split_asm)
  show "separated F (ref_collectLocked rw)"
    by (rule separated_sub [OF assms]) (simp_all add: sub)
  show "value_world (ref_collectLocked rw) = (value_world rw)\<lparr>wStore :=
      store_collectLocked (wNow (rwEnv rw)) (wStore (value_world rw))\<rparr>"
    using request_record.view_drop_expired [OF D(5)] token_record.view_drop_expired [OF D(6)]
    by (simp add: value_world_def ref_collectLocked_def store_collectLocked_def Let_def)
qed

lemma value_world_sel [simp]:
  "wNow (value_world rw) = wNow (rwEnv rw)" "wTicks (value_world rw) = wTicks (rwEnv rw)"
  "wRandom (value_world rw) = wRandom (rwEnv rw)"
  "msClients (wStore (value_world rw)) = table_view client_layout (rwHeap rw) (rwClients rw)"
  "msRequests (wStore (value_world rw)) = table_view request_layout (rwHeap rw) (rwRequests rw)"
  "msTokens (wStore (value_world rw)) = table_view token_layout (rwHeap rw) (rwTokens rw)"
  "msClaims (wStore (value_world rw)) = rwClaims rw"
  by (simp_all add: value_world_def)

section \<open>Calls\<close>

text \<open>What a caller reads behind a pointer it is returned, and the pointer.\<close>

fun answer_read :: "'r layout \<Rightarrow> refworld \<Rightarrow> goerr + nat \<Rightarrow> goerr + 'r" where
  "answer_read ly rw (Inl e) = Inl e"
| "answer_read ly rw (Inr p) = Inr (the (read_record ly (rwHeap rw) p))"

fun answer_pointer :: "goerr + nat \<Rightarrow> nat set" where
  "answer_pointer (Inl e) = {}"
| "answer_pointer (Inr p) = {p}"

text \<open>A call of a caller that knows the addresses \<open>K\<close>, as the event with the values that are behind the
  pointers when the call is made and when it returns.\<close>

inductive ref_call :: "nat set \<Rightarrow> refworld \<Rightarrow> event \<Rightarrow> refworld \<Rightarrow> nat set \<Rightarrow> bool" for K rw where
  call_create_request:
    "\<lbrakk> p \<in> K; read_record request_layout (rwHeap rw) p = Some q;
       ref_CreateAuthorizationRequest p rw = (r, rw') \<rbrakk> \<Longrightarrow> ref_call K rw (EvCreateRequest q r) rw' K"
| call_load_request:
    "ref_AuthorizationRequest i rw = (x, rw') \<Longrightarrow>
     ref_call K rw (EvLoadRequest i (answer_read request_layout rw' x)) rw' (K \<union> answer_pointer x)"
| call_delete_request:
    "ref_DeleteAuthorizationRequest i rw = (r, rw') \<Longrightarrow> ref_call K rw (EvDeleteRequest i r) rw' K"
| call_create_token:
    "\<lbrakk> p \<in> K; read_record token_layout (rwHeap rw) p = Some t; ref_CreateToken p rw = (r, rw') \<rbrakk> \<Longrightarrow>
     ref_call K rw (EvCreateToken t r) rw' K"
| call_load_token:
    "ref_Token hash rw = (x, rw') \<Longrightarrow>
     ref_call K rw (EvLoadToken hash (answer_read token_layout rw' x)) rw' (K \<union> answer_pointer x)"
| call_consume_token:
    "ref_ConsumeToken hash at rw = (x, rw') \<Longrightarrow>
     ref_call K rw (EvConsumeToken hash at (answer_read token_layout rw' x)) rw' (K \<union> answer_pointer x)"
| call_revoke_token: "ref_RevokeToken hash rw = (r, rw') \<Longrightarrow> ref_call K rw (EvRevokeToken hash r) rw' K"
| call_revoke_grant: "ref_RevokeGrant g rw = (r, rw') \<Longrightarrow> ref_call K rw (EvRevokeGrant g r) rw' K"
| call_claim_once: "ref_ClaimOnce k e rw = (r, rw') \<Longrightarrow> ref_call K rw (EvClaimOnce k e r) rw' K"
| call_client:
    "ref_Client iss i rw = (x, rw') \<Longrightarrow>
     ref_call K rw (EvClient iss i (map_sum id Some (answer_read client_layout rw' x))) rw'
       (K \<union> answer_pointer x)"
| call_now: "world_now (rwEnv rw) = (t, env) \<Longrightarrow> ref_call K rw (EvNow t) (rw\<lparr>rwEnv := env\<rparr>) K"
| call_rand: "world_rand (rwEnv rw) = (b, env) \<Longrightarrow> ref_call K rw (EvRand b) (rw\<lparr>rwEnv := env\<rparr>) K"

text \<open>A call does to the values what the operation on values does.\<close>

definition refines :: "nat set \<Rightarrow> refworld \<Rightarrow> event \<Rightarrow> refworld \<Rightarrow> nat set \<Rightarrow> bool" where
  "refines F rw ev rw' K' \<longleftrightarrow>
     serve mem ev (value_world rw) = Some (value_world rw') \<and> (\<exists>F'. F \<union> K' \<subseteq> F' \<and> separated F' rw')"

lemma refinesI:
  "serve mem ev (value_world rw) = Some (value_world rw') \<Longrightarrow> separated F' rw' \<Longrightarrow> F \<union> K' \<subseteq> F' \<Longrightarrow>
     refines F rw ev rw' K'"
  unfolding refines_def by blast

lemma separated_env: "separated F (rw\<lparr>rwEnv := env\<rparr>) \<longleftrightarrow> separated F rw" "separated F (rw\<lparr>rwClaims := c\<rparr>) \<longleftrightarrow> separated F rw"
  by (simp_all add: separated_def)

lemma refines_sub:
  assumes "separated F rw" and "serve mem ev (value_world rw) = Some (value_world rw')"
    and "rwHeap rw' = rwHeap rw" and "rwClients rw' = rwClients rw"
    and "\<And>k p. rwRequests rw' k = Some p \<Longrightarrow> rwRequests rw k = Some p"
    and "\<And>k p. rwTokens rw' k = Some p \<Longrightarrow> rwTokens rw k = Some p" and "K \<subseteq> F"
  shows "refines F rw ev rw' K"
  by (rule refinesI [OF assms(2) separated_sub [OF assms(1,3-6)]]) (use assms(7) in auto)

text \<open>Handing out a clone.\<close>

lemma cloned_out:
  assumes "separated F rw" and "record_layout ly" and "ref_cloned ly f p rw = (q, rw')"
  shows "separated (F \<union> footprint_of (rwHeap rw') q) rw'" and "value_world rw' = value_world rw"
    and "read_record ly (rwHeap rw') q = Some (f (the (read_record ly (rwHeap rw) p)))"
    and "q \<in> footprint_of (rwHeap rw') q" and "rw' = rw\<lparr>rwHeap := rwHeap rw'\<rparr>"
proof -
  obtain h where h: "clone_ref ly f p (rwHeap rw) = (q, h)" "rw' = rw\<lparr>rwHeap := h\<rparr>"
    using assms(3) by (auto simp: ref_cloned_def split: prod.splits)
  from separated_clone [OF assms(1,2) h(1)] h(2)
  show "separated (F \<union> footprint_of (rwHeap rw') q) rw'" "value_world rw' = value_world rw"
    "read_record ly (rwHeap rw') q = Some (f (the (read_record ly (rwHeap rw) p)))" by simp_all
  show "q \<in> footprint_of (rwHeap rw') q" by (simp add: footprint_of_def)
  show "rw' = rw\<lparr>rwHeap := rwHeap rw'\<rparr>" by (simp add: h(2))
qed

lemmas layouts = client_record.record_layout_axioms request_record.record_layout_axioms
  token_record.record_layout_axioms

lemma refines_load_request:
  assumes "separated F rw" and "K \<subseteq> F" and "ref_AuthorizationRequest i rw = (x, rw')"
  shows "refines F rw (EvLoadRequest i (answer_read request_layout rw' x)) rw' (K \<union> answer_pointer x)"
proof (cases "rwRequests rw i")
  case None
  then have "x = Inl ErrNotFound" "rw' = rw" using assms(3) by (simp_all add: ref_AuthorizationRequest_def)
  then show ?thesis
    using assms(1,2) request_record.view_None [of "rwRequests rw" i, OF None]
    by (intro refinesI [of _ _ _ F])
      (auto simp: answered_def on_store_def store_AuthorizationRequest_def value_world_def)
next
  case (Some p)
  obtain q where q: "ref_cloned request_layout clone_request p rw = (q, rw')" "x = Inr q"
    using assms(3) Some by (auto simp: ref_AuthorizationRequest_def split: prod.splits)
  note out = cloned_out [OF assms(1) layouts(2) q(1)]
  show ?thesis
  proof (rule refinesI [OF _ out(1)])
    show "serve mem (EvLoadRequest i (answer_read request_layout rw' x)) (value_world rw) = Some (value_world rw')"
      using request_record.view_Some [OF separatedD(5) [OF assms(1)] Some] out(2,3) q(2)
      by (simp add: answered_def on_store_def store_AuthorizationRequest_def)
    show "F \<union> (K \<union> answer_pointer x) \<subseteq> F \<union> footprint_of (rwHeap rw') q" using assms(2) q(2) out(4) by auto
  qed
qed

lemma refines_load_token:
  assumes "separated F rw" and "K \<subseteq> F" and "ref_Token i rw = (x, rw')"
  shows "refines F rw (EvLoadToken i (answer_read token_layout rw' x)) rw' (K \<union> answer_pointer x)"
proof (cases "rwTokens rw i")
  case None
  then have "x = Inl ErrNotFound" "rw' = rw" using assms(3) by (simp_all add: ref_Token_def)
  then show ?thesis
    using assms(1,2) token_record.view_None [of "rwTokens rw" i, OF None]
    by (intro refinesI [of _ _ _ F])
      (auto simp: answered_def on_store_def store_Token_def store_tokenLocked_def value_world_def)
next
  case (Some p)
  obtain q where q: "ref_cloned token_layout clone_token p rw = (q, rw')" "x = Inr q"
    using assms(3) Some by (auto simp: ref_Token_def split: prod.splits)
  note out = cloned_out [OF assms(1) layouts(3) q(1)]
  show ?thesis
  proof (rule refinesI [OF _ out(1)])
    show "serve mem (EvLoadToken i (answer_read token_layout rw' x)) (value_world rw) = Some (value_world rw')"
      using token_record.view_Some [OF separatedD(6) [OF assms(1)] Some] out(2,3) q(2)
      by (simp add: answered_def on_store_def store_Token_def store_tokenLocked_def)
    show "F \<union> (K \<union> answer_pointer x) \<subseteq> F \<union> footprint_of (rwHeap rw') q" using assms(2) q(2) out(4) by auto
  qed
qed

lemma refines_client:
  assumes "separated F rw" and "K \<subseteq> F" and "ref_Client iss i rw = (x, rw')"
  shows "refines F rw (EvClient iss i (map_sum id Some (answer_read client_layout rw' x))) rw'
     (K \<union> answer_pointer x)"
proof (cases "rwClients rw (iss, i)")
  case None
  then have "x = Inl ErrNotFound" "rw' = rw" using assms(3) by (simp_all add: ref_Client_def)
  then show ?thesis
    using assms(1,2) client_record.view_None [of "rwClients rw" "(iss, i)", OF None]
    by (intro refinesI [of _ _ _ F])
      (auto simp: answered_def on_store_def store_Client_def value_world_def)
next
  case (Some p)
  obtain q where q: "ref_cloned client_layout clone_client p rw = (q, rw')" "x = Inr q"
    using assms(3) Some by (auto simp: ref_Client_def split: prod.splits)
  note out = cloned_out [OF assms(1) layouts(1) q(1)]
  show ?thesis
  proof (rule refinesI [OF _ out(1)])
    show "serve mem (EvClient iss i (map_sum id Some (answer_read client_layout rw' x))) (value_world rw) =
        Some (value_world rw')"
      using client_record.view_Some [OF separatedD(4) [OF assms(1)] Some] out(2,3) q(2)
      by (simp add: answered_def on_store_def store_Client_def)
    show "F \<union> (K \<union> answer_pointer x) \<subseteq> F \<union> footprint_of (rwHeap rw') q" using assms(2) q(2) out(4) by auto
  qed
qed

text \<open>Keeping a clone, under a key that was free.\<close>

lemma separated_keep:
  assumes "separated F rw" and "record_layout ly" and "ref_cloned ly f p rw = (q, rw1)"
  shows "separated F rw1" and "value_world rw1 = value_world rw" and "rw1 = rw\<lparr>rwHeap := rwHeap rw1\<rparr>"
    and "read_record ly (rwHeap rw1) q = Some (f (the (read_record ly (rwHeap rw) p)))"
    and "footprint_of (rwHeap rw1) q \<subseteq> {..<hNext (rwHeap rw1)} - F"
    and "rwTokens rw k \<noteq> Some q"
proof -
  obtain h where h: "clone_ref ly f p (rwHeap rw) = (q, h)" "rw1 = rw\<lparr>rwHeap := h\<rparr>"
    using assms(3) by (auto simp: ref_cloned_def split: prod.splits)
  note c = separated_clone [OF assms(1,2) h(1)]
  show "separated F rw1" "value_world rw1 = value_world rw" "rw1 = rw\<lparr>rwHeap := rwHeap rw1\<rparr>"
    "read_record ly (rwHeap rw1) q = Some (f (the (read_record ly (rwHeap rw) p)))"
    "footprint_of (rwHeap rw1) q \<subseteq> {..<hNext (rwHeap rw1)} - F" using c h(2) by simp_all
  show "rwTokens rw k \<noteq> Some q"
  proof
    assume "rwTokens rw k = Some q"
    then have "footprint_of (rwHeap rw) q \<subseteq> {..<hNext (rwHeap rw)}"
      using table_okD [OF separatedD(6) [OF assms(1)]] by blast
    then have "q < hNext (rwHeap rw)" by (auto simp: footprint_of_def)
    with c(6) show False by simp
  qed
qed

lemma refines_create_token:
  assumes "separated F rw" and "K \<subseteq> F" and "read_record token_layout (rwHeap rw) p = Some t"
    and "ref_CreateToken p rw = (r, rw')"
  shows "refines F rw (EvCreateToken t r) rw' K"
proof -
  define rw0 where "rw0 = ref_collectLocked rw"
  note c = separated_collect [OF assms(1), folded rw0_def]
  have t: "token_read rw0 p = t" using assms(3) by (simp add: rw0_def)
  have val: "store_collectLocked (wNow (rwEnv rw)) (wStore (value_world rw)) = wStore (value_world rw0)"
    "value_world rw\<lparr>wStore := s\<rparr> = value_world rw0\<lparr>wStore := s\<rparr>" for s
    by (simp_all add: c(2))
  show ?thesis
  proof (cases "rwTokens rw0 (tHash t)")
    case (Some q)
    then have "r = Some ErrConflict" "rw' = rw0"
      using assms(4) t by (simp_all add: ref_CreateToken_def Let_def rw0_def [symmetric])
    then show ?thesis
      using token_record.view_Some [OF separatedD(6) [OF c(1)] Some] c(1) assms(2) val
      by (intro refinesI [of _ _ _ F])
        (auto simp: answered_def on_store_def store_CreateToken_def Let_def)
  next
    case None
    obtain q rw1 where q: "ref_cloned token_layout clone_token p rw0 = (q, rw1)"
      and r: "r = None" "rw' = rw1\<lparr>rwTokens := (rwTokens rw1)(tHash t \<mapsto> q)\<rparr>"
      using assms(4) t None by (auto simp: ref_CreateToken_def Let_def rw0_def [symmetric] split: prod.splits)
    note k = separated_keep [OF c(1) layouts(3) q]
    have same: "rwTokens rw1 = rwTokens rw0" by (subst k(3)) simp
    have "separated F rw'"
      using separatedD [OF k(1)] token_record.table_ok_upd [OF separatedD(6) [OF k(1)] k(4,5)] k(6) same
      unfolding separated_def Let_def by (simp add: r(2)) metis
    moreover have "value_world rw' = (value_world rw1)\<lparr>wStore := (wStore (value_world rw1))\<lparr>msTokens :=
        (msTokens (wStore (value_world rw1)))(tHash t \<mapsto> clone_token t)\<rparr>\<rparr>"
      by (simp add: r(2) value_world_def token_record.view_upd(2) [OF k(4)] t)
    ultimately show ?thesis
      using token_record.view_None [of "rwTokens rw0" "tHash t", OF None] k(2) r(1) assms(2) val
      by (intro refinesI [of _ _ _ F])
        (auto simp: answered_def on_store_def store_CreateToken_def Let_def)
  qed
qed

lemma refines_create_request:
  assumes "separated F rw" and "K \<subseteq> F" and "read_record request_layout (rwHeap rw) p = Some t"
    and "ref_CreateAuthorizationRequest p rw = (r, rw')"
  shows "refines F rw (EvCreateRequest t r) rw' K"
proof -
  define rw0 where "rw0 = ref_collectLocked rw"
  note c = separated_collect [OF assms(1), folded rw0_def]
  have t: "request_read rw0 p = t" using assms(3) by (simp add: rw0_def)
  have val: "store_collectLocked (wNow (rwEnv rw)) (wStore (value_world rw)) = wStore (value_world rw0)"
    "value_world rw\<lparr>wStore := s\<rparr> = value_world rw0\<lparr>wStore := s\<rparr>" for s
    by (simp_all add: c(2))
  show ?thesis
  proof (cases "rwRequests rw0 (arID t)")
    case (Some q)
    then have "r = Some ErrConflict" "rw' = rw0"
      using assms(4) t by (simp_all add: ref_CreateAuthorizationRequest_def Let_def rw0_def [symmetric])
    then show ?thesis
      using request_record.view_Some [OF separatedD(5) [OF c(1)] Some] c(1) assms(2) val
      by (intro refinesI [of _ _ _ F])
        (auto simp: answered_def on_store_def store_CreateAuthorizationRequest_def Let_def)
  next
    case None
    obtain q rw1 where q: "ref_cloned request_layout clone_request p rw0 = (q, rw1)"
      and r: "r = None" "rw' = rw1\<lparr>rwRequests := (rwRequests rw1)(arID t \<mapsto> q)\<rparr>"
      using assms(4) t None by (auto simp: ref_CreateAuthorizationRequest_def Let_def rw0_def [symmetric] split: prod.splits)
    note k = separated_keep [OF c(1) layouts(2) q]
    have same: "rwRequests rw1 = rwRequests rw0" by (subst k(3)) simp
    have "separated F rw'"
      using separatedD [OF k(1)] request_record.table_ok_upd [OF separatedD(5) [OF k(1)] k(4,5)] separatedD(7) [OF k(1)]
      unfolding separated_def Let_def by (simp add: r(2))
    moreover have "value_world rw' = (value_world rw1)\<lparr>wStore := (wStore (value_world rw1))\<lparr>msRequests :=
        (msRequests (wStore (value_world rw1)))(arID t \<mapsto> clone_request t)\<rparr>\<rparr>"
      by (simp add: r(2) value_world_def request_record.view_upd(2) [OF k(4)] t)
    ultimately show ?thesis
      using request_record.view_None [of "rwRequests rw0" "arID t", OF None] k(2) r(1) assms(2) val
      by (intro refinesI [of _ _ _ F])
        (auto simp: answered_def on_store_def store_CreateAuthorizationRequest_def Let_def)
  qed
qed

lemma refines_delete_request:
  assumes "separated F rw" and "K \<subseteq> F" and "ref_DeleteAuthorizationRequest i rw = (r, rw')"
  shows "refines F rw (EvDeleteRequest i r) rw' K"
proof (cases "rwRequests rw i")
  case None
  then have "r = Some ErrNotFound" "rw' = rw" using assms(3) by (simp_all add: ref_DeleteAuthorizationRequest_def)
  then show ?thesis
    using assms(1,2) request_record.view_None [of "rwRequests rw" i, OF None]
    by (intro refinesI [of _ _ _ F])
      (auto simp: answered_def on_store_def store_DeleteAuthorizationRequest_def value_world_def)
next
  case (Some p)
  then have r: "r = None" "rw' = rw\<lparr>rwRequests := (rwRequests rw)(i := None)\<rparr>"
    using assms(3) by (simp_all add: ref_DeleteAuthorizationRequest_def)
  show ?thesis
    using request_record.view_Some [OF separatedD(5) [OF assms(1)] Some]
    by (intro refines_sub [OF assms(1)])
      (auto simp: r answered_def on_store_def store_DeleteAuthorizationRequest_def value_world_def
        request_record.view_upd assms(2) [THEN subsetD] split: if_split_asm)
qed

lemma refines_revoke_token:
  assumes "separated F rw" and "K \<subseteq> F" and "ref_RevokeToken i rw = (r, rw')"
  shows "refines F rw (EvRevokeToken i r) rw' K"
proof -
  have r: "r = None" "rw' = rw\<lparr>rwTokens := (rwTokens rw)(i := None)\<rparr>"
    using assms(3) by (simp_all add: ref_RevokeToken_def)
  show ?thesis
    by (intro refines_sub [OF assms(1)])
      (auto simp: r answered_def on_store_def store_RevokeToken_def value_world_def
        token_record.view_upd assms(2) [THEN subsetD] split: if_split_asm)
qed

lemma refines_revoke_grant:
  assumes "separated F rw" and "K \<subseteq> F" and "ref_RevokeGrant g rw = (r, rw')"
  shows "refines F rw (EvRevokeGrant g r) rw' K"
proof -
  define m where "m = (\<lambda>hash. case rwTokens rw hash of None \<Rightarrow> None
      | Some p \<Rightarrow> if tGrantID (token_read rw p) = g then None else Some p)"
  have r: "r = None" "rw' = rw\<lparr>rwTokens := m\<rparr>"
    using assms(3) by (simp_all add: ref_RevokeGrant_def m_def)
  have view: "table_view token_layout (rwHeap rw) m k =
      (case table_view token_layout (rwHeap rw) (rwTokens rw) k of None \<Rightarrow> None
       | Some t \<Rightarrow> if tGrantID t = g then None else Some t)" for k
  proof (cases "rwTokens rw k")
    case (Some p)
    obtain t where "read_record token_layout (rwHeap rw) p = Some t"
      using table_okD [OF separatedD(6) [OF assms(1)] Some] by blast
    then show ?thesis using Some by (simp add: m_def table_view_def)
  qed (simp add: m_def table_view_def)
  have sub: "rwTokens rw k = Some p" if "m k = Some p" for k p
    using that by (auto simp: m_def split: option.split_asm if_split_asm)
  show ?thesis
  proof (rule refines_sub [OF assms(1) _ _ _ _ _ assms(2)])
    show "serve mem (EvRevokeGrant g r) (value_world rw) = Some (value_world rw')"
      using view by (simp add: r answered_def on_store_def store_RevokeGrant_def value_world_def fun_eq_iff)
  qed (simp_all add: r sub)
qed

lemma refines_claim_once:
  assumes "separated F rw" and "K \<subseteq> F" and "ref_ClaimOnce k e rw = (r, rw')"
  shows "refines F rw (EvClaimOnce k e r) rw' K"
proof -
  define rw0 where "rw0 = ref_collectLocked rw"
  note c = separated_collect [OF assms(1), folded rw0_def]
  have env: "rwEnv rw0 = rwEnv rw" by (simp add: rw0_def)
  have val: "store_collectLocked (wNow (rwEnv rw)) (wStore (value_world rw)) = wStore (value_world rw0)"
    "value_world rw\<lparr>wStore := s\<rparr> = value_world rw0\<lparr>wStore := s\<rparr>" for s
    by (simp_all add: c(2))
  define busy where "busy \<longleftrightarrow>
      (case rwClaims rw0 k of None \<Rightarrow> False | Some exp \<Rightarrow> time_Before (wNow (rwEnv rw)) exp)"
  have r: "r = (if busy then Some ErrConflict else None)"
    "rw' = (if busy then rw0 else rw0\<lparr>rwClaims := (rwClaims rw0)(k \<mapsto> e)\<rparr>)"
    using assms(3) unfolding ref_ClaimOnce_def Let_def rw0_def [symmetric] env busy_def [symmetric]
    by (simp_all split: if_split_asm)
  show ?thesis
  proof (rule refinesI)
    show "separated F rw'" using c(1) by (simp add: r(2) separated_env)
    show "serve mem (EvClaimOnce k e r) (value_world rw) = Some (value_world rw')"
      using busy_def by (simp add: r answered_def on_store_def store_ClaimOnce_def Let_def val env)
        (simp add: value_world_def)
    show "F \<union> K \<subseteq> F" using assms(2) by simp
  qed
qed

text \<open>An object that is no part is in the footprint of its own record only.\<close>

lemma foreign_object:
  assumes "record_layout ly" and "read_record ly h r = Some v" and "hObj h p = Some x"
    and "\<And>q. x \<noteq> RPart q" and "r \<noteq> p"
  shows "p \<notin> footprint_of h r"
proof -
  obtain y u as qs where y: "hObj h r = Some y" "lyOpen ly y = Some (u, as)"
      "those (map (part_at h) as) = Some qs"
    using assms(2) by (auto simp: read_record_def split: option.split_asm)
  have "part_at h a \<noteq> None" if "a \<in> set as" for a
    using y(3) that by (induction as arbitrary: qs) (auto split: option.split_asm)
  moreover have "part_at h p = None"
  proof (cases x)
    case (RPart q)
    then show ?thesis using assms(4) by blast
  qed (use assms(3) in \<open>simp_all add: part_at_def\<close>)
  ultimately have "p \<notin> set as" by blast
  then show ?thesis
    using assms(5) y(1) record_layout.open_refs [OF assms(1) y(2)] by (simp add: footprint_of_def)
qed

lemma table_without:
  assumes "record_layout ly" and "table_ok ly h S m" and "hObj h p = Some x" and "\<And>q. x \<noteq> RPart q"
    and "\<And>k. m k \<noteq> Some p"
  shows "table_ok ly h (S - {p}) m"
  unfolding table_ok_def
proof (intro allI impI conjI)
  fix k r assume k: "m k = Some r"
  then show "\<exists>v. read_record ly h r = Some v" using assms(2) unfolding table_ok_def by blast
  then obtain v where "read_record ly h r = Some v" by blast
  from foreign_object [OF assms(1) this assms(3,4)] k assms(5) have "p \<notin> footprint_of h r" by metis
  then show "footprint_of h r \<subseteq> S - {p}" using assms(2) k unfolding table_ok_def by blast
qed

lemma read_token_object:
  assumes "read_record token_layout h p = Some t"
  obtains u as qs where "hObj h p = Some (RToken u as)" and "those (map (part_at h) as) = Some qs"
    and "token_join u qs = Some t"
  using assms by (auto simp: read_record_def token_layout_def split: option.split_asm robj.split_asm)

text \<open>Marking a token of the store.\<close>

lemma token_join_consumed:
  "token_join u qs = Some t \<Longrightarrow> token_join (u\<lparr>tConsumedAt := at\<rparr>) qs = Some (t\<lparr>tConsumedAt := at\<rparr>)"
  by (cases u) (auto simp: token_join_def split: if_split_asm)

lemma separated_consume:
  assumes sep: "separated F rw" and k: "rwTokens rw k = Some p" and rw': "rw' = rw\<lparr>rwHeap := set_ConsumedAt p at (rwHeap rw)\<rparr>"
  shows "separated F rw'"
    and "value_world rw' = (value_world rw)\<lparr>wStore := (wStore (value_world rw))\<lparr>msTokens :=
      (msTokens (wStore (value_world rw)))(k \<mapsto> (token_read rw p)\<lparr>tConsumedAt := at\<rparr>)\<rparr>\<rparr>"
    and "\<And>a. a \<in> F \<Longrightarrow> hObj (rwHeap rw') a = hObj (rwHeap rw) a"
proof -
  let ?h = "rwHeap rw" and ?h' = "rwHeap rw'"
  let ?S = "{..<hNext ?h} - F"
  note D = separatedD [OF sep]
  obtain t where t: "read_record token_layout ?h p = Some t" and fp: "footprint_of ?h p \<subseteq> ?S"
    using table_okD [OF D(6) k] by blast
  obtain u as qs where obj: "hObj ?h p = Some (RToken u as)" "those (map (part_at ?h) as) = Some qs"
      "token_join u qs = Some t" using read_token_object [OF t] .
  have h': "hObj ?h' = (hObj ?h)(p \<mapsto> RToken (u\<lparr>tConsumedAt := at\<rparr>) as)" "hNext ?h' = hNext ?h"
    by (simp_all add: rw' set_ConsumedAt_def obj(1))
  have p: "p \<in> ?S" using fp by (auto simp: footprint_of_def)
  have same: "hObj ?h' a = hObj ?h a" if "a \<in> ?S - {p}" for a using that h'(1) by simp
  have sub: "?S - {p} \<subseteq> ?S" by blast
  have np: "RToken u as \<noteq> RPart q" for q by simp
  have other: "rwClients rw j \<noteq> Some p" "rwRequests rw i \<noteq> Some p" for j i
    using table_okD [OF D(4), of j p] table_okD [OF D(5), of i p] obj(1)
    by (auto simp: read_record_def client_layout_def request_layout_def)
  have mine: "((rwTokens rw)(k := None)) j \<noteq> Some p" for j using D(7) k by auto
  note c = client_record.table_frame [OF table_without [OF layouts(1) D(4) obj(1) np other(1)] same sub]
  note r = request_record.table_frame [OF table_without [OF layouts(2) D(5) obj(1) np other(2)] same sub]
  have less: "table_ok token_layout ?h ?S ((rwTokens rw)(k := None))"
    by (rule table_ok_sub [OF D(6)]) (simp split: if_split_asm)
  note m = token_record.table_frame [OF table_without [OF layouts(3) less obj(1) np mine] same sub]
  have pa: "map (part_at ?h') as = map (part_at ?h) as"
  proof (rule map_cong [OF refl])
    fix a assume "a \<in> set as"
    have "part_at ?h a \<noteq> None"
      using obj(2) \<open>a \<in> set as\<close> by (induction as arbitrary: qs) (auto split: option.split_asm)
    then have "a \<noteq> p" using obj(1) by (auto simp: part_at_def)
    then show "part_at ?h' a = part_at ?h a" by (simp add: part_at_def h'(1))
  qed
  have new: "read_record token_layout ?h' p = Some (t\<lparr>tConsumedAt := at\<rparr>)"
    using obj(2) token_join_consumed [OF obj(3), of at] pa
    by (simp add: read_record_def h'(1) token_layout_def del: map_eq_conv)
  have fp': "footprint_of ?h' p \<subseteq> ?S" using fp obj(1) by (simp add: footprint_of_def h'(1))
  have idem: "((rwTokens rw)(k := None))(k \<mapsto> p) = rwTokens rw" using k by auto
  have tok: "table_ok token_layout ?h' ?S (rwTokens rw)"
    using token_record.table_ok_upd [OF m(1) new fp', of k] unfolding idem .
  show F: "hObj ?h' a = hObj ?h a" if "a \<in> F" for a using that p h'(1) by auto
  have "heap_ok ?h'" using D(1) p h' by (auto simp: heap_ok_def)
  then show "separated F rw'"
    using closed_region_cong [OF D(3) F] c(1) r(1) tok D(2,7) h'(2)
    unfolding separated_def Let_def by (simp add: rw')
  have "table_view token_layout ?h' (((rwTokens rw)(k := None))(k \<mapsto> p)) =
      (table_view token_layout ?h' ((rwTokens rw)(k := None)))(k \<mapsto> t\<lparr>tConsumedAt := at\<rparr>)"
    by (rule token_record.view_upd(2) [OF new])
  moreover have "table_view token_layout ?h' ((rwTokens rw)(k := None)) = table_view token_layout ?h ((rwTokens rw)(k := None))"
    using m(2) by (simp add: fun_upd_def)
  ultimately have "table_view token_layout ?h' (rwTokens rw) = (table_view token_layout ?h (rwTokens rw))(k \<mapsto> t\<lparr>tConsumedAt := at\<rparr>)"
    unfolding idem token_record.view_upd(1) by (metis fun_upd_upd)
  then show "value_world rw' = (value_world rw)\<lparr>wStore := (wStore (value_world rw))\<lparr>msTokens :=
      (msTokens (wStore (value_world rw)))(k \<mapsto> (token_read rw p)\<lparr>tConsumedAt := at\<rparr>)\<rparr>\<rparr>"
    using c(2) r(2) t by (simp add: value_world_def rw')
qed

lemma refines_consume_token:
  assumes "separated F rw" and "K \<subseteq> F" and "ref_ConsumeToken i at rw = (x, rw')"
  shows "refines F rw (EvConsumeToken i at (answer_read token_layout rw' x)) rw' (K \<union> answer_pointer x)"
proof (cases "rwTokens rw i")
  case None
  then have "x = Inl ErrNotFound" "rw' = rw" using assms(3) by (simp_all add: ref_ConsumeToken_def)
  then show ?thesis
    using assms(1,2) token_record.view_None [of "rwTokens rw" i, OF None]
    by (intro refinesI [of _ _ _ F])
      (auto simp: answered_def on_store_def store_ConsumeToken_def store_tokenLocked_def value_world_def)
next
  case (Some p)
  obtain q rw1 where q: "ref_cloned token_layout clone_token p rw = (q, rw1)" "x = Inr q"
    and rw': "rw' = (if time_IsZero (tConsumedAt (token_read rw1 p))
        then rw1\<lparr>rwHeap := set_ConsumedAt p at (rwHeap rw1)\<rparr> else rw1)"
    using assms(3) Some by (auto simp: ref_ConsumeToken_def split: prod.splits)
  note out = cloned_out [OF assms(1) layouts(3) q(1)]
  let ?F = "F \<union> footprint_of (rwHeap rw1) q"
  have k: "rwTokens rw1 i = Some p" by (subst out(5)) (simp add: Some)
  have t: "msTokens (wStore (value_world rw)) i = Some (token_read rw1 p)"
    "token_read rw1 p = token_read rw p"
    using token_record.view_Some [OF separatedD(6) [OF out(1)] k] out(2)
      token_record.view_Some [OF separatedD(6) [OF assms(1)] Some] value_world_sel(6) [of rw]
      value_world_sel(6) [of rw1] by auto
  have K: "F \<union> (K \<union> answer_pointer x) \<subseteq> ?F" using assms(2) q(2) out(4) by auto
  show ?thesis
  proof (cases "time_IsZero (tConsumedAt (token_read rw1 p))")
    case False
    then show ?thesis
      using t out(1-3) q(2) rw' K
      by (intro refinesI [of _ _ _ ?F])
        (simp_all add: answered_def on_store_def store_ConsumeToken_def store_tokenLocked_def)
  next
    case True
    then have new: "rw' = rw1\<lparr>rwHeap := set_ConsumedAt p at (rwHeap rw1)\<rparr>" using rw' by simp
    note c = separated_consume [OF out(1) k new]
    have "read_record token_layout (rwHeap rw') q = read_record token_layout (rwHeap rw1) q"
      by (rule token_record.read_frame) (use c(3) in auto)
    then have "answer_read token_layout rw' x = Inr (clone_token (token_read rw1 p))"
      using out(3) t(2) q(2) by simp
    with True c(1,2) t out(2) K show ?thesis
      by (intro refinesI [of _ _ _ ?F])
        (simp_all add: answered_def on_store_def store_ConsumeToken_def store_tokenLocked_def)
  qed
qed

lemma refines_env:
  assumes "separated F rw" and "K \<subseteq> F"
  shows "world_now (rwEnv rw) = (t, env) \<Longrightarrow> refines F rw (EvNow t) (rw\<lparr>rwEnv := env\<rparr>) K"
    and "world_rand (rwEnv rw) = (b, env) \<Longrightarrow> refines F rw (EvRand b) (rw\<lparr>rwEnv := env\<rparr>) K"
  using assms
  by (auto intro!: refinesI [of _ _ _ F] simp: separated_env answered_def world_now_def world_rand_def
      value_world_def split: list.split_asm)

lemma ref_call_refines:
  assumes "ref_call K rw ev rw' K'" and "separated F rw" and "K \<subseteq> F"
  shows "refines F rw ev rw' K'"
  using assms(1)
proof cases
  case call_create_request
  then show ?thesis using refines_create_request assms(2,3) by blast
next
  case call_load_request
  then show ?thesis using refines_load_request [OF assms(2,3)] by blast
next
  case call_delete_request
  then show ?thesis using refines_delete_request [OF assms(2,3)] by blast
next
  case call_create_token
  then show ?thesis using refines_create_token assms(2,3) by blast
next
  case call_load_token
  then show ?thesis using refines_load_token [OF assms(2,3)] by blast
next
  case call_consume_token
  then show ?thesis using refines_consume_token [OF assms(2,3)] by blast
next
  case call_revoke_token
  then show ?thesis using refines_revoke_token [OF assms(2,3)] by blast
next
  case call_revoke_grant
  then show ?thesis using refines_revoke_grant [OF assms(2,3)] by blast
next
  case call_claim_once
  then show ?thesis using refines_claim_once [OF assms(2,3)] by blast
next
  case call_client
  then show ?thesis using refines_client [OF assms(2,3)] by blast
next
  case call_now
  then show ?thesis using refines_env(1) [OF assms(2,3)] by blast
next
  case call_rand
  then show ?thesis using refines_env(2) [OF assms(2,3)] by blast
qed

text \<open>What the callers do with the records they can reach does not change what the store holds.\<close>

lemma separated_uses:
  assumes "separated F rw" and "K \<subseteq> F" and "uses robj_refs (rwHeap rw) K h K'"
  shows "\<exists>F'. F \<union> K' \<subseteq> F' \<and> separated F' (rw\<lparr>rwHeap := h\<rparr>)" and "value_world (rw\<lparr>rwHeap := h\<rparr>) = value_world rw"
proof -
  note D = separatedD [OF assms(1)]
  let ?F = "F \<union> {hNext (rwHeap rw)..<hNext h}"
  have R: "K' \<subseteq> ?F" "closed_region robj_refs h ?F" "heap_ok h" "hNext (rwHeap rw) \<le> hNext h"
    "\<forall>a < hNext (rwHeap rw). a \<notin> F \<longrightarrow> hObj h a = hObj (rwHeap rw) a"
    using uses_region [OF assms(3) D(1) assms(2) D(3,2)] by blast+
  have "?F \<subseteq> {..<hNext h}" using D(2) R(4) by auto
  moreover have "?F \<inter> ({..<hNext (rwHeap rw)} - F) = {}" by auto
  ultimately have "separated ?F (rw\<lparr>rwHeap := h\<rparr>)" "value_world (rw\<lparr>rwHeap := h\<rparr>) = value_world rw"
    using separated_heap [OF assms(1) R(3,4) _ _ _ R(2)] R(5) by simp_all
  then show "\<exists>F'. F \<union> K' \<subseteq> F' \<and> separated F' (rw\<lparr>rwHeap := h\<rparr>)" "value_world (rw\<lparr>rwHeap := h\<rparr>) = value_world rw"
    using R(1) by blast+
qed

text \<open>Registering clients, which is not a call of the interface.\<close>

lemma set_client_refines:
  assumes "separated F rw" and "read_record client_layout (rwHeap rw) p = Some c"
  shows "separated F (ref_SetClient issuer p rw)"
    and "value_world (ref_SetClient issuer p rw) =
      (value_world rw)\<lparr>wStore := store_SetClient issuer c (wStore (value_world rw))\<rparr>"
proof -
  obtain q rw1 where q: "ref_cloned client_layout clone_client p rw = (q, rw1)" by fastforce
  note k = separated_keep [OF assms(1) layouts(1) q]
  have set: "ref_SetClient issuer p rw = rw1\<lparr>rwClients := (rwClients rw1)((issuer, cID c) \<mapsto> q)\<rparr>"
    by (simp add: ref_SetClient_def assms(2) q)
  show "separated F (ref_SetClient issuer p rw)"
    using separatedD [OF k(1)] client_record.table_ok_upd [OF separatedD(4) [OF k(1)] k(4,5)]
    unfolding separated_def Let_def by (simp add: set)
  show "value_world (ref_SetClient issuer p rw) =
      (value_world rw)\<lparr>wStore := store_SetClient issuer c (wStore (value_world rw))\<rparr>"
    unfolding k(2) [symmetric]
    by (simp add: set value_world_def client_record.view_upd(2) [OF k(4)] store_SetClient_def assms(2))
qed

lemma separated_New: "separated {} (ref_New env)"
  by (simp add: separated_def ref_New_def heap_ok_def closed_region_def table_ok_def)

lemma value_world_New: "value_world (ref_New env) = env\<lparr>wStore := store_New\<rparr>"
  by (simp add: value_world_def ref_New_def store_New_def table_view_def)

section \<open>Runs\<close>

text \<open>The callers use what they know, or call the store; the log has the calls.\<close>

inductive ref_run :: "refworld \<Rightarrow> event list \<Rightarrow> refworld \<Rightarrow> nat set \<Rightarrow> bool" for rw0 where
  run_start: "ref_run rw0 [] rw0 {}"
| run_uses:
    "\<lbrakk> ref_run rw0 log rw K; uses robj_refs (rwHeap rw) K h K' \<rbrakk> \<Longrightarrow> ref_run rw0 log (rw\<lparr>rwHeap := h\<rparr>) K'"
| run_call: "\<lbrakk> ref_run rw0 log rw K; ref_call K rw ev rw' K' \<rbrakk> \<Longrightarrow> ref_run rw0 (log @ [ev]) rw' K'"

lemma ref_run_serves:
  assumes "ref_run rw0 log rw K" and "separated {} rw0"
  shows "serves mem log (value_world rw0) = Some (value_world rw) \<and> (\<exists>F. K \<subseteq> F \<and> separated F rw)"
  using assms(1)
proof (induction rule: ref_run.induct)
  case run_start
  then show ?case using assms(2) by auto
next
  case (run_uses log rw K h K')
  then obtain F where "K \<subseteq> F" "separated F rw" by blast
  with separated_uses [OF this(2,1) run_uses.hyps(2)] run_uses.IH show ?case by auto
next
  case (run_call log rw K ev rw' K')
  then obtain F where "K \<subseteq> F" "separated F rw" by blast
  with ref_call_refines [OF run_call.hyps(2)] have "refines F rw ev rw' K'" by blast
  then show ?case using run_call.IH by (auto simp: refines_def serves_append)
qed

text \<open>C35. The store of memory/memory.go, with the pointers it has, behaves as the store of values, whatever
  its callers do to the records they passed to it and were returned: from a state where callers reach no
  record of the store, every sequence of calls, between which the callers write through the pointers
  they have, gives the answers that the store of values gives and ends in the values it ends in.\<close>

theorem memory_pointers_refine_values:
  assumes "ref_run rw0 log rw K" and "separated {} rw0"
  shows "serves mem log (value_world rw0) = Some (value_world rw)"
  using ref_run_serves [OF assms] by blast

lemma read_token_at:
  "hObj h p = Some (RToken u [a, b, c, d, e]) \<Longrightarrow> hObj h a = Some (RPart (RStrings scopes)) \<Longrightarrow>
     hObj h b = Some (RPart (RStrings amr)) \<Longrightarrow> hObj h c = Some (RPart (RClaims claims)) \<Longrightarrow>
     hObj h d = Some (RPart (RStrings aud)) \<Longrightarrow> hObj h e = Some (RPart (RJson m)) \<Longrightarrow>
     read_record token_layout h p = Some (u\<lparr>tScopes := scopes, tAMR := amr, tClaims := claims,
       tAudience := aud, tAccessTokenClaims := m\<rparr>)"
  by (simp add: read_record_def token_layout_def token_join_def part_at_def)

definition written_token :: Token where
  "written_token = token_zero\<lparr>tHash := ''h'', tScopes := [''read''], tExpiresAt := hour\<rparr>"

text \<open>A caller builds a token, creates it, changes the scopes of the record it passed, and loads the token.\<close>

definition writer_start :: refworld where
  "writer_start = ref_New \<lparr>wStore = store_New, wNow = 1, wTicks = [], wRandom = []\<rparr>"

definition writer_built :: refworld where
  "writer_built = writer_start\<lparr>rwHeap := snd (new_record token_layout written_token (rwHeap writer_start))\<rparr>"

definition writer_created :: refworld where
  "writer_created = snd (ref_CreateToken 5 writer_built)"

definition writer_wrote :: refworld where
  "writer_wrote = writer_created\<lparr>rwHeap := overwrite 0 (RPart (RStrings [''admin''])) (rwHeap writer_created)\<rparr>"

definition writer_loaded :: refworld where
  "writer_loaded = snd (ref_Token ''h'' writer_wrote)"

definition writer_log :: "event list" where
  "writer_log = [EvCreateToken written_token None, EvLoadToken ''h'' (Inr written_token)]"

lemma writer_built:
  "new_record token_layout written_token (rwHeap writer_start) = (5, rwHeap writer_built)"
  by (simp add: writer_built_def writer_start_def ref_New_def new_record_def token_layout_def alloc_def)

lemma writer_read:
  "footprint_of (rwHeap writer_built) 5 = {0, 1, 2, 3, 4, 5}"
  "read_record token_layout (rwHeap writer_built) 5 = Some written_token"
  using token_record.new_record_facts(3) [OF writer_built]
  by (simp_all add: writer_start_def ref_New_def heap_ok_def)
    (auto simp: writer_built_def writer_start_def ref_New_def new_record_def token_layout_def alloc_def footprint_of_def)

lemma clone_written: "clone_token written_token = written_token"
  by (simp add: written_token_def clone_token_def token_zero_def clone_strings_def json_map_roundtrip_def
      json_string_ascii is_ascii_def byte_def)

lemma writing_sel:
  "ref_collectLocked writer_built = writer_built" "rwTokens writer_built = Map.empty"
  by (simp_all add: ref_collectLocked_def Let_def writer_built_def writer_start_def ref_New_def time_Sub_def minute_def
      second_def min_duration_def max_duration_def)

text \<open>The heap after the second and the third copy.\<close>

lemma writer_heap:
  "rwHeap writer_built = \<lparr>hObj = (\<lambda>_. None)
     (0 \<mapsto> RPart (RStrings [''read'']), 1 \<mapsto> RPart (RStrings []), 2 \<mapsto> RPart (RClaims None),
      3 \<mapsto> RPart (RStrings []), 4 \<mapsto> RPart (RJson []), 5 \<mapsto> RToken written_token [0, 1, 2, 3, 4]), hNext = 6\<rparr>"
  by (simp add: writer_built_def writer_start_def ref_New_def new_record_def token_layout_def alloc_def
      written_token_def token_zero_def numeral_eq_Suc)

lemma new_written:
  "new_record token_layout written_token h =
     (hNext h + 5,
      \<lparr>hObj = (hObj h)
        (hNext h \<mapsto> RPart (RStrings [''read'']), hNext h + 1 \<mapsto> RPart (RStrings []), hNext h + 2 \<mapsto> RPart (RClaims None),
         hNext h + 3 \<mapsto> RPart (RStrings []), hNext h + 4 \<mapsto> RPart (RJson []),
         hNext h + 5 \<mapsto> RToken written_token [hNext h, hNext h + 1, hNext h + 2, hNext h + 3, hNext h + 4]),
       hNext = hNext h + 6\<rparr>)"
  by (simp add: new_record_def token_layout_def alloc_def written_token_def token_zero_def numeral_eq_Suc)

lemma writer_created:
  "ref_CreateToken 5 writer_built = (None, writer_created)"
  "writer_created = writer_built\<lparr>rwHeap := snd (new_record token_layout written_token (rwHeap writer_built)),
     rwTokens := [''h'' \<mapsto> 11]\<rparr>"
proof -
  have "tHash written_token = ''h''" by (simp add: written_token_def)
  then have "ref_CreateToken 5 writer_built = (None, writer_built
      \<lparr>rwHeap := snd (new_record token_layout written_token (rwHeap writer_built)), rwTokens := [''h'' \<mapsto> 11]\<rparr>)"
    by (simp add: ref_CreateToken_def ref_cloned_def clone_ref_def writing_sel writer_read(2) clone_written)
      (simp add: new_written writer_heap writing_sel)
  then show "ref_CreateToken 5 writer_built = (None, writer_created)"
    "writer_created = writer_built\<lparr>rwHeap := snd (new_record token_layout written_token (rwHeap writer_built)),
     rwTokens := [''h'' \<mapsto> 11]\<rparr>" by (simp_all add: writer_created_def)
qed

lemma writer_steps:
  "ref_Token ''h'' writer_wrote = (Inr 17, writer_loaded)"
  "read_record token_layout (rwHeap writer_loaded) 17 = Some written_token"
  "read_record token_layout (rwHeap writer_loaded) 5 = Some (written_token\<lparr>tScopes := [''admin'']\<rparr>)"
proof -
  have own: "read_record token_layout (rwHeap writer_wrote) 11 = Some written_token"
    by (subst read_token_at [of _ _ written_token 6 7 8 9 10 "[''read'']" "[]" None "[]" "[]"])
      (simp_all add: writer_wrote_def writer_created(2) new_written writer_heap,
       simp add: written_token_def token_zero_def)
  have toks: "rwTokens writer_wrote = [''h'' \<mapsto> 11]" by (simp add: writer_wrote_def writer_created(2))
  have load: "ref_Token ''h'' writer_wrote = (Inr 17, writer_wrote
      \<lparr>rwHeap := snd (new_record token_layout written_token (rwHeap writer_wrote))\<rparr>)"
    by (simp add: ref_Token_def toks ref_cloned_def clone_ref_def own clone_written)
      (simp add: writer_wrote_def writer_created(2) new_written writer_heap)
  then show "ref_Token ''h'' writer_wrote = (Inr 17, writer_loaded)" by (simp add: writer_loaded_def)
  have heap: "rwHeap writer_loaded = snd (new_record token_layout written_token (rwHeap writer_wrote))"
    by (simp add: writer_loaded_def load)
  show "read_record token_layout (rwHeap writer_loaded) 17 = Some written_token"
    by (subst read_token_at [of _ _ written_token 12 13 14 15 16 "[''read'']" "[]" None "[]" "[]"])
      (simp_all add: heap writer_wrote_def writer_created(2) new_written writer_heap,
       simp add: written_token_def token_zero_def)
  show "read_record token_layout (rwHeap writer_loaded) 5 = Some (written_token\<lparr>tScopes := [''admin'']\<rparr>)"
    by (subst read_token_at [of _ _ written_token 0 1 2 3 4 "[''admin'']" "[]" None "[]" "[]"])
      (simp_all add: heap writer_wrote_def writer_created(2) new_written writer_heap,
       simp add: written_token_def token_zero_def)
qed

lemma writer_run:
  "\<exists>K. 5 \<in> K \<and> ref_run writer_start writer_log writer_loaded K"
proof -
  have "uses robj_refs (rwHeap writer_start) {} (rwHeap writer_built) {0, 1, 2, 3, 4, 5}"
    using token_record.new_record_uses [of written_token "rwHeap writer_start" 5 "rwHeap writer_built" "{}"]
      writer_built writer_read(1) by simp
  from run_uses [OF run_start this]
  have 1: "ref_run writer_start [] writer_built {0, 1, 2, 3, 4, 5}" by (simp add: writer_built_def)
  from run_call [OF 1 call_create_token [OF _ writer_read(2) writer_created(1)]]
  have 2: "ref_run writer_start [EvCreateToken written_token None] writer_created {0, 1, 2, 3, 4, 5}" by simp
  have 3: "ref_run writer_start [EvCreateToken written_token None] writer_wrote {0, 1, 2, 3, 4, 5}"
    using run_uses [OF 2 uses_write [OF uses_start, of 0 _ _ "RPart (RStrings [''admin''])"]]
    by (simp add: writer_wrote_def)
  from run_call [OF 3 call_load_token [OF writer_steps(1)]]
  show ?thesis
    using writer_steps(2) by (intro exI [of _ "{17, 0, 1, 2, 3, 4, 5}"]) (simp add: writer_log_def insert_commute)
qed

lemma memory_pointers_refine_values_witness:
  "serves mem writer_log (value_world writer_start) = Some (value_world writer_loaded) \<and>
   token_read writer_loaded 5 = written_token\<lparr>tScopes := [''admin'']\<rparr>"
proof -
  obtain K where "ref_run writer_start writer_log writer_loaded K" using writer_run by blast
  from memory_pointers_refine_values [OF this] show ?thesis
    using writer_steps(3) by (simp add: separated_New writer_start_def)
qed

end
