(* ===== verification/Grantor_PointerTest.thy ===== *)
theory Grantor_PointerTest
  imports Grantor_MemoryRefs Grantor_StorageTestProps
begin

text \<open>
  \<^verbatim>\<open>testReturnedRecordsAreCopies\<close> of storagetest/storagetest.go with the pointers it has: what it assigns
  through a pointer is seen by everything that holds the same slice. The store of memory/memory.go passes
  it, and a store that keeps the caller's record does not.
\<close>

section \<open>The test\<close>

text \<open>The operations of a storage that the test calls, over the state of a store of pointers.\<close>

record ref_storage =
  rsCreateRequest :: "nat \<Rightarrow> refworld \<Rightarrow> goerr option \<times> refworld"
  rsRequest :: "string \<Rightarrow> refworld \<Rightarrow> (goerr + nat) \<times> refworld"
  rsCreateToken :: "nat \<Rightarrow> refworld \<Rightarrow> goerr option \<times> refworld"
  rsToken :: "string \<Rightarrow> refworld \<Rightarrow> (goerr + nat) \<times> refworld"

definition memory_pointers :: ref_storage where
  "memory_pointers =
     \<lparr>rsCreateRequest = ref_CreateAuthorizationRequest, rsRequest = ref_AuthorizationRequest,
      rsCreateToken = ref_CreateToken, rsToken = ref_Token\<rparr>"

text \<open>A step ends the test with a message or goes on.\<close>

definition test_bind ::
  "(refworld \<Rightarrow> (string + 'a) \<times> refworld) \<Rightarrow> ('a \<Rightarrow> refworld \<Rightarrow> (string + 'b) \<times> refworld) \<Rightarrow>
   refworld \<Rightarrow> (string + 'b) \<times> refworld" where
  "test_bind m f rw = (case m rw of (Inl msg, rw) \<Rightarrow> (Inl msg, rw) | (Inr a, rw) \<Rightarrow> f a rw)"

definition ref_must :: "string \<Rightarrow> (refworld \<Rightarrow> goerr option \<times> refworld) \<Rightarrow> refworld \<Rightarrow> (string + unit) \<times> refworld" where
  "ref_must msg m rw = (let (e, rw) = m rw in (if e \<noteq> None then Inl msg else Inr (), rw))"

definition ref_get :: "string \<Rightarrow> (refworld \<Rightarrow> (goerr + nat) \<times> refworld) \<Rightarrow> refworld \<Rightarrow> (string + nat) \<times> refworld" where
  "ref_get msg m rw = (case m rw of (Inl e, rw) \<Rightarrow> (Inl msg, rw) | (Inr p, rw) \<Rightarrow> (Inr p, rw))"

text \<open>A field of the object behind a pointer, and the address of its slice of scopes.\<close>

definition field_of :: "'r layout \<Rightarrow> ('r \<Rightarrow> string) \<Rightarrow> nat \<Rightarrow> refworld \<Rightarrow> string" where
  "field_of ly f p rw =
     (case hObj (rwHeap rw) p of
        Some x \<Rightarrow> (case lyOpen ly x of Some (v, as) \<Rightarrow> f v | None \<Rightarrow> [])
      | None \<Rightarrow> [])"

definition scopes_of :: "'r layout \<Rightarrow> nat \<Rightarrow> refworld \<Rightarrow> nat option" where
  "scopes_of ly p rw =
     (case hObj (rwHeap rw) p of
        Some x \<Rightarrow> (case lyOpen ly x of Some (v, a # as) \<Rightarrow> Some a | _ \<Rightarrow> None)
      | None \<Rightarrow> None)"

text \<open>\<^verbatim>\<open>p.Scopes[0] = s\<close> and \<^verbatim>\<open>p.Scopes[0] != "openid"\<close>, which panic when there is no element.\<close>

definition set_scope :: "'r layout \<Rightarrow> nat \<Rightarrow> string \<Rightarrow> refworld \<Rightarrow> (string + unit) \<times> refworld" where
  "set_scope ly p s rw =
     (case scopes_of ly p rw of
        Some a \<Rightarrow>
          (case part_at (rwHeap rw) a of
             Some (RStrings (x # xs)) \<Rightarrow>
               (Inr (), rw\<lparr>rwHeap := overwrite a (RPart (RStrings (s # xs))) (rwHeap rw)\<rparr>)
           | _ \<Rightarrow> (Inl ''index out of range'', rw))
      | None \<Rightarrow> (Inl ''index out of range'', rw))"

definition scope_is_openid :: "'r layout \<Rightarrow> nat \<Rightarrow> string \<Rightarrow> refworld \<Rightarrow> (string + unit) \<times> refworld" where
  "scope_is_openid ly p msg rw =
     (case scopes_of ly p rw of
        Some a \<Rightarrow>
          (case part_at (rwHeap rw) a of
             Some (RStrings xs) \<Rightarrow> (check_scope xs msg, rw)
           | _ \<Rightarrow> (Inl ''index out of range'', rw))
      | None \<Rightarrow> (Inl ''index out of range'', rw))"

text \<open>The fixtures, as new records.\<close>

definition ref_built :: "'r layout \<Rightarrow> (time \<Rightarrow> 'r) \<Rightarrow> refworld \<Rightarrow> (string + nat) \<times> refworld" where
  "ref_built ly fixture rw =
     (let (t, env) = world_now (rwEnv rw);
          (p, h) = new_record ly (fixture (time_Truncate t microsecond)) (rwHeap rw)
      in (Inr p, rw\<lparr>rwEnv := env, rwHeap := h\<rparr>))"

text \<open>The test does the same to a request and to a token.\<close>

definition copies_checked ::
  "'r layout \<Rightarrow> ('r \<Rightarrow> string) \<Rightarrow> (nat \<Rightarrow> refworld \<Rightarrow> goerr option \<times> refworld) \<Rightarrow>
   (string \<Rightarrow> refworld \<Rightarrow> (goerr + nat) \<times> refworld) \<Rightarrow> string \<Rightarrow> string \<Rightarrow> string \<Rightarrow> nat \<Rightarrow>
   refworld \<Rightarrow> (string + unit) \<times> refworld" where
  "copies_checked ly key create load loading created_msg returned_msg p =
     test_bind (ref_must (''Create'' @ loading) (create p)) (\<lambda>_.
     test_bind (set_scope ly p ''mutated-after-create'') (\<lambda>_.
     test_bind (ref_get loading (\<lambda>rw. load (field_of ly key p rw) rw)) (\<lambda>got.
     test_bind (scope_is_openid ly got created_msg) (\<lambda>_.
     test_bind (set_scope ly got ''mutated-after-read'') (\<lambda>_.
     test_bind (ref_get loading (\<lambda>rw. load (field_of ly key p rw) rw)) (\<lambda>again.
     scope_is_openid ly again returned_msg))))))"

definition ref_testReturnedRecordsAreCopies ::
  "ref_storage \<Rightarrow> (nat \<Rightarrow> bytes) \<Rightarrow> refworld \<Rightarrow> (string + unit) \<times> refworld" where
  "ref_testReturnedRecordsAreCopies S src =
     test_bind (ref_built request_layout (\<lambda>n. request_fixture n (randomID (src 0)))) (\<lambda>req.
     test_bind (copies_checked request_layout arID (rsCreateRequest S) (rsRequest S) ''AuthorizationRequest''
                  ''storage kept a reference to the created request''
                  ''storage returned a reference to its own request'' req) (\<lambda>_.
     test_bind (ref_built token_layout
                  (\<lambda>n. token_fixture TokenKindAccessToken (randomID (src 1)) n (randomID (src 2)))) (\<lambda>tok.
     copies_checked token_layout tHash (rsCreateToken S) (rsToken S) ''Token''
       ''storage kept a reference to the created token''
       ''storage returned a reference to its own token'' tok)))"

section \<open>Tables of pointers\<close>

text \<open>What creating and loading records promises of a table \<open>tab\<close> of values, and of the \<open>other\<close> table.\<close>

locale pointer_table = record_layout ly for ly :: "'r layout" +
  fixes scopes :: "'r \<Rightarrow> string list" and key :: "'r \<Rightarrow> string" and copy :: "'r \<Rightarrow> 'r"
    and create :: "nat \<Rightarrow> refworld \<Rightarrow> goerr option \<times> refworld"
    and load :: "string \<Rightarrow> refworld \<Rightarrow> (goerr + nat) \<times> refworld"
    and tab :: "world \<Rightarrow> string \<Rightarrow> 'r option" and other :: "world \<Rightarrow> bool"
  assumes join: "lyJoin ly v qs = Some w \<Longrightarrow> \<exists>q qs'. qs = q # qs' \<and> scopes w = as_strings q \<and> key w = key v"
    and open_object: "lyOpen ly (RPart q) = None"
    and creates: "\<lbrakk> separated F rw; p \<in> F; read_record ly (rwHeap rw) p = Some v; tab (value_world rw) (key v) = None \<rbrakk> \<Longrightarrow>
      \<exists>rw' F'. create p rw = (None, rw') \<and> F \<subseteq> F' \<and> separated F' rw' \<and> kept (rwHeap rw) (rwHeap rw') \<and>
        tab (value_world rw') (key v) = Some (copy v) \<and> (other (value_world rw) \<longrightarrow> other (value_world rw'))"
    and loads: "\<lbrakk> separated F rw; tab (value_world rw) k = Some v \<rbrakk> \<Longrightarrow>
      \<exists>q rw' F'. load k rw = (Inr q, rw') \<and> insert q F \<subseteq> F' \<and> separated F' rw' \<and> kept (rwHeap rw) (rwHeap rw') \<and>
        value_world rw' = value_world rw \<and> read_record ly (rwHeap rw') q = Some (copy v)"
begin

lemma read_parts:
  assumes "read_record ly (rwHeap rw) p = Some v"
  shows "\<exists>a x. scopes_of ly p rw = Some a \<and> hObj (rwHeap rw) p = Some x \<and> (\<forall>q. x \<noteq> RPart q) \<and> a \<in> robj_refs x \<and>
     (\<forall>rw'::refworld. hObj (rwHeap rw') p = Some x \<longrightarrow> field_of ly key p rw' = key v) \<and>
     (scopes v \<noteq> [] \<longrightarrow> part_at (rwHeap rw) a = Some (RStrings (scopes v)))"
proof -
  obtain x u as qs where x: "hObj (rwHeap rw) p = Some x" "lyOpen ly x = Some (u, as)"
      "those (map (part_at (rwHeap rw)) as) = Some qs" "lyJoin ly u qs = Some v"
    using assms by (auto simp: read_record_def split: option.split_asm)
  obtain q qs' where q: "qs = q # qs'" "scopes v = as_strings q" "key v = key u"
    using join [OF x(4)] by blast
  obtain a as' where as: "as = a # as'" "part_at (rwHeap rw) a = Some q"
    using x(3) q(1) by (cases as) (auto split: option.split_asm)
  have "q = RStrings (scopes v)" if "scopes v \<noteq> []" using q(2) that by (cases q) auto
  then have "scopes v \<noteq> [] \<longrightarrow> part_at (rwHeap rw) a = Some (RStrings (scopes v))" using as(2) by blast
  moreover have "\<forall>z. x \<noteq> RPart z" using x(2) open_object by auto
  moreover have "a \<in> robj_refs x" using open_refs [OF x(2)] as(1) by simp
  moreover have "scopes_of ly p rw = Some a" using x(1,2) as(1) by (simp add: scopes_of_def)
  moreover have "\<forall>rw'::refworld. hObj (rwHeap rw') p = Some x \<longrightarrow> field_of ly key p rw' = key v"
    using x(2) q(3) by (simp add: field_of_def)
  ultimately show ?thesis using x(1) by blast
qed

lemma set_scope_ok:
  assumes "separated F rw" and "p \<in> F" and "read_record ly (rwHeap rw) p = Some v" and "scopes v = s # ss"
  obtains rw' F' where "set_scope ly p t rw = (Inr (), rw')" and "F \<subseteq> F'" and "separated F' rw'"
    and "value_world rw' = value_world rw"
    and "\<And>r x. hObj (rwHeap rw) r = Some x \<Longrightarrow> \<forall>q. x \<noteq> RPart q \<Longrightarrow> hObj (rwHeap rw') r = Some x"
proof -
  obtain a where a: "scopes_of ly p rw = Some a" "part_at (rwHeap rw) a = Some (RStrings (s # ss))"
      "\<exists>x. hObj (rwHeap rw) p = Some x \<and> (\<forall>q. x \<noteq> RPart q) \<and> a \<in> robj_refs x"
    using read_parts [OF assms(3)] assms(4) by auto
  let ?h = "overwrite a (RPart (RStrings (t # ss))) (rwHeap rw)"
  obtain x where x: "hObj (rwHeap rw) p = Some x" "a \<in> robj_refs x" using a(3) by blast
  have "uses robj_refs (rwHeap rw) F (rwHeap rw) (F \<union> robj_refs x)"
    by (rule uses_read [OF uses_start assms(2) x(1)])
  then have "uses robj_refs (rwHeap rw) F ?h (F \<union> robj_refs x)"
    using uses_write [of robj_refs "rwHeap rw" F "rwHeap rw" "F \<union> robj_refs x" a "RPart (RStrings (t # ss))"] x(2) by simp
  note u = separated_uses [OF assms(1) subset_refl this]
  obtain F' where "F \<union> (F \<union> robj_refs x) \<subseteq> F'" "separated F' (rw\<lparr>rwHeap := ?h\<rparr>)" using u(1) by blast
  moreover have "hObj ?h r = Some y" if "hObj (rwHeap rw) r = Some y" "\<forall>q. y \<noteq> RPart q" for r y
    using that a(2) by (auto simp: part_at_def split: robj.split_asm)
  moreover have "set_scope ly p t rw = (Inr (), rw\<lparr>rwHeap := ?h\<rparr>)" by (simp add: set_scope_def a(1,2))
  ultimately show ?thesis using that [of "rw\<lparr>rwHeap := ?h\<rparr>" F'] u(2) by auto
qed

lemma scope_is_openid_ok:
  assumes "read_record ly (rwHeap rw) p = Some v" and "scopes v = ''openid'' # ss"
  shows "scope_is_openid ly p msg rw = (Inr (), rw)"
proof -
  obtain a where "scopes_of ly p rw = Some a" "part_at (rwHeap rw) a = Some (RStrings (''openid'' # ss))"
    using read_parts [OF assms(1)] assms(2) by auto
  then show ?thesis by (simp add: scope_is_openid_def check_scope_def)
qed

lemma copies_checked_ok:
  assumes "separated F rw" and "p \<in> F" and "read_record ly (rwHeap rw) p = Some v"
    and "tab (value_world rw) (key v) = None" and "copy v = v" and "scopes v = ''openid'' # ss"
    and "other (value_world rw)"
  shows "\<exists>rw' F'. copies_checked ly key create load loading m1 m2 p rw = (Inr (), rw') \<and> F \<subseteq> F' \<and> separated F' rw' \<and>
     other (value_world rw')"
proof -
  obtain x where x: "hObj (rwHeap rw) p = Some x" "\<forall>q. x \<noteq> RPart q"
      "\<And>rw'::refworld. hObj (rwHeap rw') p = Some x \<Longrightarrow> field_of ly key p rw' = key v"
    using read_parts [OF assms(3)] by blast
  have old: "p < hNext (rwHeap rw)" using separatedD(2) [OF assms(1)] assms(2) by blast
  obtain rw1 F1 where 1: "create p rw = (None, rw1)" "F \<subseteq> F1" "separated F1 rw1" "kept (rwHeap rw) (rwHeap rw1)"
      "tab (value_world rw1) (key v) = Some v" "other (value_world rw) \<Longrightarrow> other (value_world rw1)"
    using creates [OF assms(1-4)] unfolding assms(5) by blast
  have same: "hObj (rwHeap rw1) a = hObj (rwHeap rw) a" if "a \<in> footprint_of (rwHeap rw) p" for a
  proof -
    have "a \<in> F"
      using that assms(2) x(1) closed_regionD [OF separatedD(3) [OF assms(1)] assms(2) x(1)]
      by (auto simp: footprint_of_def)
    then show ?thesis using separatedD(2) [OF assms(1)] keptD(1) [OF 1(4)] by blast
  qed
  have r1: "read_record ly (rwHeap rw1) p = Some v" using read_frame(1) [OF same] assms(3) by simp
  obtain rw2 F2 where 2: "set_scope ly p ''mutated-after-create'' rw1 = (Inr (), rw2)" "F1 \<subseteq> F2" "separated F2 rw2"
      "value_world rw2 = value_world rw1"
      "\<And>r x. hObj (rwHeap rw1) r = Some x \<Longrightarrow> \<forall>q. x \<noteq> RPart q \<Longrightarrow> hObj (rwHeap rw2) r = Some x"
    using set_scope_ok [OF 1(3) _ r1 assms(6)] assms(2) 1(2) by blast
  have p2: "hObj (rwHeap rw2) p = Some x" using 2(5) x(1,2) keptD(1) [OF 1(4) old] by simp
  obtain got rw3 F3 where 3: "load (key v) rw2 = (Inr got, rw3)" "insert got F2 \<subseteq> F3" "separated F3 rw3"
      "kept (rwHeap rw2) (rwHeap rw3)" "value_world rw3 = value_world rw2" "read_record ly (rwHeap rw3) got = Some v"
    using loads [OF 2(3), of "key v" v] 1(5) 2(4) assms(5) by auto
  have lt: "p < hNext (rwHeap rw2)" using separatedD(2) [OF 2(3)] assms(2) 1(2) 2(2) by blast
  obtain rw4 F4 where 4: "set_scope ly got ''mutated-after-read'' rw3 = (Inr (), rw4)" "F3 \<subseteq> F4" "separated F4 rw4"
      "value_world rw4 = value_world rw3"
      "\<And>r x. hObj (rwHeap rw3) r = Some x \<Longrightarrow> \<forall>q. x \<noteq> RPart q \<Longrightarrow> hObj (rwHeap rw4) r = Some x"
    using set_scope_ok [OF 3(3) _ 3(6) assms(6)] 3(2) by blast
  have p4: "hObj (rwHeap rw4) p = Some x" using 4(5) x(2) keptD(1) [OF 3(4) lt] p2 by simp
  obtain again rw5 F5 where 5: "load (key v) rw4 = (Inr again, rw5)" "insert again F4 \<subseteq> F5" "separated F5 rw5"
      "read_record ly (rwHeap rw5) again = Some v" "value_world rw5 = value_world rw4"
    using loads [OF 4(3), of "key v" v] 1(5) 2(4) 3(5) 4(4) assms(5) by auto
  have "copies_checked ly key create load loading m1 m2 p rw = (Inr (), rw5)"
    by (simp add: copies_checked_def test_bind_def ref_must_def ref_get_def 1(1) 2(1) 3(1) 4(1) 5(1) x(3) [OF p2]
        x(3) [OF p4] scope_is_openid_ok [OF 3(6) assms(6)] scope_is_openid_ok [OF 5(4) assms(6)])
  moreover have "F \<subseteq> F5" using 1(2) 2(2) 3(2) 4(2) 5(2) by blast
  moreover have "other (value_world rw5)" using 1(6) assms(7) 2(4) 3(5) 4(4) 5(5) by simp
  ultimately show ?thesis using 5(3) by blast
qed

end

text \<open>The tables of memory/memory.go.\<close>

lemma cloned_kept:
  "separated F rw \<Longrightarrow> record_layout ly \<Longrightarrow> ref_cloned ly f p rw = (q, rw') \<Longrightarrow> kept (rwHeap rw) (rwHeap rw')"
  using separated_clone(7) by (fastforce simp: ref_cloned_def split: prod.splits)

lemma cloned_loads:
  assumes "separated F rw" and "record_layout ly" and "ref_cloned ly f p rw = (q, rw')"
  shows "insert q F \<subseteq> F \<union> footprint_of (rwHeap rw') q \<and> separated (F \<union> footprint_of (rwHeap rw') q) rw' \<and>
     kept (rwHeap rw) (rwHeap rw') \<and> value_world rw' = value_world rw \<and>
     read_record ly (rwHeap rw') q = Some (f (the (read_record ly (rwHeap rw) p)))"
  using cloned_out [OF assms] cloned_kept [OF assms] by blast

lemma view_pointer:
  "table_view ly h m k = Some v \<Longrightarrow> \<exists>p. m k = Some p \<and> read_record ly h p = Some v"
  by (auto simp: table_view_def split: option.split_asm)

lemma store_create_free:
  "msRequests s (arID q) = None \<Longrightarrow> store_CreateAuthorizationRequest now q s =
     (None, (store_collectLocked now s)\<lparr>msRequests := (msRequests (store_collectLocked now s))(arID q \<mapsto> clone_request q)\<rparr>)"
  "msTokens s (tHash t) = None \<Longrightarrow> store_CreateToken now t s =
     (None, (store_collectLocked now s)\<lparr>msTokens := (msTokens (store_collectLocked now s))(tHash t \<mapsto> clone_token t)\<rparr>)"
  by (simp_all add: store_CreateAuthorizationRequest_def store_CreateToken_def store_collectLocked_def Let_def
      drop_expired_def)

lemma create_request_kept:
  assumes "separated F rw" and "ref_CreateAuthorizationRequest p rw = (r, rw')"
  shows "kept (rwHeap rw) (rwHeap rw')"
proof -
  obtain q rw1 where q: "ref_cloned request_layout clone_request p (ref_collectLocked rw) = (q, rw1)" by fastforce
  show ?thesis
    using assms(2) cloned_kept [OF separated_collect(1) [OF assms(1)] layouts(2) q] q
    by (auto simp: ref_CreateAuthorizationRequest_def Let_def split: option.split_asm)
qed

lemma create_token_kept:
  assumes "separated F rw" and "ref_CreateToken p rw = (r, rw')"
  shows "kept (rwHeap rw) (rwHeap rw')"
proof -
  obtain q rw1 where q: "ref_cloned token_layout clone_token p (ref_collectLocked rw) = (q, rw1)" by fastforce
  show ?thesis
    using assms(2) cloned_kept [OF separated_collect(1) [OF assms(1)] layouts(3) q] q
    by (auto simp: ref_CreateToken_def Let_def split: option.split_asm)
qed

interpretation request_table: pointer_table request_layout arScopes arID clone_request
  ref_CreateAuthorizationRequest ref_AuthorizationRequest "\<lambda>w. msRequests (wStore w)" "\<lambda>w. msTokens (wStore w) h = None" for h
proof unfold_locales
  fix v w qs assume "lyJoin request_layout v qs = Some w"
  then show "\<exists>q qs'. qs = q # qs' \<and> arScopes w = as_strings q \<and> arID w = arID v"
    by (cases qs) (auto simp: request_layout_def request_join_def split: if_split_asm)
next
  fix q show "lyOpen request_layout (RPart q) = None" by (simp add: request_layout_def)
next
  fix F rw p v
  assume a: "separated F rw" "p \<in> F" "read_record request_layout (rwHeap rw) p = Some v"
    "msRequests (wStore (value_world rw)) (arID v) = None"
  obtain r rw' where c: "ref_CreateAuthorizationRequest p rw = (r, rw')" by fastforce
  have ref: "refines F rw (EvCreateRequest v r) rw' F" by (rule refines_create_request [OF a(1) subset_refl a(3) c])
  then obtain F' where "F \<subseteq> F'" "separated F' rw'" by (auto simp: refines_def)
  moreover have new: "r = None" "value_world rw' = (value_world rw)\<lparr>wStore := (store_collectLocked (wNow (rwEnv rw)) (wStore (value_world rw)))
      \<lparr>msRequests := (msRequests (store_collectLocked (wNow (rwEnv rw)) (wStore (value_world rw))))(arID v \<mapsto> clone_request v)\<rparr>\<rparr>"
    using ref unfolding refines_def
    by (simp_all add: answered_def on_store_def store_create_free(1) [OF a(4)] split: if_split_asm)
  moreover have "msRequests (wStore (value_world rw')) (arID v) = Some (clone_request v)" unfolding new(2) by simp
  moreover have "msTokens (wStore (value_world rw)) h = None \<longrightarrow> msTokens (wStore (value_world rw')) h = None"
    unfolding new(2) by (simp add: store_collectLocked_def Let_def drop_expired_def)
  ultimately show "\<exists>rw' F'. ref_CreateAuthorizationRequest p rw = (None, rw') \<and> F \<subseteq> F' \<and> separated F' rw' \<and>
      kept (rwHeap rw) (rwHeap rw') \<and> msRequests (wStore (value_world rw')) (arID v) = Some (clone_request v) \<and>
      (msTokens (wStore (value_world rw)) h = None \<longrightarrow> msTokens (wStore (value_world rw')) h = None)"
    using c create_request_kept [OF a(1) c] by (intro exI [of _ rw'] exI [of _ F'] conjI) simp_all
next
  fix F rw k v assume a: "separated F rw" "msRequests (wStore (value_world rw)) k = Some v"
  then obtain p where p: "rwRequests rw k = Some p" "read_record request_layout (rwHeap rw) p = Some v"
    using view_pointer [of request_layout "rwHeap rw" "rwRequests rw" k v] by auto
  obtain q rw' where q: "ref_cloned request_layout clone_request p rw = (q, rw')" by fastforce
  then show "\<exists>q rw' F'. ref_AuthorizationRequest k rw = (Inr q, rw') \<and> insert q F \<subseteq> F' \<and> separated F' rw' \<and>
      kept (rwHeap rw) (rwHeap rw') \<and> value_world rw' = value_world rw \<and>
      read_record request_layout (rwHeap rw') q = Some (clone_request v)"
    using cloned_loads [OF a(1) layouts(2) q] p by (auto simp: ref_AuthorizationRequest_def)
qed

interpretation token_table: pointer_table token_layout tScopes tHash clone_token
  ref_CreateToken ref_Token "\<lambda>w. msTokens (wStore w)" "\<lambda>_. True"
proof unfold_locales
  fix v w qs assume "lyJoin token_layout v qs = Some w"
  then show "\<exists>q qs'. qs = q # qs' \<and> tScopes w = as_strings q \<and> tHash w = tHash v"
    by (cases qs) (auto simp: token_layout_def token_join_def split: if_split_asm)
next
  fix q show "lyOpen token_layout (RPart q) = None" by (simp add: token_layout_def)
next
  fix F rw p v
  assume a: "separated F rw" "p \<in> F" "read_record token_layout (rwHeap rw) p = Some v"
    "msTokens (wStore (value_world rw)) (tHash v) = None"
  obtain r rw' where c: "ref_CreateToken p rw = (r, rw')" by fastforce
  have ref: "refines F rw (EvCreateToken v r) rw' F" by (rule refines_create_token [OF a(1) subset_refl a(3) c])
  then obtain F' where "F \<subseteq> F'" "separated F' rw'" by (auto simp: refines_def)
  moreover have new: "r = None" "value_world rw' = (value_world rw)\<lparr>wStore := (store_collectLocked (wNow (rwEnv rw)) (wStore (value_world rw)))
      \<lparr>msTokens := (msTokens (store_collectLocked (wNow (rwEnv rw)) (wStore (value_world rw))))(tHash v \<mapsto> clone_token v)\<rparr>\<rparr>"
    using ref unfolding refines_def
    by (simp_all add: answered_def on_store_def store_create_free(2) [OF a(4)] split: if_split_asm)
  moreover have "msTokens (wStore (value_world rw')) (tHash v) = Some (clone_token v)" unfolding new(2) by simp
  ultimately show "\<exists>rw' F'. ref_CreateToken p rw = (None, rw') \<and> F \<subseteq> F' \<and> separated F' rw' \<and>
      kept (rwHeap rw) (rwHeap rw') \<and> msTokens (wStore (value_world rw')) (tHash v) = Some (clone_token v) \<and> (True \<longrightarrow> True)"
    using c create_token_kept [OF a(1) c] by (intro exI [of _ rw'] exI [of _ F'] conjI) simp_all
next
  fix F rw k v assume a: "separated F rw" "msTokens (wStore (value_world rw)) k = Some v"
  then obtain p where p: "rwTokens rw k = Some p" "read_record token_layout (rwHeap rw) p = Some v"
    using view_pointer [of token_layout "rwHeap rw" "rwTokens rw" k v] by auto
  obtain q rw' where q: "ref_cloned token_layout clone_token p rw = (q, rw')" by fastforce
  then show "\<exists>q rw' F'. ref_Token k rw = (Inr q, rw') \<and> insert q F \<subseteq> F' \<and> separated F' rw' \<and>
      kept (rwHeap rw) (rwHeap rw') \<and> value_world rw' = value_world rw \<and>
      read_record token_layout (rwHeap rw') q = Some (clone_token v)"
    using cloned_loads [OF a(1) layouts(3) q] p by (auto simp: ref_Token_def)
qed

section \<open>The store passes\<close>

lemma ref_built_ok:
  assumes "separated F rw" and "record_layout ly"
  shows "\<exists>n p rw' F'. ref_built ly fixture rw = (Inr p, rw') \<and> insert p F \<subseteq> F' \<and> separated F' rw' \<and>
     read_record ly (rwHeap rw') p = Some (fixture n) \<and> wStore (value_world rw') = wStore (value_world rw)"
proof -
  obtain t env where t: "world_now (rwEnv rw) = (t, env)" by fastforce
  let ?v = "fixture (time_Truncate t microsecond)"
  obtain p h where p: "new_record ly ?v (rwHeap rw) = (p, h)" by fastforce
  note u = separated_uses [OF assms(1) subset_refl record_layout.new_record_uses [OF assms(2) p]]
  obtain F' where F': "F \<union> (F \<union> footprint_of h p) \<subseteq> F'" "separated F' (rw\<lparr>rwHeap := h\<rparr>)" using u(1) by blast
  have "separated F' (rw\<lparr>rwEnv := env, rwHeap := h\<rparr>)" using F'(2) by (simp add: separated_def)
  moreover have "wStore (value_world (rw\<lparr>rwEnv := env, rwHeap := h\<rparr>)) = wStore (value_world (rw\<lparr>rwHeap := h\<rparr>))"
    by (simp add: value_world_def)
  moreover have "read_record ly h p = Some ?v"
    by (rule record_layout.new_record_facts(3) [OF assms(2) p separatedD(1) [OF assms(1)]])
  moreover have "insert p F \<subseteq> F'" using F'(1) by (auto simp: footprint_of_def)
  moreover have "ref_built ly fixture rw = (Inr p, rw\<lparr>rwEnv := env, rwHeap := h\<rparr>)" by (simp add: ref_built_def t p)
  ultimately show ?thesis unfolding u(2) by fastforce
qed

lemma fixture_facts:
  "arID (request_fixture n i) = i" "arScopes (request_fixture n i) = ''openid'' # [''profile'']"
  "clone_request (request_fixture n (randomID b)) = request_fixture n (randomID b)"
  "tHash (token_fixture k g n i) = i" "tScopes (token_fixture k g n i) = ''openid'' # [''offline_access'']"
  "clone_token (token_fixture k (randomID c) n (randomID b)) = token_fixture k (randomID c) n (randomID b)"
proof -
  have "is_ascii (randomID b)" for b by (simp add: randomID_def b64_encode_ascii)
  then show "clone_request (request_fixture n (randomID b)) = request_fixture n (randomID b)"
    "clone_token (token_fixture k (randomID c) n (randomID b)) = token_fixture k (randomID c) n (randomID b)"
    by (rule clone_request_fixture, intro clone_token_fixture) simp_all
qed (simp_all add: request_fixture_def token_fixture_def)

theorem memory_returns_copies:
  assumes "separated F rw" and "msRequests (wStore (value_world rw)) (randomID (src 0)) = None"
    and "msTokens (wStore (value_world rw)) (randomID (src 2)) = None"
  shows "fst (ref_testReturnedRecordsAreCopies memory_pointers src rw) = Inr ()"
proof -
  obtain n req rw1 F1 where 1: "ref_built request_layout (\<lambda>n. request_fixture n (randomID (src 0))) rw = (Inr req, rw1)"
      "insert req F \<subseteq> F1" "separated F1 rw1"
      "read_record request_layout (rwHeap rw1) req = Some (request_fixture n (randomID (src 0)))"
      "wStore (value_world rw1) = wStore (value_world rw)"
    using ref_built_ok [OF assms(1) layouts(2)] by blast
  have free: "msRequests (wStore (value_world rw1)) (arID (request_fixture n (randomID (src 0)))) = None"
    "msTokens (wStore (value_world rw1)) (randomID (src 2)) = None"
    unfolding 1(5) fixture_facts(1) by (rule assms(2,3))+
  have "req \<in> F1" using 1(2) by blast
  from request_table.copies_checked_ok [OF 1(3) this 1(4) free(1) fixture_facts(3,2) free(2)]
  obtain rw2 F2 where 2: "copies_checked request_layout arID ref_CreateAuthorizationRequest ref_AuthorizationRequest
      ''AuthorizationRequest'' ''storage kept a reference to the created request''
      ''storage returned a reference to its own request'' req rw1 = (Inr (), rw2)" "separated F2 rw2"
      "msTokens (wStore (value_world rw2)) (randomID (src 2)) = None" by blast
  let ?t = "\<lambda>n. token_fixture TokenKindAccessToken (randomID (src 1)) n (randomID (src 2))"
  obtain n tok rw3 F3 where 3: "ref_built token_layout ?t rw2 = (Inr tok, rw3)" "insert tok F2 \<subseteq> F3" "separated F3 rw3"
      "read_record token_layout (rwHeap rw3) tok = Some (?t n)" "wStore (value_world rw3) = wStore (value_world rw2)"
    using ref_built_ok [OF 2(2) layouts(3)] by blast
  have free: "msTokens (wStore (value_world rw3)) (tHash (?t n)) = None"
    unfolding 3(5) fixture_facts(4) by (rule 2(3))
  have "tok \<in> F3" using 3(2) by blast
  from token_table.copies_checked_ok [OF 3(3) this 3(4) free fixture_facts(6,5) TrueI]
  obtain rw4 where "copies_checked token_layout tHash ref_CreateToken ref_Token ''Token''
      ''storage kept a reference to the created token'' ''storage returned a reference to its own token'' tok rw3 = (Inr (), rw4)"
    by blast
  then show ?thesis
    using 3(1) by (simp add: ref_testReturnedRecordsAreCopies_def memory_pointers_def test_bind_def 1(1) 2(1))
qed

section \<open>A store without copies fails\<close>

text \<open>A store that keeps the pointers it is passed, and returns them.\<close>

definition sharing_pointers :: ref_storage where
  "sharing_pointers = memory_pointers
     \<lparr>rsCreateRequest := (\<lambda>p rw. (None, rw\<lparr>rwRequests := (rwRequests rw)(field_of request_layout arID p rw \<mapsto> p)\<rparr>)),
      rsRequest := (\<lambda>i rw. case rwRequests rw i of None \<Rightarrow> (Inl ErrNotFound, rw) | Some p \<Rightarrow> (Inr p, rw))\<rparr>"

lemma sharing_fails:
  "fst (ref_testReturnedRecordsAreCopies sharing_pointers src (ref_New env)) =
     Inl ''storage kept a reference to the created request''"
proof -
  obtain t env' where t: "world_now env = (t, env')" by fastforce
  define q where "q = request_fixture (time_Truncate t microsecond) (randomID (src 0))"
  have sel: "arID q = randomID (src 0)" "arScopes q = [''openid'', ''profile'']" by (simp_all add: q_def fixture_facts)
  show ?thesis
    by (simp add: ref_testReturnedRecordsAreCopies_def test_bind_def ref_built_def ref_New_def t q_def [symmetric]
        copies_checked_def ref_must_def ref_get_def sharing_pointers_def set_scope_def scopes_of_def field_of_def
        request_layout_def new_record_def alloc_def sel part_at_def scope_is_openid_def check_scope_def)
qed

end
