(* ===== verification/Example_Opapp.thy ===== *)
theory Example_Opapp
  imports Grantor_Server Grantor_Memory
begin

text \<open>
  examples/internal/opapp/opapp.go: the example OpenID Provider, with login and consent pages around
  the library's endpoints.

  The sessions are the state of the application, passed from call to call: a session never changes
  after it was created, and shares the map of its consents, which is behind a reference, with later
  sessions of the same end-user. A request is served in one go; the library's calls are those of
  \<open>prog\<close>, and \<^verbatim>\<open>time.Now\<close> and \<^verbatim>\<open>rand.Read\<close> are its clock and random source.

  Parameters stand for what is not in the repository, the fields \<open>env...\<close> of an application: comparing
  a password with a bcrypt hash, executing an HTML template, the form that \<^verbatim>\<open>PostFormValue\<close> parses from
  a body of at most 16 KiB, whether the connection uses TLS, and which of the registered patterns
  http.ServeMux finds for a request (none when it answers by itself, redirecting to the clean path).
\<close>

section \<open>Users and sessions\<close>

record User =
  usSubject :: string
  usUsername :: string
  usPasswordHash :: bytes
  usClaims :: json_map

record consent =
  csAsked :: "string list"
  csGranted :: "string list"

text \<open>\<open>seConsents\<close> refers to the map of consents.\<close>

record session =
  seSubject :: string
  seAuthTime :: time
  seConsents :: nat

text \<open>What changes while the application runs; \<open>asNext\<close> is the reference of the next map.\<close>

record AppState =
  asSessions :: "string \<Rightarrow> session option"
  asConsents :: "nat \<Rightarrow> string \<Rightarrow> consent option"
  asNext :: nat

text \<open>The data of a page.\<close>

datatype page =
  LoginPage AuthorizationRequest string string
| ConsentPage AuthorizationRequest "string list"
| ErrorPage string

record environment =
  envBcrypt :: "bytes \<Rightarrow> string \<Rightarrow> bool"
  envTemplate :: "string \<Rightarrow> page \<Rightarrow> bytes"
  envPostForm :: "Request \<Rightarrow> url_values"
  envTLS :: "Request \<Rightarrow> bool"
  envMux :: "Request \<Rightarrow> string option"
  envMuxAnswer :: "Request \<Rightarrow> ResponseWriter \<Rightarrow> ResponseWriter"

record App =
  appProvider :: Provider
  appAutoConsent :: bool
  appUsers :: "string \<Rightarrow> User option"
  appDummyHash :: bytes
  appEnv :: environment

record OpConfig =
  ocIssuer :: string
  ocClients :: "Client list"
  ocAutoConsent :: bool

abbreviation (input) "CodeLoginRequired \<equiv> ''login_required''"
abbreviation (input) "CodeConsentRequired \<equiv> ''consent_required''"

definition op_session :: string where "op_session = ''op_session''"

section \<open>Pages\<close>

definition renderStatus ::
  "environment \<Rightarrow> int \<Rightarrow> string \<Rightarrow> page \<Rightarrow> ResponseWriter \<Rightarrow> ResponseWriter" where
  "renderStatus env status name data w =
     writer_Write (BodyBytes (envTemplate env name data))
       (WriteHeader status
         (header_Set ''Cache-Control'' ''no-store''
           (header_Set ''Content-Type'' ''text/html; charset=utf-8'' w)))"

definition render :: "environment \<Rightarrow> string \<Rightarrow> page \<Rightarrow> ResponseWriter \<Rightarrow> ResponseWriter" where
  "render env name data w = renderStatus env 200 name data w"

definition errorPage :: "environment \<Rightarrow> ErrorPageFunc" where
  "errorPage env w r err =
     renderStatus env (perror_HTTPStatus err) ''error.html''
       (ErrorPage (''The sign-in request is invalid: '' @ eCode err @ ''. '' @ eDescription err)) w"

definition renderError :: "App \<Rightarrow> goerr \<Rightarrow> ResponseWriter \<Rightarrow> ResponseWriter" where
  "renderError a err w =
     (let (status, msg) =
        (if errors_Is err ErrAuthorizationRequestNotFound
         then (400, ''This sign-in request has expired or was already completed. Return to the application and try again.'')
         else (500, ''Something went wrong.''))
      in renderStatus (appEnv a) status ''error.html'' (ErrorPage msg) w)"

text \<open>\<^verbatim>\<open>http.Redirect\<close> to a path of the same site.\<close>

definition html_escape :: "string \<Rightarrow> string" where
  "html_escape s =
     concat (map (\<lambda>c. if c = CHR ''&'' then ''&amp;'' else if c = CHR ''<'' then ''&lt;''
                      else if c = CHR ''>'' then ''&gt;'' else if c = CHR 0x22 then ''&#34;''
                      else if c = CHR 0x27 then ''&#39;'' else [c]) s)"

definition http_Redirect :: "Request \<Rightarrow> string \<Rightarrow> int \<Rightarrow> ResponseWriter \<Rightarrow> ResponseWriter" where
  "http_Redirect r location code w =
     (let hadCT = map_of (wHeader w) ''Content-Type'' \<noteq> None;
          w = header_Set ''Location'' location w;
          w = (if \<not> hadCT \<and> (rMethod r = ''GET'' \<or> rMethod r = ''HEAD'')
               then header_Set ''Content-Type'' ''text/html; charset=utf-8'' w else w);
          w = WriteHeader code w
      in if \<not> hadCT \<and> rMethod r = ''GET''
         then writer_Write (BodyText (''<a href='' @ [CHR 0x22] @ html_escape location @ [CHR 0x22]
                @ ''>'' @ (if code = 302 then ''Found'' else ''See Other'') @ ''</a>.'' @ [CHR 0x0A, CHR 0x0A])) w
         else w)"

section \<open>Sessions\<close>

definition sessionLocked :: "AppState \<Rightarrow> Request \<Rightarrow> session option" where
  "sessionLocked st r =
     (case request_Cookie r op_session of None \<Rightarrow> None | Some v \<Rightarrow> asSessions st v)"

definition currentSession :: "AppState \<Rightarrow> Request \<Rightarrow> session option" where
  "currentSession st r = sessionLocked st r"

definition session_cookie :: "App \<Rightarrow> Request \<Rightarrow> string \<Rightarrow> Cookie" where
  "session_cookie a r i =
     \<lparr>ckName = op_session, ckValue = i, ckPath = ''/'', ckMaxAge = 0, ckSecure = envTLS (appEnv a) r,
      ckHttpOnly = True, ckSameSiteLax = True\<rparr>"

text \<open>A new session gets the map of the session the request has, when it is of the same end-user.\<close>

definition new_session :: "AppState \<Rightarrow> Request \<Rightarrow> string \<Rightarrow> time \<Rightarrow> session" where
  "new_session st r subject now =
     (let s = \<lparr>seSubject = subject, seAuthTime = now, seConsents = asNext st\<rparr> in
      case sessionLocked st r of
        None \<Rightarrow> s
      | Some old \<Rightarrow> if seSubject old = subject then s\<lparr>seConsents := seConsents old\<rparr> else s)"

definition startSession ::
  "App \<Rightarrow> AppState \<Rightarrow> ResponseWriter \<Rightarrow> Request \<Rightarrow> string \<Rightarrow> (ResponseWriter \<times> AppState \<times> session) prog" where
  "startSession a st w r subject =
     bind randomToken (\<lambda>i.
     bind provider_now (\<lambda>now.
       let s = new_session st r subject now;
           st = st\<lparr>asConsents := (asConsents st)(asNext st := Map.empty), asNext := asNext st + 1,
                   asSessions := (asSessions st)(i \<mapsto> s)\<rparr>
       in Ret (http_SetCookie (session_cookie a r i) w, st, s)))"

section \<open>Answering the authorization request\<close>

definition consentItems :: "AuthorizationRequest \<Rightarrow> string list" where
  "consentItems req = arScopes req @ map (\<lambda>name. ''claim:'' @ name) (ClaimsRequest_Names (arClaims req))"

fun containsAll :: "string list \<Rightarrow> string list \<Rightarrow> bool" where
  "containsAll xs [] = True"
| "containsAll xs (v # vs) = (if v \<notin> set xs then False else containsAll xs vs)"

text \<open>The loop of \<^verbatim>\<open>approve\<close>: what was granted of the items, as scopes and claims.\<close>

fun granted_items ::
  "string list \<Rightarrow> string list \<times> string list \<Rightarrow> string list \<Rightarrow> string list \<times> string list" where
  "granted_items granted acc [] = acc"
| "granted_items granted (scopes, claims) (item # items) =
     granted_items granted
       (if item \<notin> set granted then (scopes, claims)
        else case strings_CutPrefix item ''claim:'' of
               Some name \<Rightarrow> (scopes, claims @ [name])
             | None \<Rightarrow> (scopes @ [item], claims)) items"

definition op_approval :: "AuthorizationRequest \<Rightarrow> session \<Rightarrow> string list \<Rightarrow> Approval" where
  "op_approval req s granted =
     (let (scopes, claims) = granted_items granted ([], []) (consentItems req);
          acr = (if ''1'' \<in> set (arACRValues req) then ''1'' else [])
      in \<lparr>apSubject = seSubject s, apScopes = scopes, apAuthTime = seAuthTime s, apACR = acr,
          apAMR = [''pwd''], apClaims = claims, apAudience = arAudience req\<rparr>)"

definition op_approve ::
  "App \<Rightarrow> ResponseWriter \<Rightarrow> Request \<Rightarrow> AuthorizationRequest \<Rightarrow> session \<Rightarrow> string list \<Rightarrow>
     ResponseWriter prog" where
  "op_approve a w r req s granted =
     bind (Approve (appProvider a) w r (Some req) (op_approval req s granted)) (\<lambda>x. Ret
       (case x of Inl err \<Rightarrow> renderError a err w | Inr w \<Rightarrow> w))"

definition op_deny ::
  "App \<Rightarrow> ResponseWriter \<Rightarrow> Request \<Rightarrow> AuthorizationRequest \<Rightarrow> string \<Rightarrow> ResponseWriter prog" where
  "op_deny a w r req code =
     bind (Deny (appProvider a) w r (Some req) (Some (PError code [] [] 0 None))) (\<lambda>x. Ret
       (case x of Inl err \<Rightarrow> renderError a err w | Inr w \<Rightarrow> w))"

text \<open>The operands of \<^verbatim>\<open>loginNeeded\<close>; the clock is only read for a session.\<close>

definition loginNeeded :: "AuthorizationRequest \<Rightarrow> session option \<Rightarrow> bool prog" where
  "loginNeeded req so =
     (case so of
        None \<Rightarrow> Ret True
      | Some s \<Rightarrow>
          bind provider_now (\<lambda>now. Ret
            (needsAuthentication req (seAuthTime s) now \<or>
             (arRequestedSubject req \<noteq> [] \<and> arRequestedSubject req \<noteq> seSubject s) \<or>
             (arHasPrompt req ''select_account'' \<and> time_Before (seAuthTime s) (arCreatedAt req)))))"

definition continueRequest ::
  "App \<Rightarrow> AppState \<Rightarrow> ResponseWriter \<Rightarrow> Request \<Rightarrow> AuthorizationRequest \<Rightarrow> session option \<Rightarrow>
     ResponseWriter prog" where
  "continueRequest a st w r req so =
     bind (loginNeeded req so) (\<lambda>needed.
       if needed then
         (if arHasPrompt req ''none'' then op_deny a w r req CodeLoginRequired
          else Ret (http_Redirect r (''/login?id='' @ url_QueryEscape (arID req)) 302 w))
       else
         (let s = the so in
          if appAutoConsent a then op_approve a w r req s (consentItems req)
          else
            (let previous = asConsents st (seConsents s) (arClientID req);
                 decided = (case previous of
                              None \<Rightarrow> False | Some c \<Rightarrow> containsAll (csAsked c) (consentItems req))
             in if \<not> decided \<or> arHasPrompt req ''consent'' then
                  (if arHasPrompt req ''none'' then op_deny a w r req CodeConsentRequired
                   else Ret (render (appEnv a) ''consent.html''
                          (ConsentPage req (ClaimsRequest_Names (arClaims req))) w))
                else op_approve a w r req s (csGranted (the previous)))))"

definition interact :: "App \<Rightarrow> AppState \<Rightarrow> InteractionFunc" where
  "interact a st w r req = continueRequest a st w r req (currentSession st r)"

section \<open>The pages' handlers\<close>

type_synonym served = "(ResponseWriter \<times> AppState) prog"

definition showLogin :: "App \<Rightarrow> AppState \<Rightarrow> ResponseWriter \<Rightarrow> Request \<Rightarrow> served" where
  "showLogin a st w r =
     bind (provider_AuthorizationRequest (appProvider a) r (values_Get (rQuery r) ''id'')) (\<lambda>x. Ret
       (case x of
          Inl err \<Rightarrow> (renderError a err w, st)
        | Inr req \<Rightarrow> (render (appEnv a) ''login.html'' (LoginPage req [] (arLoginHint req)) w, st)))"

definition answering :: "AppState \<Rightarrow> ResponseWriter prog \<Rightarrow> served" where
  "answering st p = bind p (\<lambda>w. Ret (w, st))"

definition submitLogin :: "App \<Rightarrow> AppState \<Rightarrow> ResponseWriter \<Rightarrow> Request \<Rightarrow> served" where
  "submitLogin a st w r =
     (let form = envPostForm (appEnv a) r in
      bind (provider_AuthorizationRequest (appProvider a) r (values_Get form ''id'')) (\<lambda>x.
        case x of
          Inl err \<Rightarrow> Ret (renderError a err w, st)
        | Inr req \<Rightarrow>
            if values_Get form ''action'' = ''cancel''
            then answering st (op_deny a w r req CodeAccessDenied)
            else
              (let user = appUsers a (values_Get form ''username'');
                   hash = (case user of None \<Rightarrow> appDummyHash a | Some u \<Rightarrow> usPasswordHash u)
               in if \<not> envBcrypt (appEnv a) hash (values_Get form ''password'') \<or> user = None
                  then Ret (renderStatus (appEnv a) 401 ''login.html''
                              (LoginPage req ''Invalid username or password.'' (values_Get form ''username'')) w, st)
                  else bind (startSession a st w r (usSubject (the user))) (\<lambda>(w, st, s).
                         answering st (continueRequest a st w r req (Some s))))))"

text \<open>The consents the form ticks; openid cannot be declined.\<close>

definition ticked :: "url_values \<Rightarrow> AuthorizationRequest \<Rightarrow> string list" where
  "ticked form req =
     filter (\<lambda>item. item = ''openid'' \<or> map_of form (''consent:'' @ item) \<noteq> None) (consentItems req)"

definition submitConsent :: "App \<Rightarrow> AppState \<Rightarrow> ResponseWriter \<Rightarrow> Request \<Rightarrow> served" where
  "submitConsent a st w r =
     (let form = envPostForm (appEnv a) r in
      bind (provider_AuthorizationRequest (appProvider a) r (values_Get form ''id'')) (\<lambda>x.
        case x of
          Inl err \<Rightarrow> Ret (renderError a err w, st)
        | Inr req \<Rightarrow>
            (case currentSession st r of
               None \<Rightarrow> Ret (http_Redirect r (''/login?id='' @ url_QueryEscape (arID req)) 303 w, st)
             | Some s \<Rightarrow>
                 if values_Get form ''action'' \<noteq> ''allow''
                 then answering st (op_deny a w r req CodeAccessDenied)
                 else
                   (let granted = ticked form req;
                        given = \<lparr>csAsked = consentItems req, csGranted = granted\<rparr>;
                        st = st\<lparr>asConsents := (asConsents st)(seConsents s :=
                                  (asConsents st (seConsents s))(arClientID req \<mapsto> given))\<rparr>
                    in answering st (op_approve a w r req s granted)))))"

section \<open>The application\<close>

text \<open>The users by username, of which a later one replaces an earlier one.\<close>

definition op_users :: "User list \<Rightarrow> string \<Rightarrow> User option" where
  "op_users users = fold (\<lambda>u m. m(usUsername u \<mapsto> u)) users Map.empty"

text \<open>The claims of the user with the subject. The loop visits the users of the map in any order;
  subjects are distinct, so that it finds the one there is.\<close>

definition op_claims :: "User list \<Rightarrow> ClaimsFunc" where
  "op_claims users grant =
     (case find (\<lambda>u. op_users users (usUsername u) = Some u \<and> usSubject u = tSubject grant) users of
        Some u \<Rightarrow> Inr (usClaims u)
      | None \<Rightarrow> Inl (ENew ''unknown subject''))"

text \<open>The configuration of the provider; every field that is not named has its zero value. The
  interaction is that of the application with its state when the request is served, see
  \<open>live_provider\<close>.\<close>

definition zero_lifetimes :: Lifetimes where
  "zero_lifetimes =
     \<lparr>ltAuthorizationRequest = 0, ltAuthorizationCode = 0, ltAccessToken = 0, ltRefreshToken = 0,
      ltIDToken = 0, ltPushedAuthorizationRequest = 0\<rparr>"

definition zero_endpoints :: Endpoints where
  "zero_endpoints =
     \<lparr>epAuthorization = [], epToken = [], epUserInfo = [], epIntrospection = [], epRevocation = [],
      epJWKS = [], epPushedAuthorization = []\<rparr>"

definition op_config :: "environment \<Rightarrow> string \<Rightarrow> User list \<Rightarrow> SigningKey \<Rightarrow> Config" where
  "op_config env issuer users key =
     \<lparr>cfIssuer = Some \<lparr>isURL = issuer, isKeys = [key]\<rparr>, cfIssuerFor = None, cfClientsSet = True,
      cfStorageSet = True, cfInteract = None, cfClaims = Some (op_claims users), cfScopeClaims = [],
      cfIDTokenScopeClaims = False, cfLifetimes = zero_lifetimes, cfEndpoints = zero_endpoints,
      cfPAR = PARDisabled, cfAccessTokenFormat = [], cfAccessTokenFormats = [], cfGrants = [],
      cfBeforeIssue = None, cfDisableInteractionBinding = False, cfErrorPage = Some (errorPage env)\<rparr>"

text \<open>\<^verbatim>\<open>New\<close>, with the hash of a password no one has, the generated key and its ID: the application, its
  state, and the store with the clients.\<close>

definition op_New ::
  "jose \<Rightarrow> environment \<Rightarrow> bytes \<Rightarrow> SigningKey \<Rightarrow> OpConfig \<Rightarrow> User list \<Rightarrow> goerr + App \<times> AppState \<times> Store"
  where
  "op_New J env dummy key cfg users =
     (case provider_New J (op_config env (ocIssuer cfg) users key) of
        Inl err \<Rightarrow> Inl err
      | Inr p \<Rightarrow>
          Inr (\<lparr>appProvider = p, appAutoConsent = ocAutoConsent cfg, appUsers = op_users users,
                appDummyHash = dummy, appEnv = env\<rparr>,
               \<lparr>asSessions = Map.empty, asConsents = (\<lambda>_. Map.empty), asNext = 0\<rparr>,
               fold (store_SetClient (ocIssuer cfg)) (ocClients cfg) store_New))"

definition live_provider :: "App \<Rightarrow> AppState \<Rightarrow> Provider" where
  "live_provider a st =
     (let p = appProvider a in p\<lparr>pvCfg := (pvCfg p)\<lparr>cfInteract := Some (interact a st)\<rparr>\<rparr>)"

definition securityHeaders :: "ResponseWriter \<Rightarrow> ResponseWriter" where
  "securityHeaders w = header_Set ''Referrer-Policy'' ''no-referrer'' (header_Set ''X-Frame-Options'' ''DENY'' w)"

definition op_Handler :: "App \<Rightarrow> AppState \<Rightarrow> ResponseWriter \<Rightarrow> Request \<Rightarrow> served" where
  "op_Handler a st w r =
     (let w = securityHeaders w in
      case envMux (appEnv a) r of
        None \<Rightarrow> Ret (envMuxAnswer (appEnv a) r w, st)
      | Some pattern \<Rightarrow>
          if pattern = ''GET /login'' then showLogin a st w r
          else if pattern = ''POST /login'' then submitLogin a st w r
          else if pattern = ''POST /consent'' then submitConsent a st w r
          else answering st (ServeHTTP (live_provider a st) w r))"

end
