(* ===== verification/Example_Lowlevel.thy ===== *)
theory Example_Lowlevel
  imports Example_Opapp
begin

text \<open>
  The settings of the other example programs: examples/internal/demo/demo.go, the clients of
  examples/conformance/main.go, the users of opapp.go, and examples/lowlevel/server.go, a provider that
  is built from the library's methods, with an authorization endpoint, a grant type and an issuance hook
  of its own. The programs' \<^verbatim>\<open>main\<close> functions and logging are left out.
\<close>

section \<open>Demo settings\<close>

definition demo_ProviderAddr :: string where "demo_ProviderAddr = ''localhost:9001''"

definition demo_Issuer :: string where "demo_Issuer = ''http://'' @ demo_ProviderAddr"

definition demo_ClientID :: string where "demo_ClientID = ''demo-rp''"

definition demo_ClientSecret :: string where
  "demo_ClientSecret = ''demo-rp-secret-Qm9vZ2llLVdvb2dpZS1CYXJuYWNsZS0yMDI2''"

text \<open>A client whose other fields have their zero value.\<close>

definition client_zero :: Client where
  "client_zero =
     \<lparr>cID = [], cAuthMethod = [], cSecretHash = [], cJWKS = [], cRedirectURIs = [], cGrantTypes = [],
      cScopes = [], cPKCE = [], cRequirePAR = False, cIDTokenSigningAlg = [],
      cAllowIntrospection = False, cAccessTokenFormat = [], cAccessTokenSigningAlg = [],
      cAudience = [], cAccessTokenLifetime = 0, cRefreshTokenLifetime = 0, cIDTokenLifetime = 0\<rparr>"

definition demo_Clients :: "string \<Rightarrow> Client list" where
  "demo_Clients relyingPartyURL =
     [client_zero
        \<lparr>cID := demo_ClientID, cSecretHash := HashClientSecret demo_ClientSecret,
         cRedirectURIs := [relyingPartyURL @ ''/callback''],
         cGrantTypes := [GrantTypeAuthorizationCode, GrantTypeRefreshToken],
         cScopes := [''openid'', ''profile'', ''email'', ''phone'', ''offline_access'']\<rparr>,
      client_zero
        \<lparr>cID := ''demo-cli'', cRedirectURIs := [''http://127.0.0.1/callback''],
         cGrantTypes := [GrantTypeAuthorizationCode, GrantTypeRefreshToken],
         cScopes := [''openid'', ''profile'', ''email'', ''offline_access'']\<rparr>]"

text \<open>\<^verbatim>\<open>client\<close> of the conformance program.\<close>

definition conformance_client :: "string \<Rightarrow> string \<Rightarrow> string \<Rightarrow> AuthMethod \<Rightarrow> Client" where
  "conformance_client redirectURI i secret auth =
     client_zero
       \<lparr>cID := i, cAuthMethod := auth, cSecretHash := HashClientSecret secret,
        cRedirectURIs := [redirectURI],
        cGrantTypes := [GrantTypeAuthorizationCode, GrantTypeRefreshToken],
        cScopes := [''openid'', ''profile'', ''email'', ''address'', ''phone'', ''offline_access''],
        cPKCE := PKCEOptional\<rparr>"

definition conformance_config :: "string \<Rightarrow> string \<Rightarrow> string \<Rightarrow> OpConfig" where
  "conformance_config issuer suite alias =
     (let redirectURI = suite @ ''/test/a/'' @ alias @ ''/callback'';
          client = conformance_client redirectURI
      in \<lparr>ocIssuer = issuer,
          ocClients =
            [client ''conformance-client''
               ''conformance-client-secret-0f6b1c2e9a4d4b7e8c3a5d6f7e8a9b0c'' AuthMethodClientSecretBasic,
             client ''conformance-client2''
               ''conformance-client2-secret-1a2b3c4d5e6f7a8b9c0d1e2f3a4b5c6d'' AuthMethodClientSecretBasic,
             client ''conformance-post''
               ''conformance-post-secret-9f8e7d6c5b4a39281706f5e4d3c2b1a0'' AuthMethodClientSecretPost],
          ocAutoConsent = True\<rparr>)"

text \<open>The demo accounts; both have the same hash.\<close>

definition DemoUsers :: "bytes \<Rightarrow> User list" where
  "DemoUsers hash =
     [\<lparr>usSubject = ''248289761001'', usUsername = ''alice'', usPasswordHash = hash,
       usClaims =
         [(''name'', JString ''Alice Liddell''), (''given_name'', JString ''Alice''),
          (''family_name'', JString ''Liddell''), (''middle_name'', JString ''Pleasance''),
          (''nickname'', JString ''Ali''), (''preferred_username'', JString ''alice''),
          (''profile'', JString ''https://alice.example.com''),
          (''picture'', JString ''https://alice.example.com/photo.jpg''),
          (''website'', JString ''https://alice.example.com''), (''gender'', JString ''female''),
          (''birthdate'', JString ''1852-05-04''), (''zoneinfo'', JString ''Europe/London''),
          (''locale'', JString ''en-GB''), (''updated_at'', JNum 1757750400),
          (''email'', JString ''alice@example.com''), (''email_verified'', JBool True),
          (''phone_number'', JString ''+44 20 7946 0000''), (''phone_number_verified'', JBool True),
          (''address'', JObject
             [(''formatted'', JString (''1 Rabbit Hole'' @ [CHR 0x0A] @ ''Oxford OX1 1DP'' @ [CHR 0x0A]
                 @ ''United Kingdom'')),
              (''street_address'', JString ''1 Rabbit Hole''), (''locality'', JString ''Oxford''),
              (''postal_code'', JString ''OX1 1DP''), (''country'', JString ''United Kingdom'')])]\<rparr>,
      \<lparr>usSubject = ''248289761002'', usUsername = ''bob'', usPasswordHash = hash,
       usClaims =
         [(''name'', JString ''Bob Builder''), (''preferred_username'', JString ''bob''),
          (''email'', JString ''bob@example.com''), (''email_verified'', JBool False),
          (''phone_number'', JString ''+81 90 0000 0000''), (''phone_number_verified'', JBool True)]\<rparr>]"

section \<open>A provider of building blocks (lowlevel/server.go)\<close>

definition apiKeyGrant :: GrantType where
  "apiKeyGrant = ''urn:example:params:oauth:grant-type:api-key''"

definition lowlevel_client :: Client where
  "lowlevel_client = client_zero
     \<lparr>cID := ''cli'', cRedirectURIs := [''http://127.0.0.1/callback''],
      cGrantTypes := [GrantTypeAuthorizationCode, apiKeyGrant], cScopes := [''openid'', ''api''],
      cAccessTokenFormat := AccessTokenFormatJWT, cAudience := [''https://api.example.com''],
      cAccessTokenLifetime := 10 * minute\<rparr>"

definition disabledUsers :: "string \<Rightarrow> bool" where
  "disabledUsers user \<longleftrightarrow> user = ''mallory''"

text \<open>A nil client of the request panics, as it does in Go: the grant function reads its audience; the
  library calls it with the client that authenticated.\<close>

definition apiKeyGrantFunc :: GrantFunc where
  "apiKeyGrantFunc req =
     (if values_Get (trForm req) ''api_key'' \<noteq> ''demo-api-key''
      then Inl (EProto (newError CodeInvalidGrant ''unknown API key''))
      else Inr (Some
        \<lparr>gSubject = [], gScopes = [''api''], gAuthTime = 0, gACR = [], gAMR = [], gRefreshToken = False,
         gAudience = cAudience (the (trClient req))\<rparr>),
      req)"

definition lowlevel_BeforeIssue :: BeforeIssueFunc where
  "lowlevel_BeforeIssue iu =
     (if disabledUsers (iuSubject iu)
      then (Some (EProto (newError CodeInvalidGrant ''the account is disabled'')), iu)
      else (None, iu\<lparr>iuAccessTokenClaims := [(''tenant'', JString ''example'')]\<rparr>))"

definition lowlevel_Claims :: ClaimsFunc where
  "lowlevel_Claims grant = Inr [(''name'', JString (tSubject grant))]"

definition lowlevel_endpoints :: Endpoints where
  "lowlevel_endpoints =
     \<lparr>epAuthorization = ''/oauth2/authorize'', epToken = ''/oauth2/token'',
      epUserInfo = ''/oauth2/userinfo'', epIntrospection = ''/oauth2/introspect'',
      epRevocation = ''/oauth2/revoke'', epJWKS = ''/oauth2/keys'',
      epPushedAuthorization = ''/oauth2/par''\<rparr>"

definition lowlevel_config :: "string \<Rightarrow> crypto_signer \<Rightarrow> Config" where
  "lowlevel_config issuer key =
     \<lparr>cfIssuer = Some \<lparr>isURL = issuer,
        isKeys = [\<lparr>skID = ''example'', skSigner = Some key, skAlgorithm = []\<rparr>]\<rparr>,
      cfIssuerFor = None, cfClientsSet = True, cfStorageSet = True, cfInteract = None,
      cfClaims = Some lowlevel_Claims, cfScopeClaims = [], cfIDTokenScopeClaims = False,
      cfLifetimes = zero_lifetimes, cfEndpoints = lowlevel_endpoints, cfPAR = PARAllowed,
      cfAccessTokenFormat = [], cfAccessTokenFormats = [],
      cfGrants = [(apiKeyGrant, Some apiKeyGrantFunc)], cfBeforeIssue = Some lowlevel_BeforeIssue,
      cfDisableInteractionBinding = False, cfErrorPage = None\<rparr>"

text \<open>\<^verbatim>\<open>login_hint\<close> stands in for an authenticated end-user.\<close>

definition lowlevel_authorize :: "Provider \<Rightarrow> ResponseWriter \<Rightarrow> Request \<Rightarrow> ResponseWriter prog" where
  "lowlevel_authorize p w r =
     bind (ParseAuthorizationRequest p r) (\<lambda>x.
       case x of
         Inl err \<Rightarrow> Ret (WriteAuthorizationError p r err w)
       | Inr req \<Rightarrow>
           (let user = arLoginHint req;
                unable = http_Error ''unable to complete the request'' 500
            in if user = [] \<or> disabledUsers user then
                 bind (Deny p w r (Some req) (Some (PError CodeAccessDenied [] [] 0 None))) (\<lambda>y. Ret
                   (case y of Inl _ \<Rightarrow> unable w | Inr w \<Rightarrow> w))
               else
                 bind provider_now (\<lambda>now.
                 bind (Approve p w r (Some req)
                   \<lparr>apSubject = user, apScopes = arScopes req, apAuthTime = now, apACR = [], apAMR = [],
                    apClaims = [], apAudience = arAudience req\<rparr>) (\<lambda>y. Ret
                   (case y of Inl _ \<Rightarrow> unable w | Inr w \<Rightarrow> w)))))"

text \<open>The handlers, by the pattern http.ServeMux finds; without one it answers by itself.\<close>

definition lowlevel_handler ::
  "Provider \<Rightarrow> (Request \<Rightarrow> string option) \<Rightarrow> (Request \<Rightarrow> ResponseWriter \<Rightarrow> ResponseWriter) \<Rightarrow>
     ResponseWriter \<Rightarrow> Request \<Rightarrow> ResponseWriter prog" where
  "lowlevel_handler p mux mux_answer w r =
     (case mux r of
        None \<Rightarrow> Ret (mux_answer r w)
      | Some pattern \<Rightarrow>
          if pattern = ''/oauth2/authorize'' then lowlevel_authorize p w r
          else if pattern = ''POST /oauth2/token'' then ServeToken p w r
          else if pattern = ''/oauth2/userinfo'' then ServeUserInfo p w r
          else if pattern = ''POST /oauth2/introspect'' then ServeIntrospection p w r
          else if pattern = ''POST /oauth2/revoke'' then ServeRevocation p w r
          else if pattern = ''GET /oauth2/keys'' then ServeJWKS p w r
          else if pattern = ''POST /oauth2/par'' then ServePushedAuthorization p w r
          else ServeDiscovery p w r)"

text \<open>\<^verbatim>\<open>newServer\<close>: the provider with its store.\<close>

definition newServer :: "jose \<Rightarrow> string \<Rightarrow> crypto_signer \<Rightarrow> goerr + Provider \<times> Store" where
  "newServer J issuer key =
     (case provider_New J (lowlevel_config issuer key) of
        Inl err \<Rightarrow> Inl err
      | Inr p \<Rightarrow> Inr (p, store_SetClient issuer lowlevel_client store_New))"

end
