(* ===== verification/Example_OpappProps.thy ===== *)
theory Example_OpappProps
  imports Grantor_ProvenanceProps Example_Lowlevel
begin

text \<open>
  The example provider and the library together: an authorization code is only issued to an end-user who
  signed in with the password, for scopes the end-user consented to.
\<close>

section \<open>Runs of the application\<close>

text \<open>The requests that were served, each with the sessions it found and the calls it made, whatever the
  storage, the clock and the random source answered, and the sessions after them.\<close>

type_synonym history = "(AppState \<times> Request \<times> event list) list"

inductive op_run :: "App \<Rightarrow> history \<Rightarrow> AppState \<Rightarrow> bool" for a where
  op_start: "op_run a [] \<lparr>asSessions = Map.empty, asConsents = (\<lambda>_. Map.empty), asNext = 0\<rparr>"
| op_served:
    "\<lbrakk> op_run a h st; performs (op_Handler a st w r) log (w', st') \<rbrakk> \<Longrightarrow>
     op_run a (h @ [(st, r, log)]) st'"

text \<open>A request signed the subject in at the time: its form has the password of a user with it.\<close>

definition signs_in :: "App \<Rightarrow> Request \<Rightarrow> event list \<Rightarrow> string \<Rightarrow> time \<Rightarrow> bool" where
  "signs_in a r log subject t \<longleftrightarrow>
     envMux (appEnv a) r = Some ''POST /login'' \<and> EvNow t \<in> set log \<and>
     (\<exists>u. appUsers a (values_Get (envPostForm (appEnv a) r) ''username'') = Some u \<and> usSubject u = subject \<and>
        envBcrypt (appEnv a) (usPasswordHash u) (values_Get (envPostForm (appEnv a) r) ''password''))"

text \<open>A request of the subject's session granted the item to the client: its form allows the client's
  authorization request, of which the item is one, and ticks it.\<close>

definition consents_to ::
  "App \<Rightarrow> AppState \<Rightarrow> Request \<Rightarrow> event list \<Rightarrow> string \<Rightarrow> string \<Rightarrow> string \<Rightarrow> bool" where
  "consents_to a st r log subject client item \<longleftrightarrow>
     envMux (appEnv a) r = Some ''POST /consent'' \<and>
     values_Get (envPostForm (appEnv a) r) ''action'' = ''allow'' \<and>
     (item = ''openid'' \<or> map_of (envPostForm (appEnv a) r) (''consent:'' @ item) \<noteq> None) \<and>
     (\<exists>s. currentSession st r = Some s \<and> seSubject s = subject) \<and>
     (\<exists>req. EvLoadRequest (values_Get (envPostForm (appEnv a) r) ''id'') (Inr req) \<in> set log \<and>
        arClientID req = client \<and> item \<in> set (consentItems req))"

definition signed_in :: "App \<Rightarrow> history \<Rightarrow> string \<Rightarrow> time \<Rightarrow> bool" where
  "signed_in a h subject t \<longleftrightarrow> (\<exists>(st, r, log) \<in> set h. signs_in a r log subject t)"

definition consented :: "App \<Rightarrow> history \<Rightarrow> string \<Rightarrow> string \<Rightarrow> string \<Rightarrow> bool" where
  "consented a h subject client item \<longleftrightarrow>
     (\<exists>(st, r, log) \<in> set h. consents_to a st r log subject client item)"

lemma history_grows:
  "signed_in a h x t \<Longrightarrow> signed_in a (h @ l) x t"
  "consented a h x c i \<Longrightarrow> consented a (h @ l) x c i"
  by (auto simp: signed_in_def consented_def)

lemma history_last:
  "signs_in a r log x t \<Longrightarrow> signed_in a (h @ [(st, r, log)]) x t"
  "consents_to a st r log x c i \<Longrightarrow> consented a (h @ [(st, r, log)]) x c i"
  by (auto simp: signed_in_def consented_def)

section \<open>What sessions stand for\<close>

definition sessions_ok :: "App \<Rightarrow> history \<Rightarrow> AppState \<Rightarrow> bool" where
  "sessions_ok a h st \<longleftrightarrow>
     (\<forall>i s. asSessions st i = Some s \<longrightarrow>
        signed_in a h (seSubject s) (seAuthTime s) \<and> seConsents s < asNext st \<and>
        (\<forall>client c item. asConsents st (seConsents s) client = Some c \<longrightarrow> item \<in> set (csGranted c) \<longrightarrow>
           consented a h (seSubject s) client item)) \<and>
     (\<forall>i j s t. asSessions st i = Some s \<longrightarrow> asSessions st j = Some t \<longrightarrow>
        seConsents s = seConsents t \<longrightarrow> seSubject s = seSubject t)"

lemma sessions_okD:
  assumes "sessions_ok a h st" and "asSessions st i = Some s"
  shows "signed_in a h (seSubject s) (seAuthTime s)" and "seConsents s < asNext st"
    and "asConsents st (seConsents s) client = Some c \<Longrightarrow> item \<in> set (csGranted c) \<Longrightarrow>
           consented a h (seSubject s) client item"
    and "asSessions st j = Some t \<Longrightarrow> seConsents s = seConsents t \<Longrightarrow> seSubject s = seSubject t"
  using assms unfolding sessions_ok_def by blast+

lemma sessions_ok_grows: "sessions_ok a h st \<Longrightarrow> sessions_ok a (h @ l) st"
  unfolding sessions_ok_def using history_grows by blast

text \<open>A new session of someone who just signed in.\<close>

lemma sessions_ok_start:
  assumes ok: "sessions_ok a h st" and s: "signed_in a h (seSubject s) (seAuthTime s)"
    and n: "st' = st\<lparr>asConsents := (asConsents st)(asNext st := Map.empty), asNext := asNext st + 1,
              asSessions := (asSessions st)(i \<mapsto> s)\<rparr>"
    and ref: "seConsents s = asNext st \<or>
      (\<exists>j old. asSessions st j = Some old \<and> seSubject old = seSubject s \<and> seConsents old = seConsents s)"
  shows "sessions_ok a h st'"
proof -
  note D = sessions_okD [OF ok]
  have old: "seConsents t \<noteq> asNext st" if "asSessions st j = Some t" for j t
    using D(2) [OF that] by simp
  have s_ref: "seConsents s < asNext st + 1"
    using ref
  proof
    assume "\<exists>j old. asSessions st j = Some old \<and> seSubject old = seSubject s \<and> seConsents old = seConsents s"
    then obtain j old where "asSessions st j = Some old" "seConsents old = seConsents s" by blast
    then show ?thesis using D(2) [of j old] by simp
  qed simp
  have s_cons: "consented a h (seSubject s) client item"
    if "asConsents st' (seConsents s) client = Some c" "item \<in> set (csGranted c)" for client c item
    using ref
  proof
    assume "seConsents s = asNext st"
    then show ?thesis using that(1) by (simp add: n)
  next
    assume "\<exists>j old. asSessions st j = Some old \<and> seSubject old = seSubject s \<and> seConsents old = seConsents s"
    then obtain j t where t: "asSessions st j = Some t" "seSubject t = seSubject s" "seConsents t = seConsents s"
      by blast
    then show ?thesis using that old [OF t(1)] D(3) [OF t(1)] by (simp add: n)
  qed
  have same: "seSubject s = seSubject t" if "asSessions st j = Some t" "seConsents s = seConsents t" for j t
    using ref
  proof
    assume "seConsents s = asNext st"
    then show ?thesis using that(2) old [OF that(1)] by simp
  next
    assume "\<exists>j old. asSessions st j = Some old \<and> seSubject old = seSubject s \<and> seConsents old = seConsents s"
    then obtain k u where u: "asSessions st k = Some u" "seSubject u = seSubject s" "seConsents u = seConsents s"
      by blast
    then show ?thesis using D(4) [OF u(1) that(1)] that(2) by simp
  qed
  show ?thesis
    unfolding sessions_ok_def
  proof (intro conjI allI impI)
    fix j t assume t: "asSessions st' j = Some t"
    show "signed_in a h (seSubject t) (seAuthTime t)" "seConsents t < asNext st'"
    proof (atomize (full), cases "j = i")
      case True
      then show "signed_in a h (seSubject t) (seAuthTime t) \<and> seConsents t < asNext st'"
        using t s s_ref by (simp add: n)
    next
      case False
      then have "asSessions st j = Some t" using t by (simp add: n)
      from D(1,2) [OF this]
      show "signed_in a h (seSubject t) (seAuthTime t) \<and> seConsents t < asNext st'" by (simp add: n)
    qed
    fix client c item
    assume c: "asConsents st' (seConsents t) client = Some c" "item \<in> set (csGranted c)"
    show "consented a h (seSubject t) client item"
    proof (cases "j = i")
      case True
      with t c s_cons show ?thesis by (simp add: n)
    next
      case False
      with t have st: "asSessions st j = Some t" by (simp add: n)
      from c(1) old [OF st] have "asConsents st (seConsents t) client = Some c" by (simp add: n)
      with c(2) show ?thesis using D(3) [OF st] by blast
    qed
  next
    fix j k t u
    assume a: "asSessions st' j = Some t" "asSessions st' k = Some u" and e: "seConsents t = seConsents u"
    show "seSubject t = seSubject u"
    proof (cases "j = i"; cases "k = i")
      assume "j = i" "k = i"
      then show ?thesis using a by (simp add: n)
    next
      assume "j = i" "k \<noteq> i"
      then have "t = s" "asSessions st k = Some u" using a by (simp_all add: n)
      then show ?thesis using same [of k u] e by simp
    next
      assume "j \<noteq> i" "k = i"
      then have "u = s" "asSessions st j = Some t" using a by (simp_all add: n)
      then show ?thesis using same [of j t] e by simp
    next
      assume "j \<noteq> i" "k \<noteq> i"
      then have "asSessions st j = Some t" "asSessions st k = Some u" using a by (simp_all add: n)
      then show ?thesis using D(4) e by blast
    qed
  qed
qed

text \<open>A consent of a session's end-user.\<close>

lemma sessions_ok_consent:
  assumes ok: "sessions_ok a h st" and s: "asSessions st i = Some s"
    and g: "\<And>item. item \<in> set (csGranted given) \<Longrightarrow> consented a h (seSubject s) client item"
    and n: "st' = st\<lparr>asConsents := (asConsents st)(seConsents s := (asConsents st (seConsents s))(client \<mapsto> given))\<rparr>"
  shows "sessions_ok a h st'"
proof -
  note D = sessions_okD [OF ok]
  show ?thesis
    unfolding sessions_ok_def
  proof (intro conjI allI impI)
    fix j t assume t: "asSessions st' j = Some t"
    then have t': "asSessions st j = Some t" by (simp add: n)
    show "signed_in a h (seSubject t) (seAuthTime t)" "seConsents t < asNext st'"
      using D(1,2) [OF t'] by (simp_all add: n)
    fix cl c item
    assume c: "asConsents st' (seConsents t) cl = Some c" "item \<in> set (csGranted c)"
    show "consented a h (seSubject t) cl item"
    proof (cases "seConsents t = seConsents s \<and> cl = client")
      case True
      then have "c = given" using c(1) by (simp add: n)
      then show ?thesis using g c(2) True D(4) [OF t' s] by simp
    next
      case False
      then have "asConsents st (seConsents t) cl = Some c" using c(1) by (auto simp: n split: if_split_asm)
      then show ?thesis using D(3) [OF t'] c(2) by blast
    qed
  next
    fix j k t u assume "asSessions st' j = Some t" "asSessions st' k = Some u" "seConsents t = seConsents u"
    then show "seSubject t = seSubject u" using D(4) [of j t k u] by (simp add: n)
  qed
qed

section \<open>One request\<close>

lemma performs_answering: "performs (answering st p) log (w, st') \<longleftrightarrow> st' = st \<and> performs p log w"
  by (auto simp: answering_def performs_bind)

lemma new_session_sel:
  "seSubject (new_session st r subject now) = subject" "seAuthTime (new_session st r subject now) = now"
  "seConsents (new_session st r subject now) = asNext st \<or>
     (\<exists>j old. asSessions st j = Some old \<and> seSubject old = subject \<and>
        seConsents old = seConsents (new_session st r subject now))"
  by (auto simp: new_session_def Let_def sessionLocked_def split: option.splits)

text \<open>The sessions after someone signed in, and got the session under the identifier.\<close>

definition started :: "AppState \<Rightarrow> string \<Rightarrow> session \<Rightarrow> AppState" where
  "started st i s =
     st\<lparr>asConsents := (asConsents st)(asNext st := Map.empty), asNext := asNext st + 1,
        asSessions := (asSessions st)(i \<mapsto> s)\<rparr>"

lemma performs_startSession:
  "performs (startSession a st w r subject) log (w', st', s) \<Longrightarrow>
     \<exists>b now. log = [EvRand b, EvNow now] \<and> s = new_session st r subject now \<and>
       st' = started st (randomToken_of b) s"
  by (auto simp: startSession_def performs_bind performs_randomToken performs_cases Let_def started_def)

lemma performs_provider_AuthorizationRequest:
  assumes "performs (provider_AuthorizationRequest p r i) log (Inr req)"
  shows "EvLoadRequest i (Inr req) \<in> set log"
  using assms
  by (auto simp: provider_AuthorizationRequest_def elim: loadPending_Inr split: sum.split_asm)

lemma storing_pending: "storing (\<lambda>_. False) (provider_AuthorizationRequest p r i)"
  unfolding provider_AuthorizationRequest_def loadPending_def by (intro makes_intros)

lemma storing_op_deny: "storing Q (op_deny a w r req code)"
  unfolding op_deny_def Deny_def Let_def
  by (intro makes_intros storing_completable storing_complete_saved)

text \<open>The sessions after a consent.\<close>

definition agreed :: "AppState \<Rightarrow> session \<Rightarrow> string \<Rightarrow> consent \<Rightarrow> AppState" where
  "agreed st s client given =
     st\<lparr>asConsents := (asConsents st)(seConsents s := (asConsents st (seConsents s))(client \<mapsto> given))\<rparr>"

text \<open>Serving the login form: nobody signs in, or someone does and the request goes on.\<close>

lemma performs_submitLogin:
  assumes "performs (submitLogin a st w r) log (w', st')"
  obtains (refused) "st' = st" and "\<forall>u x. EvCreateToken u x \<notin> set log"
  | (login) w1 l m s req i now where "log = l @ EvNow now # m" and "\<forall>u x. EvCreateToken u x \<notin> set l"
      and "s = new_session st r (seSubject s) now" and "st' = started st i s"
      and "\<exists>u. appUsers a (values_Get (envPostForm (appEnv a) r) ''username'') = Some u \<and>
        usSubject u = seSubject s \<and>
        envBcrypt (appEnv a) (usPasswordHash u) (values_Get (envPostForm (appEnv a) r) ''password'')"
      and "performs (continueRequest a st' w1 r req (Some s)) m w'"
proof -
  define form where "form = envPostForm (appEnv a) r"
  from assms obtain l m x where log: "log = l @ m"
    and load: "performs (provider_AuthorizationRequest (appProvider a) r (values_Get form ''id'')) l x"
    and rest: "performs (case x of
          Inl err \<Rightarrow> Ret (renderError a err w, st)
        | Inr req \<Rightarrow>
            if values_Get form ''action'' = ''cancel''
            then answering st (op_deny a w r req CodeAccessDenied)
            else
              (let user = appUsers a (values_Get form ''username'');
                   hash = (case user of None \<Rightarrow> appDummyHash a | Some u \<Rightarrow> usPasswordHash u)
               in if \<not> envBcrypt (appEnv a) hash (values_Get form ''password'') \<or> user = None
                  then Ret (renderStatus (appEnv a) 401 ''login.html''
                              (LoginPage req ''Invalid username or password.'' (values_Get form ''username'')) w, st)
                  else bind (startSession a st w r (usSubject (the user))) (\<lambda>(w, st, s).
                         answering st (continueRequest a st w r req (Some s))))) m (w', st')"
    unfolding submitLogin_def form_def by (auto simp: performs_bind Let_def)
  have quiet: "\<forall>u x. EvCreateToken u x \<notin> set l"
    using storing_performs [OF storing_pending load] by blast
  show thesis
  proof (cases x)
    case (Inl e)
    then show thesis using refused rest quiet log by simp
  next
    case (Inr req)
    show thesis
    proof (cases "values_Get form ''action'' = ''cancel''")
      case True
      then have "st' = st" "performs (op_deny a w r req CodeAccessDenied) m w'"
        using rest Inr by (simp_all add: performs_answering)
      then show thesis using refused log quiet storing_performs [OF storing_op_deny [of "\<lambda>_. False"]] by fastforce
    next
      case False
      show thesis
      proof (cases "appUsers a (values_Get form ''username'')")
        case None
        then show thesis using rest Inr False refused log quiet by (simp add: Let_def)
      next
        case (Some u)
        show thesis
        proof (cases "envBcrypt (appEnv a) (usPasswordHash u) (values_Get form ''password'')")
          case False': False
          then show thesis using rest Inr False Some refused log quiet by (simp add: Let_def)
        next
          case True
          with rest Inr False Some obtain m1 m2 w1 st1 s where m: "m = m1 @ m2"
            and start: "performs (startSession a st w r (usSubject u)) m1 (w1, st1, s)"
            and go: "performs (answering st1 (continueRequest a st1 w1 r req (Some s))) m2 (w', st')"
            by (auto simp: Let_def performs_bind)
          from start obtain b now where st: "m1 = [EvRand b, EvNow now]" "s = new_session st r (usSubject u) now"
              "st1 = started st (randomToken_of b) s"
            by (blast dest: performs_startSession)
          show thesis
          proof (rule login)
            show "log = (l @ [EvRand b]) @ EvNow now # m2" using log m st(1) by simp
            show "\<forall>u x. EvCreateToken u x \<notin> set (l @ [EvRand b])" using quiet by simp
            show "s = new_session st r (seSubject s) now" using st(2) by (simp add: new_session_sel)
            show "st' = started st (randomToken_of b) s" using go st(3) by (simp add: performs_answering)
            show "performs (continueRequest a st' w1 r req (Some s)) m2 w'"
              using go by (simp add: performs_answering)
            show "\<exists>u. appUsers a (values_Get (envPostForm (appEnv a) r) ''username'') = Some u \<and>
                usSubject u = seSubject s \<and>
                envBcrypt (appEnv a) (usPasswordHash u) (values_Get (envPostForm (appEnv a) r) ''password'')"
              using Some True st(2) by (auto simp: form_def new_session_sel)
          qed
        qed
      qed
    qed
  qed
qed

end
