(* ===== verification/Example_OpappSafety.thy ===== *)
theory Example_OpappSafety
  imports Example_OpappProps
begin

text \<open>
  The codes that serving a request of the example provider issues: those of the session's end-user, with
  the scopes that end-user consented to, by induction on the run.
\<close>

section \<open>The tokens the library's endpoints create\<close>

lemma storing_prepared:
  "storing Q (parseAuthorization p r iss)" "storing Q (SaveAuthorizationRequest p w r req)"
  "storing Q (parsePushedAuthorization p r iss)" "storing Q (pushAuthorization p iss reqo)"
  "storing Q (authenticatedForm p r iss)" "storing Q (parseToken p r iss)"
proof -
  have auth: "storing Q (authenticateClient p r iss q)" for q
    by (rule makes_mono [OF storing_authenticate]) (erule creates_only_mono, simp)
  have create: "storing Q (storage_CreateAuthorizationRequest req)" for req
    by (simp add: op_defs)
  have client: "storing Q (provider_client p iss i)" for iss i
    unfolding provider_client_def by (intro makes_intros)
  have target: "storing Q (provider_authorizationTarget p iss q)" for q
    unfolding provider_authorizationTarget_def by (intro makes_intros client)
  have parse: "storing Q (parseAuthorizationRequest p iss c q t pushed)" for c q t pushed
    unfolding parseAuthorizationRequest_def by (intro makes_intros)
  have redeem: "storing Q (redeemPushedRequest p iss q)" for q
    unfolding redeemPushedRequest_def takePushedRequest_def redeem_checked_def
    by (intro makes_intros target client parse)
  show "storing Q (parseAuthorization p r iss)"
    unfolding parseAuthorization_def by (intro makes_intros target client parse redeem)
  show "storing Q (SaveAuthorizationRequest p w r req)"
    unfolding SaveAuthorizationRequest_def Let_def by (intro makes_intros create client)
  show "storing Q (parsePushedAuthorization p r iss)"
    unfolding parsePushedAuthorization_def by (intro makes_intros auth target client parse)
  show "storing Q (pushAuthorization p iss reqo)"
    unfolding pushAuthorization_def by (intro makes_intros create client)
  show "storing Q (authenticatedForm p r iss)"
    unfolding authenticatedForm_def by (intro makes_intros auth)
  show "storing Q (parseToken p r iss)"
    unfolding parseToken_def by (intro makes_intros auth)
qed

text \<open>Codes are created by the interaction only.\<close>

lemma storing_exchange_kinds:
  assumes "\<And>u. tKind u \<noteq> TokenKindAuthorizationCode \<Longrightarrow> Q u"
  shows "storing Q (exchange p (Some req))"
  by (rule makes_mono [OF storing_exchange], erule creates_only_mono)
    (auto simp: issued_for_def within_registration_def intro!: assms)

lemma storing_ServeHTTP:
  assumes "\<And>u. tKind u \<noteq> TokenKindAuthorizationCode \<Longrightarrow> Q u"
    and "\<And>interact w r req. cfInteract (pvCfg p) = Some interact \<Longrightarrow> storing Q (interact w r req)"
  shows "storing Q (ServeHTTP p w r)"
proof -
  note parts = storing_prepared storing_exchange_kinds [OF assms(1)] assms(2)
  have "storing Q (serveAuthorization p w r iss)" for iss
    unfolding serveAuthorization_def by (intro makes_branches makes_Ret makes_bind parts)
  moreover have "storing Q (serveToken p w r iss)" for iss
    unfolding serveToken_def by (intro makes_branches makes_Ret makes_bind parts)
  moreover have "storing Q (servePushedAuthorization p w r iss)" for iss
    unfolding servePushedAuthorization_def by (intro makes_branches makes_Ret makes_bind parts)
  moreover have "storing Q (serveIntrospection p w r iss)" for iss
    unfolding serveIntrospection_def introspect_def by (intro makes_intros storing_ops parts)
  moreover have "storing Q (serveRevocation p w r iss)" for iss
    unfolding serveRevocation_def revokePresented_def Let_def by (intro makes_intros parts)
  moreover have "storing Q (serveUserInfo p w r iss)" for iss
    unfolding serveUserInfo_def userInfo_def Let_def by (intro makes_intros)
  moreover have "storing Q (serveJWKS p w r iss)" "storing Q (serveDiscovery p w r iss)" for iss
    unfolding serveJWKS_def serveDiscovery_def Let_def by (intro makes_intros)+
  ultimately show ?thesis
    unfolding ServeHTTP_def withIssuer_def route_def Let_def by (intro makes_branches makes_Ret)
qed

section \<open>The codes of a session\<close>

lemma granted_items_subset: "set (fst (granted_items g acc items)) \<subseteq> set (fst acc) \<union> set g"
proof (induction items arbitrary: acc)
  case (Cons item items)
  obtain scopes claims where acc: "acc = (scopes, claims)" by (cases acc)
  show ?case
  proof (cases "item \<in> set g")
    case False
    then show ?thesis using Cons [of acc] by (simp add: acc)
  next
    case True
    show ?thesis
    proof (cases "strings_CutPrefix item ''claim:''")
      case None
      then show ?thesis using Cons [of "(scopes @ [item], claims)"] True by (auto simp: acc)
    next
      case (Some name)
      then show ?thesis using Cons [of "(scopes, claims @ [name])"] True by (simp add: acc)
    qed
  qed
qed simp

lemma op_approval_sel:
  "apSubject (op_approval req s granted) = seSubject s" "apAuthTime (op_approval req s granted) = seAuthTime s"
  "set (apScopes (op_approval req s granted)) \<subseteq> set granted"
  using granted_items_subset [of granted "([], [])" "consentItems req"]
  by (auto simp: op_approval_def split: prod.split)

definition code_for :: "App \<Rightarrow> AppState \<Rightarrow> Token \<Rightarrow> bool" where
  "code_for a st u \<longleftrightarrow>
     (tKind u = TokenKindAuthorizationCode \<longrightarrow>
       (\<exists>i s. asSessions st i = Some s \<and> tSubject u = seSubject s \<and> tAuthTime u = seAuthTime s \<and>
          (\<forall>scope \<in> set (tScopes u). appAutoConsent a \<or>
             (\<exists>c. asConsents st (seConsents s) (tClientID u) = Some c \<and> scope \<in> set (csGranted c)))))"

lemma storing_op_approve:
  assumes "asSessions st i = Some s"
    and "appAutoConsent a \<or>
      (\<exists>c. asConsents st (seConsents s) (arClientID req) = Some c \<and> set granted \<subseteq> set (csGranted c))"
  shows "storing (code_for a st) (op_approve a w r req s granted)"
  unfolding op_approve_def
proof (rule makes_bind [OF makes_mono [OF storing_Approve]])
  fix ev
  assume "creates_only (\<lambda>c. code_of (op_approval req s granted) c \<and>
      tClientID c = arClientID (the (Some req))) ev"
  then show "creates_only (code_for a st) ev"
  proof (rule creates_only_mono)
    fix u
    assume "code_of (op_approval req s granted) u \<and> tClientID u = arClientID (the (Some req))"
    then have u: "tSubject u = seSubject s" "tAuthTime u = seAuthTime s" "tClientID u = arClientID req"
        "set (tScopes u) \<subseteq> set granted"
      using op_approval_sel [of req s granted] by (auto simp: code_of_def)
    have "appAutoConsent a \<or>
        (\<exists>c. asConsents st (seConsents s) (tClientID u) = Some c \<and> scope \<in> set (csGranted c))"
      if "scope \<in> set (tScopes u)" for scope
      using assms(2) u(3,4) that by auto
    with u(1,2) assms(1) show "code_for a st u"
      unfolding code_for_def by (intro impI exI [of _ i] exI [of _ s] conjI ballI) simp_all
  qed
qed simp

lemma storing_continueRequest:
  assumes "\<And>s. so = Some s \<Longrightarrow> asSessions st i = Some s"
  shows "storing (code_for a st) (continueRequest a st w r req so)"
proof (cases so)
  case None
  then show ?thesis
    unfolding continueRequest_def loginNeeded_def by (simp add: storing_op_deny)
next
  case (Some s)
  have login: "storing (code_for a st) (loginNeeded req so)"
    unfolding loginNeeded_def by (intro makes_intros)
  have previous: "storing (code_for a st) (op_approve a w r req s (csGranted (the previous)))"
    if "previous = asConsents st (seConsents s) (arClientID req)"
      and "(case previous of None \<Rightarrow> False | Some c \<Rightarrow> containsAll (csAsked c) (consentItems req))" for previous
    using that by (intro storing_op_approve [OF assms [OF Some]]) (auto split: option.split_asm)
  have auto: "storing (code_for a st) (op_approve a w r req s (consentItems req))" if "appAutoConsent a"
    using that by (intro storing_op_approve [OF assms [OF Some]]) simp
  show ?thesis
    unfolding continueRequest_def Let_def Some option.sel
    by (intro makes_bind login [unfolded Some] makes_branches(1) makes_Ret storing_op_deny auto previous)
      simp_all
qed

section \<open>Serving a request\<close>

lemma performs_submitConsent:
  assumes "performs (submitConsent a st w r) log (w', st')"
  obtains (unchanged) "st' = st" and "\<forall>u x. EvCreateToken u x \<notin> set log"
  | (consent) l m s req i where "log = l @ m" and "\<forall>u x. EvCreateToken u x \<notin> set l"
      and "currentSession st r = Some s"
      and "EvLoadRequest (values_Get (envPostForm (appEnv a) r) ''id'') (Inr req) \<in> set l"
      and "values_Get (envPostForm (appEnv a) r) ''action'' = ''allow''"
      and "st' = agreed st s (arClientID req)
              \<lparr>csAsked = consentItems req, csGranted = ticked (envPostForm (appEnv a) r) req\<rparr>"
      and "performs (op_approve a w r req s (ticked (envPostForm (appEnv a) r) req)) m w'"
proof -
  define form where "form = envPostForm (appEnv a) r"
  define given where "given req = \<lparr>csAsked = consentItems req, csGranted = ticked form req\<rparr>" for req
  obtain l m x where log: "log = l @ m"
    and load: "performs (provider_AuthorizationRequest (appProvider a) r (values_Get form ''id'')) l x"
    and rest: "performs (case x of
          Inl err \<Rightarrow> Ret (renderError a err w, st)
        | Inr req \<Rightarrow>
            (case currentSession st r of
               None \<Rightarrow> Ret (http_Redirect r (''/login?id='' @ url_QueryEscape (arID req)) 303 w, st)
             | Some s \<Rightarrow>
                 if values_Get form ''action'' \<noteq> ''allow''
                 then answering st (op_deny a w r req CodeAccessDenied)
                 else answering (agreed st s (arClientID req) (given req))
                        (op_approve a w r req s (ticked form req)))) m (w', st')"
    by (rule performs_bind_steps [OF assms [unfolded submitConsent_def Let_def]])
      (rule that; unfold form_def given_def agreed_def, assumption)
  have quiet: "\<forall>u x. EvCreateToken u x \<notin> set l"
    using storing_performs [OF storing_pending load] by blast
  show thesis
  proof (cases x)
    case (Inl e)
    then show thesis using unchanged rest quiet log by simp
  next
    case (Inr req)
    show thesis
    proof (cases "currentSession st r")
      case None
      then show thesis using unchanged rest quiet log Inr by simp
    next
      case (Some s)
      show thesis
      proof (cases "values_Get form ''action'' = ''allow''")
        case False
        then have "st' = st" "performs (op_deny a w r req CodeAccessDenied) m w'"
          using rest Inr Some by (simp_all add: performs_answering)
        then show thesis
          using unchanged log quiet storing_performs [OF storing_op_deny [of "\<lambda>_. False"]] by fastforce
      next
        case True
        then have "st' = agreed st s (arClientID req) (given req)"
            "performs (op_approve a w r req s (ticked form req)) m w'"
          using rest Inr Some by (simp_all add: performs_answering)
        with consent [OF log quiet Some] load Inr True show thesis
          unfolding form_def given_def by (blast dest: performs_provider_AuthorizationRequest)
      qed
    qed
  qed
qed

lemma codes_in_last:
  "log = l @ m \<Longrightarrow> \<forall>u x. EvCreateToken u x \<notin> set l \<Longrightarrow> storing Q q \<Longrightarrow> performs q m y \<Longrightarrow>
     EvCreateToken u x \<in> set log \<Longrightarrow> Q u"
  using storing_performs by fastforce

text \<open>A request leaves sessions that stand for what happened, and only issues codes for one of them.\<close>

definition served_well :: "App \<Rightarrow> history \<Rightarrow> event list \<Rightarrow> AppState \<Rightarrow> bool" where
  "served_well a h log st' \<longleftrightarrow>
     sessions_ok a h st' \<and> (\<forall>u x. EvCreateToken u x \<in> set log \<longrightarrow> code_for a st' u)"

lemma served_wellI:
  assumes "sessions_ok a h st'" and "\<And>u x. EvCreateToken u x \<in> set log \<Longrightarrow> code_for a st' u"
  shows "served_well a h log st'"
  using assms by (simp add: served_well_def)

lemma serve_login:
  assumes ok: "sessions_ok a h st" and mux: "envMux (appEnv a) r = Some ''POST /login''"
    and run: "performs (submitLogin a st w r) log (w', st')"
  shows "served_well a (h @ [(st, r, log)]) log st'"
  using run
proof (rule performs_submitLogin)
  assume "st' = st" "\<forall>u x. EvCreateToken u x \<notin> set log"
  then show ?thesis using sessions_ok_grows [OF ok] by (intro served_wellI) simp_all
next
  fix w1 l m s req i now
  assume log: "log = l @ EvNow now # m" and quiet: "\<forall>u x. EvCreateToken u x \<notin> set l"
    and s: "s = new_session st r (seSubject s) now" and st': "st' = started st i s"
    and user: "\<exists>u. appUsers a (values_Get (envPostForm (appEnv a) r) ''username'') = Some u \<and>
        usSubject u = seSubject s \<and>
        envBcrypt (appEnv a) (usPasswordHash u) (values_Get (envPostForm (appEnv a) r) ''password'')"
    and go: "performs (continueRequest a st' w1 r req (Some s)) m w'"
  let ?h = "h @ [(st, r, log)]"
  have now: "seAuthTime s = now" using s new_session_sel(2) by metis
  have signed: "signed_in a ?h (seSubject s) (seAuthTime s)"
    by (rule history_last) (use mux user log now in \<open>auto simp: signs_in_def\<close>)
  show ?thesis
  proof (rule served_wellI)
    show "sessions_ok a ?h st'"
    proof (rule sessions_ok_start [OF sessions_ok_grows [OF ok] signed])
      show "st' = st\<lparr>asConsents := (asConsents st)(asNext st := Map.empty), asNext := asNext st + 1,
          asSessions := (asSessions st)(i \<mapsto> s)\<rparr>" using st' by (simp add: started_def)
      show "seConsents s = asNext st \<or>
          (\<exists>j old. asSessions st j = Some old \<and> seSubject old = seSubject s \<and> seConsents old = seConsents s)"
        using new_session_sel(3) [of st r "seSubject s" now] unfolding s [symmetric] .
    qed
    have "storing (code_for a st') (continueRequest a st' w1 r req (Some s))"
      by (rule storing_continueRequest [of _ _ i]) (simp add: st' started_def)
    from codes_in_last [OF _ _ this go, of log "l @ [EvNow now]"] log quiet
    show "code_for a st' u" if "EvCreateToken u x \<in> set log" for u x using that by auto
  qed
qed

lemma serve_consent:
  assumes ok: "sessions_ok a h st" and mux: "envMux (appEnv a) r = Some ''POST /consent''"
    and run: "performs (submitConsent a st w r) log (w', st')"
  shows "served_well a (h @ [(st, r, log)]) log st'"
  using run
proof (rule performs_submitConsent)
  assume "st' = st" "\<forall>u x. EvCreateToken u x \<notin> set log"
  then show ?thesis using sessions_ok_grows [OF ok] by (intro served_wellI) simp_all
next
  fix l m s req i
  let ?form = "envPostForm (appEnv a) r"
  let ?given = "\<lparr>csAsked = consentItems req, csGranted = ticked ?form req\<rparr>"
  assume log: "log = l @ m" and quiet: "\<forall>u x. EvCreateToken u x \<notin> set l"
    and s: "currentSession st r = Some s"
    and load: "EvLoadRequest (values_Get ?form ''id'') (Inr req) \<in> set l"
    and allow: "values_Get ?form ''action'' = ''allow''"
    and st': "st' = agreed st s (arClientID req) ?given"
    and go: "performs (op_approve a w r req s (ticked ?form req)) m w'"
  obtain i where i: "asSessions st i = Some s"
    using s by (auto simp: currentSession_def sessionLocked_def split: option.split_asm)
  show ?thesis
  proof (rule served_wellI)
    show "sessions_ok a (h @ [(st, r, log)]) st'"
    proof (rule sessions_ok_consent [OF sessions_ok_grows [OF ok] i])
      show "st' = st\<lparr>asConsents := (asConsents st)(seConsents s :=
          (asConsents st (seConsents s))(arClientID req \<mapsto> ?given))\<rparr>"
        using st' by (simp add: agreed_def)
      fix item
      assume "item \<in> set (csGranted ?given)"
      then have item: "item \<in> set (consentItems req)"
          "item = ''openid'' \<or> map_of ?form (''consent:'' @ item) \<noteq> None"
        by (simp_all add: ticked_def)
      have "EvLoadRequest (values_Get ?form ''id'') (Inr req) \<in> set log" using load log by simp
      with item s allow mux show "consented a (h @ [(st, r, log)]) (seSubject s) (arClientID req) item"
        by (intro history_last) (auto simp: consents_to_def)
    qed
    have "storing (code_for a st') (op_approve a w r req s (ticked ?form req))"
      by (rule storing_op_approve [of _ i]) (simp_all add: st' agreed_def i)
    from codes_in_last [OF log quiet this go]
    show "code_for a st' u" if "EvCreateToken u x \<in> set log" for u x using that .
  qed
qed

lemma serve_library:
  assumes ok: "sessions_ok a h st"
    and run: "performs (answering st (ServeHTTP (live_provider a st) w r)) log (w', st')"
  shows "served_well a (h @ [(st, r, log)]) log st'"
proof (rule served_wellI)
  from run have st': "st' = st" and go: "performs (ServeHTTP (live_provider a st) w r) log w'"
    by (simp_all add: performs_answering)
  show "sessions_ok a (h @ [(st, r, log)]) st'" using sessions_ok_grows [OF ok] st' by simp
  have "storing (code_for a st) (ServeHTTP (live_provider a st) w r)"
  proof (rule storing_ServeHTTP)
    fix interact' w r req
    assume "cfInteract (pvCfg (live_provider a st)) = Some interact'"
    then have "interact' = interact a st" by (simp add: live_provider_def Let_def)
    moreover have "storing (code_for a st) (continueRequest a st w r req (sessionLocked st r))"
    proof (cases "request_Cookie r op_session")
      case None
      then show ?thesis by (intro storing_continueRequest) (simp add: sessionLocked_def)
    next
      case (Some i)
      then show ?thesis by (intro storing_continueRequest [of _ _ i]) (simp add: sessionLocked_def)
    qed
    ultimately show "storing (code_for a st) (interact' w r req)"
      by (simp add: interact_def currentSession_def)
  qed (simp add: code_for_def)
  from storing_performs [OF this go]
  show "code_for a st' u" if "EvCreateToken u x \<in> set log" for u x using that st' by blast
qed

lemma serve_step:
  assumes "sessions_ok a h st" and "performs (op_Handler a st w r) log (w', st')"
  shows "served_well a (h @ [(st, r, log)]) log st'"
proof (cases "envMux (appEnv a) r")
  case None
  then have "log = []" "st' = st" using assms(2) by (simp_all add: op_Handler_def)
  then show ?thesis using sessions_ok_grows [OF assms(1)] by (intro served_wellI) simp_all
next
  case (Some pattern)
  consider "pattern = ''GET /login''" | "pattern = ''POST /login''" | "pattern = ''POST /consent''"
    | "pattern \<noteq> ''GET /login''" "pattern \<noteq> ''POST /login''" "pattern \<noteq> ''POST /consent''" by blast
  then show ?thesis
  proof cases
    case 1
    then have run: "performs (showLogin a st (securityHeaders w) r) log (w', st')"
      using assms(2) Some by (simp add: op_Handler_def)
    have "storing (\<lambda>_. False) (showLogin a st (securityHeaders w) r)"
      unfolding showLogin_def by (intro makes_bind storing_pending makes_Ret)
    from storing_performs [OF this run] have quiet: "EvCreateToken u x \<notin> set log" for u x by blast
    from run obtain x where "(w', st') =
        (case x of
          Inl err \<Rightarrow> (renderError a err (securityHeaders w), st)
        | Inr req \<Rightarrow> (render (appEnv a) ''login.html'' (LoginPage req [] (arLoginHint req)) (securityHeaders w), st))"
      unfolding showLogin_def performs_bind performs_Ret by blast
    then have "st' = st" by (cases x) simp_all
    then show ?thesis using sessions_ok_grows [OF assms(1)] quiet by (intro served_wellI) simp_all
  next
    case 2
    then have "performs (submitLogin a st (securityHeaders w) r) log (w', st')"
      using assms(2) Some by (simp add: op_Handler_def)
    from serve_login [OF assms(1) _ this] Some 2 show ?thesis by simp
  next
    case 3
    then have "performs (submitConsent a st (securityHeaders w) r) log (w', st')"
      using assms(2) Some by (simp add: op_Handler_def)
    from serve_consent [OF assms(1) _ this] Some 3 show ?thesis by simp
  next
    case 4
    then have "performs (answering st (ServeHTTP (live_provider a st) (securityHeaders w) r)) log (w', st')"
      using assms(2) Some by (simp add: op_Handler_def)
    from serve_library [OF assms(1) this] show ?thesis .
  qed
qed

lemma run_sessions_ok: "op_run a h st \<Longrightarrow> sessions_ok a h st"
proof (induction rule: op_run.induct)
  case op_start
  then show ?case by (simp add: sessions_ok_def)
next
  case (op_served h st w r log w' st')
  from serve_step [OF op_served.IH op_served.hyps(2)] show ?case by (simp add: served_well_def)
qed

inductive_cases op_run_last: "op_run a (h @ [(st, r, log)]) st'"

section \<open>The property\<close>

text \<open>C34. The example provider issues codes for what its users agreed to. In any run of the application,
  whatever the storage, the clock and the random source answer, an authorization code that serving a
  request creates is for an end-user who, at the authentication time of the code, sent the login form with
  the user name and the password of that subject; and each scope of the code was granted by that end-user
  to the client of the code, with a consent form for an authorization request of the client that asks for
  it, unless the application consents to everything by itself.\<close>

theorem opapp_codes_authorised:
  assumes "op_run a (h @ [(st, r, log)]) st'" and "EvCreateToken u x \<in> set log"
    and "tKind u = TokenKindAuthorizationCode"
  shows "signed_in a (h @ [(st, r, log)]) (tSubject u) (tAuthTime u) \<and>
     (\<forall>scope. scope \<in> set (tScopes u) \<longrightarrow>
        appAutoConsent a \<or> consented a (h @ [(st, r, log)]) (tSubject u) (tClientID u) scope)"
proof -
  from assms(1) obtain w w' where "op_run a h st" "performs (op_Handler a st w r) log (w', st')"
    by (auto elim: op_run_last)
  from serve_step [OF run_sessions_ok [OF this(1)] this(2)]
  have ok: "sessions_ok a (h @ [(st, r, log)]) st'" and code: "code_for a st' u"
    using assms(2) by (auto simp: served_well_def)
  from code assms(3) obtain i s where s: "asSessions st' i = Some s" "tSubject u = seSubject s"
      "tAuthTime u = seAuthTime s"
    and scopes: "\<forall>scope \<in> set (tScopes u). appAutoConsent a \<or>
      (\<exists>c. asConsents st' (seConsents s) (tClientID u) = Some c \<and> scope \<in> set (csGranted c))"
    unfolding code_for_def by blast
  show ?thesis using sessions_okD(1,3) [OF ok s(1)] s(2,3) scopes by metis
qed

text \<open>Alice signs in, consents to openid only, and the client gets a code.\<close>

definition alice_app :: App where
  "alice_app =
     \<lparr>appProvider = sample_p, appAutoConsent = False,
      appUsers = op_users [\<lparr>usSubject = ''alice'', usUsername = ''al'', usPasswordHash = ''pass'', usClaims = []\<rparr>],
      appDummyHash = [],
      appEnv = \<lparr>envBcrypt = (=), envTemplate = (\<lambda>name data. []), envPostForm = (\<lambda>r. opt_list (rPostForm r)),
        envTLS = (\<lambda>r. True), envMux = (\<lambda>r. Some (''POST '' @ rEscapedPath r)), envMuxAnswer = (\<lambda>r w. w)\<rparr>\<rparr>"

definition login_http :: Request where
  "login_http = sample_http\<lparr>rEscapedPath := ''/login'', rPostForm := Some
     [(''id'', [''r1'']), (''username'', [''al'']), (''password'', [''pass''])]\<rparr>"

definition consent_http :: Request where
  "consent_http = sample_http\<lparr>rEscapedPath := ''/consent'', rCookies := [(op_session, rnd_token 5)],
     rPostForm := Some [(''id'', [''r1'']), (''action'', [''allow''])]\<rparr>"

definition login_log :: "event list" where
  "login_log =
     [EvLoadRequest ''r1'' (Inr sample_saved), EvNow (12 * second), EvRand (rnd 5), EvNow (11 * second),
      EvNow (12 * second)]"

definition consent_log :: "event list" where
  "consent_log = [EvLoadRequest ''r1'' (Inr sample_saved), EvNow (12 * second)] @ approve_log"

definition alice_session :: session where
  "alice_session = \<lparr>seSubject = ''alice'', seAuthTime = 11 * second, seConsents = 0\<rparr>"

definition start_state :: AppState where
  "start_state = \<lparr>asSessions = Map.empty, asConsents = (\<lambda>_. Map.empty), asNext = 0\<rparr>"

lemma alice_pending:
  "performs (provider_AuthorizationRequest sample_p r ''r1'')
     [EvLoadRequest ''r1'' (Inr sample_saved), EvNow (12 * second)] (Inr sample_saved)"
  by (simp add: provider_AuthorizationRequest_def loadPending_def run_log_simps sample_not_pushed
      binding_ok_def time_Before_def second_def)

lemma alice_login_needed:
  "performs (loginNeeded sample_saved (Some alice_session)) [EvNow (12 * second)] False"
  by (simp add: loginNeeded_def alice_session_def run_log_simps needsAuthentication_def time_IsZero_def
      time_After_def time_Before_def time_Add_def time_Truncate_def time_Sub_def max_duration_def
      min_duration_def second_def arHasPrompt_def)

lemma alice_start:
  "performs (startSession alice_app start_state w login_http ''alice'') [EvRand (rnd 5), EvNow (11 * second)]
     (http_SetCookie (session_cookie alice_app login_http (rnd_token 5)) w,
      started start_state (rnd_token 5) alice_session, alice_session)"
proof -
  have "new_session start_state login_http ''alice'' (11 * second) = alice_session"
    by (simp add: new_session_def sessionLocked_def request_Cookie_def login_http_def sample_http_def
        start_state_def alice_session_def)
  then show ?thesis
    by (simp add: startSession_def randomToken_def run_log_simps started_def rnd_token_def)
qed

definition alice_state :: AppState where
  "alice_state = started start_state (rnd_token 5) alice_session"

lemma alice_consent_page:
  "\<exists>w'. performs (continueRequest alice_app alice_state w login_http sample_saved (Some alice_session))
     [EvNow (12 * second)] w'"
proof -
  have "performs (continueRequest alice_app alice_state w login_http sample_saved (Some alice_session))
     ([EvNow (12 * second)] @ []) (render (appEnv alice_app) ''consent.html''
        (ConsentPage sample_saved (ClaimsRequest_Names (arClaims sample_saved))) w)"
    unfolding continueRequest_def
    by (rule performs_bindI [OF alice_login_needed])
      (simp add: alice_app_def alice_state_def started_def start_state_def alice_session_def arHasPrompt_def)
  then show ?thesis by auto
qed

lemma alice_form:
  "envPostForm (appEnv alice_app) r = opt_list (rPostForm r)"
  "envMux (appEnv alice_app) r = Some (''POST '' @ rEscapedPath r)"
  "appProvider alice_app = sample_p" "\<not> appAutoConsent alice_app"
  by (simp_all add: alice_app_def)

lemma alice_fields:
  "values_Get (envPostForm (appEnv alice_app) login_http) ''id'' = ''r1''"
  "values_Get (envPostForm (appEnv alice_app) login_http) ''action'' = []"
  "values_Get (envPostForm (appEnv alice_app) login_http) ''username'' = ''al''"
  "values_Get (envPostForm (appEnv alice_app) login_http) ''password'' = ''pass''"
  "values_Get (envPostForm (appEnv alice_app) consent_http) ''id'' = ''r1''"
  "values_Get (envPostForm (appEnv alice_app) consent_http) ''action'' = ''allow''"
  by (simp_all add: alice_form login_http_def consent_http_def values_Get_def opt_list_def)

lemma alice_login:
  "\<exists>w'. performs (op_Handler alice_app start_state w login_http) login_log (w', alice_state)"
proof -
  define w1 where "w1 = http_SetCookie (session_cookie alice_app login_http (rnd_token 5)) (securityHeaders w)"
  obtain w' where page: "performs
      (continueRequest alice_app alice_state w1 login_http sample_saved (Some alice_session))
      [EvNow (12 * second)] w'" using alice_consent_page by blast
  have user: "appUsers alice_app ''al'' =
      Some \<lparr>usSubject = ''alice'', usUsername = ''al'', usPasswordHash = ''pass'', usClaims = []\<rparr>"
    "envBcrypt (appEnv alice_app) = (=)"
    by (simp_all add: alice_app_def op_users_def)
  have go: "performs (bind (startSession alice_app start_state (securityHeaders w) login_http ''alice'')
      (\<lambda>(w, st, s). answering st (continueRequest alice_app st w login_http sample_saved (Some s))))
      ([EvRand (rnd 5), EvNow (11 * second)] @ [EvNow (12 * second)]) (w', alice_state)"
    by (rule performs_bindI [OF alice_start])
      (use page in \<open>simp add: performs_answering w1_def alice_state_def\<close>)
  have "performs (submitLogin alice_app start_state (securityHeaders w) login_http)
      ([EvLoadRequest ''r1'' (Inr sample_saved), EvNow (12 * second)] @
       [EvRand (rnd 5), EvNow (11 * second)] @ [EvNow (12 * second)]) (w', alice_state)"
    unfolding submitLogin_def Let_def alice_fields alice_form(3)
    by (rule performs_bindI [OF alice_pending]) (use go in \<open>simp add: user\<close>)
  then show ?thesis
    by (auto simp: op_Handler_def alice_form(2) login_http_def [THEN arg_cong [where f = rEscapedPath]]
        login_log_def Let_def)
qed

lemma alice_granted:
  "ticked (envPostForm (appEnv alice_app) consent_http) sample_saved = [''openid'']"
  "op_approval sample_saved alice_session [''openid''] = sample_approval"
proof -
  have "strings_CutPrefix ''openid'' ''claim:'' = None" by code_simp
  then show "op_approval sample_saved alice_session [''openid''] = sample_approval"
    by (simp add: op_approval_def consentItems_def ClaimsRequest_Names_def alice_session_def
        sample_approval_def sample_saved_def [THEN arg_cong [where f = arACRValues]])
  show "ticked (envPostForm (appEnv alice_app) consent_http) sample_saved = [''openid'']"
    by (simp add: ticked_def consentItems_def ClaimsRequest_Names_def alice_form consent_http_def opt_list_def)
qed

lemma alice_consent:
  "\<exists>w' st'. performs (op_Handler alice_app alice_state w consent_http) consent_log (w', st')"
proof -
  have current: "currentSession alice_state consent_http = Some alice_session"
    by (simp add: currentSession_def sessionLocked_def request_Cookie_def consent_http_def alice_state_def
        started_def)
  have approve: "performs (op_approve alice_app (securityHeaders w) consent_http sample_saved alice_session
      [''openid'']) (approve_log @ []) (approve_response (securityHeaders w) consent_http)"
    unfolding op_approve_def alice_granted alice_form(3)
    by (rule performs_bindI [OF approve_run]) simp
  have "\<exists>st'. performs (submitConsent alice_app alice_state (securityHeaders w) consent_http)
      ([EvLoadRequest ''r1'' (Inr sample_saved), EvNow (12 * second)] @ approve_log)
      (approve_response (securityHeaders w) consent_http, st')"
    unfolding submitConsent_def Let_def alice_fields alice_form(3)
    by (rule exI, rule performs_bindI [OF alice_pending])
      (use approve in \<open>simp add: current alice_granted performs_answering\<close>)
  then show ?thesis
    by (auto simp: op_Handler_def alice_form(2) consent_http_def [THEN arg_cong [where f = rEscapedPath]]
        consent_log_def Let_def)
qed

definition alice_history :: history where
  "alice_history = [(start_state, login_http, login_log)]"

lemma opapp_codes_authorised_witness:
  "signed_in alice_app (alice_history @ [(alice_state, consent_http, consent_log)]) ''alice'' (11 * second) \<and>
   consented alice_app (alice_history @ [(alice_state, consent_http, consent_log)]) ''alice'' ''app'' ''openid''"
proof -
  obtain w1 where "performs (op_Handler alice_app start_state fresh_writer login_http) login_log
      (w1, alice_state)" using alice_login by blast
  from op_served [OF op_start [of alice_app, folded start_state_def] this]
  have run: "op_run alice_app alice_history alice_state" by (simp add: alice_history_def)
  obtain w2 st' where "performs (op_Handler alice_app alice_state fresh_writer consent_http) consent_log
      (w2, st')" using alice_consent by blast
  from op_served [OF run this]
  have run': "op_run alice_app (alice_history @ [(alice_state, consent_http, consent_log)]) st'" .
  have "tSubject approved_code = ''alice''" "tAuthTime approved_code = 11 * second"
      "tClientID approved_code = ''app''" "tScopes approved_code = [''openid'']"
      "tKind approved_code = TokenKindAuthorizationCode"
    by (simp_all add: approved_code_def code_record_def sample_approval_def)
  moreover have "EvCreateToken approved_code None \<in> set consent_log"
    by (simp add: consent_log_def approve_log_def)
  ultimately show ?thesis
    using opapp_codes_authorised [OF run', of approved_code None] alice_form(4) by simp
qed

end
