(* ===== verification/Example_Rpapp.thy ===== *)
theory Example_Rpapp
  imports Example_Opapp
begin

text \<open>
  examples/internal/rpapp/rpapp.go: the example relying party. Its handlers run concurrently and share
  the pending logins and the sessions, under a mutex, and what discovery found, under another one. A
  handler is a program, whose steps are the sections under a mutex and the calls that leave the program:
  the clock, the random source, and the libraries and requests that talk to the provider. A step is an
  event with its answer; \<open>rp_serve\<close> says which answers the state of the application gives, and the other
  answers are those of the network, which may be anything.

  Parameters are the pure functions of golang.org/x/oauth2 and github.com/coreos/go-oidc, JSON decoding,
  the text of an error, the template, whether the connection uses TLS, and the choice of http.ServeMux
  (fields of \<open>rp_library\<close>). Logging is left out. The texts of errors stand without the values they quote.
\<close>

section \<open>State\<close>

record RpConfig =
  rcIssuer :: string
  rcClientID :: string
  rcClientSecret :: string
  rcBaseURL :: string
  rcScopes :: "string list"

record pendingLogin =
  plState :: string
  plNonce :: string
  plVerifier :: string
  plCreated :: time

text \<open>What the libraries return: a token response, a verified ID token, a UserInfo response. The claims are
  what decoding them into a map returns.\<close>

record oauth_token =
  otAccessToken :: string
  otRefreshToken :: string
  otExtra :: json_map

record id_token =
  itSubject :: string
  itNonce :: string
  itAccessTokenHash :: string
  itClaims :: "goerr + json_map"

record user_info =
  uiSubject :: string
  uiClaims :: "goerr + json_map"

record rp_session =
  rsToken :: oauth_token
  rsIDToken :: string
  rsIDClaims :: json_map
  rsUserInfo :: json_map
  rsIntrospected :: json_map
  rsMessage :: string

text \<open>\<^verbatim>\<open>oauth2.Endpoint\<close> and \<^verbatim>\<open>oauth2.Config\<close>, and the provider that discovery found, whose extra metadata are
  the endpoints for revocation and introspection.\<close>

record oauth_endpoint =
  oeAuthURL :: string
  oeTokenURL :: string
  oeStyleInHeader :: bool

record oauth_config =
  ogClientID :: string
  ogClientSecret :: string
  ogEndpoint :: oauth_endpoint
  ogRedirectURL :: string
  ogScopes :: "string list"

record discovered =
  dsEndpoint :: oauth_endpoint
  dsExtra :: "goerr + string \<times> string"

text \<open>The fields that \<^verbatim>\<open>setup\<close> sets; the verifier is the client ID it expects as audience.\<close>

record connection =
  coProvider :: discovered
  coOAuth :: oauth_config
  coVerifier :: string
  coRevokeURL :: string
  coIntrospect :: string

text \<open>The map of sessions has pointers, whose sessions are \<open>raObjects\<close>.\<close>

record RpState =
  raConnection :: "connection option"
  raPending :: "string \<Rightarrow> pendingLogin option"
  raSessions :: "string \<Rightarrow> nat option"
  raObjects :: "nat \<Rightarrow> rp_session option"
  raNext :: nat

definition rp_New :: RpState where
  "rp_New = \<lparr>raConnection = None, raPending = Map.empty, raSessions = Map.empty, raObjects = Map.empty, raNext = 0\<rparr>"

definition pendingCookie :: string where "pendingCookie = ''rp_login''"
definition sessionCookie :: string where "sessionCookie = ''rp_session''"

section \<open>Programs\<close>

text \<open>The request and the response of \<^verbatim>\<open>http.DefaultClient.Do\<close>, and what reading the body gives.\<close>

record http_call =
  hcMethod :: string
  hcURL :: string
  hcContentType :: string
  hcBasicAuth :: "string \<times> string"
  hcBody :: string

record http_answer =
  haStatusCode :: int
  haBody :: "goerr + bytes"

datatype rp_event =
  RpTime time
| RpRandom bytes
| RpVerifier string
| RpSetup "(goerr + discovered) option" "goerr option"
| RpConnection "connection option"
| RpPutPending string pendingLogin
| RpTakePending string "pendingLogin option"
| RpExchange oauth_config string string "goerr + oauth_token"
| RpVerify string string "goerr + id_token"
| RpUserInfo oauth_token "goerr + user_info"
| RpRefresh oauth_config string "goerr + oauth_token"
| RpDo http_call "goerr + http_answer"
| RpSession string "(nat \<times> rp_session) option"
| RpRead nat rp_session
| RpPutSession string rp_session
| RpIntrospected nat json_map
| RpDeleteSession string

text \<open>A program has returned, or goes on after the events that its next step can be.\<close>

datatype 'a rp =
  RpRet 'a
| RpStep "rp_event \<Rightarrow> 'a rp option"

primrec rp_bind :: "'a rp \<Rightarrow> ('a \<Rightarrow> 'b rp) \<Rightarrow> 'b rp" where
  "rp_bind (RpRet a) f = f a"
| "rp_bind (RpStep k) f = RpStep (\<lambda>ev. map_option (\<lambda>p. rp_bind p f) (k ev))"

definition rp_now :: "time rp" where
  "rp_now = RpStep (\<lambda>ev. case ev of RpTime t \<Rightarrow> Some (RpRet t) | _ \<Rightarrow> None)"

definition randomString :: "string rp" where
  "randomString = RpStep (\<lambda>ev. case ev of RpRandom b \<Rightarrow> if length b = 32 then Some (RpRet (b64_EncodeToString b)) else None | _ \<Rightarrow> None)"

definition generateVerifier :: "string rp" where
  "generateVerifier = RpStep (\<lambda>ev. case ev of RpVerifier v \<Rightarrow> Some (RpRet v) | _ \<Rightarrow> None)"

definition rp_setup :: "goerr option rp" where
  "rp_setup = RpStep (\<lambda>ev. case ev of RpSetup a r \<Rightarrow> Some (RpRet r) | _ \<Rightarrow> None)"

definition rp_connection :: "connection option rp" where
  "rp_connection = RpStep (\<lambda>ev. case ev of RpConnection c \<Rightarrow> Some (RpRet c) | _ \<Rightarrow> None)"

definition put_pending :: "string \<Rightarrow> pendingLogin \<Rightarrow> unit rp" where
  "put_pending i p = RpStep (\<lambda>ev. if ev = RpPutPending i p then Some (RpRet ()) else None)"

definition take_pending :: "string \<Rightarrow> pendingLogin option rp" where
  "take_pending i = RpStep (\<lambda>ev. case ev of RpTakePending j p \<Rightarrow> if j = i then Some (RpRet p) else None | _ \<Rightarrow> None)"

definition oauth_Exchange :: "oauth_config \<Rightarrow> string \<Rightarrow> string \<Rightarrow> (goerr + oauth_token) rp" where
  "oauth_Exchange c code verifier = RpStep (\<lambda>ev. case ev of
     RpExchange d e v r \<Rightarrow> if d = c \<and> e = code \<and> v = verifier then Some (RpRet r) else None | _ \<Rightarrow> None)"

definition verifier_Verify :: "string \<Rightarrow> string \<Rightarrow> (goerr + id_token) rp" where
  "verifier_Verify clientID raw = RpStep (\<lambda>ev. case ev of
     RpVerify c x r \<Rightarrow> if c = clientID \<and> x = raw then Some (RpRet r) else None | _ \<Rightarrow> None)"

definition provider_UserInfo :: "oauth_token \<Rightarrow> (goerr + user_info) rp" where
  "provider_UserInfo t = RpStep (\<lambda>ev. case ev of
     RpUserInfo u r \<Rightarrow> if u = t then Some (RpRet r) else None | _ \<Rightarrow> None)"

definition oauth_Refresh :: "oauth_config \<Rightarrow> string \<Rightarrow> (goerr + oauth_token) rp" where
  "oauth_Refresh c refreshToken = RpStep (\<lambda>ev. case ev of
     RpRefresh d t r \<Rightarrow> if d = c \<and> t = refreshToken then Some (RpRet r) else None | _ \<Rightarrow> None)"

definition client_Do :: "http_call \<Rightarrow> (goerr + http_answer) rp" where
  "client_Do q = RpStep (\<lambda>ev. case ev of RpDo q' r \<Rightarrow> if q' = q then Some (RpRet r) else None | _ \<Rightarrow> None)"

definition find_session :: "string \<Rightarrow> (nat \<times> rp_session) option rp" where
  "find_session i = RpStep (\<lambda>ev. case ev of RpSession j x \<Rightarrow> if j = i then Some (RpRet x) else None | _ \<Rightarrow> None)"

definition read_session :: "nat \<Rightarrow> rp_session rp" where
  "read_session a = RpStep (\<lambda>ev. case ev of RpRead b s \<Rightarrow> if b = a then Some (RpRet s) else None | _ \<Rightarrow> None)"

definition put_session :: "string \<Rightarrow> rp_session \<Rightarrow> unit rp" where
  "put_session i s = RpStep (\<lambda>ev. if ev = RpPutSession i s then Some (RpRet ()) else None)"

definition set_introspected :: "nat \<Rightarrow> json_map \<Rightarrow> unit rp" where
  "set_introspected a m = RpStep (\<lambda>ev. if ev = RpIntrospected a m then Some (RpRet ()) else None)"

definition delete_session :: "string \<Rightarrow> unit rp" where
  "delete_session i = RpStep (\<lambda>ev. if ev = RpDeleteSession i then Some (RpRet ()) else None)"

section \<open>The libraries\<close>

datatype auth_option =
  OptNonce string
| OptS256Challenge string
| OptParam string string

record rp_library =
  lbAuthCodeURL :: "oauth_config \<Rightarrow> string \<Rightarrow> auth_option list \<Rightarrow> string"
  lbVerifyAccessToken :: "id_token \<Rightarrow> string \<Rightarrow> goerr option"
  lbUnmarshal :: "bytes \<Rightarrow> goerr + json_map"
  lbErrorText :: "goerr \<Rightarrow> string"
  lbHome :: "rp_session option \<Rightarrow> string \<Rightarrow> bytes"
  lbTLS :: "Request \<Rightarrow> bool"
  lbMux :: "Request \<Rightarrow> string option"
  lbMuxAnswer :: "Request \<Rightarrow> ResponseWriter \<Rightarrow> ResponseWriter"

record RpApp =
  rpCfg :: RpConfig
  rpLib :: rp_library

section \<open>Setup\<close>

text \<open>What \<^verbatim>\<open>setup\<close> does when there is no provider yet and \<^verbatim>\<open>oidc.NewProvider\<close> returns \<open>found\<close>.\<close>

definition setup_found :: "RpConfig \<Rightarrow> goerr + discovered \<Rightarrow> goerr + connection" where
  "setup_found cfg found =
     (case found of
        Inl err \<Rightarrow> Inl (EWrap ''discover'' [err])
      | Inr provider \<Rightarrow>
          (case dsExtra provider of
             Inl err \<Rightarrow> Inl err
           | Inr (revokeURL, introspectURL) \<Rightarrow>
               Inr \<lparr>coProvider = provider,
                    coOAuth = \<lparr>ogClientID = rcClientID cfg, ogClientSecret = rcClientSecret cfg,
                               ogEndpoint = (dsEndpoint provider)\<lparr>oeStyleInHeader := True\<rparr>,
                               ogRedirectURL = rcBaseURL cfg @ ''/callback'', ogScopes = rcScopes cfg\<rparr>,
                    coVerifier = rcClientID cfg, coRevokeURL = revokeURL, coIntrospect = introspectURL\<rparr>))"

section \<open>What the state answers\<close>

text \<open>\<open>RpSetup a r\<close>: \<^verbatim>\<open>setup\<close> holds its mutex while it runs. It asks the network (answer \<open>a\<close>) when there is no
  provider.\<close>

fun rp_serve :: "RpConfig \<Rightarrow> rp_event \<Rightarrow> RpState \<Rightarrow> RpState option" where
  "rp_serve cfg (RpSetup a r) st =
     (case (raConnection st, a) of
        (Some c, None) \<Rightarrow> if r = None then Some st else None
      | (None, Some found) \<Rightarrow>
          (case setup_found cfg found of
             Inl err \<Rightarrow> if r = Some err then Some st else None
           | Inr c \<Rightarrow> if r = None then Some (st\<lparr>raConnection := Some c\<rparr>) else None)
      | _ \<Rightarrow> None)"
| "rp_serve cfg (RpConnection c) st = (if c = raConnection st then Some st else None)"
| "rp_serve cfg (RpPutPending i p) st = Some (st\<lparr>raPending := (raPending st)(i \<mapsto> p)\<rparr>)"
| "rp_serve cfg (RpTakePending i p) st =
     (if p = raPending st i then Some (st\<lparr>raPending := (raPending st)(i := None)\<rparr>) else None)"
| "rp_serve cfg (RpSession i x) st =
     (if x = (case raSessions st i of None \<Rightarrow> None | Some a \<Rightarrow> map_option (Pair a) (raObjects st a))
      then Some st else None)"
| "rp_serve cfg (RpRead a s) st = (if raObjects st a = Some s then Some st else None)"
| "rp_serve cfg (RpPutSession i s) st =
     Some (st\<lparr>raObjects := (raObjects st)(raNext st \<mapsto> s), raSessions := (raSessions st)(i \<mapsto> raNext st),
              raNext := raNext st + 1\<rparr>)"
| "rp_serve cfg (RpIntrospected a m) st =
     (case raObjects st a of
        None \<Rightarrow> None
      | Some s \<Rightarrow> Some (st\<lparr>raObjects := (raObjects st)
          (a \<mapsto> s\<lparr>rsIntrospected := m, rsMessage := ''Access token introspected.''\<rparr>)\<rparr>))"
| "rp_serve cfg (RpDeleteSession i) st = Some (st\<lparr>raSessions := (raSessions st)(i := None)\<rparr>)"
| "rp_serve cfg _ st = Some st"

section \<open>Handlers\<close>

text \<open>A handler writes its response, or panics on a nil pointer.\<close>

type_synonym rp_served = "ResponseWriter option rp"

definition rp_fail :: "RpApp \<Rightarrow> ResponseWriter \<Rightarrow> int \<Rightarrow> goerr \<Rightarrow> ResponseWriter" where
  "rp_fail a w status err =
     writer_Write (BodyText (''Error: '' @ lbErrorText (rpLib a) err @ [CHR 0x0A]))
       (WriteHeader status (header_Set ''Content-Type'' ''text/plain; charset=utf-8'' w))"

text \<open>The statement after a read of \<^verbatim>\<open>a.oauth\<close>, \<^verbatim>\<open>a.verifier\<close> or \<^verbatim>\<open>a.provider\<close>, which are nil together.\<close>

definition connected :: "(connection \<Rightarrow> 'a option rp) \<Rightarrow> 'a option rp" where
  "connected f = rp_bind rp_connection (\<lambda>co. case co of None \<Rightarrow> RpRet None | Some c \<Rightarrow> f c)"

definition pending_cookie :: "RpApp \<Rightarrow> Request \<Rightarrow> string \<Rightarrow> Cookie" where
  "pending_cookie a r i =
     \<lparr>ckName = pendingCookie, ckValue = i, ckPath = ''/'', ckMaxAge = 600, ckSecure = lbTLS (rpLib a) r,
      ckHttpOnly = True, ckSameSiteLax = True\<rparr>"

definition rp_session_cookie :: "RpApp \<Rightarrow> Request \<Rightarrow> string \<Rightarrow> Cookie" where
  "rp_session_cookie a r i =
     \<lparr>ckName = sessionCookie, ckValue = i, ckPath = ''/'', ckMaxAge = 0, ckSecure = lbTLS (rpLib a) r,
      ckHttpOnly = True, ckSameSiteLax = True\<rparr>"

definition drop_cookie :: "string \<Rightarrow> Cookie" where
  "drop_cookie name =
     \<lparr>ckName = name, ckValue = [], ckPath = ''/'', ckMaxAge = -1, ckSecure = False, ckHttpOnly = False,
      ckSameSiteLax = False\<rparr>"

definition login_options :: "Request \<Rightarrow> pendingLogin \<Rightarrow> auth_option list" where
  "login_options r p =
     (let opts = [OptNonce (plNonce p), OptS256Challenge (plVerifier p)];
          prompt = values_Get (rQuery r) ''prompt''
      in if prompt \<noteq> [] then opts @ [OptParam ''prompt'' prompt] else opts)"

definition rp_login :: "RpApp \<Rightarrow> ResponseWriter \<Rightarrow> Request \<Rightarrow> rp_served" where
  "rp_login a w r =
     rp_bind rp_setup (\<lambda>e. case e of
       Some err \<Rightarrow> RpRet (Some (rp_fail a w 502 err))
     | None \<Rightarrow>
         rp_bind randomString (\<lambda>state. rp_bind randomString (\<lambda>nonce. rp_bind generateVerifier (\<lambda>verifier.
         rp_bind rp_now (\<lambda>created.
           (let p = \<lparr>plState = state, plNonce = nonce, plVerifier = verifier, plCreated = created\<rparr> in
            rp_bind randomString (\<lambda>i. rp_bind (put_pending i p) (\<lambda>_.
              (let w = http_SetCookie (pending_cookie a r i) w in
               connected (\<lambda>c. RpRet (Some
                 (http_Redirect r (lbAuthCodeURL (rpLib a) (coOAuth c) (plState p) (login_options r p)) 302 w))))))))))))"

text \<open>\<^verbatim>\<open>verifyTokens\<close>; \<open>None\<close> is a panic.\<close>

definition session_of :: "oauth_token \<Rightarrow> string \<Rightarrow> json_map \<Rightarrow> json_map \<Rightarrow> rp_session" where
  "session_of token raw claims info =
     \<lparr>rsToken = token, rsIDToken = raw, rsIDClaims = claims, rsUserInfo = info, rsIntrospected = [], rsMessage = []\<rparr>"

definition check_id_token :: "RpApp \<Rightarrow> oauth_token \<Rightarrow> string \<Rightarrow> id_token \<Rightarrow> goerr + json_map" where
  "check_id_token a token nonce idToken =
     (if nonce \<noteq> [] \<and> itNonce idToken \<noteq> nonce then Inl (ENew ''ID token nonce mismatch'')
      else case (if itAccessTokenHash idToken \<noteq> []
                 then lbVerifyAccessToken (rpLib a) idToken (otAccessToken token) else None) of
        Some err \<Rightarrow> Inl (EWrap ''verify at_hash'' [err])
      | None \<Rightarrow> itClaims idToken)"

definition check_user_info :: "id_token \<Rightarrow> user_info \<Rightarrow> goerr + json_map" where
  "check_user_info idToken info =
     (if uiSubject info \<noteq> itSubject idToken
      then Inl (ENew ''userinfo subject does not match the ID token'') else uiClaims info)"

definition verifyTokens :: "RpApp \<Rightarrow> oauth_token \<Rightarrow> string \<Rightarrow> (goerr + rp_session) option rp" where
  "verifyTokens a token nonce =
     (case map_of (otExtra token) ''id_token'' of
        Some (JString raw) \<Rightarrow>
          connected (\<lambda>c.
          rp_bind (verifier_Verify (coVerifier c) raw) (\<lambda>x. case x of
            Inl err \<Rightarrow> RpRet (Some (Inl (EWrap ''verify ID token'' [err])))
          | Inr idToken \<Rightarrow>
              (case check_id_token a token nonce idToken of
                 Inl err \<Rightarrow> RpRet (Some (Inl err))
               | Inr claims \<Rightarrow>
                   rp_bind (provider_UserInfo token) (\<lambda>y. case y of
                     Inl err \<Rightarrow> RpRet (Some (Inl (EWrap ''userinfo'' [err])))
                   | Inr info \<Rightarrow> RpRet (Some
                       (case check_user_info idToken info of
                          Inl err \<Rightarrow> Inl err
                        | Inr infoClaims \<Rightarrow> Inr (session_of token raw claims infoClaims)))))))
      | _ \<Rightarrow> RpRet (Some (Inl (ENew ''token response has no id_token''))))"

text \<open>The checks of the callback, before the code is exchanged.\<close>

definition rp_age_ok :: "pendingLogin option \<Rightarrow> bool rp" where
  "rp_age_ok po =
     (case po of
        None \<Rightarrow> RpRet False
      | Some p \<Rightarrow> rp_bind rp_now (\<lambda>now. RpRet (time_Sub now (plCreated p) \<le> 10 * minute)))"

definition callback_refused :: "RpApp \<Rightarrow> Request \<Rightarrow> bool \<Rightarrow> pendingLogin option \<Rightarrow> (int \<times> goerr) option" where
  "callback_refused a r young po =
     (let q = rQuery r in
      if \<not> young \<or> (case po of None \<Rightarrow> True | Some p \<Rightarrow> values_Get q ''state'' \<noteq> plState p)
      then Some (400, ENew ''state mismatch'')
      else if values_Get q ''iss'' \<noteq> rcIssuer (rpCfg a) then Some (400, ENew ''unexpected issuer'')
      else if values_Get q ''error'' \<noteq> [] then Some (401, ENew ''authorization failed'')
      else None)"

definition rp_signed_in :: "RpApp \<Rightarrow> ResponseWriter \<Rightarrow> Request \<Rightarrow> rp_session \<Rightarrow> rp_served" where
  "rp_signed_in a w r s =
     (let s = s\<lparr>rsMessage := ''Signed in.''\<rparr> in
      rp_bind randomString (\<lambda>i. rp_bind (put_session i s) (\<lambda>_. RpRet (Some
        (http_Redirect r ''/'' 303 (http_SetCookie (rp_session_cookie a r i) w))))))"

definition rp_exchange :: "RpApp \<Rightarrow> ResponseWriter \<Rightarrow> Request \<Rightarrow> pendingLogin \<Rightarrow> rp_served" where
  "rp_exchange a w r p =
     connected (\<lambda>c.
     rp_bind (oauth_Exchange (coOAuth c) (values_Get (rQuery r) ''code'') (plVerifier p)) (\<lambda>x. case x of
       Inl err \<Rightarrow> RpRet (Some (rp_fail a w 502 (EWrap ''exchange code'' [err])))
     | Inr token \<Rightarrow>
         rp_bind (verifyTokens a token (plNonce p)) (\<lambda>y. case y of
           None \<Rightarrow> RpRet None
         | Some (Inl err) \<Rightarrow> RpRet (Some (rp_fail a w 502 err))
         | Some (Inr s) \<Rightarrow> rp_signed_in a w r s)))"

definition rp_callback :: "RpApp \<Rightarrow> ResponseWriter \<Rightarrow> Request \<Rightarrow> rp_served" where
  "rp_callback a w r =
     rp_bind rp_setup (\<lambda>e. case e of
       Some err \<Rightarrow> RpRet (Some (rp_fail a w 502 err))
     | None \<Rightarrow>
         (case request_Cookie r pendingCookie of
            None \<Rightarrow> RpRet (Some (rp_fail a w 400 (ENew ''no login in progress'')))
          | Some v \<Rightarrow>
              rp_bind (take_pending v) (\<lambda>po.
                (let w = http_SetCookie (drop_cookie pendingCookie) w in
                 rp_bind (rp_age_ok po) (\<lambda>young.
                   (case callback_refused a r young po of
                      Some (status, err) \<Rightarrow> RpRet (Some (rp_fail a w status err))
                    | None \<Rightarrow> rp_exchange a w r (the po)))))))"

text \<open>The value of the cookie and the session with its pointer.\<close>

definition rp_currentSession :: "Request \<Rightarrow> (string \<times> (nat \<times> rp_session) option) rp" where
  "rp_currentSession r =
     (case request_Cookie r sessionCookie of
        None \<Rightarrow> RpRet ([], None)
      | Some v \<Rightarrow> rp_bind (find_session v) (\<lambda>x. RpRet (v, x)))"

definition rp_home_again :: "Request \<Rightarrow> ResponseWriter \<Rightarrow> ResponseWriter option rp" where
  "rp_home_again r w = RpRet (Some (http_Redirect r ''/'' 303 w))"

definition rp_refresh :: "RpApp \<Rightarrow> ResponseWriter \<Rightarrow> Request \<Rightarrow> rp_served" where
  "rp_refresh a w r =
     rp_bind (rp_currentSession r) (\<lambda>(i, x). case x of
       None \<Rightarrow> rp_home_again r w
     | Some (_, s) \<Rightarrow>
         if otRefreshToken (rsToken s) = [] then rp_home_again r w
         else connected (\<lambda>c.
           rp_bind (oauth_Refresh (coOAuth c) (otRefreshToken (rsToken s))) (\<lambda>y. case y of
             Inl err \<Rightarrow> RpRet (Some (rp_fail a w 502 (EWrap ''refresh'' [err])))
           | Inr token \<Rightarrow>
               rp_bind (verifyTokens a token []) (\<lambda>z. case z of
                 None \<Rightarrow> RpRet None
               | Some (Inl err) \<Rightarrow> RpRet (Some (rp_fail a w 502 err))
               | Some (Inr s') \<Rightarrow>
                   rp_bind (put_session i (s'\<lparr>rsMessage := ''Tokens refreshed; the refresh token was rotated.''\<rparr>)) (\<lambda>_.
                   rp_home_again r w)))))"

text \<open>\<^verbatim>\<open>postClientAuthenticated\<close>: the form has one parameter, token. At most 1 MiB of the body is read.\<close>

definition postClientAuthenticated :: "RpApp \<Rightarrow> string \<Rightarrow> url_values \<Rightarrow> (goerr + bytes) rp" where
  "postClientAuthenticated a endpoint form =
     (case url_Parse endpoint of
        None \<Rightarrow> RpRet (Inl (ENew ''parse''))
      | Some u \<Rightarrow>
          rp_bind (client_Do \<lparr>hcMethod = ''POST'', hcURL = endpoint,
                     hcContentType = ''application/x-www-form-urlencoded'',
                     hcBasicAuth = (url_QueryEscape (rcClientID (rpCfg a)), url_QueryEscape (rcClientSecret (rpCfg a))),
                     hcBody = values_Encode form\<rparr>) (\<lambda>x. RpRet
            (case x of
               Inl err \<Rightarrow> Inl err
             | Inr resp \<Rightarrow>
                 (case haBody resp of
                    Inl err \<Rightarrow> Inl err
                  | Inr b \<Rightarrow>
                      if haStatusCode resp \<noteq> 200 then Inl (ENew ''endpoint returned'') else Inr (take (2 ^ 20) b)))))"

text \<open>\<^verbatim>\<open>a.introspect\<close> and \<^verbatim>\<open>a.revokeURL\<close>, which are empty before \<^verbatim>\<open>setup\<close> set them.\<close>

definition rp_url :: "(connection \<Rightarrow> string) \<Rightarrow> string rp" where
  "rp_url f = rp_bind rp_connection (\<lambda>co. RpRet (case co of None \<Rightarrow> [] | Some c \<Rightarrow> f c))"

definition rp_introspectToken :: "RpApp \<Rightarrow> ResponseWriter \<Rightarrow> Request \<Rightarrow> rp_served" where
  "rp_introspectToken a w r =
     rp_bind (rp_currentSession r) (\<lambda>(_, x). case x of
       None \<Rightarrow> rp_home_again r w
     | Some (ref, s) \<Rightarrow>
         rp_bind (rp_url coIntrospect) (\<lambda>url.
         rp_bind (postClientAuthenticated a url [(''token'', [otAccessToken (rsToken s)])]) (\<lambda>y. case y of
           Inl err \<Rightarrow> RpRet (Some (rp_fail a w 502 err))
         | Inr body \<Rightarrow>
             (case lbUnmarshal (rpLib a) body of
                Inl err \<Rightarrow> RpRet (Some (rp_fail a w 502 err))
              | Inr result \<Rightarrow> rp_bind (set_introspected ref result) (\<lambda>_. rp_home_again r w)))))"

definition rp_signed_out :: "Request \<Rightarrow> ResponseWriter \<Rightarrow> rp_served" where
  "rp_signed_out r w = rp_home_again r (http_SetCookie (drop_cookie sessionCookie) w)"

definition rp_logout :: "RpApp \<Rightarrow> ResponseWriter \<Rightarrow> Request \<Rightarrow> rp_served" where
  "rp_logout a w r =
     rp_bind (rp_currentSession r) (\<lambda>(i, x). case x of
       None \<Rightarrow> rp_signed_out r w
     | Some (_, s) \<Rightarrow>
         (let token = (if otRefreshToken (rsToken s) = [] then otAccessToken (rsToken s) else otRefreshToken (rsToken s)) in
          rp_bind (rp_url coRevokeURL) (\<lambda>url.
          rp_bind (postClientAuthenticated a url [(''token'', [token])]) (\<lambda>_.
          rp_bind (delete_session i) (\<lambda>_. rp_signed_out r w)))))"

text \<open>The page is rendered under the mutex, with the session as it is then.\<close>

definition rp_home :: "RpApp \<Rightarrow> ResponseWriter \<Rightarrow> Request \<Rightarrow> rp_served" where
  "rp_home a w r =
     rp_bind (rp_currentSession r) (\<lambda>(_, x).
     rp_bind (case x of None \<Rightarrow> RpRet None | Some (ref, _) \<Rightarrow> rp_bind (read_session ref) (\<lambda>s. RpRet (Some s))) (\<lambda>so.
       RpRet (Some (writer_Write (BodyBytes (lbHome (rpLib a) so (rcIssuer (rpCfg a))))
         (header_Set ''Cache-Control'' ''no-store''
           (header_Set ''Content-Type'' ''text/html; charset=utf-8'' w))))))"

definition rp_Handler :: "RpApp \<Rightarrow> ResponseWriter \<Rightarrow> Request \<Rightarrow> rp_served" where
  "rp_Handler a w r =
     (case lbMux (rpLib a) r of
        None \<Rightarrow> RpRet (Some (lbMuxAnswer (rpLib a) r w))
      | Some pattern \<Rightarrow>
          if pattern = ''GET /{$}'' then rp_home a w r
          else if pattern = ''GET /login'' then rp_login a w r
          else if pattern = ''GET /callback'' then rp_callback a w r
          else if pattern = ''POST /refresh'' then rp_refresh a w r
          else if pattern = ''POST /introspect'' then rp_introspectToken a w r
          else rp_logout a w r)"

end
