(* ===== verification/Example_RpappProps.thy ===== *)
theory Example_RpappProps
  imports Example_Rpapp
begin

text \<open>
  What the example relying party guarantees while its handlers run interleaved: a session is only started
  by a callback whose login was started here, and every check of the callback was made; a pending login is
  used once; no handler reads what discovery found before it is there.
\<close>

section \<open>Histories of a handler\<close>

fun rp_next :: "'a rp \<Rightarrow> rp_event \<Rightarrow> 'a rp option" where
  "rp_next (RpRet a) ev = None"
| "rp_next (RpStep k) ev = k ev"

fun rp_after :: "'a rp \<Rightarrow> rp_event list \<Rightarrow> 'a rp option" where
  "rp_after p [] = Some p"
| "rp_after p (ev # l) = (case rp_next p ev of None \<Rightarrow> None | Some q \<Rightarrow> rp_after q l)"

text \<open>
  \<open>rp_wlp A P Q p h\<close>: with the history \<open>h\<close>, as long as the answers are as \<open>A\<close> says, every event of the
  program satisfies \<open>P\<close> and what it returns satisfies \<open>Q\<close>.
\<close>

primrec rp_wlp ::
  "(rp_event list \<Rightarrow> rp_event \<Rightarrow> bool) \<Rightarrow> (rp_event list \<Rightarrow> rp_event \<Rightarrow> bool) \<Rightarrow> ('a \<Rightarrow> rp_event list \<Rightarrow> bool) \<Rightarrow>
   'a rp \<Rightarrow> rp_event list \<Rightarrow> bool" where
  "rp_wlp A P Q (RpRet a) = (\<lambda>h. Q a h)"
| "rp_wlp A P Q (RpStep k) = (\<lambda>h. \<forall>ev. case map_option (rp_wlp A P Q) (k ev) of
     None \<Rightarrow> True | Some X \<Rightarrow> A h ev \<longrightarrow> P h ev \<and> X (h @ [ev]))"

lemma rp_wlp_bind:
  "rp_wlp A P Q (rp_bind p f) h = rp_wlp A P (\<lambda>a. rp_wlp A P Q (f a)) p h"
proof (induction p arbitrary: h)
  case (RpStep k)
  have "(case map_option (rp_wlp A P Q) (map_option (\<lambda>p. rp_bind p f) (k ev)) of
      None \<Rightarrow> True | Some X \<Rightarrow> A h ev \<longrightarrow> P h ev \<and> X (h @ [ev])) =
    (case map_option (rp_wlp A P (\<lambda>a. rp_wlp A P Q (f a))) (k ev) of
      None \<Rightarrow> True | Some X \<Rightarrow> A h ev \<longrightarrow> P h ev \<and> X (h @ [ev]))" for ev
  proof (cases "k ev")
    case (Some p)
    then have "p \<in> set_option (k ev)" by simp
    from RpStep.IH [OF rangeI this] show ?thesis using Some by simp
  qed simp
  then show ?case by simp
qed simp

lemma rp_wlp_next:
  assumes "rp_wlp A P Q p h" and "rp_next p ev = Some q" and "A h ev"
  shows "P h ev \<and> rp_wlp A P Q q (h @ [ev])"
  using assms by (cases p) (auto split: option.split_asm dest: spec [of _ ev])

text \<open>The calls.\<close>

lemma rp_wlp_calls:
  "rp_wlp A P Q rp_now h \<longleftrightarrow> (\<forall>t. A h (RpTime t) \<longrightarrow> P h (RpTime t) \<and> Q t (h @ [RpTime t]))"
  "rp_wlp A P R randomString h \<longleftrightarrow> (\<forall>b. length b = 32 \<longrightarrow> A h (RpRandom b) \<longrightarrow> P h (RpRandom b) \<and> R (b64_EncodeToString b) (h @ [RpRandom b]))"
  "rp_wlp A P R generateVerifier h \<longleftrightarrow> (\<forall>v. A h (RpVerifier v) \<longrightarrow> P h (RpVerifier v) \<and> R v (h @ [RpVerifier v]))"
  "rp_wlp A P S rp_setup h \<longleftrightarrow> (\<forall>x e. A h (RpSetup x e) \<longrightarrow> P h (RpSetup x e) \<and> S e (h @ [RpSetup x e]))"
  "rp_wlp A P T rp_connection h \<longleftrightarrow> (\<forall>c. A h (RpConnection c) \<longrightarrow> P h (RpConnection c) \<and> T c (h @ [RpConnection c]))"
  "rp_wlp A P U (put_pending i p) h \<longleftrightarrow> (A h (RpPutPending i p) \<longrightarrow> P h (RpPutPending i p) \<and> U () (h @ [RpPutPending i p]))"
  "rp_wlp A P V (take_pending i) h \<longleftrightarrow> (\<forall>po. A h (RpTakePending i po) \<longrightarrow> P h (RpTakePending i po) \<and> V po (h @ [RpTakePending i po]))"
  "rp_wlp A P W (oauth_Exchange c code ve) h \<longleftrightarrow> (\<forall>r. A h (RpExchange c code ve r) \<longrightarrow> P h (RpExchange c code ve r) \<and> W r (h @ [RpExchange c code ve r]))"
  "rp_wlp A P X (verifier_Verify cl raw) h \<longleftrightarrow> (\<forall>r. A h (RpVerify cl raw r) \<longrightarrow> P h (RpVerify cl raw r) \<and> X r (h @ [RpVerify cl raw r]))"
  "rp_wlp A P Y (provider_UserInfo t) h \<longleftrightarrow> (\<forall>r. A h (RpUserInfo t r) \<longrightarrow> P h (RpUserInfo t r) \<and> Y r (h @ [RpUserInfo t r]))"
  "rp_wlp A P W (oauth_Refresh c rt) h \<longleftrightarrow> (\<forall>r. A h (RpRefresh c rt r) \<longrightarrow> P h (RpRefresh c rt r) \<and> W r (h @ [RpRefresh c rt r]))"
  "rp_wlp A P Z (client_Do q) h \<longleftrightarrow> (\<forall>r. A h (RpDo q r) \<longrightarrow> P h (RpDo q r) \<and> Z r (h @ [RpDo q r]))"
  "rp_wlp A P B (find_session i) h \<longleftrightarrow> (\<forall>x. A h (RpSession i x) \<longrightarrow> P h (RpSession i x) \<and> B x (h @ [RpSession i x]))"
  "rp_wlp A P C (read_session a) h \<longleftrightarrow> (\<forall>s. A h (RpRead a s) \<longrightarrow> P h (RpRead a s) \<and> C s (h @ [RpRead a s]))"
  "rp_wlp A P U (put_session i s) h \<longleftrightarrow> (A h (RpPutSession i s) \<longrightarrow> P h (RpPutSession i s) \<and> U () (h @ [RpPutSession i s]))"
  "rp_wlp A P U (set_introspected a m) h \<longleftrightarrow> (A h (RpIntrospected a m) \<longrightarrow> P h (RpIntrospected a m) \<and> U () (h @ [RpIntrospected a m]))"
  "rp_wlp A P U (delete_session i) h \<longleftrightarrow> (A h (RpDeleteSession i) \<longrightarrow> P h (RpDeleteSession i) \<and> U () (h @ [RpDeleteSession i]))"
  by (auto simp: rp_now_def randomString_def generateVerifier_def rp_setup_def rp_connection_def put_pending_def
      take_pending_def oauth_Exchange_def verifier_Verify_def provider_UserInfo_def oauth_Refresh_def client_Do_def
      find_session_def read_session_def put_session_def set_introspected_def delete_session_def
      split: rp_event.split if_split_asm)

lemmas rp_wlp_simps = rp_wlp.simps(1) rp_wlp_bind rp_wlp_calls

section \<open>Handlers that interleave\<close>

text \<open>Every request has its handler; the events of the log are marked with the handler.\<close>

inductive rp_run :: "RpApp \<Rightarrow> Request list \<Rightarrow> (nat \<times> rp_event) list \<Rightarrow> ResponseWriter option rp list \<Rightarrow> RpState \<Rightarrow> bool"
  for a reqs where
  rp_run_start: "rp_run a reqs [] (map (rp_Handler a fresh_writer) reqs) rp_New"
| rp_run_step:
    "\<lbrakk> rp_run a reqs log qs st; i < length qs; rp_next (qs ! i) ev = Some q; rp_serve (rpCfg a) ev st = Some st' \<rbrakk> \<Longrightarrow>
     rp_run a reqs (log @ [(i, ev)]) (qs[i := q]) st'"

definition rp_events :: "nat \<Rightarrow> (nat \<times> rp_event) list \<Rightarrow> rp_event list" where
  "rp_events i log = map snd (filter (\<lambda>(j, _). j = i) log)"

lemma rp_events_simps [simp]:
  "rp_events i [] = []"
  "rp_events i (log @ [(j, ev)]) = rp_events i log @ (if j = i then [ev] else [])"
  by (simp_all add: rp_events_def)

lemma rp_events_in: "ev \<in> set (rp_events i log) \<longleftrightarrow> (i, ev) \<in> set log"
  by (force simp: rp_events_def)

section \<open>What a handler checks\<close>

text \<open>A session from verified tokens: what was asked of the libraries and what they answered.\<close>

definition verified_session ::
  "RpApp \<Rightarrow> rp_event set \<Rightarrow> connection \<Rightarrow> oauth_token \<Rightarrow> string \<Rightarrow> rp_session \<Rightarrow> bool" where
  "verified_session a H c token nonce s \<longleftrightarrow>
     (\<exists>raw idToken info claims infoClaims.
        map_of (otExtra token) ''id_token'' = Some (JString raw) \<and> RpVerify (coVerifier c) raw (Inr idToken) \<in> H \<and>
        (nonce \<noteq> [] \<longrightarrow> itNonce idToken = nonce) \<and>
        (itAccessTokenHash idToken \<noteq> [] \<longrightarrow> lbVerifyAccessToken (rpLib a) idToken (otAccessToken token) = None) \<and>
        itClaims idToken = Inr claims \<and> RpUserInfo token (Inr info) \<in> H \<and> uiSubject info = itSubject idToken \<and>
        uiClaims info = Inr infoClaims \<and> s = session_of token raw claims infoClaims)"

definition session_started :: "RpApp \<Rightarrow> Request \<Rightarrow> rp_event set \<Rightarrow> string \<Rightarrow> pendingLogin \<Rightarrow> rp_session \<Rightarrow> bool" where
  "session_started a r H v p s \<longleftrightarrow>
     (\<exists>now c c' token s0.
        request_Cookie r pendingCookie = Some v \<and> RpTakePending v (Some p) \<in> H \<and>
        RpTime now \<in> H \<and> time_Sub now (plCreated p) \<le> 10 * minute \<and>
        values_Get (rQuery r) ''state'' = plState p \<and> values_Get (rQuery r) ''iss'' = rcIssuer (rpCfg a) \<and>
        values_Get (rQuery r) ''error'' = [] \<and> RpConnection (Some c) \<in> H \<and> RpConnection (Some c') \<in> H \<and>
        RpExchange (coOAuth c) (values_Get (rQuery r) ''code'') (plVerifier p) (Inr token) \<in> H \<and>
        verified_session a H c' token (plNonce p) s0 \<and> s = s0\<lparr>rsMessage := ''Signed in.''\<rparr>)"

definition session_refreshed :: "RpApp \<Rightarrow> Request \<Rightarrow> rp_event set \<Rightarrow> string \<Rightarrow> rp_session \<Rightarrow> bool" where
  "session_refreshed a r H i s \<longleftrightarrow>
     (\<exists>x old c c' token s0.
        request_Cookie r sessionCookie = Some i \<and> RpSession i (Some (x, old)) \<in> H \<and>
        RpConnection (Some c) \<in> H \<and> RpConnection (Some c') \<in> H \<and>
        RpRefresh (coOAuth c) (otRefreshToken (rsToken old)) (Inr token) \<in> H \<and> otRefreshToken (rsToken old) \<noteq> [] \<and>
        verified_session a H c' token [] s0 \<and>
        s = s0\<lparr>rsMessage := ''Tokens refreshed; the refresh token was rotated.''\<rparr>)"

text \<open>What a handler may rely on: what discovery found stays there once the handler has seen that it is.\<close>

definition rp_rely :: "rp_event list \<Rightarrow> rp_event \<Rightarrow> bool" where
  "rp_rely h ev \<longleftrightarrow>
     (ev = RpConnection None \<longrightarrow> (\<forall>x. RpSetup x None \<notin> set h) \<and> (\<forall>i x. RpSession i (Some x) \<notin> set h))"

definition rp_seen :: "rp_event list \<Rightarrow> bool" where
  "rp_seen h \<longleftrightarrow> (\<exists>x. RpSetup x None \<in> set h) \<or> (\<exists>i x. RpSession i (Some x) \<in> set h)"

fun rp_guarantee :: "RpApp \<Rightarrow> Request \<Rightarrow> rp_event list \<Rightarrow> rp_event \<Rightarrow> bool" where
  "rp_guarantee a r h (RpPutPending i p) \<longleftrightarrow> lbMux (rpLib a) r = Some ''GET /login'' \<and> plNonce p \<noteq> [] \<and> plState p \<noteq> []"
| "rp_guarantee a r h (RpTakePending i po) \<longleftrightarrow>
     lbMux (rpLib a) r = Some ''GET /callback'' \<and> request_Cookie r pendingCookie = Some i"
| "rp_guarantee a r h (RpPutSession i s) \<longleftrightarrow> rp_seen h \<and>
     (lbMux (rpLib a) r = Some ''GET /callback'' \<and> (\<exists>v p. session_started a r (set h) v p s) \<or>
      lbMux (rpLib a) r = Some ''POST /refresh'' \<and> session_refreshed a r (set h) i s)"
| "rp_guarantee a r h ev \<longleftrightarrow> True"

abbreviation rp_safe :: "RpApp \<Rightarrow> Request \<Rightarrow> ResponseWriter option rp \<Rightarrow> rp_event list \<Rightarrow> bool" where
  "rp_safe a r \<equiv> rp_wlp rp_rely (rp_guarantee a r) (\<lambda>x h. \<exists>w. x = Some w)"

lemma connected_wlp:
  assumes "rp_seen h" and "\<And>c. rp_wlp rp_rely (rp_guarantee a r) Q (f c) (h @ [RpConnection (Some c)])"
  shows "rp_wlp rp_rely (rp_guarantee a r) Q (connected f) h"
  using assms by (auto simp: connected_def rp_wlp_simps rp_rely_def rp_seen_def split: option.split)

lemma b64_nonempty: "length b = 32 \<Longrightarrow> b64_EncodeToString b \<noteq> []"
  by (cases b rule: b64_EncodeToString.cases) auto

lemma rp_login_safe:
  "lbMux (rpLib a) r = Some ''GET /login'' \<Longrightarrow> rp_safe a r (rp_login a w r) []"
  unfolding rp_login_def Let_def
  by (auto simp: rp_wlp_simps b64_nonempty rp_seen_def intro!: connected_wlp split: option.split)

lemma check_id_token_ok:
  "check_id_token a token nonce idt = Inr claims \<Longrightarrow>
     (nonce \<noteq> [] \<longrightarrow> itNonce idt = nonce) \<and>
     (itAccessTokenHash idt \<noteq> [] \<longrightarrow> lbVerifyAccessToken (rpLib a) idt (otAccessToken token) = None) \<and>
     itClaims idt = Inr claims"
  by (auto simp: check_id_token_def split: if_split_asm option.split_asm)

lemma check_user_info_ok:
  "check_user_info idt info = Inr claims \<Longrightarrow> uiSubject info = itSubject idt \<and> uiClaims info = Inr claims"
  by (auto simp: check_user_info_def split: if_split_asm)

lemma verified_mono: "verified_session a H c token nonce s \<Longrightarrow> H \<subseteq> H' \<Longrightarrow> verified_session a H' c token nonce s"
  unfolding verified_session_def by (elim exE conjE, intro exI conjI) auto

lemma verifyTokens_wlp:
  assumes seen: "rp_seen h"
    and refused: "\<And>h' e. set h \<subseteq> set h' \<Longrightarrow> Q (Some (Inl e)) h'"
    and verified: "\<And>h' c s. set h \<subseteq> set h' \<Longrightarrow> RpConnection (Some c) \<in> set h' \<Longrightarrow>
      verified_session a (set h') c token nonce s \<Longrightarrow> Q (Some (Inr s)) h'"
  shows "rp_wlp rp_rely (rp_guarantee a r) Q (verifyTokens a token nonce) h"
proof (cases "\<exists>raw. map_of (otExtra token) ''id_token'' = Some (JString raw)")
  case True
  then obtain raw where raw: "map_of (otExtra token) ''id_token'' = Some (JString raw)" by blast
  have "Q (Some (Inr (session_of token raw claims infoClaims))) h'"
    if "h' = h @ [RpConnection (Some c), RpVerify (coVerifier c) raw (Inr idt), RpUserInfo token (Inr info)]"
      "check_id_token a token nonce idt = Inr claims" "check_user_info idt info = Inr infoClaims"
    for h' c idt info claims infoClaims
    using check_id_token_ok [OF that(2)] check_user_info_ok [OF that(3)] raw
    by (intro verified [of _ c]) (auto simp: that(1) verified_session_def)
  then show ?thesis
    unfolding verifyTokens_def raw
    by (auto simp: rp_wlp_simps intro!: connected_wlp [OF seen] refused split: sum.split)
next
  case False
  then show ?thesis
    by (auto simp: verifyTokens_def intro!: refused split: option.split json.split)
qed

lemma session_startedI:
  "\<lbrakk> request_Cookie r pendingCookie = Some v; RpTakePending v (Some p) \<in> H; RpTime now \<in> H;
     time_Sub now (plCreated p) \<le> 10 * minute; values_Get (rQuery r) ''state'' = plState p;
     values_Get (rQuery r) ''iss'' = rcIssuer (rpCfg a); values_Get (rQuery r) ''error'' = [];
     RpConnection (Some c) \<in> H; RpConnection (Some c') \<in> H;
     RpExchange (coOAuth c) (values_Get (rQuery r) ''code'') (plVerifier p) (Inr token) \<in> H;
     verified_session a H c' token (plNonce p) s \<rbrakk> \<Longrightarrow> session_started a r H v p (s\<lparr>rsMessage := ''Signed in.''\<rparr>)"
  unfolding session_started_def by blast

lemma rp_exchange_safe:
  assumes mux: "lbMux (rpLib a) r = Some ''GET /callback''" and seen: "rp_seen h"
    and p: "request_Cookie r pendingCookie = Some v" "RpTakePending v (Some p) \<in> set h"
    and now: "RpTime now \<in> set h" "time_Sub now (plCreated p) \<le> 10 * minute"
    and ok: "callback_refused a r True (Some p) = None"
  shows "rp_safe a r (rp_exchange a w r p) h"
  unfolding rp_exchange_def
proof (rule connected_wlp [OF seen])
  fix c
  let ?code = "values_Get (rQuery r) ''code''"
  let ?h = "\<lambda>token. h @ [RpConnection (Some c), RpExchange (coOAuth c) ?code (plVerifier p) (Inr token)]"
  have query: "values_Get (rQuery r) ''state'' = plState p" "values_Get (rQuery r) ''iss'' = rcIssuer (rpCfg a)"
    "values_Get (rQuery r) ''error'' = []"
    using ok by (simp_all add: callback_refused_def Let_def split: if_split_asm)
  have signed: "rp_safe a r (rp_signed_in a w r s) h'"
    if h': "set (?h token) \<subseteq> set h'" "RpConnection (Some c') \<in> set h'" "verified_session a (set h') c' token (plNonce p) s"
    for h' token c' s
  proof -
    have "session_started a r (insert x (set h')) v p (s\<lparr>rsMessage := ''Signed in.''\<rparr>)" for x
      by (rule session_startedI [of _ _ _ _ now _ c c' token]) (use h' p now query verified_mono [OF h'(3)] in auto)
    then have "\<exists>v p. session_started a r (insert x (set h')) v p (s\<lparr>rsMessage := ''Signed in.''\<rparr>)" for x
      by blast
    moreover have "rp_seen (h' @ [x])" for x using seen h'(1) by (auto simp: rp_seen_def)
    ultimately show ?thesis by (simp add: rp_signed_in_def Let_def rp_wlp_simps mux)
  qed
  have "rp_seen (?h token)" for token using seen by (auto simp: rp_seen_def)
  then have "rp_safe a r (rp_bind (verifyTokens a token (plNonce p)) (\<lambda>y. case y of
        None \<Rightarrow> RpRet None
      | Some (Inl err) \<Rightarrow> RpRet (Some (rp_fail a w 502 err))
      | Some (Inr s) \<Rightarrow> rp_signed_in a w r s)) (?h token)" for token
    unfolding rp_wlp_bind by (rule verifyTokens_wlp) (use signed [of token] in simp_all)
  then show "rp_safe a r (rp_bind (oauth_Exchange (coOAuth c) ?code (plVerifier p)) (\<lambda>x. case x of
        Inl err \<Rightarrow> RpRet (Some (rp_fail a w 502 (EWrap ''exchange code'' [err])))
      | Inr token \<Rightarrow>
          rp_bind (verifyTokens a token (plNonce p)) (\<lambda>y. case y of
            None \<Rightarrow> RpRet None
          | Some (Inl err) \<Rightarrow> RpRet (Some (rp_fail a w 502 err))
          | Some (Inr s) \<Rightarrow> rp_signed_in a w r s))) (h @ [RpConnection (Some c)])"
    by (auto simp: rp_wlp_bind rp_wlp_calls split: sum.split)
qed

lemma refused_old: "callback_refused a r False po = Some (400, ENew ''state mismatch'')"
  by (simp add: callback_refused_def)

lemma rp_callback_safe:
  assumes "lbMux (rpLib a) r = Some ''GET /callback''"
  shows "rp_safe a r (rp_callback a w r) []"
proof (cases "request_Cookie r pendingCookie")
  case (Some v)
  have "rp_safe a r (rp_exchange a w r p) [RpSetup x None, RpTakePending v (Some p), RpTime now]"
    if "time_Sub now (plCreated p) \<le> 10 * minute" "callback_refused a r True (Some p) = None" for w p x now
    by (rule rp_exchange_safe [OF assms _ Some _ _ that]) (auto simp: rp_seen_def)
  then have tail: "rp_safe a r (case callback_refused a r young po of
        Some (status, err) \<Rightarrow> RpRet (Some (rp_fail a w status err)) | None \<Rightarrow> rp_exchange a w r (the po)) h"
    if "h = [RpSetup x None, RpTakePending v po] \<and> \<not> young \<or>
      (\<exists>p now. po = Some p \<and> h = [RpSetup x None, RpTakePending v (Some p), RpTime now] \<and>
         young = (time_Sub now (plCreated p) \<le> 10 * minute))" for w h x po young
    using that by (cases young) (auto simp: refused_old split: option.split)
  have "rp_wlp rp_rely (rp_guarantee a r) (\<lambda>young. rp_safe a r (case callback_refused a r young po of
        Some (status, err) \<Rightarrow> RpRet (Some (rp_fail a w status err)) | None \<Rightarrow> rp_exchange a w r (the po)))
      (rp_age_ok po) [RpSetup x None, RpTakePending v po]" for w x po
    by (cases po; hypsubst) (simp_all add: rp_age_ok_def rp_wlp_simps tail)
  then show ?thesis
    unfolding rp_callback_def Let_def Some
    by (simp add: rp_wlp_bind rp_wlp_calls assms Some split: option.split)
qed (auto simp: rp_callback_def rp_wlp_simps split: option.split)

lemma session_refreshedI:
  "\<lbrakk> request_Cookie r sessionCookie = Some i; RpSession i (Some (x, old)) \<in> H; RpConnection (Some c) \<in> H;
     RpConnection (Some c') \<in> H; RpRefresh (coOAuth c) (otRefreshToken (rsToken old)) (Inr token) \<in> H;
     otRefreshToken (rsToken old) \<noteq> []; verified_session a H c' token [] s \<rbrakk> \<Longrightarrow>
   session_refreshed a r H i (s\<lparr>rsMessage := ''Tokens refreshed; the refresh token was rotated.''\<rparr>)"
  unfolding session_refreshed_def by blast

lemma home_again_wlp: "rp_wlp A P Q (rp_home_again r w) h \<longleftrightarrow> Q (Some (http_Redirect r ''/'' 303 w)) h"
  by (simp add: rp_home_again_def)

lemma rp_refresh_safe:
  assumes mux: "lbMux (rpLib a) r = Some ''POST /refresh''"
  shows "rp_safe a r (rp_refresh a w r) []"
proof (cases "request_Cookie r sessionCookie")
  case (Some i)
  let ?body = "\<lambda>old c. rp_bind (oauth_Refresh (coOAuth c) (otRefreshToken (rsToken old))) (\<lambda>y. case y of
        Inl err \<Rightarrow> RpRet (Some (rp_fail a w 502 (EWrap ''refresh'' [err])))
      | Inr token \<Rightarrow>
          rp_bind (verifyTokens a token []) (\<lambda>z. case z of
            None \<Rightarrow> RpRet None
          | Some (Inl err) \<Rightarrow> RpRet (Some (rp_fail a w 502 err))
          | Some (Inr s') \<Rightarrow>
              rp_bind (put_session i (s'\<lparr>rsMessage := ''Tokens refreshed; the refresh token was rotated.''\<rparr>)) (\<lambda>_.
              rp_home_again r w)))"
  have "rp_safe a r (?body old c) [RpSession i (Some (x, old)), RpConnection (Some c)]"
    if "otRefreshToken (rsToken old) \<noteq> []" for old x c
  proof -
    let ?h = "\<lambda>token. [RpSession i (Some (x, old)), RpConnection (Some c),
        RpRefresh (coOAuth c) (otRefreshToken (rsToken old)) (Inr token)]"
    have put: "rp_seen h' \<and> session_refreshed a r (set h') i (s\<lparr>rsMessage := ''Tokens refreshed; the refresh token was rotated.''\<rparr>)"
      if "set (?h token) \<subseteq> set h'" "RpConnection (Some c') \<in> set h'" "verified_session a (set h') c' token [] s" for h' token c' s
    proof
      show "rp_seen h'" using that(1) by (auto simp: rp_seen_def)
      show "session_refreshed a r (set h') i (s\<lparr>rsMessage := ''Tokens refreshed; the refresh token was rotated.''\<rparr>)"
        by (rule session_refreshedI [OF Some _ _ that(2) _ \<open>otRefreshToken (rsToken old) \<noteq> []\<close> that(3), of x c])
          (use that(1) in simp_all)
    qed
    have "rp_seen (?h token)" for token by (auto simp: rp_seen_def)
    then have "rp_safe a r (rp_bind (verifyTokens a token []) (\<lambda>z. case z of
            None \<Rightarrow> RpRet None
          | Some (Inl err) \<Rightarrow> RpRet (Some (rp_fail a w 502 err))
          | Some (Inr s') \<Rightarrow>
              rp_bind (put_session i (s'\<lparr>rsMessage := ''Tokens refreshed; the refresh token was rotated.''\<rparr>)) (\<lambda>_.
              rp_home_again r w))) (?h token)" for token
      unfolding rp_wlp_bind [of _ _ _ "verifyTokens a token []"]
      by (rule verifyTokens_wlp) (use put [of token] mux in \<open>auto simp: rp_wlp_simps rp_home_again_def\<close>)
    then show ?thesis by (auto simp: rp_wlp_bind rp_wlp_calls split: sum.split)
  qed
  then have "rp_safe a r (connected (?body old)) [RpSession i (Some (x, old))]"
    if "otRefreshToken (rsToken old) \<noteq> []" for old x
    using that by (intro connected_wlp) (auto simp: rp_seen_def)
  then show ?thesis
    by (auto simp: rp_refresh_def rp_currentSession_def Some rp_wlp_bind rp_wlp_calls home_again_wlp split: option.split)
qed (simp add: rp_refresh_def rp_currentSession_def rp_home_again_def)

lemma post_wlp:
  "(\<And>y h'. Q y (h @ h')) \<Longrightarrow> rp_wlp rp_rely (rp_guarantee a r) Q (postClientAuthenticated a url form) h"
  by (auto simp: postClientAuthenticated_def rp_wlp_simps split: option.split) (metis append_Nil2)

lemma url_wlp:
  "(\<And>y h'. Q y h') \<Longrightarrow> rp_wlp rp_rely (rp_guarantee a r) Q (rp_url f) h"
  by (simp add: rp_url_def rp_wlp_simps)

lemma rp_introspect_safe: "rp_safe a r (rp_introspectToken a w r) []"
  unfolding rp_introspectToken_def rp_currentSession_def
  by (auto simp: rp_wlp_simps rp_home_again_def intro!: url_wlp post_wlp split: option.split sum.split)

lemma rp_logout_safe: "rp_safe a r (rp_logout a w r) []"
  unfolding rp_logout_def rp_currentSession_def Let_def
  by (auto simp: rp_wlp_simps rp_home_again_def rp_signed_out_def intro!: url_wlp post_wlp split: option.split)

lemma rp_home_safe: "rp_safe a r (rp_home a w r) []"
  unfolding rp_home_def rp_currentSession_def by (auto simp: rp_wlp_simps split: option.split)

lemma rp_Handler_safe: "rp_safe a r (rp_Handler a w r) []"
  unfolding rp_Handler_def
  using rp_login_safe rp_callback_safe rp_refresh_safe rp_introspect_safe rp_logout_safe rp_home_safe
  by (auto split: option.split)

section \<open>Every run\<close>

lemma rp_serve_kept: "rp_serve cfg ev st = Some st' \<Longrightarrow> raConnection st \<noteq> None \<Longrightarrow> raConnection st' = raConnection st"
  by (cases ev) (auto split: option.split_asm sum.split_asm if_split_asm)

text \<open>What the state knows of the log. Every pending login was put by a handler; what discovery found is as
  configured and stays; no more logins were taken than put.\<close>

definition takes :: "string \<Rightarrow> rp_event \<Rightarrow> bool" where
  "takes v ev \<longleftrightarrow> (\<exists>p. ev = RpTakePending v (Some p))"

definition puts :: "string \<Rightarrow> rp_event \<Rightarrow> bool" where
  "puts v ev \<longleftrightarrow> (\<exists>p. ev = RpPutPending v p)"

abbreviation rp_count :: "(rp_event \<Rightarrow> bool) \<Rightarrow> (nat \<times> rp_event) list \<Rightarrow> nat" where
  "rp_count f log \<equiv> length (filter (\<lambda>(k, ev). f ev) log)"

definition pending_known :: "(nat \<times> rp_event) list \<Rightarrow> RpState \<Rightarrow> bool" where
  "pending_known log st \<longleftrightarrow>
     (\<forall>v p. raPending st v = Some p \<longrightarrow> (\<exists>k. (k, RpPutPending v p) \<in> set log)) \<and>
     (\<forall>k v p. (k, RpTakePending v (Some p)) \<in> set log \<longrightarrow> (\<exists>k. (k, RpPutPending v p) \<in> set log)) \<and>
     (\<forall>v. rp_count (takes v) log + (if raPending st v = None then 0 else 1) \<le> rp_count (puts v) log)"

definition connection_known :: "RpConfig \<Rightarrow> (nat \<times> rp_event) list \<Rightarrow> RpState \<Rightarrow> bool" where
  "connection_known cfg log st \<longleftrightarrow>
     (\<forall>c. raConnection st = Some c \<longrightarrow> (\<exists>d. setup_found cfg (Inr d) = Inr c)) \<and>
     (\<forall>k c. (k, RpConnection (Some c)) \<in> set log \<longrightarrow> (\<exists>d. setup_found cfg (Inr d) = Inr c)) \<and>
     ((\<exists>k. rp_seen (rp_events k log)) \<or> (\<exists>i. raSessions st i \<noteq> None) \<longrightarrow> raConnection st \<noteq> None)"

lemma pending_known_step:
  assumes "pending_known log st" and "rp_serve cfg ev st = Some st'"
  shows "pending_known (log @ [(i, ev)]) st'"
proof -
  have same: "raPending st' = (case ev of RpPutPending v p \<Rightarrow> (raPending st)(v \<mapsto> p)
      | RpTakePending v p \<Rightarrow> (raPending st)(v := None) | _ \<Rightarrow> raPending st)"
    "(\<And>v p. ev = RpTakePending v p \<Longrightarrow> p = raPending st v)"
    using assms(2) by (cases ev; auto split: option.split_asm sum.split_asm if_split_asm)+
  have a: "\<exists>k. (k, RpPutPending v p) \<in> set (log @ [(i, ev)])" if "raPending st' v = Some p" for v p
    using that assms(1) unfolding same(1) pending_known_def by (cases ev) (auto split: if_split_asm)
  have b: "\<exists>k. (k, RpPutPending v p) \<in> set (log @ [(i, ev)])"
    if "(k, RpTakePending v (Some p)) \<in> set (log @ [(i, ev)])" for k v p
  proof (cases "(k, RpTakePending v (Some p)) \<in> set log")
    case True
    then obtain k' where "(k', RpPutPending v p) \<in> set log"
      using assms(1) unfolding pending_known_def by blast
    then show ?thesis by auto
  next
    case False
    then have "raPending st v = Some p" using that same(2) [of v "Some p"] by auto
    then obtain k' where "(k', RpPutPending v p) \<in> set log"
      using assms(1) unfolding pending_known_def by blast
    then show ?thesis by auto
  qed
  have c: "rp_count (takes v) (log @ [(i, ev)]) + (if raPending st' v = None then 0 else 1) \<le>
      rp_count (puts v) (log @ [(i, ev)])" for v
  proof -
    have "rp_count (takes v) log + (if raPending st v = None then 0 else 1) \<le> rp_count (puts v) log"
      using assms(1) unfolding pending_known_def by blast
    then show ?thesis
      unfolding same(1) using same(2) by (cases ev) (auto simp: takes_def puts_def split: if_split_asm)
  qed
  show ?thesis unfolding pending_known_def using a b c by blast
qed

lemma rp_seen_snoc [simp]:
  "rp_seen (h @ [ev]) \<longleftrightarrow> rp_seen h \<or> (\<exists>x. ev = RpSetup x None) \<or> (\<exists>i x. ev = RpSession i (Some x))"
  by (auto simp: rp_seen_def)

lemma connection_known_step:
  assumes known: "connection_known cfg log st" and serve: "rp_serve cfg ev st = Some st'"
    and put: "\<And>i s. ev = RpPutSession i s \<Longrightarrow> raConnection st \<noteq> None"
  shows "connection_known cfg (log @ [(i, ev)]) st'"
proof -
  have a: "\<exists>d. setup_found cfg (Inr d) = Inr c" if "raConnection st' = Some c" for c
  proof (cases "raConnection st")
    case None
    then have "\<exists>f. setup_found cfg f = Inr c"
      using that serve by (cases ev) (auto split: option.split_asm sum.split_asm if_split_asm)
    then obtain f where "setup_found cfg f = Inr c" by blast
    then show ?thesis by (cases f) (auto simp: setup_found_def)
  next
    case (Some c')
    then show ?thesis using rp_serve_kept [OF serve] known that by (auto simp: connection_known_def)
  qed
  have b: "\<exists>d. setup_found cfg (Inr d) = Inr c" if "(k, RpConnection (Some c)) \<in> set (log @ [(i, ev)])" for k c
  proof (cases "(k, RpConnection (Some c)) \<in> set log")
    case True
    then show ?thesis using known unfolding connection_known_def by blast
  next
    case False
    then have "raConnection st = Some c" using that serve by (auto split: if_split_asm)
    then show ?thesis using known unfolding connection_known_def by blast
  qed
  have c: "raConnection st' \<noteq> None" if "(\<exists>k. rp_seen (rp_events k (log @ [(i, ev)]))) \<or> (\<exists>i. raSessions st' i \<noteq> None)"
  proof (cases "raConnection st = None")
    case True
    then have old: "\<not> rp_seen (rp_events k log)" "raSessions st i = None" for k i
      using known unfolding connection_known_def by blast+
    have "(\<exists>x. ev = RpSetup x None) \<or> (\<exists>i x. ev = RpSession i (Some x)) \<or> (\<exists>i. raSessions st' i \<noteq> None)"
      using that old(1) by (auto split: if_split_asm)
    then show ?thesis
      using serve put True old(2) by (cases ev) (auto split: option.split_asm sum.split_asm if_split_asm)
  next
    case False
    then show ?thesis using rp_serve_kept [OF serve] by simp
  qed
  show ?thesis unfolding connection_known_def using a b c by blast
qed

lemma rp_guarantee_mono:
  assumes "rp_guarantee a r h ev" and "set h \<subseteq> set h'"
  shows "rp_guarantee a r h' ev"
proof (cases ev)
  case (RpPutSession i s)
  have started: "session_started a r (set h') v p s" if "session_started a r (set h) v p s" for v p
    using that assms(2) unfolding session_started_def by (blast dest: verified_mono)
  have refreshed: "session_refreshed a r (set h') i s" if "session_refreshed a r (set h) i s"
    using that assms(2) unfolding session_refreshed_def by (blast dest: verified_mono)
  have "rp_seen h \<Longrightarrow> rp_seen h'" using assms(2) unfolding rp_seen_def by blast
  then show ?thesis using assms(1) started refreshed by (auto simp: RpPutSession)
qed (use assms(1) in simp_all)

lemma rp_run_safe:
  assumes "rp_run a reqs log qs st"
  shows "length qs = length reqs \<and> (\<forall>k < length reqs. rp_safe a (reqs ! k) (qs ! k) (rp_events k log)) \<and>
     pending_known log st \<and> connection_known (rpCfg a) log st \<and>
     (\<forall>k ev. (k, ev) \<in> set log \<longrightarrow> k < length reqs \<and> rp_guarantee a (reqs ! k) (rp_events k log) ev)"
  using assms
proof (induction rule: rp_run.induct)
  case rp_run_start
  show ?case
    by (auto simp: rp_Handler_safe pending_known_def connection_known_def rp_New_def rp_seen_def)
next
  case (rp_run_step log qs st i ev q st')
  let ?log = "log @ [(i, ev)]"
  have len: "length qs = length reqs" and safe: "\<And>k. k < length reqs \<Longrightarrow> rp_safe a (reqs ! k) (qs ! k) (rp_events k log)"
    and pending: "pending_known log st" and conn: "connection_known (rpCfg a) log st"
    and old: "\<And>k ev. (k, ev) \<in> set log \<Longrightarrow> k < length reqs \<and> rp_guarantee a (reqs ! k) (rp_events k log) ev"
    using rp_run_step.IH by blast+
  have i: "i < length reqs" using rp_run_step.hyps(2) len by simp
  have "rp_rely (rp_events i log) ev"
  proof (cases "ev = RpConnection None")
    case True
    then have "raConnection st = None" using rp_run_step.hyps(4) by (simp split: if_split_asm)
    then have "\<not> rp_seen (rp_events i log)" using conn unfolding connection_known_def by blast
    then show ?thesis unfolding rp_rely_def rp_seen_def by blast
  qed (simp add: rp_rely_def)
  from rp_wlp_next [OF safe [OF i] rp_run_step.hyps(3) this]
  have new: "rp_guarantee a (reqs ! i) (rp_events i log) ev"
    "rp_safe a (reqs ! i) q (rp_events i log @ [ev])" by blast+
  have "raConnection st \<noteq> None" if "ev = RpPutSession v s" for v s
    using new(1) conn that unfolding connection_known_def by auto
  then have "connection_known (rpCfg a) ?log st'" using connection_known_step [OF conn rp_run_step.hyps(4)] by blast
  moreover have "pending_known ?log st'" by (rule pending_known_step [OF pending rp_run_step.hyps(4)])
  moreover have "rp_safe a (reqs ! k) (qs[i := q] ! k) (rp_events k ?log)" if "k < length reqs" for k
    using safe [OF that] new(2) rp_run_step.hyps(2) by (cases "k = i") simp_all
  moreover have "k < length reqs \<and> rp_guarantee a (reqs ! k) (rp_events k ?log) e" if "(k, e) \<in> set ?log" for k e
  proof (cases "(k, e) \<in> set log")
    case True
    then show ?thesis using old rp_guarantee_mono [of a "reqs ! k" "rp_events k log" e "rp_events k ?log"] by auto
  next
    case False
    then show ?thesis
      using that i rp_guarantee_mono [OF new(1), of "rp_events i ?log"] by auto
  qed
  ultimately show ?case using len by simp
qed

text \<open>C37. The sessions of the example relying party. However its handlers interleave and whatever the network
  answers, a session is only put by a callback or a refresh. A callback that puts one brought the cookie of
  a login that a login handler started, with the state of that login, the configured issuer and no error, at
  most ten minutes later; it exchanged the code with the verifier of that login, and the session has the
  claims of a verified ID token with its nonce and of a UserInfo response for the same subject. A login is
  taken at most as often as it was put. A refresh used the refresh token of a session under its cookie. The
  clients and verifiers are those of the configuration with what discovery found.\<close>

theorem relying_party_sessions:
  assumes "rp_run a reqs log qs st" and "(j, RpPutSession i s) \<in> set log"
  shows "(lbMux (rpLib a) (reqs ! j) = Some ''GET /callback'' \<and>
      (\<exists>v p k. session_started a (reqs ! j) {ev. (j, ev) \<in> set log} v p s \<and> plNonce p \<noteq> [] \<and>
         k < length reqs \<and> lbMux (rpLib a) (reqs ! k) = Some ''GET /login'' \<and> (k, RpPutPending v p) \<in> set log \<and>
         rp_count (takes v) log \<le> rp_count (puts v) log) \<or>
      lbMux (rpLib a) (reqs ! j) = Some ''POST /refresh'' \<and> session_refreshed a (reqs ! j) {ev. (j, ev) \<in> set log} i s) \<and>
     {c. (j, RpConnection (Some c)) \<in> set log} \<subseteq> {c. \<exists>d. setup_found (rpCfg a) (Inr d) = Inr c}"
proof -
  have H: "set (rp_events j log) = {ev. (j, ev) \<in> set log}" using rp_events_in [of _ j log] by blast
  note run = rp_run_safe [OF assms(1)]
  have "rp_guarantee a (reqs ! j) (rp_events j log) (RpPutSession i s)" using run assms(2) by blast
  then consider v p where "lbMux (rpLib a) (reqs ! j) = Some ''GET /callback''"
      "session_started a (reqs ! j) {ev. (j, ev) \<in> set log} v p s"
    | "lbMux (rpLib a) (reqs ! j) = Some ''POST /refresh''" "session_refreshed a (reqs ! j) {ev. (j, ev) \<in> set log} i s"
    unfolding rp_guarantee.simps H by blast
  moreover have "{c. (j, RpConnection (Some c)) \<in> set log} \<subseteq> {c. \<exists>d. setup_found (rpCfg a) (Inr d) = Inr c}"
    using run unfolding connection_known_def by blast
  moreover have "\<exists>k. (k, RpPutPending v p) \<in> set log \<and> k < length reqs \<and> lbMux (rpLib a) (reqs ! k) = Some ''GET /login'' \<and>
      plNonce p \<noteq> [] \<and> rp_count (takes v) log \<le> rp_count (puts v) log"
    if "session_started a (reqs ! j) {ev. (j, ev) \<in> set log} v p s" for v p
  proof -
    have "(j, RpTakePending v (Some p)) \<in> set log" using that unfolding session_started_def by blast
    then obtain k where k: "(k, RpPutPending v p) \<in> set log" using run unfolding pending_known_def by blast
    then have "k < length reqs \<and> rp_guarantee a (reqs ! k) (rp_events k log) (RpPutPending v p)" using run by blast
    moreover have "rp_count (takes v) log \<le> rp_count (puts v) log"
      using run unfolding pending_known_def by (meson add_leD1)
    ultimately show ?thesis using k by auto
  qed
  ultimately show ?thesis by cases blast+
qed

text \<open>No handler panics.\<close>

lemma relying_party_answers:
  "rp_run a reqs log qs st \<Longrightarrow> k < length reqs \<Longrightarrow> qs ! k = RpRet x \<Longrightarrow> x \<noteq> None"
  using rp_run_safe [of a reqs log qs st] by fastforce

section \<open>A run\<close>

fun rp_replay :: "RpConfig \<Rightarrow> 'a rp list \<Rightarrow> RpState \<Rightarrow> (nat \<times> rp_event) list \<Rightarrow> ('a rp list \<times> RpState) option" where
  "rp_replay cfg qs st [] = Some (qs, st)"
| "rp_replay cfg qs st ((i, ev) # log) =
     (if i < length qs
      then case (rp_next (qs ! i) ev, rp_serve cfg ev st) of
             (Some q, Some st') \<Rightarrow> rp_replay cfg (qs[i := q]) st' log | _ \<Rightarrow> None
      else None)"

lemma rp_replay_run:
  "rp_run a reqs log0 qs st \<Longrightarrow> rp_replay (rpCfg a) qs st log = Some (qs', st') \<Longrightarrow> rp_run a reqs (log0 @ log) qs' st'"
proof (induction log arbitrary: log0 qs st)
  case (Cons x log)
  obtain i ev where x: "x = (i, ev)" by fastforce
  obtain q st1 where step: "i < length qs" "rp_next (qs ! i) ev = Some q" "rp_serve (rpCfg a) ev st = Some st1"
      "rp_replay (rpCfg a) (qs[i := q]) st1 log = Some (qs', st')"
    using Cons.prems(2) by (auto simp: x split: if_split_asm option.split_asm)
  from Cons.IH [OF rp_run_step [OF Cons.prems(1) step(1-3)] step(4)] show ?case by (simp add: x)
qed simp

lemma rp_bind_assoc: "rp_bind (rp_bind p f) g = rp_bind p (\<lambda>x. rp_bind (f x) g)"
proof (induction p)
  case (RpStep k)
  have "map_option (\<lambda>p. rp_bind (rp_bind p f) g) (k ev) = map_option (\<lambda>p. rp_bind p (\<lambda>x. rp_bind (f x) g)) (k ev)" for ev
    using RpStep.IH [OF rangeI] by (cases "k ev") auto
  then show ?case by (simp add: option.map_comp comp_def)
qed simp

lemma rp_next_calls:
  "rp_next (rp_bind rp_now f1) (RpTime t) = Some (f1 t)"
  "length b = 32 \<Longrightarrow> rp_next (rp_bind randomString f2) (RpRandom b) = Some (f2 (b64_EncodeToString b))"
  "rp_next (rp_bind generateVerifier f2) (RpVerifier v) = Some (f2 v)"
  "rp_next (rp_bind rp_setup f3) (RpSetup x e) = Some (f3 e)"
  "rp_next (rp_bind rp_connection f4) (RpConnection c) = Some (f4 c)"
  "rp_next (rp_bind (put_pending i p) f5) (RpPutPending i p) = Some (f5 ())"
  "rp_next (rp_bind (take_pending i) f6) (RpTakePending i po) = Some (f6 po)"
  "rp_next (rp_bind (oauth_Exchange cf code ve) f7) (RpExchange cf code ve r7) = Some (f7 r7)"
  "rp_next (rp_bind (verifier_Verify cl raw) f8) (RpVerify cl raw r8) = Some (f8 r8)"
  "rp_next (rp_bind (provider_UserInfo tk) f9) (RpUserInfo tk r9) = Some (f9 r9)"
  "rp_next (rp_bind (oauth_Refresh cf rt) f7) (RpRefresh cf rt r7) = Some (f7 r7)"
  "rp_next (rp_bind (find_session i) f10) (RpSession i y) = Some (f10 y)"
  "rp_next (rp_bind (put_session i s) f5) (RpPutSession i s) = Some (f5 ())"
  by (simp_all add: rp_now_def randomString_def generateVerifier_def rp_setup_def rp_connection_def put_pending_def
      take_pending_def oauth_Exchange_def verifier_Verify_def provider_UserInfo_def oauth_Refresh_def
      find_session_def put_session_def)

text \<open>A login and the callback it leads to.\<close>

definition demo_lib :: rp_library where
  "demo_lib =
     \<lparr>lbAuthCodeURL = (\<lambda>c state opts. ''https://op.example/authorize?state='' @ state),
      lbVerifyAccessToken = (\<lambda>t s. None), lbUnmarshal = (\<lambda>b. Inr []), lbErrorText = (\<lambda>e. []),
      lbHome = (\<lambda>s i. []), lbTLS = (\<lambda>r. True),
      lbMux = (\<lambda>r. Some (rMethod r @ '' '' @ rEscapedPath r)), lbMuxAnswer = (\<lambda>r w. w)\<rparr>"

definition demo_rp :: RpApp where
  "demo_rp = \<lparr>rpCfg = \<lparr>rcIssuer = ''https://op.example'', rcClientID = ''rp'', rcClientSecret = ''s3cret'',
     rcBaseURL = ''https://rp.example'', rcScopes = [''openid'']\<rparr>, rpLib = demo_lib\<rparr>"

definition demo_id :: string where "demo_id = b64_EncodeToString (replicate 32 (CHR 0x07))"

definition demo_get :: "string \<Rightarrow> url_values \<Rightarrow> (string \<times> string) list \<Rightarrow> Request" where
  "demo_get path q cookies =
     \<lparr>rMethod = ''GET'', rHost = ''rp.example'', rEscapedPath = path, rQuery = q, rAuthorization = [],
      rBasicAuth = None, rMediaType = [], rMediaTypeErr = False, rPostForm = None, rCookies = cookies\<rparr>"

definition demo_reqs :: "Request list" where
  "demo_reqs =
     [demo_get ''/login'' [] [],
      demo_get ''/callback'' [(''state'', [demo_id]), (''iss'', [''https://op.example'']), (''code'', [''c0de''])]
        [(''rp_login'', demo_id)]]"

definition demo_found :: discovered where
  "demo_found = \<lparr>dsEndpoint = \<lparr>oeAuthURL = ''https://op.example/authorize'', oeTokenURL = ''https://op.example/token'',
     oeStyleInHeader = False\<rparr>, dsExtra = Inr ([], [])\<rparr>"

definition demo_oauth :: oauth_config where
  "demo_oauth = \<lparr>ogClientID = ''rp'', ogClientSecret = ''s3cret'',
     ogEndpoint = (dsEndpoint demo_found)\<lparr>oeStyleInHeader := True\<rparr>,
     ogRedirectURL = ''https://rp.example'' @ ''/callback'', ogScopes = [''openid'']\<rparr>"

definition demo_connection :: connection where
  "demo_connection = \<lparr>coProvider = demo_found, coOAuth = demo_oauth, coVerifier = ''rp'', coRevokeURL = [], coIntrospect = []\<rparr>"

definition demo_pending :: pendingLogin where
  "demo_pending = \<lparr>plState = demo_id, plNonce = demo_id, plVerifier = ''verifier'', plCreated = 0\<rparr>"

definition demo_token :: oauth_token where
  "demo_token = \<lparr>otAccessToken = ''at'', otRefreshToken = ''rt'', otExtra = [(''id_token'', JString ''jwt'')]\<rparr>"

definition demo_idToken :: id_token where
  "demo_idToken = \<lparr>itSubject = ''alice'', itNonce = demo_id, itAccessTokenHash = [], itClaims = Inr [(''sub'', JString ''alice'')]\<rparr>"

definition demo_session :: rp_session where
  "demo_session = (session_of demo_token ''jwt'' [(''sub'', JString ''alice'')] [(''sub'', JString ''alice'')])
     \<lparr>rsMessage := ''Signed in.''\<rparr>"

definition demo_log :: "(nat \<times> rp_event) list" where
  "demo_log =
     (let rnd = RpRandom (replicate 32 (CHR 0x07)) in
      [(0, RpSetup (Some (Inr demo_found)) None), (0, rnd), (0, rnd), (0, RpVerifier ''verifier''), (0, RpTime 0),
       (0, rnd), (0, RpPutPending demo_id demo_pending), (0, RpConnection (Some demo_connection)),
       (1, RpSetup None None), (1, RpTakePending demo_id (Some demo_pending)), (1, RpTime minute),
       (1, RpConnection (Some demo_connection)), (1, RpExchange demo_oauth ''c0de'' ''verifier'' (Inr demo_token)),
       (1, RpConnection (Some demo_connection)), (1, RpVerify ''rp'' ''jwt'' (Inr demo_idToken)),
       (1, RpUserInfo demo_token (Inr \<lparr>uiSubject = ''alice'', uiClaims = Inr [(''sub'', JString ''alice'')]\<rparr>)),
       (1, rnd), (1, RpPutSession demo_id demo_session)])"

lemma demo_connected: "setup_found (rpCfg demo_rp) (Inr demo_found) = Inr demo_connection"
  by (simp add: setup_found_def demo_found_def demo_connection_def demo_rp_def demo_oauth_def)

lemma demo_sel:
  "lbMux (rpLib demo_rp) (demo_get path q cs) = Some (''GET '' @ path)" "rQuery (demo_get path q cs) = q"
  "request_Cookie (demo_get path q cs) n = map_of cs n" "rcIssuer (rpCfg demo_rp) = ''https://op.example''"
  "plState demo_pending = demo_id" "plNonce demo_pending = demo_id" "plVerifier demo_pending = ''verifier''"
  "coOAuth demo_connection = demo_oauth" "coVerifier demo_connection = ''rp''"
  "otExtra demo_token = [(''id_token'', JString ''jwt'')]"
  "time_Sub minute (plCreated demo_pending) \<le> 10 * minute"
  by (simp_all add: demo_rp_def demo_lib_def demo_get_def request_Cookie_def demo_pending_def demo_connection_def
      demo_token_def time_Sub_def min_duration_def max_duration_def minute_def second_def)

lemma demo_checks:
  "callback_refused demo_rp (demo_get ''/callback'' [(''state'', [demo_id]), (''iss'', [''https://op.example'']), (''code'', [''c0de''])] cs)
     True (Some demo_pending) = None"
  "check_id_token demo_rp demo_token demo_id demo_idToken = Inr [(''sub'', JString ''alice'')]"
  "check_user_info demo_idToken \<lparr>uiSubject = ''alice'', uiClaims = Inr m\<rparr> = Inr m"
  by (simp_all add: callback_refused_def Let_def demo_sel values_Get_def check_id_token_def check_user_info_def demo_idToken_def)

lemma demo_run: "\<exists>qs st. rp_run demo_rp demo_reqs demo_log qs st"
proof -
  have "\<exists>qs st. rp_replay (rpCfg demo_rp) (map (rp_Handler demo_rp fresh_writer) demo_reqs) rp_New demo_log = Some (qs, st)"
    by (simp add: demo_log_def demo_reqs_def rp_Handler_def demo_sel rp_New_def rp_login_def rp_callback_def Let_def
        rp_bind_assoc rp_next_calls demo_connected demo_id_def [symmetric] demo_pending_def [symmetric] connected_def
        pendingCookie_def rp_age_ok_def demo_checks rp_exchange_def values_Get_def [of _ "''code''"] verifyTokens_def
        rp_signed_in_def demo_session_def [symmetric])
  then obtain qs st where "rp_replay (rpCfg demo_rp) (map (rp_Handler demo_rp fresh_writer) demo_reqs) rp_New demo_log = Some (qs, st)"
    by blast
  from rp_replay_run [OF rp_run_start this] show ?thesis by auto
qed

lemma relying_party_sessions_witness:
  "(1, RpPutSession demo_id demo_session) \<in> set demo_log \<and>
   (\<exists>v p. session_started demo_rp (demo_reqs ! 1) {ev. (1, ev) \<in> set demo_log} v p demo_session)"
proof -
  obtain qs st where run: "rp_run demo_rp demo_reqs demo_log qs st" using demo_run by blast
  have put: "(1, RpPutSession demo_id demo_session) \<in> set demo_log" by (simp add: demo_log_def Let_def)
  have "lbMux (rpLib demo_rp) (demo_reqs ! 1) \<noteq> Some ''POST /refresh''" by (simp add: demo_reqs_def demo_sel)
  with relying_party_sessions [OF run put] put show ?thesis by blast
qed

section \<open>A refresh beside a logout\<close>

text \<open>
  A refresh that is under way when the end-user logs out puts its session when the logout has deleted the
  old one, and the session is there again; and verifyTokens does not compare the subject of a refreshed ID
  token with that of the session (OpenID Connect Core 12.2), so that it can be another one.
\<close>

definition late_post :: "string \<Rightarrow> Request" where
  "late_post path = (demo_get path [] [(''rp_session'', demo_id)])\<lparr>rMethod := ''POST''\<rparr>"

definition late_idToken :: id_token where
  "late_idToken = \<lparr>itSubject = ''mallory'', itNonce = [], itAccessTokenHash = [], itClaims = Inr [(''sub'', JString ''mallory'')]\<rparr>"

definition late_session :: rp_session where
  "late_session = (session_of demo_token ''jwt'' [(''sub'', JString ''mallory'')] [(''sub'', JString ''mallory'')])
     \<lparr>rsMessage := ''Tokens refreshed; the refresh token was rotated.''\<rparr>"

definition late_revocation :: http_call where
  "late_revocation = \<lparr>hcMethod = ''POST'', hcURL = [], hcContentType = ''application/x-www-form-urlencoded'',
     hcBasicAuth = (url_QueryEscape ''rp'', url_QueryEscape ''s3cret''), hcBody = values_Encode [(''token'', [''rt''])]\<rparr>"

text \<open>Requests 0 and 1 sign in; request 2 refreshes and request 3 logs out.\<close>

definition late_log :: "(nat \<times> rp_event) list" where
  "late_log =
     [(2, RpSession demo_id (Some (0, demo_session))), (2, RpConnection (Some demo_connection)),
      (2, RpRefresh demo_oauth ''rt'' (Inr demo_token)), (2, RpConnection (Some demo_connection)),
      (2, RpVerify ''rp'' ''jwt'' (Inr late_idToken)),
      (2, RpUserInfo demo_token (Inr \<lparr>uiSubject = ''mallory'', uiClaims = Inr [(''sub'', JString ''mallory'')]\<rparr>)),
      (3, RpSession demo_id (Some (0, demo_session))), (3, RpConnection (Some demo_connection)),
      (3, RpDo late_revocation (Inr \<lparr>haStatusCode = 200, haBody = Inr []\<rparr>)), (3, RpDeleteSession demo_id),
      (2, RpPutSession demo_id late_session)]"

lemma late_sel:
  "lbMux (rpLib demo_rp) (late_post path) = Some (''POST '' @ path)" "request_Cookie (late_post path) ''rp_session'' = Some demo_id"
  "rsToken demo_session = demo_token" "otRefreshToken demo_token = ''rt''" "rcClientID (rpCfg demo_rp) = ''rp''"
  "rcClientSecret (rpCfg demo_rp) = ''s3cret''" "coRevokeURL demo_connection = []"
  by (simp_all add: demo_rp_def demo_lib_def demo_get_def late_post_def request_Cookie_def demo_session_def session_of_def
      demo_token_def demo_connection_def)

lemma late_checks:
  "check_id_token demo_rp demo_token [] late_idToken = Inr [(''sub'', JString ''mallory'')]"
  "check_user_info late_idToken \<lparr>uiSubject = ''mallory'', uiClaims = Inr m\<rparr> = Inr m"
  by (simp_all add: check_id_token_def check_user_info_def late_idToken_def)

lemma parse_empty: "Option.is_none (url_Parse []) = False"
  by code_simp

lemma rp_next_more:
  "rp_next (rp_bind (client_Do q) f1) (RpDo q r) = Some (f1 r)"
  "rp_next (rp_bind (delete_session i) f2) (RpDeleteSession i) = Some (f2 ())"
  by (simp_all add: client_Do_def delete_session_def)

lemma refresh_after_logout:
  "\<exists>qs st. rp_run demo_rp (demo_reqs @ [late_post ''/refresh'', late_post ''/logout'']) (demo_log @ late_log) qs st \<and>
     raSessions st demo_id = Some 1 \<and> raObjects st 1 = Some late_session"
proof -
  obtain u where u: "url_Parse [] = Some u" using parse_empty by (auto simp: Option.is_none_def)
  have "\<exists>qs st. rp_replay (rpCfg demo_rp)
      (map (rp_Handler demo_rp fresh_writer) (demo_reqs @ [late_post ''/refresh'', late_post ''/logout'']))
      rp_New (demo_log @ late_log) = Some (qs, st) \<and> raSessions st demo_id = Some 1 \<and> raObjects st 1 = Some late_session"
    by (simp add: demo_log_def late_log_def demo_reqs_def rp_Handler_def demo_sel late_sel rp_New_def rp_login_def rp_callback_def Let_def
        rp_bind_assoc rp_next_calls rp_next_more demo_connected demo_id_def [symmetric] demo_pending_def [symmetric] connected_def
        pendingCookie_def sessionCookie_def rp_age_ok_def demo_checks rp_exchange_def values_Get_def [of _ "''code''"] verifyTokens_def
        rp_signed_in_def demo_session_def [symmetric] rp_refresh_def rp_logout_def rp_currentSession_def late_checks
        late_session_def [symmetric] rp_url_def postClientAuthenticated_def u late_revocation_def [symmetric] rp_home_again_def)
  then obtain qs st where *: "rp_replay (rpCfg demo_rp)
      (map (rp_Handler demo_rp fresh_writer) (demo_reqs @ [late_post ''/refresh'', late_post ''/logout'']))
      rp_New (demo_log @ late_log) = Some (qs, st)" "raSessions st demo_id = Some 1" "raObjects st 1 = Some late_session"
    by blast
  from rp_replay_run [OF rp_run_start *(1)] *(2,3) show ?thesis by auto
qed

end
