(* ===== verification/Spec2Isabelle.thy ===== *)
theory Spec2Isabelle
  imports Grantor_TokenProps Grantor_RequestProps Grantor_RevocationProps Grantor_ServerProps
    Grantor_WireProps Grantor_CredentialProps Grantor_ClaimProps Grantor_CostProps Grantor_StoreProps
    Grantor_StorageTestProps Grantor_ProvenanceProps Grantor_MintRefs Grantor_MemoryRefs Grantor_PointerTest
    Example_OpappSafety Example_RpappProps
begin

text \<open>
  A model of grantor, an OAuth 2.1 authorization server and OpenID Connect provider library in Go, with
  its in-memory store, the conformance suite for stores, the example providers and the example relying party.

  \<^bold>\<open>The program.\<close> A \<^verbatim>\<open>Provider\<close> is built from a \<^verbatim>\<open>Config\<close> and serves HTTP. The authorization endpoint
  parses a request, saves it in the storage and hands it to the application, which logs the end-user in
  and calls \<^verbatim>\<open>Approve\<close> or \<^verbatim>\<open>Deny\<close>; the response with the code goes to the client by way of the user
  agent. A client may also push the request first and send a \<^verbatim>\<open>request_uri\<close>. At the token endpoint the
  client authenticates and exchanges the code, a refresh token or its own credentials for tokens; at the
  other endpoints tokens are introspected, revoked, and used to read claims. The provider keeps no state:
  requests, codes, tokens and the identifiers of client assertions are in the \<^verbatim>\<open>Storage\<close>, which many
  requests use at once. The application's part are functions of the configuration.

  \<^bold>\<open>How it is modelled.\<close> Pure functions of the sources are HOL functions with the same name. A method
  that calls the storage, the client store, the clock or the random source is a \<open>prog\<close> of
  Grantor_Effects: the tree of its calls, one constructor for each of the operations of storage.go. Errors
  are values (\<open>goerr\<close>, \<open>perror\<close>, the left of a sum), nil is \<open>None\<close>. The property of a method is
  mostly one of \<open>performs\<close>, the lists of calls with their answers that one execution can have, whatever
  the environment answers; properties of many requests are about \<open>concurrent\<close>, the interleavings of
  their calls against an implementation of the storage. The locale \<open>storage_contract\<close> is what
  storage.go documents of an implementation; memory.Store interprets it (\<open>memory\<close>), and the theorems
  about concurrent requests hold for every implementation that satisfies it.

  \<^bold>\<open>The theories\<close>, with the files of src/ they translate:

  \<^item> Grantor_Prelude, Go_Encoding, Go_Sha512, Go_Url, Go_Json, Go_Http: strings as bytes, instants,
    maps, and the parts of the Go standard library the sources use, computed and not assumed: base64,
    SHA-2, query escaping, \<^verbatim>\<open>url.Parse\<close>, ParseIP, JSON values, requests and responses.
  \<^item> Grantor_Types, Grantor_Errors (errors.go), Grantor_Client (client.go), Grantor_Records
    (records.go), Grantor_Params (params.go), Grantor_Pkce (pkce.go), Grantor_Keys (keys.go),
    Grantor_Config and Grantor_Provider (provider.go, endpoints.go, claims.go).
  \<^item> Grantor_Effects (storage.go), Grantor_Storage (the contract), Grantor_Memory (memory/memory.go).
  \<^item> Grantor_Issue (issue.go, accesstoken.go, idtoken.go), Grantor_ClientAuth (clientauth.go),
    Grantor_Token (token.go).
  \<^item> Grantor_Respond, Grantor_Parse and Grantor_Authorize (authorize.go, formpost.go), Grantor_Check
    and Grantor_Approve (approve.go), Grantor_Par (par.go).
  \<^item> Grantor_Resource (revoke.go, introspect.go, userinfo.go, validate.go), Grantor_Server
    (discovery.go, and the routing of provider.go and endpoints.go).
  \<^item> Grantor_StorageTest (storagetest/storagetest.go).
  \<^item> Go_Heap, Grantor_Copies (\<^verbatim>\<open>copyJSON\<close> of claims.go, \<^verbatim>\<open>clone\<close> of accesstoken.go and client.go),
    Grantor_MintRefs (\<^verbatim>\<open>mintTokens\<close> of token.go and \<^verbatim>\<open>encodeAccessToken\<close> of accesstoken.go, up to the ID
    token), Grantor_MemoryRefs (memory/memory.go with its pointers) and Grantor_PointerTest (the test of the suite
    that returned records are copies): the code whose purpose is that two holders of a value share nothing
    is modelled again, over a heap of objects at addresses.
  \<^item> Example_Opapp (examples/internal/opapp/opapp.go) and Example_Lowlevel (examples/lowlevel/server.go,
    examples/internal/demo/demo.go, the clients of examples/conformance/main.go), Example_Rpapp
    (examples/internal/rpapp/rpapp.go), whose handlers are programs of their own (\<open>rp\<close>) over the sections
    under the mutexes, the libraries' calls and the network.

  \<^bold>\<open>What is shown.\<close>

  \<^item> Grantor_TokenFacts, Grantor_TokenSafety, Grantor_TokenProps, Grantor_TokenEndpoint: the outcome of
    each grant on each branch; a code or refresh token is redeemed once in any interleaving, revoking its
    grant leaves nothing of it behind, a failed exchange leaves an unused one usable, and no token is
    stored beyond the registration of a client that authenticated.
  \<^item> Grantor_ProvenanceProps: the tokens of an end-user descend from a code that Approve issued for that
    end-user, whatever requests interleave.
  \<^item> Grantor_ParseFacts, Grantor_ApproveFacts, Grantor_RequestFacts, Grantor_RequestSafety,
    Grantor_RequestProps: parsed requests are valid and bounded, errors go to registered redirect URIs
    only, a saved request is completed once and a pushed one redeemed once, and what an approval or a
    denial stores and answers, with the reason it was given.
  \<^item> Grantor_AssertionProps, Grantor_CredentialProps, Grantor_ClaimProps, Grantor_WireProps: credentials
    prove what they should, assertions are used once, signed tokens keep the protocol's claims, and
    clients read what the provider sent, in each response mode.
  \<^item> Grantor_ResourceProps, Grantor_RevocationProps: who learns what about a token, that the three uses of
    a token agree on whether it is valid, and that a revoked token is not yielded again.
  \<^item> Grantor_ServerProps, Grantor_CostProps: the configurations New accepts, the routing and the metadata
    that describes it, an answer for every request, and the bound on its calls.
  \<^item> Grantor_StoreProps, Grantor_StorageTestProps: memory.Store implements the contract, returns what it
    was given, and passes the conformance suite in every interleaving of the suite's goroutines.
  \<^item> Grantor_Copies, Grantor_MintRefs, Grantor_MemoryRefs, Grantor_PointerTest: what an access token
    encoder writes changes neither the records nor the response that are minted; the store with pointers does what the store of values does, whatever its callers write
    through the pointers they have, passes the test for copies, and a store that shares records fails it.
  \<^item> Example_OpappProps, Example_OpappSafety: the example provider issues codes to end-users who signed
    in with their password, for the scopes they consented to.
  \<^item> Example_RpappProps: the example relying party starts sessions for logins it started only, after
    every check of the callback, and never reads what discovery found before it is there, in every
    interleaving of its handlers.
  \<^item> Grantor_Sample, Grantor_RequestSample, Grantor_ResourceSample and Go_Sha256_Eval hold a small
    deployment on which the properties are applied; they model no code.

  \<^bold>\<open>Bounds.\<close> The loops of the sources are over finite data, or are searches with a measure. Only
  \<^verbatim>\<open>copyJSON\<close>, and the reading of documents, which recurse over objects on the heap, have fuel, for the depth of the stack: more than the
  size of the document is enough, which \<open>copyJSON_copies\<close> proves. Programs are finite trees, so that every method ends; Grantor_CostProps bounds the
  calls. A random value is any 32 bytes; where a property needs values to be fresh, it says which. The
  conformance suite is run with its 32 goroutines, reads fewer than 16 random values in a test, which
  are assumed to differ, and assumes that a test takes less than a minute. Durations are those of
  int64 where an overflow matters (\<open>time_Sub\<close> saturates, \<^verbatim>\<open>max_age\<close> is bounded).

  \<^bold>\<open>Parameters.\<close> go-jose (signing, parsing and verifying JWTs, JWKS) and the decoding of JSON documents
  are the record \<open>jose\<close>; the functions of the application are arbitrary functions in the
  configuration. For the examples, bcrypt, HTML templates, the parsing of forms and http.ServeMux are the
  fields of \<open>environment\<close>; for the relying party, the pure functions of oauth2 and go-oidc are those of
  \<open>rp_library\<close>, and what their calls and the network answer is arbitrary.

  \<^bold>\<open>Not modelled.\<close> Logging, and contexts and their cancellation. Outside the theories over a heap,
  records are values, which the refinement of Grantor_MemoryRefs justifies for memory.Store; another storage
  that keeps references to the records it was given is not covered by the contract. Texts of errors that
  are only logged are abbreviated. HTML templates are not executed. The example programs' \<^verbatim>\<open>main\<close> functions,
  and the flags, certificate and listener of the conformance program, are input and output; doc.go is a
  comment.

  \<^bold>\<open>Boundaries found.\<close> \<open>query_open_loses_code\<close> (Grantor_WireProps): a redirect URI whose query ends
  with a question mark loses the code. \<open>metadata_shadows_endpoint\<close> (Grantor_ServerProps): with an
  issuer path below \<^verbatim>\<open>/.well-known\<close>, an endpoint path can be shadowed by the metadata. A client assertion
  is accepted up to and including the instant at which its claim in the storage expires.
  \<open>refresh_after_logout\<close> (Example_RpappProps): the relying party's refresh restores a session that a logout
  deleted meanwhile, and does not compare the subject of the new ID token with that of the session.
\<close>

end
